(* ===== verification/Prelude.thy ===== *)
theory Prelude
  imports Main "HOL-Library.Word"
begin

text \<open>
  Shared vocabulary of the development: the machine integers of
  src/GXRuntime/include/core/types.h, byte-addressed storage with the big-endian access
  loops that every register file and guest memory of the runtime repeats, and the
  word lemmas the component theories use.

  A block of bytes is a function from a 32-bit offset to a byte, so offset arithmetic
  wraps exactly as the u32 arithmetic of the C code does.  The functions
  \<open>be_load\<close> and \<open>be_store\<close> are the loops
  \<open>for (i = 0; i < size; i++) value = (value << 8) | data[offset + i]\<close> and
  \<open>for (i = 0; i < size; i++) data[offset + size - 1 - i] = (u8)(value >> (8 * i))\<close>.
\<close>

unbundle bit_operations_syntax

section \<open>Machine integers\<close>

type_synonym u8 = "8 word"
type_synonym u16 = "16 word"
type_synonym u32 = "32 word"
type_synonym u64 = "64 word"

type_synonym bytes = "u32 \<Rightarrow> u8"

named_theorems guard_defs \<open>address-window predicates, unfolded to interval arithmetic\<close>
named_theorems frame_simps \<open>which fields an operation leaves alone\<close>

abbreviation flag_set :: "'a::len word \<Rightarrow> 'a word \<Rightarrow> bool" where
  "flag_set x m \<equiv> x AND m \<noteq> 0"

definition zero_bytes :: bytes where
  "zero_bytes = (\<lambda>_. 0)"

lemma zero_bytes_apply [simp]: "zero_bytes a = 0"
  by (simp add: zero_bytes_def)

section \<open>Word lemmas\<close>

lemma of_nat_u32_eq_iff:
  assumes "i < 2 ^ 32" and "j < 2 ^ 32"
  shows "(of_nat i :: u32) = of_nat j \<longleftrightarrow> i = j"
proof
  assume "(of_nat i :: u32) = of_nat j"
  then have "unat (of_nat i :: u32) = unat (of_nat j :: u32)" by simp
  with assms show "i = j" by (simp add: unat_of_nat)
qed simp

lemma bit_u64_ucast_u8:
  "bit (ucast (x :: u8) :: u64) j \<longleftrightarrow> j < 8 \<and> bit x j"
  by (auto simp: bit_simps dest: bit_imp_le_length)

lemma ucast_widen_narrow [simp]:
  "ucast (ucast (x :: u8) :: u64) = x" "ucast (ucast (y :: u16) :: u64) = y"
  "ucast (ucast (z :: u32) :: u64) = z"
  by (rule bit_word_eqI; auto simp: bit_simps)+

lemma and_not_mask_disjoint:
  fixes x m n :: "'a::len word"
  assumes "m AND n = 0"
  shows "(x AND NOT m) AND n = x AND n"
proof (rule bit_word_eqI)
  fix k assume k: "k < LENGTH('a)"
  have "bit (m AND n) k = bit (0 :: 'a word) k" by (simp add: assms)
  then have "\<not> (bit m k \<and> bit n k)" by (simp add: bit_simps)
  with k show "bit ((x AND NOT m) AND n) k = bit (x AND n) k"
    by (auto simp: bit_simps)
qed

lemma or_mask_disjoint:
  fixes x m n :: "'a::len word"
  assumes "m AND n = 0"
  shows "(x OR m) AND n = x AND n"
proof (rule bit_word_eqI)
  fix k assume k: "k < LENGTH('a)"
  have "bit (m AND n) k = bit (0 :: 'a word) k" by (simp add: assms)
  then have "\<not> (bit m k \<and> bit n k)" by (simp add: bit_simps)
  with k show "bit ((x OR m) AND n) k = bit (x AND n) k"
    by (auto simp: bit_simps)
qed

lemma and_not_self_mask [simp]:
  fixes x m :: "'a::len word"
  shows "(x AND NOT m) AND m = 0"
  by (rule bit_word_eqI) (auto simp: bit_simps)

lemma or_self_mask [simp]:
  fixes x m :: "'a::len word"
  shows "(x OR m) AND m = m"
  by (rule bit_word_eqI) (auto simp: bit_simps)

lemma flag_set_bit: "flag_set x m \<longleftrightarrow> (\<exists>k. bit x k \<and> bit m k)"
  for x m :: "'a::len word"
  by (auto simp: bit_eq_iff bit_and_iff dest: bit_imp_le_length)

lemma flag_set_or: "flag_set (x OR y) m \<longleftrightarrow> flag_set x m \<or> flag_set y m"
  for x y m :: "'a::len word"
  unfolding flag_set_bit bit_or_iff by blast

lemma flag_set_or_mask: "flag_set x (m OR n) \<longleftrightarrow> flag_set x m \<or> flag_set x n"
  for x m n :: "'a::len word"
  unfolding flag_set_bit bit_or_iff by blast

lemma and_masked_zero: "x AND m = 0 \<Longrightarrow> (x AND y) AND m = 0"
  for x y m :: "'a::len word"
  by (metis and.assoc and.commute and_zero_eq)

text \<open>Masks of masks: with these, \<open>simp\<close> evaluates an AND with a constant through any nesting.\<close>

lemmas mask_simps = and.assoc word_ao_dist

section \<open>First-minimum scans\<close>

text \<open>
  The body of a loop over slots \<open>0 .. n - 1\<close> that keeps the slot with the smallest key
  among the slots that qualify; on a tie the lower slot stays.
\<close>

definition scan_step ::
  "(nat \<Rightarrow> 'k::linorder) \<Rightarrow> (nat \<Rightarrow> bool) \<Rightarrow> nat \<Rightarrow> nat option \<Rightarrow> nat option" where
  "scan_step key ok i best =
     (if ok i
      then (case best of None \<Rightarrow> Some i | Some b \<Rightarrow> if key i < key b then Some i else best)
      else best)"

definition first_min :: "(nat \<Rightarrow> 'k::linorder) \<Rightarrow> (nat \<Rightarrow> bool) \<Rightarrow> nat \<Rightarrow> nat option" where
  "first_min key ok n = fold (scan_step key ok) [0..<n] None"

lemma first_min_Suc:
  "first_min key ok (Suc n) = scan_step key ok n (first_min key ok n)"
  by (simp add: first_min_def)

lemma first_min_spec:
  "case first_min key ok n of
     None \<Rightarrow> \<forall>i<n. \<not> ok i
   | Some b \<Rightarrow> b < n \<and> ok b \<and> (\<forall>i<n. ok i \<longrightarrow> key b \<le> key i) \<and> (\<forall>i<b. ok i \<longrightarrow> key b < key i)"
proof (induction n)
  case 0
  then show ?case by (simp add: first_min_def)
next
  case (Suc n)
  then show ?case
    by (fastforce simp: first_min_Suc scan_step_def less_Suc_eq split: option.splits if_splits)
qed

lemma first_min_None: "first_min key ok n = None \<longleftrightarrow> (\<forall>i<n. \<not> ok i)"
  using first_min_spec[where key = key and ok = ok and n = n] by (auto split: option.splits)

lemma first_min_SomeD:
  assumes "first_min key ok n = Some b"
  shows "b < n" and "ok b" and "\<And>i. i < n \<Longrightarrow> ok i \<Longrightarrow> key b \<le> key i"
    and "\<And>i. i < b \<Longrightarrow> ok i \<Longrightarrow> key b < key i"
  using first_min_spec[where key = key and ok = ok and n = n] assms by auto

lemma first_min_eq_Some:
  "first_min key ok n = Some b \<longleftrightarrow>
   b < n \<and> ok b \<and> (\<forall>i<n. ok i \<longrightarrow> key b \<le> key i) \<and> (\<forall>i<b. ok i \<longrightarrow> key b < key i)"
  (is "?l \<longleftrightarrow> ?r")
proof
  assume ?l
  with first_min_spec[where key = key and ok = ok and n = n] show ?r by simp
next
  assume r: ?r
  then obtain c where c: "first_min key ok n = Some c"
    by (cases "first_min key ok n") (auto simp: first_min_None)
  note c' = first_min_SomeD[OF c]
  have "\<not> c < b" using r c' by (meson leD)
  moreover have "\<not> b < c" using r c' by (meson leD)
  ultimately show ?l using c by simp
qed

lemma find_upt_Some:
  "find P [0..<n] = Some i \<longleftrightarrow> i < n \<and> P i \<and> (\<forall>j<i. \<not> P j)"
  by (auto simp: find_Some_iff)

lemma find_upt_None: "find P [0..<n] = None \<longleftrightarrow> (\<forall>i<n. \<not> P i)"
  by (auto simp: find_None_iff)

section \<open>Ranges and alignment\<close>

lemma fits_nat: "off \<le> limit \<and> sz \<le> limit - off \<longleftrightarrow> unat off + unat sz \<le> unat limit"
  for off sz limit :: "'a::len word"
proof (cases "off \<le> limit")
  case True
  then have "unat (limit - off) = unat limit - unat off" by (rule unat_sub)
  with True show ?thesis by (auto simp: word_le_nat_alt)
qed (auto simp: word_le_nat_alt)

lemma aligned_nat: "x AND 3 = 0 \<longleftrightarrow> 4 dvd unat x" for x :: u32
proof -
  have "x AND 3 = take_bit 2 x" by (simp add: take_bit_eq_mask mask_eq_exp_minus_1)
  then have "unat (x AND 3) = unat x mod 4" by (simp add: take_bit_eq_mod unat_mod)
  then show ?thesis by (metis dvd_eq_mod_eq_0 unat_eq_0)
qed

section \<open>Big-endian access loops\<close>

primrec be_load :: "bytes \<Rightarrow> u32 \<Rightarrow> nat \<Rightarrow> u64" where
  "be_load b off 0 = 0"
| "be_load b off (Suc i) = push_bit 8 (be_load b off i) OR ucast (b (off + of_nat i))"

primrec be_store_iter :: "bytes \<Rightarrow> u32 \<Rightarrow> nat \<Rightarrow> u64 \<Rightarrow> nat \<Rightarrow> bytes" where
  "be_store_iter b off n v 0 = b"
| "be_store_iter b off n v (Suc i) =
     (be_store_iter b off n v i)(off + of_nat (n - 1 - i) := ucast (drop_bit (8 * i) v))"

definition be_store :: "bytes \<Rightarrow> u32 \<Rightarrow> nat \<Rightarrow> u64 \<Rightarrow> bytes" where
  "be_store b off n v = be_store_iter b off n v n"

definition cells :: "u32 \<Rightarrow> nat \<Rightarrow> u32 set" where
  "cells off n = (\<lambda>i. off + of_nat i) ` {..<n}"

lemma cells_memI: "i < n \<Longrightarrow> off + of_nat i \<in> cells off n"
  by (auto simp: cells_def)

lemma be_load_cong:
  "(\<And>a. a \<in> cells off n \<Longrightarrow> b a = c a) \<Longrightarrow> be_load b off n = be_load c off n"
proof (induction n)
  case (Suc n)
  from Suc.prems have "b (off + of_nat n) = c (off + of_nat n)"
    by (simp add: cells_memI)
  moreover have "be_load b off n = be_load c off n"
    by (rule Suc.IH) (auto intro!: Suc.prems simp: cells_def)
  ultimately show ?case by simp
qed simp

lemma be_store_iter_frame:
  "k \<le> n \<Longrightarrow> a \<notin> cells off n \<Longrightarrow> be_store_iter b off n v k a = b a"
proof (induction k)
  case (Suc k)
  then have "off + of_nat (n - 1 - k) \<in> cells off n"
    by (intro cells_memI) simp
  with Suc.prems have "a \<noteq> off + of_nat (n - 1 - k)" by blast
  with Suc show ?case by simp
qed simp

lemma be_store_frame: "a \<notin> cells off n \<Longrightarrow> be_store b off n v a = b a"
  by (simp add: be_store_def be_store_iter_frame)

lemma be_store_iter_get:
  assumes "n \<le> 2 ^ 32" and "i < n"
  shows "k \<le> n \<Longrightarrow> be_store_iter b off n v k (off + of_nat i) =
    (if n - 1 - i < k then ucast (drop_bit (8 * (n - 1 - i)) v) else b (off + of_nat i))"
proof (induction k)
  case (Suc k)
  have "(of_nat i :: u32) = of_nat (n - 1 - k) \<longleftrightarrow> i = n - 1 - k"
    using assms Suc.prems by (intro of_nat_u32_eq_iff) auto
  moreover have "i = n - 1 - k \<longleftrightarrow> k = n - 1 - i"
    using assms Suc.prems by auto
  ultimately show ?case using Suc by (auto simp: less_Suc_eq)
qed simp

lemma be_store_get:
  assumes "n \<le> 2 ^ 32" and "i < n"
  shows "be_store b off n v (off + of_nat i) = ucast (drop_bit (8 * (n - 1 - i)) v)"
  using assms by (simp add: be_store_def be_store_iter_get)

lemma be_load_eq_sum_bits:
  assumes "n \<le> 8"
  shows "bit (be_load b off n) j \<longleftrightarrow>
    j < 8 * n \<and> bit (b (off + of_nat (n - 1 - j div 8))) (j mod 8)"
  using assms
proof (induction n arbitrary: j)
  case (Suc n)
  show ?case
  proof (cases "j < 8")
    case True
    then have "bit (be_load b off (Suc n)) j \<longleftrightarrow> bit (b (off + of_nat n)) j"
      by (auto simp: bit_simps bit_u64_ucast_u8)
    with True show ?thesis by simp
  next
    case False
    then obtain k where j: "j = k + 8" using le_Suc_ex[of 8 j] by (auto simp: add.commute)
    have "bit (be_load b off (Suc n)) j \<longleftrightarrow> j < 64 \<and> bit (be_load b off n) k"
      using j by (auto simp: bit_simps bit_u64_ucast_u8 dest: bit_imp_le_length)
    also have "bit (be_load b off n) k \<longleftrightarrow>
        k < 8 * n \<and> bit (b (off + of_nat (n - 1 - k div 8))) (k mod 8)"
      using Suc.prems by (intro Suc.IH) simp
    also have "j < 64 \<and> k < 8 * n \<and> P \<longleftrightarrow> j < 8 * Suc n \<and> P" for P
      using j Suc.prems by auto
    also have "n - 1 - k div 8 = Suc n - 1 - j div 8" using j by simp
    also have "k mod 8 = j mod 8" using j by simp
    finally show ?thesis .
  qed
qed simp

lemma be_load_store_same:
  assumes "n \<le> 8"
  shows "be_load (be_store b off n v) off n = take_bit (8 * n) v"
proof (rule bit_word_eqI)
  fix j assume j: "j < LENGTH(64)"
  show "bit (be_load (be_store b off n v) off n) j = bit (take_bit (8 * n) v) j"
  proof (cases "j < 8 * n")
    case True
    let ?i = "n - 1 - j div 8"
    from True have i: "?i < n" and d: "n - 1 - ?i = j div 8" by auto
    have "be_store b off n v (off + of_nat ?i) = ucast (drop_bit (8 * (j div 8)) v)"
      using be_store_get[of n ?i b off v] assms i d by simp
    then have "bit (be_load (be_store b off n v) off n) j \<longleftrightarrow> bit v (8 * (j div 8) + j mod 8)"
      using True assms by (simp add: be_load_eq_sum_bits bit_simps)
    with True show ?thesis by (simp add: bit_simps)
  next
    case False
    with assms show ?thesis by (simp add: be_load_eq_sum_bits bit_simps)
  qed
qed

lemma be_load_store_disjoint:
  "cells off n \<inter> cells off' m = {} \<Longrightarrow>
   be_load (be_store b off n v) off' m = be_load b off' m"
  by (rule be_load_cong, rule be_store_frame) blast

lemma be_store_load_id:
  assumes "n \<le> 8"
  shows "be_store b off n (be_load b off n) = b"
proof
  fix a
  show "be_store b off n (be_load b off n) a = b a"
  proof (cases "a \<in> cells off n")
    case True
    then obtain i where i: "i < n" "a = off + of_nat i" by (auto simp: cells_def)
    have "ucast (drop_bit (8 * (n - 1 - i)) (be_load b off n)) = b (off + of_nat i)"
    proof (rule bit_word_eqI)
      fix j assume "j < LENGTH(8)"
      then show "bit (ucast (drop_bit (8 * (n - 1 - i)) (be_load b off n)) :: u8) j =
          bit (b (off + of_nat i)) j"
        using assms i by (auto simp: bit_simps be_load_eq_sum_bits div_add1_eq)
    qed
    with i assms show ?thesis by (simp add: be_store_get)
  qed (rule be_store_frame)
qed

lemma be_load_bound: "n \<le> 8 \<Longrightarrow> take_bit (8 * n) (be_load b off n) = be_load b off n"
  by (rule bit_word_eqI) (auto simp: bit_simps be_load_eq_sum_bits)

section \<open>Cells of an aligned window\<close>

lemma cells_in_window:
  assumes "unat off + n \<le> len" and "len \<le> 2 ^ 32" and "a \<in> cells off n"
  shows "unat a < len"
proof -
  from assms(3) obtain i where i: "i < n" "a = off + of_nat i" by (auto simp: cells_def)
  have "unat (of_nat i :: u32) \<le> i" by (simp add: unat_of_nat)
  moreover have "unat a \<le> unat off + unat (of_nat i :: u32)"
    using i by (simp add: unat_word_ariths)
  ultimately show ?thesis using assms i by linarith
qed

lemma cells_disjoint:
  assumes "unat off + n \<le> 2 ^ 32" and "unat off' + m \<le> 2 ^ 32"
    and "unat off + n \<le> unat off' \<or> unat off' + m \<le> unat off"
  shows "cells off n \<inter> cells off' m = {}"
proof -
  have *: "unat (p + of_nat i :: u32) = unat p + i" if "i < k" "unat p + k \<le> 2 ^ 32" for p i k
  proof -
    from that have "i < 2 ^ 32" by linarith
    then have "unat (of_nat i :: u32) = i" by (simp add: unat_of_nat)
    with that show ?thesis by (simp add: unat_word_ariths)
  qed
  show ?thesis
  proof (rule ccontr)
    assume "\<not> ?thesis"
    then obtain i j where ij: "i < n" "j < m" "off + of_nat i = off' + of_nat j"
      by (auto simp: cells_def)
    then have "unat off + i = unat off' + j"
      using *[OF ij(1) assms(1)] *[OF ij(2) assms(2)] by metis
    with assms(3) ij(1,2) show False by linarith
  qed
qed

section \<open>Interface: a window of byte-addressed storage\<close>

text \<open>
  Guest RAM, the VM window, the locked cache, ARAM and every register file promise the
  same thing: an access that falls inside reads back what was written there, and an
  access to other cells is not disturbed.  A client that writes a table of values (the
  OS globals at boot, a register image) relies on nothing else.
\<close>

locale byte_window =
  fixes rd :: "'s \<Rightarrow> u32 \<Rightarrow> nat \<Rightarrow> u64"
    and wr :: "'s \<Rightarrow> u32 \<Rightarrow> nat \<Rightarrow> u64 \<Rightarrow> 's"
    and inside :: "'s \<Rightarrow> u32 \<Rightarrow> nat \<Rightarrow> bool"
    and span :: "u32 \<Rightarrow> nat \<Rightarrow> u32 set"
  assumes rd_wr_same: "inside s a n \<Longrightarrow> rd (wr s a n v) a n = take_bit (8 * n) v"
    and rd_wr_other: "inside s a n \<Longrightarrow> inside s a' m \<Longrightarrow> span a n \<inter> span a' m = {} \<Longrightarrow>
           rd (wr s a n v) a' m = rd s a' m"
    and inside_wr: "inside s a n \<Longrightarrow> inside (wr s a n v) a' m = inside s a' m"
begin

primrec write_table :: "'s \<Rightarrow> (u32 \<times> nat \<times> u64) list \<Rightarrow> 's" where
  "write_table s [] = s"
| "write_table s (e # es) = write_table (wr s (fst e) (fst (snd e)) (snd (snd e))) es"

primrec table_ok :: "'s \<Rightarrow> (u32 \<times> nat \<times> u64) list \<Rightarrow> bool" where
  "table_ok s [] = True"
| "table_ok s (e # es) = (inside s (fst e) (fst (snd e)) \<and>
     (\<forall>e' \<in> set es. span (fst e) (fst (snd e)) \<inter> span (fst e') (fst (snd e')) = {}) \<and>
     table_ok s es)"

lemma table_ok_wr: "inside s a n \<Longrightarrow> table_ok (wr s a n v) es = table_ok s es"
  by (induction es) (auto simp: inside_wr)

lemma table_ok_inside: "table_ok s es \<Longrightarrow> e \<in> set es \<Longrightarrow> inside s (fst e) (fst (snd e))"
  by (induction es) auto

lemma write_table_other:
  "table_ok s es \<Longrightarrow> inside s a n \<Longrightarrow>
   (\<And>e. e \<in> set es \<Longrightarrow> span (fst e) (fst (snd e)) \<inter> span a n = {}) \<Longrightarrow>
   rd (write_table s es) a n = rd s a n"
proof (induction es arbitrary: s)
  case (Cons e es)
  then have "rd (write_table (wr s (fst e) (fst (snd e)) (snd (snd e))) es) a n =
      rd (wr s (fst e) (fst (snd e)) (snd (snd e))) a n"
    by (auto simp: table_ok_wr inside_wr intro!: Cons.IH)
  with Cons.prems show ?case by (simp add: rd_wr_other)
qed simp

theorem write_table_reads_back:
  "table_ok s es \<Longrightarrow> (a, n, v) \<in> set es \<Longrightarrow>
   rd (write_table s es) a n = take_bit (8 * n) v"
proof (induction es arbitrary: s)
  case (Cons e es)
  let ?s = "wr s (fst e) (fst (snd e)) (snd (snd e))"
  have ok: "table_ok ?s es" using Cons.prems(1) by (simp add: table_ok_wr)
  show ?case
  proof (cases "(a, n, v) = e")
    case True
    then have e: "fst e = a" "fst (snd e) = n" "snd (snd e) = v" by auto
    have "rd (write_table ?s es) a n = rd ?s a n"
      using ok Cons.prems(1) e by (intro write_table_other) (auto simp: inside_wr Int_commute)
    with Cons.prems(1) e show ?thesis by (simp add: rd_wr_same)
  next
    case False
    with Cons.prems ok show ?thesis by (simp add: Cons.IH)
  qed
qed simp

end

definition be_inside :: "bytes \<Rightarrow> u32 \<Rightarrow> nat \<Rightarrow> bool" where
  "be_inside b off n \<longleftrightarrow> n \<le> 8"

interpretation be_bytes: byte_window be_load be_store be_inside cells
  by unfold_locales (auto simp: be_inside_def be_load_store_same be_load_store_disjoint)

end
