(* ===== verification/GuestTypes.thy ===== *)
theory GuestTypes
  imports Prelude
begin

text \<open>
  The machine types of src/GXRuntime/include/core/types.h: sign extension, byte swaps, the
  memcpy-based big-endian accessors (on a little-endian host, the only kind the code's
  unconditional swap is right for) and the bit-level single/double conversions that the
  floating-point loads and stores use.  The accessors are shown to be the big-endian loops of
  the prelude, and storing a loaded single gives back the same 32 bits.
\<close>

section \<open>Sign extension and byte swaps\<close>

definition sign_extend :: "u32 \<Rightarrow> nat \<Rightarrow> u32" where
  "sign_extend value bits =
     (let m = push_bit (bits - 1) 1 :: u32 in (value XOR m) - m)"

definition bswap16 :: "u16 \<Rightarrow> u16" where
  "bswap16 v = push_bit 8 v OR drop_bit 8 v"

definition bswap32 :: "u32 \<Rightarrow> u32" where
  "bswap32 v = push_bit 24 v OR (push_bit 8 v AND 0x00FF0000)
     OR (drop_bit 8 v AND 0x0000FF00) OR drop_bit 24 v"

definition bswap64 :: "u64 \<Rightarrow> u64" where
  "bswap64 v = push_bit 32 (ucast (bswap32 (ucast v))) OR ucast (bswap32 (ucast (drop_bit 32 v)))"

section \<open>Host memcpy and the big-endian accessors\<close>

text \<open>\<open>memcpy\<close> between an integer and bytes on a little-endian host.\<close>

primrec host_load :: "bytes \<Rightarrow> u32 \<Rightarrow> nat \<Rightarrow> u64" where
  "host_load b p 0 = 0"
| "host_load b p (Suc n) = host_load b p n OR push_bit (8 * n) (ucast (b (p + of_nat n)))"

primrec host_store :: "bytes \<Rightarrow> u32 \<Rightarrow> nat \<Rightarrow> u64 \<Rightarrow> bytes" where
  "host_store b p 0 v = b"
| "host_store b p (Suc n) v = (host_store b p n v)(p + of_nat n := ucast (drop_bit (8 * n) v))"

definition read_be16 :: "bytes \<Rightarrow> u32 \<Rightarrow> u16" where
  "read_be16 b p = bswap16 (ucast (host_load b p 2))"

definition read_be32 :: "bytes \<Rightarrow> u32 \<Rightarrow> u32" where
  "read_be32 b p = bswap32 (ucast (host_load b p 4))"

definition read_be64 :: "bytes \<Rightarrow> u32 \<Rightarrow> u64" where
  "read_be64 b p = bswap64 (host_load b p 8)"

definition write_be16 :: "bytes \<Rightarrow> u32 \<Rightarrow> u16 \<Rightarrow> bytes" where
  "write_be16 b p v = host_store b p 2 (ucast (bswap16 v))"

definition write_be32 :: "bytes \<Rightarrow> u32 \<Rightarrow> u32 \<Rightarrow> bytes" where
  "write_be32 b p v = host_store b p 4 (ucast (bswap32 v))"

definition write_be64 :: "bytes \<Rightarrow> u32 \<Rightarrow> u64 \<Rightarrow> bytes" where
  "write_be64 b p v = host_store b p 8 (bswap64 v)"

lemma byte_index_cases:
  assumes "n < (32::nat)"
  obtains k where "k < 8" "n = k" | k where "k < 8" "n = k + 8" | k where "k < 8" "n = k + 16"
    | k where "k < 8" "n = k + 24"
proof -
  consider "n < 8" | "8 \<le> n" "n < 16" | "16 \<le> n" "n < 24" | "24 \<le> n" using assms by linarith
  then show ?thesis
    using assms that(1)[of n] that(2)[of "n - 8"] that(3)[of "n - 16"] that(4)[of "n - 24"]
    by cases auto
qed

lemma byte_index_div_mod:
  assumes "k < (8::nat)"
  shows "(k + 8) div 8 = 1" "(k + 16) div 8 = 2" "(k + 24) div 8 = 3"
    "(k + 8) mod 8 = k" "(k + 16) mod 8 = k" "(k + 24) mod 8 = k" "(8 + k) div 8 = 1"
  using assms mod_mult_self1[of k 2 8] mod_mult_self1[of k 3 8] by simp_all

lemma word_half_div_mod: "(32 + x) div 8 = 4 + x div (8::nat)" "(32 + x) mod 8 = x mod (8::nat)"
  using div_mult_self2[of 8 x 4] mod_mult_self1[of x 4 8] by (simp_all add: add.commute)

lemma mask_ff00: "(0xFF00 :: u32) = push_bit 8 (mask 8)" "(0xFF0000 :: u32) = push_bit 16 (mask 8)"
  by (simp_all add: mask_eq_decr_exp)

lemma bit_bswap32:
  assumes "n < 32"
  shows "bit (bswap32 v) n = bit v (8 * (3 - n div 8) + n mod 8)"
proof -
  have word: "bit v j \<Longrightarrow> j < 32" for j using bit_imp_le_length[of v j] by simp
  from assms show ?thesis
    by (cases rule: byte_index_cases)
      (auto simp: bswap32_def mask_ff00 bit_simps byte_index_div_mod dest: word)
qed

lemma bit_host_load:
  "n \<le> 8 \<Longrightarrow> bit (host_load b p n) j \<longleftrightarrow> j < 8 * n \<and> bit (b (p + of_nat (j div 8))) (j mod 8)"
proof (induction n)
  case (Suc n)
  have byte: "bit (x :: u8) k \<Longrightarrow> k < 8" for x k by (auto dest: bit_imp_le_length)
  show ?case
  proof (cases "8 * n \<le> j \<and> j < 8 * n + 8")
    case True
    then obtain k where "j = 8 * n + k" "k < 8" using le_Suc_ex[of "8 * n" j] by auto
    with Suc show ?thesis by (auto simp: bit_simps bit_u64_ucast_u8)
  next
    case False
    with Suc show ?thesis by (auto simp: bit_simps bit_u64_ucast_u8 dest: byte)
  qed
qed simp

lemma byte_pos:
  fixes i j k n :: nat
  assumes "i < n" and "k = 8 * (n - 1 - j div 8) + j mod 8" and "j < 8 * n"
  shows "k div 8 = n - 1 - j div 8" and "k mod 8 = j mod 8" and "k < 8 * n"
proof -
  show "k div 8 = n - 1 - j div 8" and "k mod 8 = j mod 8" using assms(2) by simp_all
  then have "k div 8 < n" using assms(1) by linarith
  then show "k < 8 * n" by linarith
qed

lemma read_be32_loop: "read_be32 b p = ucast (be_load b p 4)"
proof (rule bit_word_eqI)
  fix j assume "j < LENGTH(32)"
  then show "bit (read_be32 b p) j = bit (ucast (be_load b p 4) :: u32) j"
    using byte_pos[of 0 4 "8 * (3 - j div 8) + j mod 8" j]
    by (simp add: read_be32_def bit_bswap32 bit_simps bit_host_load be_load_eq_sum_bits)
qed

lemma read_be32_bytes:
  "read_be32 b p = push_bit 24 (ucast (b p)) OR push_bit 16 (ucast (b (p + 1))) OR
     push_bit 8 (ucast (b (p + 2))) OR ucast (b (p + 3))"
proof (rule bit_word_eqI)
  fix n assume "n < LENGTH(32)"
  then have "n < 32" by simp
  then show "bit (read_be32 b p) n = bit (push_bit 24 (ucast (b p)) OR push_bit 16 (ucast (b (p + 1))) OR
      push_bit 8 (ucast (b (p + 2))) OR ucast (b (p + 3)) :: u32) n"
    by (cases rule: byte_index_cases)
      (auto simp: read_be32_loop bit_simps be_load_eq_sum_bits byte_index_div_mod dest: bit_imp_le_length)
qed

lemma read_be16_loop: "read_be16 b p = ucast (be_load b p 2)"
proof (rule bit_word_eqI)
  have word: "bit (v :: u16) j \<Longrightarrow> j < 16" for v j using bit_imp_le_length[of v j] by simp
  fix j assume "j < LENGTH(16)"
  then have j: "j < 32" "j < 16" by simp_all
  from j(1) show "bit (read_be16 b p) j = bit (ucast (be_load b p 2) :: u16) j"
    using j(2)
    by (cases rule: byte_index_cases)
      (auto simp: read_be16_def bswap16_def bit_simps bit_host_load be_load_eq_sum_bits
        byte_index_div_mod dest: word)
qed

lemma read_be16_bytes: "read_be16 b p = push_bit 8 (ucast (b p)) OR ucast (b (p + 1))"
proof (rule bit_word_eqI)
  fix n assume "n < LENGTH(16)"
  then consider "n < 8" | k where "k < 8" "n = k + 8" by (cases "n < 8") (auto dest: le_Suc_ex simp: not_less)
  then show "bit (read_be16 b p) n = bit (push_bit 8 (ucast (b p)) OR ucast (b (p + 1)) :: u16) n"
    by cases (auto simp: read_be16_loop bit_simps be_load_eq_sum_bits byte_index_div_mod dest: bit_imp_le_length)
qed

lemma read_be64_loop: "read_be64 b p = be_load b p 8"
proof (rule bit_word_eqI)
  fix j assume j: "j < LENGTH(64)"
  show "bit (read_be64 b p) j = bit (be_load b p 8) j"
  proof (cases "j < 32")
    case True
    then have "j div 8 \<le> 3" by simp
    with True byte_pos[of 0 4 "8 * (3 - j div 8) + j mod 8" j] show ?thesis
      by (simp add: read_be64_def bswap64_def bit_simps bit_bswap32 bit_host_load be_load_eq_sum_bits
          word_half_div_mod of_nat_diff)
  next
    case False
    then obtain k where k: "j = 32 + k" using le_Suc_ex[of 32 j] by auto
    have word: "\<not> bit (v :: u32) (32 + k)" for v using bit_imp_le_length[of v "32 + k"] by auto
    from j k have "k < 32" by simp
    then have "k div 8 \<le> 3" by simp
    with k \<open>k < 32\<close> byte_pos[of 0 4 "8 * (3 - k div 8) + k mod 8" k] show ?thesis
      by (simp add: read_be64_def bswap64_def bit_simps bit_bswap32 bit_host_load be_load_eq_sum_bits
          word_half_div_mod of_nat_diff word)
  qed
qed

lemma host_store_frame: "a \<notin> cells p n \<Longrightarrow> host_store b p n v a = b a"
proof (induction n)
  case (Suc n)
  then have "a \<noteq> p + of_nat n" and "a \<notin> cells p n" by (auto simp: cells_def)
  with Suc.IH show ?case by simp
qed simp

lemma host_store_get:
  assumes "i < n" and "n \<le> 2 ^ 32"
  shows "host_store b p n v (p + of_nat i) = ucast (drop_bit (8 * i) v)"
  using assms
proof (induction n)
  case (Suc n)
  then show ?case by (cases "i = n") (simp_all add: of_nat_u32_eq_iff)
qed simp

text \<open>A swapped host store is the big-endian store loop.\<close>

lemma host_store_swapped:
  assumes "n \<le> 8"
    and "\<And>i. i < n \<Longrightarrow> (ucast (drop_bit (8 * i) w) :: u8) = ucast (drop_bit (8 * (n - 1 - i)) v)"
  shows "host_store b p n w = be_store b p n v"
proof
  fix a
  show "host_store b p n w a = be_store b p n v a"
  proof (cases "a \<in> cells p n")
    case True
    then obtain i where "i < n" "a = p + of_nat i" by (auto simp: cells_def)
    with assms show ?thesis by (simp add: host_store_get be_store_get)
  qed (simp add: host_store_frame be_store_frame)
qed

lemma write_be16_loop: "write_be16 b p v = be_store b p 2 (ucast v)"
  unfolding write_be16_def
proof (rule host_store_swapped)
  have word: "bit (v :: u16) j \<Longrightarrow> j < 16" for j using bit_imp_le_length[of v j] by simp
  fix i :: nat assume "i < 2"
  then consider "i = 0" | "i = 1" by linarith
  then show "(ucast (drop_bit (8 * i) (ucast (bswap16 v) :: u64)) :: u8)
      = ucast (drop_bit (8 * (2 - 1 - i)) (ucast v :: u64))"
    by cases (auto intro!: bit_word_eqI simp: bswap16_def bit_simps add.commute dest: word)
qed simp

lemma write_be32_loop: "write_be32 b p v = be_store b p 4 (ucast v)"
  unfolding write_be32_def
proof (rule host_store_swapped)
  fix i :: nat assume i: "i < 4"
  show "(ucast (drop_bit (8 * i) (ucast (bswap32 v) :: u64)) :: u8)
      = ucast (drop_bit (8 * (4 - 1 - i)) (ucast v :: u64))"
  proof (rule bit_word_eqI)
    fix j assume "j < LENGTH(8)"
    with i show "bit (ucast (drop_bit (8 * i) (ucast (bswap32 v) :: u64)) :: u8) j
        = bit (ucast (drop_bit (8 * (4 - 1 - i)) (ucast v :: u64)) :: u8) j"
      using bit_imp_le_length[of v "8 * (3 - i) + j"]
      by (auto simp: bit_simps bit_bswap32 div_add1_eq)
  qed
qed simp

lemma write_be64_loop: "write_be64 b p v = be_store b p 8 v"
  unfolding write_be64_def
proof (rule host_store_swapped)
  fix i :: nat assume i: "i < 8"
  show "(ucast (drop_bit (8 * i) (bswap64 v)) :: u8) = ucast (drop_bit (8 * (8 - 1 - i)) v)"
  proof (rule bit_word_eqI)
    fix j assume j: "j < LENGTH(8)"
    show "bit (ucast (drop_bit (8 * i) (bswap64 v)) :: u8) j
        = bit (ucast (drop_bit (8 * (8 - 1 - i)) v) :: u8) j"
    proof (cases "i < 4")
      case True
      with j have "8 * (3 - i) + j < 32" "32 + (8 * (3 - i) + j) = 8 * (7 - i) + j" by simp_all
      with True j show ?thesis
        by (simp add: bswap64_def bit_simps bit_bswap32 div_add1_eq add.assoc[symmetric])
    next
      case False
      then obtain k where k: "i = 4 + k" using le_Suc_ex[of 4 i] by auto
      with i j have "8 * (3 - k) + j < 32" by simp
      moreover have word: "\<not> bit (u :: u32) (32 + (m :: nat))" for u m
        using bit_imp_le_length[of u "32 + m"] by auto
      ultimately show ?thesis using i j k
        by (simp add: bswap64_def bit_simps bit_bswap32 div_add1_eq add.assoc)
    qed
  qed
qed simp

section \<open>Single and double bit patterns\<close>

text \<open>The \<open>do ... while\<close> loop that normalises a subnormal fraction; it would not return for a
  zero fraction, so it is a partial function and returning is part of what is proved.\<close>

partial_function (option) normalise_subnormal :: "u64 \<Rightarrow> u64 \<Rightarrow> (u64 \<times> u64) option" where
  "normalise_subnormal frac ex =
     (let frac' = push_bit 1 frac; ex' = ex - 1
      in if frac' AND 0x00800000 = 0 then normalise_subnormal frac' ex' else Some (frac', ex'))"

definition convert_to_double :: "u32 \<Rightarrow> u64 option" where
  "convert_to_double value =
     (let x = ucast value :: u64; ex = drop_bit 23 x AND 0xFF; frac = x AND 0x007FFFFF
      in if 0 < ex \<and> ex < 255
         then let y = (if drop_bit 7 ex = 0 then 1 else 0);
                  z = push_bit 61 y OR push_bit 60 y OR push_bit 59 y
              in Some (push_bit 32 (x AND 0xC0000000) OR z OR push_bit 29 (x AND 0x3FFFFFFF))
         else if ex = 0 \<and> frac \<noteq> 0
         then (case normalise_subnormal frac (1023 - 126) of
                 None \<Rightarrow> None
               | Some (frac', ex') \<Rightarrow>
                   Some (push_bit 32 (x AND 0x80000000) OR push_bit 52 ex'
                     OR push_bit 29 (frac' AND 0x007FFFFF)))
         else let y = drop_bit 7 ex;
                  z = push_bit 61 y OR push_bit 60 y OR push_bit 59 y
              in Some (push_bit 32 (x AND 0xC0000000) OR z OR push_bit 29 (x AND 0x3FFFFFFF)))"

definition convert_to_single :: "u64 \<Rightarrow> u32" where
  "convert_to_single x =
     (let ex = ucast (drop_bit 52 x AND 0x7FF) :: u32;
          fallback = ucast ((drop_bit 32 x AND 0xC0000000) OR (drop_bit 29 x AND 0x3FFFFFFF)) :: u32
      in if 896 < ex \<or> x AND NOT 0x8000000000000000 = 0 then fallback
         else if 874 \<le> ex
         then let t = ucast (0x80000000 OR drop_bit 21 (x AND 0x000FFFFFFFFFFFFF)) :: u32;
                  t = drop_bit (unat (905 - ex)) t
              in t OR ucast (drop_bit 32 x AND 0x80000000)
         else fallback)"

definition convert_to_single_ftz :: "u64 \<Rightarrow> u32" where
  "convert_to_single_ftz x =
     (let ex = ucast (drop_bit 52 x AND 0x7FF) :: u32
      in if 896 < ex \<or> x AND NOT 0x8000000000000000 = 0
         then ucast ((drop_bit 32 x AND 0xC0000000) OR (drop_bit 29 x AND 0x3FFFFFFF))
         else ucast (drop_bit 32 x AND 0x80000000))"

lemma bit_at_23: "x AND 0x00800000 = 0 \<longleftrightarrow> \<not> bit (x :: u64) 23"
proof -
  have "(0x00800000 :: u64) = push_bit 23 1" by simp
  then show ?thesis by (metis and_exp_eq_0_iff_not_bit push_bit_of_1)
qed

lemma normalise_subnormal_returns:
  "k = 23 - p \<Longrightarrow> p \<le> 22 \<Longrightarrow> bit frac p \<Longrightarrow> (\<And>j. p < j \<Longrightarrow> \<not> bit frac j) \<Longrightarrow>
   normalise_subnormal frac ex = Some (push_bit k frac, ex - of_nat k)"
proof (induction k arbitrary: p frac ex)
  case (Suc k)
  have b23: "bit (push_bit 1 frac) 23 \<longleftrightarrow> p = 22"
    unfolding bit_push_bit_iff
    using Suc.prems(2,3) Suc.prems(4)[of 22] by (cases "p = 22") simp_all
  show ?case
  proof (cases "p = 22")
    case True
    with b23 Suc.prems(1) show ?thesis
      by (subst normalise_subnormal.simps) (simp add: bit_at_23 Let_def)
  next
    case False
    have "normalise_subnormal (push_bit 1 frac) (ex - 1) = Some (push_bit k (push_bit 1 frac), ex - 1 - of_nat k)"
    proof (rule Suc.IH[where p = "Suc p"])
      show "bit (push_bit 1 frac) (Suc p)" using Suc.prems False unfolding bit_push_bit_iff by simp
      show "\<not> bit (push_bit 1 frac) j" if "Suc p < j" for j
        using Suc.prems(4)[of "j - 1"] that unfolding bit_push_bit_iff by auto
    qed (use Suc.prems False in auto)
    with b23 False show ?thesis
      by (subst normalise_subnormal.simps) (simp add: bit_at_23 Let_def push_bit_push_bit)
  qed
qed simp

lemma top_bit_exists:
  fixes f :: u64
  assumes "f \<noteq> 0"
  obtains p where "bit f p" and "\<And>j. p < j \<Longrightarrow> \<not> bit f j"
proof -
  let ?S = "{j. bit f j}"
  have fin: "finite ?S" by (rule finite_subset[of _ "{..<64}"]) (auto dest: bit_imp_le_length)
  have ne: "?S \<noteq> {}" using assms by (auto simp: bit_eq_iff)
  have "bit f (Max ?S)" using Max_in[OF fin ne] by simp
  moreover have "\<not> bit f j" if "Max ?S < j" for j using Max_ge[OF fin, of j] that by (meson CollectI leD)
  ultimately show ?thesis by (rule that)
qed

lemma single_fields:
  "(0x007FFFFF :: u64) = mask 23" "(0xFF :: u64) = mask 8" "(0x7FF :: u64) = mask 11"
  "(0x000FFFFFFFFFFFFF :: u64) = mask 52" "(0x3FFFFFFF :: u64) = mask 30"
  by (simp_all add: mask_eq_decr_exp)

lemma bit_and_exp: "bit (z AND push_bit k 1) j \<longleftrightarrow> j = k \<and> bit (z :: 'a::len word) k"
  unfolding bit_and_iff bit_push_bit_iff bit_1_iff using bit_imp_le_length[of z k] by auto

lemma sign_fields:
  "bit (z AND 0x80000000) j \<longleftrightarrow> j = 31 \<and> bit (z :: u64) 31"
  "bit (z AND 0x8000000000000000) j \<longleftrightarrow> j = 63 \<and> bit (z :: u64) 63"
  "bit (z AND NOT 0x8000000000000000) j \<longleftrightarrow> j < 63 \<and> bit (z :: u64) j"
  "bit (z AND 0xC0000000) j \<longleftrightarrow> (j = 30 \<or> j = 31) \<and> bit (z :: u64) j"
proof -
  show "bit (z AND 0x80000000) j \<longleftrightarrow> j = 31 \<and> bit (z :: u64) 31" for z j
    using bit_and_exp[of z 31 j] by simp
  show s: "bit (z AND 0x8000000000000000) j \<longleftrightarrow> j = 63 \<and> bit (z :: u64) 63" for z j
    using bit_and_exp[of z 63 j] by simp
  have "bit (0x8000000000000000 :: u64) j \<longleftrightarrow> j = 63" using bit_and_exp[of "-1 :: u64" 63 j] by simp
  then show "bit (z AND NOT 0x8000000000000000) j \<longleftrightarrow> j < 63 \<and> bit (z :: u64) j"
    unfolding bit_and_iff bit_not_iff using bit_imp_le_length[of z j] by auto
  have "z AND 0xC0000000 = (z AND 0x80000000) OR (z AND 0x40000000)"
    by (simp flip: word_ao_dist2)
  then show "bit (z AND 0xC0000000) j \<longleftrightarrow> (j = 30 \<or> j = 31) \<and> bit (z :: u64) j"
    using bit_and_exp[of z 31 j] bit_and_exp[of z 30 j] by (auto simp: bit_or_iff)
qed

text \<open>A subnormal single, once normalised, is shifted back to the same bits.\<close>

lemma subnormal_roundtrip:
  fixes x :: u32 and f ex y :: u64
  assumes p: "p \<le> 22" and top: "bit f p" "\<And>j. p < j \<Longrightarrow> \<not> bit f j"
    and f: "f = ucast x AND 0x007FFFFF" and e: "drop_bit 23 (ucast x :: u64) AND 0xFF = 0"
    and y: "y = push_bit 32 (ucast x AND 0x80000000) OR push_bit 52 (of_nat (874 + p))
              OR push_bit 29 (push_bit (23 - p) f AND 0x007FFFFF)"
  shows "convert_to_single y = x"
proof -
  have high: "\<not> bit x (23 + k)" if "k < 8" for k
  proof -
    have "\<not> bit (drop_bit 23 (ucast x :: u64) AND 0xFF) k" by (simp add: e)
    with that show ?thesis by (simp add: single_fields bit_simps)
  qed
  have fb: "bit f j \<longleftrightarrow> j < 23 \<and> bit x j" for j
    by (auto simp: f single_fields bit_simps)
  have xb: "bit x j \<longleftrightarrow> j = 31 \<and> bit x 31 \<or> j < 23 \<and> bit f j" for j
  proof -
    consider "j < 23" | "23 \<le> j" "j < 31" | "j = 31" | "32 \<le> j" by linarith
    then show ?thesis using high[of "j - 23"] bit_imp_le_length[of x j] by cases (auto simp: fb)
  qed
  define c g :: u64 where "c = of_nat (874 + p)" and "g = push_bit (23 - p) f AND 0x007FFFFF"
  have gb: "bit g j \<longleftrightarrow> 23 - p \<le> j \<and> j < 23 \<and> bit f (j - (23 - p))" for j
    by (auto simp: g_def single_fields bit_simps)
  have cb: "\<not> bit c n" if "11 \<le> n" for n
  proof -
    have "c = take_bit 11 c" using p
      by (simp add: c_def take_bit_of_nat take_bit_nat_eq_self del: of_nat_add)
    moreover have "\<not> bit (take_bit 11 c) n" using that by (simp add: bit_take_bit_iff)
    ultimately show ?thesis by (rule ssubst)
  qed
  have cb': "n < 11" if "bit c n" for n
    using that cb[of n] by (cases "n < 11") auto
  have yb: "bit y j \<longleftrightarrow> j < 64 \<and> (j = 63 \<and> bit x 31 \<or> 52 \<le> j \<and> bit c (j - 52) \<or> 29 \<le> j \<and> bit g (j - 29))" for j
    unfolding y c_def[symmetric] g_def[symmetric] by (auto simp: single_fields sign_fields bit_or_iff bit_push_bit_iff bit_ucast_iff)
  have ex: "drop_bit 52 y AND 0x7FF = c"
    by (rule bit_word_eqI) (auto simp: single_fields bit_simps yb gb dest: cb')
  have c_small: "unat (ucast c :: u32) = 874 + p"
    using p by (simp add: c_def unsigned_ucast_eq unat_of_nat take_bit_nat_eq_self del: of_nat_add)
  have c_pos: "c \<noteq> 0" using c_small by auto
  have nz: "y AND NOT 0x8000000000000000 \<noteq> 0"
  proof
    assume "y AND NOT 0x8000000000000000 = 0"
    then have "drop_bit 52 (y AND NOT 0x8000000000000000) AND 0x7FF = 0" by simp
    moreover have "drop_bit 52 (y AND NOT 0x8000000000000000) AND 0x7FF = drop_bit 52 y AND 0x7FF"
      unfolding single_fields bit_eq_iff bit_and_iff[of "drop_bit 52 _"] bit_drop_bit_eq o_def sign_fields
        bit_mask_iff by auto
    ultimately show False using ex c_pos by simp
  qed
  have c_le: "\<not> 896 < (ucast c :: u32)" "874 \<le> (ucast c :: u32)" "unat (905 - (ucast c :: u32)) = 31 - p"
    using c_small p by (simp_all add: word_less_nat_alt word_le_nat_alt unat_sub)
  define t where "t = (ucast (0x80000000 OR drop_bit 21 (y AND 0x000FFFFFFFFFFFFF)) :: u32)"
  have tb: "bit t j \<longleftrightarrow> j = 31 \<or> 8 \<le> j \<and> j < 31 \<and> bit g (j - 8)" for j
  proof -
    have top: "bit (0x80000000 :: u64) j \<longleftrightarrow> j = 31" using bit_and_exp[of "-1 :: u64" 31 j] by simp
    show ?thesis
      unfolding t_def single_fields bit_ucast_iff bit_or_iff top bit_drop_bit_eq o_def bit_and_iff
        bit_mask_iff yb
      using gb[of "j - 8"] by auto
  qed
  have "bit (drop_bit (31 - p) t) j \<longleftrightarrow> j = p \<or> j < p \<and> bit f j" for j
    using p by (auto simp: bit_drop_bit_eq tb gb)
  then have low: "bit (drop_bit (31 - p) t) j \<longleftrightarrow> bit f j" for j
    using top by (metis linorder_neqE_nat)
  have sign: "bit (ucast (drop_bit 32 y AND 0x80000000) :: u32) j \<longleftrightarrow> j = 31 \<and> bit x 31" for j
    unfolding bit_ucast_iff sign_fields by (auto simp: bit_drop_bit_eq yb gb dest: cb')
  have "drop_bit (31 - p) t OR ucast (drop_bit 32 y AND 0x80000000) = x"
  proof (rule bit_word_eqI)
    fix j assume "j < LENGTH(32)"
    show "bit (drop_bit (31 - p) t OR ucast (drop_bit 32 y AND 0x80000000)) j = bit x j"
      unfolding bit_or_iff low sign xb[of j] using fb[of j] by auto
  qed
  with nz c_le show ?thesis
    unfolding convert_to_single_def Let_def ex t_def[symmetric] by (simp only: if_False if_True simp_thms)
qed

text \<open>Normal numbers, zeros, infinities and NaNs: the exponent is re-biased in place, by the
  filler bits 59 to 61.\<close>

lemma assembled_bits:
  fixes X z :: u64
  shows "bit (push_bit 32 (X AND 0xC0000000) OR z OR push_bit 29 (X AND 0x3FFFFFFF)) j \<longleftrightarrow>
    (j = 62 \<or> j = 63) \<and> bit X (j - 32) \<or> bit z j \<or> 29 \<le> j \<and> j < 59 \<and> bit X (j - 29)"
proof -
  have a: "bit (push_bit 32 (X AND 0xC0000000)) j \<longleftrightarrow> (j = 62 \<or> j = 63) \<and> bit X (j - 32)"
    unfolding bit_push_bit_iff sign_fields by simp linarith
  have b: "bit (push_bit 29 (X AND 0x3FFFFFFF)) j \<longleftrightarrow> 29 \<le> j \<and> j < 59 \<and> bit X (j - 29)"
    unfolding bit_push_bit_iff single_fields bit_and_iff bit_mask_iff by simp linarith
  show ?thesis unfolding bit_or_iff a b by blast
qed

lemma rebias_roundtrip:
  fixes x :: u32 and y z :: u64
  assumes z: "\<And>j. bit z j \<longleftrightarrow> 59 \<le> j \<and> j \<le> 61 \<and> fill"
    and y: "y = push_bit 32 (ucast x AND 0xC0000000) OR z OR push_bit 29 (ucast x AND 0x3FFFFFFF)"
    and cond: "bit x 30 \<or> fill \<and> (\<exists>k<7. bit x (23 + k)) \<or> y AND NOT 0x8000000000000000 = 0"
  shows "convert_to_single y = x"
proof -
  have yb: "bit y j \<longleftrightarrow> j < 64 \<and> ((j = 62 \<or> j = 63) \<and> bit x (j - 32) \<or> 59 \<le> j \<and> j \<le> 61 \<and> fill \<or>
      29 \<le> j \<and> j < 59 \<and> bit x (j - 29))" for j
    unfolding y assembled_bits z by (auto simp: bit_ucast_iff)
  define e :: u32 where "e = ucast (drop_bit 52 y AND 0x7FF)"
  have eb: "bit e n \<longleftrightarrow> n < 11 \<and> bit y (52 + n)" for n
    unfolding e_def single_fields bit_ucast_iff bit_and_iff bit_mask_iff bit_drop_bit_eq by auto
  have big: "896 < e" if c: "bit x 30 \<or> fill \<and> (\<exists>k<7. bit x (23 + k))"
  proof (cases "bit x 30")
    case True
    have "e = push_bit 10 1 OR e"
    proof (rule bit_word_eqI)
      show "bit e n = bit (push_bit 10 1 OR e) n" for n
        unfolding bit_or_iff bit_push_bit_iff bit_1_iff eb yb using True by (cases "n = 10") auto
    qed
    then have "0x400 \<le> e" using le_word_or2[of "push_bit 10 1" e] by simp
    then show ?thesis by (simp add: word_less_nat_alt word_le_nat_alt)
  next
    case False
    with c obtain k where k: "fill" "k < 7" "bit x (23 + k)" by auto
    have "e = push_bit 7 (mask 3) OR e"
    proof (rule bit_word_eqI)
      show "bit e n = bit (push_bit 7 (mask 3) OR e) n" for n
        unfolding bit_or_iff bit_push_bit_iff bit_mask_iff eb yb using k(1)
        by (cases "7 \<le> n \<and> n < 10") auto
    qed
    moreover have "(push_bit 7 (mask 3) :: u32) = 896" by (simp add: mask_eq_decr_exp)
    ultimately have "896 \<le> e" using le_word_or2[of "896" e] by simp
    moreover have "bit e k" using k by (auto simp: eb yb)
    moreover have "\<not> bit (push_bit 7 (mask 3) :: u32) k" unfolding bit_push_bit_iff using k by simp
    ultimately show ?thesis
      using \<open>push_bit 7 (mask 3) = (896 :: u32)\<close> by (metis order_le_less)
  qed
  have "(ucast ((drop_bit 32 y AND 0xC0000000) OR (drop_bit 29 y AND 0x3FFFFFFF)) :: u32) = x"
  proof (rule bit_word_eqI)
    fix j assume "j < LENGTH(32)"
    then show "bit (ucast ((drop_bit 32 y AND 0xC0000000) OR (drop_bit 29 y AND 0x3FFFFFFF)) :: u32) j = bit x j"
      unfolding single_fields bit_ucast_iff bit_or_iff sign_fields bit_and_iff[of "drop_bit 29 _"]
        bit_mask_iff bit_drop_bit_eq o_def yb by (cases "j = 30 \<or> j = 31") auto
  qed
  moreover from big cond have "896 < e \<or> y AND NOT 0x8000000000000000 = 0" by blast
  ultimately show ?thesis unfolding convert_to_single_def Let_def e_def[symmetric] by (simp only: if_True)
qed

lemma single_double_identity:
  "\<exists>y. convert_to_double x = Some y \<and> convert_to_single y = x"
proof -
  define X e f :: u64 where "X = ucast x" and "e = drop_bit 23 X AND 0xFF" and "f = X AND 0x007FFFFF"
  have eb: "bit e n \<longleftrightarrow> n < 8 \<and> bit x (23 + n)" for n
    by (auto simp: e_def X_def single_fields bit_simps)
  have fb: "bit f n \<longleftrightarrow> n < 23 \<and> bit x n" for n
    by (auto simp: f_def X_def single_fields bit_simps)
  define z where "z y = push_bit 61 y OR push_bit 60 y OR push_bit 59 y" for y :: u64
  have z: "bit (z (if b then 1 else 0)) j \<longleftrightarrow> 59 \<le> j \<and> j \<le> 61 \<and> b" for b j
    unfolding z_def by (auto simp: bit_or_iff bit_push_bit_iff bit_1_iff)
  let ?y = "\<lambda>w. push_bit 32 (X AND 0xC0000000) OR z w OR push_bit 29 (X AND 0x3FFFFFFF)"
  have e7: "drop_bit 7 e = (if bit x 30 then 1 else 0)"
    by (rule bit_word_eqI) (auto simp: bit_drop_bit_eq eb bit_1_iff)
  have enz: "e \<noteq> 0 \<Longrightarrow> \<exists>k<8. bit x (23 + k)" using eb by (auto simp: bit_eq_iff)
  show ?thesis
  proof (cases "0 < e \<and> e < 255")
    case True
    let ?b = "drop_bit 7 e = 0"
    have "bit x 30 \<or> ?b \<and> (\<exists>k<7. bit x (23 + k))"
      using enz True e7 by (auto simp: less_Suc_eq eval_nat_numeral)
    then have "convert_to_single (?y (if ?b then 1 else 0)) = x"
      by (intro rebias_roundtrip[where x = x, folded X_def, OF z refl]) blast
    with True show ?thesis
      unfolding convert_to_double_def Let_def X_def[symmetric] e_def[symmetric] z_def by simp
  next
    case False
    show ?thesis
    proof (cases "e = 0 \<and> f \<noteq> 0")
      case sub: True
      obtain p where top: "bit f p" "\<And>j. p < j \<Longrightarrow> \<not> bit f j" by (rule top_bit_exists) (use sub in auto)
      have p: "p \<le> 22" using top(1) fb[of p] by simp
      have norm: "normalise_subnormal f 897 = Some (push_bit (23 - p) f, of_nat (874 + p))"
        using normalise_subnormal_returns[OF refl p top, of 897] p by (simp add: of_nat_diff)
      have "convert_to_single (push_bit 32 (X AND 0x80000000) OR push_bit 52 (of_nat (874 + p))
          OR push_bit 29 (push_bit (23 - p) f AND 0x007FFFFF)) = x"
        by (rule subnormal_roundtrip[OF p top]) (use sub in \<open>simp_all add: f_def e_def X_def\<close>)
      with sub False norm show ?thesis
        unfolding convert_to_double_def Let_def X_def[symmetric] e_def[symmetric] f_def[symmetric] by simp
    next
      case special: False
      let ?w = "drop_bit 7 e"
      have w: "?w = (if bit x 30 then 1 else 0)" by (rule e7)
      have "bit x 30 \<or> ?y ?w AND NOT 0x8000000000000000 = 0"
      proof (cases "bit x 30")
        case b: False
        have "e = take_bit 7 e"
        proof (rule bit_word_eqI)
          show "bit e n = bit (take_bit 7 e) n" for n
            unfolding bit_take_bit_iff eb using b by (cases "n = 7") auto
        qed
        moreover have "take_bit 7 e \<le> 127"
          using word_and_le1[of e "mask 7"] by (simp add: take_bit_eq_mask mask_eq_decr_exp)
        ultimately have "e \<le> 127" by (rule ssubst)
        then have "e < 255" by (simp add: word_less_nat_alt word_le_nat_alt)
        with False special have "e = 0" "f = 0" by (auto simp: word_greater_zero_iff)
        then have none: "\<not> bit x j" if "j < 31" for j
          using that eb[of "j - 23"] fb[of j] by (cases "j < 23") auto
        have "?y ?w AND NOT 0x8000000000000000 = 0"
        proof (rule bit_word_eqI)
          show "bit (?y ?w AND NOT 0x8000000000000000) n = bit 0 n" for n
            unfolding w sign_fields assembled_bits z using none b
            by (auto simp: bit_ucast_iff X_def)
        qed
        then show ?thesis ..
      qed simp
      then have "convert_to_single (?y (if bit x 30 then 1 else 0)) = x"
        by (intro rebias_roundtrip[where x = x, folded X_def, OF z refl]) (use w in auto)
      with False special w show ?thesis
        unfolding convert_to_double_def Let_def X_def[symmetric] e_def[symmetric] f_def[symmetric] z_def
        by auto
    qed
  qed
qed

text \<open>C21: loading a single (\<open>convert_to_double\<close>, whose normalisation loop always returns) and
  storing it back (\<open>convert_to_single\<close>) is the identity on all 2^32 bit patterns, subnormals and
  NaN payloads included.\<close>

theorem single_double_roundtrip:
  "\<exists>y. convert_to_double x = Some y \<and> convert_to_single y = x"
  by (rule single_double_identity)

text \<open>The memcpy-and-swap accessors agree with the byte loops: a value written with
  \<open>write_be16/32/64\<close> puts its most significant byte first and is read back unchanged.\<close>

theorem be_accessors_roundtrip:
  "read_be16 (write_be16 b p h) p = h \<and> read_be32 (write_be32 b p w) p = w \<and>
   read_be64 (write_be64 b p d) p = d \<and>
   write_be16 b p h p = ucast (drop_bit 8 h) \<and> write_be32 b p w p = ucast (drop_bit 24 w) \<and>
   write_be64 b p d p = ucast (drop_bit 56 d)"
proof -
  have first: "be_store b p n v p = ucast (drop_bit (8 * (n - 1)) v)" if "0 < n" "n \<le> 8" for n v
    using be_store_get[of n 0 b p v] that by simp
  have "ucast (take_bit 16 (ucast h :: u64)) = h" "ucast (take_bit 32 (ucast w :: u64)) = w"
    by (rule bit_word_eqI; auto simp: bit_simps)+
  moreover have "(ucast (drop_bit 8 (ucast h :: u64)) :: u8) = ucast (drop_bit 8 h)"
    "(ucast (drop_bit 24 (ucast w :: u64)) :: u8) = ucast (drop_bit 24 w)"
    by (rule bit_word_eqI; auto simp: bit_simps dest: bit_imp_le_length)+
  moreover have "take_bit 64 d = d" by (rule bit_word_eqI) (auto simp: bit_simps)
  ultimately show ?thesis
    using first[of 2 "ucast h"] first[of 4 "ucast w"] first[of 8 d]
    by (simp add: read_be16_loop read_be32_loop read_be64_loop write_be16_loop write_be32_loop
        write_be64_loop be_load_store_same)
qed

end
