(* ===== verification/EventClock.thy ===== *)
theory EventClock
  imports Prelude
begin

text \<open>
  The deterministic event clock of src/GXRuntime/src/event_clock.c: 32 slots, a current time
  in work units, and a cached earliest deadline that lets \<open>dol_event_clock_pop_due\<close> leave
  without a scan on the usual not-yet-due call.  The abstraction \<open>ec_abs\<close> is the finite
  map from event ids to deadline and period that the slots stand for.
\<close>

section \<open>State and operations\<close>

abbreviation DOL_EVENT_CLOCK_MAX_EVENTS :: nat where
  "DOL_EVENT_CLOCK_MAX_EVENTS \<equiv> 32"

record DolEventClockEvent =
  ev_id :: u32
  ev_deadline :: u64
  ev_period :: u64
  ev_active :: bool

record DolEventClock =
  ec_now :: u64
  ec_next_deadline :: u64
  ec_has_next :: bool
  ec_events :: "DolEventClockEvent list"

definition empty_event :: DolEventClockEvent where
  "empty_event = \<lparr>ev_id = 0, ev_deadline = 0, ev_period = 0, ev_active = False\<rparr>"

definition dol_event_clock_init :: DolEventClock where
  "dol_event_clock_init =
     \<lparr>ec_now = 0, ec_next_deadline = 0, ec_has_next = False,
      ec_events = replicate DOL_EVENT_CLOCK_MAX_EVENTS empty_event\<rparr>"

definition dol_event_clock_now :: "DolEventClock \<Rightarrow> u64" where
  "dol_event_clock_now c = ec_now c"

definition dol_event_clock_advance :: "DolEventClock \<Rightarrow> u64 \<Rightarrow> DolEventClock" where
  "dol_event_clock_advance c work_units = c\<lparr>ec_now := ec_now c + work_units\<rparr>"

definition refresh_step :: "DolEventClockEvent list \<Rightarrow> nat \<Rightarrow> bool \<times> u64 \<Rightarrow> bool \<times> u64" where
  "refresh_step evs i fb =
     (let event = evs ! i
      in if \<not> ev_active event then fb
         else if \<not> fst fb \<or> ev_deadline event < snd fb then (True, ev_deadline event)
         else fb)"

definition refresh_next_deadline :: "DolEventClock \<Rightarrow> DolEventClock" where
  "refresh_next_deadline c =
     (let fb = fold (refresh_step (ec_events c)) [0..<DOL_EVENT_CLOCK_MAX_EVENTS] (False, 0)
      in c\<lparr>ec_has_next := fst fb, ec_next_deadline := snd fb\<rparr>)"

definition find_event :: "DolEventClock \<Rightarrow> u32 \<Rightarrow> nat option" where
  "find_event c eid =
     find (\<lambda>i. ev_active (ec_events c ! i) \<and> ev_id (ec_events c ! i) = eid)
       [0..<DOL_EVENT_CLOCK_MAX_EVENTS]"

definition find_free_slot :: "DolEventClock \<Rightarrow> nat option" where
  "find_free_slot c =
     find (\<lambda>i. \<not> ev_active (ec_events c ! i)) [0..<DOL_EVENT_CLOCK_MAX_EVENTS]"

definition dol_event_clock_schedule ::
  "DolEventClock \<Rightarrow> u32 \<Rightarrow> u64 \<Rightarrow> u64 \<Rightarrow> bool \<times> DolEventClock" where
  "dol_event_clock_schedule c eid delay period =
     (case (case find_event c eid of None \<Rightarrow> find_free_slot c | Some i \<Rightarrow> Some i) of
        None \<Rightarrow> (False, c)
      | Some i \<Rightarrow>
          (True, refresh_next_deadline
             (c\<lparr>ec_events := (ec_events c)
                 [i := \<lparr>ev_id = eid, ev_deadline = ec_now c + delay,
                        ev_period = period, ev_active = True\<rparr>]\<rparr>)))"

definition dol_event_clock_cancel :: "DolEventClock \<Rightarrow> u32 \<Rightarrow> bool \<times> DolEventClock" where
  "dol_event_clock_cancel c eid =
     (case find_event c eid of
        None \<Rightarrow> (False, c)
      | Some i \<Rightarrow>
          (True, refresh_next_deadline
             (c\<lparr>ec_events := (ec_events c)[i := (ec_events c ! i)\<lparr>ev_active := False\<rparr>]\<rparr>)))"

definition dol_event_clock_is_scheduled :: "DolEventClock \<Rightarrow> u32 \<Rightarrow> bool" where
  "dol_event_clock_is_scheduled c eid = (find_event c eid \<noteq> None)"

definition dol_event_clock_next_deadline :: "DolEventClock \<Rightarrow> u64 option" where
  "dol_event_clock_next_deadline c =
     (if \<not> ec_has_next c then None else Some (ec_next_deadline c))"

definition due_slot :: "DolEventClock \<Rightarrow> nat option" where
  "due_slot c =
     first_min (\<lambda>i. ev_deadline (ec_events c ! i))
       (\<lambda>i. \<not> (\<not> ev_active (ec_events c ! i) \<or> ec_now c < ev_deadline (ec_events c ! i)))
       DOL_EVENT_CLOCK_MAX_EVENTS"

definition dol_event_clock_pop_due ::
  "DolEventClock \<Rightarrow> (u32 \<times> u64) option \<times> DolEventClock" where
  "dol_event_clock_pop_due c =
     (if \<not> ec_has_next c \<or> ec_now c < ec_next_deadline c then (None, c)
      else
        case due_slot c of
          None \<Rightarrow> (None, c)
        | Some b \<Rightarrow>
            let best = ec_events c ! b;
                best' = (if ev_period best \<noteq> 0
                         then best\<lparr>ev_deadline := ev_deadline best + ev_period best\<rparr>
                         else best\<lparr>ev_active := False\<rparr>)
            in (Some (ev_id best, ev_deadline best),
                refresh_next_deadline (c\<lparr>ec_events := (ec_events c)[b := best']\<rparr>)))"

section \<open>The cached deadline\<close>

lemma refresh_fold:
  "fold (refresh_step evs) [0..<n] (False, 0) =
   (case first_min (\<lambda>i. ev_deadline (evs ! i)) (\<lambda>i. ev_active (evs ! i)) n of
      None \<Rightarrow> (False, 0)
    | Some b \<Rightarrow> (True, ev_deadline (evs ! b)))"
proof (induction n)
  case 0
  then show ?case by (simp add: first_min_def)
next
  case (Suc n)
  then show ?case
    by (auto simp: first_min_Suc scan_step_def refresh_step_def Let_def split: option.splits)
qed

lemma refresh_fields [frame_simps]:
  "ec_now (refresh_next_deadline c) = ec_now c"
  "ec_events (refresh_next_deadline c) = ec_events c"
  "find_event (refresh_next_deadline c) eid = find_event c eid"
  "due_slot (refresh_next_deadline c) = due_slot c"
  "refresh_next_deadline (refresh_next_deadline c) = refresh_next_deadline c"
  by (simp_all add: refresh_next_deadline_def Let_def find_event_def due_slot_def)

definition active_slot :: "DolEventClock \<Rightarrow> nat \<Rightarrow> bool" where
  "active_slot c i \<longleftrightarrow> i < DOL_EVENT_CLOCK_MAX_EVENTS \<and> ev_active (ec_events c ! i)"

definition cache_ok :: "DolEventClock \<Rightarrow> bool" where
  "cache_ok c \<longleftrightarrow> refresh_next_deadline c = c"

lemma cache_ok_refresh [simp]: "cache_ok (refresh_next_deadline c)"
  by (simp add: cache_ok_def frame_simps)

lemma cache_ok_advance [simp]:
  "cache_ok (dol_event_clock_advance c w) = cache_ok c"
  by (cases c) (simp add: cache_ok_def refresh_next_deadline_def dol_event_clock_advance_def Let_def)

lemma cache_ok_scan:
  assumes "cache_ok c"
  shows "(ec_has_next c, ec_next_deadline c) =
    (case first_min (\<lambda>i. ev_deadline (ec_events c ! i)) (\<lambda>i. ev_active (ec_events c ! i))
            DOL_EVENT_CLOCK_MAX_EVENTS of
       None \<Rightarrow> (False, 0)
     | Some b \<Rightarrow> (True, ev_deadline (ec_events c ! b)))"
proof -
  have "(ec_has_next c, ec_next_deadline c) =
      (ec_has_next (refresh_next_deadline c), ec_next_deadline (refresh_next_deadline c))"
    using assms by (simp add: cache_ok_def)
  then show ?thesis
    by (simp add: refresh_next_deadline_def Let_def refresh_fold)
qed

lemma cache_ok_None: "cache_ok c \<Longrightarrow> \<not> ec_has_next c \<longleftrightarrow> (\<forall>i. \<not> active_slot c i)"
  using cache_ok_scan[of c]
  by (auto simp: active_slot_def first_min_None split: option.splits dest: first_min_SomeD)

lemma cache_ok_least:
  assumes "cache_ok c" and "ec_has_next c"
  shows "\<exists>i. active_slot c i \<and> ev_deadline (ec_events c ! i) = ec_next_deadline c"
    and "active_slot c i \<Longrightarrow> ec_next_deadline c \<le> ev_deadline (ec_events c ! i)"
proof -
  obtain b where b: "first_min (\<lambda>i. ev_deadline (ec_events c ! i))
      (\<lambda>i. ev_active (ec_events c ! i)) DOL_EVENT_CLOCK_MAX_EVENTS = Some b"
    and n: "ec_next_deadline c = ev_deadline (ec_events c ! b)"
    using assms cache_ok_scan[of c] by (auto split: option.splits)
  note b' = first_min_SomeD[OF b]
  show "\<exists>i. active_slot c i \<and> ev_deadline (ec_events c ! i) = ec_next_deadline c"
    using b' n by (auto simp: active_slot_def)
  show "active_slot c i \<Longrightarrow> ec_next_deadline c \<le> ev_deadline (ec_events c ! i)"
    using b' n by (auto simp: active_slot_def)
qed

section \<open>Well-formed clocks\<close>

definition ids_unique :: "DolEventClock \<Rightarrow> bool" where
  "ids_unique c \<longleftrightarrow> (\<forall>i j. active_slot c i \<longrightarrow> active_slot c j \<longrightarrow>
     ev_id (ec_events c ! i) = ev_id (ec_events c ! j) \<longrightarrow> i = j)"

definition ec_wf :: "DolEventClock \<Rightarrow> bool" where
  "ec_wf c \<longleftrightarrow> length (ec_events c) = DOL_EVENT_CLOCK_MAX_EVENTS \<and> ids_unique c \<and> cache_ok c"

definition ec_abs :: "DolEventClock \<Rightarrow> u32 \<Rightarrow> (u64 \<times> u64) option" where
  "ec_abs c eid =
     map_option (\<lambda>i. (ev_deadline (ec_events c ! i), ev_period (ec_events c ! i)))
       (find_event c eid)"

lemma find_event_SomeD:
  "find_event c eid = Some i \<Longrightarrow> active_slot c i \<and> ev_id (ec_events c ! i) = eid"
  by (auto simp: find_event_def find_upt_Some active_slot_def)

lemma find_event_None:
  "find_event c eid = None \<longleftrightarrow> (\<forall>i. active_slot c i \<longrightarrow> ev_id (ec_events c ! i) \<noteq> eid)"
  by (auto simp: find_event_def find_upt_None active_slot_def)

lemma find_event_active:
  assumes "ids_unique c" and "active_slot c i"
  shows "find_event c (ev_id (ec_events c ! i)) = Some i"
proof -
  obtain j where j: "find_event c (ev_id (ec_events c ! i)) = Some j"
    using assms(2) find_event_None by fastforce
  with find_event_SomeD[OF j] assms show ?thesis by (auto simp: ids_unique_def)
qed

lemma ec_abs_active:
  "ids_unique c \<Longrightarrow> active_slot c i \<Longrightarrow>
   ec_abs c (ev_id (ec_events c ! i)) =
     Some (ev_deadline (ec_events c ! i), ev_period (ec_events c ! i))"
  by (simp add: ec_abs_def find_event_active)

lemma ec_abs_SomeD:
  "ec_abs c eid = Some dp \<Longrightarrow>
   \<exists>i. active_slot c i \<and> ev_id (ec_events c ! i) = eid \<and>
       dp = (ev_deadline (ec_events c ! i), ev_period (ec_events c ! i))"
  by (auto simp: ec_abs_def dest: find_event_SomeD)

lemma ec_abs_refresh [simp]: "ec_abs (refresh_next_deadline c) = ec_abs c"
  by (rule ext) (simp add: ec_abs_def frame_simps)

lemma active_slot_refresh [simp]: "active_slot (refresh_next_deadline c) = active_slot c"
  by (rule ext) (simp add: active_slot_def frame_simps)

lemma ids_unique_refresh [simp]: "ids_unique (refresh_next_deadline c) = ids_unique c"
  by (simp add: ids_unique_def frame_simps)

text \<open>Writing one slot: the active slots, uniqueness and the abstract map after it.\<close>

lemma active_slot_update:
  assumes "length (ec_events c) = DOL_EVENT_CLOCK_MAX_EVENTS" and "i < DOL_EVENT_CLOCK_MAX_EVENTS"
  shows "active_slot (c\<lparr>ec_events := (ec_events c)[i := e]\<rparr>) j \<longleftrightarrow>
    (if j = i then ev_active e else active_slot c j)"
  using assms by (auto simp: active_slot_def nth_list_update)

lemma ids_unique_update:
  assumes "length (ec_events c) = DOL_EVENT_CLOCK_MAX_EVENTS" and "i < DOL_EVENT_CLOCK_MAX_EVENTS"
    and "ids_unique c"
    and "\<And>j. ev_active e \<Longrightarrow> active_slot c j \<Longrightarrow> j \<noteq> i \<Longrightarrow> ev_id (ec_events c ! j) \<noteq> ev_id e"
  shows "ids_unique (c\<lparr>ec_events := (ec_events c)[i := e]\<rparr>)"
proof -
  have inj: "j = k" if "if j = i then ev_active e else active_slot c j"
    "if k = i then ev_active e else active_slot c k"
    "ev_id ((ec_events c)[i := e] ! j) = ev_id ((ec_events c)[i := e] ! k)" for j k
  proof (rule ccontr)
    assume jk: "j \<noteq> k"
    have *: False if "l \<noteq> i" "ev_active e" "active_slot c l" "ev_id (ec_events c ! l) = ev_id e" for l
      using assms(4)[OF that(2,3,1)] that(4) by simp
    consider "j = i" "k \<noteq> i" | "k = i" "j \<noteq> i" | "j \<noteq> i" "k \<noteq> i" using jk by blast
    then show False
    proof cases
      case 1
      have "ev_id e = ev_id (ec_events c ! k)" using that(3) 1 assms(1,2) by simp
      moreover have "ev_active e" "active_slot c k" using 1 that(1,2) by simp_all
      ultimately show False using *[of k] 1 by metis
    next
      case 2
      have "ev_id e = ev_id (ec_events c ! j)" using that(3) 2 assms(1,2) by simp
      moreover have "ev_active e" "active_slot c j" using 2 that(1,2) by simp_all
      ultimately show False using *[of j] 2 by metis
    next
      case 3 with that jk assms(3) show False unfolding ids_unique_def by simp
    qed
  qed
  show ?thesis
    unfolding ids_unique_def active_slot_update[OF assms(1,2)]
    by (intro allI impI, rule inj) simp_all
qed

lemma ec_abs_update_active:
  assumes len: "length (ec_events c) = DOL_EVENT_CLOCK_MAX_EVENTS"
    and i: "i < DOL_EVENT_CLOCK_MAX_EVENTS" and u: "ids_unique c" and e: "ev_active e"
    and own: "active_slot c i \<Longrightarrow> ev_id (ec_events c ! i) = ev_id e"
    and other: "\<And>j. active_slot c j \<Longrightarrow> j \<noteq> i \<Longrightarrow> ev_id (ec_events c ! j) \<noteq> ev_id e"
  shows "ec_abs (c\<lparr>ec_events := (ec_events c)[i := e]\<rparr>) =
    (ec_abs c)(ev_id e \<mapsto> (ev_deadline e, ev_period e))"
proof
  fix eid
  let ?c = "c\<lparr>ec_events := (ec_events c)[i := e]\<rparr>"
  have u': "ids_unique ?c" using len i u other by (intro ids_unique_update) auto
  note act = active_slot_update[OF len i]
  show "ec_abs ?c eid = ((ec_abs c)(ev_id e \<mapsto> (ev_deadline e, ev_period e))) eid"
  proof (cases "eid = ev_id e")
    case True
    then show ?thesis
      using ec_abs_active[OF u', of i] e len i by (simp add: act)
  next
    case False
    have "find_event ?c eid = find_event c eid"
    proof (cases "find_event c eid")
      case None
      have "find_event ?c eid = None"
        using None False len i unfolding find_event_None act by (auto simp: nth_list_update)
      with None show ?thesis by simp
    next
      case (Some j)
      then have j: "active_slot c j" "ev_id (ec_events c ! j) = eid"
        using find_event_SomeD by auto
      with False own have "j \<noteq> i" by auto
      with j have "active_slot ?c j" "ev_id (ec_events ?c ! j) = eid"
        by (simp_all add: act)
      with find_event_active[OF u', of j] Some show ?thesis by simp
    qed
    moreover have "find_event c eid \<noteq> Some i"
      using False own find_event_SomeD by blast
    ultimately show ?thesis
      using False by (cases "find_event c eid") (auto simp: ec_abs_def)
  qed
qed

lemma ec_abs_update_inactive:
  assumes len: "length (ec_events c) = DOL_EVENT_CLOCK_MAX_EVENTS"
    and u: "ids_unique c" and i: "active_slot c i" and e: "\<not> ev_active e"
  shows "ec_abs (c\<lparr>ec_events := (ec_events c)[i := e]\<rparr>) =
    (ec_abs c)(ev_id (ec_events c ! i) := None)"
proof
  fix eid
  let ?c = "c\<lparr>ec_events := (ec_events c)[i := e]\<rparr>"
  have i': "i < DOL_EVENT_CLOCK_MAX_EVENTS" using i by (simp add: active_slot_def)
  note act = active_slot_update[OF len i']
  have u': "ids_unique ?c" using len i' u e by (intro ids_unique_update) auto
  show "ec_abs ?c eid = ((ec_abs c)(ev_id (ec_events c ! i) := None)) eid"
  proof (cases "find_event ?c eid")
    case None
    then have "ec_abs ?c eid = None" by (simp add: ec_abs_def)
    moreover have "ec_abs c eid = None" if "eid \<noteq> ev_id (ec_events c ! i)"
    proof -
      have "find_event c eid = None"
      proof (rule ccontr)
        assume "find_event c eid \<noteq> None"
        then obtain j where "find_event c eid = Some j" by blast
        then have j: "active_slot c j" "ev_id (ec_events c ! j) = eid"
          using find_event_SomeD by auto
        with that have "j \<noteq> i" by auto
        with j have "active_slot ?c j" "ev_id (ec_events ?c ! j) = eid" by (simp_all add: act)
        with None show False by (auto simp: find_event_None)
      qed
      then show ?thesis by (simp add: ec_abs_def)
    qed
    ultimately show ?thesis by auto
  next
    case (Some j)
    then have j: "active_slot ?c j" "ev_id (ec_events ?c ! j) = eid"
      using find_event_SomeD[OF Some] by auto
    with e have ji: "j \<noteq> i" and jc: "active_slot c j" by (auto simp: act split: if_splits)
    with j have "ev_id (ec_events c ! j) = eid" by simp
    with jc ji i u have "eid \<noteq> ev_id (ec_events c ! i)" by (auto simp: ids_unique_def)
    moreover have "ec_abs c eid = ec_abs ?c eid"
      using ec_abs_active[OF u jc] ec_abs_active[OF u' j(1)] j(2) ji by simp
    ultimately show ?thesis by simp
  qed
qed

section \<open>Operations on well-formed clocks\<close>

lemma ec_wf_init: "ec_wf dol_event_clock_init"
  by (auto simp: ec_wf_def dol_event_clock_init_def ids_unique_def active_slot_def empty_event_def
      cache_ok_def refresh_next_deadline_def Let_def refresh_fold first_min_None split: option.splits
      dest!: first_min_SomeD(1,2))

lemma ec_wf_advance: "ec_wf c \<Longrightarrow> ec_wf (dol_event_clock_advance c w)"
  by (simp add: ec_wf_def) (simp add: dol_event_clock_advance_def ids_unique_def active_slot_def)

lemma ec_abs_advance [simp]: "ec_abs (dol_event_clock_advance c w) = ec_abs c"
  by (rule ext) (simp add: ec_abs_def dol_event_clock_advance_def find_event_def)

definition target_slot :: "DolEventClock \<Rightarrow> u32 \<Rightarrow> nat option" where
  "target_slot c eid = (case find_event c eid of None \<Rightarrow> find_free_slot c | Some i \<Rightarrow> Some i)"

lemma target_slot_SomeD:
  assumes "ids_unique c" and "target_slot c eid = Some i"
  shows "i < DOL_EVENT_CLOCK_MAX_EVENTS"
    and "active_slot c i \<Longrightarrow> ev_id (ec_events c ! i) = eid"
    and "active_slot c j \<Longrightarrow> j \<noteq> i \<Longrightarrow> ev_id (ec_events c ! j) \<noteq> eid"
  using assms
  by (auto simp: target_slot_def find_free_slot_def find_upt_Some find_event_None active_slot_def
      find_event_def find_upt_None ids_unique_def split: option.splits)

lemma target_slot_None:
  "target_slot c eid = None \<longleftrightarrow> ec_abs c eid = None \<and> (\<forall>i<DOL_EVENT_CLOCK_MAX_EVENTS. active_slot c i)"
  by (auto simp: target_slot_def find_free_slot_def find_upt_None active_slot_def ec_abs_def
      split: option.splits)

lemma schedule_cases:
  assumes "target_slot c eid = r"
  shows "dol_event_clock_schedule c eid delay period =
    (case r of None \<Rightarrow> (False, c)
     | Some i \<Rightarrow> (True, refresh_next_deadline (c\<lparr>ec_events := (ec_events c)
         [i := \<lparr>ev_id = eid, ev_deadline = ec_now c + delay,
                ev_period = period, ev_active = True\<rparr>]\<rparr>)))"
  using assms by (simp add: dol_event_clock_schedule_def target_slot_def)

lemma dom_ec_abs: "ids_unique c \<Longrightarrow> dom (ec_abs c) = (\<lambda>i. ev_id (ec_events c ! i)) ` {i. active_slot c i}"
  by (auto simp: dom_def dest: ec_abs_SomeD ec_abs_active)

lemma card_dom_ec_abs:
  assumes "ids_unique c"
  shows "card (dom (ec_abs c)) = card {i. active_slot c i}"
  unfolding dom_ec_abs[OF assms]
  by (rule card_image) (use assms in \<open>auto simp: inj_on_def ids_unique_def\<close>)

lemma all_slots_active_iff:
  assumes "ids_unique c"
  shows "(\<forall>i<DOL_EVENT_CLOCK_MAX_EVENTS. active_slot c i) \<longleftrightarrow>
    card (dom (ec_abs c)) = DOL_EVENT_CLOCK_MAX_EVENTS"
proof -
  have sub: "{i. active_slot c i} \<subseteq> {..<DOL_EVENT_CLOCK_MAX_EVENTS}"
    by (auto simp: active_slot_def)
  show ?thesis
  proof
    assume "\<forall>i<DOL_EVENT_CLOCK_MAX_EVENTS. active_slot c i"
    with sub have "{i. active_slot c i} = {..<DOL_EVENT_CLOCK_MAX_EVENTS}" by auto
    then show "card (dom (ec_abs c)) = DOL_EVENT_CLOCK_MAX_EVENTS"
      by (simp add: card_dom_ec_abs[OF assms])
  next
    assume "card (dom (ec_abs c)) = DOL_EVENT_CLOCK_MAX_EVENTS"
    then have "{i. active_slot c i} = {..<DOL_EVENT_CLOCK_MAX_EVENTS}"
      by (intro card_subset_eq sub) (simp_all add: card_dom_ec_abs[OF assms])
    then show "\<forall>i<DOL_EVENT_CLOCK_MAX_EVENTS. active_slot c i" by auto
  qed
qed

lemma schedule_wf: "ec_wf c \<Longrightarrow> ec_wf (snd (dol_event_clock_schedule c eid delay period))"
proof (cases "target_slot c eid")
  case (Some i)
  assume wf: "ec_wf c"
  then have "ids_unique c" by (simp add: ec_wf_def)
  note t = target_slot_SomeD[OF this Some]
  from wf t show ?thesis
    by (auto simp: schedule_cases[OF Some] ec_wf_def frame_simps intro!: ids_unique_update)
qed (simp add: schedule_cases)

lemma schedule_abs:
  assumes "ec_wf c"
  shows "dol_event_clock_schedule c eid delay period = (ok, c') \<Longrightarrow>
    (ok \<longleftrightarrow> ec_abs c eid \<noteq> None \<or> card (dom (ec_abs c)) < DOL_EVENT_CLOCK_MAX_EVENTS) \<and>
    ec_abs c' = (if ok then (ec_abs c)(eid \<mapsto> (ec_now c + delay, period)) else ec_abs c)"
proof -
  have u: "ids_unique c" and len: "length (ec_events c) = DOL_EVENT_CLOCK_MAX_EVENTS"
    using assms by (simp_all add: ec_wf_def)
  have le: "card (dom (ec_abs c)) \<le> DOL_EVENT_CLOCK_MAX_EVENTS"
  proof -
    have "card {i. active_slot c i} \<le> card {..<DOL_EVENT_CLOCK_MAX_EVENTS}"
      by (rule card_mono) (auto simp: active_slot_def)
    then show ?thesis by (simp add: card_dom_ec_abs[OF u])
  qed
  assume s: "dol_event_clock_schedule c eid delay period = (ok, c')"
  show ?thesis
  proof (cases "target_slot c eid")
    case None
    then have "ec_abs c eid = None \<and> card (dom (ec_abs c)) = DOL_EVENT_CLOCK_MAX_EVENTS"
      unfolding target_slot_None all_slots_active_iff[OF u] .
    with s None show ?thesis by (simp add: schedule_cases)
  next
    case (Some i)
    have ok: "ok" and c': "ec_abs c' = ec_abs (c\<lparr>ec_events := (ec_events c)
         [i := \<lparr>ev_id = eid, ev_deadline = ec_now c + delay, ev_period = period, ev_active = True\<rparr>]\<rparr>)"
      using s by (auto simp: schedule_cases[OF Some])
    have "ec_abs c' = (ec_abs c)(eid \<mapsto> (ec_now c + delay, period))"
      unfolding c' using target_slot_SomeD[OF u Some] u len by (subst ec_abs_update_active) auto
    moreover have "\<not> (ec_abs c eid = None \<and> (\<forall>i<DOL_EVENT_CLOCK_MAX_EVENTS. active_slot c i))"
      using Some target_slot_None[of c eid] by auto
    ultimately show ?thesis
      using ok le unfolding all_slots_active_iff[OF u] by auto
  qed
qed

lemma cancel_wf: "ec_wf c \<Longrightarrow> ec_wf (snd (dol_event_clock_cancel c eid))"
  by (auto simp: dol_event_clock_cancel_def ec_wf_def frame_simps active_slot_def
      split: option.splits intro!: ids_unique_update dest!: find_event_SomeD)

lemma cancel_abs:
  assumes "ec_wf c"
  shows "fst (dol_event_clock_cancel c eid) \<longleftrightarrow> ec_abs c eid \<noteq> None"
    and "ec_abs (snd (dol_event_clock_cancel c eid)) = (ec_abs c)(eid := None)"
proof -
  have wf: "ids_unique c" "length (ec_events c) = DOL_EVENT_CLOCK_MAX_EVENTS"
    using assms by (simp_all add: ec_wf_def)
  show "fst (dol_event_clock_cancel c eid) \<longleftrightarrow> ec_abs c eid \<noteq> None"
    by (simp add: dol_event_clock_cancel_def ec_abs_def split: option.splits)
  show "ec_abs (snd (dol_event_clock_cancel c eid)) = (ec_abs c)(eid := None)"
  proof (cases "find_event c eid")
    case None
    then show ?thesis by (auto simp: dol_event_clock_cancel_def ec_abs_def fun_eq_iff)
  next
    case (Some i)
    with find_event_SomeD[OF Some] wf show ?thesis
      by (simp add: dol_event_clock_cancel_def ec_abs_update_inactive)
  qed
qed

lemma due_slot_None:
  "due_slot c = None \<longleftrightarrow> (\<forall>i. active_slot c i \<longrightarrow> ec_now c < ev_deadline (ec_events c ! i))"
  by (auto simp: due_slot_def first_min_None active_slot_def)

lemma due_slot_SomeD:
  assumes "due_slot c = Some b"
  shows "active_slot c b" and "ev_deadline (ec_events c ! b) \<le> ec_now c"
    and "active_slot c i \<Longrightarrow> ev_deadline (ec_events c ! b) \<le> ev_deadline (ec_events c ! i)"
    and "active_slot c i \<Longrightarrow> i < b \<Longrightarrow> ev_deadline (ec_events c ! b) < ev_deadline (ec_events c ! i)"
proof -
  note d = first_min_SomeD[OF assms[unfolded due_slot_def]]
  show b: "active_slot c b" "ev_deadline (ec_events c ! b) \<le> ec_now c"
    using d(1,2) by (auto simp: active_slot_def)
  show "active_slot c i \<Longrightarrow> ev_deadline (ec_events c ! b) \<le> ev_deadline (ec_events c ! i)"
    using d(3)[of i] b(2) by (cases "ec_now c < ev_deadline (ec_events c ! i)") (auto simp: active_slot_def)
  show "active_slot c i \<Longrightarrow> i < b \<Longrightarrow> ev_deadline (ec_events c ! b) < ev_deadline (ec_events c ! i)"
    using d(4)[of i] b(2) by (cases "ec_now c < ev_deadline (ec_events c ! i)") (auto simp: active_slot_def)
qed

text \<open>The early exit never hides a due event, so the cached test and the scan agree.\<close>

lemma pop_fast_path:
  assumes "cache_ok c"
  shows "\<not> ec_has_next c \<or> ec_now c < ec_next_deadline c \<longleftrightarrow> due_slot c = None"
proof (cases "ec_has_next c")
  case True
  from cache_ok_least[OF assms this] show ?thesis
    by (auto simp: due_slot_None True intro: less_le_trans)
next
  case False
  with cache_ok_None[OF assms] show ?thesis by (simp add: due_slot_None)
qed

definition popped_event :: "DolEventClockEvent \<Rightarrow> DolEventClockEvent" where
  "popped_event e = (if ev_period e \<noteq> 0 then e\<lparr>ev_deadline := ev_deadline e + ev_period e\<rparr>
     else e\<lparr>ev_active := False\<rparr>)"

lemma pop_due_scan:
  assumes "cache_ok c"
  shows "dol_event_clock_pop_due c =
    (case due_slot c of None \<Rightarrow> (None, c)
     | Some b \<Rightarrow> (Some (ev_id (ec_events c ! b), ev_deadline (ec_events c ! b)),
         refresh_next_deadline (c\<lparr>ec_events := (ec_events c)[b := popped_event (ec_events c ! b)]\<rparr>)))"
  using pop_fast_path[OF assms]
  by (cases "due_slot c") (simp_all add: dol_event_clock_pop_due_def popped_event_def Let_def)

lemma pop_wf: "ec_wf c \<Longrightarrow> ec_wf (snd (dol_event_clock_pop_due c))"
proof -
  assume wf: "ec_wf c"
  then have ok: "cache_ok c" and u: "ids_unique c"
    and len: "length (ec_events c) = DOL_EVENT_CLOCK_MAX_EVENTS" by (simp_all add: ec_wf_def)
  show ?thesis
  proof (cases "due_slot c")
    case (Some b)
    have b: "active_slot c b" by (rule due_slot_SomeD[OF Some])
    have "ids_unique (c\<lparr>ec_events := (ec_events c)[b := popped_event (ec_events c ! b)]\<rparr>)"
      using b u len by (intro ids_unique_update) (auto simp: active_slot_def popped_event_def ids_unique_def)
    with Some len show ?thesis by (simp add: pop_due_scan[OF ok] ec_wf_def frame_simps)
  qed (simp add: pop_due_scan[OF ok] wf)
qed

lemma pop_abs:
  assumes "ec_wf c" and "due_slot c = Some b"
  shows "ec_abs (snd (dol_event_clock_pop_due c)) =
    (let e = ec_events c ! b
     in if ev_period e \<noteq> 0
        then (ec_abs c)(ev_id e \<mapsto> (ev_deadline e + ev_period e, ev_period e))
        else (ec_abs c)(ev_id e := None))"
proof -
  have ok: "cache_ok c" and u: "ids_unique c"
    and len: "length (ec_events c) = DOL_EVENT_CLOCK_MAX_EVENTS" using assms by (simp_all add: ec_wf_def)
  have b: "active_slot c b" by (rule due_slot_SomeD[OF assms(2)])
  then have b': "b < DOL_EVENT_CLOCK_MAX_EVENTS" "ev_active (ec_events c ! b)" by (simp_all add: active_slot_def)
  have other: "ev_id (ec_events c ! j) \<noteq> ev_id (ec_events c ! b)" if "active_slot c j" "j \<noteq> b" for j
    using that b u unfolding ids_unique_def by blast
  show ?thesis
  proof (cases "ev_period (ec_events c ! b) = 0")
    case True
    then show ?thesis
      using b u len assms(2)
      by (simp add: pop_due_scan[OF ok] popped_event_def ec_abs_update_inactive Let_def)
  next
    case False
    have "ec_abs (c\<lparr>ec_events := (ec_events c)[b := popped_event (ec_events c ! b)]\<rparr>) =
        (ec_abs c)(ev_id (ec_events c ! b) \<mapsto>
          (ev_deadline (ec_events c ! b) + ev_period (ec_events c ! b), ev_period (ec_events c ! b)))"
      using False b' u len other by (subst ec_abs_update_active) (auto simp: popped_event_def)
    with False assms(2) show ?thesis by (simp add: pop_due_scan[OF ok] Let_def)
  qed
qed

section \<open>Runs of operations\<close>

datatype ec_op = Advance u64 | Schedule u32 u64 u64 | Cancel u32 | PopDue

fun ec_apply :: "ec_op \<Rightarrow> DolEventClock \<Rightarrow> DolEventClock" where
  "ec_apply (Advance w) c = dol_event_clock_advance c w"
| "ec_apply (Schedule eid delay period) c = snd (dol_event_clock_schedule c eid delay period)"
| "ec_apply (Cancel eid) c = snd (dol_event_clock_cancel c eid)"
| "ec_apply PopDue c = snd (dol_event_clock_pop_due c)"

definition ec_run :: "ec_op list \<Rightarrow> DolEventClock" where
  "ec_run ops = fold ec_apply ops dol_event_clock_init"

lemma ec_apply_wf: "ec_wf c \<Longrightarrow> ec_wf (ec_apply opn c)"
  by (cases opn) (simp_all add: ec_wf_advance schedule_wf cancel_wf pop_wf)

lemma fold_ec_apply_wf: "ec_wf c \<Longrightarrow> ec_wf (fold ec_apply ops c)"
  by (induction ops arbitrary: c) (simp_all add: ec_apply_wf)

text \<open>C10: whatever sequence of schedule, cancel, advance and pop calls runs from
  \<open>dol_event_clock_init\<close>, the clock keeps 32 slots, its active ids stay pairwise distinct and the
  cached \<open>has_next\<close>/\<open>next_deadline\<close> pair is what a fresh scan of the slots computes.\<close>

theorem event_clock_wf: "ec_wf (ec_run ops)"
  unfolding ec_run_def by (intro fold_ec_apply_wf ec_wf_init)

text \<open>C11: scheduling refines the update of a 32-entry map from ids to deadline and period: it
  succeeds exactly when the id is already scheduled or fewer than 32 ids are, then maps the id
  to \<open>now + delay\<close>; on failure nothing changes.  Cancelling removes the id and reports whether
  it was there.\<close>

theorem event_clock_schedule_cancel_refine:
  assumes "ec_wf c"
  shows "(case dol_event_clock_schedule c eid delay period of (ok, c') \<Rightarrow>
      (ok \<longleftrightarrow> ec_abs c eid \<noteq> None \<or> card (dom (ec_abs c)) < DOL_EVENT_CLOCK_MAX_EVENTS) \<and>
      ec_abs c' = (if ok then (ec_abs c)(eid \<mapsto> (ec_now c + delay, period)) else ec_abs c))
    \<and> fst (dol_event_clock_cancel c eid) = dol_event_clock_is_scheduled c eid
    \<and> ec_abs (snd (dol_event_clock_cancel c eid)) = (ec_abs c)(eid := None)"
  using schedule_abs[OF assms] cancel_abs[OF assms, of eid]
  by (auto simp: dol_event_clock_is_scheduled_def ec_abs_def split: prod.splits)

theorem event_clock_schedule_cancel_refine_witness:
  "fst (dol_event_clock_cancel (ec_run [Schedule 7 10 0]) 7) =
   dol_event_clock_is_scheduled (ec_run [Schedule 7 10 0]) 7"
  using event_clock_schedule_cancel_refine
    [OF fold_ec_apply_wf[OF ec_wf_init, of "[Schedule 7 10 0]", folded ec_run_def], of 7 0 0]
  by (simp split: prod.splits)

lemma event_clock_popped:
  assumes "ec_wf c"
  shows "case dol_event_clock_pop_due c of
      (None, c') \<Rightarrow> c' = c \<and> (\<forall>eid dl p. ec_abs c eid = Some (dl, p) \<longrightarrow> ec_now c < dl)
    | (Some (eid, dl), c') \<Rightarrow> dl \<le> ec_now c \<and> ec_now c' = ec_now c \<and>
        (\<forall>eid' dl' p'. ec_abs c eid' = Some (dl', p') \<longrightarrow> dl \<le> dl') \<and>
        (\<exists>p. ec_abs c eid = Some (dl, p) \<and>
          ec_abs c' = (if p \<noteq> 0 then (ec_abs c)(eid \<mapsto> (dl + p, p)) else (ec_abs c)(eid := None)))"
proof -
  have ok: "cache_ok c" and u: "ids_unique c" using assms by (simp_all add: ec_wf_def)
  show ?thesis
  proof (cases "due_slot c")
    case None
    then have "\<forall>i. active_slot c i \<longrightarrow> ec_now c < ev_deadline (ec_events c ! i)"
      by (simp only: due_slot_None)
    then show ?thesis
      by (auto simp: pop_due_scan[OF ok] None dest!: ec_abs_SomeD)
  next
    case (Some b)
    note d = due_slot_SomeD[OF Some]
    show ?thesis
      using ec_abs_active[OF u d(1)] d(2,3) pop_abs[OF assms Some]
      by (auto simp: pop_due_scan[OF ok] Some Let_def frame_simps dest!: ec_abs_SomeD)
  qed
qed

lemma pop_nothing_due:
  assumes "ec_wf c" and "\<And>eid dl p. ec_abs c eid = Some (dl, p) \<Longrightarrow> ec_now c < dl"
  shows "dol_event_clock_pop_due c = (None, c)"
proof (cases "dol_event_clock_pop_due c")
  case (Pair r c')
  show ?thesis
  proof (cases r)
    case None
    with event_clock_popped[OF assms(1)] Pair show ?thesis by simp
  next
    case (Some e)
    obtain eid dl where e: "e = (eid, dl)" by (cases e)
    with event_clock_popped[OF assms(1)] Pair Some obtain p
      where "dl \<le> ec_now c" "ec_abs c eid = Some (dl, p)" by auto
    with assms(2)[of eid dl p] show ?thesis by simp
  qed
qed

lemma pop_single_due:
  assumes "ec_wf c" and "ec_abs c = [eid \<mapsto> (dl, p)]" and "dl \<le> ec_now c" and "p \<noteq> 0"
  shows "\<exists>c'. dol_event_clock_pop_due c = (Some (eid, dl), c') \<and> ec_wf c' \<and>
    ec_now c' = ec_now c \<and> ec_abs c' = [eid \<mapsto> (dl + p, p)]"
proof (cases "dol_event_clock_pop_due c")
  case (Pair r c')
  have wf': "ec_wf c'" using pop_wf[OF assms(1)] Pair by simp
  show ?thesis
  proof (cases r)
    case None
    with event_clock_popped[OF assms(1)] Pair
    have "ec_abs c eid = Some (dl, p) \<longrightarrow> ec_now c < dl" by auto
    with assms(2,3) show ?thesis by simp
  next
    case (Some e)
    obtain eid' dl' where e: "e = (eid', dl')" by (cases e)
    with event_clock_popped[OF assms(1)] Pair Some obtain p' where p':
      "ec_now c' = ec_now c" "ec_abs c eid' = Some (dl', p')"
      "ec_abs c' = (if p' \<noteq> 0 then (ec_abs c)(eid' \<mapsto> (dl' + p', p')) else (ec_abs c)(eid' := None))"
      by auto
    with assms(2) have "eid' = eid" "dl' = dl" "p' = p" by (auto split: if_splits)
    with p' assms(2,4) wf' Pair Some e show ?thesis by auto
  qed
qed

text \<open>C12: \<open>dol_event_clock_pop_due\<close>, with its cached early exit, pops exactly when some scheduled
  event is due, and then the one with the smallest deadline; a periodic event moves one period
  on, a one-shot event is removed, and no other event is touched.\<close>

theorem event_clock_pop_refine:
  assumes "ec_wf c"
  shows "case dol_event_clock_pop_due c of
      (None, c') \<Rightarrow> c' = c \<and> (\<forall>eid dl p. ec_abs c eid = Some (dl, p) \<longrightarrow> ec_now c < dl)
    | (Some (eid, dl), c') \<Rightarrow> dl \<le> ec_now c \<and> ec_now c' = ec_now c \<and>
        (\<forall>eid' dl' p'. ec_abs c eid' = Some (dl', p') \<longrightarrow> dl \<le> dl') \<and>
        (\<exists>p. ec_abs c eid = Some (dl, p) \<and>
          ec_abs c' = (if p \<noteq> 0 then (ec_abs c)(eid \<mapsto> (dl + p, p)) else (ec_abs c)(eid := None)))"
  by (rule event_clock_popped[OF assms])

theorem event_clock_pop_refine_witness:
  "case dol_event_clock_pop_due (ec_run [Schedule 7 10 5, Advance 12]) of
      (None, c') \<Rightarrow> False
    | (Some (eid, dl), c') \<Rightarrow> eid = 7 \<and> dl = 10 \<and> dl \<le> ec_now (ec_run [Schedule 7 10 5, Advance 12])"
proof -
  have "dol_event_clock_pop_due (ec_run [Schedule 7 10 5, Advance 12]) = X \<Longrightarrow> fst X = Some (7, 10)" for X
    by (drule sym, simp only: simp_thms) code_simp
  with event_clock_pop_refine
    [OF fold_ec_apply_wf[OF ec_wf_init, of "[Schedule 7 10 5, Advance 12]", folded ec_run_def]]
  show ?thesis by (auto split: prod.splits option.splits)
qed

section \<open>Interface: a periodic source\<close>

text \<open>
  What the VI clock relies on: a source with a current time, one next deadline and a fixed
  period; advancing only moves the time, popping when due moves the deadline by one period.
  The lemma of the locale says how many pops succeed before the source is exhausted.
\<close>

locale periodic_source =
  fixes inv :: "'s \<Rightarrow> bool"
    and now :: "'s \<Rightarrow> u64" and due :: "'s \<Rightarrow> u64" and period :: "'s \<Rightarrow> u64"
    and pop :: "'s \<Rightarrow> bool \<times> 's"
  assumes pop_early: "inv s \<Longrightarrow> now s < due s \<Longrightarrow> pop s = (False, s)"
    and pop_fires: "inv s \<Longrightarrow> due s \<le> now s \<Longrightarrow> fst (pop s)"
    and pop_inv: "inv s \<Longrightarrow> inv (snd (pop s))"
    and pop_now: "inv s \<Longrightarrow> now (snd (pop s)) = now s"
    and pop_period: "inv s \<Longrightarrow> period (snd (pop s)) = period s"
    and pop_moves: "inv s \<Longrightarrow> due s \<le> now s \<Longrightarrow> due (snd (pop s)) = due s + period s"
    and period_pos: "inv s \<Longrightarrow> period s \<noteq> 0"
begin

abbreviation after :: "nat \<Rightarrow> 's \<Rightarrow> 's" where
  "after k s \<equiv> ((\<lambda>s. snd (pop s)) ^^ k) s"

lemma after_keeps: "inv s \<Longrightarrow> inv (after k s) \<and> now (after k s) = now s \<and> period (after k s) = period s"
  by (induction k) (auto simp: pop_inv pop_now pop_period)

lemma after_due:
  assumes "inv s" and "unat (now s) + unat (period s) < 2 ^ 64"
  shows "unat (due s) + k * unat (period s) \<le> unat (now s) + unat (period s) \<Longrightarrow>
    unat (due (after k s)) = unat (due s) + k * unat (period s)"
proof (induction k)
  case (Suc k)
  note keeps = after_keeps[OF assms(1), of k]
  have IH: "unat (due (after k s)) = unat (due s) + k * unat (period s)"
    using Suc by simp
  have le: "due (after k s) \<le> now (after k s)"
    using Suc.prems keeps IH by (simp add: word_le_nat_alt)
  have "unat (due (after (Suc k) s)) = unat (due (after k s) + period s)"
    using pop_moves[OF _ le] keeps by simp
  also have "\<dots> = unat (due (after k s)) + unat (period s)"
    using IH Suc.prems assms(2) by (subst unat_add_lem[THEN iffD1]) auto
  finally show ?case by (simp add: IH)
qed simp

theorem drains_exactly:
  assumes "inv s" and bound: "unat (now s) + unat (period s) < 2 ^ 64"
    and due: "unat (due s) \<le> unat (now s) + unat (period s)"
  defines "n \<equiv> (unat (now s) + unat (period s) - unat (due s)) div unat (period s)"
  shows "k < n \<Longrightarrow> fst (pop (after k s))" and "pop (after n s) = (False, after n s)"
proof -
  have pos: "0 < unat (period s)" using period_pos[OF assms(1)] by (simp add: unat_gt_0)
  have le: "n * unat (period s) \<le> unat (now s) + unat (period s) - unat (due s)"
    unfolding n_def by (rule div_times_less_eq_dividend)
  have gt: "unat (now s) + unat (period s) - unat (due s) < Suc n * unat (period s)"
    unfolding n_def using pos by (metis add.commute dividend_less_div_times mult.commute mult_Suc)
  show "pop (after n s) = (False, after n s)"
  proof -
    have "unat (due (after n s)) = unat (due s) + n * unat (period s)"
      using le due by (intro after_due assms(1) bound) linarith
    with gt due have "now (after n s) < due (after n s)"
      using after_keeps[OF assms(1), of n] by (simp add: word_less_nat_alt)
    with after_keeps[OF assms(1), of n] show ?thesis by (simp add: pop_early)
  qed
  show "fst (pop (after k s))" if "k < n"
  proof -
    from that have "Suc k * unat (period s) \<le> n * unat (period s)" by (intro mult_le_mono1) simp
    with le due have k: "unat (due s) + k * unat (period s) \<le> unat (now s)" by simp
    then have "unat (due (after k s)) = unat (due s) + k * unat (period s)"
      by (intro after_due assms(1) bound) linarith
    with k after_keeps[OF assms(1), of k] show ?thesis
      by (intro pop_fires) (simp_all add: word_le_nat_alt)
  qed
qed

end

end
