(* ===== verification/ViClock.thy ===== *)
theory ViClock
  imports EventClock
begin

text \<open>
  The VI retrace clock of src/GXRuntime/src/vi_clock.c: one periodic event of the event clock,
  with the cadence the game chose at boot.  Its pop is a \<open>periodic_source\<close>, so the number of
  retraces a caller observes after any advance is the number of whole periods that elapsed.
\<close>

abbreviation DOL_VI_RETRACE_EVENT :: u32 where "DOL_VI_RETRACE_EVENT \<equiv> 1"
abbreviation DOL_VI_DEFAULT_REFRESH_HZ :: u32 where "DOL_VI_DEFAULT_REFRESH_HZ \<equiv> 60"
abbreviation DOL_VI_DEFAULT_TIMEBASE_HZ :: u64 where "DOL_VI_DEFAULT_TIMEBASE_HZ \<equiv> 40500000"

record DolViClock =
  vi_events :: DolEventClock
  vi_work_units_per_retrace :: u64
  vi_refresh_hz :: u32
  vi_timebase_hz :: u64
  vi_timebase_ticks_per_retrace :: u64

definition dol_vi_clock_configure :: "DolViClock \<Rightarrow> u64 \<Rightarrow> u32 \<Rightarrow> u64 \<Rightarrow> DolViClock" where
  "dol_vi_clock_configure vi work_units_per_retrace refresh_hz timebase_hz =
     (let work = (if work_units_per_retrace = 0 then 1 else work_units_per_retrace);
          refresh = (if refresh_hz = 0 then DOL_VI_DEFAULT_REFRESH_HZ else refresh_hz);
          timebase = (if timebase_hz = 0 then DOL_VI_DEFAULT_TIMEBASE_HZ else timebase_hz);
          now = dol_event_clock_now (vi_events vi);
          events = dol_event_clock_advance dol_event_clock_init now
      in \<lparr>vi_events = snd (dol_event_clock_schedule events DOL_VI_RETRACE_EVENT work work),
          vi_work_units_per_retrace = work, vi_refresh_hz = refresh, vi_timebase_hz = timebase,
          vi_timebase_ticks_per_retrace = timebase div ucast refresh\<rparr>)"

definition dol_vi_clock_init :: "DolViClock \<Rightarrow> DolViClock" where
  "dol_vi_clock_init vi =
     dol_vi_clock_configure (vi\<lparr>vi_events := dol_event_clock_init\<rparr>)
       1 DOL_VI_DEFAULT_REFRESH_HZ DOL_VI_DEFAULT_TIMEBASE_HZ"

definition dol_vi_clock_advance :: "DolViClock \<Rightarrow> u64 \<Rightarrow> DolViClock" where
  "dol_vi_clock_advance vi work_units =
     vi\<lparr>vi_events := dol_event_clock_advance (vi_events vi) work_units\<rparr>"

definition dol_vi_clock_pop_retrace :: "DolViClock \<Rightarrow> u64 option \<times> DolViClock" where
  "dol_vi_clock_pop_retrace vi =
     (case dol_event_clock_pop_due (vi_events vi) of
        (None, ev) \<Rightarrow> (None, vi\<lparr>vi_events := ev\<rparr>)
      | (Some (eid, dl), ev) \<Rightarrow>
          if eid \<noteq> DOL_VI_RETRACE_EVENT then (None, vi\<lparr>vi_events := ev\<rparr>)
          else (Some (vi_timebase_ticks_per_retrace vi), vi\<lparr>vi_events := ev\<rparr>))"

definition dol_vi_clock_now :: "DolViClock \<Rightarrow> u64" where
  "dol_vi_clock_now vi = dol_event_clock_now (vi_events vi)"

definition dol_vi_clock_work_units_per_retrace :: "DolViClock \<Rightarrow> u64" where
  "dol_vi_clock_work_units_per_retrace vi = vi_work_units_per_retrace vi"

definition dol_vi_clock_refresh_hz :: "DolViClock \<Rightarrow> u32" where
  "dol_vi_clock_refresh_hz vi = vi_refresh_hz vi"

definition dol_vi_clock_timebase_ticks_per_retrace :: "DolViClock \<Rightarrow> u64" where
  "dol_vi_clock_timebase_ticks_per_retrace vi = vi_timebase_ticks_per_retrace vi"

section \<open>The retrace clock is a periodic source\<close>

definition vi_due :: "DolViClock \<Rightarrow> u64" where
  "vi_due vi = (case ec_abs (vi_events vi) DOL_VI_RETRACE_EVENT of
     None \<Rightarrow> 0 | Some (dl, p) \<Rightarrow> dl)"

definition vi_wf :: "DolViClock \<Rightarrow> bool" where
  "vi_wf vi \<longleftrightarrow> ec_wf (vi_events vi) \<and> vi_work_units_per_retrace vi \<noteq> 0 \<and>
     ec_abs (vi_events vi) =
       [DOL_VI_RETRACE_EVENT \<mapsto> (vi_due vi, vi_work_units_per_retrace vi)]"

lemma ec_abs_init: "ec_abs dol_event_clock_init = Map.empty"
  by (auto simp: ec_abs_def find_event_def find_upt_None dol_event_clock_init_def empty_event_def
      fun_eq_iff)

lemma schedule_now [frame_simps]:
  "ec_now (snd (dol_event_clock_schedule c eid d p)) = ec_now c"
  by (simp add: dol_event_clock_schedule_def frame_simps split: option.splits)

lemma configure_wf: "vi_wf (dol_vi_clock_configure vi w r t)"
  and configure_due: "vi_due (dol_vi_clock_configure vi w r t) =
    dol_vi_clock_now vi + (if w = 0 then 1 else w)"
  and configure_now: "dol_vi_clock_now (dol_vi_clock_configure vi w r t) = dol_vi_clock_now vi"
proof -
  let ?w = "if w = 0 then 1 else w"
  let ?c = "dol_event_clock_advance dol_event_clock_init (dol_event_clock_now (vi_events vi))"
  have wf: "ec_wf ?c" by (intro ec_wf_advance ec_wf_init)
  obtain ok c' where s: "dol_event_clock_schedule ?c DOL_VI_RETRACE_EVENT ?w ?w = (ok, c')"
    by (cases "dol_event_clock_schedule ?c DOL_VI_RETRACE_EVENT ?w ?w")
  have now: "ec_now ?c = dol_vi_clock_now vi"
    by (simp add: dol_event_clock_advance_def dol_event_clock_init_def dol_vi_clock_now_def)
  from schedule_abs[OF wf s] now
  have abs: "ec_abs c' = [DOL_VI_RETRACE_EVENT \<mapsto> (dol_vi_clock_now vi + ?w, ?w)]"
    by (simp add: ec_abs_init)
  have ev: "vi_events (dol_vi_clock_configure vi w r t) = c'"
    using s by (simp add: dol_vi_clock_configure_def Let_def)
  have pw: "vi_work_units_per_retrace (dol_vi_clock_configure vi w r t) = ?w"
    by (simp add: dol_vi_clock_configure_def Let_def)
  show due: "vi_due (dol_vi_clock_configure vi w r t) = dol_vi_clock_now vi + ?w"
    by (simp add: vi_due_def ev abs)
  have "ec_wf c'" using schedule_wf[OF wf, of DOL_VI_RETRACE_EVENT ?w ?w] s by simp
  then show "vi_wf (dol_vi_clock_configure vi w r t)"
    unfolding vi_wf_def ev pw due abs by simp
  show "dol_vi_clock_now (dol_vi_clock_configure vi w r t) = dol_vi_clock_now vi"
    using schedule_now[of ?c DOL_VI_RETRACE_EVENT ?w ?w] s now
    by (simp add: dol_vi_clock_now_def dol_event_clock_now_def ev)
qed

lemma advance_wf: "vi_wf vi \<Longrightarrow> vi_wf (dol_vi_clock_advance vi w)"
  and advance_due: "vi_due (dol_vi_clock_advance vi w) = vi_due vi"
  and advance_now: "dol_vi_clock_now (dol_vi_clock_advance vi w) = dol_vi_clock_now vi + w"
  by (simp_all add: vi_wf_def vi_due_def dol_vi_clock_advance_def ec_wf_advance dol_vi_clock_now_def
      dol_event_clock_now_def) (simp add: dol_event_clock_advance_def)

lemma pop_retrace_early:
  assumes "vi_wf vi" and "dol_vi_clock_now vi < vi_due vi"
  shows "dol_vi_clock_pop_retrace vi = (None, vi)"
proof -
  have wf: "ec_wf (vi_events vi)"
    and abs: "ec_abs (vi_events vi) = [DOL_VI_RETRACE_EVENT \<mapsto> (vi_due vi, vi_work_units_per_retrace vi)]"
    using assms(1) by (auto simp: vi_wf_def)
  have "dol_event_clock_pop_due (vi_events vi) = (None, vi_events vi)"
    using assms(2) by (intro pop_nothing_due[OF wf])
      (auto simp: abs dol_vi_clock_now_def dol_event_clock_now_def split: if_splits)
  then show ?thesis by (simp add: dol_vi_clock_pop_retrace_def)
qed

lemma pop_retrace_due:
  assumes "vi_wf vi" and "vi_due vi \<le> dol_vi_clock_now vi"
  shows "\<exists>vi'. dol_vi_clock_pop_retrace vi = (Some (vi_timebase_ticks_per_retrace vi), vi') \<and>
    vi_wf vi' \<and> dol_vi_clock_now vi' = dol_vi_clock_now vi \<and>
    vi_work_units_per_retrace vi' = vi_work_units_per_retrace vi \<and>
    vi_timebase_ticks_per_retrace vi' = vi_timebase_ticks_per_retrace vi \<and>
    vi_due vi' = vi_due vi + vi_work_units_per_retrace vi"
proof -
  have wf: "ec_wf (vi_events vi)" and pos: "vi_work_units_per_retrace vi \<noteq> 0"
    and abs: "ec_abs (vi_events vi) = [DOL_VI_RETRACE_EVENT \<mapsto> (vi_due vi, vi_work_units_per_retrace vi)]"
    using assms(1) by (auto simp: vi_wf_def)
  obtain c where c: "dol_event_clock_pop_due (vi_events vi) = (Some (DOL_VI_RETRACE_EVENT, vi_due vi), c)"
      "ec_wf c" "ec_now c = ec_now (vi_events vi)"
      "ec_abs c = [DOL_VI_RETRACE_EVENT \<mapsto> (vi_due vi + vi_work_units_per_retrace vi, vi_work_units_per_retrace vi)]"
    using pop_single_due[OF wf abs _ pos] assms(2)
    by (auto simp: dol_vi_clock_now_def dol_event_clock_now_def)
  then show ?thesis
    by (simp add: dol_vi_clock_pop_retrace_def vi_wf_def vi_due_def pos dol_vi_clock_now_def
        dol_event_clock_now_def)
qed

definition vi_pop :: "DolViClock \<Rightarrow> bool \<times> DolViClock" where
  "vi_pop vi = (fst (dol_vi_clock_pop_retrace vi) \<noteq> None, snd (dol_vi_clock_pop_retrace vi))"

interpretation vi: periodic_source vi_wf dol_vi_clock_now vi_due vi_work_units_per_retrace vi_pop
proof unfold_locales
  fix s assume wf: "vi_wf s"
  have split: "dol_vi_clock_now s < vi_due s \<or> vi_due s \<le> dol_vi_clock_now s" by auto
  show "vi_work_units_per_retrace s \<noteq> 0" using wf by (simp add: vi_wf_def)
  show "dol_vi_clock_now s < vi_due s \<Longrightarrow> vi_pop s = (False, s)"
    by (simp add: vi_pop_def pop_retrace_early[OF wf])
  show "vi_due s \<le> dol_vi_clock_now s \<Longrightarrow> fst (vi_pop s)"
    and "vi_due s \<le> dol_vi_clock_now s \<Longrightarrow> vi_due (snd (vi_pop s)) = vi_due s + vi_work_units_per_retrace s"
    using pop_retrace_due[OF wf] by (auto simp: vi_pop_def)
  show "vi_wf (snd (vi_pop s))" and "dol_vi_clock_now (snd (vi_pop s)) = dol_vi_clock_now s"
    and "vi_work_units_per_retrace (snd (vi_pop s)) = vi_work_units_per_retrace s"
    using split pop_retrace_early[OF wf] pop_retrace_due[OF wf] wf by (auto simp: vi_pop_def)
qed

definition vi_drain :: "nat \<Rightarrow> DolViClock \<Rightarrow> DolViClock" where
  "vi_drain k vi = ((\<lambda>v. snd (dol_vi_clock_pop_retrace v)) ^^ k) vi"

lemma vi_drain_after: "vi_drain k vi = vi.after k vi"
proof -
  have "(\<lambda>v. snd (vi_pop v)) = (\<lambda>v. snd (dol_vi_clock_pop_retrace v))"
    by (simp add: vi_pop_def fun_eq_iff)
  then show ?thesis by (simp add: vi_drain_def)
qed

lemma vi_pop_fst: "fst (vi_pop v) \<longleftrightarrow> fst (dol_vi_clock_pop_retrace v) \<noteq> None"
  by (simp add: vi_pop_def)

text \<open>C20: no retrace is lost or duplicated: after the clock is configured with a period of
  \<open>w\<close> work units and then advanced by \<open>n\<close> units in one step, exactly \<open>n div w\<close> consecutive
  calls of \<open>dol_vi_clock_pop_retrace\<close> report a retrace and the next one reports none
  (as long as the 64-bit work counter itself does not wrap).\<close>

theorem vi_clock_no_lost_retrace:
  assumes "w \<noteq> 0" and "unat (dol_vi_clock_now vi) + unat n + unat w < 2 ^ 64"
  shows "let armed = dol_vi_clock_advance (dol_vi_clock_configure vi w hz tb) n in
    (\<forall>k < unat n div unat w. fst (dol_vi_clock_pop_retrace (vi_drain k armed)) \<noteq> None) \<and>
    fst (dol_vi_clock_pop_retrace (vi_drain (unat n div unat w) armed)) = None"
proof -
  define armed where "armed = dol_vi_clock_advance (dol_vi_clock_configure vi w hz tb) n"
  have wf: "vi_wf armed" unfolding armed_def by (intro advance_wf configure_wf)
  have per: "vi_work_units_per_retrace armed = w"
    using assms(1) by (simp add: armed_def dol_vi_clock_advance_def dol_vi_clock_configure_def Let_def)
  have now: "unat (dol_vi_clock_now armed) = unat (dol_vi_clock_now vi) + unat n"
    using assms(2) by (simp add: armed_def advance_now configure_now unat_word_ariths)
  have due: "unat (vi_due armed) = unat (dol_vi_clock_now vi) + unat w"
    using assms(1,2) by (simp add: armed_def advance_due configure_due unat_word_ariths)
  have n: "(unat (dol_vi_clock_now armed) + unat (vi_work_units_per_retrace armed) - unat (vi_due armed))
      div unat (vi_work_units_per_retrace armed) = unat n div unat w"
    by (simp add: now per due)
  have b: "unat (dol_vi_clock_now armed) + unat (vi_work_units_per_retrace armed) < 2 ^ 64"
    "unat (vi_due armed) \<le> unat (dol_vi_clock_now armed) + unat (vi_work_units_per_retrace armed)"
    using assms(2) by (simp_all add: now per due)
  note d = vi.drains_exactly[OF wf b, unfolded n, folded vi_drain_after]
  show ?thesis
    unfolding Let_def armed_def[symmetric]
    using d(1) d(2)[THEN arg_cong[where f = fst]] by (simp add: vi_pop_fst)
qed

definition vi_boot :: DolViClock where
  "vi_boot = dol_vi_clock_init \<lparr>vi_events = dol_event_clock_init, vi_work_units_per_retrace = 0,
     vi_refresh_hz = 0, vi_timebase_hz = 0, vi_timebase_ticks_per_retrace = 0\<rparr>"

lemma vi_boot_now: "dol_vi_clock_now vi_boot = 0"
  by (simp add: vi_boot_def dol_vi_clock_init_def configure_now)
    (simp add: dol_vi_clock_now_def dol_event_clock_now_def dol_event_clock_init_def)

theorem vi_clock_no_lost_retrace_witness:
  "let armed = dol_vi_clock_advance (dol_vi_clock_configure vi_boot 10 60 0) 25 in
   (\<forall>k < 2. fst (dol_vi_clock_pop_retrace (vi_drain k armed)) \<noteq> None) \<and>
   fst (dol_vi_clock_pop_retrace (vi_drain 2 armed)) = None"
  using vi_clock_no_lost_retrace[of 10 vi_boot 25 60 0] by (simp add: vi_boot_now Let_def)

end
