(* ===== verification/Interrupts.thy ===== *)
theory Interrupts
  imports Prelude
begin

text \<open>
  The processor interface and the VI and pixel-engine interrupt registers of
  src/GXRuntime/src/interrupts.c: which accesses reach which register, write-one-to-clear of the
  cause register, and the level-triggered link from the DI0 register of the video interface to
  the VI cause bit.
\<close>

abbreviation DOL_VI_BASE :: u32 where "DOL_VI_BASE \<equiv> 0xCC002000"
abbreviation DOL_PI_BASE :: u32 where "DOL_PI_BASE \<equiv> 0xCC003000"
abbreviation DOL_PI_INTERRUPT_CAUSE :: u32 where "DOL_PI_INTERRUPT_CAUSE \<equiv> 0xCC003000"
abbreviation DOL_PI_INTERRUPT_MASK :: u32 where "DOL_PI_INTERRUPT_MASK \<equiv> 0xCC003004"
abbreviation DOL_PE_INTERRUPT_STATUS :: u32 where "DOL_PE_INTERRUPT_STATUS \<equiv> 0xCC00100A"
abbreviation DOL_PI_CAUSE_VI :: u32 where "DOL_PI_CAUSE_VI \<equiv> 0x100"
abbreviation DOL_PI_CAUSE_PE_FINISH :: u32 where "DOL_PI_CAUSE_PE_FINISH \<equiv> 0x400"
abbreviation DOL_PI_CAUSE_RST_BUTTON :: u32 where "DOL_PI_CAUSE_RST_BUTTON \<equiv> 0x10000"
abbreviation DOL_VI_REGISTER_BYTES :: u32 where "DOL_VI_REGISTER_BYTES \<equiv> 0x80"
abbreviation DOL_VI_DI0_STATUS_BYTE :: u32 where "DOL_VI_DI0_STATUS_BYTE \<equiv> 0x30"
abbreviation DOL_VI_DI0_STATUS_BIT :: u8 where "DOL_VI_DI0_STATUS_BIT \<equiv> 0x80"
abbreviation DOL_VI_DI0_MASK_BIT :: u8 where "DOL_VI_DI0_MASK_BIT \<equiv> 0x10"
abbreviation DOL_PE_FINISH_ACK_BIT :: u64 where "DOL_PE_FINISH_ACK_BIT \<equiv> 8"

record DolInterrupts =
  vi_regs :: bytes
  pi_cause :: u32
  pi_mask :: u32

section \<open>Operations\<close>

definition read_reg :: "bytes \<Rightarrow> u32 \<Rightarrow> u8 \<Rightarrow> u64" where
  "read_reg regs off n = be_load regs off (unat n)"

definition write_reg :: "bytes \<Rightarrow> u32 \<Rightarrow> u8 \<Rightarrow> u64 \<Rightarrow> bytes" where
  "write_reg regs off n value = be_store regs off (unat n) value"

definition range_contains :: "u32 \<Rightarrow> u32 \<Rightarrow> u32 \<Rightarrow> bool" where
  [guard_defs]: "range_contains base len ea \<longleftrightarrow> base \<le> ea \<and> ea < base + len"

definition dol_interrupts_set_source :: "DolInterrupts \<Rightarrow> u32 \<Rightarrow> bool \<Rightarrow> DolInterrupts" where
  "dol_interrupts_set_source i cause_mask pending =
     (if pending then i\<lparr>pi_cause := pi_cause i OR cause_mask\<rparr>
      else i\<lparr>pi_cause := pi_cause i AND NOT cause_mask\<rparr>)"

definition sync_vi :: "DolInterrupts \<Rightarrow> DolInterrupts" where
  "sync_vi i =
     (let di0 = vi_regs i DOL_VI_DI0_STATUS_BYTE
      in dol_interrupts_set_source i DOL_PI_CAUSE_VI
           (di0 AND DOL_VI_DI0_STATUS_BIT \<noteq> 0 \<and> di0 AND DOL_VI_DI0_MASK_BIT \<noteq> 0))"

definition dol_interrupts_init :: DolInterrupts where
  "dol_interrupts_init = \<lparr>vi_regs = zero_bytes, pi_cause = DOL_PI_CAUSE_RST_BUTTON, pi_mask = 0\<rparr>"

definition dol_interrupts_mmio_contains :: "u32 \<Rightarrow> bool" where
  [guard_defs]: "dol_interrupts_mmio_contains ea \<longleftrightarrow>
     range_contains DOL_VI_BASE DOL_VI_REGISTER_BYTES ea \<or> range_contains DOL_PI_BASE 0x40 ea \<or>
     ea = DOL_PE_INTERRUPT_STATUS"

definition dol_interrupts_mmio_read :: "DolInterrupts \<Rightarrow> u32 \<Rightarrow> u8 \<Rightarrow> u64 \<times> DolInterrupts" where
  "dol_interrupts_mmio_read i ea n =
     (if n = 0 then (0, i)
      else let i = sync_vi i
      in if ea = DOL_PI_INTERRUPT_CAUSE then (ucast (pi_cause i), i)
      else if ea = DOL_PI_INTERRUPT_MASK then (ucast (pi_mask i), i)
      else if ea = DOL_PE_INTERRUPT_STATUS
      then (if flag_set (pi_cause i) DOL_PI_CAUSE_PE_FINISH then DOL_PE_FINISH_ACK_BIT else 0, i)
      else if range_contains DOL_VI_BASE DOL_VI_REGISTER_BYTES ea
      then let off = ea - DOL_VI_BASE
           in if off + ucast n > DOL_VI_REGISTER_BYTES then (0, i)
              else (read_reg (vi_regs i) off n, i)
      else (0, i))"

definition dol_interrupts_mmio_write :: "DolInterrupts \<Rightarrow> u32 \<Rightarrow> u8 \<Rightarrow> u64 \<Rightarrow> DolInterrupts" where
  "dol_interrupts_mmio_write i ea n value =
     (if n = 0 then i
      else if ea = DOL_PI_INTERRUPT_MASK then i\<lparr>pi_mask := ucast value\<rparr>
      else if ea = DOL_PI_INTERRUPT_CAUSE then i\<lparr>pi_cause := pi_cause i AND NOT (ucast value)\<rparr>
      else if ea = DOL_PE_INTERRUPT_STATUS
      then (if value AND DOL_PE_FINISH_ACK_BIT \<noteq> 0
            then dol_interrupts_set_source i DOL_PI_CAUSE_PE_FINISH False else i)
      else if range_contains DOL_VI_BASE DOL_VI_REGISTER_BYTES ea
      then let off = ea - DOL_VI_BASE
           in if off + ucast n > DOL_VI_REGISTER_BYTES then i
              else sync_vi (i\<lparr>vi_regs := write_reg (vi_regs i) off n value\<rparr>)
      else i)"

definition dol_interrupts_pi_cause :: "DolInterrupts \<Rightarrow> u32" where
  "dol_interrupts_pi_cause i = pi_cause i"

definition dol_interrupts_pi_mask :: "DolInterrupts \<Rightarrow> u32" where
  "dol_interrupts_pi_mask i = pi_mask i"

definition dol_interrupts_external_pending :: "DolInterrupts \<Rightarrow> bool" where
  "dol_interrupts_external_pending i \<longleftrightarrow> pi_cause i AND pi_mask i \<noteq> 0"

definition dol_interrupts_assert_vi_retrace :: "DolInterrupts \<Rightarrow> DolInterrupts" where
  "dol_interrupts_assert_vi_retrace i =
     sync_vi (i\<lparr>vi_regs := (vi_regs i)(DOL_VI_DI0_STATUS_BYTE :=
       vi_regs i DOL_VI_DI0_STATUS_BYTE OR DOL_VI_DI0_STATUS_BIT)\<rparr>)"

definition dol_interrupts_commit_pe_finish :: "DolInterrupts \<Rightarrow> DolInterrupts" where
  "dol_interrupts_commit_pe_finish i = dol_interrupts_set_source i DOL_PI_CAUSE_PE_FINISH True"

section \<open>The VI cause follows the DI0 level\<close>

definition di0_level :: "DolInterrupts \<Rightarrow> bool" where
  "di0_level i \<longleftrightarrow> flag_set (vi_regs i DOL_VI_DI0_STATUS_BYTE) DOL_VI_DI0_STATUS_BIT \<and>
     flag_set (vi_regs i DOL_VI_DI0_STATUS_BYTE) DOL_VI_DI0_MASK_BIT"

lemma set_source_frame [simp, frame_simps]:
  "vi_regs (dol_interrupts_set_source i c p) = vi_regs i"
  "pi_mask (dol_interrupts_set_source i c p) = pi_mask i"
  by (simp_all add: dol_interrupts_set_source_def)

lemma set_source_cause:
  "flag_set (pi_cause (dol_interrupts_set_source i c p)) c \<longleftrightarrow> p \<and> c \<noteq> 0"
  by (simp add: dol_interrupts_set_source_def)

lemma set_source_other:
  "c AND d = 0 \<Longrightarrow> pi_cause (dol_interrupts_set_source i c p) AND d = pi_cause i AND d"
  by (simp add: dol_interrupts_set_source_def or_mask_disjoint and_not_mask_disjoint)

lemma sync_vi_frame [simp, frame_simps]:
  "vi_regs (sync_vi i) = vi_regs i" "pi_mask (sync_vi i) = pi_mask i"
  by (simp_all add: sync_vi_def Let_def)

lemma sync_vi_level: "flag_set (pi_cause (sync_vi i)) DOL_PI_CAUSE_VI \<longleftrightarrow> di0_level i"
  by (simp add: sync_vi_def Let_def set_source_cause di0_level_def)

lemma sync_vi_other: "DOL_PI_CAUSE_VI AND d = 0 \<Longrightarrow> pi_cause (sync_vi i) AND d = pi_cause i AND d"
  by (simp add: sync_vi_def Let_def set_source_other)

lemma di0_level_sync [simp]: "di0_level (sync_vi i) = di0_level i"
  by (simp only: di0_level_def sync_vi_frame)

lemma assert_level:
  "flag_set (pi_cause (dol_interrupts_assert_vi_retrace i)) DOL_PI_CAUSE_VI \<longleftrightarrow>
   di0_level (dol_interrupts_assert_vi_retrace i)"
  unfolding dol_interrupts_assert_vi_retrace_def sync_vi_level di0_level_sync ..

lemma assert_regs:
  "vi_regs (dol_interrupts_assert_vi_retrace i) =
   (vi_regs i)(DOL_VI_DI0_STATUS_BYTE := vi_regs i DOL_VI_DI0_STATUS_BYTE OR 0x80)"
  by (simp add: dol_interrupts_assert_vi_retrace_def)

lemma assert_di0:
  "di0_level (dol_interrupts_assert_vi_retrace i) \<longleftrightarrow>
   flag_set (vi_regs i DOL_VI_DI0_STATUS_BYTE) DOL_VI_DI0_MASK_BIT"
  using or_mask_disjoint[where m = "0x80" and n = "0x10" and x = "vi_regs i DOL_VI_DI0_STATUS_BYTE"]
  by (simp add: di0_level_def assert_regs)

lemma cause_write_regs: "vi_regs (dol_interrupts_mmio_write i DOL_PI_INTERRUPT_CAUSE n v) = vi_regs i"
  by (simp add: dol_interrupts_mmio_write_def)

lemma cause_read:
  "n \<noteq> 0 \<Longrightarrow> dol_interrupts_mmio_read i DOL_PI_INTERRUPT_CAUSE n = (ucast (pi_cause (sync_vi i)), sync_vi i)"
  by (simp add: dol_interrupts_mmio_read_def Let_def)

lemma di0_byte_write:
  "dol_interrupts_mmio_write i (DOL_VI_BASE + 0x30) 1 b =
   sync_vi (i\<lparr>vi_regs := (vi_regs i)(DOL_VI_DI0_STATUS_BYTE := ucast b)\<rparr>)"
  by (simp add: dol_interrupts_mmio_write_def range_contains_def write_reg_def be_store_def)

lemma flag_ucast: "flag_set (ucast x :: u64) (ucast m) \<longleftrightarrow> flag_set (x :: u32) m"
proof -
  have "(ucast x :: u64) AND ucast m = ucast (x AND m)" by (rule bit_word_eqI) (auto simp: bit_simps)
  moreover have "(ucast y :: u64) = 0 \<longleftrightarrow> y = 0" for y :: u32
  proof
    assume "(ucast y :: u64) = 0"
    moreover have "(ucast (ucast y :: u64) :: u32) = y" by (rule bit_word_eqI) (auto simp: bit_simps)
    ultimately show "y = 0" by simp
  qed simp
  ultimately show ?thesis by simp
qed

text \<open>The VI cause is level triggered.  Once a retrace is asserted with the DI0 interrupt
  enabled, writing ones to the PI cause register does not silence it: the next read of that
  register reports the VI cause again.  Clearing the status bit in the DI0 register does.\<close>

theorem vi_retrace_level_triggered:
  assumes "flag_set (vi_regs i DOL_VI_DI0_STATUS_BYTE) DOL_VI_DI0_MASK_BIT"
  shows "let i1 = dol_interrupts_assert_vi_retrace i;
      i2 = dol_interrupts_mmio_write i1 DOL_PI_INTERRUPT_CAUSE 4 v;
      (c, i3) = dol_interrupts_mmio_read i2 DOL_PI_INTERRUPT_CAUSE 4;
      i4 = dol_interrupts_mmio_write i3 (DOL_VI_BASE + 0x30) 1 b
    in flag_set (pi_cause i1) DOL_PI_CAUSE_VI \<and> flag_set c 0x100 \<and>
       (b AND 0x80 = 0 \<longrightarrow> \<not> flag_set (pi_cause i4) DOL_PI_CAUSE_VI)"
proof -
  let ?i1 = "dol_interrupts_assert_vi_retrace i"
  let ?i2 = "dol_interrupts_mmio_write ?i1 DOL_PI_INTERRUPT_CAUSE 4 v"
  have on: "di0_level ?i1" unfolding assert_di0 by (rule assms)
  then have "di0_level ?i2" unfolding di0_level_def cause_write_regs .
  then have read: "flag_set (ucast (pi_cause (sync_vi ?i2)) :: u64) 0x100"
    using flag_ucast[of "pi_cause (sync_vi ?i2)" DOL_PI_CAUSE_VI] by (simp only: sync_vi_level) simp
  have clear: "\<not> flag_set (pi_cause (dol_interrupts_mmio_write j (DOL_VI_BASE + 0x30) 1 b)) DOL_PI_CAUSE_VI"
    if "b AND 0x80 = 0" for j
  proof -
    have "(ucast b :: u8) AND 0x80 = ucast (b AND 0x80)" by (rule bit_word_eqI) (auto simp: bit_simps)
    with that have "(ucast b :: u8) AND 0x80 = 0" by simp
    then show ?thesis unfolding di0_byte_write sync_vi_level by (simp add: di0_level_def)
  qed
  show ?thesis
    using on read clear assert_level[of i] by (simp add: Let_def cause_read)
qed

theorem vi_retrace_level_triggered_witness:
  "let i = dol_interrupts_mmio_write dol_interrupts_init (DOL_VI_BASE + 0x30) 1 0x10;
      i1 = dol_interrupts_assert_vi_retrace i;
      i2 = dol_interrupts_mmio_write i1 DOL_PI_INTERRUPT_CAUSE 4 0xFFFFFFFF;
      (c, i3) = dol_interrupts_mmio_read i2 DOL_PI_INTERRUPT_CAUSE 4
    in flag_set (pi_cause i1) DOL_PI_CAUSE_VI \<and> flag_set c 0x100"
proof -
  have "flag_set (vi_regs (dol_interrupts_mmio_write dol_interrupts_init (DOL_VI_BASE + 0x30) 1 0x10)
      DOL_VI_DI0_STATUS_BYTE) DOL_VI_DI0_MASK_BIT"
    unfolding di0_byte_write by simp
  from vi_retrace_level_triggered[OF this, where v = "0xFFFFFFFF" and b = 0] show ?thesis
    by (simp add: Let_def case_prod_beta)
qed

section \<open>The VI register file\<close>

lemma vi_access_guard:
  assumes "unat off + n \<le> 0x80" and "0 < n"
  shows "range_contains DOL_VI_BASE DOL_VI_REGISTER_BYTES (DOL_VI_BASE + off)"
    and "\<not> DOL_VI_REGISTER_BYTES < off + ucast (of_nat n :: u8)"
    and "(of_nat n :: u8) \<noteq> 0" and "unat (of_nat n :: u8) = n"
    and "DOL_VI_BASE + off \<notin> {DOL_PI_INTERRUPT_CAUSE, DOL_PI_INTERRUPT_MASK, DOL_PE_INTERRUPT_STATUS}"
proof -
  have off: "off < 0x80" using assms by (simp add: word_less_nat_alt)
  show n: "unat (of_nat n :: u8) = n" using assms by (simp add: unat_of_nat)
  then show "(of_nat n :: u8) \<noteq> 0" using assms by auto
  have "unat (ucast (of_nat n :: u8) :: u32) = n"
    using n assms by (simp add: unsigned_ucast_eq take_bit_nat_eq_self)
  then show "\<not> DOL_VI_REGISTER_BYTES < off + ucast (of_nat n :: u8)"
    using assms by (simp add: word_less_nat_alt unat_word_ariths)
  have u: "unat (DOL_VI_BASE + off) = unat DOL_VI_BASE + unat off"
    using off by (simp add: unat_word_ariths word_less_nat_alt)
  show "range_contains DOL_VI_BASE DOL_VI_REGISTER_BYTES (DOL_VI_BASE + off)"
    using off u by (simp add: range_contains_def word_less_nat_alt word_le_nat_alt)
  show "DOL_VI_BASE + off \<notin> {DOL_PI_INTERRUPT_CAUSE, DOL_PI_INTERRUPT_MASK, DOL_PE_INTERRUPT_STATUS}"
  proof -
    define x where "x = DOL_VI_BASE + off"
    have "DOL_VI_BASE \<le> x" "x < 0xCC002080"
      using off u by (simp_all add: x_def word_less_nat_alt word_le_nat_alt)
    then show ?thesis unfolding x_def[symmetric] by auto
  qed
qed

lemma vi_write_inside:
  assumes "unat off + n \<le> 0x80" and "0 < n"
  shows "dol_interrupts_mmio_write i (DOL_VI_BASE + off) (of_nat n) v =
    sync_vi (i\<lparr>vi_regs := be_store (vi_regs i) off n v\<rparr>)"
  using vi_access_guard[OF assms] by (simp add: dol_interrupts_mmio_write_def write_reg_def)

lemma vi_read_inside:
  assumes "unat off + n \<le> 0x80" and "0 < n"
  shows "dol_interrupts_mmio_read i (DOL_VI_BASE + off) (of_nat n) =
    (be_load (vi_regs i) off n, sync_vi i)"
  using vi_access_guard[OF assms]
  by (simp add: dol_interrupts_mmio_read_def read_reg_def Let_def)

text \<open>No access through the MMIO interface leaves the 128-byte VI register file: whatever
  the address, width and value, cells 128 and up keep their contents, and a write that fits
  reads back its low \<open>8 * n\<close> bits through the same window.\<close>

theorem vi_registers_bounded:
  "(\<forall>a. 0x80 \<le> a \<longrightarrow> vi_regs (dol_interrupts_mmio_write i ea sz v) a = vi_regs i a) \<and>
   (unat off + n \<le> 0x80 \<and> 0 < n \<and> n \<le> 8 \<longrightarrow>
     fst (dol_interrupts_mmio_read (dol_interrupts_mmio_write i (DOL_VI_BASE + off) (of_nat n) v)
       (DOL_VI_BASE + off) (of_nat n)) = take_bit (8 * n) v)"
proof -
  have "vi_regs (dol_interrupts_mmio_write i ea sz v) a = vi_regs i a" if a: "0x80 \<le> a" for a
  proof (cases "range_contains DOL_VI_BASE DOL_VI_REGISTER_BYTES ea \<and>
      \<not> DOL_VI_REGISTER_BYTES < ea - DOL_VI_BASE + ucast sz")
    case True
    then have "unat (ea - DOL_VI_BASE) + unat sz \<le> 0x80"
    proof -
      have r: "DOL_VI_BASE \<le> ea" "ea < 0xCC002080" using True by (simp_all add: range_contains_def)
      then have "ea - DOL_VI_BASE < 0x80"
        by (simp add: word_less_nat_alt word_le_nat_alt unat_sub)
      moreover have "unat (ucast sz :: u32) = unat sz"
        using unsigned_less[of sz, where ?'a = nat] by (simp add: unsigned_ucast_eq take_bit_nat_eq_self)
      ultimately show ?thesis
        using True unsigned_less[of sz, where ?'a = nat]
        by (simp add: word_less_nat_alt word_le_nat_alt unat_word_ariths)
    qed
    then have "a \<notin> cells (ea - DOL_VI_BASE) (unat sz)"
      using cells_in_window[of "ea - DOL_VI_BASE" "unat sz" "0x80" a] a
      by (auto simp: word_le_nat_alt)
    then show ?thesis
      by (simp add: dol_interrupts_mmio_write_def Let_def write_reg_def be_store_frame)
  next
    case False
    then show ?thesis by (auto simp: dol_interrupts_mmio_write_def Let_def)
  qed
  moreover have "fst (dol_interrupts_mmio_read (dol_interrupts_mmio_write i (DOL_VI_BASE + off)
      (of_nat n) v) (DOL_VI_BASE + off) (of_nat n)) = take_bit (8 * n) v"
    if "unat off + n \<le> 0x80" "0 < n" "n \<le> 8"
    using that by (simp add: vi_write_inside vi_read_inside be_load_store_same)
  ultimately show ?thesis by blast
qed

theorem vi_registers_bounded_witness:
  "fst (dol_interrupts_mmio_read (dol_interrupts_mmio_write dol_interrupts_init (DOL_VI_BASE + 2) 2 0x12345)
     (DOL_VI_BASE + 2) 2) = 0x2345"
proof -
  have "fst (dol_interrupts_mmio_read (dol_interrupts_mmio_write dol_interrupts_init (DOL_VI_BASE + 2)
      (of_nat 2) 0x12345) (DOL_VI_BASE + 2) (of_nat 2)) = take_bit (8 * 2) 0x12345"
    using vi_registers_bounded[of dol_interrupts_init 0 0 "0x12345" 2 2] by simp
  then show ?thesis by simp
qed

end
