(* ===== verification/Mmio.thy ===== *)
theory Mmio
  imports Prelude
begin

text \<open>
  The MMIO bus of src/GXRuntime/src/mmio_bus.c (a table of 32 regions with callbacks, first
  active match wins) and the interface every register device of the runtime offers to it.
  Callbacks are functions of the state they may change; \<open>'s\<close> stands for everything reachable
  through their \<open>user\<close> and \<open>cpu\<close> arguments.
\<close>

section \<open>Interface: a register device behind an address window\<close>

datatype access = ReadAccess u32 u8 | WriteAccess u32 u8 u64

primrec access_address :: "access \<Rightarrow> u32" where
  "access_address (ReadAccess ea n) = ea"
| "access_address (WriteAccess ea n v) = ea"

locale mmio_device =
  fixes window :: "u32 \<Rightarrow> bool"
    and rd :: "'s \<Rightarrow> u32 \<Rightarrow> u8 \<Rightarrow> u64 \<times> 's"
    and wr :: "'s \<Rightarrow> u32 \<Rightarrow> u8 \<Rightarrow> u64 \<Rightarrow> 's"
  assumes read_outside: "\<not> window ea \<Longrightarrow> rd s ea n = (0, s)"
    and write_outside: "\<not> window ea \<Longrightarrow> wr s ea n v = s"
begin

primrec device_step :: "access \<Rightarrow> 's \<Rightarrow> 's" where
  "device_step (ReadAccess ea n) s = snd (rd s ea n)"
| "device_step (WriteAccess ea n v) s = wr s ea n v"

lemma step_outside: "\<not> window (access_address a) \<Longrightarrow> device_step a s = s"
  by (cases a) (simp_all add: read_outside write_outside)

lemma traffic_elsewhere:
  "(\<And>a. a \<in> set as \<Longrightarrow> \<not> window (access_address a)) \<Longrightarrow> fold device_step as s = s"
  by (induction as) (simp_all add: step_outside)

lemma traffic_filtered:
  "fold device_step as s = fold device_step (filter (\<lambda>a. window (access_address a)) as) s"
  by (induction as arbitrary: s) (simp_all add: step_outside)

end

section \<open>The bus\<close>

abbreviation DOL_MMIO_BUS_MAX_REGIONS :: nat where "DOL_MMIO_BUS_MAX_REGIONS \<equiv> 32"

type_synonym 's DolMmioReadFn = "'s \<Rightarrow> u32 \<Rightarrow> u8 \<Rightarrow> u64 \<Rightarrow> bool \<times> u64 \<times> 's"
type_synonym 's DolMmioWriteFn = "'s \<Rightarrow> u32 \<Rightarrow> u8 \<Rightarrow> u64 \<Rightarrow> bool \<times> 's"

record 's DolMmioRegion =
  rg_base :: u32
  rg_size :: u32
  rg_read :: "'s DolMmioReadFn option"
  rg_write :: "'s DolMmioWriteFn option"
  rg_active :: bool

type_synonym 's DolMmioBus = "'s DolMmioRegion list"

definition range_valid :: "u32 \<Rightarrow> u32 \<Rightarrow> bool" where
  [guard_defs]: "range_valid base sz \<longleftrightarrow> sz \<noteq> 0 \<and> base \<le> 0xFFFFFFFF - (sz - 1)"

definition bus_range_contains :: "u32 \<Rightarrow> u32 \<Rightarrow> u32 \<Rightarrow> u8 \<Rightarrow> bool" where
  [guard_defs]: "bus_range_contains base sz ea access_size \<longleftrightarrow>
     (if \<not> range_valid base sz \<or> access_size = 0 then False
      else if ea < base then False
      else let off = ea - base in off < sz \<and> ucast access_size \<le> sz - off)"

definition empty_region :: "'s DolMmioRegion" where
  "empty_region = \<lparr>rg_base = 0, rg_size = 0, rg_read = None, rg_write = None, rg_active = False\<rparr>"

definition dol_mmio_bus_init :: "'s DolMmioBus" where
  "dol_mmio_bus_init = replicate DOL_MMIO_BUS_MAX_REGIONS empty_region"

definition dol_mmio_bus_register ::
  "'s DolMmioBus \<Rightarrow> u32 \<Rightarrow> u32 \<Rightarrow> 's DolMmioReadFn option \<Rightarrow> 's DolMmioWriteFn option \<Rightarrow>
   bool \<times> 's DolMmioBus" where
  "dol_mmio_bus_register bus base sz rdf wrf =
     (if \<not> range_valid base sz \<or> (rdf = None \<and> wrf = None) then (False, bus)
      else case find (\<lambda>i. \<not> rg_active (bus ! i)) [0..<DOL_MMIO_BUS_MAX_REGIONS] of
             None \<Rightarrow> (False, bus)
           | Some i \<Rightarrow> (True, bus[i := \<lparr>rg_base = base, rg_size = sz, rg_read = rdf, rg_write = wrf,
                rg_active = True\<rparr>]))"

definition dol_mmio_bus_contains :: "'s DolMmioBus \<Rightarrow> u32 \<Rightarrow> bool" where
  "dol_mmio_bus_contains bus ea \<longleftrightarrow>
     (\<exists>r \<in> set bus. rg_active r \<and> bus_range_contains (rg_base r) (rg_size r) ea 1)"

primrec bus_read_from :: "'s DolMmioRegion list \<Rightarrow> 's \<Rightarrow> u32 \<Rightarrow> u8 \<Rightarrow> u64 \<Rightarrow> bool \<times> u64 \<times> 's" where
  "bus_read_from [] s ea n v = (False, v, s)"
| "bus_read_from (r # rs) s ea n v =
     (if \<not> rg_active r \<or> \<not> bus_range_contains (rg_base r) (rg_size r) ea n
      then bus_read_from rs s ea n v
      else case rg_read r of
             None \<Rightarrow> bus_read_from rs s ea n v
           | Some f \<Rightarrow> (case f s ea n v of (ok, v', s') \<Rightarrow>
               if ok then (True, v', s') else bus_read_from rs s' ea n v'))"

definition dol_mmio_bus_read :: "'s DolMmioBus \<Rightarrow> 's \<Rightarrow> u32 \<Rightarrow> u8 \<Rightarrow> u64 \<Rightarrow> bool \<times> u64 \<times> 's" where
  "dol_mmio_bus_read bus s ea n v = (if n = 0 then (False, v, s) else bus_read_from bus s ea n v)"

primrec bus_write_to :: "'s DolMmioRegion list \<Rightarrow> 's \<Rightarrow> u32 \<Rightarrow> u8 \<Rightarrow> u64 \<Rightarrow> bool \<times> 's" where
  "bus_write_to [] s ea n v = (False, s)"
| "bus_write_to (r # rs) s ea n v =
     (if \<not> rg_active r \<or> \<not> bus_range_contains (rg_base r) (rg_size r) ea n
      then bus_write_to rs s ea n v
      else case rg_write r of
             None \<Rightarrow> bus_write_to rs s ea n v
           | Some f \<Rightarrow> (case f s ea n v of (ok, s') \<Rightarrow>
               if ok then (True, s') else bus_write_to rs s' ea n v))"

definition dol_mmio_bus_write :: "'s DolMmioBus \<Rightarrow> 's \<Rightarrow> u32 \<Rightarrow> u8 \<Rightarrow> u64 \<Rightarrow> bool \<times> 's" where
  "dol_mmio_bus_write bus s ea n v = (if n = 0 then (False, s) else bus_write_to bus s ea n v)"

section \<open>Containment is exact\<close>

text \<open>The overflow-free guard of the bus says that every byte of the access lies in the region.\<close>

lemma range_valid_unat: "range_valid base sz \<longleftrightarrow> sz \<noteq> 0 \<and> unat base + unat sz \<le> 2 ^ 32"
proof (cases "sz = 0")
  case False
  then have s1: "unat (sz - 1) = unat sz - 1" and pos: "0 < unat sz"
    by (simp_all add: unat_minus_one unat_gt_0)
  have le: "sz - 1 \<le> 0xFFFFFFFF"
    using unsigned_less[of "sz - 1", where ?'a = nat] by (simp add: word_le_nat_alt)
  have "unat (0xFFFFFFFF - (sz - 1)) = unat (0xFFFFFFFF :: u32) - unat (sz - 1)"
    by (rule unat_sub[OF le])
  also have "\<dots> = 2 ^ 32 - unat sz" using s1 pos by simp
  finally have "base \<le> 0xFFFFFFFF - (sz - 1) \<longleftrightarrow> unat base \<le> 2 ^ 32 - unat sz"
    unfolding word_le_nat_alt by (rule ssubst) (rule refl)
  with False unsigned_less[of sz, where ?'a = nat] show ?thesis
    unfolding range_valid_def by auto
qed (simp add: range_valid_def)

lemma bus_range_contains_unat:
  "bus_range_contains base sz ea n \<longleftrightarrow>
     range_valid base sz \<and> n \<noteq> 0 \<and> unat base \<le> unat ea \<and> unat ea + unat n \<le> unat base + unat sz"
proof -
  have n: "unat (ucast n :: u32) = unat n"
    using unsigned_less[of n, where ?'a = nat] by (simp add: unsigned_ucast_eq take_bit_nat_eq_self)
  show ?thesis
  proof (cases "range_valid base sz \<and> n \<noteq> 0 \<and> base \<le> ea")
    case True
    then have off: "unat (ea - base) = unat ea - unat base" by (simp add: unat_sub)
    have npos: "0 < unat n" using True by (simp add: unat_gt_0)
    show ?thesis
    proof (cases "ea - base < sz")
      case lt: True
      then have "unat (sz - (ea - base)) = unat sz - unat (ea - base)" by (simp add: unat_sub)
      with True lt off n show ?thesis
        by (auto simp: bus_range_contains_def word_le_nat_alt word_less_nat_alt Let_def)
    next
      case False
      with True off npos show ?thesis
        by (auto simp: bus_range_contains_def word_le_nat_alt word_less_nat_alt Let_def)
    qed
  qed (auto simp: bus_range_contains_def word_le_nat_alt word_less_nat_alt)
qed

definition bus_wf :: "'s DolMmioBus \<Rightarrow> bool" where
  "bus_wf bus \<longleftrightarrow> length bus = DOL_MMIO_BUS_MAX_REGIONS \<and>
     (\<forall>r \<in> set bus. rg_active r \<longrightarrow> range_valid (rg_base r) (rg_size r) \<and>
        (rg_read r \<noteq> None \<or> rg_write r \<noteq> None))"

lemma bus_wf_init: "bus_wf dol_mmio_bus_init"
  by (simp add: bus_wf_def dol_mmio_bus_init_def empty_region_def)

lemma bus_wf_register: "bus_wf bus \<Longrightarrow> bus_wf (snd (dol_mmio_bus_register bus base sz rdf wrf))"
  by (auto simp: bus_wf_def dol_mmio_bus_register_def split: option.splits dest!: set_update_subset_insert[THEN subsetD])

text \<open>The bus hands an access only to a region that contains every byte of it, without
  wrap-around: if a read or write is answered, some active region with the matching callback
  spans the whole access, and if no such region exists nothing changes.\<close>

theorem mmio_bus_dispatch_contained:
  "(fst (dol_mmio_bus_read bus s ea n v) \<or> snd (snd (dol_mmio_bus_read bus s ea n v)) \<noteq> s \<or>
    fst (dol_mmio_bus_write bus s ea n w) \<or> snd (dol_mmio_bus_write bus s ea n w) \<noteq> s) \<longrightarrow>
   (\<exists>r \<in> set bus. rg_active r \<and> (rg_read r \<noteq> None \<or> rg_write r \<noteq> None) \<and>
      unat (rg_base r) \<le> unat ea \<and> unat ea + unat n \<le> unat (rg_base r) + unat (rg_size r) \<and>
      unat (rg_base r) + unat (rg_size r) \<le> 2 ^ 32)"
proof -
  let ?hit = "\<lambda>bus. \<exists>r \<in> set bus. rg_active r \<and> (rg_read r \<noteq> None \<or> rg_write r \<noteq> None) \<and>
      bus_range_contains (rg_base r) (rg_size r) ea n"
  have miss_r: "\<not> ?hit bus \<Longrightarrow> bus_read_from bus s ea n v = (False, v, s)" for bus :: "'a DolMmioRegion list"
    by (induction bus) (auto split: option.splits)
  have miss_w: "\<not> ?hit bus \<Longrightarrow> bus_write_to bus s ea n w = (False, s)" for bus :: "'a DolMmioRegion list"
    by (induction bus) (auto split: option.splits)
  show ?thesis
  proof (cases "?hit bus")
    case True
    then show ?thesis by (auto simp: bus_range_contains_unat range_valid_unat)
  next
    case False
    then show ?thesis
      by (simp add: dol_mmio_bus_read_def dol_mmio_bus_write_def miss_r[OF False] miss_w[OF False])
  qed
qed

definition demo_bus :: "u64 DolMmioBus" where
  "demo_bus = snd (dol_mmio_bus_register dol_mmio_bus_init 0x1000 0x10 (Some (\<lambda>s ea n v. (True, s + 1, s + 1))) None)"

lemma demo_bus_first:
  "demo_bus = \<lparr>rg_base = 0x1000, rg_size = 0x10, rg_read = Some (\<lambda>s ea n v. (True, s + 1, s + 1)),
     rg_write = None, rg_active = True\<rparr> # replicate 31 empty_region"
proof -
  have "find (\<lambda>i. \<not> rg_active ((dol_mmio_bus_init :: u64 DolMmioBus) ! i)) [0..<DOL_MMIO_BUS_MAX_REGIONS] = Some 0"
    by (simp add: find_upt_Some dol_mmio_bus_init_def empty_region_def)
  moreover have "dol_mmio_bus_init[0 := r] = r # replicate 31 empty_region" for r :: "u64 DolMmioRegion"
    by (simp add: dol_mmio_bus_init_def numeral_eq_Suc)
  ultimately show ?thesis
    by (simp add: demo_bus_def dol_mmio_bus_register_def range_valid_def)
qed

theorem mmio_bus_dispatch_contained_witness:
  "dol_mmio_bus_read demo_bus 4 0x100C 4 0 = (True, 5, 5) \<and>
   (\<exists>r \<in> set demo_bus. rg_active r \<and> (rg_read r \<noteq> None \<or> rg_write r \<noteq> None) \<and>
      unat (rg_base r) \<le> unat (0x100C :: u32) \<and> unat (0x100C :: u32) + unat (4 :: u8) \<le> unat (rg_base r) + unat (rg_size r) \<and>
      unat (rg_base r) + unat (rg_size r) \<le> 2 ^ 32)"
proof
  show r: "dol_mmio_bus_read demo_bus 4 0x100C 4 0 = (True, 5, 5)"
    by (simp add: dol_mmio_bus_read_def demo_bus_first bus_range_contains_def range_valid_def)
  show "\<exists>r \<in> set demo_bus. rg_active r \<and> (rg_read r \<noteq> None \<or> rg_write r \<noteq> None) \<and>
      unat (rg_base r) \<le> unat (0x100C :: u32) \<and> unat (0x100C :: u32) + unat (4 :: u8) \<le> unat (rg_base r) + unat (rg_size r) \<and>
      unat (rg_base r) + unat (rg_size r) \<le> 2 ^ 32"
    by (rule mmio_bus_dispatch_contained[THEN mp, of demo_bus 4 "0x100C" 4 0 0]) (simp add: r)
qed

end
