(* ===== verification/Si.thy ===== *)
theory Si
  imports Mmio
begin

text \<open>
  The serial interface registers of src/GXRuntime/src/si.c: controller polls latch the per-channel
  RDST bits of the status register, reading a channel's input registers consumes its bit, and the
  RDSTINT bit of COMCSR follows the RDST bits after every operation.
\<close>

abbreviation DOL_SI_BASE :: u32 where "DOL_SI_BASE \<equiv> 0xCC006400"
abbreviation DOL_SI_REGISTER_BYTES :: u32 where "DOL_SI_REGISTER_BYTES \<equiv> 0x100"
abbreviation DOL_SI_COMCSR_OFF :: u32 where "DOL_SI_COMCSR_OFF \<equiv> 0x34"
abbreviation DOL_SI_STATUS_OFF :: u32 where "DOL_SI_STATUS_OFF \<equiv> 0x38"
abbreviation DOL_SI_TSTART :: u32 where "DOL_SI_TSTART \<equiv> 0x00000001"
abbreviation DOL_SI_RDSTINTMSK :: u32 where "DOL_SI_RDSTINTMSK \<equiv> 0x08000000"
abbreviation DOL_SI_RDSTINT :: u32 where "DOL_SI_RDSTINT \<equiv> 0x10000000"
abbreviation DOL_SI_TCINTMSK :: u32 where "DOL_SI_TCINTMSK \<equiv> 0x40000000"
abbreviation DOL_SI_TCINT :: u32 where "DOL_SI_TCINT \<equiv> 0x80000000"
abbreviation DOL_SI_STATUS_RDST_ALL :: u32 where "DOL_SI_STATUS_RDST_ALL \<equiv> 0x20202020"
abbreviation DOL_SI_STATUS_ERROR_ALL :: u32 where "DOL_SI_STATUS_ERROR_ALL \<equiv> 0x0F0F0F0F"
abbreviation DOL_SI_STATUS_WR :: u32 where "DOL_SI_STATUS_WR \<equiv> 0x80000000"

record DolSiDevice =
  si_regs :: bytes

definition load_be32 :: "bytes \<Rightarrow> u32 \<Rightarrow> u32" where
  "load_be32 b off = push_bit 24 (ucast (b off)) OR push_bit 16 (ucast (b (off + 1)))
     OR push_bit 8 (ucast (b (off + 2))) OR ucast (b (off + 3))"

definition store_be32 :: "bytes \<Rightarrow> u32 \<Rightarrow> u32 \<Rightarrow> bytes" where
  "store_be32 b off v = b(off := ucast (drop_bit 24 v), off + 1 := ucast (drop_bit 16 v),
     off + 2 := ucast (drop_bit 8 v), off + 3 := ucast v)"

definition read_be :: "bytes \<Rightarrow> u32 \<Rightarrow> u8 \<Rightarrow> u64" where
  "read_be b off n = be_load b off (unat n)"

definition write_be :: "bytes \<Rightarrow> u32 \<Rightarrow> u8 \<Rightarrow> u64 \<Rightarrow> bytes" where
  "write_be b off n v = be_store b off (unat n) v"

definition channel_rdst_bit :: "nat \<Rightarrow> u32" where
  "channel_rdst_bit channel = drop_bit (channel * 8) 0x20000000"

definition channel_input_offset :: "u32 \<Rightarrow> nat option" where
  "channel_input_offset off =
     find (\<lambda>i. off = 0x04 + of_nat i * 0x0C \<or> off = 0x04 + of_nat i * 0x0C + 4) [0..<4]"

definition sync_rdst :: "DolSiDevice \<Rightarrow> DolSiDevice" where
  "sync_rdst si =
     (let comcsr = load_be32 (si_regs si) DOL_SI_COMCSR_OFF;
          status = load_be32 (si_regs si) DOL_SI_STATUS_OFF;
          comcsr = (if flag_set status DOL_SI_STATUS_RDST_ALL then comcsr OR DOL_SI_RDSTINT
                    else comcsr AND NOT DOL_SI_RDSTINT)
      in si\<lparr>si_regs := store_be32 (si_regs si) DOL_SI_COMCSR_OFF comcsr\<rparr>)"

definition dol_si_init :: DolSiDevice where
  "dol_si_init = \<lparr>si_regs = zero_bytes\<rparr>"

definition dol_si_mmio_contains :: "u32 \<Rightarrow> bool" where
  [guard_defs]: "dol_si_mmio_contains ea \<longleftrightarrow> DOL_SI_BASE \<le> ea \<and> ea < DOL_SI_BASE + DOL_SI_REGISTER_BYTES"

definition dol_si_mmio_read :: "DolSiDevice \<Rightarrow> u32 \<Rightarrow> u8 \<Rightarrow> u64 \<times> DolSiDevice" where
  "dol_si_mmio_read si ea n =
     (if n = 0 \<or> \<not> dol_si_mmio_contains ea then (0, si)
      else let off = ea - DOL_SI_BASE
      in if DOL_SI_REGISTER_BYTES < off + ucast n then (0, si)
      else case (if n = 4 then channel_input_offset off else None) of
        Some channel \<Rightarrow>
          (let value = read_be (si_regs si) off n;
               status = load_be32 (si_regs si) DOL_SI_STATUS_OFF AND NOT (channel_rdst_bit channel);
               si = si\<lparr>si_regs := store_be32 (si_regs si) DOL_SI_STATUS_OFF status\<rparr>
           in (value, sync_rdst si))
      | None \<Rightarrow> (read_be (si_regs si) off n, si))"

definition si_write_comcsr :: "u32 \<Rightarrow> u32 \<Rightarrow> u32" where
  "si_write_comcsr comcsr written =
     (let control_mask = 0x00000006 OR 0x00007F00 OR 0x007F0000 OR DOL_SI_RDSTINTMSK OR DOL_SI_TCINTMSK;
          comcsr = (comcsr AND NOT control_mask) OR (written AND control_mask);
          comcsr = (if flag_set written DOL_SI_RDSTINT then comcsr AND NOT DOL_SI_RDSTINT else comcsr);
          comcsr = (if flag_set written DOL_SI_TCINT then comcsr AND NOT DOL_SI_TCINT else comcsr)
      in if flag_set written DOL_SI_TSTART then (comcsr AND NOT DOL_SI_TSTART) OR DOL_SI_TCINT else comcsr)"

definition dol_si_mmio_write :: "DolSiDevice \<Rightarrow> u32 \<Rightarrow> u8 \<Rightarrow> u64 \<Rightarrow> DolSiDevice" where
  "dol_si_mmio_write si ea n value =
     (if n = 0 \<or> \<not> dol_si_mmio_contains ea then si
      else let off = ea - DOL_SI_BASE
      in if DOL_SI_REGISTER_BYTES < off + ucast n then si
      else if off = DOL_SI_COMCSR_OFF \<and> n = 4
      then let comcsr = si_write_comcsr (load_be32 (si_regs si) off) (ucast value)
           in sync_rdst (si\<lparr>si_regs := store_be32 (si_regs si) off comcsr\<rparr>)
      else if off = DOL_SI_STATUS_OFF \<and> n = 4
      then let status = load_be32 (si_regs si) off AND NOT (ucast value AND DOL_SI_STATUS_ERROR_ALL);
               status = (if flag_set (ucast value) DOL_SI_STATUS_WR then status AND NOT DOL_SI_STATUS_WR
                         else status)
           in sync_rdst (si\<lparr>si_regs := store_be32 (si_regs si) off status\<rparr>)
      else sync_rdst (si\<lparr>si_regs := write_be (si_regs si) off n value\<rparr>))"

definition dol_si_latch_poll :: "DolSiDevice \<Rightarrow> u32 \<Rightarrow> DolSiDevice" where
  "dol_si_latch_poll si channel_mask =
     (let status = load_be32 (si_regs si) DOL_SI_STATUS_OFF;
          status = fold (\<lambda>channel status. if flag_set channel_mask (push_bit channel 1)
                     then status OR channel_rdst_bit channel else status) [0..<4] status
      in sync_rdst (si\<lparr>si_regs := store_be32 (si_regs si) DOL_SI_STATUS_OFF status\<rparr>))"

definition dol_si_interrupt_pending :: "DolSiDevice \<Rightarrow> bool" where
  "dol_si_interrupt_pending si \<longleftrightarrow>
     (let comcsr = load_be32 (si_regs si) DOL_SI_COMCSR_OFF
      in flag_set comcsr DOL_SI_RDSTINT \<and> flag_set comcsr DOL_SI_RDSTINTMSK \<or>
         flag_set comcsr DOL_SI_TCINT \<and> flag_set comcsr DOL_SI_TCINTMSK)"

section \<open>Register images\<close>

lemma load_be32_bits:
  assumes "j < 32"
  shows "bit (load_be32 b off) j = bit (b (off + of_nat (3 - j div 8))) (j mod 8)"
proof -
  have byte: "bit (x :: u8) k \<Longrightarrow> k < 8" for x k using bit_imp_le_length[of x k] by simp
  consider "j < 8" | "8 \<le> j" "j < 16" | "16 \<le> j" "j < 24" | "24 \<le> j" using assms by linarith
  then show ?thesis
    using assms
    by cases (auto simp: load_be32_def bit_simps le_div_geq mod_if dest: byte)
qed

lemma byte_of_drop_bit: "8 * k \<le> j \<Longrightarrow> j < 8 * k + 8 \<Longrightarrow> bit (ucast (drop_bit (8 * k) v) :: u8) (j - 8 * k) = bit v j"
  for v :: u32
  by (auto simp: bit_simps)

lemma load_store_be32: "load_be32 (store_be32 b off v) off = v"
proof (rule bit_word_eqI)
  fix j assume j: "j < LENGTH(32)"
  then have w: "bit (load_be32 (store_be32 b off v) off) j = 
      bit (store_be32 b off v (off + of_nat (3 - j div 8))) (j mod 8)"
    by (intro load_be32_bits) simp
  consider "j < 8" | "8 \<le> j" "j < 16" | "16 \<le> j" "j < 24" | "24 \<le> j" using j by linarith
  then show "bit (load_be32 (store_be32 b off v) off) j = bit v j"
    unfolding w using j
    by cases (auto simp: store_be32_def bit_simps le_div_geq mod_if)
qed

definition word_cells :: "u32 \<Rightarrow> u32 set" where
  "word_cells off = {off, off + 1, off + 2, off + 3}"

lemma load_be32_cong: "(\<And>a. a \<in> word_cells off \<Longrightarrow> b a = c a) \<Longrightarrow> load_be32 b off = load_be32 c off"
  by (simp add: load_be32_def word_cells_def)

lemma store_be32_frame: "a \<notin> word_cells off \<Longrightarrow> store_be32 b off v a = b a"
  by (simp add: store_be32_def word_cells_def)

lemma load_store_be32_other:
  "word_cells off \<inter> word_cells off' = {} \<Longrightarrow> load_be32 (store_be32 b off v) off' = load_be32 b off'"
  by (rule load_be32_cong, rule store_be32_frame) blast

lemma status_comcsr_apart:
  "word_cells DOL_SI_COMCSR_OFF \<inter> word_cells DOL_SI_STATUS_OFF = {}"
  "word_cells DOL_SI_STATUS_OFF \<inter> word_cells DOL_SI_COMCSR_OFF = {}"
  by (auto simp: word_cells_def)

abbreviation si_status :: "DolSiDevice \<Rightarrow> u32" where
  "si_status si \<equiv> load_be32 (si_regs si) DOL_SI_STATUS_OFF"

abbreviation si_comcsr :: "DolSiDevice \<Rightarrow> u32" where
  "si_comcsr si \<equiv> load_be32 (si_regs si) DOL_SI_COMCSR_OFF"

definition si_synced :: "DolSiDevice \<Rightarrow> bool" where
  "si_synced si \<longleftrightarrow> (flag_set (si_comcsr si) DOL_SI_RDSTINT \<longleftrightarrow> flag_set (si_status si) DOL_SI_STATUS_RDST_ALL)"

lemma sync_rdst_status [simp]: "si_status (sync_rdst si) = si_status si"
  by (simp add: sync_rdst_def Let_def load_store_be32_other status_comcsr_apart)

lemma sync_rdst_comcsr:
  "si_comcsr (sync_rdst si) = (if flag_set (si_status si) DOL_SI_STATUS_RDST_ALL
     then si_comcsr si OR DOL_SI_RDSTINT else si_comcsr si AND NOT DOL_SI_RDSTINT)"
  by (simp add: sync_rdst_def Let_def load_store_be32)

lemma sync_rdst_synced [simp]: "si_synced (sync_rdst si)"
  by (simp add: si_synced_def sync_rdst_comcsr and.assoc)

lemma read_synced: "si_synced si \<Longrightarrow> si_synced (snd (dol_si_mmio_read si ea n))"
  by (simp add: dol_si_mmio_read_def Let_def split: option.splits)

lemma write_synced: "si_synced si \<Longrightarrow> si_synced (dol_si_mmio_write si ea n v)"
  by (simp add: dol_si_mmio_write_def Let_def)

lemma latch_synced: "si_synced (dol_si_latch_poll si m)"
  by (simp add: dol_si_latch_poll_def Let_def)

interpretation si: mmio_device dol_si_mmio_contains dol_si_mmio_read dol_si_mmio_write
  by unfold_locales (simp_all add: dol_si_mmio_read_def dol_si_mmio_write_def)

datatype si_op = SiRead u32 u8 | SiWrite u32 u8 u64 | SiPoll u32

primrec si_apply :: "si_op \<Rightarrow> DolSiDevice \<Rightarrow> DolSiDevice" where
  "si_apply (SiRead ea n) si = snd (dol_si_mmio_read si ea n)"
| "si_apply (SiWrite ea n v) si = dol_si_mmio_write si ea n v"
| "si_apply (SiPoll m) si = dol_si_latch_poll si m"

lemma si_apply_synced: "si_synced si \<Longrightarrow> si_synced (si_apply opn si)"
  by (cases opn) (simp_all add: read_synced write_synced latch_synced)

lemma si_run_synced: "si_synced si \<Longrightarrow> si_synced (fold si_apply ops si)"
  by (induction ops arbitrary: si) (simp_all add: si_apply_synced)

lemma si_init_synced: "si_synced dol_si_init"
  by (simp add: si_synced_def dol_si_init_def load_be32_def)

text \<open>C34: after any sequence of guest reads, guest writes (of any width, also overlapping the
  control words) and host polls, the RDSTINT bit of COMCSR is set exactly when some channel has
  unread input, and the SI requests an interrupt for input exactly when that bit is unmasked.\<close>

theorem si_rdst_interrupt_exact:
  "let si = fold si_apply ops dol_si_init in
   (flag_set (si_comcsr si) DOL_SI_RDSTINT \<longleftrightarrow> flag_set (si_status si) DOL_SI_STATUS_RDST_ALL) \<and>
   (dol_si_interrupt_pending si \<longleftrightarrow>
      flag_set (si_status si) DOL_SI_STATUS_RDST_ALL \<and> flag_set (si_comcsr si) DOL_SI_RDSTINTMSK \<or>
      flag_set (si_comcsr si) DOL_SI_TCINT \<and> flag_set (si_comcsr si) DOL_SI_TCINTMSK)"
  using si_run_synced[OF si_init_synced, of ops]
  unfolding Let_def si_synced_def dol_si_interrupt_pending_def by blast

lemma channel_cases:
  assumes "c < (4::nat)"
  obtains "c = 0" | "c = 1" | "c = 2" | "c = 3"
  using assms by linarith

lemma channel_input_offset_cell:
  "c < 4 \<Longrightarrow> channel_input_offset (0x04 + of_nat c * 0x0C) = Some c"
  "c < 4 \<Longrightarrow> channel_input_offset (0x08 + of_nat c * 0x0C) = Some c"
  by (erule channel_cases; simp add: channel_input_offset_def upt_rec)+

lemma channel_read_consumes:
  assumes "c < 4"
  shows "snd (dol_si_mmio_read si (DOL_SI_BASE + (4 + of_nat c * 0x0C)) 4) =
    sync_rdst (si\<lparr>si_regs := store_be32 (si_regs si) DOL_SI_STATUS_OFF
      (si_status si AND NOT (channel_rdst_bit c))\<rparr>)"
proof -
  have "dol_si_mmio_contains (DOL_SI_BASE + (4 + of_nat c * 0x0C))"
    "\<not> DOL_SI_REGISTER_BYTES < (4 + of_nat c * 0x0C) + 4"
    using assms by (cases rule: channel_cases; simp add: dol_si_mmio_contains_def)+
  with channel_input_offset_cell(1)[OF assms] show ?thesis
    by (simp add: dol_si_mmio_read_def Let_def)
qed

definition consume_all :: "DolSiDevice \<Rightarrow> DolSiDevice" where
  "consume_all si = fold (\<lambda>c si. snd (dol_si_mmio_read si (DOL_SI_BASE + (4 + of_nat c * 0x0C)) 4)) [0..<4] si"

lemma latch_status:
  "si_status (dol_si_latch_poll si m) = fold (\<lambda>channel status. if flag_set m (push_bit channel 1)
     then status OR channel_rdst_bit channel else status) [0..<4] (si_status si)"
  by (simp add: dol_si_latch_poll_def Let_def load_store_be32)

text \<open>A poll that latches any channel raises RDSTINT, and reading the input word of each of
  the four channels consumes exactly the latched bits: afterwards no RDST bit and no RDSTINT is
  left, and reading one channel leaves the RDST bits of the others alone.\<close>

theorem si_poll_consume:
  "\<not> flag_set (si_status (consume_all si)) DOL_SI_STATUS_RDST_ALL \<and>
   \<not> flag_set (si_comcsr (consume_all (dol_si_latch_poll si m))) DOL_SI_RDSTINT \<and>
   (flag_set m 0xF \<longrightarrow> flag_set (si_comcsr (dol_si_latch_poll si m)) DOL_SI_RDSTINT)"
proof -
  have st: "si_status (snd (dol_si_mmio_read si (DOL_SI_BASE + (4 + of_nat c * 0x0C)) 4)) =
      si_status si AND NOT (channel_rdst_bit c)" if "c < 4" for si c
    unfolding channel_read_consumes[OF that] sync_rdst_status by (simp add: load_store_be32)
  have four: "[0..<4] = [0, 1, 2, 3 :: nat]" by (simp add: upt_rec)
  have consumed: "\<not> flag_set (si_status (consume_all si)) DOL_SI_STATUS_RDST_ALL" for si
    unfolding consume_all_def four fold_simps comp_apply
    using st[of 0] st[of 1] st[of 2] st[of 3] by (simp add: channel_rdst_bit_def and.assoc)
  have "si_synced (consume_all si)" for si
    unfolding consume_all_def four fold_simps comp_apply using channel_read_consumes[of 3] by simp
  with consumed have "\<not> flag_set (si_comcsr (consume_all si)) DOL_SI_RDSTINT" for si
    unfolding si_synced_def by blast
  moreover have "flag_set (si_comcsr (dol_si_latch_poll si m)) DOL_SI_RDSTINT" if "flag_set m 0xF"
  proof -
    have "flag_set (si_status (dol_si_latch_poll si m)) DOL_SI_STATUS_RDST_ALL"
    proof -
      have "(0xF :: u32) = 1 OR 2 OR 4 OR 8" by simp
      with that have "flag_set m 1 \<or> flag_set m 2 \<or> flag_set m 4 \<or> flag_set m 8"
        unfolding flag_set_or_mask by (metis flag_set_or_mask)
      then show ?thesis
        unfolding latch_status four fold_simps comp_apply
        by (auto simp: flag_set_or channel_rdst_bit_def split: if_splits)
    qed
    with latch_synced show ?thesis unfolding si_synced_def by blast
  qed
  ultimately show ?thesis using consumed by blast
qed

theorem si_poll_consume_witness:
  "flag_set (si_comcsr (dol_si_latch_poll dol_si_init 1)) DOL_SI_RDSTINT"
  using si_poll_consume[of dol_si_init 1] by simp

end
