(* ===== verification/Exi.thy ===== *)
theory Exi
  imports Mmio
begin

text \<open>
  The external interface of src/GXRuntime/src/exi.c: three channels of five registers, transfers
  that run through a host callback and complete at once or later, and latched interrupt causes
  the guest clears by writing ones.

  The transfer callback is a parameter: a function of the transfer descriptor, the immediate-data
  word it may overwrite through its pointer, and the state \<open>'c\<close> that its \<open>user\<close> and \<open>cpu\<close> arguments
  reach.  A callback that calls back into the same EXI object is outside the model.
\<close>

abbreviation DOL_EXI_BASE :: u32 where "DOL_EXI_BASE \<equiv> 0xCC006800"
abbreviation DOL_EXI_CHANNELS :: nat where "DOL_EXI_CHANNELS \<equiv> 3"
abbreviation DOL_EXI_CHANNEL_STRIDE :: u32 where "DOL_EXI_CHANNEL_STRIDE \<equiv> 0x14"
abbreviation DOL_EXI_REGISTER_BYTES :: u32 where "DOL_EXI_REGISTER_BYTES \<equiv> 0x3C"
abbreviation DOL_EXI_STATUS_OFF :: u32 where "DOL_EXI_STATUS_OFF \<equiv> 0x00"
abbreviation DOL_EXI_DMA_ADDRESS_OFF :: u32 where "DOL_EXI_DMA_ADDRESS_OFF \<equiv> 0x04"
abbreviation DOL_EXI_DMA_LENGTH_OFF :: u32 where "DOL_EXI_DMA_LENGTH_OFF \<equiv> 0x08"
abbreviation DOL_EXI_CONTROL_OFF :: u32 where "DOL_EXI_CONTROL_OFF \<equiv> 0x0C"
abbreviation DOL_EXI_IMMEDIATE_DATA_OFF :: u32 where "DOL_EXI_IMMEDIATE_DATA_OFF \<equiv> 0x10"
abbreviation DOL_EXI_STATUS_EXIINTMASK :: u32 where "DOL_EXI_STATUS_EXIINTMASK \<equiv> 0x00000001"
abbreviation DOL_EXI_STATUS_EXIINT :: u32 where "DOL_EXI_STATUS_EXIINT \<equiv> 0x00000002"
abbreviation DOL_EXI_STATUS_TCINTMASK :: u32 where "DOL_EXI_STATUS_TCINTMASK \<equiv> 0x00000004"
abbreviation DOL_EXI_STATUS_TCINT :: u32 where "DOL_EXI_STATUS_TCINT \<equiv> 0x00000008"
abbreviation DOL_EXI_STATUS_CLK_MASK :: u32 where "DOL_EXI_STATUS_CLK_MASK \<equiv> 0x00000070"
abbreviation DOL_EXI_STATUS_CHIP_SELECT_MASK :: u32 where "DOL_EXI_STATUS_CHIP_SELECT_MASK \<equiv> 0x00000380"
abbreviation DOL_EXI_STATUS_EXTINTMASK :: u32 where "DOL_EXI_STATUS_EXTINTMASK \<equiv> 0x00000400"
abbreviation DOL_EXI_STATUS_EXTINT :: u32 where "DOL_EXI_STATUS_EXTINT \<equiv> 0x00000800"
abbreviation DOL_EXI_STATUS_EXT :: u32 where "DOL_EXI_STATUS_EXT \<equiv> 0x00001000"
abbreviation DOL_EXI_STATUS_ROMDIS :: u32 where "DOL_EXI_STATUS_ROMDIS \<equiv> 0x00002000"
abbreviation DOL_EXI_CONTROL_TSTART :: u32 where "DOL_EXI_CONTROL_TSTART \<equiv> 0x00000001"
abbreviation DOL_EXI_CONTROL_DMA :: u32 where "DOL_EXI_CONTROL_DMA \<equiv> 0x00000002"
abbreviation DOL_EXI_CONTROL_RW_MASK :: u32 where "DOL_EXI_CONTROL_RW_MASK \<equiv> 0x0000000C"
abbreviation DOL_EXI_CONTROL_TLEN_MASK :: u32 where "DOL_EXI_CONTROL_TLEN_MASK \<equiv> 0x00000030"

record DolExiTransfer =
  xf_channel :: nat
  xf_chip_select :: u32
  xf_direction :: u32
  xf_length :: u32
  xf_dma :: bool
  xf_dma_address :: u32

type_synonym 'c DolExiTransferFn = "DolExiTransfer \<Rightarrow> u32 \<Rightarrow> 'c \<Rightarrow> bool \<times> u32 \<times> 'c"

record DolExiChannel =
  ch_status :: u32
  ch_dma_address :: u32
  ch_dma_length :: u32
  ch_control :: u32
  ch_immediate_data :: u32

record 'c DolExi =
  exi_channels :: "DolExiChannel list"
  exi_transfer :: "'c DolExiTransferFn option"

section \<open>Operations\<close>

definition dol_exi_mmio_contains :: "u32 \<Rightarrow> bool" where
  [guard_defs]: "dol_exi_mmio_contains ea \<longleftrightarrow>
     DOL_EXI_BASE \<le> ea \<and> ea < DOL_EXI_BASE + DOL_EXI_REGISTER_BYTES"

definition decode_address :: "u32 \<Rightarrow> (nat \<times> u32) option" where
  "decode_address ea =
     (if \<not> dol_exi_mmio_contains ea then None
      else let relative = ea - DOL_EXI_BASE
           in Some (unat (relative div DOL_EXI_CHANNEL_STRIDE), relative mod DOL_EXI_CHANNEL_STRIDE))"

definition chip_select :: "DolExiChannel \<Rightarrow> u32" where
  "chip_select ch = drop_bit 7 (ch_status ch AND DOL_EXI_STATUS_CHIP_SELECT_MASK)"

definition empty_channel :: DolExiChannel where
  "empty_channel = \<lparr>ch_status = 0, ch_dma_address = 0, ch_dma_length = 0, ch_control = 0,
     ch_immediate_data = 0\<rparr>"

definition dol_exi_init :: "'c DolExi" where
  "dol_exi_init = \<lparr>exi_channels =
     [empty_channel\<lparr>ch_status := DOL_EXI_STATUS_EXTINT\<rparr>,
      empty_channel\<lparr>ch_status := DOL_EXI_STATUS_EXTINT OR push_bit 7 1\<rparr>, empty_channel],
     exi_transfer = None\<rparr>"

definition dol_exi_set_transfer_callback :: "'c DolExi \<Rightarrow> 'c DolExiTransferFn option \<Rightarrow> 'c DolExi" where
  "dol_exi_set_transfer_callback exi transfer = exi\<lparr>exi_transfer := transfer\<rparr>"

definition dol_exi_mmio_read :: "'c DolExi \<Rightarrow> u32 \<Rightarrow> u8 \<Rightarrow> u64" where
  "dol_exi_mmio_read exi ea n =
     (case (if n \<noteq> 4 then None else decode_address ea) of
        None \<Rightarrow> 0
      | Some (channel, offset) \<Rightarrow>
          let ch = exi_channels exi ! channel
          in if offset = DOL_EXI_STATUS_OFF then ucast (ch_status ch)
             else if offset = DOL_EXI_DMA_ADDRESS_OFF then ucast (ch_dma_address ch)
             else if offset = DOL_EXI_DMA_LENGTH_OFF then ucast (ch_dma_length ch)
             else if offset = DOL_EXI_CONTROL_OFF then ucast (ch_control ch)
             else if offset = DOL_EXI_IMMEDIATE_DATA_OFF then ucast (ch_immediate_data ch)
             else 0)"

definition exi_update :: "'c DolExi \<Rightarrow> nat \<Rightarrow> (DolExiChannel \<Rightarrow> DolExiChannel) \<Rightarrow> 'c DolExi" where
  "exi_update exi channel f =
     exi\<lparr>exi_channels := (exi_channels exi)[channel := f (exi_channels exi ! channel)]\<rparr>"

definition written_status :: "nat \<Rightarrow> u32 \<Rightarrow> u32 \<Rightarrow> u32" where
  "written_status channel status value =
     (let writable = DOL_EXI_STATUS_EXIINTMASK OR DOL_EXI_STATUS_TCINTMASK OR DOL_EXI_STATUS_CLK_MASK
            OR DOL_EXI_STATUS_CHIP_SELECT_MASK;
          writable = (if channel < 2 then writable OR DOL_EXI_STATUS_EXTINTMASK else writable);
          status = (status AND NOT writable) OR (value AND writable);
          status = (if flag_set value DOL_EXI_STATUS_EXIINT then status AND NOT DOL_EXI_STATUS_EXIINT else status);
          status = (if flag_set value DOL_EXI_STATUS_TCINT then status AND NOT DOL_EXI_STATUS_TCINT else status);
          status = (if channel < 2 \<and> flag_set value DOL_EXI_STATUS_EXTINT
                    then status AND NOT DOL_EXI_STATUS_EXTINT else status)
      in if channel = 0 then (status AND NOT DOL_EXI_STATUS_ROMDIS) OR (value AND DOL_EXI_STATUS_ROMDIS)
         else status)"

definition exi_write_status :: "'c DolExi \<Rightarrow> nat \<Rightarrow> u32 \<Rightarrow> 'c DolExi" where
  "exi_write_status exi channel value =
     exi_update exi channel (\<lambda>ch. ch\<lparr>ch_status := written_status channel (ch_status ch) value\<rparr>)"

definition dol_exi_complete_transfer :: "'c DolExi \<Rightarrow> nat \<Rightarrow> 'c DolExi" where
  "dol_exi_complete_transfer exi channel =
     (if DOL_EXI_CHANNELS \<le> channel then exi
      else exi_update exi channel (\<lambda>ch. ch\<lparr>ch_control := ch_control ch AND NOT DOL_EXI_CONTROL_TSTART,
             ch_status := ch_status ch OR DOL_EXI_STATUS_TCINT\<rparr>))"

definition exi_descriptor :: "nat \<Rightarrow> DolExiChannel \<Rightarrow> DolExiTransfer" where
  "exi_descriptor channel ch =
     (let dma = flag_set (ch_control ch) DOL_EXI_CONTROL_DMA
      in \<lparr>xf_channel = channel, xf_chip_select = chip_select ch,
          xf_direction = drop_bit 2 (ch_control ch AND DOL_EXI_CONTROL_RW_MASK),
          xf_length = (if dma then ch_dma_length ch
            else drop_bit 4 (ch_control ch AND DOL_EXI_CONTROL_TLEN_MASK) + 1),
          xf_dma = dma, xf_dma_address = ch_dma_address ch\<rparr>)"

definition start_transfer :: "'c DolExi \<Rightarrow> 'c \<Rightarrow> nat \<Rightarrow> 'c DolExi \<times> 'c" where
  "start_transfer exi cpu channel =
     (let ch = exi_channels exi ! channel
      in case exi_transfer exi of
           None \<Rightarrow> (dol_exi_complete_transfer exi channel, cpu)
         | Some f \<Rightarrow> (case f (exi_descriptor channel ch) (ch_immediate_data ch) cpu of
             (completed, imm, cpu) \<Rightarrow>
               let exi = exi_update exi channel (\<lambda>ch. ch\<lparr>ch_immediate_data := imm\<rparr>)
               in (if completed then dol_exi_complete_transfer exi channel else exi, cpu)))"

definition dol_exi_mmio_write :: "'c DolExi \<Rightarrow> 'c \<Rightarrow> u32 \<Rightarrow> u8 \<Rightarrow> u64 \<Rightarrow> 'c DolExi \<times> 'c" where
  "dol_exi_mmio_write exi cpu ea n value =
     (case (if n \<noteq> 4 then None else decode_address ea) of
        None \<Rightarrow> (exi, cpu)
      | Some (channel, offset) \<Rightarrow>
          if offset = DOL_EXI_STATUS_OFF then (exi_write_status exi channel (ucast value), cpu)
          else if offset = DOL_EXI_DMA_ADDRESS_OFF
          then (exi_update exi channel (\<lambda>ch. ch\<lparr>ch_dma_address := ucast value\<rparr>), cpu)
          else if offset = DOL_EXI_DMA_LENGTH_OFF
          then (exi_update exi channel (\<lambda>ch. ch\<lparr>ch_dma_length := ucast value\<rparr>), cpu)
          else if offset = DOL_EXI_CONTROL_OFF
          then (let exi = exi_update exi channel (\<lambda>ch. ch\<lparr>ch_control := ucast value\<rparr>)
                in if flag_set (ch_control (exi_channels exi ! channel)) DOL_EXI_CONTROL_TSTART
                   then start_transfer exi cpu channel else (exi, cpu))
          else if offset = DOL_EXI_IMMEDIATE_DATA_OFF
          then (exi_update exi channel (\<lambda>ch. ch\<lparr>ch_immediate_data := ucast value\<rparr>), cpu)
          else (exi, cpu))"

definition dol_exi_set_device_interrupt :: "'c DolExi \<Rightarrow> nat \<Rightarrow> bool \<Rightarrow> 'c DolExi" where
  "dol_exi_set_device_interrupt exi channel asserted =
     (if DOL_EXI_CHANNELS \<le> channel then exi
      else exi_update exi channel (\<lambda>ch. ch\<lparr>ch_status :=
             if asserted then ch_status ch OR DOL_EXI_STATUS_EXIINT
             else ch_status ch AND NOT DOL_EXI_STATUS_EXIINT\<rparr>))"

definition dol_exi_set_device_present :: "'c DolExi \<Rightarrow> nat \<Rightarrow> bool \<Rightarrow> bool \<Rightarrow> 'c DolExi" where
  "dol_exi_set_device_present exi channel present signal_change =
     (if 2 \<le> channel then exi
      else exi_update exi channel (\<lambda>ch.
        let status = (if present then ch_status ch OR DOL_EXI_STATUS_EXT
                      else ch_status ch AND NOT DOL_EXI_STATUS_EXT)
        in ch\<lparr>ch_status := if signal_change then status OR DOL_EXI_STATUS_EXTINT else status\<rparr>))"

definition channel_interrupt :: "u32 \<Rightarrow> bool" where
  "channel_interrupt status \<longleftrightarrow>
     flag_set status DOL_EXI_STATUS_EXIINT \<and> flag_set status DOL_EXI_STATUS_EXIINTMASK \<or>
     flag_set status DOL_EXI_STATUS_TCINT \<and> flag_set status DOL_EXI_STATUS_TCINTMASK \<or>
     flag_set status DOL_EXI_STATUS_EXTINT \<and> flag_set status DOL_EXI_STATUS_EXTINTMASK"

definition dol_exi_interrupt_pending :: "'c DolExi \<Rightarrow> bool" where
  "dol_exi_interrupt_pending exi \<longleftrightarrow>
     (\<exists>i \<in> {0..<DOL_EXI_CHANNELS}. channel_interrupt (ch_status (exi_channels exi ! i)))"

section \<open>Address decoding\<close>

lemma decode_address_bounds:
  assumes "decode_address ea = Some (channel, offset)"
  shows "channel < DOL_EXI_CHANNELS" and "unat offset < 0x14"
    and "unat ea = unat DOL_EXI_BASE + 0x14 * channel + unat offset"
proof -
  have c: "dol_exi_mmio_contains ea"
    and ch: "channel = unat ((ea - DOL_EXI_BASE) div DOL_EXI_CHANNEL_STRIDE)"
    and off: "offset = (ea - DOL_EXI_BASE) mod DOL_EXI_CHANNEL_STRIDE"
    using assms by (auto simp: decode_address_def Let_def split: if_splits)
  have r: "unat (ea - DOL_EXI_BASE) = unat ea - unat DOL_EXI_BASE"
    and le: "unat DOL_EXI_BASE \<le> unat ea" "unat ea < unat DOL_EXI_BASE + 0x3C"
    using c by (simp_all add: dol_exi_mmio_contains_def word_le_nat_alt word_less_nat_alt unat_sub)
  have div: "channel = (unat ea - unat DOL_EXI_BASE) div 0x14"
    and md: "unat offset = (unat ea - unat DOL_EXI_BASE) mod 0x14"
    using r unfolding ch off by (simp_all add: unat_div_distrib unat_mod_distrib)
  show "channel < DOL_EXI_CHANNELS" using le unfolding div by linarith
  show "unat offset < 0x14" unfolding md by simp
  show "unat ea = unat DOL_EXI_BASE + 0x14 * channel + unat offset"
    using le unfolding div md by simp
qed

lemma decode_address_register:
  assumes "channel < DOL_EXI_CHANNELS" and "offset \<in> {0, 4, 8, 0xC, 0x10}"
  shows "decode_address (DOL_EXI_BASE + 0x14 * of_nat channel + offset) = Some (channel, offset)"
proof -
  consider "channel = 0" | "channel = 1" | "channel = 2" using assms(1) by linarith
  then show ?thesis
    using assms(2) by cases (auto simp: decode_address_def dol_exi_mmio_contains_def)
qed

interpretation exi: mmio_device dol_exi_mmio_contains
  "\<lambda>s ea n. (dol_exi_mmio_read (fst s) ea n, s)"
  "\<lambda>s ea n v. dol_exi_mmio_write (fst s) (snd s) ea n v"
  by unfold_locales (simp_all add: dol_exi_mmio_read_def dol_exi_mmio_write_def decode_address_def)

section \<open>Latches and transfers\<close>

definition exi_wf :: "'c DolExi \<Rightarrow> bool" where
  "exi_wf exi \<longleftrightarrow> length (exi_channels exi) = DOL_EXI_CHANNELS"

lemma exi_update_wf [simp]: "exi_wf (exi_update exi c f) = exi_wf exi"
  by (simp add: exi_wf_def exi_update_def)

lemma exi_update_get:
  "c < length (exi_channels exi) \<Longrightarrow>
   exi_channels (exi_update exi c f) ! d = (if d = c then f (exi_channels exi ! c) else exi_channels exi ! d)"
  by (simp add: exi_update_def nth_list_update)

lemma exi_update_length [simp]: "length (exi_channels (exi_update exi c f)) = length (exi_channels exi)"
  by (simp add: exi_update_def)

lemma exi_update_callback [simp]: "exi_transfer (exi_update exi c f) = exi_transfer exi"
  by (simp add: exi_update_def)

abbreviation exi_status :: "'c DolExi \<Rightarrow> nat \<Rightarrow> u32" where
  "exi_status exi c \<equiv> ch_status (exi_channels exi ! c)"

abbreviation exi_register :: "nat \<Rightarrow> u32 \<Rightarrow> u32" where
  "exi_register c off \<equiv> DOL_EXI_BASE + 0x14 * of_nat c + off"

lemma written_status_latches:
  "flag_set (written_status c s v) DOL_EXI_STATUS_EXIINT \<longleftrightarrow>
     flag_set s DOL_EXI_STATUS_EXIINT \<and> \<not> flag_set v DOL_EXI_STATUS_EXIINT"
  "flag_set (written_status c s v) DOL_EXI_STATUS_TCINT \<longleftrightarrow>
     flag_set s DOL_EXI_STATUS_TCINT \<and> \<not> flag_set v DOL_EXI_STATUS_TCINT"
  "flag_set (written_status c s v) DOL_EXI_STATUS_EXTINT \<longleftrightarrow>
     flag_set s DOL_EXI_STATUS_EXTINT \<and> \<not> (c < 2 \<and> flag_set v DOL_EXI_STATUS_EXTINT)"
  "flag_set (written_status c s v) DOL_EXI_STATUS_EXT \<longleftrightarrow> flag_set s DOL_EXI_STATUS_EXT"
  by (auto simp: written_status_def Let_def mask_simps)

lemma exi_status_register:
  assumes "exi_wf exi" and "c < DOL_EXI_CHANNELS"
  shows "dol_exi_mmio_write exi cpu (exi_register c DOL_EXI_STATUS_OFF) 4 v =
    (exi_write_status exi c (ucast v), cpu)"
  using decode_address_register[of c 0] assms by (simp add: dol_exi_mmio_write_def)

text \<open>The interrupt latches of a channel's status register are write-one-to-clear for the
  guest: a status write clears exactly the latches whose bit it carries, can never set one, never
  changes the device-present bit, and leaves every other channel alone (the external-change latch
  exists on channels 0 and 1 only).\<close>

theorem exi_status_latches:
  assumes "exi_wf exi" and "c < DOL_EXI_CHANNELS"
  shows "let exi' = fst (dol_exi_mmio_write exi cpu (exi_register c DOL_EXI_STATUS_OFF) 4 v);
      w = ucast v :: u32; s = exi_status exi c; s' = exi_status exi' c
    in (flag_set s' DOL_EXI_STATUS_EXIINT \<longleftrightarrow> flag_set s DOL_EXI_STATUS_EXIINT \<and> \<not> flag_set w DOL_EXI_STATUS_EXIINT) \<and>
       (flag_set s' DOL_EXI_STATUS_TCINT \<longleftrightarrow> flag_set s DOL_EXI_STATUS_TCINT \<and> \<not> flag_set w DOL_EXI_STATUS_TCINT) \<and>
       (flag_set s' DOL_EXI_STATUS_EXTINT \<longleftrightarrow>
          flag_set s DOL_EXI_STATUS_EXTINT \<and> \<not> (c < 2 \<and> flag_set w DOL_EXI_STATUS_EXTINT)) \<and>
       (flag_set s' DOL_EXI_STATUS_EXT \<longleftrightarrow> flag_set s DOL_EXI_STATUS_EXT) \<and>
       (\<forall>d. d \<noteq> c \<longrightarrow> exi_channels exi' ! d = exi_channels exi ! d)"
proof -
  have "c < length (exi_channels exi)" using assms by (simp add: exi_wf_def)
  then show ?thesis
    unfolding Let_def exi_status_register[OF assms] fst_conv exi_write_status_def
    by (simp add: exi_update_get written_status_latches)
qed

theorem exi_status_latches_witness:
  "\<not> flag_set (exi_status (fst (dol_exi_mmio_write (dol_exi_init :: unit DolExi) ()
     (exi_register 1 DOL_EXI_STATUS_OFF) 4 0x800)) 1) DOL_EXI_STATUS_EXTINT"
  using exi_status_latches[of "dol_exi_init :: unit DolExi" 1 "()" "0x800"]
  by (simp add: Let_def exi_wf_def dol_exi_init_def)

lemma complete_transfer_get:
  assumes "exi_wf exi" and "c < DOL_EXI_CHANNELS"
  shows "exi_channels (dol_exi_complete_transfer exi c) ! d =
    (if d = c then (exi_channels exi ! c)\<lparr>ch_control := ch_control (exi_channels exi ! c) AND NOT DOL_EXI_CONTROL_TSTART,
        ch_status := exi_status exi c OR DOL_EXI_STATUS_TCINT\<rparr>
     else exi_channels exi ! d)"
  using assms by (simp add: dol_exi_complete_transfer_def exi_update_get exi_wf_def)

text \<open>Writing a control word with TSTART always gets the transfer going: the channel stays
  busy exactly when a callback is installed and reports the transfer as not completed (then a
  later \<open>dol_exi_complete_transfer\<close> ends it), otherwise TSTART reads as clear and TCINT is latched.
  The callback sees the descriptor of the written control word, and no other channel changes.\<close>

theorem exi_transfer_completes:
  assumes "exi_wf exi" and "c < DOL_EXI_CHANNELS" and "flag_set (ucast v :: u32) DOL_EXI_CONTROL_TSTART"
  shows "let ch = (exi_channels exi ! c)\<lparr>ch_control := ucast v\<rparr>;
      exi' = fst (dol_exi_mmio_write exi cpu (exi_register c DOL_EXI_CONTROL_OFF) 4 v);
      busy = (case exi_transfer exi of None \<Rightarrow> False
              | Some f \<Rightarrow> \<not> fst (f (exi_descriptor c ch) (ch_immediate_data ch) cpu))
    in (flag_set (ch_control (exi_channels exi' ! c)) DOL_EXI_CONTROL_TSTART \<longleftrightarrow> busy) \<and>
       (\<not> busy \<longrightarrow> flag_set (exi_status exi' c) DOL_EXI_STATUS_TCINT) \<and>
       (busy \<longrightarrow> exi_status exi' c = exi_status exi c) \<and>
       \<not> flag_set (ch_control (exi_channels (dol_exi_complete_transfer exi' c) ! c)) DOL_EXI_CONTROL_TSTART \<and>
       flag_set (exi_status (dol_exi_complete_transfer exi' c) c) DOL_EXI_STATUS_TCINT \<and>
       (\<forall>d. d \<noteq> c \<longrightarrow> exi_channels exi' ! d = exi_channels exi ! d)"
proof -
  let ?ch = "(exi_channels exi ! c)\<lparr>ch_control := ucast v\<rparr>"
  let ?e = "exi_update exi c (\<lambda>ch. ch\<lparr>ch_control := ucast v\<rparr>)"
  have len: "c < length (exi_channels exi)" using assms by (simp add: exi_wf_def)
  have w: "dol_exi_mmio_write exi cpu (exi_register c DOL_EXI_CONTROL_OFF) 4 v = start_transfer ?e cpu c"
    using decode_address_register[of c DOL_EXI_CONTROL_OFF] assms len
    by (simp add: dol_exi_mmio_write_def exi_update_get Let_def)
  have wf: "exi_wf ?e" "exi_wf (exi_update ?e c g)" for g using assms(1) by simp_all
  show ?thesis
  proof (cases "exi_transfer exi")
    case None
    then show ?thesis
      using len assms unfolding w
      by (simp add: start_transfer_def Let_def complete_transfer_get[OF wf(1) assms(2)] exi_update_get
          dol_exi_complete_transfer_def mask_simps)
  next
    case (Some f)
    obtain ok imm cpu' where f: "f (exi_descriptor c ?ch) (ch_immediate_data ?ch) cpu = (ok, imm, cpu')"
      by (metis prod_cases3)
    show ?thesis
      using len assms f unfolding w
      by (cases ok) (simp_all add: Some start_transfer_def Let_def exi_update_get
          dol_exi_complete_transfer_def mask_simps)
  qed
qed

theorem exi_transfer_completes_witness:
  "\<not> flag_set (ch_control (exi_channels (fst (dol_exi_mmio_write (dol_exi_init :: unit DolExi) ()
     (exi_register 2 DOL_EXI_CONTROL_OFF) 4 1)) ! 2)) DOL_EXI_CONTROL_TSTART"
  using exi_transfer_completes[of "dol_exi_init :: unit DolExi" 2 1 "()"]
  by (simp add: Let_def exi_wf_def dol_exi_init_def)

end
