(* ===== verification/Di.thy ===== *)
theory Di
  imports Mmio
begin

text \<open>
  The disc interface of src/GXRuntime/src/di.c: the ten command registers, commands that run
  through a host callback and complete, fail or stay pending, the break request, and the cover
  state.  The callback is a parameter, as for the EXI: a function of the command descriptor, the
  immediate-data word and the state its \<open>user\<close> and \<open>cpu\<close> arguments reach.
\<close>

abbreviation DOL_DI_BASE :: u32 where "DOL_DI_BASE \<equiv> 0xCC006000"
abbreviation DOL_DI_REGISTER_BYTES :: u32 where "DOL_DI_REGISTER_BYTES \<equiv> 0x28"
abbreviation DOL_DI_STATUS_OFF :: u32 where "DOL_DI_STATUS_OFF \<equiv> 0x00"
abbreviation DOL_DI_COVER_OFF :: u32 where "DOL_DI_COVER_OFF \<equiv> 0x04"
abbreviation DOL_DI_COMMAND_0_OFF :: u32 where "DOL_DI_COMMAND_0_OFF \<equiv> 0x08"
abbreviation DOL_DI_COMMAND_1_OFF :: u32 where "DOL_DI_COMMAND_1_OFF \<equiv> 0x0C"
abbreviation DOL_DI_COMMAND_2_OFF :: u32 where "DOL_DI_COMMAND_2_OFF \<equiv> 0x10"
abbreviation DOL_DI_DMA_ADDRESS_OFF :: u32 where "DOL_DI_DMA_ADDRESS_OFF \<equiv> 0x14"
abbreviation DOL_DI_DMA_LENGTH_OFF :: u32 where "DOL_DI_DMA_LENGTH_OFF \<equiv> 0x18"
abbreviation DOL_DI_CONTROL_OFF :: u32 where "DOL_DI_CONTROL_OFF \<equiv> 0x1C"
abbreviation DOL_DI_IMMEDIATE_DATA_OFF :: u32 where "DOL_DI_IMMEDIATE_DATA_OFF \<equiv> 0x20"
abbreviation DOL_DI_CONFIG_OFF :: u32 where "DOL_DI_CONFIG_OFF \<equiv> 0x24"
abbreviation DOL_DI_STATUS_BREAK :: u32 where "DOL_DI_STATUS_BREAK \<equiv> 0x00000001"
abbreviation DOL_DI_STATUS_DEINTMASK :: u32 where "DOL_DI_STATUS_DEINTMASK \<equiv> 0x00000002"
abbreviation DOL_DI_STATUS_DEINT :: u32 where "DOL_DI_STATUS_DEINT \<equiv> 0x00000004"
abbreviation DOL_DI_STATUS_TCINTMASK :: u32 where "DOL_DI_STATUS_TCINTMASK \<equiv> 0x00000008"
abbreviation DOL_DI_STATUS_TCINT :: u32 where "DOL_DI_STATUS_TCINT \<equiv> 0x00000010"
abbreviation DOL_DI_STATUS_BRKINTMASK :: u32 where "DOL_DI_STATUS_BRKINTMASK \<equiv> 0x00000020"
abbreviation DOL_DI_STATUS_BRKINT :: u32 where "DOL_DI_STATUS_BRKINT \<equiv> 0x00000040"
abbreviation DOL_DI_COVER_OPEN :: u32 where "DOL_DI_COVER_OPEN \<equiv> 0x00000001"
abbreviation DOL_DI_COVER_INT_MASK :: u32 where "DOL_DI_COVER_INT_MASK \<equiv> 0x00000002"
abbreviation DOL_DI_COVER_INT :: u32 where "DOL_DI_COVER_INT \<equiv> 0x00000004"
abbreviation DOL_DI_CONTROL_TSTART :: u32 where "DOL_DI_CONTROL_TSTART \<equiv> 0x00000001"
abbreviation DOL_DI_CONTROL_DMA :: u32 where "DOL_DI_CONTROL_DMA \<equiv> 0x00000002"
abbreviation DOL_DI_CONTROL_WRITE :: u32 where "DOL_DI_CONTROL_WRITE \<equiv> 0x00000004"

datatype DolDiCommandResult =
  DOL_DI_COMMAND_DEFERRED | DOL_DI_COMMAND_COMPLETE | DOL_DI_COMMAND_ERROR

record DolDiCommand =
  cmd_command :: "u32 \<times> u32 \<times> u32"
  cmd_dma_address :: u32
  cmd_dma_length :: u32
  cmd_dma :: bool
  cmd_write :: bool

type_synonym 'c DolDiCommandFn = "DolDiCommand \<Rightarrow> u32 \<Rightarrow> 'c \<Rightarrow> DolDiCommandResult \<times> u32 \<times> 'c"

record 'c DolDi =
  di_status :: u32
  di_cover :: u32
  di_command :: "u32 \<times> u32 \<times> u32"
  di_dma_address :: u32
  di_dma_length :: u32
  di_control :: u32
  di_immediate_data :: u32
  di_config :: u32
  di_execute :: "'c DolDiCommandFn option"

section \<open>Operations\<close>

definition dol_di_init :: "'c DolDi" where
  "dol_di_init = \<lparr>di_status = 0, di_cover = DOL_DI_COVER_OPEN, di_command = (0, 0, 0),
     di_dma_address = 0, di_dma_length = 0, di_control = 0, di_immediate_data = 0, di_config = 1,
     di_execute = None\<rparr>"

definition dol_di_set_command_callback :: "'c DolDi \<Rightarrow> 'c DolDiCommandFn option \<Rightarrow> 'c DolDi" where
  "dol_di_set_command_callback di execute = di\<lparr>di_execute := execute\<rparr>"

definition dol_di_mmio_contains :: "u32 \<Rightarrow> bool" where
  [guard_defs]: "dol_di_mmio_contains ea \<longleftrightarrow> DOL_DI_BASE \<le> ea \<and> ea < DOL_DI_BASE + DOL_DI_REGISTER_BYTES"

definition dol_di_mmio_read :: "'c DolDi \<Rightarrow> u32 \<Rightarrow> u8 \<Rightarrow> u64" where
  "dol_di_mmio_read di ea n =
     (if n \<noteq> 4 \<or> \<not> dol_di_mmio_contains ea then 0
      else let off = ea - DOL_DI_BASE
      in if off = DOL_DI_STATUS_OFF then ucast (di_status di)
      else if off = DOL_DI_COVER_OFF then ucast (di_cover di)
      else if off = DOL_DI_COMMAND_0_OFF then ucast (fst (di_command di))
      else if off = DOL_DI_COMMAND_1_OFF then ucast (fst (snd (di_command di)))
      else if off = DOL_DI_COMMAND_2_OFF then ucast (snd (snd (di_command di)))
      else if off = DOL_DI_DMA_ADDRESS_OFF then ucast (di_dma_address di)
      else if off = DOL_DI_DMA_LENGTH_OFF then ucast (di_dma_length di)
      else if off = DOL_DI_CONTROL_OFF then ucast (di_control di)
      else if off = DOL_DI_IMMEDIATE_DATA_OFF then ucast (di_immediate_data di)
      else if off = DOL_DI_CONFIG_OFF then ucast (di_config di)
      else 0)"

definition di_write_status :: "'c DolDi \<Rightarrow> u32 \<Rightarrow> 'c DolDi" where
  "di_write_status di value =
     (let masks = DOL_DI_STATUS_DEINTMASK OR DOL_DI_STATUS_TCINTMASK OR DOL_DI_STATUS_BRKINTMASK;
          st = (di_status di AND NOT masks) OR (value AND masks);
          st = (if flag_set value DOL_DI_STATUS_DEINT then st AND NOT DOL_DI_STATUS_DEINT else st);
          st = (if flag_set value DOL_DI_STATUS_TCINT then st AND NOT DOL_DI_STATUS_TCINT else st);
          st = (if flag_set value DOL_DI_STATUS_BRKINT then st AND NOT DOL_DI_STATUS_BRKINT else st)
      in if flag_set value DOL_DI_STATUS_BREAK
         then let st = st OR DOL_DI_STATUS_BREAK
              in if flag_set (di_control di) DOL_DI_CONTROL_TSTART
                 then di\<lparr>di_control := di_control di AND NOT DOL_DI_CONTROL_TSTART,
                        di_status := st OR DOL_DI_STATUS_BRKINT\<rparr>
                 else di\<lparr>di_status := st\<rparr>
         else di\<lparr>di_status := st AND NOT DOL_DI_STATUS_BREAK\<rparr>)"

definition dol_di_complete_command :: "'c DolDi \<Rightarrow> DolDiCommandResult \<Rightarrow> 'c DolDi" where
  "dol_di_complete_command di result =
     (if result = DOL_DI_COMMAND_DEFERRED then di
      else if di_control di AND DOL_DI_CONTROL_TSTART = 0 then di
      else let di = (if result = DOL_DI_COMMAND_COMPLETE
             then let di = (if flag_set (di_control di) DOL_DI_CONTROL_DMA
                      then di\<lparr>di_dma_address := di_dma_address di + di_dma_length di, di_dma_length := 0\<rparr>
                      else di)
                  in di\<lparr>di_status := di_status di OR DOL_DI_STATUS_TCINT\<rparr>
             else di\<lparr>di_status := di_status di OR DOL_DI_STATUS_DEINT\<rparr>)
           in di\<lparr>di_control := di_control di AND NOT DOL_DI_CONTROL_TSTART\<rparr>)"

definition di_descriptor :: "'c DolDi \<Rightarrow> DolDiCommand" where
  "di_descriptor di = \<lparr>cmd_command = di_command di, cmd_dma_address = di_dma_address di,
     cmd_dma_length = di_dma_length di, cmd_dma = flag_set (di_control di) DOL_DI_CONTROL_DMA,
     cmd_write = flag_set (di_control di) DOL_DI_CONTROL_WRITE\<rparr>"

definition start_command :: "'c DolDi \<Rightarrow> 'c \<Rightarrow> 'c DolDi \<times> 'c" where
  "start_command di cpu =
     (case di_execute di of
        None \<Rightarrow> (dol_di_complete_command di DOL_DI_COMMAND_ERROR, cpu)
      | Some f \<Rightarrow> (case f (di_descriptor di) (di_immediate_data di) cpu of (result, imm, cpu) \<Rightarrow>
          (dol_di_complete_command (di\<lparr>di_immediate_data := imm\<rparr>) result, cpu)))"

definition dol_di_mmio_write :: "'c DolDi \<Rightarrow> 'c \<Rightarrow> u32 \<Rightarrow> u8 \<Rightarrow> u64 \<Rightarrow> 'c DolDi \<times> 'c" where
  "dol_di_mmio_write di cpu ea n value =
     (if n \<noteq> 4 \<or> \<not> dol_di_mmio_contains ea then (di, cpu)
      else let off = ea - DOL_DI_BASE; v = ucast value :: u32
      in if off = DOL_DI_STATUS_OFF then (di_write_status di v, cpu)
      else if off = DOL_DI_COVER_OFF
      then let cover = (di_cover di AND NOT DOL_DI_COVER_INT_MASK) OR (v AND DOL_DI_COVER_INT_MASK)
           in (di\<lparr>di_cover := if flag_set v DOL_DI_COVER_INT then cover AND NOT DOL_DI_COVER_INT else cover\<rparr>, cpu)
      else if off = DOL_DI_COMMAND_0_OFF
      then (di\<lparr>di_command := (v, fst (snd (di_command di)), snd (snd (di_command di)))\<rparr>, cpu)
      else if off = DOL_DI_COMMAND_1_OFF
      then (di\<lparr>di_command := (fst (di_command di), v, snd (snd (di_command di)))\<rparr>, cpu)
      else if off = DOL_DI_COMMAND_2_OFF
      then (di\<lparr>di_command := (fst (di_command di), fst (snd (di_command di)), v)\<rparr>, cpu)
      else if off = DOL_DI_DMA_ADDRESS_OFF then (di\<lparr>di_dma_address := v AND 0x03FFFFE0\<rparr>, cpu)
      else if off = DOL_DI_DMA_LENGTH_OFF then (di\<lparr>di_dma_length := v AND NOT 0x1F\<rparr>, cpu)
      else if off = DOL_DI_CONTROL_OFF
      then let di = di\<lparr>di_control := v AND 7\<rparr>
           in if flag_set (di_control di) DOL_DI_CONTROL_TSTART then start_command di cpu else (di, cpu)
      else if off = DOL_DI_IMMEDIATE_DATA_OFF then (di\<lparr>di_immediate_data := v\<rparr>, cpu)
      else (di, cpu))"

definition dol_di_set_disc_present :: "'c DolDi \<Rightarrow> bool \<Rightarrow> 'c DolDi" where
  "dol_di_set_disc_present di present =
     (let was_open = flag_set (di_cover di) DOL_DI_COVER_OPEN; is_open = (\<not> present);
          cover = (if is_open then di_cover di OR DOL_DI_COVER_OPEN else di_cover di AND NOT DOL_DI_COVER_OPEN)
      in di\<lparr>di_cover := if was_open \<noteq> is_open then cover OR DOL_DI_COVER_INT else cover\<rparr>)"

definition dol_di_interrupt_pending :: "'c DolDi \<Rightarrow> bool" where
  "dol_di_interrupt_pending di \<longleftrightarrow>
     flag_set (di_status di) DOL_DI_STATUS_DEINT \<and> flag_set (di_status di) DOL_DI_STATUS_DEINTMASK \<or>
     flag_set (di_status di) DOL_DI_STATUS_TCINT \<and> flag_set (di_status di) DOL_DI_STATUS_TCINTMASK \<or>
     flag_set (di_status di) DOL_DI_STATUS_BRKINT \<and> flag_set (di_status di) DOL_DI_STATUS_BRKINTMASK \<or>
     flag_set (di_cover di) DOL_DI_COVER_INT \<and> flag_set (di_cover di) DOL_DI_COVER_INT_MASK"

interpretation di: mmio_device dol_di_mmio_contains
  "\<lambda>s ea n. (dol_di_mmio_read (fst s) ea n, s)"
  "\<lambda>s ea n v. dol_di_mmio_write (fst s) (snd s) ea n v"
  by unfold_locales (simp_all add: dol_di_mmio_read_def dol_di_mmio_write_def)

section \<open>Register invariant\<close>

definition di_wf :: "'c DolDi \<Rightarrow> bool" where
  "di_wf di \<longleftrightarrow> di_dma_address di AND 0x1F = 0 \<and> di_dma_length di AND 0x1F = 0 \<and>
     di_control di AND NOT 7 = 0 \<and> di_config di = 1"

lemma aligned_add:
  fixes a b :: u32
  assumes "a AND 0x1F = 0" and "b AND 0x1F = 0"
  shows "(a + b) AND 0x1F = 0"
proof -
  have m: "(x AND 0x1F = 0) = (take_bit 5 x = 0)" for x :: u32
    by (simp add: take_bit_eq_mask mask_eq_decr_exp)
  from assms show ?thesis unfolding m take_bit_eq_0_iff by (rule dvd_add)
qed

lemma di_wf_frame [simp]:
  "di_wf (di\<lparr>di_status := a\<rparr>) = di_wf di" "di_wf (di\<lparr>di_cover := a\<rparr>) = di_wf di"
  "di_wf (di\<lparr>di_command := c\<rparr>) = di_wf di" "di_wf (di\<lparr>di_immediate_data := a\<rparr>) = di_wf di"
  by (simp_all add: di_wf_def)

lemma di_wf_control: "di_wf di \<Longrightarrow> a AND NOT 7 = 0 \<Longrightarrow> di_wf (di\<lparr>di_control := a\<rparr>)"
  by (simp add: di_wf_def)

lemma di_wf_masked: "di_wf di \<Longrightarrow> di_wf (di\<lparr>di_control := di_control di AND m\<rparr>)"
  unfolding di_wf_def using and_masked_zero[of "di_control di" "NOT 7" m] by simp

lemma di_wf_advance:
  "di_wf di \<Longrightarrow> di_wf (di\<lparr>di_dma_address := di_dma_address di + di_dma_length di, di_dma_length := 0\<rparr>)"
  by (simp add: di_wf_def aligned_add)

lemma complete_wf:
  assumes "di_wf di"
  shows "di_wf (dol_di_complete_command di r)"
proof -
  let ?d = "di\<lparr>di_dma_address := di_dma_address di + di_dma_length di, di_dma_length := 0\<rparr>"
  have "di_wf (d\<lparr>di_status := s, di_control := di_control d AND m\<rparr>)" if "di_wf d" for d :: "'a DolDi" and s m
    using di_wf_masked[of "d\<lparr>di_status := s\<rparr>" m] that by simp
  from this[OF assms] this[OF di_wf_advance[OF assms]] assms show ?thesis
    by (simp add: dol_di_complete_command_def Let_def)
qed

lemma start_wf: "di_wf di \<Longrightarrow> di_wf (fst (start_command di cpu))"
  by (simp add: start_command_def complete_wf split: option.splits prod.splits)

lemma write_status_wf: "di_wf di \<Longrightarrow> di_wf (di_write_status di v)"
  unfolding di_write_status_def Let_def
  using di_wf_masked[of di "NOT DOL_DI_CONTROL_TSTART"]
  by simp

lemma write_wf:
  assumes "di_wf di"
  shows "di_wf (fst (dol_di_mmio_write di cpu ea n v))"
proof -
  have a: "(x AND 0x03FFFFE0) AND 0x1F = 0" "(x AND NOT 0x1F) AND 0x1F = 0" "(x AND 7) AND NOT 7 = 0"
    for x :: u32 by (simp_all add: mask_simps)
  have c: "di_wf (di\<lparr>di_control := w AND 7\<rparr>)" for w by (intro di_wf_control assms a)
  have d: "di_wf (di\<lparr>di_dma_address := w AND 0x03FFFFE0\<rparr>)" "di_wf (di\<lparr>di_dma_length := w AND NOT 0x1F\<rparr>)" for w
    using assms a by (simp_all add: di_wf_def)
  show ?thesis
    unfolding dol_di_mmio_write_def Let_def
    using assms c d by (simp add: write_status_wf start_wf)
qed

datatype di_op = DiWrite u32 u8 u64 | DiComplete DolDiCommandResult | DiDisc bool

primrec di_apply :: "di_op \<Rightarrow> 'c DolDi \<times> 'c \<Rightarrow> 'c DolDi \<times> 'c" where
  "di_apply (DiWrite ea n v) s = dol_di_mmio_write (fst s) (snd s) ea n v"
| "di_apply (DiComplete r) s = (dol_di_complete_command (fst s) r, snd s)"
| "di_apply (DiDisc present) s = (dol_di_set_disc_present (fst s) present, snd s)"

lemma di_apply_wf: "di_wf (fst s) \<Longrightarrow> di_wf (fst (di_apply opn s))"
  by (cases opn) (simp_all add: write_wf complete_wf dol_di_set_disc_present_def Let_def)

lemma di_run_wf: "di_wf (fst s) \<Longrightarrow> di_wf (fst (fold di_apply ops s))"
  by (induction ops arbitrary: s) (simp_all add: di_apply_wf)

lemma di_init_wf: "di_wf (dol_di_set_command_callback dol_di_init f)"
  by (simp add: di_wf_def dol_di_init_def dol_di_set_command_callback_def)

text \<open>Whatever the guest writes, whatever the command callback answers and whenever late
  completions and disc changes arrive, the DI keeps its DMA address and length 32-byte aligned,
  its control register within its three defined bits, and its configuration register at 1.\<close>

theorem di_registers_invariant:
  "let di = fst (fold di_apply ops (dol_di_set_command_callback dol_di_init f, cpu))
   in di_dma_address di AND 0x1F = 0 \<and> di_dma_length di AND 0x1F = 0 \<and>
      di_control di AND NOT 7 = 0 \<and> di_config di = 1"
proof -
  have "di_wf (fst (fold di_apply ops (dol_di_set_command_callback dol_di_init f, cpu)))"
    by (rule di_run_wf) (simp add: di_init_wf)
  then show ?thesis unfolding Let_def di_wf_def .
qed

section \<open>Command lifecycle\<close>

abbreviation di_busy :: "'c DolDi \<Rightarrow> bool" where
  "di_busy di \<equiv> flag_set (di_control di) DOL_DI_CONTROL_TSTART"

lemma complete_idle: "\<not> di_busy di \<Longrightarrow> dol_di_complete_command di r = di"
  by (simp add: dol_di_complete_command_def)

lemma complete_cases:
  assumes "di_busy di"
  shows "di_busy (dol_di_complete_command di r) \<longleftrightarrow> r = DOL_DI_COMMAND_DEFERRED"
    and "r = DOL_DI_COMMAND_COMPLETE \<Longrightarrow> flag_set (di_status (dol_di_complete_command di r)) DOL_DI_STATUS_TCINT"
    and "r = DOL_DI_COMMAND_ERROR \<Longrightarrow> flag_set (di_status (dol_di_complete_command di r)) DOL_DI_STATUS_DEINT"
    and "di_dma_length (dol_di_complete_command di r) =
      (if r = DOL_DI_COMMAND_COMPLETE \<and> flag_set (di_control di) DOL_DI_CONTROL_DMA then 0 else di_dma_length di)"
    and "di_dma_address (dol_di_complete_command di r) =
      (if r = DOL_DI_COMMAND_COMPLETE \<and> flag_set (di_control di) DOL_DI_CONTROL_DMA
       then di_dma_address di + di_dma_length di else di_dma_address di)"
  using assms by (cases r; simp add: dol_di_complete_command_def Let_def mask_simps)+

lemma control_write:
  "dol_di_mmio_write di cpu (DOL_DI_BASE + DOL_DI_CONTROL_OFF) 4 v =
    (let di = di\<lparr>di_control := ucast v AND 7\<rparr>
     in if di_busy di then start_command di cpu else (di, cpu))"
  by (simp add: dol_di_mmio_write_def dol_di_mmio_contains_def Let_def)

lemma di_status_register:
  "dol_di_mmio_write di cpu (DOL_DI_BASE + DOL_DI_STATUS_OFF) 4 v = (di_write_status di (ucast v), cpu)"
  by (simp add: dol_di_mmio_write_def dol_di_mmio_contains_def)



end
