(* ===== verification/AudioDma.thy ===== *)
theory AudioDma
  imports Si
begin

text \<open>
  The audio DMA engine of src/GXRuntime/src/audio_dma.c: the block counter that paces the AID
  interrupt, and the AI and DSP register files in front of it.  A rate change also calls the
  platform layer; the rate passed on is the second component of the result of
  \<open>dol_audio_dma_ai_mmio_write\<close>.  The file's static \<open>load_be32\<close>, \<open>store_be32\<close>, \<open>register_read\<close> and
  \<open>register_write\<close> are the same loops as in the serial interface, so those definitions are used.
\<close>

abbreviation DOL_AUDIO_DMA_ENABLE :: u16 where "DOL_AUDIO_DMA_ENABLE \<equiv> 0x8000"
abbreviation DOL_AUDIO_DMA_BLOCK_MASK :: u16 where "DOL_AUDIO_DMA_BLOCK_MASK \<equiv> 0x7FFF"
abbreviation DOL_AUDIO_DMA_FRAMES_PER_CHUNK :: u32 where "DOL_AUDIO_DMA_FRAMES_PER_CHUNK \<equiv> 8"
abbreviation DOL_AUDIO_DMA_32KHZ :: u32 where "DOL_AUDIO_DMA_32KHZ \<equiv> 32000"
abbreviation DOL_AUDIO_DMA_48KHZ :: u32 where "DOL_AUDIO_DMA_48KHZ \<equiv> 48000"
abbreviation DOL_AUDIO_DMA_AI_REG_BYTES :: u32 where "DOL_AUDIO_DMA_AI_REG_BYTES \<equiv> 0x20"
abbreviation DOL_AUDIO_DMA_DSP_REG_BYTES :: u32 where "DOL_AUDIO_DMA_DSP_REG_BYTES \<equiv> 0x40"
abbreviation DOL_AUDIO_DMA_AI_CONTROL_OFF :: u32 where "DOL_AUDIO_DMA_AI_CONTROL_OFF \<equiv> 0"
abbreviation DOL_AUDIO_DMA_AI_AIDFR_BIT :: u32 where "DOL_AUDIO_DMA_AI_AIDFR_BIT \<equiv> 0x40"
abbreviation DOL_AUDIO_DMA_AI_CONTROL_INIT :: u32 where "DOL_AUDIO_DMA_AI_CONTROL_INIT \<equiv> 0x42"
abbreviation DOL_AUDIO_DMA_DSP_CONTROL_OFF :: u32 where "DOL_AUDIO_DMA_DSP_CONTROL_OFF \<equiv> 0x0A"
abbreviation DOL_AUDIO_DMA_DSP_AID_INT_BIT :: u16 where "DOL_AUDIO_DMA_DSP_AID_INT_BIT \<equiv> 8"
abbreviation DOL_AUDIO_DMA_DSP_AID_MSK_BIT :: u16 where "DOL_AUDIO_DMA_DSP_AID_MSK_BIT \<equiv> 0x10"
abbreviation DOL_AUDIO_DMA_DSP_DMA_START_HI_OFF :: u32 where "DOL_AUDIO_DMA_DSP_DMA_START_HI_OFF \<equiv> 0x30"
abbreviation DOL_AUDIO_DMA_DSP_DMA_START_LO_OFF :: u32 where "DOL_AUDIO_DMA_DSP_DMA_START_LO_OFF \<equiv> 0x32"
abbreviation DOL_AUDIO_DMA_DSP_DMA_CONTROL_OFF :: u32 where "DOL_AUDIO_DMA_DSP_DMA_CONTROL_OFF \<equiv> 0x36"
abbreviation DOL_AUDIO_DMA_DSP_DMA_BLOCKS_LEFT_OFF :: u32 where "DOL_AUDIO_DMA_DSP_DMA_BLOCKS_LEFT_OFF \<equiv> 0x3A"

record DolAudioDma =
  ad_control :: u16
  ad_remaining_blocks :: u16
  ad_source_address :: u32
  ad_current_source_address :: u32
  ad_sample_rate :: u32
  ad_chunks_per_second :: u32
  ad_refresh_hz :: u32
  ad_work_counter :: u64
  ad_work_units_per_second :: u64
  ad_work_units_per_frame :: u64
  ad_work_units_per_chunk :: u64
  ad_interrupt_pending :: bool
  ad_ai_regs :: bytes
  ad_dsp_regs :: bytes

definition load_be16 :: "bytes \<Rightarrow> u32 \<Rightarrow> u16" where
  "load_be16 b off = push_bit 8 (ucast (b off)) OR ucast (b (off + 1))"

definition store_be16 :: "bytes \<Rightarrow> u32 \<Rightarrow> u16 \<Rightarrow> bytes" where
  "store_be16 b off v = b(off := ucast (drop_bit 8 v), off + 1 := ucast v)"

definition recompute_work_units_per_chunk :: "DolAudioDma \<Rightarrow> DolAudioDma" where
  "recompute_work_units_per_chunk dma =
     (if ad_work_units_per_second dma = 0 \<or> ad_chunks_per_second dma = 0
      then dma\<lparr>ad_work_units_per_chunk := 1\<rparr>
      else let w = ad_work_units_per_second dma div ucast (ad_chunks_per_second dma)
           in dma\<lparr>ad_work_units_per_chunk := if w = 0 then 1 else w\<rparr>)"

definition dol_audio_dma_set_sample_rate :: "DolAudioDma \<Rightarrow> u32 \<Rightarrow> DolAudioDma" where
  "dol_audio_dma_set_sample_rate dma sample_rate =
     (let rate = (if sample_rate \<noteq> DOL_AUDIO_DMA_48KHZ then DOL_AUDIO_DMA_32KHZ else sample_rate)
      in recompute_work_units_per_chunk (dma\<lparr>ad_sample_rate := rate,
           ad_chunks_per_second := rate div DOL_AUDIO_DMA_FRAMES_PER_CHUNK\<rparr>))"

definition apply_ai_control :: "DolAudioDma \<Rightarrow> DolAudioDma \<times> u32 option" where
  "apply_ai_control dma =
     (let control = load_be32 (ad_ai_regs dma) DOL_AUDIO_DMA_AI_CONTROL_OFF;
          rate = (if flag_set control DOL_AUDIO_DMA_AI_AIDFR_BIT then DOL_AUDIO_DMA_32KHZ
                  else DOL_AUDIO_DMA_48KHZ)
      in if ad_sample_rate dma = rate then (dma, None)
         else (dol_audio_dma_set_sample_rate dma rate, Some rate))"

definition dol_audio_dma_init :: DolAudioDma where
  "dol_audio_dma_init = \<lparr>ad_control = 0, ad_remaining_blocks = 0, ad_source_address = 0,
     ad_current_source_address = 0, ad_sample_rate = DOL_AUDIO_DMA_32KHZ,
     ad_chunks_per_second = DOL_AUDIO_DMA_32KHZ div DOL_AUDIO_DMA_FRAMES_PER_CHUNK,
     ad_refresh_hz = 0, ad_work_counter = 0, ad_work_units_per_second = 0,
     ad_work_units_per_frame = 0, ad_work_units_per_chunk = 1, ad_interrupt_pending = False,
     ad_ai_regs = store_be32 zero_bytes DOL_AUDIO_DMA_AI_CONTROL_OFF DOL_AUDIO_DMA_AI_CONTROL_INIT,
     ad_dsp_regs = zero_bytes\<rparr>"

definition dol_audio_dma_set_work_rate :: "DolAudioDma \<Rightarrow> u64 \<Rightarrow> DolAudioDma" where
  "dol_audio_dma_set_work_rate dma w =
     recompute_work_units_per_chunk (dma\<lparr>ad_work_units_per_second := w\<rparr>)"

definition dol_audio_dma_set_vi_clock :: "DolAudioDma \<Rightarrow> u64 \<Rightarrow> u32 \<Rightarrow> DolAudioDma" where
  "dol_audio_dma_set_vi_clock dma work_units_per_frame refresh_hz =
     recompute_work_units_per_chunk (dma\<lparr>ad_work_units_per_frame := work_units_per_frame,
       ad_refresh_hz := refresh_hz,
       ad_work_units_per_second := work_units_per_frame * ucast refresh_hz\<rparr>)"

definition dol_audio_dma_sample_rate :: "DolAudioDma \<Rightarrow> u32" where
  "dol_audio_dma_sample_rate dma = ad_sample_rate dma"

definition dol_audio_dma_set_source :: "DolAudioDma \<Rightarrow> u32 \<Rightarrow> DolAudioDma" where
  "dol_audio_dma_set_source dma source_address = dma\<lparr>ad_source_address := source_address\<rparr>"

definition dol_audio_dma_write_control :: "DolAudioDma \<Rightarrow> u16 \<Rightarrow> DolAudioDma" where
  "dol_audio_dma_write_control dma control =
     (let was_enabled = flag_set (ad_control dma) DOL_AUDIO_DMA_ENABLE;
          dma = dma\<lparr>ad_control := control\<rparr>;
          enabled = flag_set control DOL_AUDIO_DMA_ENABLE
      in if \<not> enabled then dma\<lparr>ad_remaining_blocks := 0, ad_work_counter := 0\<rparr>
         else if \<not> was_enabled
         then dma\<lparr>ad_remaining_blocks := control AND DOL_AUDIO_DMA_BLOCK_MASK,
                ad_current_source_address := ad_source_address dma, ad_work_counter := 0,
                ad_interrupt_pending := True\<rparr>
         else dma)"

definition dol_audio_dma_read_control :: "DolAudioDma \<Rightarrow> u16" where
  "dol_audio_dma_read_control dma = ad_control dma"

definition dol_audio_dma_blocks_left :: "DolAudioDma \<Rightarrow> u16" where
  "dol_audio_dma_blocks_left dma =
     (if ad_remaining_blocks dma = 0 then 0 else ad_remaining_blocks dma - 1)"

definition dol_audio_dma_ack_interrupt :: "DolAudioDma \<Rightarrow> DolAudioDma" where
  "dol_audio_dma_ack_interrupt dma = dma\<lparr>ad_interrupt_pending := False\<rparr>"

definition dol_audio_dma_interrupt_pending :: "DolAudioDma \<Rightarrow> bool" where
  "dol_audio_dma_interrupt_pending dma = ad_interrupt_pending dma"

definition dol_audio_dma_poll :: "DolAudioDma \<Rightarrow> u32 option \<times> DolAudioDma" where
  "dol_audio_dma_poll dma =
     (if ad_control dma AND DOL_AUDIO_DMA_ENABLE = 0 then (None, dma)
      else let dma = dma\<lparr>ad_work_counter := ad_work_counter dma + 1\<rparr>
      in if ad_work_counter dma < ad_work_units_per_chunk dma then (None, dma)
      else let dma = dma\<lparr>ad_work_counter := 0\<rparr>;
               source_address = ad_current_source_address dma;
               dma = (if ad_remaining_blocks dma \<noteq> 0
                 then dma\<lparr>ad_remaining_blocks := ad_remaining_blocks dma - 1,
                        ad_current_source_address := ad_current_source_address dma + 32\<rparr>
                 else dma);
               dma = (if ad_remaining_blocks dma = 0
                 then dma\<lparr>ad_remaining_blocks := ad_control dma AND DOL_AUDIO_DMA_BLOCK_MASK,
                        ad_current_source_address := ad_source_address dma,
                        ad_interrupt_pending := True\<rparr>
                 else dma)
           in (Some source_address, dma))"

definition latched_dma_source :: "DolAudioDma \<Rightarrow> u32" where
  "latched_dma_source dma =
     (let hi = push_bit 16 (ucast (load_be16 (ad_dsp_regs dma) DOL_AUDIO_DMA_DSP_DMA_START_HI_OFF));
          lo = ucast (load_be16 (ad_dsp_regs dma) DOL_AUDIO_DMA_DSP_DMA_START_LO_OFF)
      in (hi AND 0x03FF0000) OR (lo AND 0xFFE0))"

definition dol_audio_dma_ai_mmio_read :: "DolAudioDma \<Rightarrow> u32 \<Rightarrow> u8 \<Rightarrow> u64" where
  "dol_audio_dma_ai_mmio_read dma offset n = read_be (ad_ai_regs dma) offset n"

definition dol_audio_dma_ai_mmio_write ::
  "DolAudioDma \<Rightarrow> u32 \<Rightarrow> u8 \<Rightarrow> u64 \<Rightarrow> DolAudioDma \<times> u32 option" where
  "dol_audio_dma_ai_mmio_write dma offset n value =
     (let dma = dma\<lparr>ad_ai_regs := write_be (ad_ai_regs dma) offset n value\<rparr>
      in if offset < DOL_AUDIO_DMA_AI_CONTROL_OFF + 4 \<and> DOL_AUDIO_DMA_AI_CONTROL_OFF < offset + ucast n
         then apply_ai_control dma else (dma, None))"

definition dol_audio_dma_dsp_mmio_read :: "DolAudioDma \<Rightarrow> u32 \<Rightarrow> u8 \<Rightarrow> u64" where
  "dol_audio_dma_dsp_mmio_read dma offset n =
     (if offset = DOL_AUDIO_DMA_DSP_CONTROL_OFF \<and> n = 2
      then let control = load_be16 (ad_dsp_regs dma) offset
           in ucast (if ad_interrupt_pending dma then control OR DOL_AUDIO_DMA_DSP_AID_INT_BIT
                else control AND NOT DOL_AUDIO_DMA_DSP_AID_INT_BIT)
      else if offset = DOL_AUDIO_DMA_DSP_DMA_BLOCKS_LEFT_OFF \<and> n = 2
      then ucast (dol_audio_dma_blocks_left dma)
      else read_be (ad_dsp_regs dma) offset n)"

definition dol_audio_dma_dsp_mmio_write :: "DolAudioDma \<Rightarrow> u32 \<Rightarrow> u8 \<Rightarrow> u64 \<Rightarrow> DolAudioDma" where
  "dol_audio_dma_dsp_mmio_write dma offset n value =
     (if offset = DOL_AUDIO_DMA_DSP_CONTROL_OFF \<and> n = 2
      then let control = ucast value :: u16;
               dma = (if flag_set control DOL_AUDIO_DMA_DSP_AID_INT_BIT
                      then dol_audio_dma_ack_interrupt dma else dma)
           in dma\<lparr>ad_dsp_regs := store_be16 (ad_dsp_regs dma) offset
                (control AND NOT DOL_AUDIO_DMA_DSP_AID_INT_BIT)\<rparr>
      else let dma = dma\<lparr>ad_dsp_regs := write_be (ad_dsp_regs dma) offset n value\<rparr>;
               dma = (if (offset = DOL_AUDIO_DMA_DSP_DMA_START_HI_OFF \<or>
                          offset = DOL_AUDIO_DMA_DSP_DMA_START_LO_OFF) \<and> n = 2
                      then dol_audio_dma_set_source dma (latched_dma_source dma) else dma)
           in if offset = DOL_AUDIO_DMA_DSP_DMA_CONTROL_OFF \<and> n = 2
              then dol_audio_dma_write_control dma (ucast value) else dma)"

definition dol_audio_dma_dsp_interrupt_pending :: "DolAudioDma \<Rightarrow> bool" where
  "dol_audio_dma_dsp_interrupt_pending dma \<longleftrightarrow> ad_interrupt_pending dma \<and>
     flag_set (load_be16 (ad_dsp_regs dma) DOL_AUDIO_DMA_DSP_CONTROL_OFF) DOL_AUDIO_DMA_DSP_AID_MSK_BIT"

section \<open>The interrupt cadence\<close>

definition poll_n :: "nat \<Rightarrow> DolAudioDma \<Rightarrow> DolAudioDma" where
  "poll_n k dma = ((\<lambda>d. snd (dol_audio_dma_poll d)) ^^ k) dma"

lemma poll_n_Suc: "poll_n (Suc k) dma = snd (dol_audio_dma_poll (poll_n k dma))"
  by (simp add: poll_n_def)

text \<open>The state of a running transfer of \<open>n\<close> blocks, \<open>w\<close> work units apart, \<open>k\<close> polls after its
  (acknowledged) start, before the last poll of the block run.\<close>

definition running :: "nat \<Rightarrow> DolAudioDma \<Rightarrow> nat \<Rightarrow> DolAudioDma" where
  "running w dma k = dma\<lparr>ad_work_counter := of_nat (k mod w),
     ad_remaining_blocks := ad_remaining_blocks dma - of_nat (k div w),
     ad_current_source_address := ad_current_source_address dma + 32 * of_nat (k div w)\<rparr>"

lemma poll_idle_step:
  assumes "flag_set (ad_control dma) DOL_AUDIO_DMA_ENABLE"
    and "ad_work_units_per_chunk dma = of_nat w" and "w < 2 ^ 64" and "0 < w"
    and "Suc (k mod w) < w"
  shows "dol_audio_dma_poll (running w dma k) = (None, running w dma (Suc k))"
proof -
  have "(of_nat (k mod w) + 1 :: u64) = of_nat (Suc (k mod w))" by simp
  moreover have "(of_nat (Suc (k mod w)) :: u64) < of_nat w"
    using assms(3,5) by (simp add: word_less_nat_alt unat_of_nat del: of_nat_Suc)
  moreover have "Suc k mod w = Suc (k mod w)" "Suc k div w = k div w"
    using assms(5) by (simp_all add: mod_Suc div_Suc)
  ultimately show ?thesis using assms(1,2)
    by (simp add: dol_audio_dma_poll_def running_def Let_def add.commute)
qed

lemma block_boundary:
  assumes "\<not> Suc (k mod w) < w" and "0 < w"
  shows "Suc (k mod w) = w" and "Suc k mod w = 0" and "Suc k div w = Suc (k div w)"
proof -
  show *: "Suc (k mod w) = w" using assms mod_less_divisor[of w k] by linarith
  then show "Suc k mod w = 0" and "Suc k div w = Suc (k div w)" by (simp_all add: mod_Suc div_Suc)
qed

lemma poll_block_step:
  assumes en: "flag_set (ad_control dma) DOL_AUDIO_DMA_ENABLE"
    and w: "ad_work_units_per_chunk dma = of_nat w" and "0 < w"
    and boundary: "\<not> Suc (k mod w) < w"
    and blocks: "Suc (k div w) < unat (ad_remaining_blocks dma)"
  shows "dol_audio_dma_poll (running w dma k) =
    (Some (ad_current_source_address dma + 32 * of_nat (k div w)), running w dma (Suc k))"
proof -
  note b = block_boundary[OF boundary \<open>0 < w\<close>]
  have c: "(of_nat (k mod w) + 1 :: u64) = of_nat w" using b(1) by (metis of_nat_Suc add.commute)
  have r: "unat (ad_remaining_blocks dma - of_nat (k div w)) = unat (ad_remaining_blocks dma) - k div w"
    if "k div w \<le> unat (ad_remaining_blocks dma)" for k
    using that unsigned_less[of "ad_remaining_blocks dma", where ?'a = nat]
    by (subst unat_sub) (auto simp: word_le_nat_alt unat_of_nat)
  have nz: "ad_remaining_blocks dma - of_nat (k div w) \<noteq> 0"
    using r[of k] blocks by (auto simp: unat_eq_0[symmetric] simp del: unat_eq_0)
  have nz': "ad_remaining_blocks dma - of_nat (k div w) - 1 \<noteq> 0"
  proof
    assume "ad_remaining_blocks dma - of_nat (k div w) - 1 = 0"
    then have "unat (ad_remaining_blocks dma - of_nat (k div w)) = 1" by simp
    with r[of k] blocks show False by simp
  qed
  show ?thesis
    using en nz nz' by (simp add: dol_audio_dma_poll_def running_def Let_def c w b)
qed

lemma poll_last_step:
  assumes en: "flag_set (ad_control dma) DOL_AUDIO_DMA_ENABLE"
    and w: "ad_work_units_per_chunk dma = of_nat w" and "0 < w"
    and boundary: "\<not> Suc (k mod w) < w"
    and blocks: "Suc (k div w) = unat (ad_remaining_blocks dma)"
  shows "dol_audio_dma_poll (running w dma k) =
    (Some (ad_current_source_address dma + 32 * of_nat (k div w)),
     dma\<lparr>ad_work_counter := 0, ad_remaining_blocks := ad_control dma AND DOL_AUDIO_DMA_BLOCK_MASK,
        ad_current_source_address := ad_source_address dma, ad_interrupt_pending := True\<rparr>)"
proof -
  note b = block_boundary[OF boundary \<open>0 < w\<close>]
  have c: "(of_nat (k mod w) + 1 :: u64) = of_nat w" using b(1) by (metis of_nat_Suc add.commute)
  have "ad_remaining_blocks dma = of_nat (Suc (k div w))" using blocks by simp
  then have "ad_remaining_blocks dma - of_nat (k div w) = 1" by simp
  then show ?thesis
    using en by (simp add: dol_audio_dma_poll_def running_def Let_def c w)
qed

lemma poll_n_running:
  assumes "flag_set (ad_control dma) DOL_AUDIO_DMA_ENABLE" and "ad_work_counter dma = 0"
    and "ad_work_units_per_chunk dma = of_nat w" and "w < 2 ^ 64" and "0 < w"
  shows "k < unat (ad_remaining_blocks dma) * w \<Longrightarrow> poll_n k dma = running w dma k"
proof (induction k)
  case 0
  then show ?case using assms(2) by (simp add: poll_n_def running_def)
next
  case (Suc k)
  have IH: "poll_n k dma = running w dma k" using Suc by simp
  show ?case
  proof (cases "Suc (k mod w) < w")
    case True
    then show ?thesis using poll_idle_step[OF assms(1,3,4,5), of k] by (simp add: poll_n_Suc IH)
  next
    case False
    from block_boundary[OF False assms(5)] have "Suc k = Suc (k div w) * w"
      by (metis add.right_neutral div_mult_mod_eq)
    with Suc.prems have "Suc (k div w) < unat (ad_remaining_blocks dma)" by (metis mult_less_cancel2)
    then show ?thesis using poll_block_step[OF assms(1,3,5) False] by (simp add: poll_n_Suc IH)
  qed
qed

text \<open>A DMA that has just been started with \<open>n\<close> blocks of \<open>w\<close> polls each.\<close>

definition started :: "nat \<Rightarrow> nat \<Rightarrow> DolAudioDma \<Rightarrow> bool" where
  "started n w dma \<longleftrightarrow> flag_set (ad_control dma) DOL_AUDIO_DMA_ENABLE \<and> ad_work_counter dma = 0 \<and>
     ad_work_units_per_chunk dma = of_nat w \<and> w < 2 ^ 64 \<and> 0 < w \<and> 0 < n \<and>
     unat (ad_remaining_blocks dma) = n \<and> \<not> ad_interrupt_pending dma"

lemma started_running:
  assumes "started n w d" and "k < n * w"
  shows "poll_n k d = running w d k" and "k div w < n"
proof -
  show "poll_n k d = running w d k"
    using assms by (intro poll_n_running) (auto simp: started_def)
  show "k div w < n"
    using assms by (simp add: started_def div_less_iff_less_mult)
qed

lemma boundary_iff: "0 < w \<Longrightarrow> \<not> Suc (k mod w) < w \<longleftrightarrow> Suc k mod w = 0"
  by (cases "Suc (k mod w) = w") (auto simp: mod_Suc intro: Suc_lessI)

lemma started_blocks_left:
  assumes d: "started n w d" and k: "k < n * w"
  shows "unat (dol_audio_dma_blocks_left (poll_n k d)) = n - Suc (k div w)"
proof -
  define r where "r = ad_remaining_blocks d - of_nat (k div w)"
  have r: "ad_remaining_blocks (poll_n k d) = r"
    using started_running [OF assms] by (simp add: running_def r_def)
  have u: "unat r = n - k div w"
    using d started_running(2) [OF assms] unsigned_less [of "ad_remaining_blocks d", where ?'a = nat]
    unfolding r_def started_def by (subst unat_sub) (auto simp: word_le_nat_alt unat_of_nat)
  then have "r \<noteq> 0" using started_running(2) [OF assms] by auto
  with r u show ?thesis by (simp add: dol_audio_dma_blocks_left_def unat_minus_one)
qed

lemma started_output:
  assumes d: "started n w d" and k: "k < n * w"
  shows "fst (dol_audio_dma_poll (poll_n k d)) =
    (if Suc k mod w = 0 then Some (ad_current_source_address d + 32 * of_nat (k div w)) else None)"
proof -
  note pre = d [unfolded started_def] and run = started_running(1) [OF assms]
  have w: "0 < w" using pre by simp
  show ?thesis
  proof (cases "Suc (k mod w) < w")
    case True
    then show ?thesis
      using boundary_iff [OF w, of k] poll_idle_step [of d w k] pre unfolding run by simp
  next
    case False
    have "Suc (k div w) < unat (ad_remaining_blocks d) \<or> Suc (k div w) = unat (ad_remaining_blocks d)"
      using started_running(2) [OF assms] pre by linarith
    then show ?thesis
      using poll_block_step [of d w k] poll_last_step [of d w k] boundary_iff [OF w, of k] pre False
      unfolding run by auto
  qed
qed

lemma started_last:
  assumes d: "started n w d"
  shows "poll_n (n * w) d = d\<lparr>ad_work_counter := 0,
    ad_remaining_blocks := ad_control d AND DOL_AUDIO_DMA_BLOCK_MASK,
    ad_current_source_address := ad_source_address d, ad_interrupt_pending := True\<rparr>"
proof -
  note pre = d [unfolded started_def]
  have w: "0 < w" and last: "n * w - 1 < n * w" "Suc (n * w - 1) = n * w" using pre by simp_all
  have boundary: "\<not> Suc ((n * w - 1) mod w) < w"
    unfolding boundary_iff [OF w] last(2) by simp
  then have "Suc ((n * w - 1) div w) = n"
    unfolding block_boundary(3) [OF boundary w, symmetric] last(2) using w by simp
  then have "snd (dol_audio_dma_poll (running w d (n * w - 1))) = d\<lparr>ad_work_counter := 0,
      ad_remaining_blocks := ad_control d AND DOL_AUDIO_DMA_BLOCK_MASK,
      ad_current_source_address := ad_source_address d, ad_interrupt_pending := True\<rparr>"
    using poll_last_step [of d w "n * w - 1"] boundary pre by simp
  then show ?thesis
    using poll_n_Suc [of "n * w - 1" d] last started_running(1) [OF d last(1)] by simp
qed

text \<open>C29: a DMA started with \<open>n\<close> blocks, once the start interrupt is acknowledged, delivers one
  32-byte block address every \<open>w\<close> polls, in order from the source address, and raises the AID
  interrupt exactly at poll \<open>n * w\<close>, when it reloads the block counter and the source.\<close>

theorem audio_dma_cadence:
  assumes off: "\<not> flag_set (ad_control dma) DOL_AUDIO_DMA_ENABLE"
    and on: "flag_set control DOL_AUDIO_DMA_ENABLE"
    and n: "n = unat (control AND DOL_AUDIO_DMA_BLOCK_MASK)" "0 < n"
    and w: "w = unat (ad_work_units_per_chunk dma)" "0 < w"
  shows "let d0 = dol_audio_dma_ack_interrupt (dol_audio_dma_write_control dma control) in
    (\<forall>k < n * w. \<not> dol_audio_dma_interrupt_pending (poll_n k d0) \<and>
       unat (dol_audio_dma_blocks_left (poll_n k d0)) = n - Suc (k div w) \<and>
       fst (dol_audio_dma_poll (poll_n k d0)) =
         (if Suc k mod w = 0 then Some (ad_source_address dma + 32 * of_nat (k div w)) else None)) \<and>
    dol_audio_dma_interrupt_pending (poll_n (n * w) d0) \<and>
    unat (ad_remaining_blocks (poll_n (n * w) d0)) = n \<and>
    ad_current_source_address (poll_n (n * w) d0) = ad_source_address dma"
proof -
  let ?d0 = "dol_audio_dma_ack_interrupt (dol_audio_dma_write_control dma control)"
  have d0: "?d0 = dma\<lparr>ad_control := control, ad_remaining_blocks := control AND DOL_AUDIO_DMA_BLOCK_MASK,
      ad_current_source_address := ad_source_address dma, ad_work_counter := 0,
      ad_interrupt_pending := False\<rparr>"
    using off on by (simp add: dol_audio_dma_write_control_def dol_audio_dma_ack_interrupt_def)
  have start: "started n w ?d0"
    using on w n unsigned_less [of "ad_work_units_per_chunk dma", where ?'a = nat]
    by (simp add: d0 started_def)
  have quiet: "\<not> dol_audio_dma_interrupt_pending (poll_n k ?d0)" if "k < n * w" for k
    using started_running(1) [OF start that]
    by (simp add: running_def dol_audio_dma_interrupt_pending_def d0)
  show ?thesis
    using quiet started_blocks_left [OF start] started_output [OF start] started_last [OF start] n(1)
    by (simp add: dol_audio_dma_interrupt_pending_def d0)
qed

theorem audio_dma_cadence_witness:
  "let d0 = dol_audio_dma_ack_interrupt (dol_audio_dma_write_control dol_audio_dma_init 0x8003) in
   \<not> dol_audio_dma_interrupt_pending (poll_n 2 d0) \<and> dol_audio_dma_interrupt_pending (poll_n 3 d0)"
proof -
  have "\<not> flag_set (ad_control dol_audio_dma_init) DOL_AUDIO_DMA_ENABLE"
    "flag_set (0x8003 :: u16) DOL_AUDIO_DMA_ENABLE" by (simp_all add: dol_audio_dma_init_def)
  from audio_dma_cadence[OF this, of 3 1] show ?thesis
    by (simp add: Let_def dol_audio_dma_init_def)
qed

end
