(* ===== verification/Aram.thy ===== *)
theory Aram
  imports Prelude
begin

text \<open>
  The 16 MB auxiliary RAM of src/GXRuntime/src/aram.c: a buffer that exists between
  \<open>aram_init\<close> and \<open>aram_free\<close>, byte-wise big-endian access with wrap-around at 16 MB, and DMA to and
  from guest RAM.  The buffer is \<open>None\<close> before initialisation, and the allocation is taken to succeed.
\<close>

abbreviation ARAM_SIZE :: u32 where "ARAM_SIZE \<equiv> 0x01000000"
abbreviation ARAM_BASE :: u32 where "ARAM_BASE \<equiv> 0x10000000"

type_synonym aram = "bytes option"

definition aram_init :: "aram \<Rightarrow> aram" where
  "aram_init g = (case g of None \<Rightarrow> Some zero_bytes | Some m \<Rightarrow> Some m)"

definition aram_free :: "aram \<Rightarrow> aram" where
  "aram_free g = None"

definition aram_contains :: "u32 \<Rightarrow> bool" where
  [guard_defs]: "aram_contains ea \<longleftrightarrow> ARAM_BASE \<le> ea \<and> ea < ARAM_BASE + ARAM_SIZE"

definition aram_offset :: "u32 \<Rightarrow> u32" where
  "aram_offset ea = (let off = (if ARAM_BASE \<le> ea then ea - ARAM_BASE else ea) in off AND (ARAM_SIZE - 1))"

primrec aram_load_iter :: "bytes \<Rightarrow> u32 \<Rightarrow> nat \<Rightarrow> u64" where
  "aram_load_iter m off 0 = 0"
| "aram_load_iter m off (Suc i) =
     push_bit 8 (aram_load_iter m off i) OR ucast (m ((off + of_nat i) AND (ARAM_SIZE - 1)))"

definition aram_read :: "aram \<Rightarrow> u32 \<Rightarrow> u8 \<Rightarrow> u64" where
  "aram_read g ea n =
     (case g of None \<Rightarrow> 0 | Some m \<Rightarrow> aram_load_iter m (aram_offset ea) (unat n))"

primrec aram_store_iter :: "bytes \<Rightarrow> u32 \<Rightarrow> nat \<Rightarrow> u64 \<Rightarrow> nat \<Rightarrow> bytes" where
  "aram_store_iter m off n v 0 = m"
| "aram_store_iter m off n v (Suc i) =
     (aram_store_iter m off n v i)
       ((off + of_nat (n - 1 - i)) AND (ARAM_SIZE - 1) := ucast (drop_bit (8 * i) v))"

definition aram_write :: "aram \<Rightarrow> u32 \<Rightarrow> u64 \<Rightarrow> u8 \<Rightarrow> aram" where
  "aram_write g ea value n =
     (case g of None \<Rightarrow> None
      | Some m \<Rightarrow> Some (aram_store_iter m (aram_offset ea) (unat n) value (unat n)))"

definition copy_loop :: "(nat \<Rightarrow> u32) \<Rightarrow> (nat \<Rightarrow> u8) \<Rightarrow> nat \<Rightarrow> bytes \<Rightarrow> bytes" where
  "copy_loop at src n dst = fold (\<lambda>i d. d(at i := src i)) [0..<n] dst"

definition aram_dma_to_aram :: "aram \<Rightarrow> bytes \<Rightarrow> u32 \<Rightarrow> u32 \<Rightarrow> u32 \<Rightarrow> aram" where
  "aram_dma_to_aram g ram ram_addr aram_addr len =
     (case g of None \<Rightarrow> None
      | Some m \<Rightarrow>
          let off = aram_offset aram_addr; r = ram_addr - 0x80000000
          in Some (copy_loop (\<lambda>i. (off + of_nat i) AND (ARAM_SIZE - 1)) (\<lambda>i. ram (r + of_nat i)) (unat len) m))"

definition aram_dma_to_ram :: "aram \<Rightarrow> bytes \<Rightarrow> u32 \<Rightarrow> u32 \<Rightarrow> u32 \<Rightarrow> bytes" where
  "aram_dma_to_ram g ram ram_addr aram_addr len =
     (case g of None \<Rightarrow> ram
      | Some m \<Rightarrow>
          let off = aram_offset aram_addr; r = ram_addr - 0x80000000
          in copy_loop (\<lambda>i. r + of_nat i) (\<lambda>i. m ((off + of_nat i) AND (ARAM_SIZE - 1))) (unat len) ram)"

section \<open>The wrapped buffer as ordinary cells\<close>

lemma aram_index_inj:
  assumes "i < 2 ^ 24" and "j < 2 ^ 24"
  shows "(off + of_nat i) AND (ARAM_SIZE - 1) = (off + of_nat j) AND (ARAM_SIZE - 1) \<longleftrightarrow> i = j"
proof
  have m: "x AND (ARAM_SIZE - 1) = take_bit 24 x" for x :: u32
    by (simp add: take_bit_eq_mask mask_eq_decr_exp)
  assume "(off + of_nat i) AND (ARAM_SIZE - 1) = (off + of_nat j) AND (ARAM_SIZE - 1)"
  then have "take_bit 24 (off + of_nat i) = take_bit 24 (off + of_nat j)" unfolding m .
  then have "unat (take_bit 24 (off + of_nat i)) = unat (take_bit 24 (off + of_nat j))" by simp
  moreover have "unat (take_bit 24 (off + of_nat k :: u32)) = (unat off + k) mod 2 ^ 24" if "k < 2 ^ 24" for k
    using that by (simp add: unsigned_take_bit_eq take_bit_eq_mod unat_word_ariths unat_of_nat mod_mod_cancel)
  ultimately have "(unat off + i) mod 2 ^ 24 = (unat off + j) mod 2 ^ 24" using assms by simp
  then have "i mod 2 ^ 24 = j mod 2 ^ 24" by (simp add: nat_mod_eq_iff)
  then show "i = j" using assms by simp
qed simp

lemma copy_loop_frame: "(\<And>i. i < n \<Longrightarrow> at i \<noteq> a) \<Longrightarrow> copy_loop at src n dst a = dst a"
  by (induction n) (auto simp: copy_loop_def)

lemma copy_loop_get:
  assumes "inj_on at {..<n}" and "i < n"
  shows "copy_loop at src n dst (at i) = src i"
  using assms
proof (induction n)
  case (Suc n)
  have inj: "inj_on at {..<n}" using Suc.prems(1) by (rule inj_on_subset) auto
  show ?case
  proof (cases "i = n")
    case True
    then show ?thesis by (simp add: copy_loop_def)
  next
    case False
    with Suc.prems have "i < n" "at i \<noteq> at n" by (auto simp: inj_on_def)
    with Suc.IH[OF inj] show ?thesis by (simp add: copy_loop_def)
  qed
qed simp

text \<open>Loads and stores through the mask are loads and stores on the periodic view of the buffer.\<close>

abbreviation aram_view :: "bytes \<Rightarrow> bytes" where
  "aram_view m \<equiv> (\<lambda>a. m (a AND (ARAM_SIZE - 1)))"

lemma aram_load_view: "aram_load_iter m off n = be_load (aram_view m) off n"
  by (induction n) simp_all

lemma aram_store_get:
  assumes "n \<le> 2 ^ 24" and "i < n"
  shows "k \<le> n \<Longrightarrow> aram_store_iter m off n v k ((off + of_nat i) AND (ARAM_SIZE - 1)) =
    (if n - 1 - i < k then ucast (drop_bit (8 * (n - 1 - i)) v) else m ((off + of_nat i) AND (ARAM_SIZE - 1)))"
proof (induction k)
  case (Suc k)
  have "(off + of_nat i) AND (ARAM_SIZE - 1) = (off + of_nat (n - 1 - k)) AND (ARAM_SIZE - 1) \<longleftrightarrow> i = n - 1 - k"
    using assms Suc.prems by (intro aram_index_inj) auto
  moreover have "i = n - 1 - k \<longleftrightarrow> k = n - 1 - i"
    using assms Suc.prems by auto
  ultimately show ?case using Suc by (auto simp: less_Suc_eq)
qed simp

definition aram_cells :: "u32 \<Rightarrow> nat \<Rightarrow> u32 set" where
  "aram_cells ea n = (\<lambda>i. (aram_offset ea + of_nat i) AND (ARAM_SIZE - 1)) ` {..<n}"

lemma aram_store_frame:
  "k \<le> n \<Longrightarrow> a \<notin> aram_cells ea n \<Longrightarrow> aram_store_iter m (aram_offset ea) n v k a = m a"
proof (induction k)
  case (Suc k)
  have "(aram_offset ea + of_nat (n - 1 - k)) AND (ARAM_SIZE - 1) \<in> aram_cells ea n"
    unfolding aram_cells_def using Suc.prems(1) by (intro imageI) simp
  with Suc show ?case by auto
qed simp

lemma aram_load_store_same:
  assumes "n \<le> 8"
  shows "aram_load_iter (aram_store_iter m off n v n) off n = take_bit (8 * n) v"
proof -
  have "be_load (aram_view (aram_store_iter m off n v n)) off n = be_load (be_store (aram_view m) off n v) off n"
  proof (rule be_load_cong)
    fix a assume "a \<in> cells off n"
    then obtain i where "i < n" "a = off + of_nat i" by (auto simp: cells_def)
    with assms show "aram_view (aram_store_iter m off n v n) a = be_store (aram_view m) off n v a"
      using aram_store_get[of n i n m off v] be_store_get[of n i] by simp
  qed
  then show ?thesis unfolding aram_load_view using assms by (simp add: be_load_store_same)
qed

lemma aram_load_store_other:
  assumes "aram_cells a n \<inter> aram_cells a' k = {}"
  shows "aram_load_iter (aram_store_iter m (aram_offset a) n v n) (aram_offset a') k =
    aram_load_iter m (aram_offset a') k"
proof -
  have "be_load (aram_view (aram_store_iter m (aram_offset a) n v n)) (aram_offset a') k =
      be_load (aram_view m) (aram_offset a') k"
  proof (rule be_load_cong)
    fix b assume "b \<in> cells (aram_offset a') k"
    then obtain i where "i < k" "b = aram_offset a' + of_nat i" by (auto simp: cells_def)
    then have "b AND (ARAM_SIZE - 1) \<in> aram_cells a' k" by (auto simp: aram_cells_def)
    with assms show "aram_view (aram_store_iter m (aram_offset a) n v n) b = aram_view m b"
      by (intro aram_store_frame) auto
  qed
  then show ?thesis by (simp add: aram_load_view)
qed

definition aram_inside :: "aram \<Rightarrow> u32 \<Rightarrow> nat \<Rightarrow> bool" where
  "aram_inside g a n \<longleftrightarrow> g \<noteq> None \<and> n \<le> 8"

interpretation aram: byte_window "\<lambda>g a n. aram_read g a (of_nat n)" "\<lambda>g a n v. aram_write g a v (of_nat n)"
  aram_inside aram_cells
proof unfold_locales
  have n: "unat (of_nat n :: u8) = n" if "n \<le> 8" for n using that by (simp add: unat_of_nat)
  show "aram_inside s a n \<Longrightarrow> aram_read (aram_write s a v (of_nat n)) a (of_nat n) = take_bit (8 * n) v" for s a n v
    by (auto simp: aram_inside_def aram_read_def aram_write_def n aram_load_store_same)
  show "aram_inside s a n \<Longrightarrow> aram_inside s a' m \<Longrightarrow> aram_cells a n \<inter> aram_cells a' m = {} \<Longrightarrow>
      aram_read (aram_write s a v (of_nat n)) a' (of_nat m) = aram_read s a' (of_nat m)" for s a n a' m v
    by (auto simp: aram_inside_def aram_read_def aram_write_def n aram_load_store_other)
  show "aram_inside s a n \<Longrightarrow> aram_inside (aram_write s a v (of_nat n)) a' m = aram_inside s a' m" for s a n v a' m
    by (auto simp: aram_inside_def aram_write_def)
qed

text \<open>A block moved from guest RAM to ARAM and back arrives unchanged, wherever it lies in
  ARAM, also when it wraps past the 16 MB end, and the way back writes only the destination block.\<close>

theorem aram_dma_roundtrip:
  assumes "unat len \<le> 2 ^ 24"
  shows "let ram' = aram_dma_to_ram (aram_dma_to_aram (Some m) ram src addr len) ram2 dst addr len in
    (\<forall>i < unat len. ram' (dst - 0x80000000 + of_nat i) = ram (src - 0x80000000 + of_nat i)) \<and>
    (\<forall>a. a \<notin> cells (dst - 0x80000000) (unat len) \<longrightarrow> ram' a = ram2 a)"
proof -
  let ?off = "aram_offset addr"
  have inj1: "inj_on (\<lambda>i. (?off + of_nat i) AND (ARAM_SIZE - 1)) {..<unat len}"
  proof (rule inj_onI)
    fix i j assume "i \<in> {..<unat len}" "j \<in> {..<unat len}"
      "(?off + of_nat i) AND (ARAM_SIZE - 1) = (?off + of_nat j) AND (ARAM_SIZE - 1)"
    with assms show "i = j" by (intro aram_index_inj[THEN iffD1]) auto
  qed
  have inj2: "inj_on (\<lambda>i. dst - 0x80000000 + of_nat i :: u32) {..<unat len}"
    using assms by (auto simp: inj_on_def of_nat_u32_eq_iff)
  show ?thesis
    using copy_loop_get[OF inj1] copy_loop_get[OF inj2]
    by (auto simp: aram_dma_to_ram_def aram_dma_to_aram_def Let_def cells_def intro!: copy_loop_frame)
qed

theorem aram_dma_roundtrip_witness:
  "aram_dma_to_ram (aram_dma_to_aram (Some zero_bytes) (\<lambda>a. ucast a) 0x80000010 0x10FFFFFF 4) zero_bytes
     0x80000000 0x10FFFFFF 4 (0x80000000 - 0x80000000 + of_nat 2) = 0x12"
proof -
  have "unat (4 :: u32) \<le> 2 ^ 24" by simp
  from aram_dma_roundtrip[OF this, of zero_bytes "\<lambda>a. ucast a" "0x80000010" "0x10FFFFFF" zero_bytes "0x80000000"]
  show ?thesis unfolding Let_def by (elim conjE allE[of _ 2]) simp
qed

end
