(* ===== verification/GuestCpu.thy ===== *)
theory GuestCpu
  imports GuestTypes
begin

text \<open>
  The CPU state that recompiled code runs on, src/GXRuntime/include/core/cpu.h and
  src/GXRuntime/src/core/cpu.c: guest memory access through MEM1, MEM2 and the host's external
  callbacks, and the exception, privilege and cache-control instructions.

  Floating registers hold bit patterns.  The callbacks of the C structure take the structure
  itself; here they form a separate record \<open>PPCHost\<close>, the first argument of every operation that
  can reach one, and \<open>external_user_data\<close> is the state they own.  The debug-only write journal
  (NULL unless installed) and the quantized loads and stores, which are host floating point, are
  not modelled.
\<close>

section \<open>Constants\<close>

abbreviation GC_MAIN_RAM_SIZE :: u32 where "GC_MAIN_RAM_SIZE \<equiv> 25165824"
abbreviation GC_RAM_BASE :: u32 where "GC_RAM_BASE \<equiv> 0x80000000"
abbreviation GC_RAM_UNCACHED :: u32 where "GC_RAM_UNCACHED \<equiv> 0xC0000000"
abbreviation PPC_EXC_PROGRAM :: u32 where "PPC_EXC_PROGRAM \<equiv> 0x00000001"
abbreviation PPC_EXC_DSI :: u32 where "PPC_EXC_DSI \<equiv> 0x00000002"
abbreviation PPC_EXC_ALIGNMENT :: u32 where "PPC_EXC_ALIGNMENT \<equiv> 0x00000004"
abbreviation PPC_EXC_SYSTEM_CALL :: u32 where "PPC_EXC_SYSTEM_CALL \<equiv> 0x00000008"
abbreviation PPC_EXC_MACHINE_CHECK :: u32 where "PPC_EXC_MACHINE_CHECK \<equiv> 0x00000010"
abbreviation PPC_EXC_FP_UNAVAILABLE :: u32 where "PPC_EXC_FP_UNAVAILABLE \<equiv> 0x00000020"
abbreviation PPC_PROGRAM_ILLEGAL :: u32 where "PPC_PROGRAM_ILLEGAL \<equiv> 0x00080000"
abbreviation PPC_PROGRAM_PRIV :: u32 where "PPC_PROGRAM_PRIV \<equiv> 0x00040000"
abbreviation PPC_DSI_EAR_DISABLED :: u32 where "PPC_DSI_EAR_DISABLED \<equiv> 0x00100000"
abbreviation PPC_VECTOR_MACHINE_CHECK :: u32 where "PPC_VECTOR_MACHINE_CHECK \<equiv> 0x00200"
abbreviation PPC_VECTOR_DSI :: u32 where "PPC_VECTOR_DSI \<equiv> 0x00300"
abbreviation PPC_VECTOR_ALIGNMENT :: u32 where "PPC_VECTOR_ALIGNMENT \<equiv> 0x00600"
abbreviation PPC_VECTOR_PROGRAM :: u32 where "PPC_VECTOR_PROGRAM \<equiv> 0x00700"
abbreviation PPC_VECTOR_FP_UNAVAILABLE :: u32 where "PPC_VECTOR_FP_UNAVAILABLE \<equiv> 0x00800"
abbreviation PPC_VECTOR_SYSTEM_CALL :: u32 where "PPC_VECTOR_SYSTEM_CALL \<equiv> 0x00C00"
abbreviation PPC_HID2_LCE :: u32 where "PPC_HID2_LCE \<equiv> 0x10000000"
abbreviation PPC_HID2_DCHERR :: u32 where "PPC_HID2_DCHERR \<equiv> 0x00800000"
abbreviation PPC_HID2_DCHEE :: u32 where "PPC_HID2_DCHEE \<equiv> 0x00080000"
abbreviation PPC_MSR_RFI_MASK :: u32 where "PPC_MSR_RFI_MASK \<equiv> 0x87C0FFFF"
abbreviation PPC_MSR_POW :: u32 where "PPC_MSR_POW \<equiv> 0x00040000"
abbreviation PPC_MSR_ILE :: u32 where "PPC_MSR_ILE \<equiv> 0x00010000"
abbreviation PPC_MSR_EE :: u32 where "PPC_MSR_EE \<equiv> 0x00008000"
abbreviation PPC_MSR_PR :: u32 where "PPC_MSR_PR \<equiv> 0x00004000"
abbreviation PPC_MSR_FP :: u32 where "PPC_MSR_FP \<equiv> 0x00002000"
abbreviation PPC_MSR_ME :: u32 where "PPC_MSR_ME \<equiv> 0x00001000"
abbreviation PPC_MSR_FE0 :: u32 where "PPC_MSR_FE0 \<equiv> 0x00000800"
abbreviation PPC_MSR_SE :: u32 where "PPC_MSR_SE \<equiv> 0x00000400"
abbreviation PPC_MSR_BE :: u32 where "PPC_MSR_BE \<equiv> 0x00000200"
abbreviation PPC_MSR_FE1 :: u32 where "PPC_MSR_FE1 \<equiv> 0x00000100"
abbreviation PPC_MSR_IP :: u32 where "PPC_MSR_IP \<equiv> 0x00000040"
abbreviation PPC_MSR_IR :: u32 where "PPC_MSR_IR \<equiv> 0x00000020"
abbreviation PPC_MSR_DR :: u32 where "PPC_MSR_DR \<equiv> 0x00000010"
abbreviation PPC_MSR_PM :: u32 where "PPC_MSR_PM \<equiv> 0x00000004"
abbreviation PPC_MSR_RI :: u32 where "PPC_MSR_RI \<equiv> 0x00000002"
abbreviation PPC_MSR_LE :: u32 where "PPC_MSR_LE \<equiv> 0x00000001"
abbreviation PPC_EAR_ENABLE :: u32 where "PPC_EAR_ENABLE \<equiv> 0x80000000"
abbreviation PPC_SRR1_MACHINE_CHECK_DCBZL :: u32 where "PPC_SRR1_MACHINE_CHECK_DCBZL \<equiv> 0x00200000"

section \<open>State\<close>

record 'e CPUState =
  gpr :: "u32 list"
  fpr :: "u64 list"
  ps1 :: "u64 list"
  cpu_pc :: u32
  cpu_lr :: u32
  cpu_ctr :: u32
  cpu_cr :: u32
  cpu_xer :: u32
  cpu_fpscr :: u32
  cpu_msr :: u32
  cpu_srr0 :: u32
  cpu_srr1 :: u32
  cpu_dar :: u32
  cpu_dsisr :: u32
  cpu_ear :: u32
  cpu_hid2 :: u32
  cpu_timebase :: u64
  cpu_sr :: "u32 list"
  cpu_gqr :: "u32 list"
  cpu_exception :: u32
  cpu_program_exception :: u32
  tlb_last_vps :: u32
  tlb_last_index :: u32
  tlb_invalidate_count :: u32
  external_addr :: u32
  external_value :: u32
  external_rid :: u8
  external_read_count :: u8
  external_write_count :: u8
  reserve_addr :: u32
  reserve_valid :: bool
  locked_cache_tag :: "u32 list"
  locked_cache_valid :: "bool list"
  cpu_ram :: bytes
  cpu_ram_size :: u32
  cpu_downcount :: u64
  cpu_exram :: "bytes option"
  cpu_exram_size :: u32
  external_user_data :: 'e

record 'e PPCHost =
  external_read :: "('e CPUState \<Rightarrow> u32 \<Rightarrow> u8 \<Rightarrow> u64 \<times> 'e CPUState) option"
  external_write :: "('e CPUState \<Rightarrow> u32 \<Rightarrow> u64 \<Rightarrow> u8 \<Rightarrow> 'e CPUState) option"
  external_read32 :: "('e CPUState \<Rightarrow> u32 \<Rightarrow> u8 \<Rightarrow> u32 \<times> 'e CPUState) option"
  external_write32 :: "('e CPUState \<Rightarrow> u32 \<Rightarrow> u32 \<Rightarrow> u8 \<Rightarrow> 'e CPUState) option"
  instruction_fallback :: "('e CPUState \<Rightarrow> u32 \<Rightarrow> u32 \<Rightarrow> 'e CPUState) option"
  host_call :: "('e CPUState \<Rightarrow> u32 \<Rightarrow> bool \<times> 'e CPUState) option"

definition cpu_zero :: "bytes \<Rightarrow> u32 \<Rightarrow> bytes option \<Rightarrow> u32 \<Rightarrow> 'e \<Rightarrow> 'e CPUState" where
  "cpu_zero ram ram_size exram exram_size user = \<lparr>gpr = replicate 32 0, fpr = replicate 32 0, ps1 = replicate 32 0,
     cpu_pc = 0, cpu_lr = 0, cpu_ctr = 0, cpu_cr = 0, cpu_xer = 0, cpu_fpscr = 0, cpu_msr = 0,
     cpu_srr0 = 0, cpu_srr1 = 0, cpu_dar = 0, cpu_dsisr = 0, cpu_ear = 0, cpu_hid2 = 0,
     cpu_timebase = 0, cpu_sr = replicate 16 0, cpu_gqr = replicate 8 0, cpu_exception = 0,
     cpu_program_exception = 0, tlb_last_vps = 0, tlb_last_index = 0, tlb_invalidate_count = 0,
     external_addr = 0, external_value = 0, external_rid = 0, external_read_count = 0,
     external_write_count = 0, reserve_addr = 0, reserve_valid = False,
     locked_cache_tag = replicate 512 0, locked_cache_valid = replicate 512 False,
     cpu_ram = ram, cpu_ram_size = ram_size, cpu_downcount = 0,
     cpu_exram = exram, cpu_exram_size = exram_size, external_user_data = user\<rparr>"

definition cpu_init :: "'e \<Rightarrow> 'e CPUState" where
  "cpu_init user = cpu_zero zero_bytes GC_MAIN_RAM_SIZE None 0 user"

definition cpu_reset :: "'e CPUState \<Rightarrow> 'e CPUState" where
  "cpu_reset cpu =
     cpu_zero (\<lambda>a. if a < cpu_ram_size cpu then 0 else cpu_ram cpu a) (cpu_ram_size cpu)
       (cpu_exram cpu) (cpu_exram_size cpu) (external_user_data cpu)"

section \<open>Guest memory\<close>

datatype ram_ptr = Mem1Ptr u32 | ExramPtr u32

definition get_ram_ptr :: "'e CPUState \<Rightarrow> u32 \<Rightarrow> u32 \<Rightarrow> ram_ptr option" where
  "get_ram_ptr cpu addr sz =
     (let masked_addr = addr AND NOT 0x40000000;
          ex_offset = masked_addr - 0x90000000;
          offset = masked_addr - 0x80000000
      in if cpu_exram cpu \<noteq> None \<and> ex_offset \<le> cpu_exram_size cpu - sz then Some (ExramPtr ex_offset)
         else if offset \<le> cpu_ram_size cpu - sz then Some (Mem1Ptr offset)
         else None)"

primrec ptr_bytes :: "'e CPUState \<Rightarrow> ram_ptr \<Rightarrow> bytes" where
  "ptr_bytes cpu (Mem1Ptr off) = cpu_ram cpu"
| "ptr_bytes cpu (ExramPtr off) = (case cpu_exram cpu of None \<Rightarrow> zero_bytes | Some b \<Rightarrow> b)"

primrec ptr_offset :: "ram_ptr \<Rightarrow> u32" where
  "ptr_offset (Mem1Ptr off) = off"
| "ptr_offset (ExramPtr off) = off"

primrec ptr_update :: "'e CPUState \<Rightarrow> ram_ptr \<Rightarrow> bytes \<Rightarrow> 'e CPUState" where
  "ptr_update cpu (Mem1Ptr off) b = cpu\<lparr>cpu_ram := b\<rparr>"
| "ptr_update cpu (ExramPtr off) b = cpu\<lparr>cpu_exram := Some b\<rparr>"

definition ext_read :: "'e PPCHost \<Rightarrow> 'e CPUState \<Rightarrow> u32 \<Rightarrow> u8 \<Rightarrow> u64 \<times> 'e CPUState" where
  "ext_read h cpu addr n = (case external_read h of None \<Rightarrow> (0, cpu) | Some f \<Rightarrow> f cpu addr n)"

definition ext_write :: "'e PPCHost \<Rightarrow> 'e CPUState \<Rightarrow> u32 \<Rightarrow> u64 \<Rightarrow> u8 \<Rightarrow> 'e CPUState" where
  "ext_write h cpu addr v n = (case external_write h of None \<Rightarrow> cpu | Some f \<Rightarrow> f cpu addr v n)"

definition mem_read64 :: "'e PPCHost \<Rightarrow> 'e CPUState \<Rightarrow> u32 \<Rightarrow> u64 \<times> 'e CPUState" where
  "mem_read64 h cpu addr = (case get_ram_ptr cpu addr 8 of
     None \<Rightarrow> ext_read h cpu addr 8
   | Some p \<Rightarrow> (read_be64 (ptr_bytes cpu p) (ptr_offset p), cpu))"

definition mem_write64 :: "'e PPCHost \<Rightarrow> 'e CPUState \<Rightarrow> u32 \<Rightarrow> u64 \<Rightarrow> 'e CPUState" where
  "mem_write64 h cpu addr value = (case get_ram_ptr cpu addr 8 of
     None \<Rightarrow> ext_write h cpu addr value 8
   | Some p \<Rightarrow> ptr_update cpu p (write_be64 (ptr_bytes cpu p) (ptr_offset p) value))"

definition mem_read32 :: "'e PPCHost \<Rightarrow> 'e CPUState \<Rightarrow> u32 \<Rightarrow> u32 \<times> 'e CPUState" where
  "mem_read32 h cpu addr = (case get_ram_ptr cpu addr 4 of
     None \<Rightarrow> apfst ucast (ext_read h cpu addr 4)
   | Some p \<Rightarrow> (read_be32 (ptr_bytes cpu p) (ptr_offset p), cpu))"

definition mem_write32 :: "'e PPCHost \<Rightarrow> 'e CPUState \<Rightarrow> u32 \<Rightarrow> u32 \<Rightarrow> 'e CPUState" where
  "mem_write32 h cpu addr value = (case get_ram_ptr cpu addr 4 of
     None \<Rightarrow> ext_write h cpu addr (ucast value) 4
   | Some p \<Rightarrow> ptr_update cpu p (write_be32 (ptr_bytes cpu p) (ptr_offset p) value))"

definition mem_read16 :: "'e PPCHost \<Rightarrow> 'e CPUState \<Rightarrow> u32 \<Rightarrow> u16 \<times> 'e CPUState" where
  "mem_read16 h cpu addr = (case get_ram_ptr cpu addr 2 of
     None \<Rightarrow> apfst ucast (ext_read h cpu addr 2)
   | Some p \<Rightarrow> (read_be16 (ptr_bytes cpu p) (ptr_offset p), cpu))"

definition mem_write16 :: "'e PPCHost \<Rightarrow> 'e CPUState \<Rightarrow> u32 \<Rightarrow> u16 \<Rightarrow> 'e CPUState" where
  "mem_write16 h cpu addr value = (case get_ram_ptr cpu addr 2 of
     None \<Rightarrow> ext_write h cpu addr (ucast value) 2
   | Some p \<Rightarrow> ptr_update cpu p (write_be16 (ptr_bytes cpu p) (ptr_offset p) value))"

definition mem_read8 :: "'e PPCHost \<Rightarrow> 'e CPUState \<Rightarrow> u32 \<Rightarrow> u8 \<times> 'e CPUState" where
  "mem_read8 h cpu addr = (case get_ram_ptr cpu addr 1 of
     None \<Rightarrow> apfst ucast (ext_read h cpu addr 1)
   | Some p \<Rightarrow> (ptr_bytes cpu p (ptr_offset p), cpu))"

definition mem_write8 :: "'e PPCHost \<Rightarrow> 'e CPUState \<Rightarrow> u32 \<Rightarrow> u8 \<Rightarrow> 'e CPUState" where
  "mem_write8 h cpu addr value = (case get_ram_ptr cpu addr 1 of
     None \<Rightarrow> ext_write h cpu addr (ucast value) 1
   | Some p \<Rightarrow> ptr_update cpu p ((ptr_bytes cpu p)(ptr_offset p := value)))"

section \<open>Addresses and the RAM they name\<close>

lemma ptr_update_ptr [simp]: "get_ram_ptr (ptr_update cpu p b) a n = get_ram_ptr cpu a n"
  if "get_ram_ptr cpu a' n' = Some p"
  using that by (cases p) (auto simp: get_ram_ptr_def Let_def split: if_splits)

lemma ptr_bytes_update:
  assumes "get_ram_ptr cpu a n = Some p" and "get_ram_ptr cpu a' n' = Some q"
  shows "ptr_bytes (ptr_update cpu p b) q =
    (case (p, q) of (Mem1Ptr _, Mem1Ptr _) \<Rightarrow> b | (ExramPtr _, ExramPtr _) \<Rightarrow> b | _ \<Rightarrow> ptr_bytes cpu q)"
  by (cases p; cases q) auto

lemma get_ram_ptr_bounds:
  assumes "get_ram_ptr cpu a n = Some p" and "n \<le> cpu_ram_size cpu"
    and "cpu_exram cpu \<noteq> None \<Longrightarrow> n \<le> cpu_exram_size cpu"
  shows "unat (ptr_offset p) + unat n \<le>
    (case p of Mem1Ptr _ \<Rightarrow> unat (cpu_ram_size cpu) | ExramPtr _ \<Rightarrow> unat (cpu_exram_size cpu))"
proof -
  have *: "unat off + unat n \<le> unat sz" if "off \<le> sz - n" "n \<le> sz" for off sz :: u32
    using that by (simp add: word_le_nat_alt unat_sub)
  from assms show ?thesis by (auto simp: get_ram_ptr_def Let_def split: if_splits intro!: *)
qed

text \<open>The big-endian view of an access that hits RAM.\<close>

definition ram_load :: "'e CPUState \<Rightarrow> u32 \<Rightarrow> nat \<Rightarrow> u64" where
  "ram_load cpu a n = (case get_ram_ptr cpu a (of_nat n) of
     None \<Rightarrow> 0 | Some p \<Rightarrow> be_load (ptr_bytes cpu p) (ptr_offset p) n)"

definition ram_store :: "'e CPUState \<Rightarrow> u32 \<Rightarrow> nat \<Rightarrow> u64 \<Rightarrow> 'e CPUState" where
  "ram_store cpu a n v = (case get_ram_ptr cpu a (of_nat n) of
     None \<Rightarrow> cpu | Some p \<Rightarrow> ptr_update cpu p (be_store (ptr_bytes cpu p) (ptr_offset p) n v))"

definition ram_hit :: "'e CPUState \<Rightarrow> u32 \<Rightarrow> nat \<Rightarrow> bool" where
  "ram_hit cpu a n \<longleftrightarrow> get_ram_ptr cpu a (of_nat n) \<noteq> None \<and> n \<le> 8"

definition ram_span :: "u32 \<Rightarrow> nat \<Rightarrow> u32 set" where
  "ram_span a n = cells (a AND NOT 0x40000000) n"

lemma mem_read_hit:
  "ram_hit cpu a 8 \<Longrightarrow> mem_read64 h cpu a = (ram_load cpu a 8, cpu)"
  "ram_hit cpu a 4 \<Longrightarrow> mem_read32 h cpu a = (ucast (ram_load cpu a 4), cpu)"
  "ram_hit cpu a 2 \<Longrightarrow> mem_read16 h cpu a = (ucast (ram_load cpu a 2), cpu)"
  "ram_hit cpu a 1 \<Longrightarrow> mem_read8 h cpu a = (ucast (ram_load cpu a 1), cpu)"
  by (auto simp: ram_hit_def mem_read64_def mem_read32_def mem_read16_def mem_read8_def ram_load_def
      read_be64_loop read_be32_loop read_be16_loop)

lemma mem_write_hit:
  "ram_hit cpu a 8 \<Longrightarrow> mem_write64 h cpu a v = ram_store cpu a 8 v"
  "ram_hit cpu a 4 \<Longrightarrow> mem_write32 h cpu a w = ram_store cpu a 4 (ucast w)"
  "ram_hit cpu a 2 \<Longrightarrow> mem_write16 h cpu a x = ram_store cpu a 2 (ucast x)"
  "ram_hit cpu a 1 \<Longrightarrow> mem_write8 h cpu a y = ram_store cpu a 1 (ucast y)"
  by (auto simp: ram_hit_def mem_write64_def mem_write32_def mem_write16_def mem_write8_def ram_store_def
      write_be64_loop write_be32_loop write_be16_loop be_store_def)

lemma ram_hit_store [simp]: "ram_hit (ram_store cpu a n v) a' m = ram_hit cpu a' m"
  by (auto simp: ram_hit_def ram_store_def split: option.splits)

lemma ram_load_store_same: "ram_hit cpu a n \<Longrightarrow> ram_load (ram_store cpu a n v) a n = take_bit (8 * n) v"
  by (auto simp: ram_hit_def ram_load_def ram_store_def ptr_bytes_update be_load_store_same split: ram_ptr.splits)

lemma cells_shift: "cells (a - d) n = (\<lambda>x. x - d) ` cells a n"
  by (auto simp: cells_def image_image algebra_simps)

lemma cells_shift_disjoint:
  "cells a n \<inter> cells a' m = {} \<Longrightarrow> cells (a - d) n \<inter> cells (a' - d) m = {}"
  unfolding cells_shift by auto

lemma ram_load_store_other:
  assumes "ram_hit cpu a n" and "ram_hit cpu a' m" and "ram_span a n \<inter> ram_span a' m = {}"
  shows "ram_load (ram_store cpu a n v) a' m = ram_load cpu a' m"
proof -
  obtain p q where p: "get_ram_ptr cpu a (of_nat n) = Some p" and q: "get_ram_ptr cpu a' (of_nat m) = Some q"
    using assms(1,2) by (auto simp: ram_hit_def)
  have same: "cells (ptr_offset p) n \<inter> cells (ptr_offset q) m = {}"
    if kind: "(case (p, q) of (Mem1Ptr _, Mem1Ptr _) \<Rightarrow> True | (ExramPtr _, ExramPtr _) \<Rightarrow> True | _ \<Rightarrow> False)"
  proof -
    obtain d where "ptr_offset p = (a AND NOT 0x40000000) - d" "ptr_offset q = (a' AND NOT 0x40000000) - d"
      using kind p q by (cases p; cases q) (auto simp: get_ram_ptr_def Let_def split: if_splits)
    then show ?thesis using cells_shift_disjoint[OF assms(3)[unfolded ram_span_def], of d] by simp
  qed
  show ?thesis
  proof -
    let ?B = "be_store (ptr_bytes cpu p) (ptr_offset p) n v"
    have "ram_load (ram_store cpu a n v) a' m = be_load (ptr_bytes (ptr_update cpu p ?B) q) (ptr_offset q) m"
      using p q by (simp add: ram_load_def ram_store_def)
    moreover have "ram_load cpu a' m = be_load (ptr_bytes cpu q) (ptr_offset q) m"
      using q by (simp add: ram_load_def)
    moreover have "be_load (ptr_bytes (ptr_update cpu p ?B) q) (ptr_offset q) m =
        be_load (ptr_bytes cpu q) (ptr_offset q) m"
      unfolding ptr_bytes_update[OF p q]
      using same by (cases p; cases q) (simp_all add: be_load_store_disjoint)
    ultimately show ?thesis by simp
  qed
qed

text \<open>RAM accesses depend on the RAM fields only.\<close>

lemma get_ram_ptr_cong:
  "(cpu_exram c = None \<longleftrightarrow> cpu_exram d = None) \<Longrightarrow> cpu_exram_size c = cpu_exram_size d \<Longrightarrow>
   cpu_ram_size c = cpu_ram_size d \<Longrightarrow> get_ram_ptr c a n = get_ram_ptr d a n"
  unfolding get_ram_ptr_def Let_def by (cases "cpu_exram d") auto

lemma ram_hit_cong:
  "(cpu_exram c = None \<longleftrightarrow> cpu_exram d = None) \<Longrightarrow> cpu_exram_size c = cpu_exram_size d \<Longrightarrow>
   cpu_ram_size c = cpu_ram_size d \<Longrightarrow> ram_hit c a n = ram_hit d a n"
  using get_ram_ptr_cong[of c d a "of_nat n"] by (simp add: ram_hit_def)

lemma ram_load_cong:
  assumes "cpu_exram c = cpu_exram d" "cpu_exram_size c = cpu_exram_size d"
    "cpu_ram_size c = cpu_ram_size d" "cpu_ram c = cpu_ram d"
  shows "ram_load c a n = ram_load d a n"
proof -
  have "get_ram_ptr c a (of_nat n) = get_ram_ptr d a (of_nat n)" by (rule get_ram_ptr_cong) (simp_all add: assms)
  moreover have "ptr_bytes c p = ptr_bytes d p" for p using assms by (cases p) simp_all
  ultimately show ?thesis by (simp add: ram_load_def split: option.split)
qed

interpretation guest_ram: byte_window ram_load ram_store ram_hit ram_span
  by unfold_locales (simp_all add: ram_load_store_same ram_load_store_other)

lemma guest_address_masked:
  assumes "off < 0x10000000"
  shows "(0x80000000 + off) AND NOT 0x40000000 = (0x80000000 + off :: u32)"
    and "(0xC0000000 + off) AND NOT 0x40000000 = (0x80000000 + off :: u32)"
proof -
  have "unat off < 2 ^ 28" using assms by (simp add: word_less_nat_alt)
  then have "take_bit 28 off = off"
    by (simp add: word_unat_eq_iff unsigned_take_bit_eq take_bit_nat_eq_self)
  then have high: "\<not> bit off k" if "28 \<le> k" for k
    using that by (metis bit_take_bit_iff not_le)
  have const: "(0x80000000 :: u32) = push_bit 31 1" "(0x40000000 :: u32) = push_bit 30 1"
    "(0xC0000000 :: u32) = push_bit 31 1 OR push_bit 30 1"
    by simp_all
  have cached: "0x80000000 + off = push_bit 31 1 OR off"
    unfolding const by (rule disjunctive_add) (auto simp: bit_simps high simp del: push_bit_of_1)
  have uncached: "0xC0000000 + off = (push_bit 31 1 OR push_bit 30 1) OR off"
    unfolding const by (rule disjunctive_add) (auto simp: bit_simps high simp del: push_bit_of_1)
  show "(0x80000000 + off) AND NOT 0x40000000 = 0x80000000 + off"
    unfolding cached const(2) by (rule bit_word_eqI) (auto simp: bit_simps high simp del: push_bit_of_1)
  show "(0xC0000000 + off) AND NOT 0x40000000 = 0x80000000 + off"
    unfolding uncached cached const(2) by (rule bit_word_eqI) (auto simp: bit_simps high simp del: push_bit_of_1)
qed

lemma get_ram_ptr_complete:
  assumes "unat off + n \<le> unat (cpu_ram_size cpu)" and "0 < n" and "cpu_ram_size cpu \<le> 0x10000000"
    and "cpu_exram_size cpu \<le> 0x10000000" and "of_nat n \<le> cpu_exram_size cpu \<or> cpu_exram cpu = None"
  shows "get_ram_ptr cpu (0x80000000 + off) (of_nat n) = Some (Mem1Ptr off)"
    and "get_ram_ptr cpu (0xC0000000 + off) (of_nat n) = Some (Mem1Ptr off)"
proof -
  have ram: "unat (cpu_ram_size cpu) \<le> 0x10000000" using assms(3) by (simp add: word_le_nat_alt)
  have n: "unat (of_nat n :: u32) = n" using assms(1) ram by (simp add: unat_of_nat)
  have small: "unat off < 0x10000000" using assms(1,2) ram by linarith
  then have off: "off < 0x10000000" by (simp add: word_less_nat_alt)
  have "unat (cpu_ram_size cpu - of_nat n) = unat (cpu_ram_size cpu) - n"
    using assms(1) n by (simp add: unat_sub word_le_nat_alt)
  then have hit: "off \<le> cpu_ram_size cpu - of_nat n"
    using assms(1) by (simp add: word_le_nat_alt)
  have ex: "\<not> (cpu_exram cpu \<noteq> None \<and> 0x80000000 + off - 0x90000000 \<le> cpu_exram_size cpu - of_nat n)"
  proof
    assume a: "cpu_exram cpu \<noteq> None \<and> 0x80000000 + off - 0x90000000 \<le> cpu_exram_size cpu - of_nat n"
    have "cpu_exram_size cpu - of_nat n \<le> cpu_exram_size cpu"
      using a assms(5) by (intro word_sub_le) auto
    moreover have "unat (0x80000000 + off - 0x90000000) = 0xF0000000 + unat off"
    proof -
      have wrap: "0x80000000 + off - 0x90000000 = 0xF0000000 + off" by simp
      have "unat (0xF0000000 + off) = 0xF0000000 + unat off"
        using small by (simp add: unat_word_ariths)
      then show ?thesis unfolding wrap .
    qed
    ultimately show False
      using a assms(4) by (simp add: word_le_nat_alt)
  qed
  show "get_ram_ptr cpu (0x80000000 + off) (of_nat n) = Some (Mem1Ptr off)"
    using hit ex unfolding get_ram_ptr_def guest_address_masked [OF off] Let_def by simp
  show "get_ram_ptr cpu (0xC0000000 + off) (of_nat n) = Some (Mem1Ptr off)"
    using hit ex unfolding get_ram_ptr_def guest_address_masked [OF off] Let_def by simp
qed

text \<open>C22: an access that lands in guest RAM stays inside the block it lands in (for blocks at
  least as large as the access), and a word stored through a cached address reads back, on every
  width, through the uncached mirror of that address as through the address itself.  Every access
  that fits in MEM1 lands there, at its offset, through both mirrors.\<close>

theorem guest_ram_access:
  assumes "ram_hit cpu a n" and "n \<in> {1, 2, 4, 8}"
    and "of_nat n \<le> cpu_ram_size cpu" and "cpu_exram cpu \<noteq> None \<longrightarrow> of_nat n \<le> cpu_exram_size cpu"
    and "b AND NOT 0x40000000 = a AND NOT 0x40000000"
  shows "(\<exists>p. get_ram_ptr cpu a (of_nat n) = Some p \<and> unat (ptr_offset p) + n \<le>
      (case p of Mem1Ptr _ \<Rightarrow> unat (cpu_ram_size cpu) | ExramPtr _ \<Rightarrow> unat (cpu_exram_size cpu))) \<and>
    (n = 4 \<longrightarrow> fst (mem_read32 h (mem_write32 h cpu a w) b) = w) \<and>
    (n = 8 \<longrightarrow> fst (mem_read64 h (mem_write64 h cpu a d) b) = d) \<and>
    (n = 2 \<longrightarrow> fst (mem_read16 h (mem_write16 h cpu a x) b) = x) \<and>
    (n = 1 \<longrightarrow> fst (mem_read8 h (mem_write8 h cpu a y) b) = y) \<and>
    (unat off + n \<le> unat (cpu_ram_size cpu) \<and> cpu_ram_size cpu \<le> 0x10000000 \<and>
       cpu_exram_size cpu \<le> 0x10000000 \<longrightarrow>
       get_ram_ptr cpu (0x80000000 + off) (of_nat n) = Some (Mem1Ptr off) \<and>
       get_ram_ptr cpu (0xC0000000 + off) (of_nat n) = Some (Mem1Ptr off))"
proof -
  obtain p where p: "get_ram_ptr cpu a (of_nat n) = Some p" using assms(1) by (auto simp: ram_hit_def)
  have n: "unat (of_nat n :: u32) = n" using assms(2) by auto
  have bound: "unat (ptr_offset p) + n \<le>
      (case p of Mem1Ptr _ \<Rightarrow> unat (cpu_ram_size cpu) | ExramPtr _ \<Rightarrow> unat (cpu_exram_size cpu))"
    using get_ram_ptr_bounds[OF p assms(3)] assms(4) n by simp
  have mirror: "get_ram_ptr c b m = get_ram_ptr c a m" for c :: "'a CPUState" and m
    unfolding get_ram_ptr_def assms(5) ..
  have hit: "ram_hit c b m = ram_hit c a m" for c :: "'a CPUState" and m
    by (simp only: ram_hit_def mirror)
  have load: "ram_load c b m = ram_load c a m" for c :: "'a CPUState" and m
    by (simp only: ram_load_def mirror)
  have reread: "ram_load (ram_store cpu a n v) b n = take_bit (8 * n) v" for v
    unfolding load by (rule ram_load_store_same[OF assms(1)])
  have u: "ucast (take_bit 32 (ucast w :: u64)) = w" "ucast (take_bit 16 (ucast x :: u64)) = x"
    "ucast (take_bit 8 (ucast y :: u64)) = y" "take_bit 64 d = d"
    by (rule bit_word_eqI; auto simp: bit_simps)+
  have complete: "get_ram_ptr cpu (0x80000000 + off) (of_nat n) = Some (Mem1Ptr off) \<and>
      get_ram_ptr cpu (0xC0000000 + off) (of_nat n) = Some (Mem1Ptr off)"
    if "unat off + n \<le> unat (cpu_ram_size cpu) \<and> cpu_ram_size cpu \<le> 0x10000000 \<and>
       cpu_exram_size cpu \<le> 0x10000000"
    using get_ram_ptr_complete [of off n cpu] that assms(2,4) by auto
  show ?thesis
    using p bound assms(1) reread u complete by (auto simp: mem_write_hit mem_read_hit hit)
qed

definition no_host :: "unit PPCHost" where
  "no_host = \<lparr>external_read = None, external_write = None, external_read32 = None,
     external_write32 = None, instruction_fallback = None, host_call = None\<rparr>"

theorem guest_ram_access_witness:
  "fst (mem_read32 no_host (mem_write32 no_host (cpu_init ()) 0x80001000 0xCAFE) 0xC0001000) = 0xCAFE"
  using guest_ram_access[of "cpu_init ()" "0x80001000" 4 "0xC0001000" no_host "0xCAFE"]
  by (simp add: ram_hit_def get_ram_ptr_def cpu_init_def cpu_zero_def)

end
