(* ===== verification/CpuOps.thy ===== *)
theory CpuOps
  imports GuestCpu
begin

text \<open>
  Operations on the CPU state from src/GXRuntime/src/core/cpu.c, cpu_interpreter_integer.c and the
  FPSCR and load/store part of cpu_interpreter_float.c: exceptions and their return, privilege
  checks, the locked data cache, external control, reservations, the store-string helper, and the
  floating loads and stores at bit level.
\<close>

section \<open>Exceptions\<close>

definition exception_vector_address :: "u32 \<Rightarrow> u32 \<Rightarrow> u32" where
  "exception_vector_address msr vector = (if flag_set msr PPC_MSR_IP then 0xFFF00000 else 0) + vector"

definition exception_msr :: "u32 \<Rightarrow> u32 \<Rightarrow> u32" where
  "exception_msr old_msr exception =
     (let clr = PPC_MSR_POW OR PPC_MSR_EE OR PPC_MSR_PR OR PPC_MSR_FP OR PPC_MSR_FE0 OR PPC_MSR_SE
            OR PPC_MSR_BE OR PPC_MSR_FE1 OR PPC_MSR_IR OR PPC_MSR_DR OR PPC_MSR_PM OR PPC_MSR_RI
            OR PPC_MSR_LE;
          clr = (if flag_set exception PPC_EXC_MACHINE_CHECK then clr OR PPC_MSR_ME else clr);
          nxt = old_msr AND NOT clr
      in if flag_set old_msr PPC_MSR_ILE then nxt OR PPC_MSR_LE else nxt)"

definition ppc_add_overflowed :: "u32 \<Rightarrow> u32 \<Rightarrow> u32 \<Rightarrow> bool" where
  "ppc_add_overflowed a b result \<longleftrightarrow> drop_bit 31 ((a XOR result) AND (b XOR result)) \<noteq> 0"

definition ppc_set_xer_ov :: "'e CPUState \<Rightarrow> bool \<Rightarrow> 'e CPUState" where
  "ppc_set_xer_ov cpu ov =
     (let xer = (cpu_xer cpu AND NOT 0x40000000) OR (if ov then 0x40000000 else 0)
      in cpu\<lparr>cpu_xer := if ov then xer OR 0x80000000 else xer\<rparr>)"

definition ppc_take_exception :: "'e CPUState \<Rightarrow> u32 \<Rightarrow> u32 \<Rightarrow> u32 \<Rightarrow> u32 \<Rightarrow> 'e CPUState" where
  "ppc_take_exception cpu exception vector srr0 srr1_info =
     (let old_msr = cpu_msr cpu; msr = exception_msr old_msr exception
      in cpu\<lparr>cpu_srr0 := srr0, cpu_srr1 := (old_msr AND PPC_MSR_RFI_MASK) OR srr1_info,
             cpu_exception := cpu_exception cpu OR exception, cpu_msr := msr,
             cpu_pc := exception_vector_address msr vector\<rparr>)"

definition ppc_program_exception :: "'e CPUState \<Rightarrow> u32 \<Rightarrow> u32 \<Rightarrow> 'e CPUState" where
  "ppc_program_exception cpu cause cia =
     ppc_take_exception (cpu\<lparr>cpu_program_exception := cpu_program_exception cpu OR cause\<rparr>)
       PPC_EXC_PROGRAM PPC_VECTOR_PROGRAM cia cause"

text \<open>The global \<open>g_ppc_lazy_fp_enabled\<close> is an argument; \<open>ppc_lazy_fp_set_enabled\<close> sets it.\<close>

definition ppc_fp_available :: "bool \<Rightarrow> 'e CPUState \<Rightarrow> u32 \<Rightarrow> bool \<times> 'e CPUState" where
  "ppc_fp_available lazy_fp_enabled cpu cia =
     (if \<not> lazy_fp_enabled \<or> flag_set (cpu_msr cpu) PPC_MSR_FP then (True, cpu)
      else (False, ppc_take_exception cpu PPC_EXC_FP_UNAVAILABLE PPC_VECTOR_FP_UNAVAILABLE cia 0))"

definition ppc_fallback_instruction :: "'e PPCHost \<Rightarrow> 'e CPUState \<Rightarrow> u32 \<Rightarrow> u32 \<Rightarrow> 'e CPUState" where
  "ppc_fallback_instruction h cpu raw cia =
     (case instruction_fallback h of
        None \<Rightarrow> ppc_program_exception cpu PPC_PROGRAM_ILLEGAL cia
      | Some f \<Rightarrow> f cpu raw cia)"

definition ppc_host_call :: "'e PPCHost \<Rightarrow> 'e CPUState \<Rightarrow> u32 \<Rightarrow> bool \<times> 'e CPUState" where
  "ppc_host_call h cpu address = (case host_call h of None \<Rightarrow> (False, cpu) | Some f \<Rightarrow> f cpu address)"

definition ppc_system_call_exception :: "'e CPUState \<Rightarrow> u32 \<Rightarrow> 'e CPUState" where
  "ppc_system_call_exception cpu cia =
     ppc_take_exception cpu PPC_EXC_SYSTEM_CALL PPC_VECTOR_SYSTEM_CALL (cia + 4) 0"

definition ppc_dsi_exception :: "'e CPUState \<Rightarrow> u32 \<Rightarrow> u32 \<Rightarrow> u32 \<Rightarrow> 'e CPUState" where
  "ppc_dsi_exception cpu ea cia dsisr =
     ppc_take_exception (cpu\<lparr>cpu_dar := ea, cpu_dsisr := dsisr\<rparr>) PPC_EXC_DSI PPC_VECTOR_DSI cia 0"

definition ppc_alignment_exception :: "'e CPUState \<Rightarrow> u32 \<Rightarrow> u32 \<Rightarrow> 'e CPUState" where
  "ppc_alignment_exception cpu ea cia =
     ppc_take_exception (cpu\<lparr>cpu_dar := ea\<rparr>) PPC_EXC_ALIGNMENT PPC_VECTOR_ALIGNMENT cia 0"

definition ppc_mftb :: "'e CPUState \<Rightarrow> u16 \<Rightarrow> u32 \<Rightarrow> u32 \<times> 'e CPUState" where
  "ppc_mftb cpu tbr cia =
     (if tbr = 268 then (ucast (cpu_timebase cpu), cpu)
      else if tbr = 269 then (ucast (drop_bit 32 (cpu_timebase cpu)), cpu)
      else (0, ppc_program_exception cpu PPC_PROGRAM_ILLEGAL cia))"

definition ppc_rfi :: "'e CPUState \<Rightarrow> u32 \<Rightarrow> 'e CPUState" where
  "ppc_rfi cpu cia =
     (if flag_set (cpu_msr cpu) PPC_MSR_PR then ppc_program_exception cpu PPC_PROGRAM_PRIV cia
      else let msr = (cpu_msr cpu AND NOT PPC_MSR_RFI_MASK) OR (cpu_srr1 cpu AND PPC_MSR_RFI_MASK)
           in cpu\<lparr>cpu_msr := msr AND NOT PPC_MSR_POW, cpu_pc := cpu_srr0 cpu AND NOT 3\<rparr>)"

definition zero_block :: "'e PPCHost \<Rightarrow> u32 \<Rightarrow> 'e CPUState \<Rightarrow> 'e CPUState" where
  "zero_block h block cpu = fold (\<lambda>i cpu. mem_write32 h cpu (block + of_nat (4 * i)) 0) [0..<8] cpu"

definition ppc_dcbz_l :: "'e PPCHost \<Rightarrow> 'e CPUState \<Rightarrow> u32 \<Rightarrow> u32 \<Rightarrow> 'e CPUState" where
  "ppc_dcbz_l h cpu ea cia =
     (if flag_set (cpu_msr cpu) PPC_MSR_PR then ppc_program_exception cpu PPC_PROGRAM_PRIV cia
      else if cpu_hid2 cpu AND PPC_HID2_LCE = 0 then ppc_program_exception cpu PPC_PROGRAM_ILLEGAL cia
      else let block = ea AND NOT 31;
               slot = unat (drop_bit 5 block AND 511);
               hit = locked_cache_valid cpu ! slot \<and> locked_cache_tag cpu ! slot = block;
               first_hit_error = hit \<and> cpu_hid2 cpu AND PPC_HID2_DCHERR = 0;
               cpu = (if hit
                 then let cpu = cpu\<lparr>cpu_hid2 := cpu_hid2 cpu OR PPC_HID2_DCHERR\<rparr>
                      in if first_hit_error \<and> flag_set (cpu_hid2 cpu) PPC_HID2_DCHEE \<and>
                            flag_set (cpu_msr cpu) PPC_MSR_EE \<and> flag_set (cpu_msr cpu) PPC_MSR_ME
                         then ppc_take_exception cpu PPC_EXC_MACHINE_CHECK PPC_VECTOR_MACHINE_CHECK cia
                                PPC_SRR1_MACHINE_CHECK_DCBZL
                         else cpu
                 else cpu\<lparr>locked_cache_valid := (locked_cache_valid cpu)[slot := True],
                        locked_cache_tag := (locked_cache_tag cpu)[slot := block]\<rparr>)
           in zero_block h block cpu)"

definition ppc_eciwx :: "'e PPCHost \<Rightarrow> 'e CPUState \<Rightarrow> u32 \<Rightarrow> u32 \<Rightarrow> u32 \<times> 'e CPUState" where
  "ppc_eciwx h cpu ea cia =
     (if cpu_ear cpu AND PPC_EAR_ENABLE = 0 then (0, ppc_dsi_exception cpu ea cia PPC_DSI_EAR_DISABLED)
      else if ea AND 3 \<noteq> 0 then (0, ppc_alignment_exception cpu ea cia)
      else let rid = ucast (cpu_ear cpu AND 0xF);
               cpu = cpu\<lparr>external_addr := ea, external_rid := rid,
                       external_read_count := external_read_count cpu + 1\<rparr>
           in case external_read32 h of None \<Rightarrow> (0, cpu) | Some f \<Rightarrow> f cpu ea rid)"

definition ppc_ecowx :: "'e PPCHost \<Rightarrow> 'e CPUState \<Rightarrow> u32 \<Rightarrow> u32 \<Rightarrow> u32 \<Rightarrow> 'e CPUState" where
  "ppc_ecowx h cpu ea value cia =
     (if cpu_ear cpu AND PPC_EAR_ENABLE = 0 then ppc_dsi_exception cpu ea cia PPC_DSI_EAR_DISABLED
      else if ea AND 3 \<noteq> 0 then ppc_alignment_exception cpu ea cia
      else let rid = ucast (cpu_ear cpu AND 0xF);
               cpu = cpu\<lparr>external_addr := ea, external_value := value, external_rid := rid,
                       external_write_count := external_write_count cpu + 1\<rparr>
           in case external_write32 h of None \<Rightarrow> cpu | Some f \<Rightarrow> f cpu ea value rid)"

definition ppc_tlbie :: "'e CPUState \<Rightarrow> u32 \<Rightarrow> u32 \<Rightarrow> 'e CPUState" where
  "ppc_tlbie cpu ea cia =
     (if flag_set (cpu_msr cpu) PPC_MSR_PR then ppc_program_exception cpu PPC_PROGRAM_PRIV cia
      else cpu\<lparr>tlb_last_vps := drop_bit 12 ea AND 0xFFFF, tlb_last_index := drop_bit 12 ea AND 0x3F,
             tlb_invalidate_count := tlb_invalidate_count cpu + 1\<rparr>)"

definition ppc_trap_condition :: "u8 \<Rightarrow> u32 \<Rightarrow> u32 \<Rightarrow> bool" where
  "ppc_trap_condition to a b \<longleftrightarrow>
     sint a < sint b \<and> flag_set to 0x10 \<or> sint a > sint b \<and> flag_set to 0x08 \<or>
     sint a = sint b \<and> flag_set to 0x04 \<or> a < b \<and> flag_set to 0x02 \<or> a > b \<and> flag_set to 0x01"

section \<open>Reservations and store string\<close>

definition ppc_lwarx_op :: "'e PPCHost \<Rightarrow> 'e CPUState \<Rightarrow> nat \<Rightarrow> u32 \<Rightarrow> u32 \<Rightarrow> bool \<times> 'e CPUState" where
  "ppc_lwarx_op h cpu d ea cia =
     (if ea AND 3 \<noteq> 0 then (False, ppc_alignment_exception cpu ea cia)
      else case mem_read32 h cpu ea of (v, cpu) \<Rightarrow>
        (True, cpu\<lparr>gpr := (gpr cpu)[d := v], reserve_valid := True, reserve_addr := ea\<rparr>))"

definition ppc_stwcx_op :: "'e PPCHost \<Rightarrow> 'e CPUState \<Rightarrow> nat \<Rightarrow> u32 \<Rightarrow> u32 \<Rightarrow> 'e CPUState" where
  "ppc_stwcx_op h cpu s ea cia =
     (if ea AND 3 \<noteq> 0 then ppc_alignment_exception cpu ea cia
      else let so_bit = drop_bit 31 (cpu_xer cpu) AND 1
      in if reserve_valid cpu \<and> ea = reserve_addr cpu
         then let cpu = mem_write32 h cpu ea (gpr cpu ! s)
              in cpu\<lparr>reserve_valid := False,
                   cpu_cr := (cpu_cr cpu AND 0x0FFFFFFF) OR push_bit 28 (2 OR so_bit)\<rparr>
         else cpu\<lparr>cpu_cr := (cpu_cr cpu AND 0x0FFFFFFF) OR push_bit 28 so_bit\<rparr>)"

text \<open>The word loop of \<open>ppc_stsw\<close>: state is (cpu, current value, address, remaining, register).\<close>

function stsw_loop ::
  "'e PPCHost \<Rightarrow> nat \<Rightarrow> 'e CPUState \<Rightarrow> u64 \<Rightarrow> u32 \<Rightarrow> u32 \<Rightarrow> nat \<Rightarrow> 'e CPUState \<times> u64 \<times> u32 \<times> u32 \<times> nat" where
  "stsw_loop h misalignment_bits cpu cur addr n r =
     (if n < 4 then (cpu, cur, addr, n, r)
      else let cur = cur OR ucast (gpr cpu ! r);
               cpu = mem_write32 h cpu addr (ucast (drop_bit misalignment_bits cur))
           in stsw_loop h misalignment_bits cpu (push_bit 32 cur) (addr + 4) (n - 4) ((r + 1) mod 32))"
  by pat_completeness auto

termination
proof (relation "measure (\<lambda>(h, mb, cpu, cur, addr, n, r). unat n)")
  fix n :: u32 assume "\<not> n < 4"
  then have "4 \<le> n" by simp
  then have "unat (n - 4) = unat n - 4" "4 \<le> unat n" by (simp_all add: unat_sub word_le_nat_alt)
  then show "((h, mb, c, push_bit 32 x, addr + 4, n - 4, s), h, mb, cpu, cur, addr, n, r)
      \<in> measure (\<lambda>(h, mb, cpu, cur, addr, n, r). unat n)" for h :: "'e PPCHost" and mb c x addr s cpu cur r
    by simp
qed simp

declare stsw_loop.simps [simp del]

definition ppc_stsw :: "'e PPCHost \<Rightarrow> 'e CPUState \<Rightarrow> u32 \<Rightarrow> u32 \<Rightarrow> nat \<Rightarrow> u32 \<Rightarrow> 'e CPUState" where
  "ppc_stsw h cpu ea n r cia =
     (if flag_set (cpu_msr cpu) PPC_MSR_LE then ppc_alignment_exception cpu ea cia
      else if n = 0 then cpu
      else let misalignment_bytes = ea AND 3;
               misalignment_bits = unat misalignment_bytes * 8;
               current_address = ea AND NOT 3;
               (cur, cpu, n) = (if misalignment_bytes \<noteq> 0
                 then case mem_read32 h cpu current_address of (w, cpu) \<Rightarrow>
                   (push_bit misalignment_bits (ucast w) AND 0xFFFFFFFF00000000, cpu, n + misalignment_bytes)
                 else (0, cpu, n));
               (cpu, cur, addr, n, r) = stsw_loop h misalignment_bits cpu cur current_address n r
           in if n = 0 then cpu
              else let cur = (if misalignment_bytes < n
                       then push_bit (unat (n - misalignment_bytes) * 8) (cur OR ucast (gpr cpu ! r))
                       else drop_bit (unat (misalignment_bytes - n) * 8) cur);
                       cur = cur AND 0xFFFFFFFF00000000
                   in case mem_read32 h cpu addr of (w, cpu) \<Rightarrow>
                        mem_write32 h cpu addr (ucast (drop_bit (unat n * 8)
                          (cur OR (push_bit (unat n * 8) (ucast w) AND 0xFFFFFFFF)))))"

section \<open>FPSCR\<close>

abbreviation FPSCR_FX_BIT :: u32 where "FPSCR_FX_BIT \<equiv> 0x80000000"
abbreviation FPSCR_FEX_BIT :: u32 where "FPSCR_FEX_BIT \<equiv> 0x40000000"
abbreviation FPSCR_VX_BIT :: u32 where "FPSCR_VX_BIT \<equiv> 0x20000000"
abbreviation FPSCR_FR_BIT :: u32 where "FPSCR_FR_BIT \<equiv> 0x00040000"
abbreviation FPSCR_FI_BIT :: u32 where "FPSCR_FI_BIT \<equiv> 0x00020000"
abbreviation FPSCR_VX_ANY_MASK :: u32 where "FPSCR_VX_ANY_MASK \<equiv> 0x01F80700"
abbreviation FPSCR_ANY_X_MASK :: u32 where "FPSCR_ANY_X_MASK \<equiv> 0x1FF80700"

definition fpscr_updated :: "u32 \<Rightarrow> u32" where
  "fpscr_updated fpscr =
     (let fpscr = (fpscr AND NOT FPSCR_VX_BIT) OR (if flag_set fpscr FPSCR_VX_ANY_MASK then FPSCR_VX_BIT else 0)
      in (fpscr AND NOT FPSCR_FEX_BIT) OR
         (if (drop_bit 22 fpscr AND fpscr) AND 0xF8 \<noteq> 0 then FPSCR_FEX_BIT else 0))"

definition ppc_fpscr_updated :: "'e CPUState \<Rightarrow> 'e CPUState" where
  "ppc_fpscr_updated cpu = cpu\<lparr>cpu_fpscr := fpscr_updated (cpu_fpscr cpu)\<rparr>"

definition set_fp_exception :: "'e CPUState \<Rightarrow> u32 \<Rightarrow> 'e CPUState" where
  "set_fp_exception cpu b =
     (let fpscr = (if cpu_fpscr cpu AND b \<noteq> b then cpu_fpscr cpu OR FPSCR_FX_BIT else cpu_fpscr cpu)
      in ppc_fpscr_updated (cpu\<lparr>cpu_fpscr := fpscr OR b\<rparr>))"

definition clear_fifr :: "'e CPUState \<Rightarrow> 'e CPUState" where
  "clear_fifr cpu = cpu\<lparr>cpu_fpscr := cpu_fpscr cpu AND NOT (FPSCR_FI_BIT OR FPSCR_FR_BIT)\<rparr>"

definition set_fprf :: "'e CPUState \<Rightarrow> u32 \<Rightarrow> 'e CPUState" where
  "set_fprf cpu value =
     cpu\<lparr>cpu_fpscr := (cpu_fpscr cpu AND NOT (push_bit 12 0x1F)) OR push_bit 12 (value AND 0x1F)\<rparr>"

definition ppc_mtfsb0_op :: "'e CPUState \<Rightarrow> nat \<Rightarrow> 'e CPUState" where
  "ppc_mtfsb0_op cpu b =
     ppc_fpscr_updated (cpu\<lparr>cpu_fpscr := cpu_fpscr cpu AND NOT (drop_bit b 0x80000000)\<rparr>)"

definition ppc_mtfsb1_op :: "'e CPUState \<Rightarrow> nat \<Rightarrow> 'e CPUState" where
  "ppc_mtfsb1_op cpu b =
     (let m = drop_bit b 0x80000000
      in ppc_fpscr_updated (if flag_set m FPSCR_ANY_X_MASK then set_fp_exception cpu m
           else cpu\<lparr>cpu_fpscr := cpu_fpscr cpu OR m\<rparr>))"

definition is_snan :: "u64 \<Rightarrow> bool" where
  "is_snan bits \<longleftrightarrow> (let fraction = bits AND 0x000FFFFFFFFFFFFF
     in bits AND 0x7FF0000000000000 = 0x7FF0000000000000 \<and> fraction \<noteq> 0 \<and>
        fraction AND 0x0008000000000000 = 0)"

definition classify_f64 :: "u64 \<Rightarrow> u32" where
  "classify_f64 bits =
     (let sign = drop_bit 63 bits; ex = bits AND 0x7FF0000000000000; fraction = bits AND 0x000FFFFFFFFFFFFF
      in if ex = 0x7FF0000000000000
         then (if fraction \<noteq> 0 then 0x11 else if sign \<noteq> 0 then 0x09 else 0x05)
         else if ex = 0
         then (if fraction \<noteq> 0 then (if sign \<noteq> 0 then 0x18 else 0x14) else if sign \<noteq> 0 then 0x12 else 0x02)
         else if sign \<noteq> 0 then 0x08 else 0x04)"

definition classify_f32 :: "u32 \<Rightarrow> u32" where
  "classify_f32 bits =
     (let sign = drop_bit 31 bits; ex = bits AND 0x7F800000; fraction = bits AND 0x007FFFFF
      in if ex = 0x7F800000
         then (if fraction \<noteq> 0 then 0x11 else if sign \<noteq> 0 then 0x09 else 0x05)
         else if ex = 0
         then (if fraction \<noteq> 0 then (if sign \<noteq> 0 then 0x18 else 0x14) else if sign \<noteq> 0 then 0x12 else 0x02)
         else if sign \<noteq> 0 then 0x08 else 0x04)"

section \<open>Floating loads and stores\<close>

text \<open>The result is \<open>None\<close> only if the normalisation loop of \<open>convert_to_double\<close> did not return.\<close>

definition ppc_lfs_op :: "'e PPCHost \<Rightarrow> 'e CPUState \<Rightarrow> nat \<Rightarrow> u32 \<Rightarrow> u32 \<Rightarrow> (bool \<times> 'e CPUState) option" where
  "ppc_lfs_op h cpu d ea cia =
     (if ea AND 3 \<noteq> 0 then Some (False, ppc_alignment_exception cpu ea cia)
      else case mem_read32 h cpu ea of (w, cpu) \<Rightarrow>
        (case convert_to_double w of
           None \<Rightarrow> None
         | Some v \<Rightarrow> Some (True, cpu\<lparr>fpr := (fpr cpu)[d := v], ps1 := (ps1 cpu)[d := v]\<rparr>)))"

definition ppc_lfd_op :: "'e PPCHost \<Rightarrow> 'e CPUState \<Rightarrow> nat \<Rightarrow> u32 \<Rightarrow> u32 \<Rightarrow> bool \<times> 'e CPUState" where
  "ppc_lfd_op h cpu d ea cia =
     (if ea AND 3 \<noteq> 0 then (False, ppc_alignment_exception cpu ea cia)
      else case mem_read64 h cpu ea of (v, cpu) \<Rightarrow> (True, cpu\<lparr>fpr := (fpr cpu)[d := v]\<rparr>))"

definition ppc_stfs_op :: "'e PPCHost \<Rightarrow> 'e CPUState \<Rightarrow> nat \<Rightarrow> u32 \<Rightarrow> u32 \<Rightarrow> bool \<times> 'e CPUState" where
  "ppc_stfs_op h cpu s ea cia =
     (if ea AND 3 \<noteq> 0 then (False, ppc_alignment_exception cpu ea cia)
      else (True, mem_write32 h cpu ea (convert_to_single (fpr cpu ! s))))"

definition ppc_stfd_op :: "'e PPCHost \<Rightarrow> 'e CPUState \<Rightarrow> nat \<Rightarrow> u32 \<Rightarrow> u32 \<Rightarrow> bool \<times> 'e CPUState" where
  "ppc_stfd_op h cpu s ea cia =
     (if ea AND 3 \<noteq> 0 then (False, ppc_alignment_exception cpu ea cia)
      else (True, mem_write64 h cpu ea (fpr cpu ! s)))"

section \<open>Exception entry and return\<close>

lemma exception_msr_flags:
  "exception_msr m e AND PPC_MSR_PR = 0" "exception_msr m e AND PPC_MSR_EE = 0"
  "exception_msr m e AND NOT PPC_MSR_RFI_MASK = m AND NOT PPC_MSR_RFI_MASK AND NOT PPC_MSR_POW"
  "exception_msr m e AND PPC_MSR_IP = m AND PPC_MSR_IP"
  by (simp_all add: exception_msr_def Let_def mask_simps)

lemma rfi_msr:
  assumes "info AND PPC_MSR_RFI_MASK = 0"
  shows "((e AND NOT PPC_MSR_RFI_MASK) OR (((m AND PPC_MSR_RFI_MASK) OR info) AND PPC_MSR_RFI_MASK)) =
    (e AND NOT PPC_MSR_RFI_MASK) OR (m AND PPC_MSR_RFI_MASK)"
  using assms by (simp add: mask_simps)

lemma restore_by_mask: "((m AND NOT k AND NOT p) OR (m AND k)) AND NOT p = m AND NOT p" for m k p :: u32
  by (rule bit_word_eqI) (auto simp: bit_simps)

text \<open>C23: an exception puts the CPU in supervisor mode with external interrupts off, at its
  vector, and \<open>rfi\<close> undoes it: from the handler it is never refused, resumes at the saved address
  (word aligned) and restores the interrupted MSR, except that the power-saving bit comes back
  clear; registers and memory are untouched by the pair.\<close>

theorem exception_rfi_roundtrip:
  assumes "info AND PPC_MSR_RFI_MASK = 0"
  shows "let c1 = ppc_take_exception cpu exc vector srr0 info; c2 = ppc_rfi c1 cia in
    \<not> flag_set (cpu_msr c1) PPC_MSR_PR \<and> \<not> flag_set (cpu_msr c1) PPC_MSR_EE \<and>
    cpu_pc c1 = (if flag_set (cpu_msr cpu) PPC_MSR_IP then 0xFFF00000 + vector else vector) \<and>
    cpu_pc c2 = srr0 AND NOT 3 \<and> cpu_msr c2 = cpu_msr cpu AND NOT PPC_MSR_POW \<and>
    gpr c2 = gpr cpu \<and> fpr c2 = fpr cpu \<and> cpu_ram c2 = cpu_ram cpu \<and> cpu_exram c2 = cpu_exram cpu"
proof -
  let ?m = "cpu_msr cpu" and ?e = "exception_msr (cpu_msr cpu) exc"
  have pr: "?e AND PPC_MSR_PR = 0" and ee: "?e AND PPC_MSR_EE = 0" by (simp_all only: exception_msr_flags)
  have "((?e AND NOT PPC_MSR_RFI_MASK) OR (((?m AND PPC_MSR_RFI_MASK) OR info) AND PPC_MSR_RFI_MASK)) AND NOT PPC_MSR_POW
      = ?m AND NOT PPC_MSR_POW"
    unfolding rfi_msr[OF assms] unfolding exception_msr_flags(3) by (rule restore_by_mask)
  moreover have "exception_vector_address ?e vector =
      (if flag_set ?m PPC_MSR_IP then 0xFFF00000 + vector else vector)"
    unfolding exception_vector_address_def exception_msr_flags(4) by simp
  ultimately show ?thesis
    using pr ee by (simp add: ppc_take_exception_def ppc_rfi_def Let_def)
qed

theorem exception_rfi_roundtrip_witness:
  "cpu_msr (ppc_rfi (ppc_take_exception ((cpu_init ())\<lparr>cpu_msr := 0xD032\<rparr>) PPC_EXC_PROGRAM
     PPC_VECTOR_PROGRAM 0x80003100 PPC_PROGRAM_ILLEGAL) 0) = 0xD032"
proof -
  have "PPC_PROGRAM_ILLEGAL AND PPC_MSR_RFI_MASK = 0" by simp
  from exception_rfi_roundtrip[OF this, of "(cpu_init ())\<lparr>cpu_msr := 0xD032\<rparr>"] show ?thesis
    by (simp add: Let_def)
qed

text \<open>In user mode \<open>rfi\<close>, \<open>tlbie\<close> and \<open>dcbz_l\<close> all take the privileged-instruction program
  exception at their own address and do nothing else: no memory, cache-tag, HID2 or TLB effect.\<close>

theorem privileged_in_user_mode:
  assumes "flag_set (cpu_msr cpu) PPC_MSR_PR"
    and "c \<in> {ppc_rfi cpu cia, ppc_tlbie cpu ea cia, ppc_dcbz_l h cpu ea cia}"
  shows "cpu_srr0 c = cia \<and> flag_set (cpu_srr1 c) PPC_PROGRAM_PRIV \<and> flag_set (cpu_srr1 c) PPC_MSR_PR \<and>
    flag_set (cpu_exception c) PPC_EXC_PROGRAM \<and> \<not> flag_set (cpu_msr c) PPC_MSR_PR \<and>
    cpu_ram c = cpu_ram cpu \<and> cpu_exram c = cpu_exram cpu \<and> cpu_hid2 c = cpu_hid2 cpu \<and>
    locked_cache_tag c = locked_cache_tag cpu \<and> locked_cache_valid c = locked_cache_valid cpu \<and>
    tlb_invalidate_count c = tlb_invalidate_count cpu \<and> external_user_data c = external_user_data cpu"
proof -
  have c: "c = ppc_program_exception cpu PPC_PROGRAM_PRIV cia"
    using assms by (auto simp: ppc_rfi_def ppc_tlbie_def ppc_dcbz_l_def)
  have "flag_set ((m AND PPC_MSR_RFI_MASK) OR PPC_PROGRAM_PRIV) PPC_PROGRAM_PRIV" for m :: u32
    by (simp add: mask_simps)
  moreover have "((m AND PPC_MSR_RFI_MASK) OR PPC_PROGRAM_PRIV) AND PPC_MSR_PR = m AND PPC_MSR_PR" for m :: u32
    by (simp add: mask_simps)
  moreover have "flag_set (x OR PPC_EXC_PROGRAM) PPC_EXC_PROGRAM" for x :: u32 by (simp add: mask_simps)
  ultimately show ?thesis
    using assms(1) unfolding c
    by (simp add: ppc_program_exception_def ppc_take_exception_def Let_def exception_msr_flags)
qed

theorem privileged_in_user_mode_witness:
  "cpu_srr0 (ppc_tlbie ((cpu_init ())\<lparr>cpu_msr := 0x4000\<rparr>) 0x80000000 0x80003100) = 0x80003100"
  using privileged_in_user_mode[of "(cpu_init ())\<lparr>cpu_msr := 0x4000\<rparr>" _ "0x80003100" "0x80000000" no_host]
  by simp

section \<open>Integer overflow\<close>

text \<open>The sign test of \<open>ppc_add_overflowed\<close> on the 32-bit sum, with or without a carry in,
  decides exactly whether the mathematical sum of the signed operands leaves the 32-bit range.\<close>

lemma add_overflowed_bits:
  "ppc_add_overflowed a b r \<longleftrightarrow> (sint a < 0) \<noteq> (sint r < 0) \<and> (sint b < 0) \<noteq> (sint r < 0)"
proof -
  have "drop_bit 31 w = (if bit w 31 then 1 else 0)" for w :: u32
  proof (rule bit_word_eqI)
    fix n assume "n < LENGTH(32)"
    show "bit (drop_bit 31 w) n = bit (if bit w 31 then 1 else 0 :: u32) n"
      using bit_imp_le_length[of w "31 + n"] by (cases n) (auto simp: bit_drop_bit_eq bit_1_iff)
  qed
  then have top: "drop_bit 31 w \<noteq> 0 \<longleftrightarrow> bit w 31" for w :: u32 by simp
  have "bit x 31 \<longleftrightarrow> sint x < 0" for x :: u32 using bit_last_iff[of x] by simp
  then show ?thesis unfolding ppc_add_overflowed_def top bit_and_iff bit_xor_iff by blast
qed

lemma sint_range_u32: "- (2 ^ 31) \<le> sint x" "sint x < 2 ^ 31" for x :: u32
  using sint_ge[of x] sint_lt[of x] by simp_all

lemma add_overflowed_carry:
  assumes s: "s = sint a + sint b + k" and c: "0 \<le> k" "k \<le> 1" and r: "r = word_of_int s"
  shows "ppc_add_overflowed a b r \<longleftrightarrow> \<not> (- (2 ^ 31) \<le> s \<and> s < 2 ^ 31)"
proof -
  have r': "sint r = signed_take_bit 31 s" by (simp add: r signed_of_int)
  note bounds = c sint_range_u32[of a] sint_range_u32[of b] s
  consider (fits) "- (2 ^ 31) \<le> s" "s < 2 ^ 31" | (high) "2 ^ 31 \<le> s" | (low) "s < - (2 ^ 31)" by linarith
  then show ?thesis
  proof cases
    case fits
    then have "sint r = s" unfolding r' by (simp add: signed_take_bit_int_eq_self)
    then have "\<not> ((sint a < 0) \<noteq> (sint r < 0) \<and> (sint b < 0) \<noteq> (sint r < 0))" using bounds by linarith
    then show ?thesis unfolding add_overflowed_bits using fits by blast
  next
    case high
    then have "sint r \<le> s - 2 ^ 32" unfolding r' using signed_take_bit_int_less_eq[of 31 s] by simp
    then have "sint r < 0" "\<not> sint a < 0" "\<not> sint b < 0" using bounds high by simp_all
    then show ?thesis unfolding add_overflowed_bits using high by simp
  next
    case low
    then have "s + 2 ^ 32 \<le> sint r" unfolding r' using signed_take_bit_int_greater_eq[of s 31] by simp
    then have "\<not> sint r < 0" "sint a < 0" "sint b < 0" using bounds low by simp_all
    then show ?thesis unfolding add_overflowed_bits using low by simp
  qed
qed

theorem add_overflow_exact:
  "ppc_add_overflowed a b (a + b) \<longleftrightarrow> sint a + sint b \<noteq> sint (a + b)"
proof -
  have "sint (a + b) = signed_take_bit 31 (sint a + sint b)" by (simp add: sint_word_add)
  moreover have "- (2 ^ 31) \<le> s \<and> s < 2 ^ 31 \<longleftrightarrow> s = signed_take_bit 31 s" for s :: int
    using signed_take_bit_int_eq_self_iff[of 31 s] by auto
  ultimately show ?thesis using add_overflowed_carry[of "sint a + sint b" a b 0 "a + b"] by (auto simp: add.commute)
qed

section \<open>Reservations\<close>

lemma ram_store_frame [simp]:
  "reserve_valid (ram_store cpu a n v) = reserve_valid cpu" "reserve_addr (ram_store cpu a n v) = reserve_addr cpu"
  "cpu_xer (ram_store cpu a n v) = cpu_xer cpu" "gpr (ram_store cpu a n v) = gpr cpu"
  "cpu_cr (ram_store cpu a n v) = cpu_cr cpu" "fpr (ram_store cpu a n v) = fpr cpu"
  by (auto simp: ram_store_def split: option.splits ram_ptr.splits) (case_tac x2; simp)+

abbreviation cr0_eq :: "'e CPUState \<Rightarrow> bool" where
  "cr0_eq cpu \<equiv> flag_set (cpu_cr cpu) 0x20000000"

lemma cr0_bits:
  "flag_set ((c AND 0x0FFFFFFF) OR push_bit 28 (2 OR (x AND 1))) 0x20000000"
  "\<not> flag_set ((c AND 0x0FFFFFFF) OR push_bit 28 (x AND 1)) 0x20000000" for c x :: u32
proof -
  have "bit (push_bit 28 (x AND 1)) 29 = False" "bit (push_bit 28 (2 OR (x AND 1)) :: u32) 29"
    by (simp_all add: bit_simps)
  moreover have f: "flag_set w 0x20000000 \<longleftrightarrow> bit w 29" for w :: u32
    using and_exp_eq_0_iff_not_bit[of w 29] by simp
  moreover have "\<not> bit (c AND 0x0FFFFFFF) 29" using f[of "c AND 0x0FFFFFFF"] by (simp add: mask_simps)
  ultimately show "flag_set ((c AND 0x0FFFFFFF) OR push_bit 28 (2 OR (x AND 1))) 0x20000000"
    "\<not> flag_set ((c AND 0x0FFFFFFF) OR push_bit 28 (x AND 1)) 0x20000000"
    unfolding f by (simp_all add: bit_or_iff)
qed

text \<open>\<open>lwarx\<close>/\<open>stwcx.\<close> is a compare-free atomic pair: a store-conditional to the reserved word
  succeeds, sets CR0[EQ] and writes the register; repeating it, or addressing another word,
  fails, clears CR0[EQ] and leaves memory as it was.\<close>

theorem reservation_pair:
  assumes "ea AND 3 = 0" and "ea2 AND 3 = 0" and "ea2 \<noteq> ea" and "ram_hit cpu ea 4"
  shows "let c1 = snd (ppc_lwarx_op h cpu d ea cia);
      ok = ppc_stwcx_op h c1 s ea cia;
      again = ppc_stwcx_op h ok s2 ea cia;
      other = ppc_stwcx_op h c1 s ea2 cia
    in cr0_eq ok \<and> fst (mem_read32 h ok ea) = gpr c1 ! s \<and>
       \<not> cr0_eq again \<and> cpu_ram again = cpu_ram ok \<and> cpu_exram again = cpu_exram ok \<and>
       \<not> cr0_eq other \<and> cpu_ram other = cpu_ram cpu \<and> cpu_exram other = cpu_exram cpu"
proof -
  let ?c1 = "cpu\<lparr>gpr := (gpr cpu)[d := ucast (ram_load cpu ea 4)], reserve_valid := True, reserve_addr := ea\<rparr>"
  have c1: "snd (ppc_lwarx_op h cpu d ea cia) = ?c1"
    using assms by (simp add: ppc_lwarx_op_def mem_read_hit)
  have hit: "ram_hit ?c1 ea 4" using assms(4) ram_hit_cong[of ?c1 cpu ea 4] by simp
  let ?m = "ram_store ?c1 ea 4 (ucast (gpr ?c1 ! s))"
  let ?ok = "?m\<lparr>reserve_valid := False, cpu_cr := (cpu_cr ?m AND 0x0FFFFFFF) OR push_bit 28 (2 OR (drop_bit 31 (cpu_xer ?c1) AND 1))\<rparr>"
  have ok: "ppc_stwcx_op h ?c1 s ea cia = ?ok"
    using assms(1) by (simp add: ppc_stwcx_op_def Let_def mem_write_hit(2)[OF hit])
  have hit2: "ram_hit ?ok ea 4"
    using hit ram_hit_store[of ?c1 ea 4 "ucast (gpr ?c1 ! s)" ea 4] ram_hit_cong[of ?ok ?m ea 4] by simp
  have same: "ram_load ?ok ea 4 = ram_load ?m ea 4" by (rule ram_load_cong) simp_all
  have "fst (mem_read32 h ?ok ea) = gpr ?c1 ! s"
    unfolding mem_read_hit(2)[OF hit2] same ram_load_store_same[OF hit]
    by simp (rule bit_word_eqI, auto simp: bit_simps)
  moreover have "cr0_eq ?ok" using cr0_bits(1) by simp
  moreover have "\<not> cr0_eq (ppc_stwcx_op h ?ok s2 ea cia)" "cpu_ram (ppc_stwcx_op h ?ok s2 ea cia) = cpu_ram ?ok"
    "cpu_exram (ppc_stwcx_op h ?ok s2 ea cia) = cpu_exram ?ok"
    using assms(1) cr0_bits(2) by (simp_all add: ppc_stwcx_op_def Let_def)
  moreover have "\<not> cr0_eq (ppc_stwcx_op h ?c1 s ea2 cia)" "cpu_ram (ppc_stwcx_op h ?c1 s ea2 cia) = cpu_ram cpu"
    "cpu_exram (ppc_stwcx_op h ?c1 s ea2 cia) = cpu_exram cpu"
    using assms(2,3) cr0_bits(2) by (simp_all add: ppc_stwcx_op_def Let_def)
  ultimately show ?thesis unfolding Let_def c1 ok by blast
qed

theorem reservation_pair_witness:
  "let c1 = snd (ppc_lwarx_op no_host (cpu_init ()) 3 0x80000100 0);
      ok = ppc_stwcx_op no_host c1 3 0x80000100 0
    in cr0_eq ok \<and> \<not> cr0_eq (ppc_stwcx_op no_host c1 3 0x80000104 0)"
proof -
  have "(0x80000100 :: u32) AND 3 = 0" "(0x80000104 :: u32) AND 3 = 0" "(0x80000104 :: u32) \<noteq> 0x80000100"
    "ram_hit (cpu_init ()) 0x80000100 4"
    by (simp_all add: ram_hit_def get_ram_ptr_def cpu_init_def cpu_zero_def)
  from reservation_pair[OF this, where h = no_host and d = 3 and cia = 0 and s = 3 and ?s2.0 = 3]
  show ?thesis by (simp add: Let_def)
qed

section \<open>FPSCR summary bits\<close>

definition fpscr_summary_ok :: "u32 \<Rightarrow> bool" where
  "fpscr_summary_ok x \<longleftrightarrow> (flag_set x FPSCR_VX_BIT \<longleftrightarrow> flag_set x FPSCR_VX_ANY_MASK) \<and>
     (flag_set x FPSCR_FEX_BIT \<longleftrightarrow> (drop_bit 22 x AND x) AND 0xF8 \<noteq> 0)"

lemma drop_and_bits:
  "(drop_bit 22 x AND x) AND 0xF8 \<noteq> 0 \<longleftrightarrow>
     (bit x 25 \<and> bit x 3) \<or> (bit x 26 \<and> bit x 4) \<or> (bit x 27 \<and> bit x 5) \<or> (bit x 28 \<and> bit x 6) \<or>
     (bit x 29 \<and> bit x 7)" for x :: u32
proof -
  have m: "(0xF8 :: u32) = 8 OR 16 OR 32 OR 64 OR 128" by simp
  have b: "flag_set w (2 ^ k) \<longleftrightarrow> bit w k" for w :: u32 and k
    using and_exp_eq_0_iff_not_bit[of w k] by simp
  show ?thesis
    unfolding m flag_set_or_mask
    using b[of "drop_bit 22 x AND x" 3] b[of "drop_bit 22 x AND x" 4] b[of "drop_bit 22 x AND x" 5]
      b[of "drop_bit 22 x AND x" 6] b[of "drop_bit 22 x AND x" 7]
    by (simp add: bit_and_iff bit_drop_bit_eq)
qed

lemma fex_bit_irrelevant:
  "(drop_bit 22 ((x AND NOT FPSCR_FEX_BIT) OR (if b then FPSCR_FEX_BIT else 0)) AND
     ((x AND NOT FPSCR_FEX_BIT) OR (if b then FPSCR_FEX_BIT else 0))) AND 0xF8 \<noteq> 0 \<longleftrightarrow>
   (drop_bit 22 x AND x) AND 0xF8 \<noteq> 0"
proof -
  have f: "(FPSCR_FEX_BIT :: u32) = push_bit 30 1" by simp
  have "bit ((x AND NOT FPSCR_FEX_BIT) OR (if b then FPSCR_FEX_BIT else 0)) k = bit x k" if "k \<noteq> 30" "k < 32" for k
    unfolding f using that by (auto simp: bit_or_iff bit_and_iff bit_not_iff bit_push_bit_iff bit_1_iff simp del: push_bit_of_1)
  then show ?thesis unfolding drop_and_bits by simp
qed

lemma fpscr_updated_ok: "fpscr_summary_ok (fpscr_updated x)"
proof -
  define x1 where "x1 = (x AND NOT FPSCR_VX_BIT) OR (if flag_set x FPSCR_VX_ANY_MASK then FPSCR_VX_BIT else 0)"
  define b where "b \<longleftrightarrow> (drop_bit 22 x1 AND x1) AND 0xF8 \<noteq> 0"
  have u: "fpscr_updated x = (x1 AND NOT FPSCR_FEX_BIT) OR (if b then FPSCR_FEX_BIT else 0)"
    unfolding fpscr_updated_def Let_def x1_def[symmetric] b_def ..
  have v: "flag_set x1 FPSCR_VX_BIT \<longleftrightarrow> flag_set x1 FPSCR_VX_ANY_MASK"
    unfolding x1_def by (simp add: mask_simps)
  have keep: "((x1 AND NOT FPSCR_FEX_BIT) OR (if b then FPSCR_FEX_BIT else 0)) AND FPSCR_VX_BIT = x1 AND FPSCR_VX_BIT"
    "((x1 AND NOT FPSCR_FEX_BIT) OR (if b then FPSCR_FEX_BIT else 0)) AND FPSCR_VX_ANY_MASK = x1 AND FPSCR_VX_ANY_MASK"
    "flag_set ((x1 AND NOT FPSCR_FEX_BIT) OR (if b then FPSCR_FEX_BIT else 0)) FPSCR_FEX_BIT = b"
    by (simp_all add: mask_simps)
  show ?thesis
    unfolding fpscr_summary_ok_def u keep fex_bit_irrelevant b_def[symmetric] using v by simp
qed

datatype fpscr_op = MtFsb0 nat | MtFsb1 nat | SetFpException u32

primrec fpscr_apply :: "fpscr_op \<Rightarrow> 'e CPUState \<Rightarrow> 'e CPUState" where
  "fpscr_apply (MtFsb0 b) cpu = ppc_mtfsb0_op cpu b"
| "fpscr_apply (MtFsb1 b) cpu = ppc_mtfsb1_op cpu b"
| "fpscr_apply (SetFpException b) cpu = set_fp_exception cpu b"

lemma fpscr_apply_ok: "fpscr_summary_ok (cpu_fpscr (fpscr_apply opn cpu))"
  by (cases opn) (simp_all add: ppc_mtfsb0_op_def ppc_mtfsb1_op_def set_fp_exception_def Let_def
      ppc_fpscr_updated_def fpscr_updated_ok)

text \<open>Whatever sequence of \<open>mtfsb0\<close>, \<open>mtfsb1\<close> and arithmetic exceptions runs, the summary bits
  of the FPSCR are never stale: VX is set exactly when one of the nine invalid-operation causes
  is, and FEX exactly when some exception is both raised and enabled; in particular software
  cannot clear or set either summary bit by itself.\<close>

theorem fpscr_summary_never_stale:
  "let x = cpu_fpscr (fold fpscr_apply ops (cpu_init user)) in
   (flag_set x FPSCR_VX_BIT \<longleftrightarrow> flag_set x FPSCR_VX_ANY_MASK) \<and>
   (flag_set x FPSCR_FEX_BIT \<longleftrightarrow> (drop_bit 22 x AND x) AND 0xF8 \<noteq> 0)"
proof -
  have "fpscr_summary_ok (cpu_fpscr (fold fpscr_apply ops (cpu_init user)))"
  proof (cases ops rule: rev_cases)
    case Nil
    then show ?thesis by (simp add: fpscr_summary_ok_def cpu_init_def cpu_zero_def)
  next
    case (snoc ops' opn)
    then show ?thesis by (simp add: fpscr_apply_ok)
  qed
  then show ?thesis unfolding fpscr_summary_ok_def Let_def .
qed

section \<open>Floating loads and stores\<close>

text \<open>Copying a word with \<open>lfs\<close> and \<open>stfs\<close> copies its 32 bits exactly, whatever they encode,
  and \<open>lfs\<close> always returns; a misaligned address raises the alignment exception with DAR set and
  changes no register of the FPU.\<close>

theorem lfs_stfs_copies_bits:
  assumes "ea AND 3 = 0" and "ea2 AND 3 = 0" and "ea3 AND 3 \<noteq> 0"
    and "ram_hit cpu ea 4" and "ram_hit cpu ea2 4" and "d < length (fpr cpu)"
  shows "\<exists>c1. ppc_lfs_op h cpu d ea cia = Some (True, c1) \<and>
    fst (mem_read32 h (snd (ppc_stfs_op h c1 d ea2 cia)) ea2) = fst (mem_read32 h cpu ea) \<and>
    (\<exists>c2. ppc_lfs_op h cpu d ea3 cia = Some (False, c2) \<and> fpr c2 = fpr cpu \<and> ps1 c2 = ps1 cpu \<and>
       cpu_dar c2 = ea3 \<and> cpu_srr0 c2 = cia)"
proof -
  let ?w = "ucast (ram_load cpu ea 4) :: u32"
  obtain y where y: "convert_to_double ?w = Some y" "convert_to_single y = ?w"
    using single_double_identity[of ?w] by auto
  let ?c1 = "cpu\<lparr>fpr := (fpr cpu)[d := y], ps1 := (ps1 cpu)[d := y]\<rparr>"
  have hit: "ram_hit ?c1 ea2 4" using assms(5) ram_hit_cong[of ?c1 cpu ea2 4] by simp
  have "fst (mem_read32 h (ram_store ?c1 ea2 4 (ucast ?w)) ea2) = ?w"
    using hit by (simp add: mem_read_hit ram_load_store_same) (rule bit_word_eqI, auto simp: bit_simps)
  then have "fst (mem_read32 h (snd (ppc_stfs_op h ?c1 d ea2 cia)) ea2) = fst (mem_read32 h cpu ea)"
    using assms(2,4,6) y(2) by (simp add: ppc_stfs_op_def mem_write_hit(2)[OF hit] mem_read_hit(2)[OF assms(4)])
  moreover have "ppc_lfs_op h cpu d ea cia = Some (True, ?c1)"
    using assms(1,4) y(1) by (simp add: ppc_lfs_op_def mem_read_hit)
  moreover have "\<exists>c2. ppc_lfs_op h cpu d ea3 cia = Some (False, c2) \<and> fpr c2 = fpr cpu \<and> ps1 c2 = ps1 cpu \<and>
       cpu_dar c2 = ea3 \<and> cpu_srr0 c2 = cia"
    using assms(3) by (simp add: ppc_lfs_op_def ppc_alignment_exception_def ppc_take_exception_def Let_def)
  ultimately show ?thesis by blast
qed

theorem lfs_stfs_copies_bits_witness:
  "\<exists>c1. ppc_lfs_op no_host (mem_write32 no_host (cpu_init ()) 0x80000100 0x7FA00001) 5 0x80000100 0 = Some (True, c1) \<and>
    fst (mem_read32 no_host (snd (ppc_stfs_op no_host c1 5 0x80000200 0)) 0x80000200) = 0x7FA00001"
proof -
  let ?c = "mem_write32 no_host (cpu_init ()) 0x80000100 0x7FA00001"
  have hit0: "ram_hit (cpu_init ()) a 4" if "a \<in> {0x80000100, 0x80000200}" for a
    using that by (auto simp: ram_hit_def get_ram_ptr_def cpu_init_def cpu_zero_def)
  have c: "?c = ram_store (cpu_init ()) 0x80000100 4 (ucast (0x7FA00001 :: u32))"
    by (rule mem_write_hit(2)) (simp add: hit0)
  have "ram_hit ?c 0x80000100 4" "ram_hit ?c 0x80000200 4" "5 < length (fpr ?c)"
    unfolding c by (simp_all add: hit0) (simp add: cpu_init_def cpu_zero_def)
  moreover have "fst (mem_read32 no_host ?c 0x80000100) = 0x7FA00001"
    unfolding c by (simp add: mem_read_hit hit0 ram_load_store_same)
  ultimately show ?thesis
    using lfs_stfs_copies_bits[of "0x80000100" "0x80000200" 1 ?c 5 no_host 0] by simp blast
qed

end
