(* ===== verification/PpcOpcode.thy ===== *)
theory PpcOpcode
  imports Prelude
begin

text \<open>
  The opcode enumeration of src/DolRecomp/src/frontend/decoder.h and the mnemonic table of
  decoder.c.  An enumerator is the number C gives it, so the range test of
  \<open>ppc_op_uses_fpu\<close> and the array index of \<open>ppc_op_name\<close> are the
  comparisons and the lookup of the code.
\<close>

section \<open>The enumeration\<close>

type_synonym PPCOpcode = nat

abbreviation PPC_OP_UNKNOWN :: PPCOpcode where "PPC_OP_UNKNOWN \<equiv> 0"
abbreviation PPC_OP_MULLI :: PPCOpcode where "PPC_OP_MULLI \<equiv> 1"
abbreviation PPC_OP_SUBFIC :: PPCOpcode where "PPC_OP_SUBFIC \<equiv> 2"
abbreviation PPC_OP_ADDI :: PPCOpcode where "PPC_OP_ADDI \<equiv> 3"
abbreviation PPC_OP_ADDIC :: PPCOpcode where "PPC_OP_ADDIC \<equiv> 4"
abbreviation PPC_OP_ADDIC_DOT :: PPCOpcode where "PPC_OP_ADDIC_DOT \<equiv> 5"
abbreviation PPC_OP_ADDIS :: PPCOpcode where "PPC_OP_ADDIS \<equiv> 6"
abbreviation PPC_OP_CMPI :: PPCOpcode where "PPC_OP_CMPI \<equiv> 7"
abbreviation PPC_OP_CMPLI :: PPCOpcode where "PPC_OP_CMPLI \<equiv> 8"
abbreviation PPC_OP_ORI :: PPCOpcode where "PPC_OP_ORI \<equiv> 9"
abbreviation PPC_OP_ORIS :: PPCOpcode where "PPC_OP_ORIS \<equiv> 10"
abbreviation PPC_OP_XORI :: PPCOpcode where "PPC_OP_XORI \<equiv> 11"
abbreviation PPC_OP_XORIS :: PPCOpcode where "PPC_OP_XORIS \<equiv> 12"
abbreviation PPC_OP_ANDI :: PPCOpcode where "PPC_OP_ANDI \<equiv> 13"
abbreviation PPC_OP_ANDIS :: PPCOpcode where "PPC_OP_ANDIS \<equiv> 14"
abbreviation PPC_OP_LWZ :: PPCOpcode where "PPC_OP_LWZ \<equiv> 15"
abbreviation PPC_OP_LWZU :: PPCOpcode where "PPC_OP_LWZU \<equiv> 16"
abbreviation PPC_OP_LBZ :: PPCOpcode where "PPC_OP_LBZ \<equiv> 17"
abbreviation PPC_OP_LBZU :: PPCOpcode where "PPC_OP_LBZU \<equiv> 18"
abbreviation PPC_OP_STW :: PPCOpcode where "PPC_OP_STW \<equiv> 19"
abbreviation PPC_OP_STWU :: PPCOpcode where "PPC_OP_STWU \<equiv> 20"
abbreviation PPC_OP_STB :: PPCOpcode where "PPC_OP_STB \<equiv> 21"
abbreviation PPC_OP_STBU :: PPCOpcode where "PPC_OP_STBU \<equiv> 22"
abbreviation PPC_OP_LHZ :: PPCOpcode where "PPC_OP_LHZ \<equiv> 23"
abbreviation PPC_OP_LHZU :: PPCOpcode where "PPC_OP_LHZU \<equiv> 24"
abbreviation PPC_OP_LHA :: PPCOpcode where "PPC_OP_LHA \<equiv> 25"
abbreviation PPC_OP_LHAU :: PPCOpcode where "PPC_OP_LHAU \<equiv> 26"
abbreviation PPC_OP_STH :: PPCOpcode where "PPC_OP_STH \<equiv> 27"
abbreviation PPC_OP_STHU :: PPCOpcode where "PPC_OP_STHU \<equiv> 28"
abbreviation PPC_OP_LMW :: PPCOpcode where "PPC_OP_LMW \<equiv> 29"
abbreviation PPC_OP_STMW :: PPCOpcode where "PPC_OP_STMW \<equiv> 30"
abbreviation PPC_OP_B :: PPCOpcode where "PPC_OP_B \<equiv> 31"
abbreviation PPC_OP_BC :: PPCOpcode where "PPC_OP_BC \<equiv> 32"
abbreviation PPC_OP_BCLR :: PPCOpcode where "PPC_OP_BCLR \<equiv> 33"
abbreviation PPC_OP_BCCTR :: PPCOpcode where "PPC_OP_BCCTR \<equiv> 34"
abbreviation PPC_OP_SC :: PPCOpcode where "PPC_OP_SC \<equiv> 35"
abbreviation PPC_OP_RFI :: PPCOpcode where "PPC_OP_RFI \<equiv> 36"
abbreviation PPC_OP_CRAND :: PPCOpcode where "PPC_OP_CRAND \<equiv> 37"
abbreviation PPC_OP_CRANDC :: PPCOpcode where "PPC_OP_CRANDC \<equiv> 38"
abbreviation PPC_OP_CREQV :: PPCOpcode where "PPC_OP_CREQV \<equiv> 39"
abbreviation PPC_OP_CRNAND :: PPCOpcode where "PPC_OP_CRNAND \<equiv> 40"
abbreviation PPC_OP_CRNOR :: PPCOpcode where "PPC_OP_CRNOR \<equiv> 41"
abbreviation PPC_OP_CROR :: PPCOpcode where "PPC_OP_CROR \<equiv> 42"
abbreviation PPC_OP_CRORC :: PPCOpcode where "PPC_OP_CRORC \<equiv> 43"
abbreviation PPC_OP_CRXOR :: PPCOpcode where "PPC_OP_CRXOR \<equiv> 44"
abbreviation PPC_OP_MCRF :: PPCOpcode where "PPC_OP_MCRF \<equiv> 45"
abbreviation PPC_OP_MFCR :: PPCOpcode where "PPC_OP_MFCR \<equiv> 46"
abbreviation PPC_OP_MTCRF :: PPCOpcode where "PPC_OP_MTCRF \<equiv> 47"
abbreviation PPC_OP_MFSPR :: PPCOpcode where "PPC_OP_MFSPR \<equiv> 48"
abbreviation PPC_OP_MTSPR :: PPCOpcode where "PPC_OP_MTSPR \<equiv> 49"
abbreviation PPC_OP_MFTB :: PPCOpcode where "PPC_OP_MFTB \<equiv> 50"
abbreviation PPC_OP_CMP :: PPCOpcode where "PPC_OP_CMP \<equiv> 51"
abbreviation PPC_OP_CMPL :: PPCOpcode where "PPC_OP_CMPL \<equiv> 52"
abbreviation PPC_OP_TWI :: PPCOpcode where "PPC_OP_TWI \<equiv> 53"
abbreviation PPC_OP_TW :: PPCOpcode where "PPC_OP_TW \<equiv> 54"
abbreviation PPC_OP_ADD :: PPCOpcode where "PPC_OP_ADD \<equiv> 55"
abbreviation PPC_OP_ADDO :: PPCOpcode where "PPC_OP_ADDO \<equiv> 56"
abbreviation PPC_OP_ADDC :: PPCOpcode where "PPC_OP_ADDC \<equiv> 57"
abbreviation PPC_OP_ADDCO :: PPCOpcode where "PPC_OP_ADDCO \<equiv> 58"
abbreviation PPC_OP_ADDE :: PPCOpcode where "PPC_OP_ADDE \<equiv> 59"
abbreviation PPC_OP_ADDEO :: PPCOpcode where "PPC_OP_ADDEO \<equiv> 60"
abbreviation PPC_OP_ADDME :: PPCOpcode where "PPC_OP_ADDME \<equiv> 61"
abbreviation PPC_OP_ADDMEO :: PPCOpcode where "PPC_OP_ADDMEO \<equiv> 62"
abbreviation PPC_OP_ADDZE :: PPCOpcode where "PPC_OP_ADDZE \<equiv> 63"
abbreviation PPC_OP_ADDZEO :: PPCOpcode where "PPC_OP_ADDZEO \<equiv> 64"
abbreviation PPC_OP_SUBF :: PPCOpcode where "PPC_OP_SUBF \<equiv> 65"
abbreviation PPC_OP_SUBFO :: PPCOpcode where "PPC_OP_SUBFO \<equiv> 66"
abbreviation PPC_OP_SUBFC :: PPCOpcode where "PPC_OP_SUBFC \<equiv> 67"
abbreviation PPC_OP_SUBFCO :: PPCOpcode where "PPC_OP_SUBFCO \<equiv> 68"
abbreviation PPC_OP_SUBFE :: PPCOpcode where "PPC_OP_SUBFE \<equiv> 69"
abbreviation PPC_OP_SUBFEO :: PPCOpcode where "PPC_OP_SUBFEO \<equiv> 70"
abbreviation PPC_OP_SUBFME :: PPCOpcode where "PPC_OP_SUBFME \<equiv> 71"
abbreviation PPC_OP_SUBFMEO :: PPCOpcode where "PPC_OP_SUBFMEO \<equiv> 72"
abbreviation PPC_OP_SUBFZE :: PPCOpcode where "PPC_OP_SUBFZE \<equiv> 73"
abbreviation PPC_OP_SUBFZEO :: PPCOpcode where "PPC_OP_SUBFZEO \<equiv> 74"
abbreviation PPC_OP_NEG :: PPCOpcode where "PPC_OP_NEG \<equiv> 75"
abbreviation PPC_OP_NEGO :: PPCOpcode where "PPC_OP_NEGO \<equiv> 76"
abbreviation PPC_OP_AND :: PPCOpcode where "PPC_OP_AND \<equiv> 77"
abbreviation PPC_OP_ANDC :: PPCOpcode where "PPC_OP_ANDC \<equiv> 78"
abbreviation PPC_OP_OR :: PPCOpcode where "PPC_OP_OR \<equiv> 79"
abbreviation PPC_OP_ORC :: PPCOpcode where "PPC_OP_ORC \<equiv> 80"
abbreviation PPC_OP_XOR :: PPCOpcode where "PPC_OP_XOR \<equiv> 81"
abbreviation PPC_OP_NAND :: PPCOpcode where "PPC_OP_NAND \<equiv> 82"
abbreviation PPC_OP_NOR :: PPCOpcode where "PPC_OP_NOR \<equiv> 83"
abbreviation PPC_OP_EQV :: PPCOpcode where "PPC_OP_EQV \<equiv> 84"
abbreviation PPC_OP_CNTLZW :: PPCOpcode where "PPC_OP_CNTLZW \<equiv> 85"
abbreviation PPC_OP_EXTSB :: PPCOpcode where "PPC_OP_EXTSB \<equiv> 86"
abbreviation PPC_OP_EXTSH :: PPCOpcode where "PPC_OP_EXTSH \<equiv> 87"
abbreviation PPC_OP_SLW :: PPCOpcode where "PPC_OP_SLW \<equiv> 88"
abbreviation PPC_OP_SRW :: PPCOpcode where "PPC_OP_SRW \<equiv> 89"
abbreviation PPC_OP_SRAW :: PPCOpcode where "PPC_OP_SRAW \<equiv> 90"
abbreviation PPC_OP_SRAWI :: PPCOpcode where "PPC_OP_SRAWI \<equiv> 91"
abbreviation PPC_OP_RLWINM :: PPCOpcode where "PPC_OP_RLWINM \<equiv> 92"
abbreviation PPC_OP_RLWNM :: PPCOpcode where "PPC_OP_RLWNM \<equiv> 93"
abbreviation PPC_OP_RLWIMI :: PPCOpcode where "PPC_OP_RLWIMI \<equiv> 94"
abbreviation PPC_OP_LWZX :: PPCOpcode where "PPC_OP_LWZX \<equiv> 95"
abbreviation PPC_OP_LWZUX :: PPCOpcode where "PPC_OP_LWZUX \<equiv> 96"
abbreviation PPC_OP_LBZX :: PPCOpcode where "PPC_OP_LBZX \<equiv> 97"
abbreviation PPC_OP_LBZUX :: PPCOpcode where "PPC_OP_LBZUX \<equiv> 98"
abbreviation PPC_OP_LHZX :: PPCOpcode where "PPC_OP_LHZX \<equiv> 99"
abbreviation PPC_OP_LHZUX :: PPCOpcode where "PPC_OP_LHZUX \<equiv> 100"
abbreviation PPC_OP_LHAX :: PPCOpcode where "PPC_OP_LHAX \<equiv> 101"
abbreviation PPC_OP_LHAUX :: PPCOpcode where "PPC_OP_LHAUX \<equiv> 102"
abbreviation PPC_OP_LWBRX :: PPCOpcode where "PPC_OP_LWBRX \<equiv> 103"
abbreviation PPC_OP_LHBRX :: PPCOpcode where "PPC_OP_LHBRX \<equiv> 104"
abbreviation PPC_OP_STWX :: PPCOpcode where "PPC_OP_STWX \<equiv> 105"
abbreviation PPC_OP_STWUX :: PPCOpcode where "PPC_OP_STWUX \<equiv> 106"
abbreviation PPC_OP_STBX :: PPCOpcode where "PPC_OP_STBX \<equiv> 107"
abbreviation PPC_OP_STBUX :: PPCOpcode where "PPC_OP_STBUX \<equiv> 108"
abbreviation PPC_OP_STHX :: PPCOpcode where "PPC_OP_STHX \<equiv> 109"
abbreviation PPC_OP_STHUX :: PPCOpcode where "PPC_OP_STHUX \<equiv> 110"
abbreviation PPC_OP_STWBRX :: PPCOpcode where "PPC_OP_STWBRX \<equiv> 111"
abbreviation PPC_OP_STHBRX :: PPCOpcode where "PPC_OP_STHBRX \<equiv> 112"
abbreviation PPC_OP_LSWI :: PPCOpcode where "PPC_OP_LSWI \<equiv> 113"
abbreviation PPC_OP_LSWX :: PPCOpcode where "PPC_OP_LSWX \<equiv> 114"
abbreviation PPC_OP_STSWI :: PPCOpcode where "PPC_OP_STSWI \<equiv> 115"
abbreviation PPC_OP_STSWX :: PPCOpcode where "PPC_OP_STSWX \<equiv> 116"
abbreviation PPC_OP_LWARX :: PPCOpcode where "PPC_OP_LWARX \<equiv> 117"
abbreviation PPC_OP_STWCX :: PPCOpcode where "PPC_OP_STWCX \<equiv> 118"
abbreviation PPC_OP_STFIWX :: PPCOpcode where "PPC_OP_STFIWX \<equiv> 119"
abbreviation PPC_OP_LFS :: PPCOpcode where "PPC_OP_LFS \<equiv> 120"
abbreviation PPC_OP_LFSU :: PPCOpcode where "PPC_OP_LFSU \<equiv> 121"
abbreviation PPC_OP_LFD :: PPCOpcode where "PPC_OP_LFD \<equiv> 122"
abbreviation PPC_OP_LFDU :: PPCOpcode where "PPC_OP_LFDU \<equiv> 123"
abbreviation PPC_OP_STFS :: PPCOpcode where "PPC_OP_STFS \<equiv> 124"
abbreviation PPC_OP_STFSU :: PPCOpcode where "PPC_OP_STFSU \<equiv> 125"
abbreviation PPC_OP_STFD :: PPCOpcode where "PPC_OP_STFD \<equiv> 126"
abbreviation PPC_OP_STFDU :: PPCOpcode where "PPC_OP_STFDU \<equiv> 127"
abbreviation PPC_OP_LFSX :: PPCOpcode where "PPC_OP_LFSX \<equiv> 128"
abbreviation PPC_OP_LFSUX :: PPCOpcode where "PPC_OP_LFSUX \<equiv> 129"
abbreviation PPC_OP_LFDX :: PPCOpcode where "PPC_OP_LFDX \<equiv> 130"
abbreviation PPC_OP_LFDUX :: PPCOpcode where "PPC_OP_LFDUX \<equiv> 131"
abbreviation PPC_OP_STFSX :: PPCOpcode where "PPC_OP_STFSX \<equiv> 132"
abbreviation PPC_OP_STFSUX :: PPCOpcode where "PPC_OP_STFSUX \<equiv> 133"
abbreviation PPC_OP_STFDX :: PPCOpcode where "PPC_OP_STFDX \<equiv> 134"
abbreviation PPC_OP_STFDUX :: PPCOpcode where "PPC_OP_STFDUX \<equiv> 135"
abbreviation PPC_OP_FADDS :: PPCOpcode where "PPC_OP_FADDS \<equiv> 136"
abbreviation PPC_OP_FSUBS :: PPCOpcode where "PPC_OP_FSUBS \<equiv> 137"
abbreviation PPC_OP_FMULS :: PPCOpcode where "PPC_OP_FMULS \<equiv> 138"
abbreviation PPC_OP_FDIVS :: PPCOpcode where "PPC_OP_FDIVS \<equiv> 139"
abbreviation PPC_OP_FRES :: PPCOpcode where "PPC_OP_FRES \<equiv> 140"
abbreviation PPC_OP_FMADDS :: PPCOpcode where "PPC_OP_FMADDS \<equiv> 141"
abbreviation PPC_OP_FMSUBS :: PPCOpcode where "PPC_OP_FMSUBS \<equiv> 142"
abbreviation PPC_OP_FNMADDS :: PPCOpcode where "PPC_OP_FNMADDS \<equiv> 143"
abbreviation PPC_OP_FNMSUBS :: PPCOpcode where "PPC_OP_FNMSUBS \<equiv> 144"
abbreviation PPC_OP_FADD :: PPCOpcode where "PPC_OP_FADD \<equiv> 145"
abbreviation PPC_OP_FSUB :: PPCOpcode where "PPC_OP_FSUB \<equiv> 146"
abbreviation PPC_OP_FMUL :: PPCOpcode where "PPC_OP_FMUL \<equiv> 147"
abbreviation PPC_OP_FDIV :: PPCOpcode where "PPC_OP_FDIV \<equiv> 148"
abbreviation PPC_OP_FRSQRTE :: PPCOpcode where "PPC_OP_FRSQRTE \<equiv> 149"
abbreviation PPC_OP_FMADD :: PPCOpcode where "PPC_OP_FMADD \<equiv> 150"
abbreviation PPC_OP_FMSUB :: PPCOpcode where "PPC_OP_FMSUB \<equiv> 151"
abbreviation PPC_OP_FNMADD :: PPCOpcode where "PPC_OP_FNMADD \<equiv> 152"
abbreviation PPC_OP_FNMSUB :: PPCOpcode where "PPC_OP_FNMSUB \<equiv> 153"
abbreviation PPC_OP_FCTIW :: PPCOpcode where "PPC_OP_FCTIW \<equiv> 154"
abbreviation PPC_OP_FCTIWZ :: PPCOpcode where "PPC_OP_FCTIWZ \<equiv> 155"
abbreviation PPC_OP_FMR :: PPCOpcode where "PPC_OP_FMR \<equiv> 156"
abbreviation PPC_OP_FNEG :: PPCOpcode where "PPC_OP_FNEG \<equiv> 157"
abbreviation PPC_OP_FABS :: PPCOpcode where "PPC_OP_FABS \<equiv> 158"
abbreviation PPC_OP_FNABS :: PPCOpcode where "PPC_OP_FNABS \<equiv> 159"
abbreviation PPC_OP_FRSP :: PPCOpcode where "PPC_OP_FRSP \<equiv> 160"
abbreviation PPC_OP_FSEL :: PPCOpcode where "PPC_OP_FSEL \<equiv> 161"
abbreviation PPC_OP_FCMPU :: PPCOpcode where "PPC_OP_FCMPU \<equiv> 162"
abbreviation PPC_OP_FCMPO :: PPCOpcode where "PPC_OP_FCMPO \<equiv> 163"
abbreviation PPC_OP_MTFSB0 :: PPCOpcode where "PPC_OP_MTFSB0 \<equiv> 164"
abbreviation PPC_OP_MTFSB1 :: PPCOpcode where "PPC_OP_MTFSB1 \<equiv> 165"
abbreviation PPC_OP_MCRFS :: PPCOpcode where "PPC_OP_MCRFS \<equiv> 166"
abbreviation PPC_OP_MFFS :: PPCOpcode where "PPC_OP_MFFS \<equiv> 167"
abbreviation PPC_OP_MTFSF :: PPCOpcode where "PPC_OP_MTFSF \<equiv> 168"
abbreviation PPC_OP_MTFSFI :: PPCOpcode where "PPC_OP_MTFSFI \<equiv> 169"
abbreviation PPC_OP_PSQ_L :: PPCOpcode where "PPC_OP_PSQ_L \<equiv> 170"
abbreviation PPC_OP_PSQ_LU :: PPCOpcode where "PPC_OP_PSQ_LU \<equiv> 171"
abbreviation PPC_OP_PSQ_ST :: PPCOpcode where "PPC_OP_PSQ_ST \<equiv> 172"
abbreviation PPC_OP_PSQ_STU :: PPCOpcode where "PPC_OP_PSQ_STU \<equiv> 173"
abbreviation PPC_OP_PSQ_LX :: PPCOpcode where "PPC_OP_PSQ_LX \<equiv> 174"
abbreviation PPC_OP_PSQ_LUX :: PPCOpcode where "PPC_OP_PSQ_LUX \<equiv> 175"
abbreviation PPC_OP_PSQ_STX :: PPCOpcode where "PPC_OP_PSQ_STX \<equiv> 176"
abbreviation PPC_OP_PSQ_STUX :: PPCOpcode where "PPC_OP_PSQ_STUX \<equiv> 177"
abbreviation PPC_OP_PS_ADD :: PPCOpcode where "PPC_OP_PS_ADD \<equiv> 178"
abbreviation PPC_OP_PS_SUB :: PPCOpcode where "PPC_OP_PS_SUB \<equiv> 179"
abbreviation PPC_OP_PS_MUL :: PPCOpcode where "PPC_OP_PS_MUL \<equiv> 180"
abbreviation PPC_OP_PS_DIV :: PPCOpcode where "PPC_OP_PS_DIV \<equiv> 181"
abbreviation PPC_OP_PS_RES :: PPCOpcode where "PPC_OP_PS_RES \<equiv> 182"
abbreviation PPC_OP_PS_RSQRTE :: PPCOpcode where "PPC_OP_PS_RSQRTE \<equiv> 183"
abbreviation PPC_OP_PS_MADD :: PPCOpcode where "PPC_OP_PS_MADD \<equiv> 184"
abbreviation PPC_OP_PS_MSUB :: PPCOpcode where "PPC_OP_PS_MSUB \<equiv> 185"
abbreviation PPC_OP_PS_NMADD :: PPCOpcode where "PPC_OP_PS_NMADD \<equiv> 186"
abbreviation PPC_OP_PS_NMSUB :: PPCOpcode where "PPC_OP_PS_NMSUB \<equiv> 187"
abbreviation PPC_OP_PS_NEG :: PPCOpcode where "PPC_OP_PS_NEG \<equiv> 188"
abbreviation PPC_OP_PS_ABS :: PPCOpcode where "PPC_OP_PS_ABS \<equiv> 189"
abbreviation PPC_OP_PS_NABS :: PPCOpcode where "PPC_OP_PS_NABS \<equiv> 190"
abbreviation PPC_OP_PS_MR :: PPCOpcode where "PPC_OP_PS_MR \<equiv> 191"
abbreviation PPC_OP_PS_SUM0 :: PPCOpcode where "PPC_OP_PS_SUM0 \<equiv> 192"
abbreviation PPC_OP_PS_SUM1 :: PPCOpcode where "PPC_OP_PS_SUM1 \<equiv> 193"
abbreviation PPC_OP_PS_MULS0 :: PPCOpcode where "PPC_OP_PS_MULS0 \<equiv> 194"
abbreviation PPC_OP_PS_MULS1 :: PPCOpcode where "PPC_OP_PS_MULS1 \<equiv> 195"
abbreviation PPC_OP_PS_MADDS0 :: PPCOpcode where "PPC_OP_PS_MADDS0 \<equiv> 196"
abbreviation PPC_OP_PS_MADDS1 :: PPCOpcode where "PPC_OP_PS_MADDS1 \<equiv> 197"
abbreviation PPC_OP_PS_MERGE00 :: PPCOpcode where "PPC_OP_PS_MERGE00 \<equiv> 198"
abbreviation PPC_OP_PS_MERGE01 :: PPCOpcode where "PPC_OP_PS_MERGE01 \<equiv> 199"
abbreviation PPC_OP_PS_MERGE10 :: PPCOpcode where "PPC_OP_PS_MERGE10 \<equiv> 200"
abbreviation PPC_OP_PS_MERGE11 :: PPCOpcode where "PPC_OP_PS_MERGE11 \<equiv> 201"
abbreviation PPC_OP_PS_CMPU0 :: PPCOpcode where "PPC_OP_PS_CMPU0 \<equiv> 202"
abbreviation PPC_OP_PS_CMPO0 :: PPCOpcode where "PPC_OP_PS_CMPO0 \<equiv> 203"
abbreviation PPC_OP_PS_CMPU1 :: PPCOpcode where "PPC_OP_PS_CMPU1 \<equiv> 204"
abbreviation PPC_OP_PS_CMPO1 :: PPCOpcode where "PPC_OP_PS_CMPO1 \<equiv> 205"
abbreviation PPC_OP_PS_SEL :: PPCOpcode where "PPC_OP_PS_SEL \<equiv> 206"
abbreviation PPC_OP_MULLW :: PPCOpcode where "PPC_OP_MULLW \<equiv> 207"
abbreviation PPC_OP_MULLWO :: PPCOpcode where "PPC_OP_MULLWO \<equiv> 208"
abbreviation PPC_OP_MULHW :: PPCOpcode where "PPC_OP_MULHW \<equiv> 209"
abbreviation PPC_OP_MULHWU :: PPCOpcode where "PPC_OP_MULHWU \<equiv> 210"
abbreviation PPC_OP_DIVW :: PPCOpcode where "PPC_OP_DIVW \<equiv> 211"
abbreviation PPC_OP_DIVWO :: PPCOpcode where "PPC_OP_DIVWO \<equiv> 212"
abbreviation PPC_OP_DIVWU :: PPCOpcode where "PPC_OP_DIVWU \<equiv> 213"
abbreviation PPC_OP_DIVWUO :: PPCOpcode where "PPC_OP_DIVWUO \<equiv> 214"
abbreviation PPC_OP_DCBZ :: PPCOpcode where "PPC_OP_DCBZ \<equiv> 215"
abbreviation PPC_OP_DCBZ_L :: PPCOpcode where "PPC_OP_DCBZ_L \<equiv> 216"
abbreviation PPC_OP_DCBST :: PPCOpcode where "PPC_OP_DCBST \<equiv> 217"
abbreviation PPC_OP_DCBF :: PPCOpcode where "PPC_OP_DCBF \<equiv> 218"
abbreviation PPC_OP_DCBTST :: PPCOpcode where "PPC_OP_DCBTST \<equiv> 219"
abbreviation PPC_OP_DCBT :: PPCOpcode where "PPC_OP_DCBT \<equiv> 220"
abbreviation PPC_OP_DCBI :: PPCOpcode where "PPC_OP_DCBI \<equiv> 221"
abbreviation PPC_OP_ICBI :: PPCOpcode where "PPC_OP_ICBI \<equiv> 222"
abbreviation PPC_OP_SYNC :: PPCOpcode where "PPC_OP_SYNC \<equiv> 223"
abbreviation PPC_OP_EIEIO :: PPCOpcode where "PPC_OP_EIEIO \<equiv> 224"
abbreviation PPC_OP_ISYNC :: PPCOpcode where "PPC_OP_ISYNC \<equiv> 225"
abbreviation PPC_OP_MCRXR :: PPCOpcode where "PPC_OP_MCRXR \<equiv> 226"
abbreviation PPC_OP_MFMSR :: PPCOpcode where "PPC_OP_MFMSR \<equiv> 227"
abbreviation PPC_OP_MTMSR :: PPCOpcode where "PPC_OP_MTMSR \<equiv> 228"
abbreviation PPC_OP_MFSR :: PPCOpcode where "PPC_OP_MFSR \<equiv> 229"
abbreviation PPC_OP_MFSRIN :: PPCOpcode where "PPC_OP_MFSRIN \<equiv> 230"
abbreviation PPC_OP_MTSR :: PPCOpcode where "PPC_OP_MTSR \<equiv> 231"
abbreviation PPC_OP_MTSRIN :: PPCOpcode where "PPC_OP_MTSRIN \<equiv> 232"
abbreviation PPC_OP_TLBIE :: PPCOpcode where "PPC_OP_TLBIE \<equiv> 233"
abbreviation PPC_OP_TLBSYNC :: PPCOpcode where "PPC_OP_TLBSYNC \<equiv> 234"
abbreviation PPC_OP_ECIWX :: PPCOpcode where "PPC_OP_ECIWX \<equiv> 235"
abbreviation PPC_OP_ECOWX :: PPCOpcode where "PPC_OP_ECOWX \<equiv> 236"
abbreviation PPC_OP_COUNT :: PPCOpcode where "PPC_OP_COUNT \<equiv> 237"

section \<open>Mnemonics\<close>

definition opcode_names :: "string list" where
  "opcode_names = [
    ''???'', ''mulli'', ''subfic'', ''addi'', ''addic'', ''addic.'', ''addis'', ''cmpi'',
    ''cmpli'', ''ori'', ''oris'', ''xori'', ''xoris'', ''andi.'', ''andis.'', ''lwz'', ''lwzu'',
    ''lbz'', ''lbzu'', ''stw'', ''stwu'', ''stb'', ''stbu'', ''lhz'', ''lhzu'', ''lha'',
    ''lhau'', ''sth'', ''sthu'', ''lmw'', ''stmw'', ''b'', ''bc'', ''bclr'', ''bcctr'', ''sc'',
    ''rfi'', ''crand'', ''crandc'', ''creqv'', ''crnand'', ''crnor'', ''cror'', ''crorc'',
    ''crxor'', ''mcrf'', ''mfcr'', ''mtcrf'', ''mfspr'', ''mtspr'', ''mftb'', ''cmp'', ''cmpl'',
    ''twi'', ''tw'', ''add'', ''addo'', ''addc'', ''addco'', ''adde'', ''addeo'', ''addme'',
    ''addmeo'', ''addze'', ''addzeo'', ''subf'', ''subfo'', ''subfc'', ''subfco'', ''subfe'',
    ''subfeo'', ''subfme'', ''subfmeo'', ''subfze'', ''subfzeo'', ''neg'', ''nego'', ''and'',
    ''andc'', ''or'', ''orc'', ''xor'', ''nand'', ''nor'', ''eqv'', ''cntlzw'', ''extsb'',
    ''extsh'', ''slw'', ''srw'', ''sraw'', ''srawi'', ''rlwinm'', ''rlwnm'', ''rlwimi'',
    ''lwzx'', ''lwzux'', ''lbzx'', ''lbzux'', ''lhzx'', ''lhzux'', ''lhax'', ''lhaux'',
    ''lwbrx'', ''lhbrx'', ''stwx'', ''stwux'', ''stbx'', ''stbux'', ''sthx'', ''sthux'',
    ''stwbrx'', ''sthbrx'', ''lswi'', ''lswx'', ''stswi'', ''stswx'', ''lwarx'', ''stwcx.'',
    ''stfiwx'', ''lfs'', ''lfsu'', ''lfd'', ''lfdu'', ''stfs'', ''stfsux'', ''stfd'', ''stfdu'',
    ''lfsx'', ''lfsux'', ''lfdx'', ''lfdux'', ''stfsx'', ''stfsux'', ''stfdx'', ''stfdux'',
    ''fadds'', ''fsubs'', ''fmuls'', ''fdivs'', ''fres'', ''fmadds'', ''fmsubs'', ''fnmadds'',
    ''fnmsubs'', ''fadd'', ''fsub'', ''fmul'', ''fdiv'', ''frsqrte'', ''fmadd'', ''fmsub'',
    ''fnmadd'', ''fnmsub'', ''fctiw'', ''fctiwz'', ''fmr'', ''fneg'', ''fabs'', ''fnabs'',
    ''frsp'', ''fsel'', ''fcmpu'', ''fcmpo'', ''mtfsb0'', ''mtfsb1'', ''mcrfs'', ''mffs'',
    ''mtfsf'', ''mtfsfi'', ''psq_l'', ''psq_lu'', ''psq_st'', ''psq_stu'', ''psq_lx'',
    ''psq_lux'', ''psq_stx'', ''psq_stux'', ''ps_add'', ''ps_sub'', ''ps_mul'', ''ps_div'',
    ''ps_res'', ''ps_rsqrte'', ''ps_madd'', ''ps_msub'', ''ps_nmadd'', ''ps_nmsub'', ''ps_neg'',
    ''ps_abs'', ''ps_nabs'', ''ps_mr'', ''ps_sum0'', ''ps_sum1'', ''ps_muls0'', ''ps_muls1'',
    ''ps_madds0'', ''ps_madds1'', ''ps_merge00'', ''ps_merge01'', ''ps_merge10'',
    ''ps_merge11'', ''ps_cmpu0'', ''ps_cmpo0'', ''ps_cmpu1'', ''ps_cmpo1'', ''ps_sel'',
    ''mullw'', ''mullwo'', ''mulhw'', ''mulhwu'', ''divw'', ''divwo'', ''divwu'', ''divwuo'',
    ''dcbz'', ''dcbz_l'', ''dcbst'', ''dcbf'', ''dcbtst'', ''dcbt'', ''dcbi'', ''icbi'',
    ''sync'', ''eieio'', ''isync'', ''mcrxr'', ''mfmsr'', ''mtmsr'', ''mfsr'', ''mfsrin'',
    ''mtsr'', ''mtsrin'', ''tlbie'', ''tlbsync'', ''eciwx'', ''ecowx'']"

definition ppc_op_name :: "PPCOpcode \<Rightarrow> string" where
  "ppc_op_name op = (if op \<ge> PPC_OP_COUNT then ''???'' else opcode_names ! op)"

definition ppc_op_uses_fpu :: "PPCOpcode \<Rightarrow> bool" where
  "ppc_op_uses_fpu op \<longleftrightarrow> op \<ge> PPC_OP_STFIWX \<and> op \<le> PPC_OP_PS_SEL"

lemma length_opcode_names [simp]: "length opcode_names = PPC_OP_COUNT"
  by (simp add: opcode_names_def)

end
