(* ===== verification/DecodeForms.thy ===== *)
theory DecodeForms
  imports PpcOpcode GuestTypes
begin

text \<open>
  The decoded instruction of src/DolRecomp/src/frontend/decoder.h and the field extractors
  and form decoders of decoder_private.h.  A form decoder takes the instruction, the opcode
  and the raw word and returns the instruction it leaves behind; a form whose reserved bits
  are set leaves the opcode \<open>PPC_OP_UNKNOWN\<close> and the other fields alone.
\<close>

section \<open>The instruction\<close>

record PPCInst =
  op_f :: PPCOpcode
  raw_word :: u32
  address_of :: u32
  embedded_data :: bool

  rD_f :: u8
  rA_f :: u8
  rS_f :: u8
  rB_f :: u8
  rC_f :: u8
  crfD_f :: u8
  crfS_f :: u8
  crm_f :: u8
  fm_f :: u8
  imm_f :: u8
  nb_f :: u8
  to_f :: u8
  sr_f :: u8
  l_f :: u8
  w_f :: u8
  i_f :: u8
  bo_f :: u8
  bi_f :: u8
  mb_f :: u8
  me_f :: u8
  sh_f :: u8
  simm_f :: u16
  uimm_f :: u16
  spr_f :: u16
  branch_target :: u32
  aa_f :: bool
  lk_f :: bool
  rc_f :: bool
  oe_f :: bool

text \<open>\<open>simm_f\<close> holds the s16 of the code as its 16 bits; it is read with \<open>sint\<close>.\<close>

section \<open>Field extraction\<close>

definition PPC_PRIMARY :: "u32 \<Rightarrow> u32" where
  "PPC_PRIMARY raw = drop_bit 26 raw"

definition PPC_RD :: "u32 \<Rightarrow> u32" where
  "PPC_RD raw = drop_bit 21 raw AND 0x1F"

definition PPC_RS :: "u32 \<Rightarrow> u32" where
  "PPC_RS raw = drop_bit 21 raw AND 0x1F"

definition PPC_RA :: "u32 \<Rightarrow> u32" where
  "PPC_RA raw = drop_bit 16 raw AND 0x1F"

definition PPC_RB :: "u32 \<Rightarrow> u32" where
  "PPC_RB raw = drop_bit 11 raw AND 0x1F"

definition PPC_RC_REG :: "u32 \<Rightarrow> u32" where
  "PPC_RC_REG raw = drop_bit 6 raw AND 0x1F"

definition PPC_BO :: "u32 \<Rightarrow> u32" where
  "PPC_BO raw = drop_bit 21 raw AND 0x1F"

definition PPC_BI :: "u32 \<Rightarrow> u32" where
  "PPC_BI raw = drop_bit 16 raw AND 0x1F"

definition PPC_XO :: "u32 \<Rightarrow> u32" where
  "PPC_XO raw = drop_bit 1 raw AND 0x3FF"

definition PPC_A_XO :: "u32 \<Rightarrow> u32" where
  "PPC_A_XO raw = drop_bit 1 raw AND 0x1F"

definition PPC_SPR :: "u32 \<Rightarrow> u32" where
  "PPC_SPR raw = (drop_bit 16 raw AND 0x1F) OR (drop_bit 6 raw AND 0x3E0)"

definition PPC_CRM :: "u32 \<Rightarrow> u32" where
  "PPC_CRM raw = drop_bit 12 raw AND 0xFF"

definition PPC_MB :: "u32 \<Rightarrow> u32" where
  "PPC_MB raw = drop_bit 6 raw AND 0x1F"

definition PPC_ME :: "u32 \<Rightarrow> u32" where
  "PPC_ME raw = drop_bit 1 raw AND 0x1F"

definition PPC_SH :: "u32 \<Rightarrow> u32" where
  "PPC_SH raw = drop_bit 11 raw AND 0x1F"

definition PPC_RC :: "u32 \<Rightarrow> bool" where
  "PPC_RC raw \<longleftrightarrow> raw AND 1 \<noteq> 0"

definition PPC_SIMM :: "u32 \<Rightarrow> u16" where
  "PPC_SIMM raw = ucast (raw AND 0xFFFF)"

definition PPC_UIMM :: "u32 \<Rightarrow> u16" where
  "PPC_UIMM raw = ucast (raw AND 0xFFFF)"

section \<open>Instruction forms\<close>

definition decode_d_rt_ra :: "PPCInst \<Rightarrow> PPCOpcode \<Rightarrow> u32 \<Rightarrow> PPCInst" where
  "decode_d_rt_ra inst op raw =
    inst\<lparr>op_f := op, rD_f := ucast (PPC_RD raw), rA_f := ucast (PPC_RA raw),
       simm_f := PPC_SIMM raw\<rparr>"

definition decode_d_rt_ra_update :: "PPCInst \<Rightarrow> PPCOpcode \<Rightarrow> u32 \<Rightarrow> PPCInst" where
  "decode_d_rt_ra_update inst op raw =
    (if PPC_RA raw = 0 \<or> PPC_RA raw = PPC_RD raw then inst\<lparr>op_f := PPC_OP_UNKNOWN\<rparr>
     else decode_d_rt_ra inst op raw)"

definition decode_d_frt_ra_update :: "PPCInst \<Rightarrow> PPCOpcode \<Rightarrow> u32 \<Rightarrow> PPCInst" where
  "decode_d_frt_ra_update inst op raw =
    (if PPC_RA raw = 0 then inst\<lparr>op_f := PPC_OP_UNKNOWN\<rparr>
     else decode_d_rt_ra inst op raw)"

definition decode_d_rs_ra :: "PPCInst \<Rightarrow> PPCOpcode \<Rightarrow> u32 \<Rightarrow> PPCInst" where
  "decode_d_rs_ra inst op raw =
    inst\<lparr>op_f := op, rS_f := ucast (PPC_RS raw), rA_f := ucast (PPC_RA raw),
       simm_f := PPC_SIMM raw\<rparr>"

definition decode_d_rs_ra_update :: "PPCInst \<Rightarrow> PPCOpcode \<Rightarrow> u32 \<Rightarrow> PPCInst" where
  "decode_d_rs_ra_update inst op raw =
    (if PPC_RA raw = 0 then inst\<lparr>op_f := PPC_OP_UNKNOWN\<rparr>
     else decode_d_rs_ra inst op raw)"

definition decode_x_rt_ra_rb :: "PPCInst \<Rightarrow> PPCOpcode \<Rightarrow> u32 \<Rightarrow> PPCInst" where
  "decode_x_rt_ra_rb inst op raw =
    inst\<lparr>op_f := op, rD_f := ucast (PPC_RD raw), rA_f := ucast (PPC_RA raw),
       rB_f := ucast (PPC_RB raw), rc_f := PPC_RC raw\<rparr>"

definition decode_x_rt_ra_rb_norc :: "PPCInst \<Rightarrow> PPCOpcode \<Rightarrow> u32 \<Rightarrow> PPCInst" where
  "decode_x_rt_ra_rb_norc inst op raw =
    (if PPC_RC raw then inst\<lparr>op_f := PPC_OP_UNKNOWN\<rparr>
     else decode_x_rt_ra_rb inst op raw)"

definition decode_x_rt_ra_rb_update :: "PPCInst \<Rightarrow> PPCOpcode \<Rightarrow> u32 \<Rightarrow> PPCInst" where
  "decode_x_rt_ra_rb_update inst op raw =
    (if PPC_RC raw \<or> PPC_RA raw = 0 \<or> PPC_RA raw = PPC_RD raw then inst\<lparr>op_f := PPC_OP_UNKNOWN\<rparr>
     else decode_x_rt_ra_rb inst op raw)"

definition decode_x_frt_ra_rb_update :: "PPCInst \<Rightarrow> PPCOpcode \<Rightarrow> u32 \<Rightarrow> PPCInst" where
  "decode_x_frt_ra_rb_update inst op raw =
    (if PPC_RC raw \<or> PPC_RA raw = 0 then inst\<lparr>op_f := PPC_OP_UNKNOWN\<rparr>
     else decode_x_rt_ra_rb inst op raw)"

definition decode_xo_rt_ra_rb :: "PPCInst \<Rightarrow> PPCOpcode \<Rightarrow> u32 \<Rightarrow> PPCInst" where
  "decode_xo_rt_ra_rb inst op raw =
    (decode_x_rt_ra_rb inst op raw)\<lparr>oe_f := (drop_bit 10 raw AND 1 \<noteq> 0)\<rparr>"

definition decode_x_rs_ra_rb :: "PPCInst \<Rightarrow> PPCOpcode \<Rightarrow> u32 \<Rightarrow> PPCInst" where
  "decode_x_rs_ra_rb inst op raw =
    inst\<lparr>op_f := op, rS_f := ucast (PPC_RS raw), rA_f := ucast (PPC_RA raw),
       rB_f := ucast (PPC_RB raw), rc_f := PPC_RC raw\<rparr>"

definition decode_x_rs_ra_rb_norc :: "PPCInst \<Rightarrow> PPCOpcode \<Rightarrow> u32 \<Rightarrow> PPCInst" where
  "decode_x_rs_ra_rb_norc inst op raw =
    (if PPC_RC raw then inst\<lparr>op_f := PPC_OP_UNKNOWN\<rparr>
     else decode_x_rs_ra_rb inst op raw)"

definition decode_x_rs_ra_rb_update :: "PPCInst \<Rightarrow> PPCOpcode \<Rightarrow> u32 \<Rightarrow> PPCInst" where
  "decode_x_rs_ra_rb_update inst op raw =
    (if PPC_RC raw \<or> PPC_RA raw = 0 then inst\<lparr>op_f := PPC_OP_UNKNOWN\<rparr>
     else decode_x_rs_ra_rb inst op raw)"

definition decode_a_frt_fra_frb_frc :: "PPCInst \<Rightarrow> PPCOpcode \<Rightarrow> u32 \<Rightarrow> PPCInst" where
  "decode_a_frt_fra_frb_frc inst op raw =
    inst\<lparr>op_f := op, rD_f := ucast (PPC_RD raw), rA_f := ucast (PPC_RA raw),
       rB_f := ucast (PPC_RB raw), rC_f := ucast (PPC_RC_REG raw),
       rc_f := PPC_RC raw\<rparr>"

definition decode_x_frt_frb :: "PPCInst \<Rightarrow> PPCOpcode \<Rightarrow> u32 \<Rightarrow> PPCInst" where
  "decode_x_frt_frb inst op raw =
    (if PPC_RA raw \<noteq> 0 then inst\<lparr>op_f := PPC_OP_UNKNOWN\<rparr>
     else inst\<lparr>op_f := op, rD_f := ucast (PPC_RD raw), rB_f := ucast (PPC_RB raw),
       rc_f := PPC_RC raw\<rparr>)"

definition decode_fcmp :: "PPCInst \<Rightarrow> PPCOpcode \<Rightarrow> u32 \<Rightarrow> PPCInst" where
  "decode_fcmp inst op raw =
    (if raw AND (push_bit 21 3 OR 1) \<noteq> 0 then inst\<lparr>op_f := PPC_OP_UNKNOWN\<rparr>
     else inst\<lparr>op_f := op, crfD_f := ucast (drop_bit 23 raw AND 0x7),
       rA_f := ucast (PPC_RA raw), rB_f := ucast (PPC_RB raw)\<rparr>)"

definition decode_cr_logical :: "PPCInst \<Rightarrow> PPCOpcode \<Rightarrow> u32 \<Rightarrow> PPCInst" where
  "decode_cr_logical inst op raw =
    (if PPC_RC raw then inst\<lparr>op_f := PPC_OP_UNKNOWN\<rparr>
     else inst\<lparr>op_f := op, rD_f := ucast (PPC_RD raw), rA_f := ucast (PPC_RA raw),
       rB_f := ucast (PPC_RB raw)\<rparr>)"

definition decode_mtfsb :: "PPCInst \<Rightarrow> PPCOpcode \<Rightarrow> u32 \<Rightarrow> PPCInst" where
  "decode_mtfsb inst op raw =
    (if PPC_RA raw \<noteq> 0 \<or> PPC_RB raw \<noteq> 0 then inst\<lparr>op_f := PPC_OP_UNKNOWN\<rparr>
     else inst\<lparr>op_f := op, rD_f := ucast (PPC_RD raw), rc_f := PPC_RC raw\<rparr>)"

definition decode_xo_rt_ra :: "PPCInst \<Rightarrow> PPCOpcode \<Rightarrow> u32 \<Rightarrow> PPCInst" where
  "decode_xo_rt_ra inst op raw =
    inst\<lparr>op_f := op, rD_f := ucast (PPC_RD raw), rA_f := ucast (PPC_RA raw),
       rc_f := PPC_RC raw, oe_f := (drop_bit 10 raw AND 1 \<noteq> 0)\<rparr>"

definition decode_psq_d_rt_ra :: "PPCInst \<Rightarrow> PPCOpcode \<Rightarrow> u32 \<Rightarrow> PPCInst" where
  "decode_psq_d_rt_ra inst op raw =
    inst\<lparr>op_f := op, rD_f := ucast (PPC_RD raw), rA_f := ucast (PPC_RA raw),
       w_f := ucast (drop_bit 15 raw AND 1),
       i_f := ucast (drop_bit 12 raw AND 7),
       simm_f := ucast (sign_extend (raw AND 0x0FFF) 12)\<rparr>"

definition decode_psq_d_rt_ra_update :: "PPCInst \<Rightarrow> PPCOpcode \<Rightarrow> u32 \<Rightarrow> PPCInst" where
  "decode_psq_d_rt_ra_update inst op raw =
    (if PPC_RA raw = 0 then inst\<lparr>op_f := PPC_OP_UNKNOWN\<rparr>
     else decode_psq_d_rt_ra inst op raw)"

definition decode_psq_d_rs_ra :: "PPCInst \<Rightarrow> PPCOpcode \<Rightarrow> u32 \<Rightarrow> PPCInst" where
  "decode_psq_d_rs_ra inst op raw =
    inst\<lparr>op_f := op, rS_f := ucast (PPC_RS raw), rA_f := ucast (PPC_RA raw),
       w_f := ucast (drop_bit 15 raw AND 1),
       i_f := ucast (drop_bit 12 raw AND 7),
       simm_f := ucast (sign_extend (raw AND 0x0FFF) 12)\<rparr>"

definition decode_psq_d_rs_ra_update :: "PPCInst \<Rightarrow> PPCOpcode \<Rightarrow> u32 \<Rightarrow> PPCInst" where
  "decode_psq_d_rs_ra_update inst op raw =
    (if PPC_RA raw = 0 then inst\<lparr>op_f := PPC_OP_UNKNOWN\<rparr>
     else decode_psq_d_rs_ra inst op raw)"

definition decode_psq_x_rt_ra_rb :: "PPCInst \<Rightarrow> PPCOpcode \<Rightarrow> u32 \<Rightarrow> PPCInst" where
  "decode_psq_x_rt_ra_rb inst op raw =
    inst\<lparr>op_f := op, rD_f := ucast (PPC_RD raw), rA_f := ucast (PPC_RA raw),
       rB_f := ucast (PPC_RB raw), w_f := ucast (drop_bit 10 raw AND 1),
       i_f := ucast (drop_bit 7 raw AND 7)\<rparr>"

definition decode_psq_x_rt_ra_rb_norc :: "PPCInst \<Rightarrow> PPCOpcode \<Rightarrow> u32 \<Rightarrow> PPCInst" where
  "decode_psq_x_rt_ra_rb_norc inst op raw =
    (if PPC_RC raw then inst\<lparr>op_f := PPC_OP_UNKNOWN\<rparr>
     else decode_psq_x_rt_ra_rb inst op raw)"

definition decode_psq_x_rt_ra_rb_update :: "PPCInst \<Rightarrow> PPCOpcode \<Rightarrow> u32 \<Rightarrow> PPCInst" where
  "decode_psq_x_rt_ra_rb_update inst op raw =
    (if PPC_RC raw \<or> PPC_RA raw = 0 then inst\<lparr>op_f := PPC_OP_UNKNOWN\<rparr>
     else decode_psq_x_rt_ra_rb inst op raw)"

definition decode_psq_x_rs_ra_rb :: "PPCInst \<Rightarrow> PPCOpcode \<Rightarrow> u32 \<Rightarrow> PPCInst" where
  "decode_psq_x_rs_ra_rb inst op raw =
    inst\<lparr>op_f := op, rS_f := ucast (PPC_RS raw), rA_f := ucast (PPC_RA raw),
       rB_f := ucast (PPC_RB raw), w_f := ucast (drop_bit 10 raw AND 1),
       i_f := ucast (drop_bit 7 raw AND 7)\<rparr>"

definition decode_psq_x_rs_ra_rb_norc :: "PPCInst \<Rightarrow> PPCOpcode \<Rightarrow> u32 \<Rightarrow> PPCInst" where
  "decode_psq_x_rs_ra_rb_norc inst op raw =
    (if PPC_RC raw then inst\<lparr>op_f := PPC_OP_UNKNOWN\<rparr>
     else decode_psq_x_rs_ra_rb inst op raw)"

definition decode_psq_x_rs_ra_rb_update :: "PPCInst \<Rightarrow> PPCOpcode \<Rightarrow> u32 \<Rightarrow> PPCInst" where
  "decode_psq_x_rs_ra_rb_update inst op raw =
    (if PPC_RC raw \<or> PPC_RA raw = 0 then inst\<lparr>op_f := PPC_OP_UNKNOWN\<rparr>
     else decode_psq_x_rs_ra_rb inst op raw)"

section \<open>Register ranges of the string instructions\<close>

fun reg_scan :: "u8 \<Rightarrow> u8 \<Rightarrow> u32 \<Rightarrow> nat \<Rightarrow> bool" where
  "reg_scan start reg i 0 = False"
| "reg_scan start reg i (Suc n) =
    (if (ucast start + i) mod 32 = (ucast reg :: u32) then True else reg_scan start reg (i + 1) n)"

definition reg_in_wrapped_range :: "u8 \<Rightarrow> u32 \<Rightarrow> u8 \<Rightarrow> bool" where
  "reg_in_wrapped_range start count reg = reg_scan start reg 0 (unat count)"

definition string_register_count :: "u8 \<Rightarrow> u32" where
  "string_register_count byte_count =
    (let count = (if byte_count \<noteq> 0 then ucast byte_count else 32) in (count + 3) div 4)"

section \<open>Field bounds\<close>

lemma masked_less:
  fixes x m b :: "'a::len word"
  assumes "m < b"
  shows "x AND m < b"
  using word_and_le1 assms by (rule le_less_trans)

lemma ucast_u8_less:
  fixes x :: u32 and b :: u8
  assumes "x < ucast b"
  shows "(ucast x :: u8) < b"
proof -
  have "unat x < unat (ucast b :: u32)" using assms by (simp add: word_less_nat_alt)
  also have "\<dots> = unat b"
    using unsigned_less [of b, where ?'a = nat] by (simp add: unsigned_ucast_eq take_bit_nat_eq_self)
  finally have x: "unat x < unat b" .
  then have "unat (ucast x :: u8) = unat x"
    using unsigned_less [of b, where ?'a = nat] by (simp add: unsigned_ucast_eq take_bit_nat_eq_self)
  with x show ?thesis by (simp add: word_less_nat_alt)
qed

lemma field_u8_less [simp]:
  "(ucast (PPC_RD raw) :: u8) < 32" "(ucast (PPC_RS raw) :: u8) < 32" "(ucast (PPC_RA raw) :: u8) < 32"
  "(ucast (PPC_RB raw) :: u8) < 32" "(ucast (PPC_RC_REG raw) :: u8) < 32" "(ucast (PPC_BO raw) :: u8) < 32"
  "(ucast (PPC_BI raw) :: u8) < 32" "(ucast (PPC_MB raw) :: u8) < 32" "(ucast (PPC_ME raw) :: u8) < 32"
  "(ucast (PPC_SH raw) :: u8) < 32"
  by (rule ucast_u8_less; simp add: PPC_RD_def PPC_RS_def PPC_RA_def PPC_RB_def PPC_RC_REG_def PPC_BO_def
      PPC_BI_def PPC_MB_def PPC_ME_def PPC_SH_def masked_less)+

lemma small_field_less [simp]:
  "(ucast (drop_bit n raw AND (0x7 :: u32)) :: u8) < 8" "(ucast (drop_bit n raw AND (0xF :: u32)) :: u8) < 16"
  "(ucast (drop_bit n raw AND (1 :: u32)) :: u8) < 2" "(ucast (PPC_RA raw AND 0xF) :: u8) < 16"
  by (rule ucast_u8_less; simp add: masked_less)+

lemma spr_less [simp]: "PPC_SPR raw < 1024"
proof -
  have "PPC_SPR raw = PPC_SPR raw AND 0x3FF"
    by (simp add: PPC_SPR_def word_ao_dist and.assoc)
  then show ?thesis
    using masked_less [of "0x3FF" 1024 "PPC_SPR raw"] by simp
qed

lemma field_u32_less:
  "PPC_RD raw < 32" "PPC_RA raw < 32" "PPC_RB raw < 32"
  by (simp_all add: PPC_RD_def PPC_RA_def PPC_RB_def masked_less)

lemma ucast_field_eq_iff:
  assumes "x < 256" and "y < 256"
  shows "(ucast (x :: u32) :: u8) = ucast (y :: u32) \<longleftrightarrow> x = y"
proof -
  have "unat (ucast x :: u8) = unat x" "unat (ucast y :: u8) = unat y"
    using assms by (simp_all add: unsigned_ucast_eq take_bit_nat_eq_self word_less_nat_alt)
  then show ?thesis
    by (metis word_unat_eq_iff)
qed

lemma reg_field_eq [simp]:
  "(ucast (PPC_RA raw) :: u8) = ucast (PPC_RD raw) \<longleftrightarrow> PPC_RA raw = PPC_RD raw"
  "(ucast (PPC_RA raw) :: u8) = 0 \<longleftrightarrow> PPC_RA raw = 0"
  "(ucast (PPC_RD raw) :: u8) = ucast (PPC_RA raw) \<longleftrightarrow> PPC_RD raw = PPC_RA raw"
  "(ucast (PPC_RD raw) :: u8) = ucast (PPC_RB raw) \<longleftrightarrow> PPC_RD raw = PPC_RB raw"
  using ucast_field_eq_iff [of "PPC_RA raw" "PPC_RD raw"] ucast_field_eq_iff [of "PPC_RA raw" 0]
    ucast_field_eq_iff [of "PPC_RD raw" "PPC_RA raw"] ucast_field_eq_iff [of "PPC_RD raw" "PPC_RB raw"]
    field_u32_less [of raw]
  by (simp_all add: less_trans [of _ 32 256])

end
