(* ===== verification/Decoder.thy ===== *)
theory Decoder
  imports DecodeForms
begin

text \<open>
  The instruction decoder: decode_primary_4, 59 and 63 of decoder_float.c, decode_primary_19
  and 31_system of decoder_system.c, decode_primary_31_integer of decoder_integer.c and
  \<open>ppc_decode\<close> of decoder.c.  A switch is a chain of tests on the scrutinee, in the
  order of the code.  A secondary decoder returns \<open>None\<close> where the code returns
  false, which it does before it has written any field; \<open>or_unknown\<close> is the
  caller's \<open>if (!decode_primary_n(&inst, raw, address)) inst.op = PPC_OP_UNKNOWN\<close>.
  \<open>decode_primary_storage\<close> is the second half of the switch of ppc_decode.
\<close>

section \<open>Secondary opcode tables\<close>

definition decode_primary_4 :: "PPCInst \<Rightarrow> u32 \<Rightarrow> u32 \<Rightarrow> PPCInst option" where
  "decode_primary_4 inst raw address = (
    let xo = PPC_XO raw; psxo = xo AND 0x3F; axo = PPC_A_XO raw in
    if xo = 0 then Some (decode_fcmp inst PPC_OP_PS_CMPU0 raw)
    else if xo = 18 then Some (decode_a_frt_fra_frb_frc inst PPC_OP_PS_DIV raw)
    else if xo = 24 then
      (if PPC_RA raw = 0
       then Some (decode_x_frt_frb inst PPC_OP_PS_RES raw)
       else None)
    else if xo = 26 then
      (if PPC_RA raw = 0
       then Some (decode_x_frt_frb inst PPC_OP_PS_RSQRTE raw)
       else None)
    else if xo = 20 then Some (decode_a_frt_fra_frb_frc inst PPC_OP_PS_SUB raw)
    else if xo = 21 then Some (decode_a_frt_fra_frb_frc inst PPC_OP_PS_ADD raw)
    else if xo = 32 then Some (decode_fcmp inst PPC_OP_PS_CMPO0 raw)
    else if xo = 40 then Some (decode_x_frt_frb inst PPC_OP_PS_NEG raw)
    else if xo = 64 then Some (decode_fcmp inst PPC_OP_PS_CMPU1 raw)
    else if xo = 72 then Some (decode_x_frt_frb inst PPC_OP_PS_MR raw)
    else if xo = 96 then Some (decode_fcmp inst PPC_OP_PS_CMPO1 raw)
    else if xo = 136 then Some (decode_x_frt_frb inst PPC_OP_PS_NABS raw)
    else if xo = 264 then Some (decode_x_frt_frb inst PPC_OP_PS_ABS raw)
    else if xo = 528 then Some (decode_a_frt_fra_frb_frc inst PPC_OP_PS_MERGE00 raw)
    else if xo = 560 then Some (decode_a_frt_fra_frb_frc inst PPC_OP_PS_MERGE01 raw)
    else if xo = 592 then Some (decode_a_frt_fra_frb_frc inst PPC_OP_PS_MERGE10 raw)
    else if xo = 624 then Some (decode_a_frt_fra_frb_frc inst PPC_OP_PS_MERGE11 raw)
    else if xo = 1014 then
      (if PPC_RD raw = 0 \<and> \<not> PPC_RC raw
       then Some (inst\<lparr>op_f := PPC_OP_DCBZ_L, rA_f := ucast (PPC_RA raw),
           rB_f := ucast (PPC_RB raw)\<rparr>)
       else None)
    else if psxo = 6 then Some (decode_psq_x_rt_ra_rb_norc inst PPC_OP_PSQ_LX raw)
    else if psxo = 7 then Some (decode_psq_x_rs_ra_rb_norc inst PPC_OP_PSQ_STX raw)
    else if psxo = 38 then Some (decode_psq_x_rt_ra_rb_update inst PPC_OP_PSQ_LUX raw)
    else if psxo = 39 then Some (decode_psq_x_rs_ra_rb_update inst PPC_OP_PSQ_STUX raw)
    else if axo = 10 then Some (decode_a_frt_fra_frb_frc inst PPC_OP_PS_SUM0 raw)
    else if axo = 11 then Some (decode_a_frt_fra_frb_frc inst PPC_OP_PS_SUM1 raw)
    else if axo = 12 then Some (decode_a_frt_fra_frb_frc inst PPC_OP_PS_MULS0 raw)
    else if axo = 13 then Some (decode_a_frt_fra_frb_frc inst PPC_OP_PS_MULS1 raw)
    else if axo = 14 then Some (decode_a_frt_fra_frb_frc inst PPC_OP_PS_MADDS0 raw)
    else if axo = 15 then Some (decode_a_frt_fra_frb_frc inst PPC_OP_PS_MADDS1 raw)
    else if axo = 23 then Some (decode_a_frt_fra_frb_frc inst PPC_OP_PS_SEL raw)
    else if axo = 25 then Some (decode_a_frt_fra_frb_frc inst PPC_OP_PS_MUL raw)
    else if axo = 28 then Some (decode_a_frt_fra_frb_frc inst PPC_OP_PS_MSUB raw)
    else if axo = 29 then Some (decode_a_frt_fra_frb_frc inst PPC_OP_PS_MADD raw)
    else if axo = 30 then Some (decode_a_frt_fra_frb_frc inst PPC_OP_PS_NMSUB raw)
    else if axo = 31 then Some (decode_a_frt_fra_frb_frc inst PPC_OP_PS_NMADD raw)
    else None)"

definition decode_primary_59 :: "PPCInst \<Rightarrow> u32 \<Rightarrow> u32 \<Rightarrow> PPCInst option" where
  "decode_primary_59 inst raw address = (
    let axo = PPC_A_XO raw in
    if axo = 18 then Some (decode_a_frt_fra_frb_frc inst PPC_OP_FDIVS raw)
    else if axo = 20 then Some (decode_a_frt_fra_frb_frc inst PPC_OP_FSUBS raw)
    else if axo = 21 then Some (decode_a_frt_fra_frb_frc inst PPC_OP_FADDS raw)
    else if axo = 24 then
      (if PPC_RA raw = 0 \<and> PPC_RC_REG raw = 0
       then Some (decode_x_frt_frb inst PPC_OP_FRES raw)
       else None)
    else if axo = 25 then Some (decode_a_frt_fra_frb_frc inst PPC_OP_FMULS raw)
    else if axo = 28 then Some (decode_a_frt_fra_frb_frc inst PPC_OP_FMSUBS raw)
    else if axo = 29 then Some (decode_a_frt_fra_frb_frc inst PPC_OP_FMADDS raw)
    else if axo = 30 then Some (decode_a_frt_fra_frb_frc inst PPC_OP_FNMSUBS raw)
    else if axo = 31 then Some (decode_a_frt_fra_frb_frc inst PPC_OP_FNMADDS raw)
    else None)"

definition decode_primary_63 :: "PPCInst \<Rightarrow> u32 \<Rightarrow> u32 \<Rightarrow> PPCInst option" where
  "decode_primary_63 inst raw address = (
    let xo = PPC_XO raw; axo = PPC_A_XO raw in
    if xo = 0 then Some (decode_fcmp inst PPC_OP_FCMPU raw)
    else if xo = 12 then Some (decode_x_frt_frb inst PPC_OP_FRSP raw)
    else if xo = 14 then
      (if PPC_RA raw = 0
       then Some (decode_x_frt_frb inst PPC_OP_FCTIW raw)
       else None)
    else if xo = 15 then
      (if PPC_RA raw = 0
       then Some (decode_x_frt_frb inst PPC_OP_FCTIWZ raw)
       else None)
    else if xo = 32 then Some (decode_fcmp inst PPC_OP_FCMPO raw)
    else if xo = 38 then Some (decode_mtfsb inst PPC_OP_MTFSB1 raw)
    else if xo = 40 then Some (decode_x_frt_frb inst PPC_OP_FNEG raw)
    else if xo = 70 then Some (decode_mtfsb inst PPC_OP_MTFSB0 raw)
    else if xo = 72 then Some (decode_x_frt_frb inst PPC_OP_FMR raw)
    else if xo = 136 then Some (decode_x_frt_frb inst PPC_OP_FNABS raw)
    else if xo = 264 then Some (decode_x_frt_frb inst PPC_OP_FABS raw)
    else if xo = 64 then
      (if raw AND (push_bit 21 3 OR push_bit 11 0x7F OR 1) \<noteq> 0
       then None
       else Some (inst\<lparr>op_f := PPC_OP_MCRFS, crfD_f := ucast (drop_bit 23 raw AND 0x7),
           crfS_f := ucast (drop_bit 18 raw AND 0x7)\<rparr>))
    else if xo = 134 then
      (if raw AND (push_bit 16 0x7F OR push_bit 11 1) \<noteq> 0
       then None
       else Some (inst\<lparr>op_f := PPC_OP_MTFSFI, crfD_f := ucast (drop_bit 23 raw AND 0x7),
           imm_f := ucast (drop_bit 12 raw AND 0xF), rc_f := PPC_RC raw\<rparr>))
    else if xo = 583 then
      (if PPC_RA raw \<noteq> 0 \<or> PPC_RB raw \<noteq> 0
       then None
       else Some (inst\<lparr>op_f := PPC_OP_MFFS, rD_f := ucast (PPC_RD raw),
           rc_f := PPC_RC raw\<rparr>))
    else if xo = 711 then
      (if raw AND (push_bit 25 1 OR push_bit 16 1) \<noteq> 0
       then None
       else Some (inst\<lparr>op_f := PPC_OP_MTFSF, fm_f := ucast (drop_bit 17 raw AND 0xFF),
           rB_f := ucast (PPC_RB raw), rc_f := PPC_RC raw\<rparr>))
    else if axo = 18 then Some (decode_a_frt_fra_frb_frc inst PPC_OP_FDIV raw)
    else if axo = 20 then Some (decode_a_frt_fra_frb_frc inst PPC_OP_FSUB raw)
    else if axo = 21 then Some (decode_a_frt_fra_frb_frc inst PPC_OP_FADD raw)
    else if axo = 23 then Some (decode_a_frt_fra_frb_frc inst PPC_OP_FSEL raw)
    else if axo = 25 then Some (decode_a_frt_fra_frb_frc inst PPC_OP_FMUL raw)
    else if axo = 26 then
      (if PPC_RA raw = 0 \<and> PPC_RC_REG raw = 0
       then Some (decode_x_frt_frb inst PPC_OP_FRSQRTE raw)
       else None)
    else if axo = 28 then Some (decode_a_frt_fra_frb_frc inst PPC_OP_FMSUB raw)
    else if axo = 29 then Some (decode_a_frt_fra_frb_frc inst PPC_OP_FMADD raw)
    else if axo = 30 then Some (decode_a_frt_fra_frb_frc inst PPC_OP_FNMSUB raw)
    else if axo = 31 then Some (decode_a_frt_fra_frb_frc inst PPC_OP_FNMADD raw)
    else None)"

definition decode_primary_19 :: "PPCInst \<Rightarrow> u32 \<Rightarrow> u32 \<Rightarrow> PPCInst option" where
  "decode_primary_19 inst raw address = (
    let xo = PPC_XO raw in
    if xo = 0 then
      (if raw AND (push_bit 21 3 OR push_bit 11 0x7F OR 1) \<noteq> 0
       then Some (inst\<lparr>op_f := PPC_OP_UNKNOWN\<rparr>)
       else Some (inst\<lparr>op_f := PPC_OP_MCRF, crfD_f := ucast (drop_bit 23 raw AND 0x7),
           crfS_f := ucast (drop_bit 18 raw AND 0x7)\<rparr>))
    else if raw = 0x4C000064 then Some (inst\<lparr>op_f := PPC_OP_RFI\<rparr>)
    else if xo = 16 then
      Some (inst\<lparr>op_f := PPC_OP_BCLR, bo_f := ucast (PPC_BO raw),
           bi_f := ucast (PPC_BI raw), lk_f := (raw AND 1 \<noteq> 0)\<rparr>)
    else if raw = 0x4C00012C then Some (inst\<lparr>op_f := PPC_OP_ISYNC\<rparr>)
    else if xo = 33 then Some (decode_cr_logical inst PPC_OP_CRNOR raw)
    else if xo = 129 then Some (decode_cr_logical inst PPC_OP_CRANDC raw)
    else if xo = 193 then Some (decode_cr_logical inst PPC_OP_CRXOR raw)
    else if xo = 225 then Some (decode_cr_logical inst PPC_OP_CRNAND raw)
    else if xo = 257 then Some (decode_cr_logical inst PPC_OP_CRAND raw)
    else if xo = 289 then Some (decode_cr_logical inst PPC_OP_CREQV raw)
    else if xo = 417 then Some (decode_cr_logical inst PPC_OP_CRORC raw)
    else if xo = 449 then Some (decode_cr_logical inst PPC_OP_CROR raw)
    else if xo = 528 then
      (if PPC_BO raw AND 4 = 0 then Some (inst\<lparr>op_f := PPC_OP_UNKNOWN\<rparr>)
       else Some (inst\<lparr>op_f := PPC_OP_BCCTR, bo_f := ucast (PPC_BO raw),
           bi_f := ucast (PPC_BI raw), lk_f := (raw AND 1 \<noteq> 0)\<rparr>))
    else None)"

definition decode_primary_31_system :: "PPCInst \<Rightarrow> u32 \<Rightarrow> u32 \<Rightarrow> PPCInst option" where
  "decode_primary_31_system inst raw address = (
    let xo = PPC_XO raw in
    if xo = 54 then
      (if PPC_RD raw = 0 \<and> \<not> PPC_RC raw
       then Some (inst\<lparr>op_f := PPC_OP_DCBST, rA_f := ucast (PPC_RA raw),
           rB_f := ucast (PPC_RB raw)\<rparr>)
       else None)
    else if xo = 83 then
      (if PPC_RA raw = 0 \<and> PPC_RB raw = 0 \<and> \<not> PPC_RC raw
       then Some (inst\<lparr>op_f := PPC_OP_MFMSR, rD_f := ucast (PPC_RD raw)\<rparr>)
       else None)
    else if xo = 86 then
      (if PPC_RD raw = 0 \<and> \<not> PPC_RC raw
       then Some (inst\<lparr>op_f := PPC_OP_DCBF, rA_f := ucast (PPC_RA raw),
           rB_f := ucast (PPC_RB raw)\<rparr>)
       else None)
    else if xo = 144 then
      (if raw AND (push_bit 20 1 OR 1) = 0
       then Some (inst\<lparr>op_f := PPC_OP_MTCRF, rS_f := ucast (PPC_RS raw),
           crm_f := ucast (PPC_CRM raw)\<rparr>)
       else None)
    else if xo = 146 then
      (if PPC_RA raw = 0 \<and> PPC_RB raw = 0 \<and> \<not> PPC_RC raw
       then Some (inst\<lparr>op_f := PPC_OP_MTMSR, rS_f := ucast (PPC_RS raw)\<rparr>)
       else None)
    else if xo = 210 then
      (if drop_bit 20 raw AND 1 = 0 \<and> PPC_RB raw = 0 \<and> \<not> PPC_RC raw
       then Some (inst\<lparr>op_f := PPC_OP_MTSR, rS_f := ucast (PPC_RS raw),
           sr_f := ucast (PPC_RA raw AND 0xF)\<rparr>)
       else None)
    else if xo = 242 then
      (if PPC_RA raw = 0 \<and> \<not> PPC_RC raw
       then Some (inst\<lparr>op_f := PPC_OP_MTSRIN, rS_f := ucast (PPC_RS raw),
           rB_f := ucast (PPC_RB raw)\<rparr>)
       else None)
    else if xo = 246 then
      (if PPC_RD raw = 0 \<and> \<not> PPC_RC raw
       then Some (inst\<lparr>op_f := PPC_OP_DCBTST, rA_f := ucast (PPC_RA raw),
           rB_f := ucast (PPC_RB raw)\<rparr>)
       else None)
    else if xo = 278 then
      (if PPC_RD raw = 0 \<and> \<not> PPC_RC raw
       then Some (inst\<lparr>op_f := PPC_OP_DCBT, rA_f := ucast (PPC_RA raw),
           rB_f := ucast (PPC_RB raw)\<rparr>)
       else None)
    else if xo = 306 then
      (if PPC_RD raw = 0 \<and> PPC_RA raw = 0 \<and> \<not> PPC_RC raw
       then Some (inst\<lparr>op_f := PPC_OP_TLBIE, rB_f := ucast (PPC_RB raw)\<rparr>)
       else None)
    else if xo = 310 then
      (if \<not> PPC_RC raw
       then Some (decode_x_rt_ra_rb inst PPC_OP_ECIWX raw)
       else None)
    else if xo = 339 then
      (if \<not> PPC_RC raw
       then Some (inst\<lparr>op_f := PPC_OP_MFSPR, rD_f := ucast (PPC_RD raw),
           spr_f := ucast (PPC_SPR raw)\<rparr>)
       else None)
    else if xo = 371 then
      (if \<not> PPC_RC raw
       then Some (inst\<lparr>op_f := PPC_OP_MFTB, rD_f := ucast (PPC_RD raw),
           spr_f := ucast (PPC_SPR raw)\<rparr>)
       else None)
    else if xo = 438 then
      (if \<not> PPC_RC raw
       then Some (decode_x_rs_ra_rb inst PPC_OP_ECOWX raw)
       else None)
    else if xo = 470 then
      (if PPC_RD raw = 0 \<and> \<not> PPC_RC raw
       then Some (inst\<lparr>op_f := PPC_OP_DCBI, rA_f := ucast (PPC_RA raw),
           rB_f := ucast (PPC_RB raw)\<rparr>)
       else None)
    else if xo = 467 then
      (if \<not> PPC_RC raw
       then Some (inst\<lparr>op_f := PPC_OP_MTSPR, rS_f := ucast (PPC_RS raw),
           spr_f := ucast (PPC_SPR raw)\<rparr>)
       else None)
    else if xo = 595 then
      (if drop_bit 20 raw AND 1 = 0 \<and> PPC_RB raw = 0 \<and> \<not> PPC_RC raw
       then Some (inst\<lparr>op_f := PPC_OP_MFSR, rD_f := ucast (PPC_RD raw),
           sr_f := ucast (PPC_RA raw AND 0xF)\<rparr>)
       else None)
    else if xo = 598 then
      (if raw = 0x7C0004AC
       then Some (inst\<lparr>op_f := PPC_OP_SYNC\<rparr>)
       else None)
    else if xo = 659 then
      (if PPC_RA raw = 0 \<and> \<not> PPC_RC raw
       then Some (inst\<lparr>op_f := PPC_OP_MFSRIN, rD_f := ucast (PPC_RD raw),
           rB_f := ucast (PPC_RB raw)\<rparr>)
       else None)
    else if xo = 854 then
      (if raw = 0x7C0006AC
       then Some (inst\<lparr>op_f := PPC_OP_EIEIO\<rparr>)
       else None)
    else if xo = 566 then
      (if raw = 0x7C00046C
       then Some (inst\<lparr>op_f := PPC_OP_TLBSYNC\<rparr>)
       else None)
    else if xo = 982 then
      (if PPC_RD raw = 0 \<and> \<not> PPC_RC raw
       then Some (inst\<lparr>op_f := PPC_OP_ICBI, rA_f := ucast (PPC_RA raw),
           rB_f := ucast (PPC_RB raw)\<rparr>)
       else None)
    else if xo = 983 then
      (if \<not> PPC_RC raw
       then Some (decode_x_rs_ra_rb inst PPC_OP_STFIWX raw)
       else None)
    else if xo = 1014 then
      (if PPC_RD raw = 0 \<and> \<not> PPC_RC raw
       then Some (inst\<lparr>op_f := PPC_OP_DCBZ, rA_f := ucast (PPC_RA raw),
           rB_f := ucast (PPC_RB raw)\<rparr>)
       else None)
    else None)"

definition decode_primary_31_arith :: "PPCInst \<Rightarrow> u32 \<Rightarrow> u32 \<Rightarrow> PPCInst option" where
  "decode_primary_31_arith inst raw address = (
    let xo9 = PPC_XO raw AND 0x1FF; oe = drop_bit 10 raw AND 1 \<noteq> 0 in
    if xo9 = 8 then
      Some (decode_xo_rt_ra_rb inst (if oe then PPC_OP_SUBFCO else PPC_OP_SUBFC) raw)
    else if xo9 = 10 then
      Some (decode_xo_rt_ra_rb inst (if oe then PPC_OP_ADDCO else PPC_OP_ADDC) raw)
    else if xo9 = 40 then
      Some (decode_xo_rt_ra_rb inst (if oe then PPC_OP_SUBFO else PPC_OP_SUBF) raw)
    else if xo9 = 104 then
      (if PPC_RB raw = 0
       then Some (decode_xo_rt_ra inst (if oe then PPC_OP_NEGO else PPC_OP_NEG) raw)
       else None)
    else if xo9 = 136 then
      Some (decode_xo_rt_ra_rb inst (if oe then PPC_OP_SUBFEO else PPC_OP_SUBFE) raw)
    else if xo9 = 138 then
      Some (decode_xo_rt_ra_rb inst (if oe then PPC_OP_ADDEO else PPC_OP_ADDE) raw)
    else if xo9 = 200 then
      (if PPC_RB raw = 0
       then Some (decode_xo_rt_ra inst (if oe then PPC_OP_SUBFZEO else PPC_OP_SUBFZE) raw)
       else None)
    else if xo9 = 202 then
      (if PPC_RB raw = 0
       then Some (decode_xo_rt_ra inst (if oe then PPC_OP_ADDZEO else PPC_OP_ADDZE) raw)
       else None)
    else if xo9 = 232 then
      (if PPC_RB raw = 0
       then Some (decode_xo_rt_ra inst (if oe then PPC_OP_SUBFMEO else PPC_OP_SUBFME) raw)
       else None)
    else if xo9 = 234 then
      (if PPC_RB raw = 0
       then Some (decode_xo_rt_ra inst (if oe then PPC_OP_ADDMEO else PPC_OP_ADDME) raw)
       else None)
    else if xo9 = 235 then
      Some (decode_xo_rt_ra_rb inst (if oe then PPC_OP_MULLWO else PPC_OP_MULLW) raw)
    else if xo9 = 266 then
      Some (decode_xo_rt_ra_rb inst (if oe then PPC_OP_ADDO else PPC_OP_ADD) raw)
    else if xo9 = 459 then
      Some (decode_xo_rt_ra_rb inst (if oe then PPC_OP_DIVWUO else PPC_OP_DIVWU) raw)
    else if xo9 = 491 then
      Some (decode_xo_rt_ra_rb inst (if oe then PPC_OP_DIVWO else PPC_OP_DIVW) raw)
    else None)"

definition decode_primary_31_integer :: "PPCInst \<Rightarrow> u32 \<Rightarrow> u32 \<Rightarrow> PPCInst option" where
  "decode_primary_31_integer inst raw address = (
    let xo = PPC_XO raw in
    case decode_primary_31_arith inst raw address of Some done_inst \<Rightarrow> Some done_inst | None \<Rightarrow>
    if xo = 0 then
      (if drop_bit 21 raw AND 1 \<noteq> 0
       then None
       else Some (inst\<lparr>op_f := PPC_OP_CMP, crfD_f := ucast (drop_bit 23 raw AND 0x7),
           l_f := ucast (drop_bit 21 raw AND 0x1), rA_f := ucast (PPC_RA raw),
           rB_f := ucast (PPC_RB raw)\<rparr>))
    else if xo = 4 then
      (if \<not> PPC_RC raw
       then Some (inst\<lparr>op_f := PPC_OP_TW, to_f := ucast (PPC_RD raw),
           rA_f := ucast (PPC_RA raw), rB_f := ucast (PPC_RB raw)\<rparr>)
       else None)
    else if xo = 11 then Some (decode_x_rt_ra_rb inst PPC_OP_MULHWU raw)
    else if xo = 19 then
      (if PPC_RA raw = 0 \<and> PPC_RB raw = 0 \<and> \<not> PPC_RC raw
       then Some (inst\<lparr>op_f := PPC_OP_MFCR, rD_f := ucast (PPC_RD raw)\<rparr>)
       else None)
    else if xo = 20 then
      (if \<not> PPC_RC raw
       then Some (decode_x_rt_ra_rb inst PPC_OP_LWARX raw)
       else None)
    else if xo = 23 then Some (decode_x_rt_ra_rb_norc inst PPC_OP_LWZX raw)
    else if xo = 24 then Some (decode_x_rs_ra_rb inst PPC_OP_SLW raw)
    else if xo = 26 then Some (decode_x_rs_ra_rb inst PPC_OP_CNTLZW raw)
    else if xo = 28 then Some (decode_x_rs_ra_rb inst PPC_OP_AND raw)
    else if xo = 32 then
      (if drop_bit 21 raw AND 1 \<noteq> 0
       then None
       else Some (inst\<lparr>op_f := PPC_OP_CMPL, crfD_f := ucast (drop_bit 23 raw AND 0x7),
           l_f := ucast (drop_bit 21 raw AND 0x1), rA_f := ucast (PPC_RA raw),
           rB_f := ucast (PPC_RB raw)\<rparr>))
    else if xo = 55 then Some (decode_x_rt_ra_rb_update inst PPC_OP_LWZUX raw)
    else if xo = 60 then Some (decode_x_rs_ra_rb inst PPC_OP_ANDC raw)
    else if xo = 75 then Some (decode_x_rt_ra_rb inst PPC_OP_MULHW raw)
    else if xo = 87 then Some (decode_x_rt_ra_rb_norc inst PPC_OP_LBZX raw)
    else if xo = 119 then Some (decode_x_rt_ra_rb_update inst PPC_OP_LBZUX raw)
    else if xo = 124 then Some (decode_x_rs_ra_rb inst PPC_OP_NOR raw)
    else if xo = 151 then Some (decode_x_rs_ra_rb_norc inst PPC_OP_STWX raw)
    else if xo = 183 then Some (decode_x_rs_ra_rb_update inst PPC_OP_STWUX raw)
    else if xo = 215 then Some (decode_x_rs_ra_rb_norc inst PPC_OP_STBX raw)
    else if xo = 247 then Some (decode_x_rs_ra_rb_update inst PPC_OP_STBUX raw)
    else if xo = 279 then Some (decode_x_rt_ra_rb_norc inst PPC_OP_LHZX raw)
    else if xo = 284 then Some (decode_x_rs_ra_rb inst PPC_OP_EQV raw)
    else if xo = 311 then Some (decode_x_rt_ra_rb_update inst PPC_OP_LHZUX raw)
    else if xo = 316 then Some (decode_x_rs_ra_rb inst PPC_OP_XOR raw)
    else if xo = 343 then Some (decode_x_rt_ra_rb_norc inst PPC_OP_LHAX raw)
    else if xo = 375 then Some (decode_x_rt_ra_rb_update inst PPC_OP_LHAUX raw)
    else if xo = 407 then Some (decode_x_rs_ra_rb_norc inst PPC_OP_STHX raw)
    else if xo = 412 then Some (decode_x_rs_ra_rb inst PPC_OP_ORC raw)
    else if xo = 439 then Some (decode_x_rs_ra_rb_update inst PPC_OP_STHUX raw)
    else if xo = 444 then Some (decode_x_rs_ra_rb inst PPC_OP_OR raw)
    else if xo = 476 then Some (decode_x_rs_ra_rb inst PPC_OP_NAND raw)
    else if xo = 512 then
      (if raw AND (push_bit 21 3 OR push_bit 16 0x1F OR push_bit 11 0x1F OR 1) = 0
       then Some (inst\<lparr>op_f := PPC_OP_MCRXR,
           crfD_f := ucast (drop_bit 23 raw AND 0x7)\<rparr>)
       else None)
    else if xo = 533 then
      (if \<not> PPC_RC raw \<and> PPC_RD raw \<noteq> PPC_RA raw \<and> PPC_RD raw \<noteq> PPC_RB raw
       then Some (decode_x_rt_ra_rb inst PPC_OP_LSWX raw)
       else None)
    else if xo = 534 then Some (decode_x_rt_ra_rb_norc inst PPC_OP_LWBRX raw)
    else if xo = 535 then Some (decode_x_rt_ra_rb_norc inst PPC_OP_LFSX raw)
    else if xo = 536 then Some (decode_x_rs_ra_rb inst PPC_OP_SRW raw)
    else if xo = 567 then Some (decode_x_frt_ra_rb_update inst PPC_OP_LFSUX raw)
    else if xo = 597 then
      (if \<not> PPC_RC raw \<and> \<not> reg_in_wrapped_range (ucast (PPC_RD raw))
         (string_register_count (ucast (PPC_RB raw))) (ucast (PPC_RA raw))
       then Some (inst\<lparr>op_f := PPC_OP_LSWI, rD_f := ucast (PPC_RD raw),
           rA_f := ucast (PPC_RA raw), nb_f := ucast (PPC_RB raw)\<rparr>)
       else None)
    else if xo = 599 then Some (decode_x_rt_ra_rb_norc inst PPC_OP_LFDX raw)
    else if xo = 631 then Some (decode_x_frt_ra_rb_update inst PPC_OP_LFDUX raw)
    else if xo = 661 then
      (if \<not> PPC_RC raw
       then Some (decode_x_rs_ra_rb inst PPC_OP_STSWX raw)
       else None)
    else if xo = 662 then Some (decode_x_rs_ra_rb_norc inst PPC_OP_STWBRX raw)
    else if xo = 663 then Some (decode_x_rs_ra_rb_norc inst PPC_OP_STFSX raw)
    else if xo = 695 then Some (decode_x_rs_ra_rb_update inst PPC_OP_STFSUX raw)
    else if xo = 727 then Some (decode_x_rs_ra_rb_norc inst PPC_OP_STFDX raw)
    else if xo = 759 then Some (decode_x_rs_ra_rb_update inst PPC_OP_STFDUX raw)
    else if xo = 725 then
      (if \<not> PPC_RC raw
       then Some (inst\<lparr>op_f := PPC_OP_STSWI, rS_f := ucast (PPC_RS raw),
           rA_f := ucast (PPC_RA raw), nb_f := ucast (PPC_RB raw)\<rparr>)
       else None)
    else if xo = 790 then Some (decode_x_rt_ra_rb_norc inst PPC_OP_LHBRX raw)
    else if xo = 792 then Some (decode_x_rs_ra_rb inst PPC_OP_SRAW raw)
    else if xo = 824 then
      Some (inst\<lparr>op_f := PPC_OP_SRAWI, rS_f := ucast (PPC_RS raw),
           rA_f := ucast (PPC_RA raw),
           sh_f := ucast (PPC_SH raw), rc_f := PPC_RC raw\<rparr>)
    else if xo = 918 then Some (decode_x_rs_ra_rb_norc inst PPC_OP_STHBRX raw)
    else if xo = 922 then Some (decode_x_rs_ra_rb inst PPC_OP_EXTSH raw)
    else if xo = 954 then Some (decode_x_rs_ra_rb inst PPC_OP_EXTSB raw)
    else if xo = 150 then
      (if PPC_RC raw
       then Some ((decode_x_rs_ra_rb inst PPC_OP_STWCX raw)\<lparr>rc_f := True\<rparr>)
       else None)
    else None)"

definition decode_primary_31 :: "PPCInst \<Rightarrow> u32 \<Rightarrow> u32 \<Rightarrow> PPCInst option" where
  "decode_primary_31 inst raw address =
    (case decode_primary_31_system inst raw address of
       Some decoded \<Rightarrow> Some decoded
     | None \<Rightarrow> decode_primary_31_integer inst raw address)"

definition or_unknown :: "PPCInst \<Rightarrow> PPCInst option \<Rightarrow> PPCInst" where
  "or_unknown inst decoded = (case decoded of Some i \<Rightarrow> i | None \<Rightarrow> inst\<lparr>op_f := PPC_OP_UNKNOWN\<rparr>)"

definition blank_inst :: "u32 \<Rightarrow> u32 \<Rightarrow> PPCInst" where
  "blank_inst raw address = \<lparr>op_f = PPC_OP_UNKNOWN, raw_word = raw, address_of = address,
     embedded_data = False, rD_f = 0, rA_f = 0, rS_f = 0, rB_f = 0, rC_f = 0, crfD_f = 0,
           crfS_f = 0,
     crm_f = 0, fm_f = 0, imm_f = 0, nb_f = 0, to_f = 0, sr_f = 0, l_f = 0, w_f = 0, i_f = 0,
     bo_f = 0, bi_f = 0, mb_f = 0, me_f = 0, sh_f = 0, simm_f = 0, uimm_f = 0, spr_f = 0,
     branch_target = 0, aa_f = False, lk_f = False, rc_f = False, oe_f = False\<rparr>"

definition decode_primary_storage :: "PPCInst \<Rightarrow> u32 \<Rightarrow> u32 \<Rightarrow> PPCInst" where
  "decode_primary_storage inst raw address = (
    let primary = PPC_PRIMARY raw in
    if primary = 32 then decode_d_rt_ra inst PPC_OP_LWZ raw
    else if primary = 33 then decode_d_rt_ra_update inst PPC_OP_LWZU raw
    else if primary = 34 then decode_d_rt_ra inst PPC_OP_LBZ raw
    else if primary = 35 then decode_d_rt_ra_update inst PPC_OP_LBZU raw
    else if primary = 36 then decode_d_rs_ra inst PPC_OP_STW raw
    else if primary = 37 then decode_d_rs_ra_update inst PPC_OP_STWU raw
    else if primary = 38 then decode_d_rs_ra inst PPC_OP_STB raw
    else if primary = 39 then decode_d_rs_ra_update inst PPC_OP_STBU raw
    else if primary = 40 then decode_d_rt_ra inst PPC_OP_LHZ raw
    else if primary = 41 then decode_d_rt_ra_update inst PPC_OP_LHZU raw
    else if primary = 42 then decode_d_rt_ra inst PPC_OP_LHA raw
    else if primary = 43 then decode_d_rt_ra_update inst PPC_OP_LHAU raw
    else if primary = 44 then decode_d_rs_ra inst PPC_OP_STH raw
    else if primary = 45 then decode_d_rs_ra_update inst PPC_OP_STHU raw
    else if primary = 46 then decode_d_rt_ra inst PPC_OP_LMW raw
    else if primary = 47 then decode_d_rs_ra inst PPC_OP_STMW raw
    else if primary = 48 then decode_d_rt_ra inst PPC_OP_LFS raw
    else if primary = 49 then decode_d_frt_ra_update inst PPC_OP_LFSU raw
    else if primary = 50 then decode_d_rt_ra inst PPC_OP_LFD raw
    else if primary = 51 then decode_d_frt_ra_update inst PPC_OP_LFDU raw
    else if primary = 52 then decode_d_rs_ra inst PPC_OP_STFS raw
    else if primary = 53 then decode_d_rs_ra_update inst PPC_OP_STFSU raw
    else if primary = 54 then decode_d_rs_ra inst PPC_OP_STFD raw
    else if primary = 55 then decode_d_rs_ra_update inst PPC_OP_STFDU raw
    else if primary = 56 then decode_psq_d_rt_ra inst PPC_OP_PSQ_L raw
    else if primary = 57 then decode_psq_d_rt_ra_update inst PPC_OP_PSQ_LU raw
    else if primary = 60 then decode_psq_d_rs_ra inst PPC_OP_PSQ_ST raw
    else if primary = 61 then decode_psq_d_rs_ra_update inst PPC_OP_PSQ_STU raw
    else if primary = 59 then or_unknown inst (decode_primary_59 inst raw address)
    else if primary = 63 then or_unknown inst (decode_primary_63 inst raw address)
    else inst\<lparr>op_f := PPC_OP_UNKNOWN\<rparr>)"

definition decode_primary :: "PPCInst \<Rightarrow> u32 \<Rightarrow> u32 \<Rightarrow> PPCInst" where
  "decode_primary inst raw address = (
    let primary = PPC_PRIMARY raw in
    if primary = 3 then
      inst\<lparr>op_f := PPC_OP_TWI, to_f := ucast (PPC_RD raw), rA_f := ucast (PPC_RA raw),
        simm_f := PPC_SIMM raw\<rparr>
    else if primary = 4 then or_unknown inst (decode_primary_4 inst raw address)
    else if primary = 7 then decode_d_rt_ra inst PPC_OP_MULLI raw
    else if primary = 8 then decode_d_rt_ra inst PPC_OP_SUBFIC raw
    else if primary = 10 then
      (if drop_bit 21 raw AND 1 \<noteq> 0 then inst\<lparr>op_f := PPC_OP_UNKNOWN\<rparr>
       else inst\<lparr>op_f := PPC_OP_CMPLI, crfD_f := ucast (drop_bit 23 raw AND 0x7),
           l_f := ucast (drop_bit 21 raw AND 0x1),
         rA_f := ucast (PPC_RA raw), uimm_f := PPC_UIMM raw\<rparr>)
    else if primary = 11 then
      (if drop_bit 21 raw AND 1 \<noteq> 0 then inst\<lparr>op_f := PPC_OP_UNKNOWN\<rparr>
       else inst\<lparr>op_f := PPC_OP_CMPI, crfD_f := ucast (drop_bit 23 raw AND 0x7),
           l_f := ucast (drop_bit 21 raw AND 0x1),
         rA_f := ucast (PPC_RA raw), simm_f := PPC_SIMM raw\<rparr>)
    else if primary = 12 then decode_d_rt_ra inst PPC_OP_ADDIC raw
    else if primary = 13 then (decode_d_rt_ra inst PPC_OP_ADDIC_DOT raw)\<lparr>rc_f := True\<rparr>
    else if primary = 14 then decode_d_rt_ra inst PPC_OP_ADDI raw
    else if primary = 15 then decode_d_rt_ra inst PPC_OP_ADDIS raw
    else if primary = 16 then
      (let displacement = sign_extend (raw AND 0xFFFC) 16; aa = drop_bit 1 raw AND 1 \<noteq> 0 in
       inst\<lparr>op_f := PPC_OP_BC, bo_f := ucast (PPC_BO raw), bi_f := ucast (PPC_BI raw),
         aa_f := aa, lk_f := (raw AND 1 \<noteq> 0),
         branch_target := (if aa then displacement else address + displacement)\<rparr>)
    else if primary = 17 then
      inst\<lparr>op_f := (if raw = 0x44000002 then PPC_OP_SC else PPC_OP_UNKNOWN)\<rparr>
    else if primary = 18 then
      (let displacement = sign_extend (raw AND 0x03FFFFFC) 26; aa = drop_bit 1 raw AND 1 \<noteq> 0 in
       inst\<lparr>op_f := PPC_OP_B, aa_f := aa, lk_f := (raw AND 1 \<noteq> 0),
         branch_target := (if aa then displacement else address + displacement)\<rparr>)
    else if primary = 19 then or_unknown inst (decode_primary_19 inst raw address)
    else if primary = 20 then inst\<lparr>op_f := PPC_OP_RLWIMI, rS_f := ucast (PPC_RS raw),
           rA_f := ucast (PPC_RA raw), sh_f := ucast (PPC_SH raw),
      mb_f := ucast (PPC_MB raw), me_f := ucast (PPC_ME raw), rc_f := PPC_RC raw\<rparr>
    else if primary = 21 then inst\<lparr>op_f := PPC_OP_RLWINM, rS_f := ucast (PPC_RS raw),
           rA_f := ucast (PPC_RA raw), sh_f := ucast (PPC_SH raw),
      mb_f := ucast (PPC_MB raw), me_f := ucast (PPC_ME raw), rc_f := PPC_RC raw\<rparr>
    else if primary = 23 then inst\<lparr>op_f := PPC_OP_RLWNM, rS_f := ucast (PPC_RS raw),
           rA_f := ucast (PPC_RA raw), rB_f := ucast (PPC_RB raw),
      mb_f := ucast (PPC_MB raw), me_f := ucast (PPC_ME raw), rc_f := PPC_RC raw\<rparr>
    else if primary = 24 then inst\<lparr>op_f := PPC_OP_ORI, rS_f := ucast (PPC_RS raw),
           rA_f := ucast (PPC_RA raw), uimm_f := PPC_UIMM raw\<rparr>
    else if primary = 25 then inst\<lparr>op_f := PPC_OP_ORIS, rS_f := ucast (PPC_RS raw),
           rA_f := ucast (PPC_RA raw), uimm_f := PPC_UIMM raw\<rparr>
    else if primary = 26 then inst\<lparr>op_f := PPC_OP_XORI, rS_f := ucast (PPC_RS raw),
           rA_f := ucast (PPC_RA raw), uimm_f := PPC_UIMM raw\<rparr>
    else if primary = 27 then inst\<lparr>op_f := PPC_OP_XORIS, rS_f := ucast (PPC_RS raw),
           rA_f := ucast (PPC_RA raw), uimm_f := PPC_UIMM raw\<rparr>
    else if primary = 28 then inst\<lparr>op_f := PPC_OP_ANDI, rS_f := ucast (PPC_RS raw),
           rA_f := ucast (PPC_RA raw), uimm_f := PPC_UIMM raw, rc_f := True\<rparr>
    else if primary = 29 then inst\<lparr>op_f := PPC_OP_ANDIS, rS_f := ucast (PPC_RS raw),
           rA_f := ucast (PPC_RA raw), uimm_f := PPC_UIMM raw, rc_f := True\<rparr>
    else if primary = 31 then or_unknown inst (decode_primary_31 inst raw address)
    else decode_primary_storage inst raw address)"

definition ppc_decode :: "u32 \<Rightarrow> u32 \<Rightarrow> PPCInst" where
  "ppc_decode raw address = decode_primary (blank_inst raw address) raw address"

section \<open>Reasoning about the tables\<close>

text \<open>A property of every decoded instruction is proved form by form: each form decoder keeps
  it, and a table only chooses between forms.\<close>

lemmas form_defs =
  decode_d_rt_ra_def decode_d_rt_ra_update_def decode_d_frt_ra_update_def decode_d_rs_ra_def
  decode_d_rs_ra_update_def decode_x_rt_ra_rb_def decode_x_rt_ra_rb_norc_def
  decode_x_rt_ra_rb_update_def decode_x_frt_ra_rb_update_def decode_xo_rt_ra_rb_def
  decode_x_rs_ra_rb_def decode_x_rs_ra_rb_norc_def decode_x_rs_ra_rb_update_def
  decode_a_frt_fra_frb_frc_def decode_x_frt_frb_def decode_fcmp_def decode_cr_logical_def
  decode_mtfsb_def decode_xo_rt_ra_def decode_psq_d_rt_ra_def decode_psq_d_rt_ra_update_def
  decode_psq_d_rs_ra_def decode_psq_d_rs_ra_update_def decode_psq_x_rt_ra_rb_def
  decode_psq_x_rt_ra_rb_norc_def decode_psq_x_rt_ra_rb_update_def decode_psq_x_rs_ra_rb_def
  decode_psq_x_rs_ra_rb_norc_def decode_psq_x_rs_ra_rb_update_def

lemmas float_tables = decode_primary_4_def decode_primary_59_def decode_primary_63_def
lemmas system_tables = decode_primary_19_def decode_primary_31_system_def
lemmas integer_tables = decode_primary_31_arith_def decode_primary_31_integer_def

lemma pred_option_if:
  "pred_option P (if b then x else y) = (if b then pred_option P x else pred_option P y)"
  by simp

lemma pred_option_ifI:
  assumes "pred_option P x" and "pred_option P y"
  shows "pred_option P (if b then x else y)"
  using assms by simp

lemma pred_option_SomeI: "P i \<Longrightarrow> pred_option P (Some i)"
  by simp

lemma pred_option_NoneI: "pred_option P None"
  by simp

lemma pred_option_tryI:
  assumes "pred_option P x" and "pred_option P y"
  shows "pred_option P (case x of Some i \<Rightarrow> Some i | None \<Rightarrow> y)"
  using assms by (cases x) simp_all

lemma pred_option_try:
  "pred_option P (case x of Some i \<Rightarrow> Some i | None \<Rightarrow> y) \<longleftrightarrow>
    pred_option P x \<and> (x = None \<longrightarrow> pred_option P y)"
  by (cases x) simp_all

lemma or_unknown_pred:
  assumes "pred_option P decoded" and "P (inst\<lparr>op_f := PPC_OP_UNKNOWN\<rparr>)"
  shows "P (or_unknown inst decoded)"
  using assms by (cases decoded) (simp_all add: or_unknown_def)

section \<open>Every decoded instruction is well formed\<close>

definition inst_ok :: "u32 \<Rightarrow> u32 \<Rightarrow> PPCInst \<Rightarrow> bool" where
  "inst_ok raw address i \<longleftrightarrow>
    raw_word i = raw \<and> address_of i = address \<and> \<not> embedded_data i \<and> op_f i < PPC_OP_COUNT \<and>
    rD_f i < 32 \<and> rA_f i < 32 \<and> rS_f i < 32 \<and> rB_f i < 32 \<and> rC_f i < 32 \<and>
    crfD_f i < 8 \<and> crfS_f i < 8 \<and> imm_f i < 16 \<and> nb_f i < 32 \<and> to_f i < 32 \<and> sr_f i < 16 \<and>
    l_f i < 2 \<and> w_f i < 2 \<and> i_f i < 8 \<and> bo_f i < 32 \<and> bi_f i < 32 \<and> mb_f i < 32 \<and>
    me_f i < 32 \<and> sh_f i < 32 \<and> spr_f i < 1024"

lemma inst_ok_forms:
  assumes "inst_ok raw address inst" and "op < PPC_OP_COUNT"
  shows "inst_ok raw address (decode_d_rt_ra inst op w)"
    "inst_ok raw address (decode_d_rt_ra_update inst op w)"
    "inst_ok raw address (decode_d_frt_ra_update inst op w)"
    "inst_ok raw address (decode_d_rs_ra inst op w)"
    "inst_ok raw address (decode_d_rs_ra_update inst op w)"
    "inst_ok raw address (decode_x_rt_ra_rb inst op w)"
    "inst_ok raw address (decode_x_rt_ra_rb_norc inst op w)"
    "inst_ok raw address (decode_x_rt_ra_rb_update inst op w)"
    "inst_ok raw address (decode_x_frt_ra_rb_update inst op w)"
    "inst_ok raw address (decode_xo_rt_ra_rb inst op w)"
    "inst_ok raw address (decode_x_rs_ra_rb inst op w)"
    "inst_ok raw address (decode_x_rs_ra_rb_norc inst op w)"
    "inst_ok raw address (decode_x_rs_ra_rb_update inst op w)"
    "inst_ok raw address (decode_a_frt_fra_frb_frc inst op w)"
    "inst_ok raw address (decode_x_frt_frb inst op w)"
    "inst_ok raw address (decode_fcmp inst op w)"
    "inst_ok raw address (decode_cr_logical inst op w)"
    "inst_ok raw address (decode_mtfsb inst op w)"
    "inst_ok raw address (decode_xo_rt_ra inst op w)"
    "inst_ok raw address (decode_psq_d_rt_ra inst op w)"
    "inst_ok raw address (decode_psq_d_rt_ra_update inst op w)"
    "inst_ok raw address (decode_psq_d_rs_ra inst op w)"
    "inst_ok raw address (decode_psq_d_rs_ra_update inst op w)"
    "inst_ok raw address (decode_psq_x_rt_ra_rb inst op w)"
    "inst_ok raw address (decode_psq_x_rt_ra_rb_norc inst op w)"
    "inst_ok raw address (decode_psq_x_rt_ra_rb_update inst op w)"
    "inst_ok raw address (decode_psq_x_rs_ra_rb inst op w)"
    "inst_ok raw address (decode_psq_x_rs_ra_rb_norc inst op w)"
    "inst_ok raw address (decode_psq_x_rs_ra_rb_update inst op w)"
  using assms by (simp_all add: inst_ok_def form_defs)

lemma inst_ok_update:
  assumes "inst_ok raw address i"
  shows "n < PPC_OP_COUNT \<Longrightarrow> inst_ok raw address (i\<lparr>op_f := n\<rparr>)"
    "x < 32 \<Longrightarrow> inst_ok raw address (i\<lparr>rD_f := x\<rparr>)"
    "x < 32 \<Longrightarrow> inst_ok raw address (i\<lparr>rA_f := x\<rparr>)"
    "x < 32 \<Longrightarrow> inst_ok raw address (i\<lparr>rS_f := x\<rparr>)"
    "x < 32 \<Longrightarrow> inst_ok raw address (i\<lparr>rB_f := x\<rparr>)"
    "x < 32 \<Longrightarrow> inst_ok raw address (i\<lparr>rC_f := x\<rparr>)"
    "x < 8 \<Longrightarrow> inst_ok raw address (i\<lparr>crfD_f := x\<rparr>)"
    "x < 8 \<Longrightarrow> inst_ok raw address (i\<lparr>crfS_f := x\<rparr>)"
    "x < 16 \<Longrightarrow> inst_ok raw address (i\<lparr>imm_f := x\<rparr>)"
    "x < 32 \<Longrightarrow> inst_ok raw address (i\<lparr>nb_f := x\<rparr>)"
    "x < 32 \<Longrightarrow> inst_ok raw address (i\<lparr>to_f := x\<rparr>)"
    "x < 16 \<Longrightarrow> inst_ok raw address (i\<lparr>sr_f := x\<rparr>)"
    "x < 2 \<Longrightarrow> inst_ok raw address (i\<lparr>l_f := x\<rparr>)"
    "x < 32 \<Longrightarrow> inst_ok raw address (i\<lparr>bo_f := x\<rparr>)"
    "x < 32 \<Longrightarrow> inst_ok raw address (i\<lparr>bi_f := x\<rparr>)"
    "x < 32 \<Longrightarrow> inst_ok raw address (i\<lparr>mb_f := x\<rparr>)"
    "x < 32 \<Longrightarrow> inst_ok raw address (i\<lparr>me_f := x\<rparr>)"
    "x < 32 \<Longrightarrow> inst_ok raw address (i\<lparr>sh_f := x\<rparr>)"
    "y < 1024 \<Longrightarrow> inst_ok raw address (i\<lparr>spr_f := y\<rparr>)"
    "inst_ok raw address (i\<lparr>crm_f := x\<rparr>)"
    "inst_ok raw address (i\<lparr>fm_f := x\<rparr>)"
    "inst_ok raw address (i\<lparr>simm_f := y\<rparr>)"
    "inst_ok raw address (i\<lparr>uimm_f := y\<rparr>)"
    "inst_ok raw address (i\<lparr>branch_target := z\<rparr>)"
    "inst_ok raw address (i\<lparr>aa_f := b\<rparr>)"
    "inst_ok raw address (i\<lparr>lk_f := b\<rparr>)"
    "inst_ok raw address (i\<lparr>rc_f := b\<rparr>)"
  using assms by (simp_all add: inst_ok_def)

lemma small_spr [simp]: "(ucast (PPC_SPR raw) :: u16) < 1024"
proof -
  have "unat (PPC_SPR raw) < 1024"
    using spr_less [of raw] by (simp add: word_less_nat_alt)
  then have "unat (ucast (PPC_SPR raw) :: u16) < 1024"
    by (simp add: unsigned_ucast_eq take_bit_nat_eq_self)
  then show ?thesis by (simp add: word_less_nat_alt)
qed

lemma inst_ok_blank: "inst_ok raw address (blank_inst raw address)"
  by (simp add: inst_ok_def blank_inst_def)

lemmas table_intros = pred_option_ifI pred_option_SomeI pred_option_NoneI pred_option_tryI
lemmas inst_ok_intros = inst_ok_forms inst_ok_update

lemma inst_ok_float:
  assumes "inst_ok raw address inst"
  shows "pred_option (inst_ok raw address) (decode_primary_4 inst w a)"
    and "pred_option (inst_ok raw address) (decode_primary_59 inst w a)"
    and "pred_option (inst_ok raw address) (decode_primary_63 inst w a)"
  unfolding float_tables Let_def
  by (intro table_intros inst_ok_intros assms; simp)+

lemma inst_ok_system:
  assumes "inst_ok raw address inst"
  shows "pred_option (inst_ok raw address) (decode_primary_19 inst w a)"
    and "pred_option (inst_ok raw address) (decode_primary_31_system inst w a)"
  unfolding system_tables Let_def
  by (intro table_intros inst_ok_intros assms; simp)+

lemma inst_ok_arith:
  assumes "inst_ok raw address inst"
  shows "pred_option (inst_ok raw address) (decode_primary_31_arith inst w a)"
  unfolding decode_primary_31_arith_def Let_def
  by (intro table_intros inst_ok_intros assms; simp)

lemma inst_ok_integer:
  assumes "inst_ok raw address inst"
  shows "pred_option (inst_ok raw address) (decode_primary_31_integer inst w a)"
  unfolding decode_primary_31_integer_def Let_def
  by (intro table_intros inst_ok_arith inst_ok_intros assms; simp)

lemma inst_ok_31:
  assumes "inst_ok raw address inst"
  shows "pred_option (inst_ok raw address) (decode_primary_31 inst w a)"
  unfolding decode_primary_31_def
  by (intro table_intros inst_ok_system inst_ok_integer assms)

lemma inst_ok_ifI:
  assumes "inst_ok raw address x" and "inst_ok raw address y"
  shows "inst_ok raw address (if b then x else y)"
  using assms by simp

lemmas inst_ok_unknownI = or_unknown_pred [where P = "inst_ok raw address" for raw address]

lemma inst_ok_decode: "inst_ok raw address (ppc_decode raw address)"
proof -
  note ok = inst_ok_blank [of raw address]
  have "inst_ok raw address (decode_primary_storage (blank_inst raw address) raw address)"
    unfolding decode_primary_storage_def Let_def
    by (intro inst_ok_ifI inst_ok_unknownI inst_ok_float inst_ok_intros ok; simp)
  then show ?thesis
    unfolding ppc_decode_def decode_primary_def Let_def
    by (intro inst_ok_ifI inst_ok_unknownI inst_ok_float inst_ok_system inst_ok_31 inst_ok_intros ok; simp)
qed

section \<open>Invalid forms are never executed\<close>

text \<open>An update form writes its effective address back to rA, so rA = 0 and, for an integer
  load, rA = rD are invalid; a string load must not overwrite its own base.\<close>

definition integer_update_loads :: "PPCOpcode list" where
  "integer_update_loads = [PPC_OP_LWZU, PPC_OP_LBZU, PPC_OP_LHZU, PPC_OP_LHAU,
     PPC_OP_LWZUX, PPC_OP_LBZUX, PPC_OP_LHZUX, PPC_OP_LHAUX]"

definition base_update_ops :: "PPCOpcode list" where
  "base_update_ops = [PPC_OP_STWU, PPC_OP_STBU, PPC_OP_STHU, PPC_OP_STWUX, PPC_OP_STBUX, PPC_OP_STHUX,
     PPC_OP_LFSU, PPC_OP_LFDU, PPC_OP_STFSU, PPC_OP_STFDU, PPC_OP_LFSUX, PPC_OP_LFDUX,
     PPC_OP_STFSUX, PPC_OP_STFDUX, PPC_OP_PSQ_LU, PPC_OP_PSQ_STU, PPC_OP_PSQ_LUX, PPC_OP_PSQ_STUX]"

definition base_ok :: "PPCInst \<Rightarrow> bool" where
  "base_ok i \<longleftrightarrow>
    (op_f i \<in> set integer_update_loads \<longrightarrow> rA_f i \<noteq> 0 \<and> rA_f i \<noteq> rD_f i) \<and>
    (op_f i \<in> set base_update_ops \<longrightarrow> rA_f i \<noteq> 0) \<and>
    (op_f i = PPC_OP_LSWX \<longrightarrow> rD_f i \<noteq> rA_f i \<and> rD_f i \<noteq> rB_f i) \<and>
    (op_f i = PPC_OP_LSWI \<longrightarrow>
       \<not> reg_in_wrapped_range (rD_f i) (string_register_count (nb_f i)) (rA_f i))"

definition plain_op :: "PPCOpcode \<Rightarrow> bool" where
  "plain_op n \<longleftrightarrow> n \<notin> set integer_update_loads \<and> n \<notin> set base_update_ops \<and>
    n \<noteq> PPC_OP_LSWX \<and> n \<noteq> PPC_OP_LSWI"

lemmas plain_simps = plain_op_def integer_update_loads_def base_update_ops_def

lemma base_ok_plain: "plain_op (op_f i) \<Longrightarrow> base_ok i"
  by (simp add: base_ok_def plain_op_def)

lemma base_ok_forms:
  assumes "plain_op op"
  shows "base_ok (decode_d_rt_ra inst op raw)"
    "base_ok (decode_d_rs_ra inst op raw)"
    "base_ok (decode_x_rt_ra_rb inst op raw)"
    "base_ok (decode_x_rt_ra_rb_norc inst op raw)"
    "base_ok (decode_xo_rt_ra_rb inst op raw)"
    "base_ok (decode_x_rs_ra_rb inst op raw)"
    "base_ok (decode_x_rs_ra_rb_norc inst op raw)"
    "base_ok (decode_a_frt_fra_frb_frc inst op raw)"
    "base_ok (decode_x_frt_frb inst op raw)"
    "base_ok (decode_fcmp inst op raw)"
    "base_ok (decode_cr_logical inst op raw)"
    "base_ok (decode_mtfsb inst op raw)"
    "base_ok (decode_xo_rt_ra inst op raw)"
    "base_ok (decode_psq_d_rt_ra inst op raw)"
    "base_ok (decode_psq_d_rs_ra inst op raw)"
    "base_ok (decode_psq_x_rt_ra_rb inst op raw)"
    "base_ok (decode_psq_x_rt_ra_rb_norc inst op raw)"
    "base_ok (decode_psq_x_rs_ra_rb inst op raw)"
    "base_ok (decode_psq_x_rs_ra_rb_norc inst op raw)"
  using assms by (simp_all add: base_ok_def plain_op_def form_defs)
  (simp_all add: integer_update_loads_def base_update_ops_def)

lemma update_classes:
  "op \<in> set integer_update_loads \<Longrightarrow>
    op \<notin> set base_update_ops \<and> op \<noteq> PPC_OP_LSWX \<and> op \<noteq> PPC_OP_LSWI \<and> op \<noteq> PPC_OP_UNKNOWN"
  "op \<in> set base_update_ops \<Longrightarrow>
    op \<notin> set integer_update_loads \<and> op \<noteq> PPC_OP_LSWX \<and> op \<noteq> PPC_OP_LSWI \<and> op \<noteq> PPC_OP_UNKNOWN"
  by (auto simp: integer_update_loads_def base_update_ops_def)

lemma unknown_plain [simp]:
  "PPC_OP_UNKNOWN \<notin> set integer_update_loads" "PPC_OP_UNKNOWN \<notin> set base_update_ops"
  by (simp_all add: integer_update_loads_def base_update_ops_def)

lemma base_ok_updates:
  "op \<in> set integer_update_loads \<Longrightarrow> base_ok (decode_d_rt_ra_update inst op raw)"
  "op \<in> set integer_update_loads \<Longrightarrow> base_ok (decode_x_rt_ra_rb_update inst op raw)"
  "op \<in> set base_update_ops \<Longrightarrow> base_ok (decode_d_frt_ra_update inst op raw)"
  "op \<in> set base_update_ops \<Longrightarrow> base_ok (decode_x_frt_ra_rb_update inst op raw)"
  "op \<in> set base_update_ops \<Longrightarrow> base_ok (decode_d_rs_ra_update inst op raw)"
  "op \<in> set base_update_ops \<Longrightarrow> base_ok (decode_x_rs_ra_rb_update inst op raw)"
  "op \<in> set base_update_ops \<Longrightarrow> base_ok (decode_psq_d_rt_ra_update inst op raw)"
  "op \<in> set base_update_ops \<Longrightarrow> base_ok (decode_psq_d_rs_ra_update inst op raw)"
  "op \<in> set base_update_ops \<Longrightarrow> base_ok (decode_psq_x_rt_ra_rb_update inst op raw)"
  "op \<in> set base_update_ops \<Longrightarrow> base_ok (decode_psq_x_rs_ra_rb_update inst op raw)"
  using update_classes [of op] by (simp_all add: base_ok_def form_defs)

lemma base_ok_float:
  "pred_option base_ok (decode_primary_4 inst raw a)"
  "pred_option base_ok (decode_primary_59 inst raw a)"
  "pred_option base_ok (decode_primary_63 inst raw a)"
  unfolding float_tables Let_def
  by (intro table_intros; ((rule base_ok_updates; simp add: plain_simps) |
        (rule base_ok_forms; simp add: plain_simps) |
        (rule base_ok_plain; simp add: plain_simps)))+

lemma base_ok_system:
  "pred_option base_ok (decode_primary_19 inst raw a)"
  "pred_option base_ok (decode_primary_31_system inst raw a)"
  unfolding system_tables Let_def
  by (intro table_intros; ((rule base_ok_forms; simp add: plain_simps) |
        (rule base_ok_plain; simp add: plain_simps)))+

lemma base_ok_arith: "pred_option base_ok (decode_primary_31_arith inst raw a)"
  unfolding decode_primary_31_arith_def Let_def
  by (intro table_intros; ((rule base_ok_forms; simp add: plain_simps) |
        (rule base_ok_plain; simp add: plain_simps)))

lemma base_ok_stwcx: "base_ok ((decode_x_rs_ra_rb inst PPC_OP_STWCX raw)\<lparr>rc_f := True\<rparr>)"
  by (rule base_ok_plain) (simp add: form_defs plain_simps)

lemma base_ok_string_loads:
  "PPC_RD raw \<noteq> PPC_RA raw \<Longrightarrow> PPC_RD raw \<noteq> PPC_RB raw \<Longrightarrow>
    base_ok (decode_x_rt_ra_rb inst PPC_OP_LSWX raw)"
  "\<not> reg_in_wrapped_range (ucast (PPC_RD raw)) (string_register_count (ucast (PPC_RB raw)))
      (ucast (PPC_RA raw)) \<Longrightarrow>
    base_ok (inst\<lparr>op_f := PPC_OP_LSWI, rD_f := ucast (PPC_RD raw), rA_f := ucast (PPC_RA raw),
      nb_f := ucast (PPC_RB raw)\<rparr>)"
  by (simp_all add: base_ok_def form_defs integer_update_loads_def base_update_ops_def)

lemma pred_option_guardI:
  assumes "b \<Longrightarrow> pred_option P x" and "pred_option P y"
  shows "pred_option P (if b then x else y)"
  using assms by simp

lemma base_ok_integer: "pred_option base_ok (decode_primary_31_integer inst raw a)"
  unfolding decode_primary_31_integer_def Let_def
  by (intro pred_option_tryI base_ok_arith pred_option_guardI pred_option_SomeI pred_option_NoneI;
      ((rule base_ok_updates; simp add: plain_simps) |
       (rule base_ok_string_loads; simp) |
       (rule base_ok_forms; simp add: plain_simps) |
       (rule base_ok_plain; simp add: form_defs plain_simps)))

lemma base_ok_31: "pred_option base_ok (decode_primary_31 inst raw a)"
  unfolding decode_primary_31_def
  by (intro pred_option_tryI base_ok_system base_ok_integer)

lemma base_ok_ifI:
  assumes "base_ok x" and "base_ok y"
  shows "base_ok (if b then x else y)"
  using assms by simp

lemmas base_ok_unknownI = or_unknown_pred [where P = base_ok]

lemma base_ok_decode: "base_ok (ppc_decode raw address)"
proof -
  have storage: "base_ok (decode_primary_storage inst raw address)" for inst
    unfolding decode_primary_storage_def Let_def
    by (intro base_ok_ifI base_ok_unknownI base_ok_float;
        ((rule base_ok_updates; simp add: plain_simps) |
         (rule base_ok_forms; simp add: plain_simps) |
         (rule base_ok_plain; simp add: form_defs plain_simps)))
  show ?thesis
    unfolding ppc_decode_def decode_primary_def Let_def
    by (intro base_ok_ifI base_ok_unknownI base_ok_float base_ok_system base_ok_31 storage;
        ((rule base_ok_forms; simp add: plain_simps) |
         (rule base_ok_plain; simp add: form_defs plain_simps)))
qed

section \<open>Floating-point classification\<close>

text \<open>The encodings that touch the floating-point unit, from the instruction set: the
  floating-point and quantised loads and stores, the arithmetic primaries 4, 59 and 63, and
  the indexed forms under primary 31.  \<open>dcbz_l\<close> is the only other instruction under 4.\<close>

definition fpu_indexed :: "u32 list" where
  "fpu_indexed = [535, 567, 599, 631, 663, 695, 727, 759, 983]"

definition fpu_encoding :: "u32 \<Rightarrow> u32 \<Rightarrow> bool" where
  "fpu_encoding primary xo \<longleftrightarrow>
    primary \<in> set [48, 49, 50, 51, 52, 53, 54, 55, 56, 57, 59, 60, 61, 63] \<or>
    primary = 4 \<and> xo \<noteq> 1014 \<or> primary = 31 \<and> xo \<in> set fpu_indexed"

definition fpu_ok :: "bool \<Rightarrow> PPCInst \<Rightarrow> bool" where
  "fpu_ok fpu i \<longleftrightarrow> op_f i = PPC_OP_UNKNOWN \<or> (ppc_op_uses_fpu (op_f i) \<longleftrightarrow> fpu)"

lemma fpu_ok_forms:
  assumes "ppc_op_uses_fpu op \<longleftrightarrow> fpu"
  shows "fpu_ok fpu (decode_d_rt_ra inst op raw)"
    "fpu_ok fpu (decode_d_rt_ra_update inst op raw)"
    "fpu_ok fpu (decode_d_frt_ra_update inst op raw)"
    "fpu_ok fpu (decode_d_rs_ra inst op raw)"
    "fpu_ok fpu (decode_d_rs_ra_update inst op raw)"
    "fpu_ok fpu (decode_x_rt_ra_rb inst op raw)"
    "fpu_ok fpu (decode_x_rt_ra_rb_norc inst op raw)"
    "fpu_ok fpu (decode_x_rt_ra_rb_update inst op raw)"
    "fpu_ok fpu (decode_x_frt_ra_rb_update inst op raw)"
    "fpu_ok fpu (decode_xo_rt_ra_rb inst op raw)"
    "fpu_ok fpu (decode_x_rs_ra_rb inst op raw)"
    "fpu_ok fpu (decode_x_rs_ra_rb_norc inst op raw)"
    "fpu_ok fpu (decode_x_rs_ra_rb_update inst op raw)"
    "fpu_ok fpu (decode_a_frt_fra_frb_frc inst op raw)"
    "fpu_ok fpu (decode_x_frt_frb inst op raw)"
    "fpu_ok fpu (decode_fcmp inst op raw)"
    "fpu_ok fpu (decode_cr_logical inst op raw)"
    "fpu_ok fpu (decode_mtfsb inst op raw)"
    "fpu_ok fpu (decode_xo_rt_ra inst op raw)"
    "fpu_ok fpu (decode_psq_d_rt_ra inst op raw)"
    "fpu_ok fpu (decode_psq_d_rt_ra_update inst op raw)"
    "fpu_ok fpu (decode_psq_d_rs_ra inst op raw)"
    "fpu_ok fpu (decode_psq_d_rs_ra_update inst op raw)"
    "fpu_ok fpu (decode_psq_x_rt_ra_rb inst op raw)"
    "fpu_ok fpu (decode_psq_x_rt_ra_rb_norc inst op raw)"
    "fpu_ok fpu (decode_psq_x_rt_ra_rb_update inst op raw)"
    "fpu_ok fpu (decode_psq_x_rs_ra_rb inst op raw)"
    "fpu_ok fpu (decode_psq_x_rs_ra_rb_norc inst op raw)"
    "fpu_ok fpu (decode_psq_x_rs_ra_rb_update inst op raw)"
  using assms by (simp_all add: fpu_ok_def form_defs)

lemma fpu_ok_direct: "op_f i = PPC_OP_UNKNOWN \<or> (ppc_op_uses_fpu (op_f i) \<longleftrightarrow> fpu) \<Longrightarrow> fpu_ok fpu i"
  by (simp add: fpu_ok_def)

text \<open>In a chain of tests on one scrutinee the branch for a constant may use that constant.\<close>

lemma chain_step:
  assumes "pred_option (P c) y" and "x \<noteq> c \<Longrightarrow> pred_option (P x) z"
  shows "pred_option (P x) (if x = c then y else z)"
  using assms by simp

lemma chain_step_inst:
  assumes "fpu_ok (fpu_encoding c xo) y" and "x \<noteq> c \<Longrightarrow> fpu_ok (fpu_encoding x xo) z"
  shows "fpu_ok (fpu_encoding x xo) (if x = c then y else z)"
  using assms by simp

lemmas fpu_simps = fpu_encoding_def fpu_indexed_def ppc_op_uses_fpu_def

lemma fpu_ok_float:
  "pred_option (\<lambda>i. fpu_ok (fpu_encoding 4 (PPC_XO raw)) i) (decode_primary_4 inst raw a)"
  "pred_option (fpu_ok (fpu_encoding 59 xo)) (decode_primary_59 inst raw a)"
  "pred_option (fpu_ok (fpu_encoding 63 xo)) (decode_primary_63 inst raw a)"
  subgoal
    unfolding decode_primary_4_def Let_def
    by (rule chain_step [where x = "PPC_XO raw" and P = "\<lambda>x. fpu_ok (fpu_encoding 4 x)"] |
      rule table_intros | (rule fpu_ok_forms; simp add: fpu_simps) | (rule fpu_ok_direct; simp add: fpu_simps))+
  subgoal
    unfolding decode_primary_59_def Let_def
    by (intro table_intros; rule fpu_ok_forms; simp add: fpu_simps)
  subgoal
    unfolding decode_primary_63_def Let_def
    by (intro table_intros;
        ((rule fpu_ok_forms; simp add: fpu_simps) | (rule fpu_ok_direct; simp add: fpu_simps)))
  done

lemma fpu_ok_19: "pred_option (fpu_ok (fpu_encoding 19 xo)) (decode_primary_19 inst raw a)"
  unfolding decode_primary_19_def Let_def
  by (intro table_intros;
      ((rule fpu_ok_forms; simp add: fpu_simps) | (rule fpu_ok_direct; simp add: fpu_simps)))

lemma fpu_ok_31_system:
  "pred_option (fpu_ok (fpu_encoding 31 (PPC_XO raw))) (decode_primary_31_system inst raw a)"
  unfolding decode_primary_31_system_def Let_def
  by (rule chain_step [where x = "PPC_XO raw" and P = "\<lambda>x. fpu_ok (fpu_encoding 31 x)"] |
      rule table_intros | (rule fpu_ok_forms; simp add: fpu_simps) | (rule fpu_ok_direct; simp add: fpu_simps))+

lemma indexed_not_arith:
  assumes "xo AND 0x1FF = c" and "c \<in> set [8, 10, 40, 104, 136, 138, 200, 202, 232, 234, 235, 266, 459, 491]"
  shows "\<not> fpu_encoding 31 xo"
proof
  assume "fpu_encoding 31 xo"
  then have "xo \<in> set fpu_indexed" by (simp add: fpu_encoding_def)
  then have "xo AND 0x1FF \<in> set [23, 55, 87, 119, 151, 183, 215, 247, 471]"
    by (auto simp: fpu_indexed_def)
  with assms show False by auto
qed

lemma chain_step_arith:
  assumes "xo AND 0x1FF = c \<Longrightarrow> pred_option (fpu_ok (fpu_encoding 31 xo)) y"
    and "pred_option (fpu_ok (fpu_encoding 31 xo)) z"
  shows "pred_option (fpu_ok (fpu_encoding 31 xo)) (if xo AND 0x1FF = c then y else z)"
  using assms by simp

lemma fpu_ok_31_arith:
  "pred_option (fpu_ok (fpu_encoding 31 (PPC_XO raw))) (decode_primary_31_arith inst raw a)"
  unfolding decode_primary_31_arith_def Let_def
  by (rule chain_step_arith | rule table_intros |
      (drule indexed_not_arith, simp, rule fpu_ok_forms, simp add: ppc_op_uses_fpu_def))+

lemma fpu_ok_31_integer:
  "pred_option (fpu_ok (fpu_encoding 31 (PPC_XO raw))) (decode_primary_31_integer inst raw a)"
  unfolding decode_primary_31_integer_def Let_def
  by (rule pred_option_tryI [OF fpu_ok_31_arith],
      (rule chain_step [where x = "PPC_XO raw" and P = "\<lambda>x. fpu_ok (fpu_encoding 31 x)"] |
      rule table_intros | (rule fpu_ok_forms; simp add: fpu_simps) |
      (rule fpu_ok_direct; simp add: form_defs fpu_simps))+)

lemma fpu_ok_31: "pred_option (fpu_ok (fpu_encoding 31 (PPC_XO raw))) (decode_primary_31 inst raw a)"
  unfolding decode_primary_31_def
  by (intro pred_option_tryI fpu_ok_31_system fpu_ok_31_integer)

lemmas fpu_ok_unknownI = or_unknown_pred [where P = "fpu_ok fpu" for fpu]

lemma fpu_ok_decode: "fpu_ok (fpu_encoding (PPC_PRIMARY raw) (PPC_XO raw)) (ppc_decode raw address)"
proof -
  have forms: "fpu_ok (fpu_encoding (PPC_PRIMARY raw) (PPC_XO raw)) (decode_primary_storage inst raw address)"
    if primary: "PPC_PRIMARY raw \<noteq> 4" "PPC_PRIMARY raw \<noteq> 31" for inst
    unfolding decode_primary_storage_def Let_def
    by (rule chain_step_inst fpu_ok_unknownI fpu_ok_float |
        (rule fpu_ok_forms; simp add: fpu_simps) | (rule fpu_ok_direct; simp add: fpu_simps primary))+
  show ?thesis
    unfolding ppc_decode_def decode_primary_def Let_def
    by (assumption | rule chain_step_inst fpu_ok_unknownI fpu_ok_float fpu_ok_19 fpu_ok_31 forms |
        (rule fpu_ok_forms; simp add: fpu_simps) | (rule fpu_ok_direct; simp add: form_defs fpu_simps))+
qed

end
