(* ===== verification/DecoderFacts.thy ===== *)
theory DecoderFacts
  imports Decoder
begin

text \<open>
  What the decoder of src/DolRecomp/src/frontend promises: the instruction it returns is well
  formed and never an invalid update or string form, its floating-point class is the one of
  the encoding, and it inverts an assembler written from the instruction set, sign extension
  and branch targets included.
\<close>

section \<open>Sign extension\<close>

lemma sign_extend_signed:
  fixes v :: u32
  assumes k: "k < 32" and small: "\<And>n. k < n \<Longrightarrow> \<not> bit v n"
  shows "sign_extend v (Suc k) = signed_take_bit k v"
proof (cases "bit v k")
  case False
  have "v XOR push_bit k 1 = v OR push_bit k 1"
    using False by (intro bit_word_eqI) (auto simp: bit_simps)
  also have "\<dots> = v + push_bit k 1"
    using False by (intro disjunctive_add [symmetric]) (auto simp: bit_simps)
  finally have "sign_extend v (Suc k) = v" by (simp add: sign_extend_def)
  also have "\<dots> = signed_take_bit k v"
  proof (rule bit_word_eqI)
    fix n assume "n < LENGTH(32)"
    then show "bit v n = bit (signed_take_bit k v) n"
      using False small [of n] by (cases "n \<le> k") (auto simp: bit_simps min_def)
  qed
  finally show ?thesis .
next
  case True
  let ?w = "v XOR push_bit k 1"
  have "- push_bit k (1 :: u32) = NOT (mask k)"
    by (simp add: minus_eq_not_minus_1 mask_eq_exp_minus_1 push_bit_eq_mult)
  then have "sign_extend v (Suc k) = ?w + NOT (mask k)"
    unfolding sign_extend_def Let_def diff_conv_add_uminus by simp
  also have "\<dots> = ?w OR NOT (mask k)"
    using True small by (intro disjunctive_add) (auto simp: bit_simps not_less le_less)
  also have "\<dots> = signed_take_bit k v"
    using True small k by (intro bit_word_eqI) (auto simp: bit_simps min_def)
  finally show ?thesis .
qed

section \<open>An assembler\<close>

definition encode_d :: "6 word \<Rightarrow> 5 word \<Rightarrow> 5 word \<Rightarrow> 16 word \<Rightarrow> u32" where
  "encode_d p rt ra imm =
    push_bit 26 (ucast p) OR push_bit 21 (ucast rt) OR push_bit 16 (ucast ra) OR ucast imm"

definition encode_xo :: "6 word \<Rightarrow> 5 word \<Rightarrow> 5 word \<Rightarrow> 5 word \<Rightarrow> 1 word \<Rightarrow> 9 word \<Rightarrow> 1 word \<Rightarrow> u32" where
  "encode_xo p rt ra rb oe xo rc =
    push_bit 26 (ucast p) OR push_bit 21 (ucast rt) OR push_bit 16 (ucast ra) OR push_bit 11 (ucast rb) OR
    push_bit 10 (ucast oe) OR push_bit 1 (ucast xo) OR ucast rc"

definition encode_i :: "6 word \<Rightarrow> 24 word \<Rightarrow> 1 word \<Rightarrow> 1 word \<Rightarrow> u32" where
  "encode_i p li aa lk =
    push_bit 26 (ucast p) OR push_bit 2 (ucast li) OR push_bit 1 (ucast aa) OR ucast lk"

definition encode_bc :: "6 word \<Rightarrow> 5 word \<Rightarrow> 5 word \<Rightarrow> 14 word \<Rightarrow> 1 word \<Rightarrow> 1 word \<Rightarrow> u32" where
  "encode_bc p bo bi bd aa lk =
    push_bit 26 (ucast p) OR push_bit 21 (ucast bo) OR push_bit 16 (ucast bi) OR push_bit 2 (ucast bd) OR
    push_bit 1 (ucast aa) OR ucast lk"

lemmas encode_defs = encode_d_def encode_xo_def encode_i_def encode_bc_def

lemma masks:
  "(0x1F :: u32) = mask 5" "(0x3FF :: u32) = mask 10" "(0xFFFF :: u32) = mask 16" "(1 :: u32) = mask 1"
  "(0x1FF :: u32) = mask 9"
  by (simp_all add: mask_eq_exp_minus_1)

lemma flag_bit: "x AND 1 \<noteq> 0 \<longleftrightarrow> bit x 0" for x :: u32
  by (simp add: and_one_eq bit_0 odd_iff_mod_2_eq_one)

lemma bit_beyond: "LENGTH('a) \<le> n \<Longrightarrow> \<not> bit (x :: 'a::len word) n"
  using bit_imp_le_length by (metis leD)

lemma encode_d_fields:
  "PPC_PRIMARY (encode_d p rt ra imm) = ucast p" "PPC_RD (encode_d p rt ra imm) = ucast rt"
  "PPC_RS (encode_d p rt ra imm) = ucast rt" "PPC_RA (encode_d p rt ra imm) = ucast ra"
  "PPC_SIMM (encode_d p rt ra imm) = imm" "PPC_UIMM (encode_d p rt ra imm) = imm"
  unfolding PPC_PRIMARY_def PPC_RD_def PPC_RS_def PPC_RA_def PPC_SIMM_def PPC_UIMM_def encode_d_def masks
  by (rule bit_word_eqI; simp add: bit_simps bit_beyond del: push_bit_Suc cong: conj_cong;
      auto simp del: push_bit_Suc dest: bit_imp_le_length)+

lemma encode_xo_fields:
  "PPC_PRIMARY (encode_xo p rt ra rb oe xo rc) = ucast p"
  "PPC_RD (encode_xo p rt ra rb oe xo rc) = ucast rt"
  "PPC_RA (encode_xo p rt ra rb oe xo rc) = ucast ra"
  "PPC_RB (encode_xo p rt ra rb oe xo rc) = ucast rb"
  unfolding PPC_PRIMARY_def PPC_RD_def PPC_RA_def PPC_RB_def encode_xo_def masks
  by (rule bit_word_eqI; simp add: bit_simps bit_beyond del: push_bit_Suc cong: conj_cong;
      auto simp del: push_bit_Suc dest: bit_imp_le_length)+

lemma encode_xo_opcode: "PPC_XO (encode_xo p rt ra rb oe xo rc) = ucast xo OR push_bit 9 (ucast oe)"
proof (rule bit_word_eqI)
  fix n assume "n < LENGTH(32)"
  show "bit (PPC_XO (encode_xo p rt ra rb oe xo rc)) n = bit (ucast xo OR push_bit 9 (ucast oe) :: u32) n"
  proof (cases "n < 9")
    case True
    then show ?thesis
      unfolding PPC_XO_def encode_xo_def masks
      by (simp add: bit_simps bit_beyond del: push_bit_Suc)
  next
    case False
    then show ?thesis
      unfolding PPC_XO_def encode_xo_def masks
      by (cases "n = 9") (simp_all add: bit_simps bit_beyond del: push_bit_Suc)
  qed
qed

lemma one_bit_cases: "x = 0 \<or> x = 1" for x :: "1 word"
proof -
  have "uint x < 2" using uint_lt2p [of x] by simp
  with uint_ge_0 [of x] have "uint x = 0 \<or> uint x = 1" by linarith
  then show ?thesis
    by (simp add: word_uint_eq_iff)
qed

lemma reg_byte: "(ucast (ucast (x :: 5 word) :: u32) :: u8) = ucast x"
  by (rule bit_word_eqI) (auto simp: bit_simps dest: bit_imp_le_length)

lemma displacement_24: "sign_extend (push_bit 2 (ucast (li :: 24 word))) 26 = push_bit 2 (scast li)"
proof -
  have "sign_extend (push_bit 2 (ucast li)) (Suc 25) = signed_take_bit 25 (push_bit 2 (ucast li))"
    by (rule sign_extend_signed) (auto simp: bit_simps dest: bit_imp_le_length)
  also have "\<dots> = push_bit 2 (scast li)"
  proof (rule bit_word_eqI)
    fix n assume "n < LENGTH(32)"
    then show "bit (signed_take_bit 25 (push_bit 2 (ucast li :: u32))) n = bit (push_bit 2 (scast li) :: u32) n"
      by (cases n "25 :: nat" rule: linorder_cases) (auto simp: bit_simps min_def)
  qed
  finally show ?thesis by simp
qed

lemma displacement_14: "sign_extend (push_bit 2 (ucast (bd :: 14 word))) 16 = push_bit 2 (scast bd)"
proof -
  have "sign_extend (push_bit 2 (ucast bd)) (Suc 15) = signed_take_bit 15 (push_bit 2 (ucast bd))"
    by (rule sign_extend_signed) (auto simp: bit_simps dest: bit_imp_le_length)
  also have "\<dots> = push_bit 2 (scast bd)"
  proof (rule bit_word_eqI)
    fix n assume "n < LENGTH(32)"
    then show "bit (signed_take_bit 15 (push_bit 2 (ucast bd :: u32))) n = bit (push_bit 2 (scast bd) :: u32) n"
      by (cases n "15 :: nat" rule: linorder_cases) (auto simp: bit_simps min_def)
  qed
  finally show ?thesis by simp
qed

lemma encode_flags:
  "PPC_RC (encode_xo p rt ra rb oe xo rc) \<longleftrightarrow> bit rc 0"
  "drop_bit 10 (encode_xo p rt ra rb oe xo rc) AND 1 \<noteq> 0 \<longleftrightarrow> bit oe 0"
  "drop_bit 1 (encode_i p li aa lk) AND 1 \<noteq> 0 \<longleftrightarrow> bit aa 0"
  "encode_i p li aa lk AND 1 \<noteq> 0 \<longleftrightarrow> bit lk 0"
  "drop_bit 1 (encode_bc p bo bi bd aa lk) AND 1 \<noteq> 0 \<longleftrightarrow> bit aa 0"
  "encode_bc p bo bi bd aa lk AND 1 \<noteq> 0 \<longleftrightarrow> bit lk 0"
  unfolding PPC_RC_def flag_bit encode_defs by (simp_all add: bit_simps bit_beyond del: push_bit_Suc)

lemma disp_masks:
  "(0x03FFFFFC :: u32) = push_bit 2 (mask 24)" "(0xFFFC :: u32) = push_bit 2 (mask 14)"
  by (simp_all add: mask_eq_exp_minus_1)

lemma encode_i_fields:
  "PPC_PRIMARY (encode_i p li aa lk) = ucast p"
  "encode_i p li aa lk AND 0x03FFFFFC = push_bit 2 (ucast li)"
  unfolding PPC_PRIMARY_def encode_i_def disp_masks
  by (rule bit_word_eqI; simp add: bit_simps bit_beyond del: push_bit_Suc cong: conj_cong;
      auto simp del: push_bit_Suc dest: bit_imp_le_length)+

lemma encode_bc_fields:
  "PPC_PRIMARY (encode_bc p bo bi bd aa lk) = ucast p"
  "PPC_BO (encode_bc p bo bi bd aa lk) = ucast bo"
  "PPC_BI (encode_bc p bo bi bd aa lk) = ucast bi"
  "encode_bc p bo bi bd aa lk AND 0xFFFC = push_bit 2 (ucast bd)"
  unfolding PPC_PRIMARY_def PPC_BO_def PPC_BI_def encode_bc_def disp_masks masks
  by (rule bit_word_eqI; simp add: bit_simps bit_beyond del: push_bit_Suc cong: conj_cong;
      auto simp del: push_bit_Suc dest: bit_imp_le_length)+

section \<open>Decoding what the assembler wrote\<close>

definition d_form_loads :: "(6 word \<times> PPCOpcode) list" where
  "d_form_loads = [(7, PPC_OP_MULLI), (8, PPC_OP_SUBFIC), (12, PPC_OP_ADDIC), (14, PPC_OP_ADDI),
     (15, PPC_OP_ADDIS), (32, PPC_OP_LWZ), (34, PPC_OP_LBZ), (40, PPC_OP_LHZ), (42, PPC_OP_LHA),
     (46, PPC_OP_LMW), (48, PPC_OP_LFS), (50, PPC_OP_LFD)]"

definition d_form_stores :: "(6 word \<times> PPCOpcode) list" where
  "d_form_stores = [(36, PPC_OP_STW), (38, PPC_OP_STB), (44, PPC_OP_STH), (47, PPC_OP_STMW),
     (52, PPC_OP_STFS), (54, PPC_OP_STFD)]"

definition xo_form_ops :: "(9 word \<times> PPCOpcode \<times> PPCOpcode) list" where
  "xo_form_ops = [(8, PPC_OP_SUBFC, PPC_OP_SUBFCO), (10, PPC_OP_ADDC, PPC_OP_ADDCO),
     (40, PPC_OP_SUBF, PPC_OP_SUBFO), (136, PPC_OP_SUBFE, PPC_OP_SUBFEO),
     (138, PPC_OP_ADDE, PPC_OP_ADDEO), (235, PPC_OP_MULLW, PPC_OP_MULLWO),
     (266, PPC_OP_ADD, PPC_OP_ADDO), (459, PPC_OP_DIVWU, PPC_OP_DIVWUO),
     (491, PPC_OP_DIVW, PPC_OP_DIVWO)]"

lemma decode_d_loads:
  "\<forall>(p, opc) \<in> set d_form_loads. ppc_decode (encode_d p rt ra imm) address =
     (blank_inst (encode_d p rt ra imm) address)
       \<lparr>op_f := opc, rD_f := ucast rt, rA_f := ucast ra, simm_f := imm\<rparr>"
  by (simp add: d_form_loads_def ppc_decode_def decode_primary_def decode_primary_storage_def
      encode_d_fields reg_byte decode_d_rt_ra_def)

lemma decode_d_stores:
  "\<forall>(p, opc) \<in> set d_form_stores. ppc_decode (encode_d p rt ra imm) address =
     (blank_inst (encode_d p rt ra imm) address)
       \<lparr>op_f := opc, rS_f := ucast rt, rA_f := ucast ra, simm_f := imm\<rparr>"
  by (simp add: d_form_stores_def ppc_decode_def decode_primary_def decode_primary_storage_def
      encode_d_fields reg_byte decode_d_rs_ra_def)

lemma decode_i:
  "ppc_decode (encode_i 18 li aa lk) address =
     (blank_inst (encode_i 18 li aa lk) address)
       \<lparr>op_f := PPC_OP_B, aa_f := bit aa 0, lk_f := bit lk 0,
         branch_target := (if bit aa 0 then 0 else address) + push_bit 2 (scast li)\<rparr>"
  unfolding ppc_decode_def decode_primary_def Let_def encode_flags encode_i_fields displacement_24
  by simp

lemma decode_bc:
  "ppc_decode (encode_bc 16 bo bi bd aa lk) address =
     (blank_inst (encode_bc 16 bo bi bd aa lk) address)
       \<lparr>op_f := PPC_OP_BC, bo_f := ucast bo, bi_f := ucast bi, aa_f := bit aa 0, lk_f := bit lk 0,
         branch_target := (if bit aa 0 then 0 else address) + push_bit 2 (scast bd)\<rparr>"
  unfolding ppc_decode_def decode_primary_def Let_def encode_flags encode_bc_fields displacement_14
  by (simp add: reg_byte)

lemma decode_xo:
  "\<forall>(xo, opc, opc_o) \<in> set xo_form_ops. ppc_decode (encode_xo 31 rt ra rb oe xo rc) address =
     (blank_inst (encode_xo 31 rt ra rb oe xo rc) address)
       \<lparr>op_f := (if bit oe 0 then opc_o else opc), rD_f := ucast rt, rA_f := ucast ra, rB_f := ucast rb,
         rc_f := bit rc 0, oe_f := bit oe 0\<rparr>"
proof -
  have arith: "\<forall>(xo, opc, opc_o) \<in> set xo_form_ops.
      decode_primary_31 inst (encode_xo 31 rt ra rb oe xo rc) address =
      Some (decode_xo_rt_ra_rb inst (if bit oe 0 then opc_o else opc) (encode_xo 31 rt ra rb oe xo rc))"
    if "oe = 0 \<or> oe = 1" for inst
    using that
    by (elim disjE; simp add: xo_form_ops_def decode_primary_31_def decode_primary_31_system_def
        decode_primary_31_integer_def decode_primary_31_arith_def encode_xo_opcode encode_flags)
  show ?thesis
    using arith [OF one_bit_cases]
    by (simp add: xo_form_ops_def ppc_decode_def decode_primary_def or_unknown_def encode_xo_fields
        encode_flags decode_xo_rt_ra_rb_def decode_x_rt_ra_rb_def reg_byte)
qed

section \<open>String registers\<close>

lemma reg_scan_iff:
  "reg_scan start reg i n \<longleftrightarrow> (\<exists>k<n. (ucast start + i + of_nat k) mod 32 = (ucast reg :: u32))"
proof (induction n arbitrary: i)
  case (Suc n)
  have "(\<exists>k<Suc n. (ucast start + i + of_nat k) mod 32 = (ucast reg :: u32)) \<longleftrightarrow>
      (ucast start + i) mod 32 = (ucast reg :: u32) \<or>
      (\<exists>k<n. (ucast start + (i + 1) + of_nat k) mod 32 = (ucast reg :: u32))"
    by (simp add: Ex_less_Suc2 algebra_simps)
  then show ?case by (simp add: Suc.IH)
qed simp

lemma wrapped_register:
  fixes start reg :: u8
  assumes "k < 64"
  shows "(ucast start + of_nat k) mod 32 = (ucast reg :: u32) \<longleftrightarrow> (unat start + k) mod 32 = unat reg"
proof -
  have byte: "unat b < 256" for b :: u8
    using unsigned_less [of b, where ?'a = nat] by simp
  have "unat (ucast start + of_nat k :: u32) = unat start + k"
    using assms byte [of start]
    by (simp add: unat_word_ariths unsigned_ucast_eq take_bit_nat_eq_self unat_of_nat)
  then have "unat ((ucast start + of_nat k) mod 32 :: u32) = (unat start + k) mod 32"
    by (simp add: unat_mod)
  moreover have "unat (ucast reg :: u32) = unat reg"
    using byte [of reg] by (simp add: unsigned_ucast_eq take_bit_nat_eq_self)
  ultimately show ?thesis by (simp add: word_unat_eq_iff)
qed

lemma string_register_count_nat:
  assumes "bytes < 32"
  shows "unat (string_register_count bytes) = (if bytes = 0 then 8 else (unat bytes + 3) div 4)"
proof -
  have "unat bytes < 32" using assms by (simp add: word_less_nat_alt)
  then show ?thesis
    by (simp add: string_register_count_def Let_def unat_div unat_word_ariths unsigned_ucast_eq
        take_bit_nat_eq_self)
qed

lemma reg_in_wrapped_range_iff:
  assumes "bytes < 32"
  shows "reg_in_wrapped_range start (string_register_count bytes) reg \<longleftrightarrow>
    (\<exists>k < (if bytes = 0 then 8 else (unat bytes + 3) div 4). (unat start + k) mod 32 = unat reg)"
proof -
  let ?n = "unat (string_register_count bytes)"
  have "unat bytes < 32" using assms by (simp add: word_less_nat_alt)
  then have "(unat bytes + 3) div 4 < 64" by linarith
  then have n: "?n < 64" by (simp add: string_register_count_nat assms)
  have "reg_in_wrapped_range start (string_register_count bytes) reg \<longleftrightarrow>
      (\<exists>k < ?n. (ucast start + of_nat k) mod 32 = (ucast reg :: u32))"
    by (simp add: reg_in_wrapped_range_def reg_scan_iff)
  also have "\<dots> \<longleftrightarrow> (\<exists>k < ?n. (unat start + k) mod 32 = unat reg)"
    using n by (intro ex_cong1 conj_cong refl wrapped_register) simp
  finally show ?thesis by (simp add: string_register_count_nat assms)
qed

section \<open>The decoder's contract\<close>

text \<open>C25: for every word and address the decoder returns a well-formed instruction: it carries
  the word and the address, its opcode is in the enumeration and every register, condition,
  shift and special-register field is in range.\<close>

theorem decoder_well_formed: "inst_ok raw address (ppc_decode raw address)"
  by (rule inst_ok_decode)

text \<open>C26: the decoder never returns an invalid form.  An update instruction has a base register
  other than r0 (and, for an integer load, other than the target), and no register a string
  load writes, counting from rD and wrapping from r31 to r0, is its base.\<close>

theorem decoder_rejects_invalid_forms:
  "let i = ppc_decode raw address in
    (op_f i \<in> set integer_update_loads \<longrightarrow> rA_f i \<noteq> 0 \<and> rA_f i \<noteq> rD_f i) \<and>
    (op_f i \<in> set base_update_ops \<longrightarrow> rA_f i \<noteq> 0) \<and>
    (op_f i = PPC_OP_LSWX \<longrightarrow> rD_f i \<noteq> rA_f i \<and> rD_f i \<noteq> rB_f i) \<and>
    (op_f i = PPC_OP_LSWI \<longrightarrow>
       (\<forall>k < (if nb_f i = 0 then 8 else (unat (nb_f i) + 3) div 4).
          (unat (rD_f i) + k) mod 32 \<noteq> unat (rA_f i)))"
proof -
  have "nb_f (ppc_decode raw address) < 32"
    using inst_ok_decode [of raw address] by (simp add: inst_ok_def)
  then show ?thesis
    using base_ok_decode [of raw address] unfolding base_ok_def Let_def
    by (simp add: reg_in_wrapped_range_iff)
qed

lemma decoder_rejects_invalid_forms_witness:
  "op_f (ppc_decode 0x84640010 0x80003100) = PPC_OP_LWZU \<and> rA_f (ppc_decode 0x84640010 0x80003100) \<noteq> 0 \<and>
    rA_f (ppc_decode 0x84640010 0x80003100) \<noteq> rD_f (ppc_decode 0x84640010 0x80003100)"
proof -
  have op: "op_f (ppc_decode 0x84640010 0x80003100) = PPC_OP_LWZU"
    by code_simp
  then show ?thesis
    using decoder_rejects_invalid_forms [of "0x84640010" "0x80003100"]
    by (simp add: integer_update_loads_def Let_def)
qed

text \<open>The range test \<open>ppc_op_uses_fpu\<close> on the decoded opcode is exactly the floating-point
  class of the encoding, so the FP-unavailable exception is raised for every instruction that
  touches the FPU and for no other.\<close>

theorem decoder_fpu_class:
  assumes "op_f (ppc_decode raw address) \<noteq> PPC_OP_UNKNOWN"
  shows "ppc_op_uses_fpu (op_f (ppc_decode raw address)) \<longleftrightarrow>
    fpu_encoding (PPC_PRIMARY raw) (PPC_XO raw)"
  using assms fpu_ok_decode [of raw address] by (simp add: fpu_ok_def)

lemma decoder_fpu_class_witness:
  "op_f (ppc_decode 0xFC21102A 0x80003100) \<noteq> PPC_OP_UNKNOWN \<and>
    ppc_op_uses_fpu (op_f (ppc_decode 0xFC21102A 0x80003100)) = True"
proof -
  have op: "op_f (ppc_decode 0xFC21102A 0x80003100) \<noteq> PPC_OP_UNKNOWN"
    by code_simp
  moreover have "fpu_encoding (PPC_PRIMARY 0xFC21102A) (PPC_XO 0xFC21102A)"
    by code_simp
  ultimately show ?thesis
    using decoder_fpu_class [of "0xFC21102A" "0x80003100"] by simp
qed

text \<open>C13: the decoder inverts an assembler.  D-form loads, stores and immediate arithmetic,
  XO-form arithmetic with its overflow and record bits, and both branch formats decode to
  the operands they were assembled from; a branch goes to its sign-extended displacement,
  times four, from the instruction or from zero.\<close>

theorem decoder_inverts_assembler:
  "(\<forall>(p, opc) \<in> set d_form_loads. ppc_decode (encode_d p rt ra imm) address =
      (blank_inst (encode_d p rt ra imm) address)
        \<lparr>op_f := opc, rD_f := ucast rt, rA_f := ucast ra, simm_f := imm\<rparr>) \<and>
   (\<forall>(p, opc) \<in> set d_form_stores. ppc_decode (encode_d p rt ra imm) address =
      (blank_inst (encode_d p rt ra imm) address)
        \<lparr>op_f := opc, rS_f := ucast rt, rA_f := ucast ra, simm_f := imm\<rparr>) \<and>
   (\<forall>(xo, opc, opc_o) \<in> set xo_form_ops. ppc_decode (encode_xo 31 rt ra rb oe xo rc) address =
      (blank_inst (encode_xo 31 rt ra rb oe xo rc) address)
        \<lparr>op_f := (if bit oe 0 then opc_o else opc), rD_f := ucast rt, rA_f := ucast ra, rB_f := ucast rb,
          rc_f := bit rc 0, oe_f := bit oe 0\<rparr>) \<and>
   ppc_decode (encode_i 18 li aa lk) address =
      (blank_inst (encode_i 18 li aa lk) address)
        \<lparr>op_f := PPC_OP_B, aa_f := bit aa 0, lk_f := bit lk 0,
          branch_target := (if bit aa 0 then 0 else address) + push_bit 2 (scast li)\<rparr> \<and>
   ppc_decode (encode_bc 16 bo bi bd aa lk) address =
      (blank_inst (encode_bc 16 bo bi bd aa lk) address)
        \<lparr>op_f := PPC_OP_BC, bo_f := ucast bo, bi_f := ucast bi, aa_f := bit aa 0, lk_f := bit lk 0,
          branch_target := (if bit aa 0 then 0 else address) + push_bit 2 (scast bd)\<rparr>"
  by (intro conjI decode_d_loads decode_d_stores decode_xo decode_i decode_bc)

lemma decoder_inverts_assembler_witness:
  "ppc_decode (encode_d 32 3 4 16) 0x80003100 =
     (blank_inst 0x80640010 0x80003100)\<lparr>op_f := PPC_OP_LWZ, rD_f := 3, rA_f := 4, simm_f := 16\<rparr>"
proof -
  have "encode_d 32 3 4 16 = 0x80640010" by (simp add: encode_d_def)
  then show ?thesis
    using decoder_inverts_assembler [of 3 4 16 "0x80003100" 0 0 0 0 0 0 0 0 0]
    by (simp add: d_form_loads_def)
qed

text \<open>The table names two opcodes alike: the mnemonic of the D-form \<open>stfsu\<close> is that of the
  indexed \<open>stfsux\<close>.\<close>

lemma stfsu_mnemonic: "ppc_op_name PPC_OP_STFSU = ppc_op_name PPC_OP_STFSUX"
  by (simp add: ppc_op_name_def opcode_names_def)

end
