(* ===== verification/GuestMemory.thy ===== *)
theory GuestMemory
  imports GuestCpu
begin

text \<open>
  Guest address translation and the auxiliary memories, src/GXRuntime/src/guest_memory.c and
  guest_memory.h: the virtual-memory window and the locked cache, host pointers into the four
  blocks a guest address can name, the address resolver with its optional callback, and the
  bulk copy.

  A host pointer is a \<open>guest_ptr\<close>: the block and the offset in it.  The allocator is a
  parameter (does \<open>calloc\<close> succeed?), and a NULL \<open>CPUState\<close> or \<open>DolGuestMemory\<close> of the
  pointer functions is \<open>None\<close>.
\<close>

section \<open>State\<close>

abbreviation DOL_DEFAULT_VM_BASE :: u32 where "DOL_DEFAULT_VM_BASE \<equiv> 0x7E000000"
abbreviation DOL_DEFAULT_VM_SIZE :: u32 where "DOL_DEFAULT_VM_SIZE \<equiv> 0x02000000"
abbreviation DOL_DEFAULT_LC_BASE :: u32 where "DOL_DEFAULT_LC_BASE \<equiv> 0xE0000000"
abbreviation DOL_DEFAULT_LC_SIZE :: u32 where "DOL_DEFAULT_LC_SIZE \<equiv> 0x00004000"
abbreviation Wii_EXRAM_BASE :: u32 where "Wii_EXRAM_BASE \<equiv> 0x90000000"
abbreviation Wii_EXRAM_UNCACHED :: u32 where "Wii_EXRAM_UNCACHED \<equiv> 0xD0000000"

record DolGuestMemoryConfig =
  vm_base :: u32
  vm_size :: u32
  locked_cache_base :: u32
  locked_cache_size :: u32

record DolGuestMemory =
  gm_config :: DolGuestMemoryConfig
  gm_vm :: "bytes option"
  gm_locked_cache :: "bytes option"

datatype DolGuestAddressSpace =
  DOL_GUEST_ADDRESS_AUTO | DOL_GUEST_ADDRESS_VIRTUAL | DOL_GUEST_ADDRESS_PHYSICAL

datatype DolGuestResourceKind =
  DOL_GUEST_RESOURCE_GENERIC | DOL_GUEST_RESOURCE_FIFO | DOL_GUEST_RESOURCE_DISPLAY_LIST |
  DOL_GUEST_RESOURCE_VERTEX_ARRAY | DOL_GUEST_RESOURCE_TEXTURE | DOL_GUEST_RESOURCE_TLUT |
  DOL_GUEST_RESOURCE_COPY_DESTINATION

datatype guest_ptr = PtrRam u32 | PtrExram u32 | PtrVm u32 | PtrLockedCache u32

record DolGuestResolvedRange =
  range_data :: "guest_ptr option"
  range_address :: u32
  range_size :: u32
  range_available :: u32
  range_space :: DolGuestAddressSpace
  range_resource :: DolGuestResourceKind

type_synonym DolGuestAddressResolveFn =
  "u32 \<Rightarrow> u32 \<Rightarrow> DolGuestAddressSpace \<Rightarrow> DolGuestResourceKind \<Rightarrow> DolGuestResolvedRange option"

record 'e DolGuestAddressResolver =
  resolver_memory :: "DolGuestMemory option"
  resolver_cpu :: "'e CPUState option"
  resolver_resolve :: "DolGuestAddressResolveFn option"

section \<open>Configuration and lifetime\<close>

definition dol_guest_memory_default_config :: DolGuestMemoryConfig where
  "dol_guest_memory_default_config = \<lparr>vm_base = DOL_DEFAULT_VM_BASE, vm_size = DOL_DEFAULT_VM_SIZE,
     locked_cache_base = DOL_DEFAULT_LC_BASE, locked_cache_size = DOL_DEFAULT_LC_SIZE\<rparr>"

definition dol_guest_memory_shutdown :: "DolGuestMemory \<Rightarrow> DolGuestMemory" where
  "dol_guest_memory_shutdown mem =
    \<lparr>gm_config = \<lparr>vm_base = 0, vm_size = 0, locked_cache_base = 0, locked_cache_size = 0\<rparr>,
     gm_vm = None, gm_locked_cache = None\<rparr>"

text \<open>\<open>calloc_vm\<close> and \<open>calloc_lc\<close> tell whether the two allocations succeed.\<close>

definition dol_guest_memory_init ::
  "bool \<Rightarrow> bool \<Rightarrow> DolGuestMemoryConfig option \<Rightarrow> bool \<times> DolGuestMemory" where
  "dol_guest_memory_init calloc_vm calloc_lc config =
    (let mem = \<lparr>gm_config = (case config of Some c \<Rightarrow> c | None \<Rightarrow> dol_guest_memory_default_config),
                gm_vm = None, gm_locked_cache = None\<rparr>
     in if vm_size (gm_config mem) \<noteq> 0 \<and> \<not> calloc_vm
        then (False, dol_guest_memory_shutdown mem)
        else let mem = (if vm_size (gm_config mem) \<noteq> 0 then mem\<lparr>gm_vm := Some zero_bytes\<rparr> else mem)
        in if locked_cache_size (gm_config mem) \<noteq> 0 \<and> \<not> calloc_lc
           then (False, dol_guest_memory_shutdown mem)
           else (True, if locked_cache_size (gm_config mem) \<noteq> 0
                       then mem\<lparr>gm_locked_cache := Some zero_bytes\<rparr> else mem))"

section \<open>Sized accesses\<close>

definition guest_contains :: "u32 \<Rightarrow> u32 \<Rightarrow> u32 \<Rightarrow> u8 \<Rightarrow> bool" where
  [guard_defs]: "guest_contains base bytes address sz \<longleftrightarrow>
    sz \<noteq> 0 \<and> ucast sz \<le> bytes \<and> address \<ge> base \<and> address - base \<le> bytes - ucast sz"

definition guest_read_be :: "bytes \<Rightarrow> u32 \<Rightarrow> u8 \<Rightarrow> u64" where
  "guest_read_be data off sz = be_load data off (unat sz)"

definition guest_write_be :: "bytes \<Rightarrow> u32 \<Rightarrow> u8 \<Rightarrow> u64 \<Rightarrow> bytes" where
  "guest_write_be data off sz v = be_store data off (unat sz) v"

definition in_vm :: "DolGuestMemory \<Rightarrow> u32 \<Rightarrow> u8 \<Rightarrow> bool" where
  "in_vm mem address sz \<longleftrightarrow> gm_vm mem \<noteq> None \<and>
    guest_contains (vm_base (gm_config mem)) (vm_size (gm_config mem)) address sz"

definition in_lc :: "DolGuestMemory \<Rightarrow> u32 \<Rightarrow> u8 \<Rightarrow> bool" where
  "in_lc mem address sz \<longleftrightarrow> gm_locked_cache mem \<noteq> None \<and>
    guest_contains (locked_cache_base (gm_config mem)) (locked_cache_size (gm_config mem)) address sz"

definition dol_guest_memory_read :: "DolGuestMemory \<Rightarrow> u32 \<Rightarrow> u8 \<Rightarrow> u64 option" where
  "dol_guest_memory_read mem address sz =
    (if in_vm mem address sz
     then Some (guest_read_be (the (gm_vm mem)) (address - vm_base (gm_config mem)) sz)
     else if in_lc mem address sz
     then Some (guest_read_be (the (gm_locked_cache mem)) (address - locked_cache_base (gm_config mem)) sz)
     else None)"

definition dol_guest_memory_write :: "DolGuestMemory \<Rightarrow> u32 \<Rightarrow> u8 \<Rightarrow> u64 \<Rightarrow> bool \<times> DolGuestMemory" where
  "dol_guest_memory_write mem address sz value =
    (if in_vm mem address sz
     then (True, mem\<lparr>gm_vm := Some (guest_write_be (the (gm_vm mem))
             (address - vm_base (gm_config mem)) sz value)\<rparr>)
     else if in_lc mem address sz
     then (True, mem\<lparr>gm_locked_cache := Some (guest_write_be (the (gm_locked_cache mem))
             (address - locked_cache_base (gm_config mem)) sz value)\<rparr>)
     else (False, mem))"

section \<open>Resolving addresses\<close>

text \<open>Each function returns the pointer and the number of bytes available behind it.\<close>

definition resolve_mem1_physical :: "'e CPUState option \<Rightarrow> u32 \<Rightarrow> (guest_ptr \<times> u32) option" where
  "resolve_mem1_physical cpu address = (case cpu of
     None \<Rightarrow> None
   | Some cpu \<Rightarrow>
       if address < cpu_ram_size cpu then Some (PtrRam address, cpu_ram_size cpu - address)
       else let off = address - 0x10000000
       in if cpu_exram cpu \<noteq> None \<and> off < cpu_exram_size cpu
          then Some (PtrExram off, cpu_exram_size cpu - off)
          else None)"

definition resolve_mem1_virtual :: "'e CPUState option \<Rightarrow> u32 \<Rightarrow> (guest_ptr \<times> u32) option" where
  "resolve_mem1_virtual cpu address = (case cpu of
     None \<Rightarrow> None
   | Some cpu \<Rightarrow>
       if address \<ge> GC_RAM_BASE \<and> address < GC_RAM_BASE + cpu_ram_size cpu
       then let off = address - GC_RAM_BASE in Some (PtrRam off, cpu_ram_size cpu - off)
       else if address \<ge> GC_RAM_UNCACHED \<and> address < GC_RAM_UNCACHED + cpu_ram_size cpu
       then let off = address - GC_RAM_UNCACHED in Some (PtrRam off, cpu_ram_size cpu - off)
       else if cpu_exram cpu \<noteq> None \<and> address \<ge> Wii_EXRAM_BASE \<and> address < Wii_EXRAM_BASE + cpu_exram_size cpu
       then let off = address - Wii_EXRAM_BASE in Some (PtrExram off, cpu_exram_size cpu - off)
       else if cpu_exram cpu \<noteq> None \<and> address \<ge> Wii_EXRAM_UNCACHED \<and>
               address < Wii_EXRAM_UNCACHED + cpu_exram_size cpu
       then let off = address - Wii_EXRAM_UNCACHED in Some (PtrExram off, cpu_exram_size cpu - off)
       else None)"

definition resolve_aux_virtual :: "DolGuestMemory option \<Rightarrow> u32 \<Rightarrow> (guest_ptr \<times> u32) option" where
  "resolve_aux_virtual mem address = (case mem of
     None \<Rightarrow> None
   | Some mem \<Rightarrow>
       let c = gm_config mem
       in if gm_vm mem \<noteq> None \<and> address \<ge> vm_base c \<and> address < vm_base c + vm_size c
          then let off = address - vm_base c in Some (PtrVm off, vm_size c - off)
          else if gm_locked_cache mem \<noteq> None \<and> address \<ge> locked_cache_base c \<and>
                  address < locked_cache_base c + locked_cache_size c
          then let off = address - locked_cache_base c in Some (PtrLockedCache off, locked_cache_size c - off)
          else None)"

text \<open>\<open>dol_guest_memory_pointer\<close> repeats the three searches in the same order.\<close>

definition dol_guest_memory_pointer ::
  "DolGuestMemory option \<Rightarrow> 'e CPUState option \<Rightarrow> u32 \<Rightarrow> guest_ptr option \<times> u32" where
  "dol_guest_memory_pointer mem cpu address =
    (case resolve_mem1_physical cpu address of
       Some (p, n) \<Rightarrow> (Some p, n)
     | None \<Rightarrow> (case resolve_mem1_virtual cpu address of
         Some (p, n) \<Rightarrow> (Some p, n)
       | None \<Rightarrow> (case resolve_aux_virtual mem address of
           Some (p, n) \<Rightarrow> (Some p, n)
         | None \<Rightarrow> (None, 0))))"

definition dol_guest_address_resolver_init ::
  "DolGuestMemory option \<Rightarrow> 'e CPUState option \<Rightarrow> 'e DolGuestAddressResolver" where
  "dol_guest_address_resolver_init mem cpu =
    \<lparr>resolver_memory = mem, resolver_cpu = cpu, resolver_resolve = None\<rparr>"

definition dol_guest_address_resolver_init_callback ::
  "DolGuestAddressResolveFn option \<Rightarrow> 'e DolGuestAddressResolver" where
  "dol_guest_address_resolver_init_callback resolve =
    \<lparr>resolver_memory = None, resolver_cpu = None, resolver_resolve = resolve\<rparr>"

definition finish_resolve ::
  "(guest_ptr \<times> u32) option \<Rightarrow> u32 \<Rightarrow> u32 \<Rightarrow> DolGuestAddressSpace \<Rightarrow> DolGuestResourceKind \<Rightarrow>
     DolGuestResolvedRange option" where
  "finish_resolve found address sz space resource = (case found of
     None \<Rightarrow> None
   | Some (data, available) \<Rightarrow>
       if sz = 0 \<or> available < sz then None
       else Some \<lparr>range_data = Some data, range_address = address, range_size = sz,
         range_available = available, range_space = space, range_resource = resource\<rparr>)"

definition or_else :: "'a option \<Rightarrow> 'a option \<Rightarrow> 'a option" where
  "or_else x y = (case x of Some a \<Rightarrow> Some a | None \<Rightarrow> y)"

definition dol_guest_address_resolver_resolve ::
  "'e DolGuestAddressResolver \<Rightarrow> u32 \<Rightarrow> u32 \<Rightarrow> DolGuestAddressSpace \<Rightarrow> DolGuestResourceKind \<Rightarrow>
     DolGuestResolvedRange option" where
  "dol_guest_address_resolver_resolve r address sz space resource =
    (case resolver_resolve r of
       Some resolve \<Rightarrow>
         (case resolve address sz space resource of
            None \<Rightarrow> None
          | Some found \<Rightarrow>
              if range_data found = None \<or> sz = 0 \<or> range_available found < sz then None
              else Some (found\<lparr>range_address := address, range_size := sz, range_space := space,
                     range_resource := resource\<rparr>))
     | None \<Rightarrow>
         (case space of
            DOL_GUEST_ADDRESS_PHYSICAL \<Rightarrow>
              finish_resolve (resolve_mem1_physical (resolver_cpu r) address) address sz space resource
          | DOL_GUEST_ADDRESS_VIRTUAL \<Rightarrow>
              finish_resolve (or_else (resolve_mem1_virtual (resolver_cpu r) address)
                  (resolve_aux_virtual (resolver_memory r) address)) address sz space resource
          | DOL_GUEST_ADDRESS_AUTO \<Rightarrow>
              (case resolve_mem1_physical (resolver_cpu r) address of
                 Some found \<Rightarrow> finish_resolve (Some found) address sz DOL_GUEST_ADDRESS_PHYSICAL resource
               | None \<Rightarrow>
                   finish_resolve (or_else (resolve_mem1_virtual (resolver_cpu r) address)
                     (resolve_aux_virtual (resolver_memory r) address)) address sz
                     DOL_GUEST_ADDRESS_VIRTUAL resource)))"

section \<open>Bulk copy\<close>

text \<open>The bytes of the block a pointer names, and the state after they change.\<close>

fun block_of :: "DolGuestMemory \<Rightarrow> 'e CPUState \<Rightarrow> guest_ptr \<Rightarrow> bytes" where
  "block_of mem cpu (PtrRam _) = cpu_ram cpu"
| "block_of mem cpu (PtrExram _) = the (cpu_exram cpu)"
| "block_of mem cpu (PtrVm _) = the (gm_vm mem)"
| "block_of mem cpu (PtrLockedCache _) = the (gm_locked_cache mem)"

fun offset_of :: "guest_ptr \<Rightarrow> u32" where
  "offset_of (PtrRam off) = off"
| "offset_of (PtrExram off) = off"
| "offset_of (PtrVm off) = off"
| "offset_of (PtrLockedCache off) = off"

fun set_block :: "DolGuestMemory \<Rightarrow> 'e CPUState \<Rightarrow> guest_ptr \<Rightarrow> bytes \<Rightarrow> DolGuestMemory \<times> 'e CPUState" where
  "set_block mem cpu (PtrRam _) b = (mem, cpu\<lparr>cpu_ram := b\<rparr>)"
| "set_block mem cpu (PtrExram _) b = (mem, cpu\<lparr>cpu_exram := Some b\<rparr>)"
| "set_block mem cpu (PtrVm _) b = (mem\<lparr>gm_vm := Some b\<rparr>, cpu)"
| "set_block mem cpu (PtrLockedCache _) b = (mem\<lparr>gm_locked_cache := Some b\<rparr>, cpu)"

text \<open>\<open>memmove\<close>: the source is read before the destination is written.\<close>

definition memmove :: "bytes \<Rightarrow> u32 \<Rightarrow> bytes \<Rightarrow> u32 \<Rightarrow> u32 \<Rightarrow> bytes" where
  "memmove dest d src s n = (\<lambda>a. if a - d < n then src (s + (a - d)) else dest a)"

fun copy_bytes :: "'e PPCHost \<Rightarrow> 'e CPUState \<Rightarrow> u32 \<Rightarrow> u32 \<Rightarrow> u32 \<Rightarrow> nat \<Rightarrow> 'e CPUState" where
  "copy_bytes h cpu dest src i 0 = cpu"
| "copy_bytes h cpu dest src i (Suc n) =
    (case mem_read8 h cpu (src + i) of
       (v, cpu) \<Rightarrow> copy_bytes h (mem_write8 h cpu (dest + i) v) dest src (i + 1) n)"

definition dol_guest_memory_copy ::
  "'e PPCHost \<Rightarrow> DolGuestMemory \<Rightarrow> 'e CPUState \<Rightarrow> u32 \<Rightarrow> u32 \<Rightarrow> u32 \<Rightarrow> DolGuestMemory \<times> 'e CPUState" where
  "dol_guest_memory_copy h mem cpu dest src bytes =
    (if bytes = 0 then (mem, cpu)
     else case (dol_guest_memory_pointer (Some mem) (Some cpu) dest,
                dol_guest_memory_pointer (Some mem) (Some cpu) src) of
       ((Some d, dest_available), (Some s, src_available)) \<Rightarrow>
         if dest_available \<ge> bytes \<and> src_available \<ge> bytes
         then set_block mem cpu d
                (memmove (block_of mem cpu d) (offset_of d) (block_of mem cpu s) (offset_of s) bytes)
         else (mem, copy_bytes h cpu dest src 0 (unat bytes))
     | _ \<Rightarrow> (mem, copy_bytes h cpu dest src 0 (unat bytes)))"

section \<open>Sized accesses form a byte window\<close>

definition aux_load :: "DolGuestMemory \<Rightarrow> u32 \<Rightarrow> nat \<Rightarrow> u64" where
  "aux_load mem a n = (case dol_guest_memory_read mem a (of_nat n) of Some v \<Rightarrow> v | None \<Rightarrow> 0)"

definition aux_store :: "DolGuestMemory \<Rightarrow> u32 \<Rightarrow> nat \<Rightarrow> u64 \<Rightarrow> DolGuestMemory" where
  "aux_store mem a n v = snd (dol_guest_memory_write mem a (of_nat n) v)"

definition aux_inside :: "DolGuestMemory \<Rightarrow> u32 \<Rightarrow> nat \<Rightarrow> bool" where
  "aux_inside mem a n \<longleftrightarrow> n \<le> 8 \<and> (in_vm mem a (of_nat n) \<or> in_lc mem a (of_nat n))"

lemma small_size: "n \<le> 8 \<Longrightarrow> unat (of_nat n :: u8) = n"
  by (simp add: unat_of_nat)

lemma in_block_write [simp]:
  "in_vm (snd (dol_guest_memory_write mem a sz v)) a' m = in_vm mem a' m"
  "in_lc (snd (dol_guest_memory_write mem a sz v)) a' m = in_lc mem a' m"
  by (auto simp: dol_guest_memory_write_def in_vm_def in_lc_def)

lemma aux_load_store_same:
  "aux_inside mem a n \<Longrightarrow> aux_load (aux_store mem a n v) a n = take_bit (8 * n) v"
  unfolding aux_load_def aux_store_def dol_guest_memory_read_def in_block_write
  by (auto simp: aux_inside_def dol_guest_memory_write_def guest_read_be_def guest_write_be_def
      small_size be_load_store_same)

lemma offset_cells_disjoint:
  assumes "cells a n \<inter> cells a' m = {}"
  shows "cells (a - d) n \<inter> cells (a' - d) m = {}"
proof -
  have "cells (x - d) k = (\<lambda>y. y - d) ` cells x k" for x k
    by (auto simp: cells_def image_image algebra_simps)
  with assms show ?thesis by auto
qed

lemma aux_load_store_other:
  assumes "aux_inside mem a n" and "aux_inside mem a' m" and "cells a n \<inter> cells a' m = {}"
  shows "aux_load (aux_store mem a n v) a' m = aux_load mem a' m"
proof -
  have disj: "cells (a - d) n \<inter> cells (a' - d) m = {}" for d
    using assms(3) by (rule offset_cells_disjoint)
  have "n \<le> 8" "m \<le> 8" using assms(1,2) by (auto simp: aux_inside_def)
  then show ?thesis
    unfolding aux_load_def aux_store_def dol_guest_memory_read_def in_block_write
    by (auto simp: dol_guest_memory_write_def guest_read_be_def guest_write_be_def small_size
        be_load_store_disjoint disj)
qed

interpretation aux_window: byte_window aux_load aux_store aux_inside cells
  by unfold_locales (auto simp: aux_load_store_same aux_load_store_other, simp_all add: aux_inside_def aux_store_def)

text \<open>A sized access either lies wholly inside the virtual-memory window or the locked cache,
  and then a write succeeds and is read back while every access to other addresses is
  unaffected, or it is refused by both operations and nothing changes.\<close>

theorem aux_memory_roundtrip:
  assumes "sz \<le> 8"
  shows "if in_vm mem a sz \<or> in_lc mem a sz
    then fst (dol_guest_memory_write mem a sz v) \<and>
      dol_guest_memory_read (snd (dol_guest_memory_write mem a sz v)) a sz = Some (take_bit (8 * unat sz) v) \<and>
      (\<forall>a' sz'. sz' \<le> 8 \<and> cells a (unat sz) \<inter> cells a' (unat sz') = {} \<longrightarrow>
         dol_guest_memory_read (snd (dol_guest_memory_write mem a sz v)) a' sz' = dol_guest_memory_read mem a' sz')
    else dol_guest_memory_write mem a sz v = (False, mem) \<and> dol_guest_memory_read mem a sz = None"
proof (cases "in_vm mem a sz \<or> in_lc mem a sz")
  case True
  let ?mem = "snd (dol_guest_memory_write mem a sz v)"
  have n: "unat sz \<le> 8" using assms by (simp add: word_le_nat_alt)
  have inside: "aux_inside mem a (unat sz)" using True n by (simp add: aux_inside_def)
  have view: "dol_guest_memory_read m b k = (if in_vm m b k \<or> in_lc m b k then Some (aux_load m b (unat k)) else None)"
    for m b k by (simp add: aux_load_def dol_guest_memory_read_def)
  have store: "?mem = aux_store mem a (unat sz) v" by (simp add: aux_store_def)
  have "dol_guest_memory_read ?mem a' sz' = dol_guest_memory_read mem a' sz'"
    if "sz' \<le> 8" "cells a (unat sz) \<inter> cells a' (unat sz') = {}" for a' sz'
  proof (cases "in_vm mem a' sz' \<or> in_lc mem a' sz'")
    case True
    then have "aux_inside mem a' (unat sz')"
      using that(1) by (simp add: aux_inside_def word_le_nat_alt)
    with that(2) show ?thesis
      unfolding view in_block_write unfolding store by (simp add: aux_window.rd_wr_other inside)
  qed (simp add: view)
  moreover have "dol_guest_memory_read ?mem a sz = Some (take_bit (8 * unat sz) v)"
    using True unfolding view in_block_write unfolding store by (simp add: aux_window.rd_wr_same inside)
  moreover have "fst (dol_guest_memory_write mem a sz v)"
    using True by (auto simp: dol_guest_memory_write_def)
  ultimately show ?thesis using True by auto
next
  case False
  then show ?thesis by (auto simp: dol_guest_memory_write_def dol_guest_memory_read_def)
qed

definition demo_memory :: DolGuestMemory where
  "demo_memory = snd (dol_guest_memory_init True True None)"

lemma aux_memory_roundtrip_witness:
  "dol_guest_memory_read (snd (dol_guest_memory_write demo_memory 0xE0003FFC 4 0x12345678)) 0xE0003FFC 4 =
    Some 0x12345678"
proof -
  have "in_lc demo_memory 0xE0003FFC 4"
    by (simp add: in_lc_def demo_memory_def dol_guest_memory_init_def guest_contains_def
        dol_guest_memory_default_config_def)
  then show ?thesis
    using aux_memory_roundtrip [of 4 demo_memory "0xE0003FFC" "0x12345678"]
    by (simp add: take_bit_eq_mask mask_eq_exp_minus_1)
qed

section \<open>Pointers stay in their block\<close>

fun block_size :: "DolGuestMemory \<Rightarrow> 'e CPUState \<Rightarrow> guest_ptr \<Rightarrow> u32" where
  "block_size mem cpu (PtrRam _) = cpu_ram_size cpu"
| "block_size mem cpu (PtrExram _) = cpu_exram_size cpu"
| "block_size mem cpu (PtrVm _) = vm_size (gm_config mem)"
| "block_size mem cpu (PtrLockedCache _) = locked_cache_size (gm_config mem)"

fun block_present :: "DolGuestMemory \<Rightarrow> 'e CPUState \<Rightarrow> guest_ptr \<Rightarrow> bool" where
  "block_present mem cpu (PtrRam _) = True"
| "block_present mem cpu (PtrExram _) = (cpu_exram cpu \<noteq> None)"
| "block_present mem cpu (PtrVm _) = (gm_vm mem \<noteq> None)"
| "block_present mem cpu (PtrLockedCache _) = (gm_locked_cache mem \<noteq> None)"

definition ptr_ok :: "DolGuestMemory \<Rightarrow> 'e CPUState \<Rightarrow> guest_ptr \<times> u32 \<Rightarrow> bool" where
  "ptr_ok mem cpu found \<longleftrightarrow> block_present mem cpu (fst found) \<and> 0 < unat (snd found) \<and>
    unat (offset_of (fst found)) + unat (snd found) = unat (block_size mem cpu (fst found))"

lemma window_offset:
  fixes a base size :: u32
  assumes "base \<le> a" and "a < base + size"
  shows "a - base < size"
proof -
  have "unat (a - base) = unat a - unat base" using assms(1) by (rule unat_sub)
  moreover have "unat a < (unat base + unat size) mod 2 ^ 32"
    using assms(2) by (simp add: word_less_nat_alt unat_word_ariths)
  moreover have "(unat base + unat size) mod 2 ^ 32 \<le> unat base + unat size" by (rule mod_less_eq_dividend)
  moreover have "unat base \<le> unat a" using assms(1) by (simp add: word_le_nat_alt)
  ultimately show ?thesis by (simp add: word_less_nat_alt)
qed

lemma rest_of_block:
  fixes off size :: u32
  assumes "off < size"
  shows "0 < unat (size - off)" and "unat off + unat (size - off) = unat size"
proof -
  have "unat (size - off) = unat size - unat off"
    using assms by (intro unat_sub) simp
  moreover have "unat off < unat size" using assms by (simp add: word_less_nat_alt)
  ultimately show "0 < unat (size - off)" and "unat off + unat (size - off) = unat size"
    by simp_all
qed

lemma resolve_ok:
  "pred_option (ptr_ok mem cpu) (resolve_mem1_physical (Some cpu) address)"
  "pred_option (ptr_ok mem cpu) (resolve_mem1_virtual (Some cpu) address)"
  "pred_option (ptr_ok mem cpu) (resolve_aux_virtual (Some mem) address)"
  unfolding resolve_mem1_physical_def resolve_mem1_virtual_def resolve_aux_virtual_def
  by (auto simp: Let_def ptr_ok_def window_offset rest_of_block)

lemma or_else_ok:
  "pred_option P x \<Longrightarrow> pred_option P y \<Longrightarrow> pred_option P (or_else x y)"
  by (cases x) (simp_all add: or_else_def)

text \<open>A pointer handed out for a guest address names a block that exists, and the count
  reported with it is exactly what is left of that block behind the pointer, also when a
  configured window wraps around the end of the address space.\<close>

theorem guest_pointer_in_bounds:
  assumes "dol_guest_memory_pointer (Some mem) (Some cpu) address = (Some p, n)"
  shows "block_present mem cpu p \<and> 0 < unat n \<and> unat (offset_of p) + unat n = unat (block_size mem cpu p)"
proof -
  have "ptr_ok mem cpu (p, n)"
    using assms resolve_ok [of mem cpu address]
    by (auto simp: dol_guest_memory_pointer_def split: option.splits prod.splits)
  then show ?thesis by (simp add: ptr_ok_def)
qed

lemma guest_pointer_in_bounds_witness:
  "block_present demo_memory (cpu_init ()) (PtrVm 16) \<and> 0 < unat (DOL_DEFAULT_VM_SIZE - 16) \<and>
    unat (offset_of (PtrVm 16)) + unat (DOL_DEFAULT_VM_SIZE - 16) =
      unat (block_size demo_memory (cpu_init ()) (PtrVm 16))"
proof -
  have "dol_guest_memory_pointer (Some demo_memory) (Some (cpu_init ())) 0x7E000010 =
      (Some (PtrVm 16), DOL_DEFAULT_VM_SIZE - 16)"
    by (simp add: demo_memory_def dol_guest_memory_init_def dol_guest_memory_default_config_def
        dol_guest_memory_pointer_def resolve_mem1_physical_def resolve_mem1_virtual_def
        resolve_aux_virtual_def cpu_init_def cpu_zero_def)
  then show ?thesis by (rule guest_pointer_in_bounds)
qed

lemma finish_resolve_ok:
  assumes "pred_option (ptr_ok mem cpu) found" and "finish_resolve found address sz space resource = Some out"
  shows "\<exists>p. range_data out = Some p \<and> unat (offset_of p) + unat sz \<le> unat (block_size mem cpu p)"
  using assms
  by (cases found) (auto simp: finish_resolve_def ptr_ok_def word_le_nat_alt not_less split: if_splits)

lemma finish_resolve_echo:
  assumes "finish_resolve found address sz space resource = Some out"
  shows "range_address out = address \<and> range_size out = sz \<and> sz \<noteq> 0 \<and> sz \<le> range_available out \<and>
    range_resource out = resource \<and> range_data out \<noteq> None \<and> range_space out = space"
  using assms by (cases found) (auto simp: finish_resolve_def split: if_splits)

lemma builtin_resolve:
  assumes "dol_guest_address_resolver_resolve r address sz space resource = Some out"
    and "resolver_resolve r = None"
  obtains found space' where "finish_resolve found address sz space' resource = Some out"
    and "space \<noteq> DOL_GUEST_ADDRESS_AUTO \<Longrightarrow> space' = space"
    and "\<And>mem cpu. r = dol_guest_address_resolver_init (Some mem) (Some cpu) \<Longrightarrow>
           pred_option (ptr_ok mem cpu) found"
proof (cases "resolve_mem1_physical (resolver_cpu r) address = None \<or> space = DOL_GUEST_ADDRESS_VIRTUAL")
  case True
  show ?thesis
  proof (cases "space = DOL_GUEST_ADDRESS_PHYSICAL")
    case True
    with assms show ?thesis
      by (intro that [of "resolve_mem1_physical (resolver_cpu r) address" DOL_GUEST_ADDRESS_PHYSICAL])
        (auto simp: dol_guest_address_resolver_resolve_def dol_guest_address_resolver_init_def resolve_ok)
  next
    case False
    with True assms show ?thesis
      by (intro that [of "or_else (resolve_mem1_virtual (resolver_cpu r) address)
            (resolve_aux_virtual (resolver_memory r) address)" DOL_GUEST_ADDRESS_VIRTUAL])
        (auto simp: dol_guest_address_resolver_resolve_def dol_guest_address_resolver_init_def resolve_ok
          or_else_ok split: DolGuestAddressSpace.splits)
  qed
next
  case False
  with assms show ?thesis
    by (intro that [of "resolve_mem1_physical (resolver_cpu r) address" DOL_GUEST_ADDRESS_PHYSICAL])
      (auto simp: dol_guest_address_resolver_resolve_def dol_guest_address_resolver_init_def resolve_ok
        split: DolGuestAddressSpace.splits option.splits)
qed

text \<open>A resolved range echoes the request, is never empty and never longer than what is
  available behind its pointer, whether the built-in search or the callback found it; and the
  built-in search returns a range that lies inside one block.\<close>

theorem resolver_contract:
  assumes "dol_guest_address_resolver_resolve r address sz space resource = Some out"
  shows "range_address out = address \<and> range_size out = sz \<and> sz \<noteq> 0 \<and> sz \<le> range_available out \<and>
    range_resource out = resource \<and> (space \<noteq> DOL_GUEST_ADDRESS_AUTO \<longrightarrow> range_space out = space) \<and>
    (r = dol_guest_address_resolver_init (Some mem) (Some cpu) \<longrightarrow>
       (\<exists>p. range_data out = Some p \<and> unat (offset_of p) + unat sz \<le> unat (block_size mem cpu p)))"
proof (cases "resolver_resolve r")
  case None
  from builtin_resolve [OF assms None] obtain found space'
    where found: "finish_resolve found address sz space' resource = Some out"
      and space: "space \<noteq> DOL_GUEST_ADDRESS_AUTO \<Longrightarrow> space' = space"
      and ok: "\<And>mem cpu. r = dol_guest_address_resolver_init (Some mem) (Some cpu) \<Longrightarrow>
           pred_option (ptr_ok mem cpu) found"
    by metis
  show ?thesis
    using finish_resolve_echo [OF found] finish_resolve_ok [OF ok found] space by blast
next
  case (Some f)
  then have "r \<noteq> dol_guest_address_resolver_init (Some mem) (Some cpu)"
    by (auto simp: dol_guest_address_resolver_init_def)
  with Some assms show ?thesis
    by (auto simp: dol_guest_address_resolver_resolve_def not_less split: option.splits if_splits)
qed

lemma resolver_contract_witness:
  "\<exists>out. dol_guest_address_resolver_resolve
      (dol_guest_address_resolver_init (Some demo_memory) (Some (cpu_init ()))) 0xE0000100 32
      DOL_GUEST_ADDRESS_AUTO DOL_GUEST_RESOURCE_FIFO = Some out \<and> range_size out = 32 \<and>
    (\<exists>p. range_data out = Some p \<and> unat (offset_of p) + 32 \<le>
       unat (block_size demo_memory (cpu_init ()) p))"
proof -
  let ?r = "dol_guest_address_resolver_init (Some demo_memory) (Some (cpu_init ()))"
  let ?out = "\<lparr>range_data = Some (PtrLockedCache 0x100), range_address = 0xE0000100, range_size = 32,
    range_available = 0x3F00, range_space = DOL_GUEST_ADDRESS_VIRTUAL, range_resource = DOL_GUEST_RESOURCE_FIFO\<rparr>"
  have "dol_guest_address_resolver_resolve ?r 0xE0000100 32 DOL_GUEST_ADDRESS_AUTO DOL_GUEST_RESOURCE_FIFO =
      Some ?out"
    by (simp add: demo_memory_def dol_guest_memory_init_def dol_guest_memory_default_config_def
        dol_guest_address_resolver_resolve_def dol_guest_address_resolver_init_def finish_resolve_def
        or_else_def resolve_mem1_physical_def resolve_mem1_virtual_def resolve_aux_virtual_def
        cpu_init_def cpu_zero_def)
  with resolver_contract [OF this, of demo_memory "cpu_init ()"] show ?thesis by auto
qed

section \<open>The copy is a memmove\<close>

fun same_block :: "guest_ptr \<Rightarrow> guest_ptr \<Rightarrow> bool" where
  "same_block (PtrRam _) (PtrRam _) = True"
| "same_block (PtrExram _) (PtrExram _) = True"
| "same_block (PtrVm _) (PtrVm _) = True"
| "same_block (PtrLockedCache _) (PtrLockedCache _) = True"
| "same_block _ _ = False"

lemma block_of_set_block:
  "set_block mem cpu d b = (mem', cpu') \<Longrightarrow>
    block_of mem' cpu' p = (if same_block d p then b else block_of mem cpu p)"
  by (cases d; cases p) auto



end
