(* ===== verification/Analysis.thy ===== *)
theory Analysis
  imports DecodeForms
begin

text \<open>
  The self-modifying-code analysis of src/DolRecomp/src/analysis.c: a constant propagation over
  the decoded instructions of one section that flags the stores whose effective address is
  known and lies in code, and the list of address ranges it reports.

  The C flag \<open>known\<close> is a \<open>bool\<close>, the register array a list of 32 entries, and the array of
  ranges the list of its used entries (\<open>range_count\<close> is its length); whether
  \<open>realloc\<close> succeeds is the parameter \<open>realloc_ok\<close>.  The report writer is output only.
\<close>

section \<open>State\<close>

datatype EmbeddedDataMode = EMBEDDED_DATA_NONE | EMBEDDED_DATA_DOL | EMBEDDED_DATA_RPX

record LoadedCodeSection =
  sec_label :: string
  sec_name :: "string option"
  sec_data :: bytes
  sec_index :: u32
  sec_file_offset :: u32
  sec_address :: u32
  sec_size :: u32
  sec_mode :: EmbeddedDataMode

record KnownReg =
  known :: bool
  reg_value :: u32

record SMCRange =
  range_start :: u32
  range_end :: u32

record SMCAnalysis =
  smc_possible :: bool
  smc_allocation_failed :: bool
  smc_range_capacity :: u32
  smc_ranges :: "SMCRange list"

definition smc_analysis_free :: "SMCAnalysis \<Rightarrow> SMCAnalysis" where
  "smc_analysis_free smc = smc\<lparr>smc_ranges := [], smc_range_capacity := 0\<rparr>"

section \<open>The report\<close>

definition smc_add_range :: "(u32 \<Rightarrow> bool) \<Rightarrow> SMCAnalysis \<Rightarrow> u32 \<Rightarrow> SMCAnalysis" where
  "smc_add_range realloc_ok smc addr =
    (let full = of_nat (length (smc_ranges smc)) \<ge> smc_range_capacity smc;
         new_capacity = (if smc_range_capacity smc \<noteq> 0 then smc_range_capacity smc * 2 else 16)
     in if full \<and> \<not> realloc_ok new_capacity then smc\<lparr>smc_allocation_failed := True\<rparr>
        else smc\<lparr>smc_range_capacity := (if full then new_capacity else smc_range_capacity smc),
               smc_ranges := smc_ranges smc @ [\<lparr>range_start = addr, range_end = addr\<rparr>]\<rparr>)"

definition smc_note :: "(u32 \<Rightarrow> bool) \<Rightarrow> SMCAnalysis \<Rightarrow> u32 \<Rightarrow> SMCAnalysis" where
  "smc_note realloc_ok smc addr =
    (let smc = smc\<lparr>smc_possible := True\<rparr>
     in if smc_ranges smc \<noteq> [] \<and> addr \<ge> range_start (last (smc_ranges smc)) \<and>
           addr \<le> range_end (last (smc_ranges smc)) + 4
        then (if addr > range_end (last (smc_ranges smc))
              then smc\<lparr>smc_ranges := butlast (smc_ranges smc) @
                     [(last (smc_ranges smc))\<lparr>range_end := addr\<rparr>]\<rparr>
              else smc)
        else smc_add_range realloc_ok smc addr)"

section \<open>Code ranges\<close>

definition section_overlaps :: "LoadedCodeSection \<Rightarrow> u64 \<Rightarrow> u64 \<Rightarrow> bool" where
  "section_overlaps s lo hi \<longleftrightarrow>
    (if sec_mode s \<noteq> EMBEDDED_DATA_DOL then False
     else if sec_size s = 0 then False
     else let sb = ucast (sec_address s); se = sb + ucast (sec_size s)
     in lo < se \<and> hi > sb)"

definition code_range_overlaps :: "LoadedCodeSection list \<Rightarrow> u32 \<Rightarrow> u32 \<Rightarrow> bool" where
  "code_range_overlaps sections address sz =
    (let lo = ucast address; hi = lo + ucast (if sz \<noteq> 0 then sz else 1)
     in list_ex (\<lambda>s. section_overlaps s lo hi) sections)"

section \<open>Effective addresses of stores\<close>

abbreviation reg_at :: "KnownReg list \<Rightarrow> u8 \<Rightarrow> KnownReg" where
  "reg_at regs r \<equiv> regs ! unat r"

definition known_dform_ea :: "KnownReg list \<Rightarrow> PPCInst \<Rightarrow> u32 option" where
  "known_dform_ea regs inst =
    (if rA_f inst = 0 then Some (scast (simm_f inst))
     else if \<not> known (reg_at regs (rA_f inst)) then None
     else Some (reg_value (reg_at regs (rA_f inst)) + scast (simm_f inst)))"

definition known_indexed_ea :: "KnownReg list \<Rightarrow> PPCInst \<Rightarrow> u32 option" where
  "known_indexed_ea regs inst =
    (if rA_f inst \<noteq> 0 \<and> \<not> known (reg_at regs (rA_f inst)) then None
     else let base = (if rA_f inst \<noteq> 0 then reg_value (reg_at regs (rA_f inst)) else 0)
     in if \<not> known (reg_at regs (rB_f inst)) then None
        else Some (base + reg_value (reg_at regs (rB_f inst))))"

definition store_1_ops :: "PPCOpcode list" where
  "store_1_ops =
     [PPC_OP_STB, PPC_OP_STBU, PPC_OP_STBX, PPC_OP_STBUX]"

definition store_2_ops :: "PPCOpcode list" where
  "store_2_ops =
     [PPC_OP_STH, PPC_OP_STHU, PPC_OP_STHX, PPC_OP_STHUX, PPC_OP_STHBRX]"

definition store_4_ops :: "PPCOpcode list" where
  "store_4_ops =
     [PPC_OP_STW, PPC_OP_STWU, PPC_OP_STWX, PPC_OP_STWUX, PPC_OP_STWBRX, PPC_OP_STWCX,
     PPC_OP_STFIWX, PPC_OP_STFS, PPC_OP_STFSU, PPC_OP_STFSX, PPC_OP_STFSUX,
     PPC_OP_PSQ_ST, PPC_OP_PSQ_STU, PPC_OP_PSQ_STX, PPC_OP_PSQ_STUX]"

definition store_8_ops :: "PPCOpcode list" where
  "store_8_ops =
     [PPC_OP_STFD, PPC_OP_STFDU, PPC_OP_STFDX, PPC_OP_STFDUX]"

definition store_size_for_inst :: "PPCInst \<Rightarrow> u32 option" where
  "store_size_for_inst inst =
    (let op = op_f inst in
     if op \<in> set store_1_ops then Some 1
     else if op \<in> set store_2_ops then Some 2
     else if op \<in> set store_4_ops then Some 4
     else if op \<in> set store_8_ops then Some 8
     else if op = PPC_OP_STMW then Some ((32 - ucast (rS_f inst)) * 4)
     else if op = PPC_OP_STSWI then Some (if nb_f inst \<noteq> 0 then ucast (nb_f inst) else 32)
     else if op = PPC_OP_STSWX then Some 1
     else if op = PPC_OP_DCBZ \<or> op = PPC_OP_DCBZ_L then Some 32
     else None)"

definition dform_ea_ops :: "PPCOpcode list" where
  "dform_ea_ops =
     [PPC_OP_STW, PPC_OP_STWU, PPC_OP_STB, PPC_OP_STBU, PPC_OP_STH, PPC_OP_STHU, PPC_OP_STMW,
     PPC_OP_STSWI, PPC_OP_STFS, PPC_OP_STFSU, PPC_OP_STFD, PPC_OP_STFDU, PPC_OP_PSQ_ST,
     PPC_OP_PSQ_STU]"

definition indexed_ea_ops :: "PPCOpcode list" where
  "indexed_ea_ops =
     [PPC_OP_STWX, PPC_OP_STWUX, PPC_OP_STBX, PPC_OP_STBUX, PPC_OP_STHX, PPC_OP_STHUX,
     PPC_OP_STWBRX, PPC_OP_STHBRX, PPC_OP_STSWX, PPC_OP_STWCX, PPC_OP_STFIWX,
     PPC_OP_STFSX, PPC_OP_STFSUX, PPC_OP_STFDX, PPC_OP_STFDUX, PPC_OP_PSQ_STX,
     PPC_OP_PSQ_STUX, PPC_OP_DCBZ, PPC_OP_DCBZ_L]"

definition inst_has_dform_ea :: "PPCOpcode \<Rightarrow> bool" where
  "inst_has_dform_ea op \<longleftrightarrow> op \<in> set dform_ea_ops"

definition inst_has_indexed_ea :: "PPCOpcode \<Rightarrow> bool" where
  "inst_has_indexed_ea op \<longleftrightarrow> op \<in> set indexed_ea_ops"

definition smc_inst_targets_code ::
  "LoadedCodeSection list \<Rightarrow> PPCInst \<Rightarrow> KnownReg list \<Rightarrow> bool" where
  "smc_inst_targets_code sections inst regs =
    (case store_size_for_inst inst of
       None \<Rightarrow> False
     | Some sz \<Rightarrow>
         (case (if inst_has_dform_ea (op_f inst) then known_dform_ea regs inst
                else if inst_has_indexed_ea (op_f inst) then known_indexed_ea regs inst
                else None) of
            None \<Rightarrow> False
          | Some ea \<Rightarrow> code_range_overlaps sections ea sz))"

section \<open>Constant propagation\<close>

definition clear_reg :: "KnownReg list \<Rightarrow> u8 \<Rightarrow> KnownReg list" where
  "clear_reg regs r = regs[unat r := \<lparr>known = False, reg_value = 0\<rparr>]"

definition set_reg :: "KnownReg list \<Rightarrow> u8 \<Rightarrow> u32 \<Rightarrow> KnownReg list" where
  "set_reg regs r v = regs[unat r := \<lparr>known = True, reg_value = v\<rparr>]"

definition set_or_clear :: "KnownReg list \<Rightarrow> u8 \<Rightarrow> u32 option \<Rightarrow> KnownReg list" where
  "set_or_clear regs r v = (case v of Some v \<Rightarrow> set_reg regs r v | None \<Rightarrow> clear_reg regs r)"

text \<open>The value of \<open>ori\<close> and its kin: an operation on a known source.\<close>

definition logical_imm :: "KnownReg list \<Rightarrow> PPCInst \<Rightarrow> (u32 \<Rightarrow> u32) \<Rightarrow> KnownReg list" where
  "logical_imm regs inst f =
    (if known (reg_at regs (rS_f inst)) then set_reg regs (rA_f inst) (f (reg_value (reg_at regs (rS_f inst))))
     else clear_reg regs (rA_f inst))"

definition load_ops :: "PPCOpcode list" where
  "load_ops =
     [PPC_OP_LWZ, PPC_OP_LBZ, PPC_OP_LHZ, PPC_OP_LHA, PPC_OP_LWZX, PPC_OP_LBZX, PPC_OP_LHZX,
     PPC_OP_LHAX, PPC_OP_LWBRX, PPC_OP_LHBRX, PPC_OP_LWARX]"

definition load_update_ops :: "PPCOpcode list" where
  "load_update_ops =
     [PPC_OP_LWZU, PPC_OP_LBZU, PPC_OP_LHZU, PPC_OP_LHAU]"

definition load_update_indexed_ops :: "PPCOpcode list" where
  "load_update_indexed_ops =
     [PPC_OP_LWZUX, PPC_OP_LBZUX, PPC_OP_LHZUX, PPC_OP_LHAUX]"

definition store_update_ops :: "PPCOpcode list" where
  "store_update_ops =
     [PPC_OP_STWU, PPC_OP_STBU, PPC_OP_STHU]"

definition store_update_indexed_ops :: "PPCOpcode list" where
  "store_update_indexed_ops =
     [PPC_OP_STWUX, PPC_OP_STBUX, PPC_OP_STHUX, PPC_OP_STFSUX, PPC_OP_STFDUX, PPC_OP_PSQ_STUX]"

definition result_rD_ops :: "PPCOpcode list" where
  "result_rD_ops =
     [PPC_OP_MFCR, PPC_OP_MFSPR, PPC_OP_MFTB, PPC_OP_MFMSR, PPC_OP_MFSR, PPC_OP_MFSRIN,
     PPC_OP_MULLI, PPC_OP_SUBFIC, PPC_OP_ADD, PPC_OP_ADDO, PPC_OP_ADDC, PPC_OP_ADDCO,
     PPC_OP_ADDE, PPC_OP_ADDEO, PPC_OP_ADDME, PPC_OP_ADDMEO, PPC_OP_ADDZE,
     PPC_OP_ADDZEO, PPC_OP_SUBF, PPC_OP_SUBFO, PPC_OP_SUBFC, PPC_OP_SUBFCO,
     PPC_OP_SUBFE, PPC_OP_SUBFEO, PPC_OP_SUBFME, PPC_OP_SUBFMEO, PPC_OP_SUBFZE,
     PPC_OP_SUBFZEO, PPC_OP_NEG, PPC_OP_NEGO, PPC_OP_MULLW, PPC_OP_MULLWO,
     PPC_OP_MULHW, PPC_OP_MULHWU, PPC_OP_DIVW, PPC_OP_DIVWO, PPC_OP_DIVWU,
     PPC_OP_DIVWUO]"

definition result_rA_ops :: "PPCOpcode list" where
  "result_rA_ops =
     [PPC_OP_AND, PPC_OP_ANDC, PPC_OP_OR, PPC_OP_ORC, PPC_OP_XOR, PPC_OP_NAND, PPC_OP_NOR,
     PPC_OP_EQV, PPC_OP_CNTLZW, PPC_OP_EXTSB, PPC_OP_EXTSH, PPC_OP_SLW, PPC_OP_SRW,
     PPC_OP_SRAW, PPC_OP_SRAWI, PPC_OP_RLWINM, PPC_OP_RLWNM, PPC_OP_RLWIMI]"

definition update_known_regs :: "KnownReg list \<Rightarrow> PPCInst \<Rightarrow> KnownReg list" where
  "update_known_regs regs inst =
    (let op = op_f inst; rD = rD_f inst; rA = rA_f inst in
     if op = PPC_OP_ADDI then
       (if rA = 0 then set_reg regs rD (scast (simm_f inst))
        else if known (reg_at regs rA) then set_reg regs rD (reg_value (reg_at regs rA) + scast (simm_f inst))
        else clear_reg regs rD)
     else if op = PPC_OP_ADDIS then
       (if rA = 0 then set_reg regs rD (push_bit 16 (scast (simm_f inst)))
        else if known (reg_at regs rA)
        then set_reg regs rD (reg_value (reg_at regs rA) + push_bit 16 (scast (simm_f inst)))
        else clear_reg regs rD)
     else if op = PPC_OP_ORI then logical_imm regs inst (\<lambda>v. v OR ucast (uimm_f inst))
     else if op = PPC_OP_ORIS then logical_imm regs inst (\<lambda>v. v OR push_bit 16 (ucast (uimm_f inst)))
     else if op = PPC_OP_XORI then logical_imm regs inst (\<lambda>v. v XOR ucast (uimm_f inst))
     else if op = PPC_OP_XORIS then logical_imm regs inst (\<lambda>v. v XOR push_bit 16 (ucast (uimm_f inst)))
     else if op \<in> set load_ops then clear_reg regs rD
     else if op \<in> set load_update_ops then clear_reg (set_or_clear regs rA (known_dform_ea regs inst)) rD
     else if op \<in> set load_update_indexed_ops
       then clear_reg (set_or_clear regs rA (known_indexed_ea regs inst)) rD
     else if op \<in> set store_update_ops then set_or_clear regs rA (known_dform_ea regs inst)
     else if op \<in> set store_update_indexed_ops then set_or_clear regs rA (known_indexed_ea regs inst)
     else if op \<in> set result_rD_ops then clear_reg regs rD
     else if op \<in> set result_rA_ops then clear_reg regs rA
     else if op = PPC_OP_LMW then foldl (\<lambda>regs r. clear_reg regs (of_nat r)) regs [unat rD ..< 32]
     else regs)"

definition analyze_step ::
  "(u32 \<Rightarrow> bool) \<Rightarrow> LoadedCodeSection list \<Rightarrow> KnownReg list \<times> SMCAnalysis \<Rightarrow> PPCInst \<Rightarrow>
     KnownReg list \<times> SMCAnalysis" where
  "analyze_step realloc_ok sections st inst =
    (case st of (regs, smc) \<Rightarrow>
       if embedded_data inst \<or> op_f inst = PPC_OP_UNKNOWN then (regs, smc)
       else let smc = (if op_f inst = PPC_OP_ICBI \<or> smc_inst_targets_code sections inst regs
                       then smc_note realloc_ok smc (address_of inst) else smc)
       in (update_known_regs regs inst, smc))"

definition analyze_smc_section ::
  "(u32 \<Rightarrow> bool) \<Rightarrow> LoadedCodeSection list \<Rightarrow> PPCInst list \<Rightarrow> SMCAnalysis \<Rightarrow> SMCAnalysis" where
  "analyze_smc_section realloc_ok sections insts smc =
    snd (foldl (analyze_step realloc_ok sections)
      (replicate 32 \<lparr>known = False, reg_value = 0\<rparr>, smc) insts)"

end
