(* ===== verification/AnalysisFacts.thy ===== *)
theory AnalysisFacts
  imports Analysis DecoderFacts
begin

text \<open>
  Soundness of the self-modifying-code analysis.  The reference is the effect of an instruction
  on the general registers as the PowerPC manual gives it: which registers it may write, and
  the value where the analysis claims one.  The analysis follows it on every opcode it handles;
  the ones it forgets are listed and one of them is shown to leave a stale constant.
\<close>

section \<open>General-register effects\<close>

definition isa_rD_ops :: "PPCOpcode list" where
  "isa_rD_ops =
     [PPC_OP_ADDI, PPC_OP_ADDIS, PPC_OP_ADDIC, PPC_OP_ADDIC_DOT, PPC_OP_MULLI, PPC_OP_SUBFIC,
      PPC_OP_LWZ, PPC_OP_LBZ, PPC_OP_LHZ, PPC_OP_LHA, PPC_OP_LWZX, PPC_OP_LBZX, PPC_OP_LHZX,
      PPC_OP_LHAX, PPC_OP_LWBRX, PPC_OP_LHBRX, PPC_OP_LWARX, PPC_OP_LWZU, PPC_OP_LBZU,
      PPC_OP_LHZU, PPC_OP_LHAU, PPC_OP_LWZUX, PPC_OP_LBZUX, PPC_OP_LHZUX, PPC_OP_LHAUX,
      PPC_OP_ADD, PPC_OP_ADDO, PPC_OP_ADDC, PPC_OP_ADDCO, PPC_OP_ADDE, PPC_OP_ADDEO,
      PPC_OP_ADDME, PPC_OP_ADDMEO, PPC_OP_ADDZE, PPC_OP_ADDZEO, PPC_OP_SUBF, PPC_OP_SUBFO,
      PPC_OP_SUBFC, PPC_OP_SUBFCO, PPC_OP_SUBFE, PPC_OP_SUBFEO, PPC_OP_SUBFME, PPC_OP_SUBFMEO,
      PPC_OP_SUBFZE, PPC_OP_SUBFZEO, PPC_OP_NEG, PPC_OP_NEGO, PPC_OP_MULLW, PPC_OP_MULLWO,
      PPC_OP_MULHW, PPC_OP_MULHWU, PPC_OP_DIVW, PPC_OP_DIVWO, PPC_OP_DIVWU, PPC_OP_DIVWUO,
      PPC_OP_MFCR, PPC_OP_MFSPR, PPC_OP_MFTB, PPC_OP_MFMSR, PPC_OP_MFSR, PPC_OP_MFSRIN,
      PPC_OP_ECIWX]"

definition isa_rA_ops :: "PPCOpcode list" where
  "isa_rA_ops =
     [PPC_OP_ORI, PPC_OP_ORIS, PPC_OP_XORI, PPC_OP_XORIS, PPC_OP_ANDI, PPC_OP_ANDIS,
      PPC_OP_AND, PPC_OP_ANDC, PPC_OP_OR, PPC_OP_ORC, PPC_OP_XOR, PPC_OP_NAND, PPC_OP_NOR,
      PPC_OP_EQV, PPC_OP_CNTLZW, PPC_OP_EXTSB, PPC_OP_EXTSH, PPC_OP_SLW, PPC_OP_SRW,
      PPC_OP_SRAW, PPC_OP_SRAWI, PPC_OP_RLWINM, PPC_OP_RLWNM, PPC_OP_RLWIMI]"

definition isa_update_d_ops :: "PPCOpcode list" where
  "isa_update_d_ops =
     [PPC_OP_LWZU, PPC_OP_LBZU, PPC_OP_LHZU, PPC_OP_LHAU, PPC_OP_STWU, PPC_OP_STBU, PPC_OP_STHU,
      PPC_OP_LFSU, PPC_OP_LFDU, PPC_OP_STFSU, PPC_OP_STFDU, PPC_OP_PSQ_LU, PPC_OP_PSQ_STU]"

definition isa_update_x_ops :: "PPCOpcode list" where
  "isa_update_x_ops =
     [PPC_OP_LWZUX, PPC_OP_LBZUX, PPC_OP_LHZUX, PPC_OP_LHAUX, PPC_OP_STWUX, PPC_OP_STBUX,
      PPC_OP_STHUX, PPC_OP_LFSUX, PPC_OP_LFDUX, PPC_OP_STFSUX, PPC_OP_STFDUX, PPC_OP_PSQ_LUX,
      PPC_OP_PSQ_STUX]"

type_synonym gprs = "nat \<Rightarrow> u32"

abbreviation r_D :: "PPCInst \<Rightarrow> nat" where "r_D i \<equiv> unat (rD_f i)"
abbreviation r_A :: "PPCInst \<Rightarrow> nat" where "r_A i \<equiv> unat (rA_f i)"
abbreviation r_S :: "PPCInst \<Rightarrow> nat" where "r_S i \<equiv> unat (rS_f i)"
abbreviation r_B :: "PPCInst \<Rightarrow> nat" where "r_B i \<equiv> unat (rB_f i)"

text \<open>A load of multiple words writes rD to r31; a string load may write any register.\<close>

definition isa_writes :: "PPCInst \<Rightarrow> nat \<Rightarrow> bool" where
  "isa_writes i r \<longleftrightarrow>
    op_f i \<in> set isa_rD_ops \<and> r = r_D i \<or>
    (op_f i \<in> set isa_rA_ops \<or> op_f i \<in> set isa_update_d_ops \<or> op_f i \<in> set isa_update_x_ops) \<and> r = r_A i \<or>
    op_f i = PPC_OP_LMW \<and> r_D i \<le> r \<or> op_f i = PPC_OP_LSWI \<or> op_f i = PPC_OP_LSWX"

definition isa_base :: "PPCInst \<Rightarrow> gprs \<Rightarrow> u32" where
  "isa_base i g = (if rA_f i = 0 then 0 else g (r_A i))"

definition isa_step :: "PPCInst \<Rightarrow> gprs \<Rightarrow> gprs \<Rightarrow> bool" where
  "isa_step i g g' \<longleftrightarrow>
    (\<forall>r. \<not> isa_writes i r \<longrightarrow> g' r = g r) \<and>
    (op_f i = PPC_OP_ADDI \<longrightarrow> g' (r_D i) = isa_base i g + scast (simm_f i)) \<and>
    (op_f i = PPC_OP_ADDIS \<longrightarrow> g' (r_D i) = isa_base i g + push_bit 16 (scast (simm_f i))) \<and>
    (op_f i = PPC_OP_ORI \<longrightarrow> g' (r_A i) = g (r_S i) OR ucast (uimm_f i)) \<and>
    (op_f i = PPC_OP_ORIS \<longrightarrow> g' (r_A i) = g (r_S i) OR push_bit 16 (ucast (uimm_f i))) \<and>
    (op_f i = PPC_OP_XORI \<longrightarrow> g' (r_A i) = g (r_S i) XOR ucast (uimm_f i)) \<and>
    (op_f i = PPC_OP_XORIS \<longrightarrow> g' (r_A i) = g (r_S i) XOR push_bit 16 (ucast (uimm_f i))) \<and>
    (op_f i \<in> set isa_update_d_ops \<longrightarrow> g' (r_A i) = g (r_A i) + scast (simm_f i)) \<and>
    (op_f i \<in> set isa_update_x_ops \<longrightarrow> g' (r_A i) = g (r_A i) + g (r_B i))"

text \<open>The opcodes that write a general register and that \<open>update_known_regs\<close> does not handle.\<close>

definition forgotten_ops :: "PPCOpcode list" where
  "forgotten_ops =
     [PPC_OP_ADDIC, PPC_OP_ADDIC_DOT, PPC_OP_ANDI, PPC_OP_ANDIS, PPC_OP_LSWI, PPC_OP_LSWX,
      PPC_OP_LFSU, PPC_OP_LFSUX, PPC_OP_LFDU, PPC_OP_LFDUX, PPC_OP_STFSU, PPC_OP_STFDU,
      PPC_OP_PSQ_LU, PPC_OP_PSQ_LUX, PPC_OP_PSQ_STU, PPC_OP_ECIWX]"

section \<open>Agreement of the known registers with a register file\<close>

definition agrees :: "KnownReg list \<Rightarrow> gprs \<Rightarrow> bool" where
  "agrees regs g \<longleftrightarrow> length regs = 32 \<and> (\<forall>r<32. known (regs ! r) \<longrightarrow> reg_value (regs ! r) = g r)"

lemma agrees_at: "agrees regs g \<Longrightarrow> unat r < 32 \<Longrightarrow> known (reg_at regs r) \<Longrightarrow> reg_value (reg_at regs r) = g (unat r)"
  by (simp add: agrees_def)

lemma nth_updated: "j < length xs \<Longrightarrow> xs[k := x] ! j = (if k = j then x else xs ! j)"
  by (cases "k = j") auto

lemma agrees_set:
  assumes "agrees regs g" and "\<And>x. x \<noteq> unat r \<Longrightarrow> g' x = g x" and "g' (unat r) = v"
  shows "agrees (set_reg regs r v) g'"
  using assms by (auto simp: agrees_def set_reg_def nth_updated)

lemma agrees_clear:
  assumes "agrees regs g" and "\<And>x. x \<noteq> unat r \<Longrightarrow> g' x = g x"
  shows "agrees (clear_reg regs r) g'"
  using assms by (auto simp: agrees_def clear_reg_def nth_updated)

lemma agrees_set_or_clear:
  assumes "agrees regs g" and "\<And>x. x \<noteq> unat r \<Longrightarrow> g' x = g x" and "\<And>w. v = Some w \<Longrightarrow> g' (unat r) = w"
  shows "agrees (set_or_clear regs r v) g'"
  using assms by (cases v) (simp_all add: set_or_clear_def agrees_set agrees_clear)

lemma agrees_same: "agrees regs g \<Longrightarrow> (\<And>x. g' x = g x) \<Longrightarrow> agrees regs g'"
  by (simp add: agrees_def)

lemma clear_many:
  assumes "agrees regs g" and "\<And>x. x \<notin> set rs \<Longrightarrow> g' x = g x" and "\<forall>r \<in> set rs. r < 256"
  shows "agrees (foldl (\<lambda>regs r. clear_reg regs (of_nat r)) regs rs) g'"
  using assms
proof (induction rs arbitrary: regs g)
  case Nil
  then show ?case by (auto intro: agrees_same)
next
  case (Cons r rs)
  let ?g = "g(r := g' r)"
  have r: "unat (of_nat r :: u8) = r" using Cons.prems(3) by (simp add: unat_of_nat)
  have "agrees (clear_reg regs (of_nat r)) ?g"
    using Cons.prems(1) by (rule agrees_clear) (simp add: r)
  then show ?case
    using Cons.prems(2,3) by (auto intro!: Cons.IH)
qed

lemma agrees_dform_ea:
  assumes "agrees regs g" and "rA_f i < 32" and "known_dform_ea regs i = Some ea"
  shows "ea = isa_base i g + scast (simm_f i)"
  using assms agrees_at [of regs g "rA_f i"]
  by (auto simp: known_dform_ea_def isa_base_def word_less_nat_alt split: if_splits)

lemma agrees_indexed_ea:
  assumes "agrees regs g" and "rA_f i < 32" and "rB_f i < 32" and "known_indexed_ea regs i = Some ea"
  shows "ea = isa_base i g + g (r_B i)"
  using assms agrees_at [of regs g "rA_f i"] agrees_at [of regs g "rB_f i"]
  by (auto simp: known_indexed_ea_def isa_base_def word_less_nat_alt Let_def split: if_splits)

section \<open>The analysis follows the instruction\<close>

lemmas analysis_lists =
  isa_rD_ops_def isa_rA_ops_def isa_update_d_ops_def isa_update_x_ops_def forgotten_ops_def
  load_ops_def load_update_ops_def load_update_indexed_ops_def store_update_ops_def
  store_update_indexed_ops_def result_rD_ops_def result_rA_ops_def

text \<open>How the groups of the analysis lie inside the groups of the reference, by evaluation.\<close>

definition simple_ops :: "PPCOpcode list" where
  "simple_ops = [PPC_OP_ADDI, PPC_OP_ADDIS, PPC_OP_ORI, PPC_OP_ORIS, PPC_OP_XORI, PPC_OP_XORIS, PPC_OP_LMW]"

lemma group_inclusions:
  "\<forall>op \<in> set load_update_ops. op \<in> set isa_update_d_ops"
  "\<forall>op \<in> set store_update_ops. op \<in> set isa_update_d_ops"
  "\<forall>op \<in> set load_update_indexed_ops. op \<in> set isa_update_x_ops"
  "\<forall>op \<in> set store_update_indexed_ops. op \<in> set isa_update_x_ops"
  "\<forall>op \<in> set load_update_ops. op \<in> set integer_update_loads"
  "\<forall>op \<in> set load_update_indexed_ops. op \<in> set integer_update_loads"
  "\<forall>op \<in> set store_update_ops. op \<in> set base_update_ops"
  "\<forall>op \<in> set store_update_indexed_ops. op \<in> set base_update_ops"
  by (simp_all add: analysis_lists integer_update_loads_def base_update_ops_def)

abbreviation rA_class :: "PPCOpcode \<Rightarrow> bool" where
  "rA_class op \<equiv> op \<in> set isa_rA_ops \<or> op \<in> set isa_update_d_ops \<or> op \<in> set isa_update_x_ops"

abbreviation rest_class :: "PPCOpcode \<Rightarrow> bool" where
  "rest_class op \<equiv> op = PPC_OP_LMW \<or> op = PPC_OP_LSWI \<or> op = PPC_OP_LSWX"

lemma group_disjoint:
  "\<forall>op \<in> set load_ops. \<not> rA_class op \<and> \<not> rest_class op"
  "\<forall>op \<in> set result_rD_ops. \<not> rA_class op \<and> \<not> rest_class op"
  "\<forall>op \<in> set result_rA_ops. op \<notin> set isa_rD_ops \<and> \<not> rest_class op"
  "\<forall>op \<in> set store_update_ops. op \<notin> set isa_rD_ops \<and> \<not> rest_class op"
  "\<forall>op \<in> set store_update_indexed_ops. op \<notin> set isa_rD_ops \<and> \<not> rest_class op"
  "\<forall>op \<in> set load_update_ops. \<not> rest_class op"
  "\<forall>op \<in> set load_update_indexed_ops. \<not> rest_class op"
  by (simp_all add: analysis_lists)

lemma simple_classes:
  "\<not> rA_class PPC_OP_ADDI" "\<not> rA_class PPC_OP_ADDIS" "\<not> rA_class PPC_OP_LMW"
  "PPC_OP_ORI \<notin> set isa_rD_ops" "PPC_OP_ORIS \<notin> set isa_rD_ops" "PPC_OP_XORI \<notin> set isa_rD_ops"
  "PPC_OP_XORIS \<notin> set isa_rD_ops" "PPC_OP_LMW \<notin> set isa_rD_ops"
  by (simp_all add: analysis_lists)

definition handled :: "PPCOpcode \<Rightarrow> bool" where
  "handled op \<longleftrightarrow> op \<in> set simple_ops \<or> op \<in> set load_ops \<or> op \<in> set load_update_ops \<or>
     op \<in> set load_update_indexed_ops \<or> op \<in> set store_update_ops \<or>
     op \<in> set store_update_indexed_ops \<or> op \<in> set result_rD_ops \<or> op \<in> set result_rA_ops"

lemma writers_handled:
  "\<forall>op \<in> set isa_rD_ops. handled op \<or> op \<in> set forgotten_ops"
  "\<forall>op \<in> set isa_rA_ops. handled op \<or> op \<in> set forgotten_ops"
  "\<forall>op \<in> set isa_update_d_ops. handled op \<or> op \<in> set forgotten_ops"
  "\<forall>op \<in> set isa_update_x_ops. handled op \<or> op \<in> set forgotten_ops"
  "handled PPC_OP_LMW" "PPC_OP_LSWI \<in> set forgotten_ops" "PPC_OP_LSWX \<in> set forgotten_ops"
  by (simp_all add: analysis_lists handled_def simple_ops_def)

lemma unhandled_silent:
  assumes "\<not> handled (op_f i)" and "op_f i \<notin> set forgotten_ops"
  shows "\<not> isa_writes i r"
  using assms writers_handled unfolding isa_writes_def by auto

text \<open>One lemma per branch of \<open>update_known_regs\<close>.\<close>

lemma not_written:
  assumes "isa_step i g g'" and "op_f i \<notin> set isa_rD_ops \<or> x \<noteq> r_D i" and "\<not> rA_class (op_f i) \<or> x \<noteq> r_A i"
    and "\<not> rest_class (op_f i)"
  shows "g' x = g x"
proof -
  have "\<not> isa_writes i x"
    unfolding isa_writes_def using assms(2-4) by blast
  with assms(1) show ?thesis by (simp add: isa_step_def)
qed

abbreviation rD_group :: "PPCOpcode \<Rightarrow> bool" where
  "rD_group op \<equiv> op \<in> set load_ops \<or> op \<in> set result_rD_ops \<or> op = PPC_OP_ADDI \<or> op = PPC_OP_ADDIS"

abbreviation rA_group :: "PPCOpcode \<Rightarrow> bool" where
  "rA_group op \<equiv> op \<in> set result_rA_ops \<or> op \<in> set store_update_ops \<or>
     op \<in> set store_update_indexed_ops \<or> op = PPC_OP_ORI \<or> op = PPC_OP_ORIS \<or> op = PPC_OP_XORI \<or>
     op = PPC_OP_XORIS"

lemma rD_group_classes:
  assumes "rD_group op"
  shows "\<not> rA_class op" and "\<not> rest_class op"
proof -
  have "\<not> rA_class op \<and> \<not> rest_class op"
    using assms
  proof (elim disjE)
    show ?thesis if "op \<in> set load_ops" using group_disjoint(1) that by (rule bspec)
    show ?thesis if "op \<in> set result_rD_ops" using group_disjoint(2) that by (rule bspec)
    show ?thesis if "op = PPC_OP_ADDI" unfolding that using simple_classes(1) by simp
    show ?thesis if "op = PPC_OP_ADDIS" unfolding that using simple_classes(2) by simp
  qed
  then show "\<not> rA_class op" and "\<not> rest_class op" by blast+
qed

lemma rA_group_classes:
  assumes "rA_group op"
  shows "op \<notin> set isa_rD_ops" and "\<not> rest_class op"
proof -
  have "op \<notin> set isa_rD_ops \<and> \<not> rest_class op"
    using assms
  proof (elim disjE)
    show ?thesis if "op \<in> set result_rA_ops" using group_disjoint(3) that by (rule bspec)
    show ?thesis if "op \<in> set store_update_ops" using group_disjoint(4) that by (rule bspec)
    show ?thesis if "op \<in> set store_update_indexed_ops" using group_disjoint(5) that by (rule bspec)
    show ?thesis if "op = PPC_OP_ORI" unfolding that using simple_classes(4) by simp
    show ?thesis if "op = PPC_OP_ORIS" unfolding that using simple_classes(5) by simp
    show ?thesis if "op = PPC_OP_XORI" unfolding that using simple_classes(6) by simp
    show ?thesis if "op = PPC_OP_XORIS" unfolding that using simple_classes(7) by simp
  qed
  then show "op \<notin> set isa_rD_ops" and "\<not> rest_class op" by blast+
qed

lemma frame_rD: "isa_step i g g' \<Longrightarrow> rD_group (op_f i) \<Longrightarrow> x \<noteq> r_D i \<Longrightarrow> g' x = g x"
  by (rule not_written [of i]) (use rD_group_classes in blast)+

lemma frame_rA: "isa_step i g g' \<Longrightarrow> rA_group (op_f i) \<Longrightarrow> x \<noteq> r_A i \<Longrightarrow> g' x = g x"
  by (rule not_written [of i]) (use rA_group_classes in blast)+

lemma frame_rA_rD:
  "isa_step i g g' \<Longrightarrow> op_f i \<in> set load_update_ops \<or> op_f i \<in> set load_update_indexed_ops \<Longrightarrow>
    x \<noteq> r_A i \<Longrightarrow> x \<noteq> r_D i \<Longrightarrow> g' x = g x"
  by (rule not_written [of i]) (use group_disjoint(6,7) in blast)+

lemma base_value:
  assumes "base_ok i" and "op_f i \<in> set integer_update_loads \<or> op_f i \<in> set base_update_ops"
  shows "isa_base i g = g (r_A i)"
  using assms by (auto simp: base_ok_def isa_base_def)

lemma ea_of_update:
  assumes "agrees regs g" and "isa_step i g g'" and "base_ok i" and "rA_f i < 32" and "rB_f i < 32"
  shows "op_f i \<in> set load_update_ops \<or> op_f i \<in> set store_update_ops \<Longrightarrow>
      known_dform_ea regs i = Some ea \<Longrightarrow> g' (r_A i) = ea"
    and "op_f i \<in> set load_update_indexed_ops \<or> op_f i \<in> set store_update_indexed_ops \<Longrightarrow>
      known_indexed_ea regs i = Some ea \<Longrightarrow> g' (r_A i) = ea"
proof -
  assume op: "op_f i \<in> set load_update_ops \<or> op_f i \<in> set store_update_ops"
    and ea: "known_dform_ea regs i = Some ea"
  have "g' (r_A i) = g (r_A i) + scast (simm_f i)"
    using op group_inclusions(1,2) assms(2) by (auto simp: isa_step_def)
  moreover have "isa_base i g = g (r_A i)"
    using op group_inclusions(5,7) assms(3) by (intro base_value) auto
  ultimately show "g' (r_A i) = ea"
    using agrees_dform_ea [OF assms(1,4) ea] by simp
next
  assume op: "op_f i \<in> set load_update_indexed_ops \<or> op_f i \<in> set store_update_indexed_ops"
    and ea: "known_indexed_ea regs i = Some ea"
  have "g' (r_A i) = g (r_A i) + g (r_B i)"
    using op group_inclusions(3,4) assms(2) by (auto simp: isa_step_def)
  moreover have "isa_base i g = g (r_A i)"
    using op group_inclusions(6,8) assms(3) by (intro base_value) auto
  ultimately show "g' (r_A i) = ea"
    using agrees_indexed_ea [OF assms(1,4,5) ea] by simp
qed

lemma agrees_load_update:
  assumes "agrees regs g" and "\<And>x. x \<noteq> r_A i \<Longrightarrow> x \<noteq> r_D i \<Longrightarrow> g' x = g x"
    and "\<And>ea. v = Some ea \<Longrightarrow> g' (r_A i) = ea" and "rA_f i \<noteq> rD_f i"
  shows "agrees (clear_reg (set_or_clear regs (rA_f i) v) (rD_f i)) g'"
proof (rule agrees_clear)
  show "agrees (set_or_clear regs (rA_f i) v) (g(r_A i := g' (r_A i)))"
    using assms(1,3) by (intro agrees_set_or_clear [OF assms(1)]) auto
  show "g' x = (g(r_A i := g' (r_A i))) x" if "x \<noteq> r_D i" for x
    using assms(2) that by auto
qed

lemma agrees_logical_imm:
  assumes "agrees regs g" and "\<And>x. x \<noteq> r_A i \<Longrightarrow> g' x = g x" and "g' (r_A i) = f (g (r_S i))" and "rS_f i < 32"
  shows "agrees (logical_imm regs i f) g'"
  using assms agrees_at [of regs g "rS_f i"]
  by (auto simp: logical_imm_def word_less_nat_alt intro!: agrees_set agrees_clear)

lemma agrees_add_imm:
  assumes "agrees regs g" and "\<And>x. x \<noteq> r_D i \<Longrightarrow> g' x = g x" and "g' (r_D i) = isa_base i g + c" and "rA_f i < 32"
  shows "agrees (if rA_f i = 0 then set_reg regs (rD_f i) c
    else if known (reg_at regs (rA_f i)) then set_reg regs (rD_f i) (reg_value (reg_at regs (rA_f i)) + c)
    else clear_reg regs (rD_f i)) g'"
  using assms agrees_at [of regs g "rA_f i"]
  by (auto simp: isa_base_def word_less_nat_alt intro!: agrees_set agrees_clear)

lemma agrees_lmw:
  assumes "agrees regs g" and "isa_step i g g'" and "op_f i = PPC_OP_LMW"
  shows "agrees (foldl (\<lambda>regs r. clear_reg regs (of_nat r)) regs [r_D i ..< 32]) g'"
proof -
  have frame: "g' x = g x" if "x < r_D i" for x
    using assms(2,3) that simple_classes(3,8) by (auto simp: isa_step_def isa_writes_def)
  have "agrees (foldl (\<lambda>regs r. clear_reg regs (of_nat r)) regs [r_D i ..< 32])
      (\<lambda>x. if x < 32 then g' x else g x)"
    using assms(1) frame by (intro clear_many [where g = g]) auto
  then show ?thesis by (simp add: agrees_def)
qed

lemma agrees_ifI:
  assumes "c \<Longrightarrow> agrees x g" and "\<not> c \<Longrightarrow> agrees y g"
  shows "agrees (if c then x else y) g"
  using assms by simp

lemma update_known_regs_sound:
  assumes regs: "agrees regs g" and step: "isa_step i g g'" and base: "base_ok i"
    and ok: "inst_ok raw address i" and op: "op_f i \<notin> set forgotten_ops"
  shows "agrees (update_known_regs regs i) g'"
proof -
  have fields: "rA_f i < 32" "rB_f i < 32" "rS_f i < 32" using ok by (simp_all add: inst_ok_def)
  note ea = ea_of_update [OF regs step base fields(1,2)]
  have target: "rA_f i \<noteq> rD_f i" if "op_f i \<in> set load_update_ops \<or> op_f i \<in> set load_update_indexed_ops"
    using that base group_inclusions(5,6) by (auto simp: base_ok_def)
  have silent: "agrees regs g'" if "\<not> handled (op_f i)"
    using regs step unhandled_silent [OF that op] by (auto simp: isa_step_def intro: agrees_same)
  have addi: "agrees (if rA_f i = 0 then set_reg regs (rD_f i) (scast (simm_f i))
      else if known (reg_at regs (rA_f i))
      then set_reg regs (rD_f i) (reg_value (reg_at regs (rA_f i)) + scast (simm_f i))
      else clear_reg regs (rD_f i)) g'" if "op_f i = PPC_OP_ADDI"
    using that step by (intro agrees_add_imm [OF regs] fields frame_rD [OF step]) (simp_all add: isa_step_def)
  have addis: "agrees (if rA_f i = 0 then set_reg regs (rD_f i) (push_bit 16 (scast (simm_f i)))
      else if known (reg_at regs (rA_f i))
      then set_reg regs (rD_f i) (reg_value (reg_at regs (rA_f i)) + push_bit 16 (scast (simm_f i)))
      else clear_reg regs (rD_f i)) g'" if "op_f i = PPC_OP_ADDIS"
    using that step by (intro agrees_add_imm [OF regs] fields frame_rD [OF step]) (simp_all add: isa_step_def)
  have logical: "agrees (logical_imm regs i f) g'" if "rA_group (op_f i)" "g' (r_A i) = f (g (r_S i))" for f
    using that by (intro agrees_logical_imm [OF regs] fields frame_rA [OF step])
  have immediates:
    "op_f i = PPC_OP_ORI \<Longrightarrow> agrees (logical_imm regs i (\<lambda>v. v OR ucast (uimm_f i))) g'"
    "op_f i = PPC_OP_ORIS \<Longrightarrow> agrees (logical_imm regs i (\<lambda>v. v OR push_bit 16 (ucast (uimm_f i)))) g'"
    "op_f i = PPC_OP_XORI \<Longrightarrow> agrees (logical_imm regs i (\<lambda>v. v XOR ucast (uimm_f i))) g'"
    "op_f i = PPC_OP_XORIS \<Longrightarrow> agrees (logical_imm regs i (\<lambda>v. v XOR push_bit 16 (ucast (uimm_f i)))) g'"
    using step by (intro logical; simp add: isa_step_def)+
  have loads: "agrees (clear_reg regs (rD_f i)) g'" if "rD_group (op_f i)"
    using regs by (rule agrees_clear) (rule frame_rD [OF step that])
  have results: "agrees (clear_reg regs (rA_f i)) g'" if "op_f i \<in> set result_rA_ops"
    using regs by (rule agrees_clear) (rule frame_rA [OF step], use that in simp_all)
  have load_updates:
    "op_f i \<in> set load_update_ops \<Longrightarrow>
       agrees (clear_reg (set_or_clear regs (rA_f i) (known_dform_ea regs i)) (rD_f i)) g'"
    "op_f i \<in> set load_update_indexed_ops \<Longrightarrow>
       agrees (clear_reg (set_or_clear regs (rA_f i) (known_indexed_ea regs i)) (rD_f i)) g'"
    by (intro agrees_load_update [OF regs] target frame_rA_rD [OF step]; simp add: ea)+
  have store_updates:
    "op_f i \<in> set store_update_ops \<Longrightarrow> agrees (set_or_clear regs (rA_f i) (known_dform_ea regs i)) g'"
    "op_f i \<in> set store_update_indexed_ops \<Longrightarrow> agrees (set_or_clear regs (rA_f i) (known_indexed_ea regs i)) g'"
    by (intro agrees_set_or_clear [OF regs] frame_rA [OF step]; simp add: ea)+
  show ?thesis
    unfolding update_known_regs_def Let_def
    by (rule addi addis immediates load_updates store_updates results agrees_lmw [OF regs step], assumption |
        (rule loads, simp) | (rule silent, simp add: handled_def simple_ops_def) | rule agrees_ifI)+
qed

section \<open>Code ranges are exact\<close>

definition code_bytes :: "LoadedCodeSection list \<Rightarrow> nat set" where
  "code_bytes sections = (\<Union>s \<in> {s \<in> set sections. sec_mode s = EMBEDDED_DATA_DOL}.
     {unat (sec_address s) ..< unat (sec_address s) + unat (sec_size s)})"

definition access_bytes :: "u32 \<Rightarrow> u32 \<Rightarrow> nat set" where
  "access_bytes a sz = {unat a ..< unat a + max 1 (unat sz)}"

lemma unat_ucast_64 [simp]: "unat (ucast (x :: u32) :: u64) = unat x"
  using unsigned_less [of x, where ?'a = nat] by (simp add: unsigned_ucast_eq take_bit_nat_eq_self)

lemma unat_add_64: "unat (ucast (x :: u32) + ucast (y :: u32) :: u64) = unat x + unat y"
  using unsigned_less [of x, where ?'a = nat] unsigned_less [of y, where ?'a = nat]
  by (simp add: unat_word_ariths)

lemma section_overlaps_iff:
  "section_overlaps s (ucast a) (ucast a + ucast (if sz \<noteq> 0 then sz else 1)) \<longleftrightarrow>
    sec_mode s = EMBEDDED_DATA_DOL \<and>
    access_bytes a sz \<inter> {unat (sec_address s) ..< unat (sec_address s) + unat (sec_size s)} \<noteq> {}"
proof -
  have len: "unat (if sz \<noteq> 0 then sz else 1) = max 1 (unat sz)"
    by (auto simp: unat_eq_0 max_def Suc_le_eq unat_gt_0 intro: le_antisym)
  have "section_overlaps s (ucast a) (ucast a + ucast (if sz \<noteq> 0 then sz else 1)) \<longleftrightarrow>
      sec_mode s = EMBEDDED_DATA_DOL \<and> 0 < unat (sec_size s) \<and>
      unat a < unat (sec_address s) + unat (sec_size s) \<and> unat (sec_address s) < unat a + max 1 (unat sz)"
    unfolding section_overlaps_def Let_def word_less_nat_alt [where 'a = 64] unat_add_64 unat_ucast_64 len
    by (auto simp: unat_gt_0)
  also have "\<dots> \<longleftrightarrow> sec_mode s = EMBEDDED_DATA_DOL \<and>
      access_bytes a sz \<inter> {unat (sec_address s) ..< unat (sec_address s) + unat (sec_size s)} \<noteq> {}"
    by (auto simp: access_bytes_def)
  finally show ?thesis .
qed

lemma code_range_overlaps_iff:
  "code_range_overlaps sections a sz \<longleftrightarrow> access_bytes a sz \<inter> code_bytes sections \<noteq> {}"
  unfolding code_range_overlaps_def Let_def list_ex_iff section_overlaps_iff code_bytes_def by blast

section \<open>The report covers what is noted\<close>

definition covered :: "SMCAnalysis \<Rightarrow> u32 \<Rightarrow> bool" where
  "covered smc a \<longleftrightarrow> (\<exists>r \<in> set (smc_ranges smc). range_start r \<le> a \<and> a \<le> range_end r)"

lemma covered_append:
  "smc_ranges smc' = smc_ranges smc @ [r] \<Longrightarrow>
    covered smc' x \<longleftrightarrow> covered smc x \<or> range_start r \<le> x \<and> x \<le> range_end r"
  by (auto simp: covered_def)

lemma covered_extend_last:
  assumes "smc_ranges smc \<noteq> []" and "range_end (last (smc_ranges smc)) < a"
    and "smc_ranges smc' = butlast (smc_ranges smc) @ [(last (smc_ranges smc))\<lparr>range_end := a\<rparr>]"
    and "covered smc x"
  shows "covered smc' x"
proof -
  obtain r where r: "r \<in> set (smc_ranges smc)" "range_start r \<le> x" "x \<le> range_end r"
    using assms(4) by (auto simp: covered_def)
  show ?thesis
  proof (cases "r \<in> set (butlast (smc_ranges smc))")
    case True
    with r show ?thesis by (auto simp: covered_def assms(3))
  next
    case False
    with r(1) assms(1) have "r = last (smc_ranges smc)"
      by (metis append_butlast_last_id rotate1.simps(2) set_ConsD set_rotate1)
    with r assms(2) show ?thesis by (auto simp: covered_def assms(3))
  qed
qed

lemma smc_note_failed_mono: "smc_allocation_failed smc \<Longrightarrow> smc_allocation_failed (smc_note ok smc a)"
  by (simp add: smc_note_def smc_add_range_def Let_def)

lemma smc_add_range_ranges:
  "\<not> smc_allocation_failed (smc_add_range ok smc a) \<Longrightarrow>
    smc_ranges (smc_add_range ok smc a) = smc_ranges smc @ [\<lparr>range_start = a, range_end = a\<rparr>]"
  unfolding smc_add_range_def Let_def by (simp split: if_splits)

lemma smc_note_covers:
  assumes "\<not> smc_allocation_failed (smc_note ok smc a)"
  shows "covered (smc_note ok smc a) a" and "smc_possible (smc_note ok smc a)"
    and "covered smc x \<Longrightarrow> covered (smc_note ok smc a) x"
proof -
  let ?rs = "smc_ranges smc"
  show "smc_possible (smc_note ok smc a)"
    by (simp add: smc_note_def smc_add_range_def Let_def)
  have "covered (smc_note ok smc a) a \<and> (covered smc x \<longrightarrow> covered (smc_note ok smc a) x)"
  proof (cases "?rs \<noteq> [] \<and> range_start (last ?rs) \<le> a \<and> a \<le> range_end (last ?rs) + 4")
    case inside: True
    show ?thesis
    proof (cases "range_end (last ?rs) < a")
      case True
      then have ranges: "smc_ranges (smc_note ok smc a) = butlast ?rs @ [(last ?rs)\<lparr>range_end := a\<rparr>]"
        using inside by (simp add: smc_note_def Let_def)
      then show ?thesis
        using inside True covered_extend_last [OF _ True ranges, of x] by (auto simp: covered_def)
    next
      case False
      then have ranges: "smc_ranges (smc_note ok smc a) = ?rs"
        using inside by (simp add: smc_note_def Let_def)
      then show ?thesis
        using inside False last_in_set [of ?rs] by (auto simp: covered_def not_less)
    qed
  next
    case False
    then have added: "smc_note ok smc a = smc_add_range ok (smc\<lparr>smc_possible := True\<rparr>) a"
      by (auto simp: smc_note_def Let_def)
    have "smc_ranges (smc_note ok smc a) = ?rs @ [\<lparr>range_start = a, range_end = a\<rparr>]"
      using assms unfolding added by (subst smc_add_range_ranges) simp_all
    then show ?thesis by (simp add: covered_append)
  qed
  then show "covered (smc_note ok smc a) a" and "covered smc x \<Longrightarrow> covered (smc_note ok smc a) x"
    by blast+
qed

section \<open>The analysis of a section\<close>

text \<open>The known registers before instruction \<open>k\<close>, and the instructions the loop flags.\<close>

abbreviation unknown_regs :: "KnownReg list" where
  "unknown_regs \<equiv> replicate 32 \<lparr>known = False, reg_value = 0\<rparr>"

definition skipped :: "PPCInst \<Rightarrow> bool" where
  "skipped i \<longleftrightarrow> embedded_data i \<or> op_f i = PPC_OP_UNKNOWN"

definition known_before :: "PPCInst list \<Rightarrow> nat \<Rightarrow> KnownReg list" where
  "known_before insts k =
    foldl (\<lambda>regs i. if skipped i then regs else update_known_regs regs i) unknown_regs (take k insts)"

definition flagged :: "LoadedCodeSection list \<Rightarrow> PPCInst list \<Rightarrow> nat \<Rightarrow> bool" where
  "flagged sections insts k \<longleftrightarrow> \<not> skipped (insts ! k) \<and>
    (op_f (insts ! k) = PPC_OP_ICBI \<or> smc_inst_targets_code sections (insts ! k) (known_before insts k))"

lemma analyze_step_regs:
  "fst (analyze_step ok sections st i) = (if skipped i then fst st else update_known_regs (fst st) i)"
  by (auto simp: analyze_step_def skipped_def split: prod.splits)

lemma analyze_regs:
  "fst (foldl (analyze_step ok sections) st is) =
    foldl (\<lambda>regs i. if skipped i then regs else update_known_regs regs i) (fst st) is"
  by (induction "is" arbitrary: st) (simp_all add: analyze_step_regs)

definition analyze_prefix ::
  "(u32 \<Rightarrow> bool) \<Rightarrow> LoadedCodeSection list \<Rightarrow> PPCInst list \<Rightarrow> SMCAnalysis \<Rightarrow> nat \<Rightarrow> SMCAnalysis" where
  "analyze_prefix ok sections insts smc k =
    snd (foldl (analyze_step ok sections) (unknown_regs, smc) (take k insts))"

lemma analyze_prefix_Suc:
  assumes "k < length insts"
  shows "analyze_prefix ok sections insts smc (Suc k) =
    (if flagged sections insts k
     then smc_note ok (analyze_prefix ok sections insts smc k) (address_of (insts ! k))
     else analyze_prefix ok sections insts smc k)"
proof -
  let ?st = "foldl (analyze_step ok sections) (unknown_regs, smc) (take k insts)"
  have regs: "fst ?st = known_before insts k"
    by (simp add: analyze_regs known_before_def)
  have "analyze_prefix ok sections insts smc (Suc k) = snd (analyze_step ok sections ?st (insts ! k))"
    by (simp add: analyze_prefix_def take_Suc_conv_app_nth assms)
  also have "\<dots> = (if flagged sections insts k then smc_note ok (snd ?st) (address_of (insts ! k)) else snd ?st)"
    using regs by (cases ?st) (auto simp: analyze_step_def flagged_def skipped_def Let_def)
  finally show ?thesis by (simp add: analyze_prefix_def)
qed

lemma analyze_prefix_failed:
  assumes "k \<le> m" and "m \<le> length insts" and "smc_allocation_failed (analyze_prefix ok sections insts smc k)"
  shows "smc_allocation_failed (analyze_prefix ok sections insts smc m)"
  using assms
proof (induction m rule: dec_induct)
  case (step m)
  then show ?case by (simp add: analyze_prefix_Suc smc_note_failed_mono)
qed

lemma analyze_prefix_covered:
  assumes "k \<le> m" and "m \<le> length insts" and "covered (analyze_prefix ok sections insts smc k) x"
    and "\<not> smc_allocation_failed (analyze_prefix ok sections insts smc m)"
  shows "covered (analyze_prefix ok sections insts smc m) x"
  using assms
proof (induction m rule: dec_induct)
  case (step m)
  then have "\<not> smc_allocation_failed (analyze_prefix ok sections insts smc m)"
    using analyze_prefix_failed [of m "Suc m" insts ok sections smc] by auto
  with step show ?case by (auto simp: analyze_prefix_Suc intro: smc_note_covers)
qed

text \<open>Unless an allocation failed, every instruction the analysis flags is inside a range of
  its report: every \<open>icbi\<close>, and every store whose address it knows and that reaches a byte of a
  code section, the accessed bytes and the code bytes taken as sets of natural numbers so that
  nothing wraps at the end of the address space.\<close>

theorem smc_report_complete:
  assumes "k < length insts" and "\<not> embedded_data (insts ! k)" and "op_f (insts ! k) \<noteq> PPC_OP_UNKNOWN"
    and "op_f (insts ! k) = PPC_OP_ICBI \<or>
      (\<exists>sz ea. store_size_for_inst (insts ! k) = Some sz \<and>
        (if inst_has_dform_ea (op_f (insts ! k)) then known_dform_ea (known_before insts k) (insts ! k)
         else if inst_has_indexed_ea (op_f (insts ! k)) then known_indexed_ea (known_before insts k) (insts ! k)
         else None) = Some ea \<and> access_bytes ea sz \<inter> code_bytes sections \<noteq> {})"
    and "\<not> smc_allocation_failed (analyze_smc_section ok sections insts smc)"
  shows "covered (analyze_smc_section ok sections insts smc) (address_of (insts ! k))"
proof -
  have final: "analyze_smc_section ok sections insts smc = analyze_prefix ok sections insts smc (length insts)"
    by (simp add: analyze_smc_section_def analyze_prefix_def)
  have "flagged sections insts k"
    using assms(2-4) by (auto simp: flagged_def skipped_def smc_inst_targets_code_def code_range_overlaps_iff)
  moreover have "\<not> smc_allocation_failed (analyze_prefix ok sections insts smc (Suc k))"
    using assms(1,5) analyze_prefix_failed [of "Suc k" "length insts"] unfolding final by auto
  ultimately have "covered (analyze_prefix ok sections insts smc (Suc k)) (address_of (insts ! k))"
    using assms(1) by (simp add: analyze_prefix_Suc smc_note_covers)
  then show ?thesis
    using assms(1,5) analyze_prefix_covered [of "Suc k" "length insts"] unfolding final by auto
qed

definition demo_section :: LoadedCodeSection where
  "demo_section = \<lparr>sec_label = ''text'', sec_name = None, sec_data = zero_bytes, sec_index = 0,
     sec_file_offset = 0x100, sec_address = 0x80003100, sec_size = 0x100, sec_mode = EMBEDDED_DATA_DOL\<rparr>"

definition empty_smc :: SMCAnalysis where
  "empty_smc = \<lparr>smc_possible = False, smc_allocation_failed = False, smc_range_capacity = 0, smc_ranges = []\<rparr>"

text \<open>\<open>lis r3,0x8000; stw r4,0x3104(r3)\<close> patches the code at 0x80003104.\<close>

definition demo_insts :: "PPCInst list" where
  "demo_insts = [ppc_decode 0x3C608000 0x80003100, ppc_decode 0x90833104 0x80003104]"

lemma smc_report_complete_witness:
  "covered (analyze_smc_section (\<lambda>_. True) [demo_section] demo_insts empty_smc) 0x80003104"
proof -
  have insts: "op_f (demo_insts ! 1) = PPC_OP_STW" "\<not> embedded_data (demo_insts ! 1)"
    "address_of (demo_insts ! 1) = 0x80003104" "length demo_insts = 2"
    by code_simp+
  have size: "store_size_for_inst (demo_insts ! 1) = Some 4" by code_simp
  have ea: "known_dform_ea (known_before demo_insts 1) (demo_insts ! 1) = Some 0x80003104" by code_simp
  have dform: "inst_has_dform_ea PPC_OP_STW" by code_simp
  have "(0x80003104 :: nat) \<in> access_bytes 0x80003104 4 \<inter> code_bytes [demo_section]"
    by (simp add: access_bytes_def code_bytes_def demo_section_def)
  then have hit: "access_bytes 0x80003104 4 \<inter> code_bytes [demo_section] \<noteq> {}" by blast
  have "\<not> smc_allocation_failed (analyze_smc_section (\<lambda>_. True) [demo_section] demo_insts empty_smc)"
    by code_simp
  then show ?thesis
    using smc_report_complete [of 1 demo_insts "[demo_section]" "\<lambda>_. True" empty_smc] insts size ea dform hit
    by simp
qed

section \<open>Known registers are the register file\<close>

definition true_ea :: "PPCInst \<Rightarrow> gprs \<Rightarrow> u32" where
  "true_ea i g = isa_base i g + (if inst_has_dform_ea (op_f i) then scast (simm_f i) else g (r_B i))"

definition straight_run :: "PPCInst list \<Rightarrow> gprs list \<Rightarrow> bool" where
  "straight_run insts gs \<longleftrightarrow> length gs = Suc (length insts) \<and>
    (\<forall>k < length insts. if skipped (insts ! k) then gs ! Suc k = gs ! k
                       else isa_step (insts ! k) (gs ! k) (gs ! Suc k))"

lemma known_before_agrees:
  assumes "straight_run insts gs" and "\<forall>i \<in> set insts. \<exists>raw address. i = ppc_decode raw address"
    and "k \<le> length insts" and "\<forall>j<k. op_f (insts ! j) \<notin> set forgotten_ops"
  shows "agrees (known_before insts k) (gs ! k)"
  using assms(3,4)
proof (induction k)
  case 0
  show ?case by (simp add: known_before_def agrees_def)
next
  case (Suc k)
  then have IH: "agrees (known_before insts k) (gs ! k)" and k: "k < length insts" by simp_all
  have next_regs: "known_before insts (Suc k) =
      (if skipped (insts ! k) then known_before insts k else update_known_regs (known_before insts k) (insts ! k))"
    using k by (simp add: known_before_def take_Suc_conv_app_nth)
  obtain raw address where i: "insts ! k = ppc_decode raw address"
    using assms(2) k by (meson nth_mem)
  show ?case
  proof (cases "skipped (insts ! k)")
    case True
    then show ?thesis using IH assms(1) k by (simp add: next_regs straight_run_def)
  next
    case False
    then have "isa_step (insts ! k) (gs ! k) (gs ! Suc k)" using assms(1) k by (simp add: straight_run_def)
    moreover have "op_f (ppc_decode raw address) \<notin> set forgotten_ops"
      using Suc.prems(2) i by auto
    ultimately show ?thesis
      using False update_known_regs_sound [OF IH _ base_ok_decode inst_ok_decode]
      unfolding next_regs i by simp
  qed
qed

text \<open>C24: on a straight-line run of decoded instructions that uses none of the forgotten opcodes,
  the analysis is exact where it commits itself: the registers it believes known hold those
  values, and a store it flags really touches a code byte.\<close>

theorem smc_analysis_sound:
  assumes "straight_run insts gs" and "\<forall>i \<in> set insts. \<exists>raw address. i = ppc_decode raw address"
    and "k < length insts" and "\<forall>j<k. op_f (insts ! j) \<notin> set forgotten_ops"
  shows "(\<forall>r<32. known (known_before insts k ! r) \<longrightarrow> reg_value (known_before insts k ! r) = (gs ! k) r) \<and>
    (smc_inst_targets_code sections (insts ! k) (known_before insts k) \<longrightarrow>
      (\<exists>sz. store_size_for_inst (insts ! k) = Some sz \<and>
        access_bytes (true_ea (insts ! k) (gs ! k)) sz \<inter> code_bytes sections \<noteq> {}))"
proof -
  have regs: "agrees (known_before insts k) (gs ! k)"
    using assms by (intro known_before_agrees) auto
  obtain raw address where i: "insts ! k = ppc_decode raw address"
    using assms(2,3) by (meson nth_mem)
  have fields: "rA_f (insts ! k) < 32" "rB_f (insts ! k) < 32"
    using inst_ok_decode [of raw address] by (simp_all add: i inst_ok_def)
  have "\<exists>sz. store_size_for_inst (insts ! k) = Some sz \<and>
      access_bytes (true_ea (insts ! k) (gs ! k)) sz \<inter> code_bytes sections \<noteq> {}"
    if hit: "smc_inst_targets_code sections (insts ! k) (known_before insts k)"
  proof -
    from hit obtain sz ea where sz: "store_size_for_inst (insts ! k) = Some sz"
      and ea: "(if inst_has_dform_ea (op_f (insts ! k)) then known_dform_ea (known_before insts k) (insts ! k)
         else if inst_has_indexed_ea (op_f (insts ! k)) then known_indexed_ea (known_before insts k) (insts ! k)
         else None) = Some ea" and code: "code_range_overlaps sections ea sz"
      by (auto simp: smc_inst_targets_code_def split: option.splits)
    have "true_ea (insts ! k) (gs ! k) = ea"
      using ea agrees_dform_ea [OF regs fields(1)] agrees_indexed_ea [OF regs fields]
      by (auto simp: true_ea_def split: if_splits)
    with sz code show ?thesis by (simp add: code_range_overlaps_iff)
  qed
  with regs show ?thesis by (simp add: agrees_def)
qed

lemma demo_decoded:
  "op_f (ppc_decode 0x3C608000 a) = PPC_OP_ADDIS" "rD_f (ppc_decode 0x3C608000 a) = 3"
  "rA_f (ppc_decode 0x3C608000 a) = 0" "simm_f (ppc_decode 0x3C608000 a) = 0x8000"
  "op_f (ppc_decode 0x90833104 a) = PPC_OP_STW" "rA_f (ppc_decode 0x90833104 a) = 3"
  "simm_f (ppc_decode 0x90833104 a) = 0x3104"
  "op_f (ppc_decode 0x70630000 a) = PPC_OP_ANDI" "rA_f (ppc_decode 0x70630000 a) = 3"
  "rS_f (ppc_decode 0x70630000 a) = 3" "uimm_f (ppc_decode 0x70630000 a) = 0"
  "\<not> embedded_data (ppc_decode 0x3C608000 a)" "\<not> embedded_data (ppc_decode 0x90833104 a)"
  "\<not> embedded_data (ppc_decode 0x70630000 a)"
  by (simp_all add: ppc_decode_def decode_primary_def decode_primary_storage_def PPC_PRIMARY_def
      decode_d_rt_ra_def decode_d_rs_ra_def PPC_RD_def PPC_RA_def PPC_RS_def PPC_SIMM_def PPC_UIMM_def
      blank_inst_def)

lemma demo_step_lis:
  "isa_step (ppc_decode 0x3C608000 a) g (g(3 := 0x80000000))"
  by (simp add: isa_step_def isa_writes_def isa_base_def demo_decoded analysis_lists)

lemma demo_step_stw: "isa_step (ppc_decode 0x90833104 a) g g"
  by (simp add: isa_step_def demo_decoded analysis_lists)

lemma smc_analysis_sound_witness:
  "(known (known_before demo_insts 1 ! 3) \<and> reg_value (known_before demo_insts 1 ! 3) = 0x80000000) \<and>
   access_bytes (true_ea (demo_insts ! 1) ((\<lambda>_. 0)(3 := 0x80000000))) 4 \<inter> code_bytes [demo_section] \<noteq> {}"
proof -
  let ?gs = "[\<lambda>_. 0, (\<lambda>_. 0)(3 := 0x80000000), (\<lambda>_. 0)(3 := 0x80000000)] :: gprs list"
  have run: "straight_run demo_insts ?gs"
    by (auto simp: straight_run_def demo_insts_def skipped_def demo_decoded less_Suc_eq demo_step_lis demo_step_stw)
  have decoded: "\<forall>i \<in> set demo_insts. \<exists>raw address. i = ppc_decode raw address"
    by (auto simp: demo_insts_def)
  have ops: "\<forall>j<1. op_f (demo_insts ! j) \<notin> set forgotten_ops"
    by (simp add: demo_insts_def demo_decoded forgotten_ops_def)
  have known: "known (known_before demo_insts 1 ! 3)" by code_simp
  have target: "smc_inst_targets_code [demo_section] (demo_insts ! 1) (known_before demo_insts 1)" by code_simp
  have size: "store_size_for_inst (demo_insts ! 1) = Some 4" by code_simp
  show ?thesis
    using smc_analysis_sound [OF run decoded _ ops, of "[demo_section]"] known target size
    by (simp add: demo_insts_def)
qed

text \<open>An opcode the analysis forgets leaves a stale constant.  After
  \<open>lis r3,0x8000; andi. r3,r3,0\<close> the register holds 0, the analysis still takes it for
  0x80000000 and flags the store \<open>stw r4,0x3104(r3)\<close>, which does not touch the code section.\<close>

theorem smc_stale_after_andi:
  "let insts = [ppc_decode 0x3C608000 0x80003100, ppc_decode 0x70630000 0x80003104,
                ppc_decode 0x90833104 0x80003108];
       gs = [\<lambda>_. 0, (\<lambda>_. 0)(3 := 0x80000000), \<lambda>_. 0, \<lambda>_. 0]
   in straight_run insts gs \<and>
      known (known_before insts 2 ! 3) \<and> reg_value (known_before insts 2 ! 3) = 0x80000000 \<and> (gs ! 2) 3 = 0 \<and>
      smc_inst_targets_code [demo_section] (insts ! 2) (known_before insts 2) \<and>
      access_bytes (true_ea (insts ! 2) (gs ! 2)) 4 \<inter> code_bytes [demo_section] = {}"
proof -
  let ?insts = "[ppc_decode 0x3C608000 0x80003100, ppc_decode 0x70630000 0x80003104,
    ppc_decode 0x90833104 0x80003108]"
  let ?gs = "[\<lambda>_. 0, (\<lambda>_. 0)(3 := 0x80000000), \<lambda>_. 0, \<lambda>_. 0] :: gprs list"
  have andi: "isa_step (ppc_decode 0x70630000 a) ((\<lambda>_. 0)(3 := 0x80000000)) (\<lambda>_. 0)" for a
    by (simp add: isa_step_def isa_writes_def demo_decoded analysis_lists)
  have "straight_run ?insts ?gs"
    by (auto simp: straight_run_def skipped_def demo_decoded less_Suc_eq demo_step_lis demo_step_stw andi)
  moreover have "known (known_before ?insts 2 ! 3)" "reg_value (known_before ?insts 2 ! 3) = 0x80000000"
    "smc_inst_targets_code [demo_section] (?insts ! 2) (known_before ?insts 2)"
    by code_simp+
  moreover have "true_ea (?insts ! 2) (?gs ! 2) = 0x3104"
    by (simp add: true_ea_def isa_base_def demo_decoded inst_has_dform_ea_def dform_ea_ops_def)
  then have "access_bytes (true_ea (?insts ! 2) (?gs ! 2)) 4 \<inter> code_bytes [demo_section] = {}"
    by (auto simp: access_bytes_def code_bytes_def demo_section_def)
  ultimately show ?thesis unfolding Let_def by simp
qed

end
