(* ===== verification/Rel.thy ===== *)
theory Rel
  imports GuestTypes
begin

text \<open>
  The relocatable-module loader of src/DolRecomp/src/frontend/rel.c and rel.h: parsing and
  validating a REL image, laying its sections out, and applying its import relocations.

  The result of opening, measuring, allocating and reading the file is the parameter
  \<open>file\<close> (its size and bytes, \<open>None\<close> when any of these fails), the success of the later
  allocations the parameter \<open>alloc_ok\<close> (by size).  A function that prints an error and fails
  returns \<open>None\<close>; on failure the C code frees the image, so no state is returned with it.
  \<open>data\<close> and \<open>owned_data\<close> of a section are set together and are one field.
\<close>

section \<open>Constants and state\<close>

abbreviation REL_HEADER_MIN_SIZE :: nat where "REL_HEADER_MIN_SIZE \<equiv> 0x40"
abbreviation REL_SECTION_ENTRY_SIZE :: u32 where "REL_SECTION_ENTRY_SIZE \<equiv> 8"
abbreviation REL_IMPORT_ENTRY_SIZE :: u32 where "REL_IMPORT_ENTRY_SIZE \<equiv> 8"
abbreviation REL_RELOCATION_ENTRY_SIZE :: u32 where "REL_RELOCATION_ENTRY_SIZE \<equiv> 8"
abbreviation REL_MAX_SECTION_COUNT :: u32 where "REL_MAX_SECTION_COUNT \<equiv> 4096"
abbreviation R_PPC_NONE :: u8 where "R_PPC_NONE \<equiv> 0"
abbreviation R_PPC_ADDR32 :: u8 where "R_PPC_ADDR32 \<equiv> 1"
abbreviation R_PPC_ADDR24 :: u8 where "R_PPC_ADDR24 \<equiv> 2"
abbreviation R_PPC_ADDR16 :: u8 where "R_PPC_ADDR16 \<equiv> 3"
abbreviation R_PPC_ADDR16_LO :: u8 where "R_PPC_ADDR16_LO \<equiv> 4"
abbreviation R_PPC_ADDR16_HI :: u8 where "R_PPC_ADDR16_HI \<equiv> 5"
abbreviation R_PPC_ADDR16_HA :: u8 where "R_PPC_ADDR16_HA \<equiv> 6"
abbreviation R_PPC_ADDR14 :: u8 where "R_PPC_ADDR14 \<equiv> 7"
abbreviation R_PPC_ADDR14_BRTAKEN :: u8 where "R_PPC_ADDR14_BRTAKEN \<equiv> 8"
abbreviation R_PPC_ADDR14_BRNTAKEN :: u8 where "R_PPC_ADDR14_BRNTAKEN \<equiv> 9"
abbreviation R_PPC_REL24 :: u8 where "R_PPC_REL24 \<equiv> 10"
abbreviation R_PPC_REL14 :: u8 where "R_PPC_REL14 \<equiv> 11"
abbreviation R_DOLPHIN_NOP :: u8 where "R_DOLPHIN_NOP \<equiv> 201"
abbreviation R_DOLPHIN_SECTION :: u8 where "R_DOLPHIN_SECTION \<equiv> 202"
abbreviation R_DOLPHIN_END :: u8 where "R_DOLPHIN_END \<equiv> 203"

record RELSection =
  rs_index :: u32
  rs_offset :: u32
  rs_address :: u32
  rs_size :: u32
  rs_executable :: bool
  rs_bss :: bool
  rs_data :: "bytes option"

record RELFile =
  rel_file_data :: bytes
  rel_file_size :: u32
  rel_module_id :: u32
  rel_version :: u32
  rel_bss_size :: u32
  rel_base_address :: u32
  rel_entry_point :: u32
  rel_prolog_section :: u32
  rel_epilog_section :: u32
  rel_unresolved_section :: u32
  rel_prolog_offset :: u32
  rel_epilog_offset :: u32
  rel_unresolved_offset :: u32
  rel_import_count :: u32
  rel_relocation_count :: u32
  rel_relocation_offset :: u32
  rel_import_offset :: u32
  rel_import_size :: u32
  rel_section_count :: u32
  rel_sections :: "RELSection list"

record RELModuleMapEntry =
  map_module_id :: u32
  map_rel :: RELFile

type_synonym RELModuleMap = "RELModuleMapEntry list"

section \<open>Checked arithmetic\<close>

definition range_fits :: "u32 \<Rightarrow> u32 \<Rightarrow> u32 \<Rightarrow> bool" where
  [guard_defs]: "range_fits off sz limit \<longleftrightarrow> off \<le> limit \<and> sz \<le> limit - off"

definition align_up_u32 :: "u32 \<Rightarrow> u32 \<Rightarrow> u32 option" where
  "align_up_u32 value alignment =
    (if alignment \<le> 1 then Some value
     else let result = (ucast value + ucast alignment - 1 :: u64) div ucast alignment * ucast alignment
     in if result > 0xFFFFFFFF then None else Some (ucast result))"

definition add_u32_checked :: "u32 \<Rightarrow> u32 \<Rightarrow> u32 option" where
  "add_u32_checked a b = (if b > 0xFFFFFFFF - a then None else Some (a + b))"

definition read_file :: "(nat \<times> bytes) option \<Rightarrow> (u32 \<times> bytes) option" where
  "read_file file = (case file of
     None \<Rightarrow> None
   | Some (sz, contents) \<Rightarrow> if sz < REL_HEADER_MIN_SIZE then None else Some (of_nat sz, contents))"

section \<open>Addresses and entry points\<close>

definition section_has_file_data :: "RELSection \<Rightarrow> bool" where
  "section_has_file_data s \<longleftrightarrow> rs_size s \<noteq> 0 \<and> \<not> rs_bss s"

definition section_address_at :: "RELFile \<Rightarrow> u32 \<Rightarrow> u32 \<Rightarrow> u32 option" where
  "section_address_at rel section_index off =
    (if section_index \<ge> rel_section_count rel then None
     else let s = rel_sections rel ! unat section_index
     in if rs_size s = 0 \<or> off > rs_size s then None
        else add_u32_checked (rs_address s) off)"

definition validate_entry :: "RELFile \<Rightarrow> u32 \<Rightarrow> u32 \<Rightarrow> bool" where
  "validate_entry rel section_index off \<longleftrightarrow>
    (if section_index = 0 then True
     else if section_index \<ge> rel_section_count rel then False
     else let s = rel_sections rel ! unat section_index
     in if \<not> rs_executable s \<or> rs_bss s \<or> rs_data s = None then False
        else if off AND 3 \<noteq> 0 \<or> off \<ge> rs_size s then False
        else True)"

fun find_module :: "RELModuleMap \<Rightarrow> u32 \<Rightarrow> RELFile option" where
  "find_module [] module_id = None"
| "find_module (e # es) module_id =
    (if map_module_id e = module_id then Some (map_rel e) else find_module es module_id)"

definition relocation_target ::
  "RELFile \<Rightarrow> RELModuleMap option \<Rightarrow> u32 \<Rightarrow> u8 \<Rightarrow> u32 \<Rightarrow> u32 option" where
  "relocation_target rel modules import_module section_index symbol_offset =
    (if import_module = 0 then Some symbol_offset
     else if import_module \<noteq> rel_module_id rel
     then (case (case modules of None \<Rightarrow> None | Some es \<Rightarrow> find_module es import_module) of
             None \<Rightarrow> None
           | Some imported \<Rightarrow> section_address_at imported (ucast section_index) symbol_offset)
     else section_address_at rel (ucast section_index) symbol_offset)"

section \<open>Applying a relocation\<close>

definition require_patch_range :: "RELSection \<Rightarrow> u32 \<Rightarrow> bool" where
  "require_patch_range s off \<longleftrightarrow>
    \<not> (\<not> section_has_file_data s \<or> off > rs_size s \<or> rs_size s - off < 4)"

definition check_rel_delta :: "int \<Rightarrow> int \<Rightarrow> int \<Rightarrow> bool" where
  "check_rel_delta delta lo hi \<longleftrightarrow> \<not> (delta AND 3 \<noteq> 0 \<or> delta < lo \<or> delta > hi)"

text \<open>The patched bytes of a section whose data is \<open>d\<close>.\<close>

definition patch_bytes :: "bytes \<Rightarrow> u32 \<Rightarrow> u32 \<Rightarrow> u8 \<Rightarrow> u32 \<Rightarrow> bytes option" where
  "patch_bytes d patch patch_address type target =
    (let word = read_be32 d patch in
     if type = R_PPC_ADDR32 then Some (write_be32 d patch target)
     else if type = R_PPC_ADDR24 then
       (if target AND 3 \<noteq> 0 then None
        else Some (write_be32 d patch ((word AND 0xFC000003) OR (target AND 0x03FFFFFC))))
     else if type = R_PPC_ADDR16 \<or> type = R_PPC_ADDR16_LO then Some (write_be16 d (patch + 2) (ucast target))
     else if type = R_PPC_ADDR16_HI then Some (write_be16 d (patch + 2) (ucast (drop_bit 16 target)))
     else if type = R_PPC_ADDR16_HA then
       Some (write_be16 d (patch + 2) (ucast (drop_bit 16 (target + 0x8000))))
     else if type = R_PPC_ADDR14 \<or> type = R_PPC_ADDR14_BRTAKEN \<or> type = R_PPC_ADDR14_BRNTAKEN then
       (if target AND 3 \<noteq> 0 then None
        else Some (write_be32 d patch ((word AND 0xFFFF0003) OR (target AND 0x0000FFFC))))
     else if type = R_PPC_REL24 then
       (let delta = sint (target - patch_address)
        in if \<not> check_rel_delta delta (- 0x02000000) 0x01FFFFFC then None
           else Some (write_be32 d patch ((word AND 0xFC000003) OR (of_int delta AND 0x03FFFFFC))))
     else if type = R_PPC_REL14 then
       (let delta = sint (target - patch_address)
        in if \<not> check_rel_delta delta (- 0x8000) 0x7FFC then None
           else Some (write_be32 d patch ((word AND 0xFFFF0003) OR (of_int delta AND 0x0000FFFC))))
     else None)"

definition apply_relocation :: "RELSection \<Rightarrow> u32 \<Rightarrow> u32 \<Rightarrow> u8 \<Rightarrow> u32 \<Rightarrow> RELSection option" where
  "apply_relocation s off patch_address type target =
    (if type = R_PPC_NONE then Some s
     else if \<not> require_patch_range s off then None
     else case patch_bytes (the (rs_data s)) off patch_address type target of
       None \<Rightarrow> None
     | Some d \<Rightarrow> Some (s\<lparr>rs_data := Some d\<rparr>))"

section \<open>The relocation lists\<close>

text \<open>One entry of a relocation list: the section it selects or the section it patches.\<close>

definition relocate_entry ::
  "RELModuleMap option \<Rightarrow> u32 \<Rightarrow> RELFile \<Rightarrow> u32 \<Rightarrow> u32 \<Rightarrow> u8 \<Rightarrow> u8 \<Rightarrow> u32 \<Rightarrow> RELFile option" where
  "relocate_entry modules import_module rel section_index off type symbol_section symbol_offset =
    (if section_index \<ge> rel_section_count rel then None
     else case relocation_target rel modules import_module symbol_section symbol_offset of
       None \<Rightarrow> None
     | Some target \<Rightarrow>
        (case section_address_at rel section_index off of
           None \<Rightarrow> None
         | Some patch_address \<Rightarrow>
            (case apply_relocation (rel_sections rel ! unat section_index) off patch_address type target of
               None \<Rightarrow> None
             | Some s \<Rightarrow> Some (rel\<lparr>rel_sections := (rel_sections rel)[unat section_index := s],
                 rel_relocation_count := rel_relocation_count rel + 1\<rparr>))))"

lemma cursor_advances:
  assumes "range_fits cursor REL_RELOCATION_ENTRY_SIZE limit"
  shows "unat (cursor + REL_RELOCATION_ENTRY_SIZE) = unat cursor + 8" and "unat cursor + 8 \<le> unat limit"
proof -
  have "unat (limit - cursor) = unat limit - unat cursor"
    using assms by (intro unat_sub) (simp add: range_fits_def)
  moreover have "8 \<le> unat (limit - cursor)"
    using assms by (simp add: range_fits_def word_le_nat_alt)
  ultimately show le: "unat cursor + 8 \<le> unat limit" by simp
  then show "unat (cursor + REL_RELOCATION_ENTRY_SIZE) = unat cursor + 8"
    using unsigned_less [of limit, where ?'a = nat] by (simp add: unat_word_ariths)
qed

text \<open>The list of one import, from \<open>cursor\<close> to its end marker: \<open>None\<close> when an entry is bad or the
  list runs off the file without one.\<close>

function relocate_list ::
  "bytes \<Rightarrow> u32 \<Rightarrow> RELModuleMap option \<Rightarrow> u32 \<Rightarrow> RELFile \<Rightarrow> u32 \<Rightarrow> u32 \<Rightarrow> u32 \<Rightarrow> RELFile option" where
  "relocate_list data sz modules import_module rel cursor section_index off =
    (if \<not> range_fits cursor REL_RELOCATION_ENTRY_SIZE sz then None
     else let offset_delta = read_be16 data cursor; type = data (cursor + 2);
              symbol_section = data (cursor + 3); symbol_offset = read_be32 data (cursor + 4);
              next = cursor + REL_RELOCATION_ENTRY_SIZE
     in if type = R_DOLPHIN_SECTION then
          (if ucast symbol_section \<ge> rel_section_count rel then None
           else relocate_list data sz modules import_module rel next (ucast symbol_section) 0)
        else if type = R_DOLPHIN_END then Some rel
        else case add_u32_checked off (ucast offset_delta) of
          None \<Rightarrow> None
        | Some off \<Rightarrow>
            if type = R_DOLPHIN_NOP
            then relocate_list data sz modules import_module rel next section_index off
            else case relocate_entry modules import_module rel section_index off type symbol_section symbol_offset of
              None \<Rightarrow> None
            | Some rel \<Rightarrow> relocate_list data sz modules import_module rel next section_index off)"
  by pat_completeness auto
termination relocate_list
proof (relation "measure (\<lambda>(data, sz, modules, import_module, rel, cursor, section_index, off).
    unat (sz :: u32) - unat (cursor :: u32))", goal_cases)
  case 1
  show ?case by simp
qed (auto simp: cursor_advances dest: cursor_advances(2))

declare relocate_list.simps [simp del]

fun relocate_imports :: "RELModuleMap option \<Rightarrow> RELFile \<Rightarrow> u32 \<Rightarrow> nat \<Rightarrow> RELFile option" where
  "relocate_imports modules rel i 0 = Some rel"
| "relocate_imports modules rel i (Suc n) =
    (let import = rel_import_offset rel + i * REL_IMPORT_ENTRY_SIZE;
         import_module = read_be32 (rel_file_data rel) import;
         cursor = read_be32 (rel_file_data rel) (import + 4)
     in if \<not> range_fits cursor REL_RELOCATION_ENTRY_SIZE (rel_file_size rel) \<or>
           cursor < rel_relocation_offset rel then None
        else case relocate_list (rel_file_data rel) (rel_file_size rel) modules import_module rel cursor 0 0 of
          None \<Rightarrow> None
        | Some rel \<Rightarrow> relocate_imports modules rel (i + 1) n)"

definition rel_apply_relocations :: "RELFile \<Rightarrow> RELModuleMap option \<Rightarrow> RELFile option" where
  "rel_apply_relocations rel modules =
    (let rel = rel\<lparr>rel_relocation_count := 0\<rparr>
     in if rel_import_size rel = 0 then Some rel
        else if rel_import_size rel mod REL_IMPORT_ENTRY_SIZE \<noteq> 0 \<or>
                \<not> range_fits (rel_import_offset rel) (rel_import_size rel) (rel_file_size rel) then None
        else let rel = rel\<lparr>rel_import_count := rel_import_size rel div REL_IMPORT_ENTRY_SIZE\<rparr>
        in relocate_imports modules rel 0 (unat (rel_import_count rel)))"

section \<open>Loading an image\<close>

definition section_entry :: "bytes \<Rightarrow> u32 \<Rightarrow> u32 \<Rightarrow> RELSection" where
  "section_entry data entry i =
    (let raw_offset = read_be32 data entry; sz = read_be32 data (entry + 4);
         off = raw_offset AND NOT 1; executable = raw_offset AND 1 \<noteq> 0
     in \<lparr>rs_index = i, rs_offset = off, rs_address = 0, rs_size = sz, rs_executable = executable,
         rs_bss = (sz \<noteq> 0 \<and> off = 0 \<and> \<not> executable), rs_data = None\<rparr>)"

definition place_bss :: "u32 \<Rightarrow> u32 \<Rightarrow> RELSection \<Rightarrow> (RELSection \<times> u32) option" where
  "place_bss bss_alignment bss_cursor s =
    (case add_u32_checked bss_cursor (rs_size s) of
       None \<Rightarrow> None
     | Some cursor \<Rightarrow>
         (case align_up_u32 cursor (if bss_alignment \<noteq> 0 then bss_alignment else 4) of
            None \<Rightarrow> None
          | Some cursor \<Rightarrow> Some (s\<lparr>rs_address := bss_cursor\<rparr>, cursor)))"

text \<open>\<open>memcpy(owned_data, file_data + offset, size)\<close> into a fresh block.\<close>

definition copy_out :: "bytes \<Rightarrow> u32 \<Rightarrow> u32 \<Rightarrow> bytes" where
  "copy_out data off sz = (\<lambda>a. if a < sz then data (off + a) else 0)"

definition place_file_section ::
  "(u32 \<Rightarrow> bool) \<Rightarrow> bytes \<Rightarrow> u32 \<Rightarrow> u32 \<Rightarrow> u32 \<Rightarrow> RELSection \<Rightarrow> RELSection option" where
  "place_file_section alloc_ok data file_size base_address section_alignment s =
    (if \<not> range_fits (rs_offset s) (rs_size s) file_size then None
     else if rs_executable s \<and> (rs_size s AND 3 \<noteq> 0 \<or> rs_offset s AND 3 \<noteq> 0) then None
     else case add_u32_checked base_address (rs_offset s) of
       None \<Rightarrow> None
     | Some address \<Rightarrow>
         if section_alignment > 1 \<and> rs_executable s \<and> address mod section_alignment \<noteq> 0 then None
         else if \<not> alloc_ok (rs_size s) then None
         else Some (s\<lparr>rs_address := address, rs_data := Some (copy_out data (rs_offset s) (rs_size s))\<rparr>))"

fun load_sections ::
  "(u32 \<Rightarrow> bool) \<Rightarrow> bytes \<Rightarrow> u32 \<Rightarrow> u32 \<Rightarrow> u32 \<Rightarrow> u32 \<Rightarrow> u32 \<Rightarrow> u32 \<Rightarrow> u32 \<Rightarrow> nat \<Rightarrow>
     RELSection list option" where
  "load_sections alloc_ok data file_size base info section_alignment bss_alignment bss_cursor i 0 = Some []"
| "load_sections alloc_ok data file_size base info section_alignment bss_alignment bss_cursor i (Suc n) =
    (let s = section_entry data (info + i * REL_SECTION_ENTRY_SIZE) i
     in case (if rs_size s = 0 then Some (s, bss_cursor)
              else if rs_bss s then place_bss bss_alignment bss_cursor s
              else map_option (\<lambda>s. (s, bss_cursor))
                (place_file_section alloc_ok data file_size base section_alignment s)) of
          None \<Rightarrow> None
        | Some (s, bss_cursor) \<Rightarrow>
            map_option (\<lambda>ss. s # ss)
              (load_sections alloc_ok data file_size base info section_alignment bss_alignment bss_cursor (i + 1) n))"

text \<open>The code counts the executable sections as it loads them; an empty section is not counted.\<close>

definition rel_header :: "bytes \<Rightarrow> u32 \<Rightarrow> u32 \<Rightarrow> RELFile" where
  "rel_header h file_size base_address =
    \<lparr>rel_file_data = h, rel_file_size = file_size, rel_module_id = read_be32 h 0x00,
     rel_version = read_be32 h 0x1C, rel_bss_size = read_be32 h 0x20, rel_base_address = base_address,
     rel_entry_point = 0, rel_prolog_section = ucast (h 0x30), rel_epilog_section = ucast (h 0x31),
     rel_unresolved_section = ucast (h 0x32), rel_prolog_offset = read_be32 h 0x34,
     rel_epilog_offset = read_be32 h 0x38, rel_unresolved_offset = read_be32 h 0x3C,
     rel_import_count = 0, rel_relocation_count = 0, rel_relocation_offset = read_be32 h 0x24,
     rel_import_offset = read_be32 h 0x28, rel_import_size = read_be32 h 0x2C,
     rel_section_count = read_be32 h 0x0C, rel_sections = []\<rparr>"

definition rel_validate :: "RELFile \<Rightarrow> RELFile option" where
  "rel_validate rel =
    (if \<not> list_ex (\<lambda>s. rs_executable s \<and> rs_size s \<noteq> 0) (rel_sections rel) then None
     else if \<not> validate_entry rel (rel_prolog_section rel) (rel_prolog_offset rel) \<or>
             \<not> validate_entry rel (rel_epilog_section rel) (rel_epilog_offset rel) \<or>
             \<not> validate_entry rel (rel_unresolved_section rel) (rel_unresolved_offset rel) then None
     else if rel_prolog_section rel \<noteq> 0
     then map_option (\<lambda>entry. rel\<lparr>rel_entry_point := entry\<rparr>)
       (section_address_at rel (rel_prolog_section rel) (rel_prolog_offset rel))
     else Some rel)"

definition rel_load_image :: "(u32 \<Rightarrow> bool) \<Rightarrow> (nat \<times> bytes) option \<Rightarrow> u32 \<Rightarrow> RELFile option" where
  "rel_load_image alloc_ok file base_address =
    (if base_address AND 3 \<noteq> 0 then None
     else case read_file file of
       None \<Rightarrow> None
     | Some (file_size, h) \<Rightarrow>
        let rel = rel_header h file_size base_address; info = read_be32 h 0x10;
            section_alignment = (if file_size \<ge> 0x44 then read_be32 h 0x40 else 4);
            bss_alignment = (if file_size \<ge> 0x48 then read_be32 h 0x44 else 4)
        in if rel_section_count rel = 0 \<or> rel_section_count rel > REL_MAX_SECTION_COUNT \<or>
              \<not> range_fits info (rel_section_count rel * REL_SECTION_ENTRY_SIZE) file_size then None
           else if \<not> alloc_ok (rel_section_count rel * 40) then None
           else case add_u32_checked base_address file_size of
             None \<Rightarrow> None
           | Some bss_start \<Rightarrow>
              (case align_up_u32 bss_start (if bss_alignment \<noteq> 0 then bss_alignment else 4) of
                 None \<Rightarrow> None
               | Some bss_cursor \<Rightarrow>
                  (case load_sections alloc_ok h file_size base_address info section_alignment bss_alignment
                          bss_cursor 0 (unat (rel_section_count rel)) of
                     None \<Rightarrow> None
                   | Some ss \<Rightarrow> rel_validate (rel\<lparr>rel_sections := ss\<rparr>))))"

definition rel_load :: "(u32 \<Rightarrow> bool) \<Rightarrow> (nat \<times> bytes) option \<Rightarrow> u32 \<Rightarrow> RELFile option" where
  "rel_load alloc_ok file base_address =
    (case rel_load_image alloc_ok file base_address of
       None \<Rightarrow> None
     | Some rel \<Rightarrow>
         rel_apply_relocations rel (Some [\<lparr>map_module_id = rel_module_id rel, map_rel = rel\<rparr>]))"

end
