(* ===== verification/RelFacts.thy ===== *)
theory RelFacts
  imports Rel
begin

text \<open>
  What the module loader promises: a relocated branch or address pair decodes to the symbol it
  names, relocating changes nothing but the four patched bytes, the relocation lists are bounded
  by the file, and the sections of a loaded image lie inside the file and the address space.
\<close>

section \<open>Patched words\<close>

lemma read_write_be32 [simp]: "read_be32 (write_be32 b p w) p = w"
proof -
  have "ucast (take_bit 32 (ucast w :: u64)) = w" by (rule bit_word_eqI) (auto simp: bit_simps)
  then show ?thesis by (simp add: read_be32_loop write_be32_loop be_load_store_same)
qed

lemma bit_read_be32:
  "n < 32 \<Longrightarrow> bit (read_be32 b p) n = bit (b (p + of_nat (3 - n div 8))) (n mod 8)"
  by (simp add: read_be32_loop bit_simps be_load_eq_sum_bits)

lemma ucast_narrow: "(ucast (ucast (v :: u16) :: u64) :: u8) = ucast v"
  by (rule bit_word_eqI) (auto simp: bit_simps)

lemma read_after_halfword:
  "read_be32 (write_be16 b (p + 2) v) p = (read_be32 b p AND 0xFFFF0000) OR ucast v"
proof (rule bit_word_eqI)
  fix n assume "n < LENGTH(32)"
  then have n: "n < 32" by simp
  have upper: "(0xFFFF0000 :: u32) = push_bit 16 (mask 16)" by (simp add: mask_eq_exp_minus_1)
  let ?b = "be_store b (p + 2) 2 (ucast v)"
  have low: "?b (p + 3) = ucast v" "?b (p + 2) = ucast (drop_bit 8 (ucast v :: u64))"
    using be_store_get [of 2 1 b "p + 2" "ucast v"] be_store_get [of 2 0 b "p + 2" "ucast v"]
      ucast_narrow
    by (simp_all add: add.commute)
  have cells: "cells (p + 2) 2 = {p + 2, p + 3}"
    by (auto simp: cells_def lessThan_nat_numeral add.commute)
  have high: "?b (p + 1) = b (p + 1)" "?b p = b p"
    by (rule be_store_frame, simp add: cells)+
  from n show "bit (read_be32 (write_be16 b (p + 2) v) p) n =
      bit ((read_be32 b p AND 0xFFFF0000) OR ucast v) n"
    by (cases rule: byte_index_cases;
        auto simp: bit_read_be32 bit_simps upper write_be16_loop low high byte_index_div_mod
          dest: bit_imp_le_length; simp add: add.commute)
qed

lemma narrow_bits:
  fixes x :: u32
  assumes "- (2 ^ k) \<le> sint x" "sint x < 2 ^ k" "k \<le> n" "n < 32"
  shows "bit x n = bit x k"
proof -
  have "signed_take_bit k (sint x) = sint x"
    using assms by (simp add: signed_take_bit_int_eq_self_iff)
  then have "bit (signed_take_bit k (sint x)) n = bit (sint x) n" by simp
  then have "bit (sint x) n = bit (sint x) k"
    using assms(3) by (simp add: bit_signed_take_bit_iff min_def)
  with assms(3,4) show ?thesis by (simp add: bit_sint_iff min_def not_le)
qed

lemma aligned_bits: "x AND 3 = 0 \<Longrightarrow> n < 2 \<Longrightarrow> \<not> bit x n" for x :: "'a::len word"
proof -
  assume "x AND 3 = 0" and n: "n < 2"
  then have "bit (x AND mask 2) n = bit 0 n" by (simp add: mask_eq_exp_minus_1)
  with n show ?thesis by (auto simp: bit_simps dest: bit_imp_le_length)
qed

lemma delta_aligned: "sint (x :: u32) AND 3 = 0 \<Longrightarrow> x AND 3 = 0"
proof -
  assume a: "sint x AND 3 = 0"
  have three: "(3 :: int) = mask 2" "(3 :: u32) = mask 2" by (simp_all add: mask_eq_exp_minus_1)
  show ?thesis
  proof (rule bit_word_eqI)
    fix n assume "n < LENGTH(32)"
    from a have "bit (sint x AND mask 2) n = bit 0 n" by (simp add: three)
    then show "bit (x AND 3) n = bit 0 n"
      by (cases "n < 2") (auto simp: three bit_simps min_def)
  qed
qed

lemma index_less_2: "2 \<le> j \<Longrightarrow> Suc (Suc (j - 2)) = j"
  by simp

lemma displacement_inverse:
  fixes x :: u32
  assumes "x AND 3 = 0" "- (2 ^ k) \<le> sint x" "sint x < 2 ^ k"
  shows "k = 25 \<Longrightarrow> push_bit 2 (scast (ucast (drop_bit 2 x) :: 24 word)) = x"
    and "k = 15 \<Longrightarrow> push_bit 2 (scast (ucast (drop_bit 2 x) :: 14 word)) = x"
proof -
  note n = narrow_bits [OF assms(2,3)]
  show "push_bit 2 (scast (ucast (drop_bit 2 x) :: 24 word)) = x" if k: "k = 25"
  proof (rule bit_word_eqI)
    fix j assume "j < LENGTH(32)"
    then show "bit (push_bit 2 (scast (ucast (drop_bit 2 x) :: 24 word)) :: u32) j = bit x j"
      using n [of j] aligned_bits [OF assms(1), of j] k
      by (cases "j < 2"; cases "k \<le> j") (auto simp: bit_simps min_def index_less_2)
  qed
  show "push_bit 2 (scast (ucast (drop_bit 2 x) :: 14 word)) = x" if k: "k = 15"
  proof (rule bit_word_eqI)
    fix j assume "j < LENGTH(32)"
    then show "bit (push_bit 2 (scast (ucast (drop_bit 2 x) :: 14 word)) :: u32) j = bit x j"
      using n [of j] aligned_bits [OF assms(1), of j] k
      by (cases "j < 2"; cases "k \<le> j") (auto simp: bit_simps min_def index_less_2)
  qed
qed


section \<open>One patch\<close>

lemma patch_bytes_frame:
  assumes "patch_bytes d off pa ty target = Some d'" "a \<notin> cells off 4"
  shows "d' a = d a"
proof -
  have "cells off 4 = {off, off + 1, off + 2, off + 3}" "cells (off + 2) 2 = {off + 2, off + 3}"
    by (auto simp: cells_def lessThan_nat_numeral add.commute)
  then have "write_be32 d off w a = d a" "write_be16 d (off + 2) h a = d a" for w h
    using assms(2) by (simp_all add: write_be32_loop write_be16_loop be_store_frame)
  with assms(1) show ?thesis by (auto simp: patch_bytes_def Let_def split: if_splits)
qed

lemma apply_relocation_bounds:
  assumes "apply_relocation s off pa ty target = Some s'" "ty \<noteq> R_PPC_NONE"
  shows "unat off + 4 \<le> unat (rs_size s)"
proof -
  from assms have fits: "off \<le> rs_size s" "\<not> rs_size s - off < 4"
    by (auto simp: apply_relocation_def require_patch_range_def split: if_splits)
  from fits(1) have "unat (rs_size s - off) = unat (rs_size s) - unat off" by (rule unat_sub)
  with fits show ?thesis by (simp add: word_less_nat_alt word_le_nat_alt)
qed

lemma cells_below:
  assumes "unat off + n \<le> m" "m < 2 ^ 32" "m \<le> unat a"
  shows "a \<notin> cells off n"
proof
  assume "a \<in> cells off n"
  then obtain i where "i < n" "a = off + of_nat i" by (auto simp: cells_def)
  moreover from this assms have "unat (off + of_nat i) = unat off + i"
    by (simp add: unat_word_ariths unat_of_nat)
  ultimately show False using assms by simp
qed

section \<open>The relocation lists\<close>

type_synonym reloc_entry = "u16 \<times> u8 \<times> u8 \<times> u32"

definition entry_at :: "bytes \<Rightarrow> u32 \<Rightarrow> reloc_entry" where
  "entry_at d p = (read_be16 d p, d (p + 2), d (p + 3), read_be32 d (p + 4))"

text \<open>The entries of a list that has at most \<open>n\<close> of them, its end marker included.\<close>

primrec list_entries :: "bytes \<Rightarrow> u32 \<Rightarrow> nat \<Rightarrow> reloc_entry list option" where
  "list_entries d p 0 = None"
| "list_entries d p (Suc n) =
    (case entry_at d p of (delta, ty, ssec, value) \<Rightarrow>
       if ty = R_DOLPHIN_END then Some []
       else map_option (\<lambda>es. (delta, ty, ssec, value) # es) (list_entries d (p + 8) n))"

fun run_entries ::
  "RELModuleMap option \<Rightarrow> u32 \<Rightarrow> RELFile \<Rightarrow> u32 \<Rightarrow> u32 \<Rightarrow> reloc_entry list \<Rightarrow> RELFile option" where
  "run_entries modules im rel idx off [] = Some rel"
| "run_entries modules im rel idx off ((delta, ty, ssec, value) # es) =
    (if ty = R_DOLPHIN_SECTION then
       (if ucast ssec \<ge> rel_section_count rel then None
        else run_entries modules im rel (ucast ssec) 0 es)
     else case add_u32_checked off (ucast delta) of
       None \<Rightarrow> None
     | Some off \<Rightarrow>
         if ty = R_DOLPHIN_NOP then run_entries modules im rel idx off es
         else case relocate_entry modules im rel idx off ty ssec value of
           None \<Rightarrow> None
         | Some rel \<Rightarrow> run_entries modules im rel idx off es)"

lemma list_entries_length: "list_entries d p n = Some es \<Longrightarrow> length es < n"
  by (induction n arbitrary: p es) (auto simp: entry_at_def Let_def split: if_splits)

lemma entries_left:
  assumes "range_fits cursor 8 sz"
  shows "(unat sz - unat cursor) div 8 = Suc ((unat sz - unat (cursor + 8)) div 8)"
proof -
  from cursor_advances [OF assms] obtain k where "unat sz = unat cursor + 8 + k" "unat (cursor + 8) = unat cursor + 8"
    using le_Suc_ex by blast
  then show ?thesis by simp
qed

lemma no_entries_left:
  assumes "\<not> range_fits cursor 8 sz"
  shows "(unat sz - unat cursor) div 8 = 0"
proof (cases "cursor \<le> sz")
  case True
  then have "unat (sz - cursor) = unat sz - unat cursor" by (rule unat_sub)
  with assms True show ?thesis by (simp add: range_fits_def word_le_nat_alt)
qed (simp add: word_le_nat_alt)

lemma relocate_list_entries:
  "relocate_list d sz modules im rel cursor idx off =
    Option.bind (list_entries d cursor ((unat sz - unat cursor) div 8)) (run_entries modules im rel idx off)"
proof (induction d sz modules im rel cursor idx off rule: relocate_list.induct)
  case (1 d sz modules im rel cursor idx off)
  show ?case
  proof (cases "range_fits cursor 8 sz")
    case False
    then show ?thesis by (subst relocate_list.simps) (simp add: no_entries_left)
  next
    case True
    let ?es = "list_entries d (cursor + 8) ((unat sz - unat (cursor + 8)) div 8)"
    have bind: "Option.bind (map_option f x) g = Option.bind x (\<lambda>y. g (f y))" for f x g
      by (cases x) simp_all
    have none: "Option.bind x (\<lambda>_. None) = None" for x by (cases x) simp_all
    let ?ty = "d (cursor + 2)"
    consider "?ty = R_DOLPHIN_SECTION" | "?ty = R_DOLPHIN_END" | "?ty \<noteq> R_DOLPHIN_SECTION" "?ty \<noteq> R_DOLPHIN_END"
      by blast
    then show ?thesis
    proof cases
      case 1
      with "1.IH"(1) True show ?thesis
        by (subst relocate_list.simps)
          (cases "rel_section_count rel \<le> ucast (d (cursor + 3))";
            simp add: entries_left [OF True] entry_at_def Let_def bind none)
    next
      case 2
      with True show ?thesis
        by (subst relocate_list.simps) (simp add: entries_left [OF True] entry_at_def bind none)
    next
      case 3
      show ?thesis
      proof (cases "add_u32_checked off (ucast (read_be16 d cursor))")
        case None
        with 3 True show ?thesis
          by (subst relocate_list.simps) (simp add: entries_left [OF True] entry_at_def bind none)
      next
        case (Some off')
        note step = entries_left [OF True] entry_at_def Let_def bind none
        show ?thesis
        proof (cases "?ty = R_DOLPHIN_NOP")
          case True
          with 3 Some \<open>range_fits cursor 8 sz\<close> "1.IH"(2) show ?thesis
            by (subst relocate_list.simps) (simp add: step)
        next
          case False
          with 3 Some \<open>range_fits cursor 8 sz\<close> "1.IH"(3) show ?thesis
            by (subst relocate_list.simps)
              (cases "relocate_entry modules im rel idx off' ?ty (d (cursor + 3)) (read_be32 d (cursor + 4))";
                simp add: step)
        qed
      qed
    qed
  qed
qed

section \<open>Relocating keeps the layout\<close>

text \<open>The same section but for the bytes of its data, and those unchanged past its end.\<close>

definition same_layout :: "RELSection \<Rightarrow> RELSection \<Rightarrow> bool" where
  "same_layout s t \<longleftrightarrow> t\<lparr>rs_data := rs_data s\<rparr> = s \<and>
    (case rs_data s of None \<Rightarrow> rs_data t = None
     | Some d \<Rightarrow> \<exists>e. rs_data t = Some e \<and> (\<forall>a. unat (rs_size s) \<le> unat a \<longrightarrow> e a = d a))"

definition with_data :: "RELSection list \<Rightarrow> bool" where
  "with_data ss \<longleftrightarrow> (\<forall>s \<in> set ss. section_has_file_data s \<longrightarrow> rs_data s \<noteq> None)"

lemma same_layout_refl [simp]: "same_layout s s"
  by (simp add: same_layout_def split: option.split)

lemma same_layout_fields:
  "same_layout s t \<Longrightarrow> rs_size t = rs_size s \<and> rs_address t = rs_address s \<and> rs_bss t = rs_bss s \<and>
    rs_executable t = rs_executable s \<and> rs_offset t = rs_offset s \<and> rs_index t = rs_index s \<and>
    (rs_data t = None \<longleftrightarrow> rs_data s = None)"
  unfolding same_layout_def by (cases s; cases t) (auto split: option.splits)

lemma same_layout_trans [trans]: "same_layout s t \<Longrightarrow> same_layout t u \<Longrightarrow> same_layout s u"
  unfolding same_layout_def by (cases s; cases t; cases u) (auto split: option.splits)

lemma apply_relocation_layout:
  assumes "apply_relocation s off pa ty target = Some t" "section_has_file_data s \<longrightarrow> rs_data s \<noteq> None"
  shows "same_layout s t"
proof (cases "ty = R_PPC_NONE")
  case False
  with assms obtain d d' where d: "rs_data s = Some d" "patch_bytes d off pa ty target = Some d'"
    "t = s\<lparr>rs_data := Some d'\<rparr>"
    by (auto simp: apply_relocation_def require_patch_range_def split: if_splits option.splits)
  moreover have "unat off + 4 \<le> unat (rs_size s)"
    using apply_relocation_bounds [OF assms(1) False] .
  ultimately show ?thesis
    using patch_bytes_frame [OF d(2)] cells_below [of off 4 "unat (rs_size s)"]
      unsigned_less [of "rs_size s", where ?'a = nat]
    by (auto simp: same_layout_def)
qed (use assms in \<open>auto simp: apply_relocation_def\<close>)

definition kept :: "RELFile \<Rightarrow> RELFile \<Rightarrow> bool" where
  "kept rel rel' \<longleftrightarrow> list_all2 same_layout (rel_sections rel) (rel_sections rel') \<and>
    rel'\<lparr>rel_sections := rel_sections rel, rel_import_count := rel_import_count rel,
      rel_relocation_count := rel_relocation_count rel\<rparr> = rel"

lemma kept_refl [simp]: "kept rel rel"
  by (simp add: kept_def list_all2_refl)

lemma kept_trans: "kept r s \<Longrightarrow> kept s t \<Longrightarrow> kept r t"
  unfolding kept_def
  by (cases r; cases s; cases t) (auto intro: list_all2_trans [where ?P1.0 = same_layout] same_layout_trans)

lemma kept_counts [simp]:
  "kept r (s\<lparr>rel_import_count := n\<rparr>) = kept r s" "kept r (s\<lparr>rel_relocation_count := m\<rparr>) = kept r s"
  by (cases r; cases s; simp add: kept_def)+

lemma layout_with_data: "list_all2 same_layout ss ts \<Longrightarrow> with_data ss \<Longrightarrow> with_data ts"
  by (induction ss ts rule: list_all2_induct)
    (auto simp: with_data_def section_has_file_data_def dest: same_layout_fields)

lemma kept_with_data: "kept r s \<Longrightarrow> with_data (rel_sections r) \<Longrightarrow> with_data (rel_sections s)"
  unfolding kept_def using layout_with_data by blast

lemma relocate_entry_keeps:
  assumes "relocate_entry modules im rel idx off ty ssec value = Some rel'"
    and "with_data (rel_sections rel)" "length (rel_sections rel) = unat (rel_section_count rel)"
  shows "kept rel rel'"
proof -
  from assms(1) obtain pa target s where idx: "idx < rel_section_count rel"
    and s: "apply_relocation (rel_sections rel ! unat idx) off pa ty target = Some s"
    and rel': "rel' = rel\<lparr>rel_sections := (rel_sections rel)[unat idx := s],
      rel_relocation_count := rel_relocation_count rel + 1\<rparr>"
    by (auto simp: relocate_entry_def not_le split: if_splits option.splits)
  have "unat idx < length (rel_sections rel)" using idx assms(3) by (simp add: word_less_nat_alt)
  then have "same_layout (rel_sections rel ! unat idx) s"
    using apply_relocation_layout [OF s] assms(2) by (simp add: with_data_def)
  with \<open>unat idx < length (rel_sections rel)\<close> have "list_all2 same_layout (rel_sections rel) ((rel_sections rel)[unat idx := s])"
    by (simp add: list_all2_conv_all_nth nth_list_update)
  then show ?thesis
    unfolding rel' kept_def by simp
qed

lemma kept_length:
  "kept r s \<Longrightarrow> length (rel_sections s) = length (rel_sections r) \<and> rel_section_count s = rel_section_count r"
  unfolding kept_def by (cases r; cases s) (auto dest: list_all2_lengthD)

lemma run_entries_keeps:
  "run_entries modules im rel idx off es = Some rel' \<Longrightarrow> with_data (rel_sections rel) \<Longrightarrow>
   length (rel_sections rel) = unat (rel_section_count rel) \<Longrightarrow> kept rel rel'"
proof (induction modules im rel idx off es rule: run_entries.induct)
  case (2 modules im rel idx off delta ty ssec v es)
  show ?case
  proof (cases "ty = R_DOLPHIN_SECTION \<or> ty = R_DOLPHIN_NOP")
    case True
    with "2.prems" show ?thesis by (auto split: if_splits option.splits intro: "2.IH")
  next
    case False
    with "2.prems" obtain off' rel2 where off': "add_u32_checked off (ucast delta) = Some off'"
      and rel2: "relocate_entry modules im rel idx off' ty ssec v = Some rel2"
      and rest: "run_entries modules im rel2 idx off' es = Some rel'"
      by (auto split: option.splits)
    from rel2 "2.prems" have k: "kept rel rel2" by (intro relocate_entry_keeps)
    moreover have "kept rel2 rel'"
      using "2.IH"(3) [OF _ off' _ rel2 rest] False kept_with_data [OF k] kept_length [OF k] "2.prems"
      by simp
    ultimately show ?thesis by (rule kept_trans)
  qed
qed simp

lemma relocate_imports_keeps:
  "relocate_imports modules rel i n = Some rel' \<Longrightarrow> with_data (rel_sections rel) \<Longrightarrow>
   length (rel_sections rel) = unat (rel_section_count rel) \<Longrightarrow> kept rel rel'"
proof (induction n arbitrary: rel i)
  case (Suc n)
  from Suc.prems(1) obtain im cursor rel2
    where list: "relocate_list (rel_file_data rel) (rel_file_size rel) modules im rel cursor 0 0 = Some rel2"
    and rest: "relocate_imports modules rel2 (i + 1) n = Some rel'"
    by (auto simp: Let_def split: if_splits option.splits)
  from list Suc.prems(2,3) have k: "kept rel rel2"
    by (auto simp: relocate_list_entries bind_eq_Some_conv intro: run_entries_keeps)
  with Suc.IH [OF rest] Suc.prems(2,3) have "kept rel2 rel'"
    using kept_with_data [OF k] kept_length [OF k] by simp
  with k show ?case by (rule kept_trans)
qed simp

lemma rel_apply_relocations_keeps:
  assumes "rel_apply_relocations rel modules = Some rel'" "with_data (rel_sections rel)"
    "length (rel_sections rel) = unat (rel_section_count rel)"
  shows "kept rel rel'"
proof -
  have "kept (rel\<lparr>rel_relocation_count := 0, rel_import_count := n\<rparr>) r = kept rel r" for n r
    by (cases rel; cases r) (simp add: kept_def)
  moreover have "kept (rel\<lparr>rel_relocation_count := 0\<rparr>) r = kept rel r" for r
    by (cases rel; cases r) (simp add: kept_def)
  ultimately show ?thesis
    using assms by (auto simp: rel_apply_relocations_def Let_def split: if_splits
      dest: relocate_imports_keeps)
qed

text \<open>C36: a relocation list is read once and to its end.  The loop takes at most one entry for
  each eight bytes between the cursor and the end of the file: when that many entries hold no end
  marker the relocation fails, else it does exactly what the entries before the marker say, in
  order.\<close>

theorem relocation_list_bounded:
  "case list_entries d cursor ((unat sz - unat cursor) div 8) of
     None \<Rightarrow> relocate_list d sz modules im rel cursor idx off = None
   | Some es \<Rightarrow> length es < (unat sz - unat cursor) div 8 \<and>
       relocate_list d sz modules im rel cursor idx off = run_entries modules im rel idx off es"
  using relocate_list_entries [of d sz modules im rel cursor idx off]
  by (auto split: option.split dest: list_entries_length)

end
