(* ===== verification/RelDecode.thy ===== *)
theory RelDecode
  imports RelFacts DecoderFacts
begin

text \<open>
  Relocated instructions, read back by the decoder: a relocated branch reaches its symbol, and the
  two halves a \<open>lis\<close>/\<open>addi\<close> pair receives add up to it.
\<close>

section \<open>Relocated words\<close>

lemma patched_branch:
  "(encode_i p li aa lk AND 0xFC000003) OR (x AND 0x03FFFFFC) = encode_i p (ucast (drop_bit 2 x)) aa lk"
  "(encode_bc p bo bi bd aa lk AND 0xFFFF0003) OR (x AND 0xFFFC) =
     encode_bc p bo bi (ucast (drop_bit 2 x)) aa lk"
proof -
  have keep: "(0xFC000003 :: u32) = NOT (push_bit 2 (mask 24))" "(0xFFFF0003 :: u32) = NOT (push_bit 2 (mask 14))"
    by (simp_all add: mask_eq_exp_minus_1 not_eq_complement)
  show "(encode_i p li aa lk AND 0xFC000003) OR (x AND 0x03FFFFFC) = encode_i p (ucast (drop_bit 2 x)) aa lk"
    unfolding encode_i_def keep disp_masks
    by (rule bit_word_eqI; simp add: bit_simps bit_beyond index_less_2 del: push_bit_Suc cong: conj_cong;
      auto simp: index_less_2 simp del: push_bit_Suc dest: bit_imp_le_length)
  show "(encode_bc p bo bi bd aa lk AND 0xFFFF0003) OR (x AND 0xFFFC) =
     encode_bc p bo bi (ucast (drop_bit 2 x)) aa lk"
    unfolding encode_bc_def keep disp_masks
    by (rule bit_word_eqI; simp add: bit_simps bit_beyond index_less_2 del: push_bit_Suc cong: conj_cong;
      auto simp: index_less_2 simp del: push_bit_Suc dest: bit_imp_le_length)
qed


lemma patched_halfword:
  "(encode_d p rt ra imm AND 0xFFFF0000) OR ucast v = encode_d p rt ra v"
proof -
  have keep: "(0xFFFF0000 :: u32) = NOT (mask 16)" by (simp add: mask_eq_exp_minus_1 not_eq_complement)
  show ?thesis
    unfolding encode_d_def keep
    by (rule bit_word_eqI; simp add: bit_simps bit_beyond del: push_bit_Suc cong: conj_cong;
      auto simp del: push_bit_Suc dest: bit_imp_le_length)
qed

lemma relative_word:
  assumes "check_rel_delta (sint (x :: u32)) (- (2 ^ k)) (2 ^ k - 4)"
  shows "k = 25 \<Longrightarrow> push_bit 2 (scast (ucast (drop_bit 2 x) :: 24 word)) = x"
    and "k = 15 \<Longrightarrow> push_bit 2 (scast (ucast (drop_bit 2 x) :: 14 word)) = x"
  using assms displacement_inverse [where x = x and k = k] delta_aligned [of x]
  by (auto simp: check_rel_delta_def)

lemma relocated_branch:
  assumes "patch_bytes d off pa R_PPC_REL24 target = Some d'" "read_be32 d off = encode_i 18 li 0 lk"
  shows "ppc_decode (read_be32 d' off) pa = (blank_inst (read_be32 d' off) pa)
    \<lparr>op_f := PPC_OP_B, aa_f := False, lk_f := bit lk 0, branch_target := target\<rparr>"
proof -
  let ?x = "target - pa"
  from assms have ok: "check_rel_delta (sint ?x) (- (2 ^ 25)) (2 ^ 25 - 4)"
    and d': "d' = write_be32 d off (encode_i 18 (ucast (drop_bit 2 ?x)) 0 lk)"
    by (auto simp: patch_bytes_def Let_def patched_branch split: if_splits)
  show ?thesis
    unfolding d' read_write_be32 decode_i relative_word(1) [OF ok refl] by simp
qed

lemma relocated_conditional:
  assumes "patch_bytes d off pa R_PPC_REL14 target = Some d'" "read_be32 d off = encode_bc 16 bo bi bd 0 lk"
  shows "ppc_decode (read_be32 d' off) pa = (blank_inst (read_be32 d' off) pa)
    \<lparr>op_f := PPC_OP_BC, bo_f := ucast bo, bi_f := ucast bi, aa_f := False, lk_f := bit lk 0,
      branch_target := target\<rparr>"
proof -
  let ?x = "target - pa"
  from assms have ok: "check_rel_delta (sint ?x) (- (2 ^ 15)) (2 ^ 15 - 4)"
    and d': "d' = write_be32 d off (encode_bc 16 bo bi (ucast (drop_bit 2 ?x)) 0 lk)"
    by (auto simp: patch_bytes_def Let_def patched_branch split: if_splits)
  show ?thesis
    unfolding d' read_write_be32 decode_bc relative_word(2) [OF ok refl] by simp
qed

lemma relocated_halves:
  assumes "read_be32 d off = encode_d p rt ra imm"
  shows "patch_bytes d off pa R_PPC_ADDR16_HA target = Some d' \<Longrightarrow>
      read_be32 d' off = encode_d p rt ra (ucast (drop_bit 16 (target + 0x8000)))"
    and "patch_bytes d off pa R_PPC_ADDR16_LO target = Some d' \<Longrightarrow>
      read_be32 d' off = encode_d p rt ra (ucast target)"
  using assms by (auto simp: patch_bytes_def Let_def read_after_halfword patched_halfword)

lemma signed_halfword: "scast (ucast t :: u16) = take_bit 16 (t + 0x8000) - 0x8000" for t :: u32
proof -
  have "(scast (ucast t :: u16) :: u32) = signed_take_bit 15 (of_int (uint t))"
    by (rule bit_word_eqI) (auto simp: bit_simps min_def)
  also have "\<dots> = of_int (take_bit 16 (uint t + 0x8000) - 0x8000)"
    unfolding signed_take_bit_of_int by (simp add: signed_take_bit_eq_take_bit_shift)
  also have "\<dots> = take_bit 16 (t + 0x8000) - 0x8000"
    by (simp only: of_int_diff of_int_take_bit of_int_add of_int_numeral word_of_int_uint)
  finally show ?thesis .
qed

lemma halves_add_up:
  "push_bit 16 (scast (ucast (drop_bit 16 (t + 0x8000)) :: u16)) + scast (ucast t :: u16) = (t :: u32)"
proof -
  have high: "push_bit 16 (scast (ucast (drop_bit 16 v) :: u16)) = v AND NOT (mask 16)" for v :: u32
  proof (rule bit_word_eqI)
    fix n assume "n < LENGTH(32)"
    then show "bit (push_bit 16 (scast (ucast (drop_bit 16 v) :: u16)) :: u32) n = bit (v AND NOT (mask 16)) n"
      by (cases "n = 31") (auto simp: bit_simps min_def)
  qed
  have "(v AND NOT (mask 16)) + (v AND mask 16) = (v AND NOT (mask 16)) OR (v AND mask 16)" for v :: u32
    by (rule disjunctive_add) (auto simp: bit_simps)
  moreover have "(v AND NOT (mask 16)) OR (v AND mask 16) = v" for v :: u32
    by (rule bit_word_eqI) (auto simp: bit_simps)
  ultimately have "v AND NOT (mask 16) = v - take_bit 16 v" for v :: u32
    by (metis add_diff_cancel_right' take_bit_eq_mask)
  then show ?thesis unfolding high unfolding signed_halfword by simp
qed

section \<open>What a relocation does\<close>

lemma apply_relocation_data:
  assumes "apply_relocation s off pa ty target = Some s'" "rs_data s = Some d" "ty \<noteq> R_PPC_NONE"
  obtains d' where "patch_bytes d off pa ty target = Some d'" "s' = s\<lparr>rs_data := Some d'\<rparr>"
    "unat off + 4 \<le> unat (rs_size s)"
proof -
  from assms(2) have data: "the (rs_data s) = d" by simp
  from assms that show ?thesis
    using apply_relocation_bounds [OF assms(1,3)]
    unfolding apply_relocation_def data by (auto split: if_splits option.splits)
qed

text \<open>C14: a relocation that is applied stays inside its section, changes no byte but the four of
  the instruction it patches, and makes a branch reach its symbol: after \<open>R_PPC_REL24\<close> or
  \<open>R_PPC_REL14\<close> the recompiler's own decoder finds the same instruction with the branch target
  the relocation names.\<close>

theorem relocation_patches_instruction:
  assumes "apply_relocation s off pa ty target = Some s'" and "rs_data s = Some d"
  shows "\<exists>d'. s' = s\<lparr>rs_data := Some d'\<rparr> \<and> (\<forall>a. a \<notin> cells off 4 \<longrightarrow> d' a = d a) \<and>
    (ty \<noteq> R_PPC_NONE \<longrightarrow> unat off + 4 \<le> unat (rs_size s)) \<and>
    (ty = R_PPC_ADDR32 \<longrightarrow> read_be32 d' off = target) \<and>
    (ty = R_PPC_REL24 \<and> read_be32 d off = encode_i 18 li 0 lk \<longrightarrow>
      ppc_decode (read_be32 d' off) pa = (blank_inst (read_be32 d' off) pa)
        \<lparr>op_f := PPC_OP_B, aa_f := False, lk_f := bit lk 0, branch_target := target\<rparr>) \<and>
    (ty = R_PPC_REL14 \<and> read_be32 d off = encode_bc 16 bo bi bd 0 lk \<longrightarrow>
      ppc_decode (read_be32 d' off) pa = (blank_inst (read_be32 d' off) pa)
        \<lparr>op_f := PPC_OP_BC, bo_f := ucast bo, bi_f := ucast bi, aa_f := False, lk_f := bit lk 0,
          branch_target := target\<rparr>)"
proof (cases "ty = R_PPC_NONE")
  case True
  with assms show ?thesis by (intro exI [of _ d]) (simp add: apply_relocation_def)
next
  case False
  then obtain d' where d': "patch_bytes d off pa ty target = Some d'" "s' = s\<lparr>rs_data := Some d'\<rparr>"
    "unat off + 4 \<le> unat (rs_size s)"
    using apply_relocation_data [OF assms] by blast
  have "ty = R_PPC_ADDR32 \<Longrightarrow> read_be32 d' off = target"
    using d'(1) by (auto simp: patch_bytes_def)
  with d' show ?thesis
    using patch_bytes_frame [OF d'(1)] relocated_branch [of d off pa target d' li lk]
      relocated_conditional [of d off pa target d' bo bi bd lk]
    by (intro exI [of _ d']) blast
qed

definition code_at :: "u32 \<Rightarrow> RELSection" where
  "code_at w = \<lparr>rs_index = 1, rs_offset = 0x100, rs_address = 0x80500100, rs_size = 8, rs_executable = True,
     rs_bss = False, rs_data = Some (write_be32 (\<lambda>_. 0) 4 w)\<rparr>"

lemma relocation_patches_instruction_witness:
  "\<exists>d'. map_option rs_data (apply_relocation (code_at 0x48000001) 4 0x80500104 R_PPC_REL24 0x80500000)
      = Some (Some d') \<and> branch_target (ppc_decode (read_be32 d' 4) 0x80500104) = 0x80500000"
proof -
  let ?r = "apply_relocation (code_at 0x48000001) 4 0x80500104 R_PPC_REL24 0x80500000"
  have some: "\<not> Option.is_none ?r" by code_simp
  have bl: "encode_i 18 0 0 1 = 0x48000001" by code_simp
  from some obtain s' where s': "?r = Some s'" by (cases ?r) auto
  from relocation_patches_instruction [OF s', of "write_be32 (\<lambda>_. 0) 4 0x48000001" 0 1 0 0 0] s'
  show ?thesis by (auto simp: code_at_def bl)
qed

text \<open>An \<open>R_PPC_ADDR16_HA\<close>/\<open>R_PPC_ADDR16_LO\<close> pair applied to a \<open>lis\<close> and to a D-form
  instruction that adds its displacement to it gives an address pair whose sign-extended halves, as
  decoded, add up to the symbol's address: the carry of a negative low half is accounted for.\<close>

theorem relocated_address_pair:
  assumes "apply_relocation s off pa R_PPC_ADDR16_HA target = Some s'" and "rs_data s = Some d"
    and "read_be32 d off = encode_d 15 rt ra imm"
    and "apply_relocation t off2 pa2 R_PPC_ADDR16_LO target = Some t'" and "rs_data t = Some e"
    and "read_be32 e off2 = encode_d p rt2 ra2 imm2"
    and "(p, opc) \<in> set d_form_loads \<union> set d_form_stores"
  shows "\<exists>d' e'. rs_data s' = Some d' \<and> rs_data t' = Some e' \<and>
    (let hi = ppc_decode (read_be32 d' off) pa; lo = ppc_decode (read_be32 e' off2) pa2
     in op_f hi = PPC_OP_ADDIS \<and> op_f lo = opc \<and>
        push_bit 16 (scast (simm_f hi)) + scast (simm_f lo) = target)"
proof -
  obtain d' where d': "patch_bytes d off pa R_PPC_ADDR16_HA target = Some d'" "s' = s\<lparr>rs_data := Some d'\<rparr>"
    using apply_relocation_data [OF assms(1,2)] by auto
  obtain e' where e': "patch_bytes e off2 pa2 R_PPC_ADDR16_LO target = Some e'" "t' = t\<lparr>rs_data := Some e'\<rparr>"
    using apply_relocation_data [OF assms(4,5)] by auto
  note words = relocated_halves(1) [OF assms(3) d'(1)] relocated_halves(2) [OF assms(6) e'(1)]
  have "op_f (ppc_decode (encode_d 15 rt ra h) pa) = PPC_OP_ADDIS \<and>
      simm_f (ppc_decode (encode_d 15 rt ra h) pa) = h" for h
    using decode_d_loads [of rt ra h pa] by (simp add: d_form_loads_def)
  moreover have "op_f (ppc_decode (encode_d p rt2 ra2 h) pa2) = opc \<and>
      simm_f (ppc_decode (encode_d p rt2 ra2 h) pa2) = h" for h
    using decode_d_loads [of rt2 ra2 h pa2] decode_d_stores [of rt2 ra2 h pa2] assms(7) by auto
  ultimately show ?thesis
    using d'(2) e'(2) by (simp add: words halves_add_up)
qed

lemma relocated_address_pair_witness:
  "\<exists>d' e'. map_option rs_data (apply_relocation (code_at 0x3C600000) 4 0x80500104 R_PPC_ADDR16_HA 0x8051FFF0)
      = Some (Some d') \<and>
    map_option rs_data (apply_relocation (code_at 0x38630000) 4 0x80500108 R_PPC_ADDR16_LO 0x8051FFF0)
      = Some (Some e') \<and>
    push_bit 16 (scast (simm_f (ppc_decode (read_be32 d' 4) 0x80500104))) +
      scast (simm_f (ppc_decode (read_be32 e' 4) 0x80500108)) = (0x8051FFF0 :: u32)"
proof -
  let ?hi = "apply_relocation (code_at 0x3C600000) 4 0x80500104 R_PPC_ADDR16_HA 0x8051FFF0"
  let ?lo = "apply_relocation (code_at 0x38630000) 4 0x80500108 R_PPC_ADDR16_LO 0x8051FFF0"
  have "\<not> Option.is_none ?hi" "\<not> Option.is_none ?lo" by code_simp+
  then obtain s' t' where r: "?hi = Some s'" "?lo = Some t'" by (cases ?hi; cases ?lo) auto
  have "encode_d 15 3 0 0 = 0x3C600000" "encode_d 14 3 3 0 = 0x38630000" by code_simp+
  then show ?thesis
    using relocated_address_pair [OF r(1) _ _ r(2), of "write_be32 (\<lambda>_. 0) 4 0x3C600000" 3 0 0
        "write_be32 (\<lambda>_. 0) 4 0x38630000" 14 3 3 0 PPC_OP_ADDI] r
    by (auto simp: code_at_def d_form_loads_def Let_def)
qed

end
