(* ===== verification/RelImage.thy ===== *)
theory RelImage
  imports RelFacts
begin

text \<open>
  The layout of a loaded module: where its sections lie in the file and in the address space, the
  bytes they hold, and its entry point.
\<close>

section \<open>Checked arithmetic\<close>

lemma range_fits_nat: "range_fits off sz limit \<longleftrightarrow> unat off + unat sz \<le> unat limit"
  by (simp add: range_fits_def fits_nat)

lemma add_u32_checked_nat:
  "add_u32_checked a b = Some c \<longleftrightarrow> unat a + unat b < 2 ^ 32 \<and> c = a + b"
proof -
  have "a \<le> 0xFFFFFFFF" using unsigned_less [of a, where ?'a = nat] by (simp add: word_le_nat_alt)
  then have "unat (0xFFFFFFFF - a) = 0xFFFFFFFF - unat a" by (simp add: unat_sub)
  then have "b > 0xFFFFFFFF - a \<longleftrightarrow> 2 ^ 32 \<le> unat a + unat b"
    using unsigned_less [of a, where ?'a = nat] by (auto simp: word_less_nat_alt)
  then show ?thesis by (auto simp: add_u32_checked_def)
qed

lemma add_u32_checked_unat: "add_u32_checked a b = Some c \<Longrightarrow> unat c = unat a + unat b"
  by (auto simp: add_u32_checked_nat unat_word_ariths)

lemma align_up_u32_spec:
  assumes "align_up_u32 v n = Some w"
  shows "unat v \<le> unat w \<and> (n > 1 \<longrightarrow> unat n dvd unat w)"
proof (cases "n \<le> 1")
  case False
  let ?s = "ucast v + ucast n - 1 :: u64" and ?n = "ucast n :: u64"
  from False have n: "1 < unat n" by (simp add: word_less_nat_alt not_le)
  have small: "unat v < 2 ^ 32" "unat n < 2 ^ 32"
    using unsigned_less [of v, where ?'a = nat] unsigned_less [of n, where ?'a = nat] by simp_all
  have wide: "unat (ucast x :: u64) = unat x" for x :: u32
    using unsigned_less [of x, where ?'a = nat] by (simp add: unsigned_ucast_eq take_bit_nat_eq_self)
  have "unat (ucast v + ucast n :: u64) = unat v + unat n"
    using small by (simp add: unat_word_ariths wide)
  moreover from this n have "(1 :: u64) \<le> ucast v + ucast n" by (simp add: word_le_nat_alt)
  ultimately have s: "unat ?s = unat v + unat n - 1" by (simp add: unat_sub)
  have div: "unat (?s div ?n) = (unat v + unat n - 1) div unat n"
    using s small by (simp add: unat_div wide)
  have "(unat v + unat n - 1) div unat n * unat n \<le> unat v + unat n - 1"
    by (rule div_times_less_eq_dividend)
  then have "(unat v + unat n - 1) div unat n * unat n < 2 ^ 64"
    by (rule le_less_trans) (use small in simp)
  then have mul: "unat (?s div ?n * ?n) = (unat v + unat n - 1) div unat n * unat n"
    using div by (simp add: unat_word_ariths(2) wide)
  have "unat v \<le> (unat v + unat n - 1) div unat n * unat n"
    using div_mult_mod_eq [of "unat v + unat n - 1" "unat n"] mod_less_divisor [of "unat n" "unat v + unat n - 1"] n
    by linarith
  moreover from assms False have "\<not> ?s div ?n * ?n > 0xFFFFFFFF" "w = ucast (?s div ?n * ?n)"
    by (auto simp: align_up_u32_def Let_def split: if_splits)
  ultimately show ?thesis
    using mul by (simp add: unsigned_ucast_eq take_bit_nat_eq_self word_less_nat_alt not_less)
qed (use assms in \<open>auto simp: align_up_u32_def\<close>)

lemmas align_up_u32_ge = align_up_u32_spec [THEN conjunct1]

section \<open>Sections\<close>

text \<open>A section of a loaded image: its table entry, and when it is not empty either a range of the
  address space past the file, or a range of the file with its bytes.\<close>

definition section_ok :: "bytes \<Rightarrow> u32 \<Rightarrow> u32 \<Rightarrow> nat \<Rightarrow> RELSection \<Rightarrow> bool" where
  "section_ok h file_size base lo s \<longleftrightarrow> (rs_bss s \<longrightarrow> rs_size s \<noteq> 0) \<and> (rs_size s \<noteq> 0 \<longrightarrow>
     (if rs_bss s then rs_data s = None \<and> lo \<le> unat (rs_address s) \<and> \<not> rs_executable s \<and>
        unat (rs_address s) + unat (rs_size s) < 2 ^ 32
      else unat (rs_offset s) + unat (rs_size s) \<le> unat file_size \<and>
        unat (rs_address s) = unat base + unat (rs_offset s) \<and>
        rs_data s = Some (copy_out h (rs_offset s) (rs_size s)) \<and>
        (rs_executable s \<longrightarrow> rs_offset s AND 3 = 0 \<and> rs_size s AND 3 = 0)))"

text \<open>Sections laid out one after the other: every BSS section ends before the later ones begin.\<close>

fun bss_apart :: "RELSection list \<Rightarrow> bool" where
  "bss_apart [] \<longleftrightarrow> True"
| "bss_apart (s # ss) \<longleftrightarrow> (\<forall>t \<in> set ss. rs_bss s \<and> rs_bss t \<longrightarrow>
     unat (rs_address s) + unat (rs_size s) \<le> unat (rs_address t)) \<and> bss_apart ss"

lemma section_entry_fields [simp]:
  "rs_index (section_entry d e i) = i" "rs_address (section_entry d e i) = 0" "rs_data (section_entry d e i) = None"
  "rs_size (section_entry d e i) = read_be32 d (e + 4)"
  by (simp_all add: section_entry_def Let_def)

lemma section_entry_bss: "rs_bss (section_entry d e i) \<Longrightarrow> \<not> rs_executable (section_entry d e i) \<and> rs_size (section_entry d e i) \<noteq> 0"
  by (simp add: section_entry_def Let_def)

lemma place_file_section_ok:
  assumes "place_file_section alloc_ok h file_size base al s = Some t" "\<not> rs_bss s"
  shows "section_ok h file_size base lo t \<and> rs_index t = rs_index s \<and> rs_size t = rs_size s \<and> \<not> rs_bss t \<and>
    t\<lparr>rs_address := rs_address s, rs_data := rs_data s\<rparr> = s"
  using assms
  by (auto simp: place_file_section_def section_ok_def range_fits_nat add_u32_checked_unat
      split: if_splits option.splits)

lemma place_bss_ok:
  assumes "place_bss al cur s = Some (t, cur')" "rs_bss s" "rs_data s = None" "\<not> rs_executable s" "rs_size s \<noteq> 0"
  shows "section_ok h file_size base (unat cur) t \<and> rs_index t = rs_index s \<and> rs_bss t \<and>
    t\<lparr>rs_address := rs_address s, rs_data := rs_data s\<rparr> = s \<and> unat (rs_address t) + unat (rs_size t) \<le> unat cur' \<and> unat cur \<le> unat (rs_address t)"
proof -
  from assms(1) obtain c where c: "add_u32_checked cur (rs_size s) = Some c"
    and al: "align_up_u32 c (if al \<noteq> 0 then al else 4) = Some cur'" and t: "t = s\<lparr>rs_address := cur\<rparr>"
    by (auto simp: place_bss_def split: option.splits)
  from c have "unat cur + unat (rs_size s) < 2 ^ 32" by (simp add: add_u32_checked_nat)
  with add_u32_checked_unat [OF c] align_up_u32_ge [OF al] show ?thesis
    using assms(2-5) by (simp add: t section_ok_def)
qed

lemma section_ok_mono: "section_ok h f b m s \<Longrightarrow> l \<le> m \<Longrightarrow> section_ok h f b l s"
  by (auto simp: section_ok_def)

lemma load_sections_ok:
  assumes "load_sections alloc_ok h file_size base info al bal cur i n = Some ss"
  shows "length ss = n \<and> (\<forall>k < n. (ss ! k)\<lparr>rs_address := 0, rs_data := None\<rparr> =
      section_entry h (info + (i + of_nat k) * 8) (i + of_nat k)) \<and>
    (\<forall>s \<in> set ss. section_ok h file_size base (unat cur) s) \<and> bss_apart ss"
  using assms
proof (induction n arbitrary: cur i ss)
  case (Suc n)
  let ?s = "section_entry h (info + i * 8) i"
  from Suc.prems obtain t cur' ts where ss: "ss = t # ts"
    and rest: "load_sections alloc_ok h file_size base info al bal cur' (i + 1) n = Some ts"
    and placed: "(if rs_size ?s = 0 then Some (?s, cur) else if rs_bss ?s then place_bss bal cur ?s
      else map_option (\<lambda>s. (s, cur)) (place_file_section alloc_ok h file_size base al ?s)) = Some (t, cur')"
    by (auto simp del: section_entry_fields simp: Let_def split: option.splits)
  have t: "section_ok h file_size base (unat cur) t \<and> t\<lparr>rs_address := 0, rs_data := None\<rparr> = ?s \<and> unat cur \<le> unat cur' \<and>
      (rs_bss t \<longrightarrow> unat (rs_address t) + unat (rs_size t) \<le> unat cur')"
  proof (cases "rs_size ?s = 0 \<or> \<not> rs_bss ?s")
    case True
    with placed show ?thesis
      using section_entry_bss [of h "info + i * 8" i]
      by (auto simp: section_ok_def dest!: place_file_section_ok split: if_splits)
  next
    case False
    with placed have "place_bss bal cur ?s = Some (t, cur')" by simp
    from place_bss_ok [OF this, of h file_size base] False section_entry_bss [of h "info + i * 8" i] show ?thesis
      by auto
  qed
  note IH = Suc.IH [OF rest]
  have "rs_bss t \<and> rs_bss u \<longrightarrow> unat (rs_address t) + unat (rs_size t) \<le> unat (rs_address u)"
    if "u \<in> set ts" for u
  proof
    assume bss: "rs_bss t \<and> rs_bss u"
    from that IH have "section_ok h file_size base (unat cur') u" by blast
    with bss have "unat cur' \<le> unat (rs_address u)" by (simp add: section_ok_def)
    with t bss show "unat (rs_address t) + unat (rs_size t) \<le> unat (rs_address u)" by linarith
  qed
  then show ?case
    unfolding ss using IH t by (auto simp: nth_Cons less_Suc_eq_0_disj add.assoc intro: section_ok_mono)
qed simp


section \<open>The image\<close>

lemma rel_validate_keeps: "rel_validate r = Some rel \<Longrightarrow> rel = r\<lparr>rel_entry_point := rel_entry_point rel\<rparr>"
  by (auto simp: rel_validate_def split: if_splits)

lemma rel_load_image_parts:
  assumes "rel_load_image alloc_ok (Some (n, h)) base = Some rel"
  obtains bss al bal where
    "load_sections alloc_ok h (of_nat n) base (read_be32 h 0x10) al bal bss 0 (unat (read_be32 h 0xC)) = Some (rel_sections rel)"
    "base AND 3 = 0" "unat base + unat (of_nat n :: u32) \<le> unat bss" "REL_HEADER_MIN_SIZE \<le> n"
    "rel_validate (rel_header h (of_nat n) base\<lparr>rel_sections := rel_sections rel\<rparr>) = Some rel"
proof -
  have keeps: "rel_validate r = Some rel \<Longrightarrow> rel_sections rel = rel_sections r" for r
    by (auto simp: rel_validate_def split: if_splits)
  from assms obtain start bal bss al ss where
    "load_sections alloc_ok h (of_nat n) base (read_be32 h 0x10) al bal bss 0 (unat (read_be32 h 0xC)) = Some ss"
    "base AND 3 = 0" and start: "add_u32_checked base (of_nat n) = Some start"
    and bss: "align_up_u32 start (if bal \<noteq> 0 then bal else 4) = Some bss" and "REL_HEADER_MIN_SIZE \<le> n"
    and v: "rel_validate (rel_header h (of_nat n) base\<lparr>rel_sections := ss\<rparr>) = Some rel"
    by (auto simp: rel_load_image_def read_file_def Let_def rel_header_def not_less
        split: if_split_asm option.splits)
  moreover have "unat base + unat (of_nat n :: u32) \<le> unat bss"
    using add_u32_checked_unat [OF start] align_up_u32_ge [OF bss] by simp
  ultimately show ?thesis using that keeps [OF v] by simp
qed

lemma rel_load_image_fields:
  assumes "rel_load_image alloc_ok file base = Some rel"
  shows "rel_base_address rel = base" and "length (rel_sections rel) = unat (rel_section_count rel)"
    and "with_data (rel_sections rel)"
proof -
  from assms obtain n h where f: "file = Some (n, h)"
    by (auto simp: rel_load_image_def read_file_def split: if_splits option.splits)
  obtain bss al bal where
    load: "load_sections alloc_ok h (of_nat n) base (read_be32 h 0x10) al bal bss 0 (unat (read_be32 h 0xC)) = Some (rel_sections rel)"
    and v: "rel_validate (rel_header h (of_nat n) base\<lparr>rel_sections := rel_sections rel\<rparr>) = Some rel"
    using rel_load_image_parts [OF assms [unfolded f]] by metis
  show "rel_base_address rel = base" by (subst rel_validate_keeps [OF v]) (simp add: rel_header_def)
  have "rel_section_count rel = read_be32 h 0xC"
    by (subst rel_validate_keeps [OF v]) (simp add: rel_header_def)
  then show "length (rel_sections rel) = unat (rel_section_count rel)"
    using load_sections_ok [OF load] by simp
  show "with_data (rel_sections rel)"
    using load_sections_ok [OF load] by (auto simp: with_data_def section_ok_def section_has_file_data_def)
qed

lemma entry_inside:
  assumes "rel_validate r = Some rel" "rel_prolog_section r \<noteq> 0"
    and "\<forall>s \<in> set (rel_sections r). section_ok h file_size base lo s"
    and "length (rel_sections r) = unat (rel_section_count r)" "base AND 3 = 0"
  shows "\<exists>s \<in> set (rel_sections rel). s = rel_sections rel ! unat (rel_prolog_section rel) \<and>
    rs_executable s \<and> rs_data s \<noteq> None \<and> 4 dvd unat (rel_entry_point rel) \<and>
    unat (rs_address s) \<le> unat (rel_entry_point rel) \<and>
    unat (rel_entry_point rel) < unat (rs_address s) + unat (rs_size s)"
proof -
  let ?s = "rel_sections r ! unat (rel_prolog_section r)"
  from assms(1,2) obtain entry where entry: "section_address_at r (rel_prolog_section r) (rel_prolog_offset r) = Some entry"
    and ok: "validate_entry r (rel_prolog_section r) (rel_prolog_offset r)"
    and rel: "rel = r\<lparr>rel_entry_point := entry\<rparr>"
    by (auto simp: rel_validate_def split: if_splits)
  from ok assms(2) have i: "rel_prolog_section r < rel_section_count r"
    and x: "rs_executable ?s" "\<not> rs_bss ?s" "rs_data ?s \<noteq> None" "rel_prolog_offset r AND 3 = 0"
      "rel_prolog_offset r < rs_size ?s"
    by (auto simp: validate_entry_def Let_def not_le split: if_splits)
  have "?s \<in> set (rel_sections r)" using i assms(4) by (simp add: word_less_nat_alt)
  moreover from this assms(3) x have "unat (rs_address ?s) = unat base + unat (rs_offset ?s)"
    "rs_offset ?s AND 3 = 0" by (auto simp: section_ok_def)
  moreover have "unat entry = unat (rs_address ?s) + unat (rel_prolog_offset r)"
    using entry by (auto simp: section_address_at_def Let_def split: if_splits dest: add_u32_checked_unat)
  ultimately show ?thesis
    using x assms(5) by (auto simp: rel aligned_nat word_less_nat_alt)
qed

text \<open>C15: an image that loads is laid out safely.  Each section is the one of the section table;
  a section with bytes lies inside the file, holds exactly the bytes of its range, and its address
  is the base plus its file offset without overflow (executable sections are instruction
  aligned); a BSS section lies past the file, ends below 4 GB and the BSS sections follow each
  other without overlap; the entry point is an aligned address inside an executable section.\<close>

theorem rel_image_layout:
  assumes "rel_load_image alloc_ok (Some (n, h)) base = Some rel"
  shows "unat (rel_file_size rel) \<le> n \<and> length (rel_sections rel) = unat (rel_section_count rel) \<and>
    (\<forall>i < length (rel_sections rel). (rel_sections rel ! i)\<lparr>rs_address := 0, rs_data := None\<rparr> =
      section_entry h (read_be32 h 0x10 + of_nat i * 8) (of_nat i)) \<and>
    (\<forall>s \<in> set (rel_sections rel).
      section_ok h (rel_file_size rel) base (unat base + unat (rel_file_size rel)) s \<and>
      (rs_executable s \<and> rs_size s \<noteq> 0 \<longrightarrow> 4 dvd unat (rs_address s))) \<and>
    bss_apart (rel_sections rel) \<and>
    (rel_prolog_section rel \<noteq> 0 \<longrightarrow>
      (\<exists>s \<in> set (rel_sections rel). s = rel_sections rel ! unat (rel_prolog_section rel) \<and>
        rs_executable s \<and> rs_data s \<noteq> None \<and> 4 dvd unat (rel_entry_point rel) \<and>
        unat (rs_address s) \<le> unat (rel_entry_point rel) \<and>
        unat (rel_entry_point rel) < unat (rs_address s) + unat (rs_size s)))"
proof -
  let ?f = "of_nat n :: u32"
  from assms obtain bss al bal where
    load: "load_sections alloc_ok h ?f base (read_be32 h 0x10) al bal bss 0 (unat (read_be32 h 0xC)) = Some (rel_sections rel)"
    and base: "base AND 3 = 0" and lo: "unat base + unat ?f \<le> unat bss"
    and v: "rel_validate (rel_header h ?f base\<lparr>rel_sections := rel_sections rel\<rparr>) = Some rel"
    by (rule rel_load_image_parts)
  note ss = load_sections_ok [OF load]
  have hdr: "rel_file_size rel = ?f" "rel_section_count rel = read_be32 h 0xC"
    "rel_prolog_section rel = rel_prolog_section (rel_header h ?f base\<lparr>rel_sections := rel_sections rel\<rparr>)"
    by (subst rel_validate_keeps [OF v], simp add: rel_header_def)+
  have ok: "\<forall>s \<in> set (rel_sections rel). section_ok h ?f base (unat base + unat ?f) s"
    using ss lo by (blast intro: section_ok_mono)
  moreover have "4 dvd unat (rs_address s)"
    if "section_ok h ?f base (unat base + unat ?f) s" "rs_executable s" "rs_size s \<noteq> 0" for s
    using that base by (auto simp: section_ok_def aligned_nat split: if_splits)
  moreover have "unat ?f \<le> n" by (simp add: unat_of_nat)
  ultimately show ?thesis
    using ss entry_inside [OF v, of h ?f base "unat base + unat ?f"] base hdr
    by (auto simp: rel_header_def)
qed

text \<open>A module with id \<open>m\<close>, an empty section, four bytes of code at its end and an eight-byte BSS
  section.\<close>

definition demo_rel :: "u8 \<Rightarrow> bytes" where
  "demo_rel m = (\<lambda>_. 0)(0x3 := m, 0xF := 3, 0x13 := 0x48, 0x23 := 8, 0x30 := 1, 0x43 := 4, 0x47 := 8,
     0x53 := 0x61, 0x57 := 4, 0x5F := 8, 0x60 := 0x4E, 0x61 := 0x80, 0x63 := 0x20)"

lemma demo_rel_words:
  "read_be32 (demo_rel m) 0 = ucast m" "read_be32 (demo_rel m) 0xC = 3" "read_be32 (demo_rel m) 0x10 = 0x48"
  "read_be32 (demo_rel m) 0x20 = 8" "read_be32 (demo_rel m) 0x2C = 0"
  "read_be32 (demo_rel m) 0x40 = 4" "read_be32 (demo_rel m) 0x44 = 8" "read_be32 (demo_rel m) 0x34 = 0"
  "read_be32 (demo_rel m) 0x48 = 0" "read_be32 (demo_rel m) 0x4C = 0" "read_be32 (demo_rel m) 0x50 = 0x61"
  "read_be32 (demo_rel m) 0x54 = 4" "read_be32 (demo_rel m) 0x58 = 0" "read_be32 (demo_rel m) 0x5C = 8"
  "demo_rel m 0x30 = 1" "demo_rel m 0x31 = 0" "demo_rel m 0x32 = 0"
  by (simp_all add: read_be32_bytes demo_rel_def)

lemma demo_rel_loads:
  assumes "base = 0x80500000 \<or> base = 0x80510000"
  shows "case rel_load_image (\<lambda>_. True) (Some (0x64, demo_rel m)) base of None \<Rightarrow> False
    | Some rel \<Rightarrow> rel_entry_point rel = base + 0x60 \<and> rel_module_id rel = ucast m \<and> rel_import_size rel = 0 \<and>
      rel_file_size rel = 0x64 \<and> rel_bss_size rel = 8 \<and> rel_base_address rel = base \<and>
      length (rel_sections rel) = 3 \<and> rel_prolog_section rel = 1 \<and>
      rs_bss (rel_sections rel ! 2) \<and> rs_size (rel_sections rel ! 2) \<noteq> 0"
proof -
  let ?ss = "[section_entry (demo_rel m) 0x48 0, (section_entry (demo_rel m) 0x50 1)\<lparr>rs_address := base + 0x60,
      rs_data := Some (copy_out (demo_rel m) 0x60 4)\<rparr>, (section_entry (demo_rel m) 0x58 2)\<lparr>rs_address := base + 0x68\<rparr>]"
  from assms have load: "load_sections (\<lambda>_. True) (demo_rel m) 0x64 base 0x48 4 8 (base + 0x68) 0 3 = Some ?ss"
    by (elim disjE; simp add: numeral_3_eq_3 section_entry_def demo_rel_words place_bss_def place_file_section_def
        range_fits_def add_u32_checked_def align_up_u32_def Let_def word_le_nat_alt)
  from assms load show ?thesis
    by (elim disjE;
        simp add: rel_load_image_def read_file_def rel_header_def demo_rel_words range_fits_def add_u32_checked_def
          align_up_u32_def Let_def word_le_nat_alt;
        simp add: rel_validate_def validate_entry_def section_address_at_def section_entry_def demo_rel_words
          add_u32_checked_def word_le_nat_alt)
qed

lemma rel_image_layout_witness:
  "\<exists>rel. rel_load_image (\<lambda>_. True) (Some (0x64, demo_rel 7)) 0x80500000 = Some rel \<and>
     rel_entry_point rel = 0x80500060 \<and> rel_prolog_section rel = 1 \<and> rs_bss (rel_sections rel ! 2) \<and>
     unat (rs_address (rel_sections rel ! 1)) \<le> unat (rel_entry_point rel) \<and>
     0x80500064 \<le> unat (rs_address (rel_sections rel ! 2))"
proof -
  from demo_rel_loads [of "0x80500000" 7] obtain rel
    where r: "rel_load_image (\<lambda>_. True) (Some (0x64, demo_rel 7)) 0x80500000 = Some rel"
    and f: "rel_entry_point rel = 0x80500060" "rel_file_size rel = 0x64" "length (rel_sections rel) = 3"
      "rel_prolog_section rel = 1" "rs_bss (rel_sections rel ! 2)" "rs_size (rel_sections rel ! 2) \<noteq> 0"
    by (auto split: option.splits)
  from rel_image_layout [OF r] f have "unat (rs_address (rel_sections rel ! 1)) \<le> unat (rel_entry_point rel)"
    "section_ok (demo_rel 7) 0x64 0x80500000 0x80500064 (rel_sections rel ! 2)"
    by auto
  with r f show ?thesis by (auto simp: section_ok_def)
qed

end
