(* ===== verification/Dol.thy ===== *)
theory Dol
  imports GuestTypes
begin

text \<open>
  The executable loader of src/DolRecomp/src/frontend/dol.c and dol.h: parsing the DOL header,
  validating the layout and finding section data.

  The file is the parameter \<open>file\<close>: its size and bytes, \<open>None\<close> when opening, allocating or
  reading it fails.  An array of the header is the list of its entries; a section pointer
  (\<open>file_data + offset\<close>) is the offset, NULL is \<open>None\<close>.
\<close>

section \<open>State\<close>

abbreviation DOL_HEADER_SIZE :: nat where "DOL_HEADER_SIZE \<equiv> 0x100"
abbreviation DOL_NUM_TEXT :: nat where "DOL_NUM_TEXT \<equiv> 7"
abbreviation DOL_NUM_DATA :: nat where "DOL_NUM_DATA \<equiv> 11"

record DOLHeader =
  text_offsets :: "u32 list"
  data_offsets :: "u32 list"
  text_addresses :: "u32 list"
  data_addresses :: "u32 list"
  text_sizes :: "u32 list"
  data_sizes :: "u32 list"
  bss_address :: u32
  bss_size :: u32
  entry_point :: u32

record DOLFile =
  dol_header :: DOLHeader
  dol_file_data :: "bytes option"
  dol_file_size :: u32

section \<open>Validation\<close>

definition dol_range_fits :: "u32 \<Rightarrow> u32 \<Rightarrow> u32 \<Rightarrow> bool" where
  "dol_range_fits off sz limit \<longleftrightarrow> off \<le> limit \<and> sz \<le> limit - off"

definition address_in_range :: "u32 \<Rightarrow> u32 \<Rightarrow> u32 \<Rightarrow> bool" where
  "address_in_range address base sz \<longleftrightarrow> sz \<noteq> 0 \<and> address \<ge> base \<and> address - base < sz"

definition validate_section_range :: "u32 \<Rightarrow> u32 \<Rightarrow> u32 \<Rightarrow> bool" where
  "validate_section_range off sz file_size \<longleftrightarrow>
    (if sz = 0 then True else if \<not> dol_range_fits off sz file_size then False else True)"

text \<open>The text loop: \<open>None\<close> when a section is bad, else whether the entry point was seen.\<close>

fun validate_text :: "DOLFile \<Rightarrow> nat list \<Rightarrow> bool \<Rightarrow> bool option" where
  "validate_text dol [] entry_in_text = Some entry_in_text"
| "validate_text dol (i # is) entry_in_text =
    (let off = text_offsets (dol_header dol) ! i; address = text_addresses (dol_header dol) ! i;
         sz = text_sizes (dol_header dol) ! i
     in if \<not> validate_section_range off sz (dol_file_size dol) then None
        else if sz AND 3 \<noteq> 0 then None
        else validate_text dol is
          (if address_in_range (entry_point (dol_header dol)) address sz then True else entry_in_text))"

definition validate_dol_layout :: "DOLFile \<Rightarrow> bool" where
  "validate_dol_layout dol \<longleftrightarrow>
    (if entry_point (dol_header dol) AND 3 \<noteq> 0 then False
     else case validate_text dol [0..<DOL_NUM_TEXT] False of
       None \<Rightarrow> False
     | Some entry_in_text \<Rightarrow>
         if \<not> list_all (\<lambda>i. validate_section_range (data_offsets (dol_header dol) ! i)
              (data_sizes (dol_header dol) ! i) (dol_file_size dol)) [0..<DOL_NUM_DATA] then False
         else if \<not> entry_in_text then False
         else True)"

section \<open>Loading\<close>

definition read_table :: "bytes \<Rightarrow> u32 \<Rightarrow> nat \<Rightarrow> u32 list" where
  "read_table h p n = map (\<lambda>i. read_be32 h (p + of_nat i * 4)) [0..<n]"

definition parse_dol_header :: "bytes \<Rightarrow> DOLHeader" where
  "parse_dol_header h =
    \<lparr>text_offsets = read_table h 0x00 DOL_NUM_TEXT, data_offsets = read_table h 0x1C DOL_NUM_DATA,
     text_addresses = read_table h 0x48 DOL_NUM_TEXT, data_addresses = read_table h 0x64 DOL_NUM_DATA,
     text_sizes = read_table h 0x90 DOL_NUM_TEXT, data_sizes = read_table h 0xAC DOL_NUM_DATA,
     bss_address = read_be32 h 0xD8, bss_size = read_be32 h 0xDC, entry_point = read_be32 h 0xE0\<rparr>"

definition dol_load :: "(nat \<times> bytes) option \<Rightarrow> DOLFile option" where
  "dol_load file = (case file of
     None \<Rightarrow> None
   | Some (sz, h) \<Rightarrow>
       if sz < DOL_HEADER_SIZE then None
       else let dol = \<lparr>dol_header = parse_dol_header h, dol_file_data = Some h, dol_file_size = of_nat sz\<rparr>
       in if \<not> validate_dol_layout dol then None else Some dol)"

definition dol_free :: "DOLFile \<Rightarrow> DOLFile" where
  "dol_free dol = dol\<lparr>dol_file_data := None, dol_file_size := 0\<rparr>"

section \<open>Section data\<close>

definition dol_get_text_section :: "DOLFile \<Rightarrow> int \<Rightarrow> u32 option" where
  "dol_get_text_section dol index =
    (if index < 0 \<or> index \<ge> int DOL_NUM_TEXT then None
     else let i = nat index; off = text_offsets (dol_header dol) ! i; sz = text_sizes (dol_header dol) ! i
     in if sz = 0 then None
        else if \<not> dol_range_fits off sz (dol_file_size dol) then None
        else Some off)"

definition dol_get_data_section :: "DOLFile \<Rightarrow> int \<Rightarrow> u32 option" where
  "dol_get_data_section dol index =
    (if index < 0 \<or> index \<ge> int DOL_NUM_DATA then None
     else let i = nat index; off = data_offsets (dol_header dol) ! i; sz = data_sizes (dol_header dol) ! i
     in if sz = 0 then None
        else if \<not> dol_range_fits off sz (dol_file_size dol) then None
        else Some off)"

section \<open>What a loaded file promises\<close>

lemma dol_range_fits_nat: "dol_range_fits off sz limit \<longleftrightarrow> unat off + unat sz \<le> unat limit"
  by (simp add: dol_range_fits_def fits_nat)

lemma address_in_range_nat:
  "address_in_range address base sz \<longleftrightarrow> unat base \<le> unat address \<and> unat address < unat base + unat sz"
proof (cases "base \<le> address")
  case True
  then have "unat (address - base) = unat address - unat base" by (rule unat_sub)
  with True show ?thesis
    by (auto simp: address_in_range_def word_le_nat_alt word_less_nat_alt unat_eq_zero)
qed (auto simp: address_in_range_def word_le_nat_alt)

lemma validate_text_Some:
  "validate_text dol is b = Some c \<longleftrightarrow>
    (\<forall>i \<in> set is. validate_section_range (text_offsets (dol_header dol) ! i) (text_sizes (dol_header dol) ! i)
       (dol_file_size dol) \<and> text_sizes (dol_header dol) ! i AND 3 = 0) \<and>
    (c \<longleftrightarrow> b \<or> (\<exists>i \<in> set is. address_in_range (entry_point (dol_header dol))
       (text_addresses (dol_header dol) ! i) (text_sizes (dol_header dol) ! i)))"
  by (induction dol "is" b rule: validate_text.induct) (auto simp: Let_def)

lemma validate_section_range_nat:
  "validate_section_range off sz fsz \<longleftrightarrow> sz = 0 \<or> unat off + unat sz \<le> unat fsz"
  by (simp add: validate_section_range_def dol_range_fits_nat)

lemma read_table_nth: "i < n \<Longrightarrow> read_table h p n ! i = read_be32 h (p + of_nat i * 4)"
  by (simp add: read_table_def)

lemma validate_dol_layout_iff:
  "validate_dol_layout dol \<longleftrightarrow> entry_point (dol_header dol) AND 3 = 0 \<and>
    (\<forall>i < DOL_NUM_TEXT. validate_section_range (text_offsets (dol_header dol) ! i)
       (text_sizes (dol_header dol) ! i) (dol_file_size dol) \<and> text_sizes (dol_header dol) ! i AND 3 = 0) \<and>
    (\<forall>i < DOL_NUM_DATA. validate_section_range (data_offsets (dol_header dol) ! i)
       (data_sizes (dol_header dol) ! i) (dol_file_size dol)) \<and>
    (\<exists>i < DOL_NUM_TEXT. address_in_range (entry_point (dol_header dol))
       (text_addresses (dol_header dol) ! i) (text_sizes (dol_header dol) ! i))"
proof -
  have run: "(case validate_text dol is False of None \<Rightarrow> False | Some e \<Rightarrow> if \<not> P then False else if \<not> e then False else True)
      \<longleftrightarrow> validate_text dol is False = Some True \<and> P" for "is" P
    by (auto split: option.split)
  have texts: "(\<forall>i \<in> set [0..<n]. Q i) \<longleftrightarrow> (\<forall>i < n. Q i)" "(\<exists>i \<in> set [0..<n]. Q i) \<longleftrightarrow> (\<exists>i < n. Q i)"
    for Q and n :: nat by auto
  show ?thesis
    unfolding validate_dol_layout_def run validate_text_Some list_all_iff texts by auto
qed

text \<open>A DOL that loads has a sound layout.  Its tables are those of the header at their file
  offsets, every non-empty section lies inside the file, text sections hold whole instructions,
  the entry point is aligned and inside a text section, and a section getter answers for every
  index whatever: the section's offset for a non-empty section, NULL otherwise.\<close>

theorem dol_layout:
  assumes "dol_load (Some (n, h)) = Some dol"
  shows "dol_file_data dol = Some h \<and> unat (dol_file_size dol) \<le> n \<and>
    (\<forall>i < DOL_NUM_TEXT. let off = read_be32 h (of_nat i * 4); sz = read_be32 h (0x90 + of_nat i * 4) in
      4 dvd unat sz \<and> (sz \<noteq> 0 \<longrightarrow> unat off + unat sz \<le> unat (dol_file_size dol)) \<and>
      dol_get_text_section dol (int i) = (if sz = 0 then None else Some off)) \<and>
    (\<forall>i < DOL_NUM_DATA. let off = read_be32 h (0x1C + of_nat i * 4); sz = read_be32 h (0xAC + of_nat i * 4) in
      (sz \<noteq> 0 \<longrightarrow> unat off + unat sz \<le> unat (dol_file_size dol)) \<and>
      dol_get_data_section dol (int i) = (if sz = 0 then None else Some off)) \<and>
    (\<forall>i. i < 0 \<or> i \<ge> 11 \<longrightarrow> dol_get_text_section dol i = None \<and> dol_get_data_section dol i = None) \<and>
    4 dvd unat (read_be32 h 0xE0) \<and>
    (\<exists>i < DOL_NUM_TEXT. unat (read_be32 h (0x48 + of_nat i * 4)) \<le> unat (read_be32 h 0xE0) \<and>
      unat (read_be32 h 0xE0) < unat (read_be32 h (0x48 + of_nat i * 4)) + unat (read_be32 h (0x90 + of_nat i * 4)))"
proof -
  from assms have dol: "dol = \<lparr>dol_header = parse_dol_header h, dol_file_data = Some h, dol_file_size = of_nat n\<rparr>"
    and ok: "validate_dol_layout dol"
    by (auto simp: dol_load_def Let_def split: if_splits)
  from ok show ?thesis
    unfolding validate_dol_layout_iff validate_section_range_nat address_in_range_nat aligned_nat
    by (auto simp: dol parse_dol_header_def read_table_nth Let_def dol_get_text_section_def
        dol_get_data_section_def dol_range_fits_nat unat_of_nat)
qed

text \<open>A file with one text section of eight bytes at 0x80003100.\<close>

definition demo_dol :: bytes where
  "demo_dol = (\<lambda>_. 0)(0x02 := 1, 0x48 := 0x80, 0x4A := 0x31, 0x93 := 8, 0xE0 := 0x80, 0xE2 := 0x31, 0xE3 := 4)"

lemma dol_layout_witness:
  "\<exists>dol. dol_load (Some (0x108, demo_dol)) = Some dol \<and> dol_get_text_section dol 0 = Some 0x100 \<and>
     dol_get_text_section dol 1 = None \<and> dol_get_text_section dol 12 = None"
proof -
  have tables: "read_table demo_dol 0 7 = [0x100, 0, 0, 0, 0, 0, 0]"
    "read_table demo_dol 0x48 7 = [0x80003100, 0, 0, 0, 0, 0, 0]" "read_table demo_dol 0x90 7 = [8, 0, 0, 0, 0, 0, 0]"
    "read_table demo_dol 0xAC 11 = [0, 0, 0, 0, 0, 0, 0, 0, 0, 0, 0]" "read_be32 demo_dol 0xE0 = 0x80003104"
    by (simp_all add: read_table_def upt_rec read_be32_bytes demo_dol_def)
  have "\<exists>dol. dol_load (Some (0x108, demo_dol)) = Some dol"
    by (simp add: dol_load_def Let_def validate_dol_layout_def upt_rec parse_dol_header_def tables
        validate_section_range_def dol_range_fits_def address_in_range_def)
  then obtain dol where dol: "dol_load (Some (0x108, demo_dol)) = Some dol" ..
  have words: "read_be32 demo_dol 0 = 0x100" "read_be32 demo_dol 0x90 = 8" "read_be32 demo_dol 0x94 = 0" "read_be32 demo_dol 4 = 0"
    by (simp_all add: read_be32_bytes demo_dol_def)
  have texts: "\<forall>i < DOL_NUM_TEXT. dol_get_text_section dol (int i) =
      (if read_be32 demo_dol (0x90 + of_nat i * 4) = 0 then None else Some (read_be32 demo_dol (of_nat i * 4)))"
    using dol_layout [OF dol] by (simp add: Let_def)
  have "\<forall>i. i < 0 \<or> i \<ge> 11 \<longrightarrow> dol_get_text_section dol i = None \<and> dol_get_data_section dol i = None"
    using dol_layout [OF dol] by blast
  then have out: "dol_get_text_section dol 12 = None" by simp
  show ?thesis
    using dol texts [rule_format, of 0] texts [rule_format, of 1] out words by simp
qed

end
