(* ===== verification/Rpx.thy ===== *)
theory Rpx
  imports GuestTypes
begin

text \<open>
  The Wii U executable loader of src/DolRecomp/src/frontend/rpx.c and rpx.h: parsing the ELF
  header and section table, decoding section bytes and collecting the code sections.

  Parameters: the file (its size and bytes, \<open>None\<close> when opening, measuring, allocating or
  reading it fails), the success of the later allocations, and zlib's \<open>uncompress\<close> (\<open>None\<close> in a
  build without zlib), which gets the source bytes, their number and the destination's size, and
  answers with the bytes and their number when it returns \<open>Z_OK\<close>.  A data pointer is the bytes
  from it on, NULL is \<open>None\<close>; reading through NULL is the outcome \<open>Fault\<close>.
\<close>

section \<open>State\<close>

datatype 'a outcome = Done 'a | Failed | Fault

abbreviation RPX_MAX_CODE_SECTIONS :: nat where "RPX_MAX_CODE_SECTIONS \<equiv> 64"
abbreviation ELF_HEADER_SIZE :: nat where "ELF_HEADER_SIZE \<equiv> 52"
abbreviation ELF_SECTION_SIZE :: u16 where "ELF_SECTION_SIZE \<equiv> 40"
abbreviation ELF_CLASS_32 :: u8 where "ELF_CLASS_32 \<equiv> 1"
abbreviation ELF_DATA_BE :: u8 where "ELF_DATA_BE \<equiv> 2"
abbreviation ELF_VERSION_CURRENT :: u8 where "ELF_VERSION_CURRENT \<equiv> 1"
abbreviation ELF_MACHINE_PPC :: u16 where "ELF_MACHINE_PPC \<equiv> 20"
abbreviation ELF_TYPE_RPL :: u16 where "ELF_TYPE_RPL \<equiv> 0xFE01"
abbreviation SHF_EXECINSTR :: u32 where "SHF_EXECINSTR \<equiv> 0x00000004"
abbreviation SHF_RPL_ZLIB :: u32 where "SHF_RPL_ZLIB \<equiv> 0x08000000"
abbreviation SHT_PROGBITS :: u32 where "SHT_PROGBITS \<equiv> 1"
abbreviation SHT_NOBITS :: u32 where "SHT_NOBITS \<equiv> 8"

record RPXSectionHeader =
  sh_name_offset :: u32
  sh_type :: u32
  sh_flags :: u32
  sh_address :: u32
  sh_offset :: u32
  sh_size :: u32
  sh_link :: u32
  sh_info :: u32
  sh_alignment :: u32
  sh_entry_size :: u32

record RPXCodeSection =
  code_name :: "u8 list"
  code_offset :: u32
  code_address :: u32
  code_size :: u32
  code_flags :: u32
  code_compressed :: bool
  code_data :: bytes

record RPXFile =
  rpx_file_data :: bytes
  rpx_file_size :: u32
  rpx_entry_point :: u32
  rpx_section_count :: u16
  rpx_code_sections :: "RPXCodeSection list"

type_synonym uncompress_fn = "bytes \<Rightarrow> u64 \<Rightarrow> u64 \<Rightarrow> (bytes \<times> u64) option"

section \<open>Names and data\<close>

definition rpx_range_fits :: "u32 \<Rightarrow> u32 \<Rightarrow> u32 \<Rightarrow> bool" where
  "rpx_range_fits off sz limit \<longleftrightarrow> off \<le> limit \<and> sz \<le> limit - off"

definition rpx_address_in_range :: "u32 \<Rightarrow> u32 \<Rightarrow> u32 \<Rightarrow> bool" where
  "rpx_address_in_range address base sz \<longleftrightarrow> sz \<noteq> 0 \<and> address \<ge> base \<and> address - base < sz"

definition bytes_at :: "bytes \<Rightarrow> u32 \<Rightarrow> bytes" where
  "bytes_at d off = (\<lambda>a. d (off + a))"

text \<open>The bytes from \<open>off\<close> up to the end of the table; a name is what precedes the first NUL.\<close>

definition table_from :: "bytes \<Rightarrow> u32 \<Rightarrow> u32 \<Rightarrow> u8 list" where
  "table_from names off names_size = map (\<lambda>i. names (of_nat i)) [unat off..<unat names_size]"

definition section_name_at :: "bytes option \<Rightarrow> u32 \<Rightarrow> u32 \<Rightarrow> u8 list option outcome" where
  "section_name_at names names_size off =
    (if off \<ge> names_size then Done None
     else case names of
       None \<Rightarrow> Fault
     | Some b \<Rightarrow>
         let rest = table_from b off names_size
         in if list_ex (\<lambda>c. c = 0) rest then Done (Some (takeWhile (\<lambda>c. c \<noteq> 0) rest)) else Done None)"

definition anonymous :: "u8 list" where
  "anonymous = [0x3C, 0x61, 0x6E, 0x6F, 0x6E, 0x79, 0x6D, 0x6F, 0x75, 0x73, 0x3E]"

definition copy_section_name :: "nat \<Rightarrow> u8 list option \<Rightarrow> u8 list" where
  "copy_section_name out_size name =
    (let name = (case name of None \<Rightarrow> anonymous | Some s \<Rightarrow> if s = [] then anonymous else s)
     in take (out_size - 1) name)"

text \<open>The data pointer and size of a section: NULL for a section without bytes.\<close>

definition decode_section_bytes ::
  "uncompress_fn option \<Rightarrow> (u32 \<Rightarrow> bool) \<Rightarrow> bytes \<Rightarrow> u32 \<Rightarrow> RPXSectionHeader \<Rightarrow> (bytes option \<times> u32) option" where
  "decode_section_bytes uncompress alloc_ok d file_size s =
    (if sh_type s = SHT_NOBITS then Some (None, sh_size s)
     else if \<not> rpx_range_fits (sh_offset s) (sh_size s) file_size then None
     else if sh_flags s AND SHF_RPL_ZLIB = 0 then Some (Some (bytes_at d (sh_offset s)), sh_size s)
     else if sh_size s < 4 then None
     else let decoded_size = read_be32 d (sh_offset s)
     in if \<not> alloc_ok (if decoded_size \<noteq> 0 then decoded_size else 1) then None
        else case uncompress of
          None \<Rightarrow> None
        | Some f \<Rightarrow>
            (case f (bytes_at d (sh_offset s + 4)) (ucast (sh_size s) - 4) (ucast decoded_size) of
               None \<Rightarrow> None
             | Some (decoded, dest_len) \<Rightarrow>
                 if dest_len \<noteq> ucast decoded_size then None else Some (Some decoded, decoded_size)))"

definition read_section_header :: "bytes \<Rightarrow> u32 \<Rightarrow> u16 \<Rightarrow> u16 \<Rightarrow> RPXSectionHeader" where
  "read_section_header d table_offset entry_size index =
    (let header = table_offset + ucast index * ucast entry_size
     in \<lparr>sh_name_offset = read_be32 d header, sh_type = read_be32 d (header + 4),
         sh_flags = read_be32 d (header + 8), sh_address = read_be32 d (header + 12),
         sh_offset = read_be32 d (header + 16), sh_size = read_be32 d (header + 20),
         sh_link = read_be32 d (header + 24), sh_info = read_be32 d (header + 28),
         sh_alignment = read_be32 d (header + 32), sh_entry_size = read_be32 d (header + 36)\<rparr>)"

section \<open>Loading\<close>

definition is_code :: "RPXSectionHeader \<Rightarrow> bool" where
  "is_code s \<longleftrightarrow> sh_type s = SHT_PROGBITS \<and> sh_flags s AND SHF_EXECINSTR \<noteq> 0 \<and> sh_size s \<noteq> 0"

definition code_section ::
  "uncompress_fn option \<Rightarrow> (u32 \<Rightarrow> bool) \<Rightarrow> bytes \<Rightarrow> u32 \<Rightarrow> u8 list option \<Rightarrow> RPXSectionHeader \<Rightarrow> RPXCodeSection option" where
  "code_section uncompress alloc_ok d file_size name s =
    (case decode_section_bytes uncompress alloc_ok d file_size s of
       Some (Some data, decoded_size) \<Rightarrow>
         if decoded_size AND 3 \<noteq> 0 then None
         else Some \<lparr>code_name = copy_section_name 64 name, code_offset = sh_offset s,
           code_address = sh_address s, code_size = decoded_size, code_flags = sh_flags s,
           code_compressed = (sh_flags s AND SHF_RPL_ZLIB \<noteq> 0), code_data = data\<rparr>
     | _ \<Rightarrow> None)"

fun collect_code ::
  "uncompress_fn option \<Rightarrow> (u32 \<Rightarrow> bool) \<Rightarrow> bytes \<Rightarrow> u32 \<Rightarrow> bytes option \<Rightarrow> u32 \<Rightarrow>
   RPXSectionHeader list \<Rightarrow> RPXCodeSection list \<Rightarrow> RPXCodeSection list outcome" where
  "collect_code uncompress alloc_ok d file_size names names_size [] codes = Done codes"
| "collect_code uncompress alloc_ok d file_size names names_size (s # ss) codes =
    (case section_name_at names names_size (sh_name_offset s) of
       Fault \<Rightarrow> Fault
     | Failed \<Rightarrow> Failed
     | Done name \<Rightarrow>
         if sh_type s \<noteq> SHT_NOBITS \<and> sh_size s \<noteq> 0 \<and> \<not> rpx_range_fits (sh_offset s) (sh_size s) file_size
         then Failed
         else if is_code s then
           (if length codes \<ge> RPX_MAX_CODE_SECTIONS then Failed
            else case code_section uncompress alloc_ok d file_size name s of
              None \<Rightarrow> Failed
            | Some c \<Rightarrow> collect_code uncompress alloc_ok d file_size names names_size ss (codes @ [c]))
         else collect_code uncompress alloc_ok d file_size names names_size ss codes)"

definition elf_ident_ok :: "bytes \<Rightarrow> bool" where
  "elf_ident_ok h \<longleftrightarrow> \<not> (h 0 \<noteq> 0x7F \<or> h 1 \<noteq> 0x45 \<or> h 2 \<noteq> 0x4C \<or> h 3 \<noteq> 0x46 \<or> h 4 \<noteq> ELF_CLASS_32 \<or>
     h 5 \<noteq> ELF_DATA_BE \<or> h 6 \<noteq> ELF_VERSION_CURRENT)"

definition rpx_load_sections ::
  "uncompress_fn option \<Rightarrow> (u32 \<Rightarrow> bool) \<Rightarrow> bytes \<Rightarrow> u32 \<Rightarrow> u32 \<Rightarrow> u16 \<Rightarrow> RPXFile outcome" where
  "rpx_load_sections uncompress alloc_ok h file_size entry section_count =
    (let section_offset = read_be32 h 32; section_entry_size = read_be16 h 46;
         section_names_index = read_be16 h 50;
         sections = map (\<lambda>i. read_section_header h section_offset section_entry_size (of_nat i))
           [0..<unat section_count]
     in case decode_section_bytes uncompress alloc_ok h file_size (sections ! unat section_names_index) of
          None \<Rightarrow> Failed
        | Some (names, names_size) \<Rightarrow>
            (case collect_code uncompress alloc_ok h file_size names names_size sections [] of
               Fault \<Rightarrow> Fault
             | Failed \<Rightarrow> Failed
             | Done codes \<Rightarrow>
                 if codes = [] then Failed
                 else if \<not> list_ex (\<lambda>c. rpx_address_in_range entry (code_address c) (code_size c)) codes then Failed
                 else Done \<lparr>rpx_file_data = h, rpx_file_size = file_size, rpx_entry_point = entry,
                   rpx_section_count = section_count, rpx_code_sections = codes\<rparr>))"

definition rpx_load ::
  "uncompress_fn option \<Rightarrow> (u32 \<Rightarrow> bool) \<Rightarrow> (nat \<times> bytes) option \<Rightarrow> RPXFile outcome" where
  "rpx_load uncompress alloc_ok file = (case file of
     None \<Rightarrow> Failed
   | Some (sz, h) \<Rightarrow>
       if sz < ELF_HEADER_SIZE then Failed
       else if \<not> elf_ident_ok h then Failed
       else if read_be16 h 16 \<noteq> ELF_TYPE_RPL \<or> read_be16 h 18 \<noteq> ELF_MACHINE_PPC then Failed
       else if read_be32 h 24 AND 3 \<noteq> 0 then Failed
       else if read_be16 h 46 \<noteq> ELF_SECTION_SIZE \<or> read_be16 h 50 \<ge> read_be16 h 48 then Failed
       else if \<not> rpx_range_fits (read_be32 h 32) (ucast (read_be16 h 46) * ucast (read_be16 h 48)) (of_nat sz)
       then Failed
       else if \<not> alloc_ok (ucast (read_be16 h 48) * 40) then Failed
       else rpx_load_sections uncompress alloc_ok h (of_nat sz) (read_be32 h 24) (read_be16 h 48))"


section \<open>What a loaded file promises\<close>

lemma rpx_range_fits_nat: "rpx_range_fits off sz limit \<longleftrightarrow> unat off + unat sz \<le> unat limit"
  by (simp add: rpx_range_fits_def fits_nat)

lemma rpx_address_in_range_nat:
  "rpx_address_in_range address base sz \<longleftrightarrow> unat base \<le> unat address \<and> unat address < unat base + unat sz"
proof (cases "base \<le> address")
  case True
  then have "unat (address - base) = unat address - unat base" by (rule unat_sub)
  with True show ?thesis
    by (auto simp: rpx_address_in_range_def word_le_nat_alt word_less_nat_alt unat_eq_zero)
qed (auto simp: rpx_address_in_range_def word_le_nat_alt)

text \<open>A printable name: not empty, at most 63 bytes and without NUL.\<close>

definition name_ok :: "u8 list \<Rightarrow> bool" where
  "name_ok name \<longleftrightarrow> name \<noteq> [] \<and> length name \<le> 63 \<and> 0 \<notin> set name"

definition code_ok :: "uncompress_fn option \<Rightarrow> bytes \<Rightarrow> u32 \<Rightarrow> RPXCodeSection \<Rightarrow> bool" where
  "code_ok uncompress h file_size c \<longleftrightarrow> 4 dvd unat (code_size c) \<and> name_ok (code_name c) \<and>
    (if code_compressed c
     then code_size c = read_be32 h (code_offset c) \<and> unat (code_offset c) + 4 \<le> unat file_size \<and>
       (\<exists>f k. uncompress = Some f \<and>
         f (bytes_at h (code_offset c + 4)) k (ucast (code_size c)) = Some (code_data c, ucast (code_size c)))
     else unat (code_offset c) + unat (code_size c) \<le> unat file_size \<and> code_data c = bytes_at h (code_offset c))"

lemma copy_section_name_ok:
  assumes "\<And>s. name = Some s \<Longrightarrow> 0 \<notin> set s"
  shows "name_ok (copy_section_name 64 name)"
proof -
  have "0 \<notin> set anonymous" "anonymous \<noteq> []" by (simp_all add: anonymous_def)
  then show ?thesis
    using assms by (auto simp: copy_section_name_def name_ok_def Let_def dest: in_set_takeD split: option.splits)
qed

lemma section_name_no_nul: "section_name_at names sz off = Done (Some s) \<Longrightarrow> 0 \<notin> set s"
  by (auto simp: section_name_at_def Let_def split: if_splits option.splits dest: set_takeWhileD)

lemma code_section_ok:
  assumes "code_section uncompress alloc_ok h file_size name s = Some c" "is_code s"
    and "\<And>n. name = Some n \<Longrightarrow> 0 \<notin> set n"
  shows "code_ok uncompress h file_size c"
proof -
  from assms(1) obtain data sz where d: "decode_section_bytes uncompress alloc_ok h file_size s = Some (Some data, sz)"
    and sz: "sz AND 3 = 0"
    and c: "c = \<lparr>code_name = copy_section_name 64 name, code_offset = sh_offset s,
      code_address = sh_address s, code_size = sz, code_flags = sh_flags s,
      code_compressed = (sh_flags s AND SHF_RPL_ZLIB \<noteq> 0), code_data = data\<rparr>"
    by (auto simp: code_section_def split: option.splits if_splits)
  have "name_ok (code_name c)" using assms(3) by (simp add: c copy_section_name_ok)
  moreover have "4 dvd unat (code_size c)" using sz by (simp add: c aligned_nat)
  moreover have "\<not> code_compressed c \<Longrightarrow>
      unat (code_offset c) + unat (code_size c) \<le> unat file_size \<and> code_data c = bytes_at h (code_offset c)"
    using d assms(2) by (auto simp: c decode_section_bytes_def is_code_def rpx_range_fits_nat split: if_splits)
  moreover have "code_compressed c \<Longrightarrow> code_size c = read_be32 h (code_offset c) \<and>
      unat (code_offset c) + 4 \<le> unat file_size \<and> (\<exists>f k. uncompress = Some f \<and>
        f (bytes_at h (code_offset c + 4)) k (ucast (code_size c)) = Some (code_data c, ucast (code_size c)))"
    using d assms(2)
    by (auto simp: c decode_section_bytes_def is_code_def rpx_range_fits_nat Let_def not_less word_le_nat_alt
        split: if_splits option.splits)
  ultimately show ?thesis
    unfolding code_ok_def by (cases "code_compressed c"; simp only: if_True if_False; blast)
qed

lemma collect_code_ok:
  "collect_code uncompress alloc_ok h file_size names names_size ss codes = Done cs \<Longrightarrow>
   \<forall>c \<in> set codes. code_ok uncompress h file_size c \<Longrightarrow> length codes \<le> 64 \<Longrightarrow>
   (\<forall>c \<in> set cs. code_ok uncompress h file_size c) \<and> length cs \<le> 64"
proof (induction ss arbitrary: codes)
  case (Cons s ss)
  from Cons.prems(1) obtain name where name: "section_name_at names names_size (sh_name_offset s) = Done name"
    by (auto split: outcome.splits)
  show ?case
  proof (cases "is_code s")
    case True
    with Cons.prems(1) name obtain c where c: "code_section uncompress alloc_ok h file_size name s = Some c"
      and len: "length codes < 64"
      and rest: "collect_code uncompress alloc_ok h file_size names names_size ss (codes @ [c]) = Done cs"
      by (auto split: if_splits option.splits)
    have "code_ok uncompress h file_size c"
      by (rule code_section_ok [OF c True]) (use name section_name_no_nul in blast)
    with Cons.IH [OF rest] Cons.prems(2) len show ?thesis by auto
  next
    case False
    with Cons name show ?thesis by (auto split: if_splits)
  qed
qed simp

lemma collect_code_names:
  "collect_code uncompress alloc_ok h file_size names names_size ss codes = Fault \<Longrightarrow>
   names = None \<and> names_size \<noteq> 0"
proof (induction ss arbitrary: codes)
  case (Cons s ss)
  show ?case
  proof (cases "section_name_at names names_size (sh_name_offset s)")
    case Fault
    then show ?thesis by (auto simp: section_name_at_def Let_def split: if_splits option.splits)
  next
    case Failed
    then show ?thesis using Cons.prems by simp
  next
    case (Done name)
    then show ?thesis using Cons by (auto split: if_splits option.splits)
  qed
qed simp

lemma rpx_load_checks:
  assumes "rpx_load uncompress alloc_ok (Some (n, h)) \<noteq> Failed"
  shows "rpx_load uncompress alloc_ok (Some (n, h)) =
      rpx_load_sections uncompress alloc_ok h (of_nat n) (read_be32 h 24) (read_be16 h 48)"
    and "read_be32 h 24 AND 3 = 0" and "read_be16 h 46 = ELF_SECTION_SIZE" and "read_be16 h 50 < read_be16 h 48"
  using assms by (auto simp: rpx_load_def not_le split: if_splits)

text \<open>C37: an RPX that loads is sound.  There are between 1 and 64 code sections; each holds whole
  instructions and has a name of 1 to 63 bytes; an uncompressed one is a range of the file, a
  compressed one is what \<open>uncompress\<close> returned with exactly the size its first word announces; and
  the entry point is aligned and inside a code section.\<close>

theorem rpx_layout:
  assumes "rpx_load uncompress alloc_ok (Some (n, h)) = Done rpx"
  shows "unat (rpx_file_size rpx) \<le> n \<and> rpx_entry_point rpx = read_be32 h 24 \<and> 4 dvd unat (rpx_entry_point rpx) \<and>
    1 \<le> length (rpx_code_sections rpx) \<and> length (rpx_code_sections rpx) \<le> 64 \<and>
    (\<forall>c \<in> set (rpx_code_sections rpx). code_ok uncompress h (rpx_file_size rpx) c) \<and>
    (\<exists>c \<in> set (rpx_code_sections rpx). unat (code_address c) \<le> unat (rpx_entry_point rpx) \<and>
      unat (rpx_entry_point rpx) < unat (code_address c) + unat (code_size c))"
proof -
  note checks = rpx_load_checks [of uncompress alloc_ok n h]
  from assms checks obtain names names_size sections codes where
    collect: "collect_code uncompress alloc_ok h (of_nat n) names names_size sections [] = Done codes"
    and rpx: "rpx = \<lparr>rpx_file_data = h, rpx_file_size = of_nat n, rpx_entry_point = read_be32 h 24,
      rpx_section_count = read_be16 h 48, rpx_code_sections = codes\<rparr>"
    and ne: "codes \<noteq> []"
    and entry: "list_ex (\<lambda>c. rpx_address_in_range (read_be32 h 24) (code_address c) (code_size c)) codes"
    by (auto simp: rpx_load_sections_def Let_def split: option.splits outcome.splits if_splits)
  from collect_code_ok [OF collect] ne entry checks(2) assms show ?thesis
    by (auto simp: rpx list_ex_iff rpx_address_in_range_nat aligned_nat unat_of_nat Suc_le_eq)
qed

text \<open>Loading never reads through a NULL pointer, except that it does when the section the
  header names as the string table is a \<open>SHT_NOBITS\<close> section of non-zero size: the decoder then
  returns NULL with a size, and the first name looked up is read through it.\<close>

theorem rpx_null_names:
  assumes "rpx_load uncompress alloc_ok (Some (n, h)) = Fault"
  shows "let names = read_section_header h (read_be32 h 32) 40 (read_be16 h 50)
    in sh_type names = SHT_NOBITS \<and> sh_size names \<noteq> 0"
proof -
  note checks = rpx_load_checks [of uncompress alloc_ok n h, unfolded assms, OF outcome.distinct(6)]
  let ?sections = "map (\<lambda>i. read_section_header h (read_be32 h 32) 40 (of_nat i)) [0..<unat (read_be16 h 48)]"
  let ?names = "?sections ! unat (read_be16 h 50)"
  from checks(1,3) obtain names names_size where
    d: "decode_section_bytes uncompress alloc_ok h (of_nat n) ?names = Some (names, names_size)"
    and collect: "collect_code uncompress alloc_ok h (of_nat n) names names_size ?sections [] = Fault"
    by (auto simp: rpx_load_sections_def Let_def split: option.splits outcome.splits if_splits)
  from collect_code_names [OF collect] d have "sh_type ?names = SHT_NOBITS \<and> sh_size ?names \<noteq> 0"
    by (auto simp: decode_section_bytes_def Let_def split: if_splits option.splits)
  with checks(4) show ?thesis by (simp add: Let_def word_less_nat_alt)
qed

text \<open>A file whose second section holds four bytes of code at 0x02000000; the string table is the
  first section, of the given type and eight bytes.\<close>

definition demo_rpx :: "u8 \<Rightarrow> bytes" where
  "demo_rpx ty = (\<lambda>_. 0)(0 := 0x7F, 1 := 0x45, 2 := 0x4C, 3 := 0x46, 4 := 1, 5 := 2, 6 := 1, 0x10 := 0xFE, 0x11 := 1,
     0x13 := 20, 0x18 := 2, 0x23 := 0x34, 0x2F := 40, 0x31 := 2, 0x3B := ty, 0x47 := 0x84, 0x4B := 8,
     0x63 := 1, 0x67 := 4, 0x68 := 2, 0x6F := 0x8C, 0x73 := 4, 0x85 := 0x2E, 0x86 := 0x74)"

lemma demo_rpx_words:
  "elf_ident_ok (demo_rpx ty)" "read_be16 (demo_rpx ty) 16 = 0xFE01" "read_be16 (demo_rpx ty) 18 = 20"
  "read_be32 (demo_rpx ty) 24 = 0x02000000" "read_be32 (demo_rpx ty) 32 = 0x34" "read_be16 (demo_rpx ty) 46 = 40"
  "read_be16 (demo_rpx ty) 48 = 2" "read_be16 (demo_rpx ty) 50 = 0"
  by (simp_all add: elf_ident_ok_def read_be32_bytes read_be16_bytes demo_rpx_def)

lemma demo_rpx_sections:
  "read_section_header (demo_rpx ty) 0x34 40 0 =
     \<lparr>sh_name_offset = 0, sh_type = ucast ty, sh_flags = 0, sh_address = 0, sh_offset = 0x84, sh_size = 8,
      sh_link = 0, sh_info = 0, sh_alignment = 0, sh_entry_size = 0\<rparr>"
  "read_section_header (demo_rpx ty) 0x34 40 1 =
     \<lparr>sh_name_offset = 0, sh_type = 1, sh_flags = 4, sh_address = 0x02000000, sh_offset = 0x8C, sh_size = 4,
      sh_link = 0, sh_info = 0, sh_alignment = 0, sh_entry_size = 0\<rparr>"
  by (simp_all add: read_section_header_def read_be32_bytes demo_rpx_def)

lemma rpx_layout_witness:
  "\<exists>rpx. rpx_load None (\<lambda>_. True) (Some (0x90, demo_rpx 3)) = Done rpx \<and>
     (\<exists>c \<in> set (rpx_code_sections rpx). unat (code_address c) \<le> 0x02000000 \<and>
        0x02000000 < unat (code_address c) + unat (code_size c))"
proof -
  have "\<exists>rpx. rpx_load None (\<lambda>_. True) (Some (0x90, demo_rpx 3)) = Done rpx"
    by (simp add: rpx_load_def rpx_load_sections_def demo_rpx_words demo_rpx_sections upt_rec Let_def
        decode_section_bytes_def rpx_range_fits_def section_name_at_def table_from_def bytes_at_def is_code_def
        code_section_def rpx_address_in_range_def)
  then obtain rpx where r: "rpx_load None (\<lambda>_. True) (Some (0x90, demo_rpx 3)) = Done rpx" ..
  from rpx_layout [OF r] r show ?thesis by (auto simp: demo_rpx_words)
qed

lemma rpx_null_names_witness:
  "rpx_load None (\<lambda>_. True) (Some (0x90, demo_rpx 8)) = Fault \<and>
   sh_type (read_section_header (demo_rpx 8) 0x34 40 0) = SHT_NOBITS"
proof -
  have r: "rpx_load None (\<lambda>_. True) (Some (0x90, demo_rpx 8)) = Fault"
    by (simp add: rpx_load_def rpx_load_sections_def demo_rpx_words demo_rpx_sections upt_rec Let_def
        decode_section_bytes_def rpx_range_fits_def section_name_at_def)
  from rpx_null_names [OF r] r show ?thesis by (simp add: demo_rpx_words Let_def)
qed

end
