(* ===== verification/Loader.thy ===== *)
theory Loader
  imports RelImage Dol Rpx Analysis
begin

text \<open>
  The loading half of src/DolRecomp/src/loader.c: the words a code section may hold that are not
  instructions, the list of code sections each image format hands to the emitter, and the
  loading of a directory of modules: every image at its own base, then all relocations.

  The files of the directory are the parameter \<open>files\<close>, in the sorted order of the code; what is
  emitted for a module is \<open>rel_code_sections\<close>, writing it is output.  A failure prints a message
  and gives up the whole directory: \<open>None\<close>.
\<close>

section \<open>Embedded data\<close>

definition rpx_embedded_data_word :: "u32 \<Rightarrow> bool" where
  "rpx_embedded_data_word raw \<longleftrightarrow> raw = 0x00400000 \<or> raw = 0x00600000"

text \<open>The loop over the four bytes: \<open>None\<close> when it meets a byte that is neither printable nor NUL.\<close>

fun count_printable :: "u8 list \<Rightarrow> nat \<Rightarrow> nat option" where
  "count_printable [] printable = Some printable"
| "count_printable (b # bs) printable =
    (if b \<ge> 0x20 \<and> b \<le> 0x7E then count_printable bs (printable + 1)
     else if b \<noteq> 0 then None
     else count_printable bs printable)"

definition word_bytes_are_text :: "u32 \<Rightarrow> bool" where
  "word_bytes_are_text raw =
    (case count_printable [ucast (drop_bit 24 raw), ucast (drop_bit 16 raw), ucast (drop_bit 8 raw), ucast raw] 0 of
       None \<Rightarrow> False
     | Some printable \<Rightarrow> printable \<ge> 3)"

definition dol_embedded_data_word :: "u32 \<Rightarrow> bool" where
  "dol_embedded_data_word raw =
    (if raw = 0 then True
     else if drop_bit 26 raw = 0 then True
     else if word_bytes_are_text raw then True
     else False)"

definition embedded_data_word :: "EmbeddedDataMode \<Rightarrow> u32 \<Rightarrow> bool" where
  "embedded_data_word mode raw = (case mode of
     EMBEDDED_DATA_DOL \<Rightarrow> dol_embedded_data_word raw
   | EMBEDDED_DATA_RPX \<Rightarrow> rpx_embedded_data_word raw
   | _ \<Rightarrow> False)"

section \<open>The code sections of an image\<close>

definition dol_section :: "DOLFile \<Rightarrow> u32 \<Rightarrow> LoadedCodeSection option" where
  "dol_section dol i =
    (if text_sizes (dol_header dol) ! unat i = 0 then None
     else case dol_get_text_section dol (int (unat i)) of
       None \<Rightarrow> None
     | Some off \<Rightarrow>
         Some \<lparr>sec_label = ''text'', sec_name = None, sec_data = bytes_at (the (dol_file_data dol)) off,
           sec_index = i, sec_file_offset = text_offsets (dol_header dol) ! unat i,
           sec_address = text_addresses (dol_header dol) ! unat i,
           sec_size = text_sizes (dol_header dol) ! unat i, sec_mode = EMBEDDED_DATA_DOL\<rparr>)"

definition dol_code_sections :: "DOLFile \<Rightarrow> LoadedCodeSection list" where
  "dol_code_sections dol = List.map_filter (dol_section dol) (map of_nat [0..<DOL_NUM_TEXT])"

definition rpx_code_section :: "u32 \<Rightarrow> RPXCodeSection \<Rightarrow> LoadedCodeSection" where
  "rpx_code_section i code =
    \<lparr>sec_label = ''rpx'', sec_name = Some (map (\<lambda>b. char_of (unat b)) (code_name code)),
     sec_data = code_data code, sec_index = i, sec_file_offset = code_offset code,
     sec_address = code_address code, sec_size = code_size code, sec_mode = EMBEDDED_DATA_RPX\<rparr>"

definition rpx_loaded_sections :: "RPXFile \<Rightarrow> LoadedCodeSection list" where
  "rpx_loaded_sections rpx =
    map (\<lambda>i. rpx_code_section (of_nat i) (rpx_code_sections rpx ! i)) [0..<length (rpx_code_sections rpx)]"

definition rel_section :: "RELSection \<Rightarrow> LoadedCodeSection option" where
  "rel_section s =
    (if \<not> rs_executable s \<or> rs_size s = 0 then None
     else case rs_data s of
       None \<Rightarrow> None
     | Some d \<Rightarrow>
         Some \<lparr>sec_label = ''rel'', sec_name = None, sec_data = d, sec_index = rs_index s,
           sec_file_offset = rs_offset s, sec_address = rs_address s, sec_size = rs_size s,
           sec_mode = EMBEDDED_DATA_DOL\<rparr>)"

definition rel_code_sections :: "RELFile \<Rightarrow> LoadedCodeSection list" where
  "rel_code_sections rel = List.map_filter rel_section (rel_sections rel)"

section \<open>A directory of modules\<close>

abbreviation REL_AUTO_ALIGN :: u32 where "REL_AUTO_ALIGN \<equiv> 0x10000"

definition align_up_cli :: "u32 \<Rightarrow> u32 \<Rightarrow> u32 option" where
  "align_up_cli value alignment =
    (let result = (ucast value + ucast alignment - 1 :: u64) div ucast alignment * ucast alignment
     in if result > 0xFFFFFFFF then None else Some (ucast result))"

definition next_rel_base :: "RELFile \<Rightarrow> u32 option" where
  "next_rel_base rel =
    (if rel_file_size rel > 0xFFFFFFFF - rel_base_address rel \<or>
        rel_bss_size rel > 0xFFFFFFFF - rel_base_address rel - rel_file_size rel then None
     else align_up_cli (rel_base_address rel + rel_file_size rel + rel_bss_size rel) REL_AUTO_ALIGN)"

fun check_duplicate_rel_module :: "RELFile list \<Rightarrow> u32 \<Rightarrow> bool" where
  "check_duplicate_rel_module [] module_id = True"
| "check_duplicate_rel_module (item # items) module_id =
    (if rel_module_id item = module_id then False else check_duplicate_rel_module items module_id)"

fun load_modules ::
  "(u32 \<Rightarrow> bool) \<Rightarrow> (nat \<times> bytes) option list \<Rightarrow> RELFile list \<Rightarrow> u32 \<Rightarrow> RELFile list option" where
  "load_modules alloc_ok [] items cursor = Some items"
| "load_modules alloc_ok (file # files) items cursor =
    (case rel_load_image alloc_ok file cursor of
       None \<Rightarrow> None
     | Some rel \<Rightarrow>
         if \<not> check_duplicate_rel_module items (rel_module_id rel) then None
         else case next_rel_base rel of
           None \<Rightarrow> None
         | Some cursor \<Rightarrow> load_modules alloc_ok files (items @ [rel]) cursor)"

definition map_entry :: "RELFile \<Rightarrow> RELModuleMapEntry" where
  "map_entry rel = \<lparr>map_module_id = rel_module_id rel, map_rel = rel\<rparr>"

fun relocate_modules :: "RELFile list \<Rightarrow> RELFile list \<Rightarrow> RELFile list option" where
  "relocate_modules relocated [] = Some relocated"
| "relocate_modules relocated (rel # rels) =
    (case rel_apply_relocations rel (Some (map map_entry (relocated @ rel # rels))) of
       None \<Rightarrow> None
     | Some rel \<Rightarrow> relocate_modules (relocated @ [rel]) rels)"

definition link_rel_directory ::
  "(u32 \<Rightarrow> bool) \<Rightarrow> (nat \<times> bytes) option list \<Rightarrow> u32 \<Rightarrow> RELFile list option" where
  "link_rel_directory alloc_ok files start_base =
    (if files = [] then None
     else case load_modules alloc_ok files [] start_base of
       None \<Rightarrow> None
     | Some items \<Rightarrow> relocate_modules [] items)"

section \<open>What linking a directory promises\<close>

lemma align_up_cli_spec: "align_up_cli v 0x10000 = Some w \<Longrightarrow> unat v \<le> unat w \<and> 0x10000 dvd unat w"
proof -
  assume "align_up_cli v 0x10000 = Some w"
  then have "align_up_u32 v 0x10000 = Some w"
    by (simp add: align_up_cli_def align_up_u32_def word_le_nat_alt)
  from align_up_u32_spec [OF this] show "unat v \<le> unat w \<and> 0x10000 dvd unat w"
    by (simp add: word_less_nat_alt)
qed

lemma next_rel_base_spec:
  assumes "next_rel_base rel = Some b"
  shows "unat (rel_base_address rel) + unat (rel_file_size rel) + unat (rel_bss_size rel) \<le> unat b \<and> 0x10000 dvd unat b"
proof -
  let ?a = "rel_base_address rel" and ?f = "rel_file_size rel" and ?s = "rel_bss_size rel"
  from assms have guards: "\<not> ?f > 0xFFFFFFFF - ?a" "\<not> ?s > 0xFFFFFFFF - ?a - ?f"
    and b: "align_up_cli (?a + ?f + ?s) 0x10000 = Some b"
    by (auto simp: next_rel_base_def split: if_splits)
  from guards(1) have af: "unat (?a + ?f) = unat ?a + unat ?f"
    using add_u32_checked_unat [of ?a ?f "?a + ?f"] by (simp add: add_u32_checked_def)
  from guards(2) have "\<not> ?s > 0xFFFFFFFF - (?a + ?f)" by (simp add: diff_diff_eq)
  then have "unat (?a + ?f + ?s) = unat (?a + ?f) + unat ?s"
    using add_u32_checked_unat [of "?a + ?f" ?s "?a + ?f + ?s"] by (simp add: add_u32_checked_def)
  with af align_up_cli_spec [OF b] show ?thesis by simp
qed

lemma check_duplicate_iff: "check_duplicate_rel_module items m \<longleftrightarrow> m \<notin> rel_module_id ` set items"
  by (induction items) auto

text \<open>The images of a directory, in order: each at the base the one before it leaves.\<close>

fun loaded_chain :: "(u32 \<Rightarrow> bool) \<Rightarrow> (nat \<times> bytes) option list \<Rightarrow> u32 \<Rightarrow> RELFile list \<Rightarrow> bool" where
  "loaded_chain alloc_ok [] base [] \<longleftrightarrow> True"
| "loaded_chain alloc_ok (f # fs) base (r # rs) \<longleftrightarrow> rel_load_image alloc_ok f base = Some r \<and>
     (\<exists>b. next_rel_base r = Some b \<and> loaded_chain alloc_ok fs b rs)"
| "loaded_chain alloc_ok fs base rs \<longleftrightarrow> False"

lemma load_modules_chain:
  "load_modules alloc_ok files items base = Some rels \<Longrightarrow> distinct (map rel_module_id items) \<Longrightarrow>
   \<exists>new. rels = items @ new \<and> loaded_chain alloc_ok files base new \<and> distinct (map rel_module_id rels)"
proof (induction files arbitrary: items base)
  case (Cons f files)
  then obtain r b where r: "rel_load_image alloc_ok f base = Some r" "next_rel_base r = Some b"
    "rel_module_id r \<notin> rel_module_id ` set items" "load_modules alloc_ok files (items @ [r]) b = Some rels"
    by (auto simp: check_duplicate_iff split: option.splits if_splits)
  with Cons.prems(2) have "distinct (map rel_module_id (items @ [r]))" by simp
  from Cons.IH [OF r(4) this] r show ?case by auto
qed auto

lemma chain_length: "loaded_chain alloc_ok fs base rs \<Longrightarrow> length rs = length fs"
  by (induction alloc_ok fs base rs rule: loaded_chain.induct) auto

lemma chain_images:
  "loaded_chain alloc_ok fs base rs \<Longrightarrow> i < length rs \<Longrightarrow>
   rel_load_image alloc_ok (fs ! i) (rel_base_address (rs ! i)) = Some (rs ! i)"
proof (induction alloc_ok fs base rs arbitrary: i rule: loaded_chain.induct)
  case (2 alloc_ok f fs base r rs)
  then show ?case by (cases i) (auto dest: rel_load_image_fields(1))
qed auto

lemma chain_bases:
  "loaded_chain alloc_ok fs base rs \<Longrightarrow> i < length rs \<Longrightarrow>
   unat base \<le> unat (rel_base_address (rs ! i)) \<and> (0 < i \<or> 0x10000 dvd unat base \<longrightarrow> 0x10000 dvd unat (rel_base_address (rs ! i)))"
proof (induction alloc_ok fs base rs arbitrary: i rule: loaded_chain.induct)
  case (2 alloc_ok f fs base r rs)
  then obtain b where b: "next_rel_base r = Some b" "loaded_chain alloc_ok fs b rs"
    and r: "rel_base_address r = base" by (auto dest: rel_load_image_fields(1))
  from next_rel_base_spec [OF b(1)] r "2.IH" [OF b(2)] "2.prems"(2) show ?case
    by (cases i) fastforce+
qed auto

lemma chain_apart:
  "loaded_chain alloc_ok fs base rs \<Longrightarrow> i < j \<Longrightarrow> j < length rs \<Longrightarrow>
   unat (rel_base_address (rs ! i)) + unat (rel_file_size (rs ! i)) + unat (rel_bss_size (rs ! i))
     \<le> unat (rel_base_address (rs ! j))"
proof (induction alloc_ok fs base rs arbitrary: i j rule: loaded_chain.induct)
  case (2 alloc_ok f fs base r rs)
  then obtain b where b: "next_rel_base r = Some b" "loaded_chain alloc_ok fs b rs" by auto
  obtain k where j: "j = Suc k" "k < length rs" using "2.prems" by (cases j) auto
  from next_rel_base_spec [OF b(1)] chain_bases [OF b(2) j(2)] "2.IH" [OF b(2), of _ k] "2.prems" j
  show ?case by (cases i) auto
qed auto

lemma kept_headers:
  "kept r s \<Longrightarrow> rel_module_id s = rel_module_id r \<and> rel_base_address s = rel_base_address r \<and>
    rel_file_size s = rel_file_size r \<and> rel_bss_size s = rel_bss_size r"
  unfolding kept_def by (cases r; cases s) auto

lemma relocate_modules_keeps:
  "relocate_modules relocated rels = Some out \<Longrightarrow>
   \<forall>r \<in> set rels. with_data (rel_sections r) \<and> length (rel_sections r) = unat (rel_section_count r) \<Longrightarrow>
   \<exists>new. out = relocated @ new \<and> list_all2 kept rels new"
proof (induction rels arbitrary: relocated)
  case (Cons r rels)
  then obtain r' where r': "rel_apply_relocations r (Some (map map_entry (relocated @ r # rels))) = Some r'"
    and rest: "relocate_modules (relocated @ [r']) rels = Some out" by (auto split: option.splits)
  from r' Cons.prems(2) have "kept r r'" by (auto intro: rel_apply_relocations_keeps)
  moreover from Cons.IH [OF rest] Cons.prems(2)
  obtain new where "out = (relocated @ [r']) @ new" "list_all2 kept rels new" by auto
  ultimately show ?case by auto
qed auto

lemma find_module_nth:
  "distinct (map rel_module_id rs) \<Longrightarrow> i < length rs \<Longrightarrow>
   find_module (map map_entry rs) (rel_module_id (rs ! i)) = Some (rs ! i)"
proof (induction rs arbitrary: i)
  case (Cons r rs)
  show ?case
  proof (cases i)
    case (Suc k)
    with Cons.prems have "rs ! k \<in> set rs" by simp
    moreover from Cons.prems have "rel_module_id r \<notin> rel_module_id ` set rs" by simp
    ultimately have "rel_module_id (rs ! k) \<noteq> rel_module_id r" by (metis imageI)
    with Suc Cons show ?thesis by (simp add: map_entry_def)
  qed (simp add: map_entry_def)
qed simp

text \<open>C27: a directory that links keeps its modules apart.  There is one module per file, with
  distinct ids; each is its file's image at its own base, changed only in the bytes of its sections
  (\<open>kept\<close>); the ranges of file and BSS the headers announce do not overlap, later bases are
  multiples of 64 KB, and an import of a module's id finds that module.\<close>

theorem rel_directory_apart:
  assumes "link_rel_directory alloc_ok files start_base = Some rels"
  shows "length rels = length files \<and> distinct (map rel_module_id rels) \<and>
    (\<forall>i < length rels. find_module (map map_entry rels) (rel_module_id (rels ! i)) = Some (rels ! i) \<and>
      (0 < i \<longrightarrow> 0x10000 dvd unat (rel_base_address (rels ! i))) \<and>
      (\<exists>img. rel_load_image alloc_ok (files ! i) (rel_base_address (rels ! i)) = Some img \<and> kept img (rels ! i))) \<and>
    (\<forall>i j. i < j \<and> j < length rels \<longrightarrow>
      unat (rel_base_address (rels ! i)) + unat (rel_file_size (rels ! i)) + unat (rel_bss_size (rels ! i))
        \<le> unat (rel_base_address (rels ! j)))"
proof -
  from assms obtain items where items: "load_modules alloc_ok files [] start_base = Some items"
    and rel: "relocate_modules [] items = Some rels"
    by (auto simp: link_rel_directory_def split: if_splits option.splits)
  from load_modules_chain [OF items] have chain: "loaded_chain alloc_ok files start_base items"
    and ids: "distinct (map rel_module_id items)" by auto
  have "\<forall>r \<in> set items. with_data (rel_sections r) \<and> length (rel_sections r) = unat (rel_section_count r)"
    using rel_load_image_fields(2,3) [OF chain_images [OF chain]] by (auto simp: in_set_conv_nth)
  from relocate_modules_keeps [OF rel this] have kept: "list_all2 kept items rels" by simp
  have len: "length rels = length items" using kept by (simp add: list_all2_lengthD)
  have k: "kept (items ! i) (rels ! i)" if "i < length rels" for i
    using kept that len by (simp add: list_all2_conv_all_nth)
  note same = kept_headers [OF k]
  have "map rel_module_id rels = map rel_module_id items"
    using len same by (auto intro: nth_equalityI)
  then have d: "distinct (map rel_module_id rels)" using ids by simp
  moreover have "length rels = length files" using len chain_length [OF chain] by simp
  moreover have "\<exists>img. rel_load_image alloc_ok (files ! i) (rel_base_address (rels ! i)) = Some img \<and> kept img (rels ! i)"
    if "i < length rels" for i
    using chain_images [OF chain, of i] k [OF that] same [OF that] that len by auto
  moreover have "0 < i \<longrightarrow> 0x10000 dvd unat (rel_base_address (rels ! i))" if "i < length rels" for i
    using chain_bases [OF chain, of i] same [OF that] that len by auto
  moreover have "unat (rel_base_address (rels ! i)) + unat (rel_file_size (rels ! i)) + unat (rel_bss_size (rels ! i))
      \<le> unat (rel_base_address (rels ! j))" if "i < j" "j < length rels" for i j
    using chain_apart [OF chain that(1)] same [OF that(2)] same [of i] that len by auto
  ultimately show ?thesis using find_module_nth [OF d] by blast
qed


lemma rel_directory_apart_witness:
  "\<exists>rels. link_rel_directory (\<lambda>_. True) [Some (0x64, demo_rel 7), Some (0x64, demo_rel 8)] 0x80500000 = Some rels \<and>
     length rels = 2 \<and> unat (rel_base_address (rels ! 0)) + unat (rel_file_size (rels ! 0)) +
       unat (rel_bss_size (rels ! 0)) \<le> unat (rel_base_address (rels ! 1))"
proof -
  from demo_rel_loads [of "0x80500000" 7] obtain r
    where r: "rel_load_image (\<lambda>_. True) (Some (0x64, demo_rel 7)) 0x80500000 = Some r"
      "rel_module_id r = 7" "rel_import_size r = 0" "rel_file_size r = 0x64" "rel_bss_size r = 8"
      "rel_base_address r = 0x80500000"
    by (auto split: option.splits)
  from demo_rel_loads [of "0x80510000" 8] obtain s
    where s: "rel_load_image (\<lambda>_. True) (Some (0x64, demo_rel 8)) 0x80510000 = Some s"
      "rel_module_id s = 8" "rel_import_size s = 0" "rel_file_size s = 0x64" "rel_bss_size s = 8"
      "rel_base_address s = 0x80510000"
    by (auto split: option.splits)
  have next1: "next_rel_base r = Some 0x80510000" "next_rel_base s = Some 0x80520000"
    using r s by (simp_all add: next_rel_base_def align_up_cli_def)
  have "\<exists>rels. link_rel_directory (\<lambda>_. True) [Some (0x64, demo_rel 7), Some (0x64, demo_rel 8)] 0x80500000 = Some rels"
    using r s next1 by (simp add: link_rel_directory_def rel_apply_relocations_def Let_def)
  then obtain rels where rels: "link_rel_directory (\<lambda>_. True)
      [Some (0x64, demo_rel 7), Some (0x64, demo_rel 8)] 0x80500000 = Some rels" ..
  have len: "length rels = 2" using rel_directory_apart [OF rels] by simp
  moreover from this rel_directory_apart [OF rels] have "unat (rel_base_address (rels ! 0)) +
      unat (rel_file_size (rels ! 0)) + unat (rel_bss_size (rels ! 0)) \<le> unat (rel_base_address (rels ! 1))"
    by (metis one_less_numeral_iff semiring_norm(76) zero_less_one)
  ultimately show ?thesis using rels by blast
qed

text \<open>A module of 0xFFFD bytes with one instruction and a BSS section of three bytes, as its header
  says.\<close>

definition demo_bss :: bytes where
  "demo_bss = (\<lambda>_. 0)(0xF := 2, 0x13 := 0x48, 0x23 := 3, 0x43 := 4, 0x47 := 4, 0x4B := 0x59, 0x4F := 4,
     0x57 := 3, 0x58 := 0x4E, 0x59 := 0x80, 0x5B := 0x20)"

lemma demo_bss_words:
  "read_be32 demo_bss 0xC = 2" "read_be32 demo_bss 0x10 = 0x48" "read_be32 demo_bss 0x20 = 3"
  "read_be32 demo_bss 0x40 = 4" "read_be32 demo_bss 0x44 = 4" "read_be32 demo_bss 0x48 = 0x59"
  "read_be32 demo_bss 0x4C = 4" "read_be32 demo_bss 0x50 = 0" "read_be32 demo_bss 0x54 = 3"
  "demo_bss 0x30 = 0" "demo_bss 0x31 = 0" "demo_bss 0x32 = 0"
  by (simp_all add: read_be32_bytes demo_bss_def)

text \<open>The separation of modules is not kept by their BSS sections.  \<open>next_rel_base\<close> adds the BSS
  size to the unaligned end of the file, while \<open>rel_load_image\<close> first aligns that end: this module's
  BSS section, of the size its header announces, lies exactly where the next module is loaded.\<close>

theorem rel_bss_overlaps_next:
  "\<exists>rel s. rel_load_image (\<lambda>_. True) (Some (0xFFFD, demo_bss)) 0x80500000 = Some rel \<and>
     s \<in> set (rel_sections rel) \<and> rs_bss s \<and> rs_size s = rel_bss_size rel \<and>
     next_rel_base rel = Some (rs_address s)"
proof -
  let ?s = "(section_entry demo_bss 0x50 1)\<lparr>rs_address := 0x80510000\<rparr>"
  let ?ss = "[(section_entry demo_bss 0x48 0)\<lparr>rs_address := 0x80500058, rs_data := Some (copy_out demo_bss 0x58 4)\<rparr>, ?s]"
  have load: "load_sections (\<lambda>_. True) demo_bss 0xFFFD 0x80500000 0x48 4 4 0x80510000 0 (Suc (Suc 0)) = Some ?ss"
    by (simp add: section_entry_def demo_bss_words place_bss_def place_file_section_def
        range_fits_def add_u32_checked_def align_up_u32_def Let_def word_le_nat_alt)
  let ?rel = "rel_header demo_bss 0xFFFD 0x80500000\<lparr>rel_sections := ?ss\<rparr>"
  have "rel_validate ?rel = Some ?rel"
    by (simp add: rel_validate_def validate_entry_def section_entry_def demo_bss_words rel_header_def)
  then have "rel_load_image (\<lambda>_. True) (Some (0xFFFD, demo_bss)) 0x80500000 = Some ?rel"
    by (simp add: rel_load_image_def read_file_def rel_header_def demo_bss_words range_fits_def add_u32_checked_def
        align_up_u32_def Let_def word_le_nat_alt load [unfolded numeral_2_eq_2 [symmetric]])
  moreover have "rs_bss ?s" "rs_size ?s = rel_bss_size ?rel"
    by (simp_all add: section_entry_def demo_bss_words rel_header_def)
  moreover have "next_rel_base ?rel = Some (rs_address ?s)"
    by (simp add: next_rel_base_def rel_header_def demo_bss_words align_up_cli_def)
  moreover have "?s \<in> set (rel_sections ?rel)" by simp
  ultimately show ?thesis by (intro exI [of _ ?rel] exI [of _ ?s] conjI)
qed

end
