(* ===== verification/Jobs.thy ===== *)
theory Jobs
  imports Prelude "HOL-Library.Multiset"
begin

text \<open>
  The chunk-emission thread pool of src/DolRecomp/src/jobs.c (the pthread build): a queue of jobs
  behind a mutex, workers that take and emit them, and the function that starts the workers,
  joins them and reports the result.

  The critical sections of \<open>queue_take_job\<close> and \<open>queue_mark_failed\<close> are atomic steps (that is
  what the mutex gives), and the steps of the workers and of the creating thread interleave in
  any order.  Parameters: whether emitting job \<open>j\<close> succeeds (file output and the emitter) and
  whether starting the \<open>k\<close>-th thread succeeds.  The logs \<open>emitted\<close> and \<open>dropped\<close> are not in the
  code: they record the jobs whose file was written and those whose emission failed.
\<close>

section \<open>The queue\<close>

record WorkerQueue =
  job_count :: u32
  next_job :: u32
  failed :: bool

definition queue_init :: "u32 \<Rightarrow> WorkerQueue" where
  "queue_init jobs = \<lparr>job_count = jobs, next_job = 0, failed = False\<rparr>"

definition queue_take_job :: "WorkerQueue \<Rightarrow> WorkerQueue \<times> u32 option" where
  "queue_take_job q =
    (if \<not> failed q \<and> next_job q < job_count q then (q\<lparr>next_job := next_job q + 1\<rparr>, Some (next_job q))
     else (q, None))"

definition queue_mark_failed :: "WorkerQueue \<Rightarrow> WorkerQueue" where
  "queue_mark_failed q = q\<lparr>failed := True\<rparr>"

section \<open>The pool\<close>

text \<open>Where a worker is in \<open>chunk_worker_main\<close>: about to take a job, emitting one, about to mark
  the queue failed, or returned.\<close>

datatype worker = Taking | Emitting u32 | Marking | Exited

text \<open>Where \<open>run_chunk_jobs\<close> is: starting workers, joining them, or back with its result.\<close>

datatype phase = Creating | Joining | Returned bool

record pool =
  queue :: WorkerQueue
  workers :: "worker list"
  pool_phase :: phase
  emitted :: "u32 list"
  dropped :: "u32 list"

definition pool_init :: "u32 \<Rightarrow> pool" where
  "pool_init jobs = \<lparr>queue = queue_init jobs, workers = [], pool_phase = Creating, emitted = [], dropped = []\<rparr>"

inductive pool_step :: "(nat \<Rightarrow> bool) \<Rightarrow> (u32 \<Rightarrow> bool) \<Rightarrow> u32 \<Rightarrow> pool \<Rightarrow> pool \<Rightarrow> bool"
  for spawn_ok job_ok requested where
  spawn: "pool_phase s = Creating \<Longrightarrow> length (workers s) < unat requested \<Longrightarrow> spawn_ok (length (workers s)) \<Longrightarrow>
    pool_step spawn_ok job_ok requested s (s\<lparr>workers := workers s @ [Taking]\<rparr>)"
| spawn_fails: "pool_phase s = Creating \<Longrightarrow> length (workers s) < unat requested \<Longrightarrow> \<not> spawn_ok (length (workers s)) \<Longrightarrow>
    pool_step spawn_ok job_ok requested s (s\<lparr>queue := queue_mark_failed (queue s), pool_phase := Joining\<rparr>)"
| spawned: "pool_phase s = Creating \<Longrightarrow> \<not> length (workers s) < unat requested \<Longrightarrow>
    pool_step spawn_ok job_ok requested s (s\<lparr>pool_phase := Joining\<rparr>)"
| joined: "pool_phase s = Joining \<Longrightarrow> list_all (\<lambda>w. w = Exited) (workers s) \<Longrightarrow>
    pool_step spawn_ok job_ok requested s (s\<lparr>pool_phase := Returned (\<not> failed (queue s))\<rparr>)"
| take: "t < length (workers s) \<Longrightarrow> workers s ! t = Taking \<Longrightarrow> queue_take_job (queue s) = (q, Some j) \<Longrightarrow>
    pool_step spawn_ok job_ok requested s (s\<lparr>queue := q, workers := (workers s)[t := Emitting j]\<rparr>)"
| no_job: "t < length (workers s) \<Longrightarrow> workers s ! t = Taking \<Longrightarrow> queue_take_job (queue s) = (q, None) \<Longrightarrow>
    pool_step spawn_ok job_ok requested s (s\<lparr>queue := q, workers := (workers s)[t := Exited]\<rparr>)"
| emit: "t < length (workers s) \<Longrightarrow> workers s ! t = Emitting j \<Longrightarrow> job_ok j \<Longrightarrow>
    pool_step spawn_ok job_ok requested s (s\<lparr>workers := (workers s)[t := Taking], emitted := emitted s @ [j]\<rparr>)"
| emit_fails: "t < length (workers s) \<Longrightarrow> workers s ! t = Emitting j \<Longrightarrow> \<not> job_ok j \<Longrightarrow>
    pool_step spawn_ok job_ok requested s (s\<lparr>workers := (workers s)[t := Marking], dropped := dropped s @ [j]\<rparr>)"
| mark: "t < length (workers s) \<Longrightarrow> workers s ! t = Marking \<Longrightarrow>
    pool_step spawn_ok job_ok requested s
      (s\<lparr>queue := queue_mark_failed (queue s), workers := (workers s)[t := Exited]\<rparr>)"

text \<open>The single-threaded path, and the clamping of the requested thread count.\<close>

fun emit_in_order :: "(u32 \<Rightarrow> bool) \<Rightarrow> u32 list \<Rightarrow> bool" where
  "emit_in_order job_ok [] = True"
| "emit_in_order job_ok (j # js) = (if \<not> job_ok j then False else emit_in_order job_ok js)"

definition effective_chunk_jobs :: "u32 \<Rightarrow> u32 \<Rightarrow> u32" where
  "effective_chunk_jobs jobs requested_jobs =
    (if jobs = 0 then 0
     else let requested_jobs = (if requested_jobs = 0 then 1 else requested_jobs)
     in if requested_jobs > jobs then jobs else requested_jobs)"

text \<open>\<open>run_chunk_jobs\<close> can return \<open>r\<close>; \<open>init_ok\<close> tells whether the mutex and the thread table can be
  created.\<close>

definition job_list :: "u32 \<Rightarrow> u32 list" where
  "job_list jobs = map of_nat [0..<unat jobs]"

definition run_chunk_jobs :: "bool \<Rightarrow> (nat \<Rightarrow> bool) \<Rightarrow> (u32 \<Rightarrow> bool) \<Rightarrow> u32 \<Rightarrow> u32 \<Rightarrow> bool \<Rightarrow> bool" where
  "run_chunk_jobs init_ok spawn_ok job_ok jobs requested_jobs r \<longleftrightarrow>
    (if jobs = 0 then r
     else let requested = effective_chunk_jobs jobs requested_jobs
     in if requested = 1 then r = emit_in_order job_ok (job_list jobs)
        else if \<not> init_ok then r = False
        else \<exists>s. (pool_step spawn_ok job_ok requested)\<^sup>*\<^sup>* (pool_init jobs) s \<and> pool_phase s = Returned r)"

section \<open>Invariant\<close>

primrec jobs_in :: "worker list \<Rightarrow> u32 list" where
  "jobs_in [] = []"
| "jobs_in (w # ws) = (case w of Emitting j \<Rightarrow> j # jobs_in ws | _ \<Rightarrow> jobs_in ws)"

definition logs_ok :: "(u32 \<Rightarrow> bool) \<Rightarrow> pool \<Rightarrow> bool" where
  "logs_ok job_ok s \<longleftrightarrow>
     mset (emitted s) + mset (jobs_in (workers s)) + mset (dropped s) = mset (job_list (next_job (queue s))) \<and>
     (\<forall>j \<in> set (emitted s). job_ok j) \<and> (\<forall>j \<in> set (dropped s). \<not> job_ok j)"

definition failure_ok :: "(nat \<Rightarrow> bool) \<Rightarrow> u32 \<Rightarrow> pool \<Rightarrow> bool" where
  "failure_ok spawn_ok requested s \<longleftrightarrow>
     (dropped s \<noteq> [] \<longrightarrow> Marking \<in> set (workers s) \<or> failed (queue s)) \<and>
     (Marking \<in> set (workers s) \<longrightarrow> dropped s \<noteq> []) \<and>
     (failed (queue s) \<longrightarrow> dropped s \<noteq> [] \<or> (\<exists>k < unat requested. \<not> spawn_ok k))"

definition progress_ok :: "u32 \<Rightarrow> u32 \<Rightarrow> pool \<Rightarrow> bool" where
  "progress_ok jobs requested s \<longleftrightarrow>
     job_count (queue s) = jobs \<and> next_job (queue s) \<le> jobs \<and> length (workers s) \<le> unat requested \<and>
     (Exited \<in> set (workers s) \<longrightarrow> failed (queue s) \<or> next_job (queue s) = jobs) \<and>
     (pool_phase s \<noteq> Creating \<longrightarrow> failed (queue s) \<or> length (workers s) = unat requested) \<and>
     (\<forall>r. pool_phase s = Returned r \<longrightarrow> list_all (\<lambda>w. w = Exited) (workers s) \<and> r = (\<not> failed (queue s)))"

definition pool_ok :: "(nat \<Rightarrow> bool) \<Rightarrow> (u32 \<Rightarrow> bool) \<Rightarrow> u32 \<Rightarrow> u32 \<Rightarrow> pool \<Rightarrow> bool" where
  "pool_ok spawn_ok job_ok jobs requested s \<longleftrightarrow>
     logs_ok job_ok s \<and> failure_ok spawn_ok requested s \<and> progress_ok jobs requested s"

lemma jobs_in_append [simp]: "jobs_in (ws @ vs) = jobs_in ws @ jobs_in vs"
  by (induction ws) (auto split: worker.split)

lemma jobs_in_update:
  assumes "t < length ws"
  shows "mset (jobs_in (ws[t := w])) + mset (jobs_in [ws ! t]) = mset (jobs_in ws) + mset (jobs_in [w])"
proof -
  from assms have "ws = take t ws @ ws ! t # drop (Suc t) ws" by (rule id_take_nth_drop)
  then have "jobs_in ws = jobs_in (take t ws) @ jobs_in [ws ! t] @ jobs_in (drop (Suc t) ws)"
    by (metis append_Cons append_Nil jobs_in_append)
  moreover have "jobs_in (ws[t := w]) = jobs_in (take t ws) @ jobs_in [w] @ jobs_in (drop (Suc t) ws)"
    using assms by (metis append_Cons append_Nil jobs_in_append upd_conv_take_nth_drop)
  ultimately show ?thesis by (simp add: ac_simps)
qed

lemma next_job_increment:
  assumes "a < (b :: u32)"
  shows "a + 1 \<le> b" and "job_list (a + 1) = job_list a @ [a]"
proof -
  have a: "unat (a + 1) = unat a + 1"
    using assms unsigned_less [of b, where ?'a = nat] by (simp add: unat_word_ariths word_less_nat_alt)
  then show "a + 1 \<le> b" using assms by (simp add: word_le_nat_alt word_less_nat_alt)
  show "job_list (a + 1) = job_list a @ [a]" using a by (simp add: job_list_def)
qed

lemma queue_take_job_simps:
  "queue_take_job q = (q', Some j) \<longleftrightarrow>
     q' = q\<lparr>next_job := next_job q + 1\<rparr> \<and> j = next_job q \<and> next_job q < job_count q \<and> \<not> failed q"
  "queue_take_job q = (q', None) \<longleftrightarrow> q' = q \<and> (failed q \<or> job_count q \<le> next_job q)"
  by (auto simp: queue_take_job_def)

lemma pool_init_ok: "pool_ok spawn_ok job_ok jobs requested (pool_init jobs)"
  by (simp add: pool_ok_def logs_ok_def failure_ok_def progress_ok_def pool_init_def queue_init_def job_list_def)

lemma logs_step:
  assumes "pool_step spawn_ok job_ok requested s s'" "logs_ok job_ok s"
  shows "logs_ok job_ok s'"
  using assms
proof cases
  case (take t q j)
  from jobs_in_update [OF take(2), of "Emitting j"] take(3)
  have "mset (jobs_in ((workers s)[t := Emitting j])) = add_mset j (mset (jobs_in (workers s)))" by simp
  moreover from take(4) have "next_job (queue s) < job_count (queue s)" by (simp add: queue_take_job_simps)
  ultimately show ?thesis
    using take(4) assms(2) next_job_increment(2)
    unfolding take(1) by (simp add: queue_take_job_simps logs_ok_def)
next
  case (no_job t q)
  from jobs_in_update [OF no_job(2), of Exited] no_job(3,4) assms(2) show ?thesis
    unfolding no_job(1) by (simp add: queue_take_job_simps logs_ok_def)
next
  case (emit t j)
  from jobs_in_update [OF emit(2), of Taking] emit(3)
  have "mset (jobs_in (workers s)) = add_mset j (mset (jobs_in ((workers s)[t := Taking])))" by simp
  with emit(4) assms(2) show ?thesis unfolding emit(1) by (auto simp: logs_ok_def)
next
  case (emit_fails t j)
  from jobs_in_update [OF emit_fails(2), of Marking] emit_fails(3)
  have "mset (jobs_in (workers s)) = add_mset j (mset (jobs_in ((workers s)[t := Marking])))" by simp
  with emit_fails(4) assms(2) show ?thesis unfolding emit_fails(1) by (auto simp: logs_ok_def)
next
  case (mark t)
  from jobs_in_update [OF mark(2), of Exited] mark(3) assms(2) show ?thesis
    unfolding mark(1) by (simp add: logs_ok_def queue_mark_failed_def)
qed (auto simp: logs_ok_def queue_mark_failed_def)

lemma set_updateE: "x \<in> set (ws[t := w]) \<Longrightarrow> x \<noteq> w \<Longrightarrow> x \<in> set ws"
  by (meson insertE set_update_subset_insert subsetD)

lemma set_update_other: "x \<in> set ws \<Longrightarrow> ws ! t \<noteq> x \<Longrightarrow> x \<in> set (ws[t := w])"
  by (metis in_set_conv_nth length_list_update nth_list_update_neq)

lemma failure_step:
  assumes "pool_step spawn_ok job_ok requested s s'" "failure_ok spawn_ok requested s"
  shows "failure_ok spawn_ok requested s'"
  using assms
proof cases
  case (take t q j)
  with assms(2) show ?thesis
    by (auto simp: queue_take_job_simps failure_ok_def set_update_memI dest: set_updateE intro: set_update_other)
next
  case (no_job t q)
  with assms(2) show ?thesis
    by (auto simp: queue_take_job_simps failure_ok_def dest: set_updateE intro: set_update_other)
next
  case (emit_fails t j)
  with assms(2) show ?thesis by (auto simp: failure_ok_def set_update_memI)
next
  case (mark t)
  then have "Marking \<in> set (workers s)" by (metis nth_mem)
  with mark assms(2) show ?thesis by (auto simp: failure_ok_def queue_mark_failed_def)
qed (auto simp: failure_ok_def queue_mark_failed_def dest: set_updateE intro: set_update_other)

lemma progress_step:
  assumes "pool_step spawn_ok job_ok requested s s'" "progress_ok jobs requested s"
  shows "progress_ok jobs requested s'"
  using assms
proof cases
  case (take t q j)
  from take(2,3) have "\<not> list_all (\<lambda>w. w = Exited) (workers s)" by (auto simp: list_all_length)
  with take assms(2) show ?thesis
    by (auto simp: queue_take_job_simps progress_ok_def next_job_increment dest: set_updateE)
next
  case (no_job t q)
  from no_job(2,3) have "\<not> list_all (\<lambda>w. w = Exited) (workers s)" by (auto simp: list_all_length)
  with no_job assms(2) show ?thesis by (auto simp: queue_take_job_simps progress_ok_def)
next
  case (emit t j)
  from emit(2,3) have "\<not> list_all (\<lambda>w. w = Exited) (workers s)" by (auto simp: list_all_length)
  with emit assms(2) show ?thesis by (auto simp: progress_ok_def dest: set_updateE)
next
  case (emit_fails t j)
  from emit_fails(2,3) have "\<not> list_all (\<lambda>w. w = Exited) (workers s)" by (auto simp: list_all_length)
  with emit_fails assms(2) show ?thesis by (auto simp: progress_ok_def dest: set_updateE)
next
  case (mark t)
  from mark(2,3) have "\<not> list_all (\<lambda>w. w = Exited) (workers s)" by (auto simp: list_all_length)
  with mark assms(2) show ?thesis by (auto simp: progress_ok_def queue_mark_failed_def)
qed (auto simp: progress_ok_def queue_mark_failed_def)


section \<open>Progress\<close>

primrec worker_work :: "worker \<Rightarrow> nat" where
  "worker_work Taking = 1"
| "worker_work (Emitting j) = 3"
| "worker_work Marking = 2"
| "worker_work Exited = 0"

definition phase_work :: "u32 \<Rightarrow> pool \<Rightarrow> nat" where
  "phase_work requested s = (case pool_phase s of
     Creating \<Rightarrow> 2 * (unat requested - length (workers s)) + 2 | Joining \<Rightarrow> 1 | Returned r \<Rightarrow> 0)"

text \<open>An upper bound on the steps a pool can still make.\<close>

definition pool_work :: "u32 \<Rightarrow> pool \<Rightarrow> nat" where
  "pool_work requested s = 3 * (unat (job_count (queue s)) - unat (next_job (queue s))) +
     sum_list (map worker_work (workers s)) + phase_work requested s"

lemma work_update:
  assumes "t < length ws"
  shows "sum_list (map worker_work (ws[t := w])) + worker_work (ws ! t) =
    sum_list (map worker_work ws) + worker_work w"
proof -
  have "ws = take t ws @ ws ! t # drop (Suc t) ws" using assms by (rule id_take_nth_drop)
  then have "sum_list (map worker_work ws) =
      sum_list (map worker_work (take t ws)) + worker_work (ws ! t) + sum_list (map worker_work (drop (Suc t) ws))"
    by (metis (no_types, lifting) add.assoc list.simps(9) map_append sum_list.Cons sum_list_append)
  then show ?thesis using assms by (simp add: upd_conv_take_nth_drop)
qed

lemma pool_step_work:
  assumes "pool_step spawn_ok job_ok requested s s'"
  shows "pool_work requested s' < pool_work requested s"
  using assms
proof cases
  case (take t q j)
  from take(4) have lt: "next_job (queue s) < job_count (queue s)" by (simp add: queue_take_job_simps)
  then have "unat (next_job (queue s) + 1) = unat (next_job (queue s)) + 1"
    using unsigned_less [of "job_count (queue s)", where ?'a = nat]
    by (simp add: unat_word_ariths word_less_nat_alt)
  with lt work_update [OF take(2), of "Emitting j"] take show ?thesis
    by (auto simp: pool_work_def phase_work_def queue_take_job_simps word_less_nat_alt split: phase.split)
next
  case (no_job t q)
  with work_update [OF no_job(2), of Exited] show ?thesis
    by (auto simp: pool_work_def phase_work_def queue_take_job_simps split: phase.split)
next
  case (emit t j)
  with work_update [OF emit(2), of Taking] show ?thesis
    by (auto simp: pool_work_def phase_work_def split: phase.split)
next
  case (emit_fails t j)
  with work_update [OF emit_fails(2), of Marking] show ?thesis
    by (auto simp: pool_work_def phase_work_def split: phase.split)
next
  case (mark t)
  with work_update [OF mark(2), of Exited] show ?thesis
    by (auto simp: pool_work_def phase_work_def queue_mark_failed_def split: phase.split)
qed (auto simp: pool_work_def phase_work_def queue_mark_failed_def)

lemma pool_not_stuck: "(\<exists>r. pool_phase s = Returned r) \<or> (\<exists>s'. pool_step spawn_ok job_ok requested s s')"
proof (cases "pool_phase s")
  case Creating
  then show ?thesis by (meson pool_step.spawn pool_step.spawn_fails pool_step.spawned)
next
  case Joining
  show ?thesis
  proof (cases "list_all (\<lambda>w. w = Exited) (workers s)")
    case True
    with Joining have "pool_step spawn_ok job_ok requested s (s\<lparr>pool_phase := Returned (\<not> failed (queue s))\<rparr>)"
      by (rule pool_step.joined)
    then show ?thesis by blast
  next
    case False
    then obtain t where t: "t < length (workers s)" "workers s ! t \<noteq> Exited" by (auto simp: list_all_length)
    obtain q r where "queue_take_job (queue s) = (q, r)" by fastforce
    with t show ?thesis
    proof (cases "workers s ! t")
      case (Emitting j)
      with t show ?thesis by (cases "job_ok j") (blast intro: pool_step.emit pool_step.emit_fails)+
    qed (cases r; blast intro: pool_step.intros)+
  qed
qed simp

lemma pool_returns: "\<exists>s' r. (pool_step spawn_ok job_ok requested)\<^sup>*\<^sup>* s s' \<and> pool_phase s' = Returned r"
proof (induction "pool_work requested s" arbitrary: s rule: less_induct)
  case less
  from pool_not_stuck [of s spawn_ok job_ok requested] show ?case
  proof
    assume "\<exists>s'. pool_step spawn_ok job_ok requested s s'"
    then obtain s' where step: "pool_step spawn_ok job_ok requested s s'" ..
    from less [OF pool_step_work [OF step]] step show ?thesis
      by (meson converse_rtranclp_into_rtranclp)
  qed blast
qed

lemma pool_reachable_ok:
  "(pool_step spawn_ok job_ok requested)\<^sup>*\<^sup>* (pool_init jobs) s \<Longrightarrow> pool_ok spawn_ok job_ok jobs requested s"
proof (induction rule: rtranclp_induct)
  case base
  show ?case by (rule pool_init_ok)
next
  case (step s s')
  then show ?case by (auto simp: pool_ok_def intro: logs_step failure_step progress_step)
qed

lemma set_job_list: "set (job_list n) = {j. j < n}"
proof -
  have "j \<in> set (job_list n)" if "j < n" for j
    using that by (auto simp: job_list_def word_less_nat_alt intro!: image_eqI [of _ _ "unat j"])
  moreover have "(of_nat k :: u32) < n" if "k < unat n" for k
    using that unsigned_less [of n, where ?'a = nat] by (simp add: word_less_nat_alt unat_of_nat)
  ultimately show ?thesis by (auto simp: job_list_def)
qed

lemma distinct_job_list: "distinct (job_list n)"
proof -
  have "inj_on (of_nat :: nat \<Rightarrow> u32) {0..<unat n}"
  proof (rule inj_onI)
    fix x y assume "x \<in> {0..<unat n}" "y \<in> {0..<unat n}" "(of_nat x :: u32) = of_nat y"
    moreover from this have "x < 2 ^ 32" "y < 2 ^ 32" using unsigned_less [of n, where ?'a = nat] by auto
    ultimately show "x = y" by (simp add: of_nat_u32_eq_iff)
  qed
  then show ?thesis by (simp add: job_list_def distinct_map)
qed

lemma emit_in_order_iff: "emit_in_order job_ok js \<longleftrightarrow> (\<forall>j \<in> set js. job_ok j)"
  by (induction js) auto

lemma pool_result:
  assumes "pool_ok spawn_ok job_ok jobs requested s" "pool_phase s = Returned r" "requested \<noteq> 0"
  shows "r \<Longrightarrow> mset (emitted s) = mset (job_list jobs) \<and> (\<forall>j < jobs. job_ok j)"
    and "\<not> r \<Longrightarrow> (\<exists>j < jobs. \<not> job_ok j) \<or> (\<exists>k < unat requested. \<not> spawn_ok k)"
proof -
  from assms(1) have logs: "logs_ok job_ok s" and fail: "failure_ok spawn_ok requested s"
    and prog: "progress_ok jobs requested s" by (simp_all add: pool_ok_def)
  have exited: "list_all (\<lambda>w. w = Exited) (workers s)" and r: "r = (\<not> failed (queue s))"
    using prog assms(2) by (auto simp: progress_ok_def)
  have "list_all (\<lambda>w. w = Exited) ws \<Longrightarrow> jobs_in ws = []" for ws by (induction ws) auto
  with exited have active: "jobs_in (workers s) = []" by blast
  have marking: "Marking \<notin> set (workers s)" using exited by (auto simp: list_all_iff)
  {
    assume "r"
    with r have nf: "\<not> failed (queue s)" by simp
    then have none: "dropped s = []" using fail marking by (auto simp: failure_ok_def)
    have "length (workers s) = unat requested" using prog nf assms(2) by (auto simp: progress_ok_def)
    then have "workers s \<noteq> []" using assms(3) by (auto simp: unat_eq_zero)
    then have "Exited \<in> set (workers s)" using exited by (cases "workers s") auto
    then have "next_job (queue s) = jobs" using prog nf by (auto simp: progress_ok_def)
    then have all: "mset (emitted s) = mset (job_list jobs)" using logs active none by (simp add: logs_ok_def)
    from mset_eq_setD [OF all] logs show "mset (emitted s) = mset (job_list jobs) \<and> (\<forall>j < jobs. job_ok j)"
      using all by (auto simp: logs_ok_def set_job_list)
  }
  {
    assume "\<not> r"
    with r have f: "failed (queue s)" by simp
    have "dropped s \<noteq> [] \<Longrightarrow> \<exists>j < jobs. \<not> job_ok j"
    proof -
      assume "dropped s \<noteq> []"
      then obtain j where j: "j \<in> set (dropped s)" by (cases "dropped s") auto
      have "set (dropped s) \<subseteq> set (job_list (next_job (queue s)))"
        using logs by (metis logs_ok_def mset_subset_eq_add_right set_mset_mset set_mset_mono)
      with j have "j < next_job (queue s)" by (auto simp: set_job_list)
      moreover have "next_job (queue s) \<le> jobs" using prog by (simp add: progress_ok_def)
      moreover have "\<not> job_ok j" using j logs by (simp add: logs_ok_def)
      ultimately show ?thesis by (meson less_le_trans)
    qed
    with fail f show "(\<exists>j < jobs. \<not> job_ok j) \<or> (\<exists>k < unat requested. \<not> spawn_ok k)"
      by (auto simp: failure_ok_def)
  }
qed


section \<open>What the pool promises\<close>

lemma effective_range:
  assumes "jobs \<noteq> 0"
  shows "effective_chunk_jobs jobs n \<noteq> 0" and "effective_chunk_jobs jobs n \<le> jobs"
  using assms by (auto simp: effective_chunk_jobs_def Let_def not_less word_le_nat_alt unat_eq_zero)

text \<open>C16: the thread pool is correct for every interleaving of its threads.  From the start, any
  run has at most three steps per job and two per thread (and two more), and until it has
  returned some thread can move: the pool never deadlocks and always returns.  Meanwhile no job is
  emitted twice and only jobs of the queue that succeed count as emitted; when the pool reports
  success, each job has been emitted exactly once.\<close>

theorem pool_exactly_once:
  assumes "(pool_step spawn_ok job_ok requested ^^ n) (pool_init jobs) s" and "requested \<noteq> 0"
  shows "n \<le> 3 * unat jobs + 2 * unat requested + 2 \<and>
    ((\<exists>r. pool_phase s = Returned r) \<or> (\<exists>s'. pool_step spawn_ok job_ok requested s s')) \<and>
    distinct (emitted s) \<and> (\<forall>j \<in> set (emitted s). j < jobs \<and> job_ok j) \<and>
    (pool_phase s = Returned True \<longrightarrow> mset (emitted s) = mset (job_list jobs))"
proof -
  have "n + pool_work requested s \<le> pool_work requested (pool_init jobs)"
    using assms(1)
  proof (induction n arbitrary: s)
    case (Suc n)
    then obtain u where u: "(pool_step spawn_ok job_ok requested ^^ n) (pool_init jobs) u"
      "pool_step spawn_ok job_ok requested u s" by auto
    from Suc.IH [OF u(1)] pool_step_work [OF u(2)] show ?case by simp
  qed simp
  moreover have "pool_work requested (pool_init jobs) = 3 * unat jobs + 2 * unat requested + 2"
    by (simp add: pool_work_def pool_init_def queue_init_def phase_work_def)
  ultimately have bound: "n \<le> 3 * unat jobs + 2 * unat requested + 2" by simp
  have ok: "pool_ok spawn_ok job_ok jobs requested s"
    using assms(1) by (intro pool_reachable_ok) (rule relpowp_imp_rtranclp)
  then have logs: "logs_ok job_ok s" and le: "next_job (queue s) \<le> jobs"
    by (auto simp: pool_ok_def progress_ok_def)
  have all: "mset (emitted s @ jobs_in (workers s) @ dropped s) = mset (job_list (next_job (queue s)))"
    using logs by (simp add: logs_ok_def add.assoc)
  from mset_eq_imp_distinct_iff [OF all] have "distinct (emitted s)" by (simp add: distinct_job_list)
  moreover from mset_eq_setD [OF all] have "set (emitted s) \<subseteq> {j. j < next_job (queue s)}"
    by (auto simp: set_job_list)
  moreover have "\<forall>j \<in> set (emitted s). job_ok j" using logs by (simp add: logs_ok_def)
  ultimately show ?thesis
    using bound pool_not_stuck [of s spawn_ok job_ok requested] pool_result(1) [OF ok _ assms(2), of True] le
    by (auto dest: less_le_trans)
qed

lemma pool_exactly_once_witness:
  "\<exists>n s. (pool_step (\<lambda>_. True) (\<lambda>_. True) 2 ^^ n) (pool_init 3) s \<and> pool_phase s = Returned True \<and>
     n \<le> 15 \<and> mset (emitted s) = {#0, 1, 2#}"
proof -
  obtain s r where s: "(pool_step (\<lambda>_. True) (\<lambda>_. True) 2)\<^sup>*\<^sup>* (pool_init 3) s" "pool_phase s = Returned r"
    using pool_returns by blast
  from pool_result(2) [OF pool_reachable_ok [OF s(1)] s(2)] have r by auto
  from s(1) obtain n where n: "(pool_step (\<lambda>_. True) (\<lambda>_. True) 2 ^^ n) (pool_init 3) s"
    by (auto simp: rtranclp_power)
  have "job_list 3 = [0, 1, 2]" by (simp add: job_list_def upt_rec)
  with pool_exactly_once [OF n] s(2) \<open>r\<close> n show ?thesis
    by (intro exI [of _ n] exI [of _ s]) auto
qed

text \<open>C17: the result does not depend on the interleaving.  When the pool can be set up and every
  thread starts, whatever
  \<open>run_chunk_jobs\<close> returns is what emitting the jobs one after the other returns, and it does
  return; even when threads fail to start, success is only reported when every job succeeded.\<close>

theorem run_chunk_jobs_sequential:
  assumes "run_chunk_jobs init_ok spawn_ok job_ok jobs requested r"
  shows "(r \<longrightarrow> emit_in_order job_ok (job_list jobs)) \<and>
    (init_ok \<and> (\<forall>k < unat (effective_chunk_jobs jobs requested). spawn_ok k) \<longrightarrow> r = emit_in_order job_ok (job_list jobs)) \<and>
    (\<exists>r'. run_chunk_jobs init_ok spawn_ok job_ok jobs n r')"
proof -
  let ?n = "effective_chunk_jobs jobs requested"
  have "run_chunk_jobs init_ok spawn_ok job_ok jobs n (emit_in_order job_ok (job_list jobs))"
    if "jobs = 0 \<or> effective_chunk_jobs jobs n = 1"
    using that by (auto simp: run_chunk_jobs_def Let_def job_list_def)
  moreover have "\<exists>r'. run_chunk_jobs init_ok spawn_ok job_ok jobs n r'" if "jobs \<noteq> 0" "effective_chunk_jobs jobs n \<noteq> 1"
    using that pool_returns [of spawn_ok job_ok "effective_chunk_jobs jobs n" "pool_init jobs"]
    by (auto simp: run_chunk_jobs_def Let_def)
  ultimately have ex: "\<exists>r'. run_chunk_jobs init_ok spawn_ok job_ok jobs n r'" by blast
  consider "jobs = 0 \<or> ?n = 1" | "\<not> (jobs = 0 \<or> ?n = 1)" "\<not> init_ok" | "\<not> (jobs = 0 \<or> ?n = 1)" init_ok
    by blast
  then show ?thesis
  proof cases
    case 1
    have "job_list 0 = []" by (simp add: job_list_def)
    with assms 1 have "r = emit_in_order job_ok (job_list jobs)"
      by (cases "jobs = 0") (simp_all add: run_chunk_jobs_def Let_def)
    with ex show ?thesis by simp
  next
    case 2
    with assms ex show ?thesis by (simp add: run_chunk_jobs_def Let_def)
  next
    case 3
    with assms obtain s where s: "pool_ok spawn_ok job_ok jobs ?n s" "pool_phase s = Returned r"
      by (auto simp: run_chunk_jobs_def Let_def dest: pool_reachable_ok)
    from 3 have "?n \<noteq> 0" by (simp add: effective_range)
    from pool_result [OF s this] ex show ?thesis
      by (auto simp: emit_in_order_iff set_job_list)
  qed
qed

lemma run_chunk_jobs_sequential_witness:
  "run_chunk_jobs True (\<lambda>_. True) (\<lambda>j. j \<noteq> 2) 5 3 False \<and> \<not> run_chunk_jobs True (\<lambda>_. True) (\<lambda>j. j \<noteq> 2) 5 3 True"
proof -
  have seq: "emit_in_order (\<lambda>j. j \<noteq> 2) (job_list 5) = False" by code_simp
  obtain r where r: "run_chunk_jobs True (\<lambda>_. True) (\<lambda>j. j \<noteq> 2) 5 3 r"
    using pool_returns [of "\<lambda>_. True" "\<lambda>j. j \<noteq> 2" "effective_chunk_jobs 5 3" "pool_init 5"]
    by (auto simp: run_chunk_jobs_def Let_def effective_chunk_jobs_def)
  from run_chunk_jobs_sequential [OF r] r seq have "run_chunk_jobs True (\<lambda>_. True) (\<lambda>j. j \<noteq> 2) 5 3 False" by auto
  moreover have "\<not> run_chunk_jobs True (\<lambda>_. True) (\<lambda>j. j \<noteq> 2) 5 3 True"
    using run_chunk_jobs_sequential [of True "\<lambda>_. True" "\<lambda>j. j \<noteq> 2" 5 3 True] seq by auto
  ultimately show ?thesis by simp
qed

end
