(* ===== verification/Chunks.thy ===== *)
theory Chunks
  imports Loader Jobs Decoder
begin

text \<open>
  The chunking and dispatch of src/DolRecomp/src/main.c (\<open>emit_code_sections_split\<close>,
  \<open>emit_dispatch_helpers\<close>): each section is decoded, analysed and cut into chunks of at most 4096
  instructions, every chunk becomes one generated function, and the generated header finds the
  function of an address.

  The generated text is modelled by its meaning: \<open>dispatch\<close> is what the emitted
  \<open>dolrecomp_call\<close> does with an address the host hook does not take.  Parameters: the success of
  allocations (by element count), whether the names of a chunk fit their buffers, and whether
  \<open>run_chunk_jobs\<close> succeeds on a section's jobs.  Opening, writing and closing the files is output.
\<close>

section \<open>Decoding a section\<close>

definition decode_word :: "EmbeddedDataMode \<Rightarrow> u32 \<Rightarrow> u32 \<Rightarrow> PPCInst" where
  "decode_word mode raw addr =
    (let inst = ppc_decode raw addr
     in if op_f inst = PPC_OP_UNKNOWN \<and> embedded_data_word mode raw then inst\<lparr>embedded_data := True\<rparr> else inst)"

definition decode_section :: "LoadedCodeSection \<Rightarrow> PPCInst list" where
  "decode_section s =
    map (\<lambda>i. decode_word (sec_mode s) (read_be32 (sec_data s) (of_nat i * 4)) (sec_address s + of_nat i * 4))
      [0..<unat (sec_size s div 4)]"

section \<open>Chunks\<close>

abbreviation EMIT_CHUNK_INSTRUCTIONS :: nat where "EMIT_CHUNK_INSTRUCTIONS \<equiv> 4096"

record ChunkJob =
  chunk_insts :: "PPCInst list"
  chunk_count :: u32
  chunk_func_addr :: u32

function chunk_jobs :: "PPCInst list \<Rightarrow> u32 \<Rightarrow> nat \<Rightarrow> ChunkJob list" where
  "chunk_jobs insts base_addr start =
    (if start < length insts
     then let chunk = (if length insts - start > EMIT_CHUNK_INSTRUCTIONS then EMIT_CHUNK_INSTRUCTIONS
                       else length insts - start)
       in \<lparr>chunk_insts = take chunk (drop start insts), chunk_count = of_nat chunk,
           chunk_func_addr = base_addr + of_nat start * 4\<rparr>
          # chunk_jobs insts base_addr (start + EMIT_CHUNK_INSTRUCTIONS)
     else [])"
  by pat_completeness auto
termination chunk_jobs
  by (relation "measure (\<lambda>(insts, base_addr, start). length insts - start)") auto

declare chunk_jobs.simps [simp del]

record FunctionRange =
  fr_start :: u32
  fr_end :: u32

record FunctionList =
  fl_ranges :: "FunctionRange list"
  fl_capacity :: u32

definition function_list_add :: "(u32 \<Rightarrow> bool) \<Rightarrow> FunctionList \<Rightarrow> u32 \<Rightarrow> u32 \<Rightarrow> FunctionList option" where
  "function_list_add realloc_ok fl lo hi =
    (let full = of_nat (length (fl_ranges fl)) = fl_capacity fl;
         new_capacity = (if fl_capacity fl \<noteq> 0 then fl_capacity fl * 2 else 64)
     in if full \<and> \<not> realloc_ok new_capacity then None
        else Some \<lparr>fl_ranges = fl_ranges fl @ [\<lparr>fr_start = lo, fr_end = hi\<rparr>],
                   fl_capacity = (if full then new_capacity else fl_capacity fl)\<rparr>)"

record Emission =
  em_funcs :: FunctionList
  em_smc :: SMCAnalysis
  em_file_count :: u32

text \<open>The chunk loop of one section, as far as it changes the state.\<close>

fun add_chunks ::
  "(u32 \<Rightarrow> bool) \<Rightarrow> (u32 \<Rightarrow> ChunkJob \<Rightarrow> bool) \<Rightarrow> Emission \<Rightarrow> ChunkJob list \<Rightarrow> Emission option" where
  "add_chunks realloc_ok names_ok st [] = Some st"
| "add_chunks realloc_ok names_ok st (job # jobs) =
    (if \<not> names_ok (em_file_count st) job then None
     else case function_list_add realloc_ok (em_funcs st) (chunk_func_addr job)
             (chunk_func_addr job + chunk_count job * 4) of
       None \<Rightarrow> None
     | Some funcs \<Rightarrow>
         add_chunks realloc_ok names_ok (st\<lparr>em_funcs := funcs, em_file_count := em_file_count st + 1\<rparr>) jobs)"

definition emit_section ::
  "(u32 \<Rightarrow> bool) \<Rightarrow> (u32 \<Rightarrow> bool) \<Rightarrow> (u32 \<Rightarrow> ChunkJob \<Rightarrow> bool) \<Rightarrow> (ChunkJob list \<Rightarrow> bool) \<Rightarrow>
   LoadedCodeSection list \<Rightarrow> Emission \<Rightarrow> LoadedCodeSection \<Rightarrow> Emission option" where
  "emit_section alloc_ok realloc_ok names_ok run_jobs sections st s =
    (if sec_size s = 0 then Some st
     else if \<not> alloc_ok (sec_size s div 4) then None
     else let insts = decode_section s;
              st = (if sec_mode s = EMBEDDED_DATA_DOL
                    then st\<lparr>em_smc := analyze_smc_section realloc_ok sections insts (em_smc st)\<rparr> else st);
              jobs = chunk_jobs insts (sec_address s) 0
     in if sec_mode s = EMBEDDED_DATA_DOL \<and> smc_allocation_failed (em_smc st) then None
        else if \<not> alloc_ok ((sec_size s div 4 + 4095) div 4096) then None
        else case add_chunks realloc_ok names_ok st jobs of
          None \<Rightarrow> None
        | Some st \<Rightarrow> if \<not> run_jobs jobs then None else Some st)"

fun emit_sections ::
  "(u32 \<Rightarrow> bool) \<Rightarrow> (u32 \<Rightarrow> bool) \<Rightarrow> (u32 \<Rightarrow> ChunkJob \<Rightarrow> bool) \<Rightarrow> (ChunkJob list \<Rightarrow> bool) \<Rightarrow>
   LoadedCodeSection list \<Rightarrow> Emission \<Rightarrow> LoadedCodeSection list \<Rightarrow> Emission option" where
  "emit_sections alloc_ok realloc_ok names_ok run_jobs sections st [] = Some st"
| "emit_sections alloc_ok realloc_ok names_ok run_jobs sections st (s # ss) =
    (case emit_section alloc_ok realloc_ok names_ok run_jobs sections st s of
       None \<Rightarrow> None
     | Some st \<Rightarrow> emit_sections alloc_ok realloc_ok names_ok run_jobs sections st ss)"

definition emit_code_sections_split ::
  "(u32 \<Rightarrow> bool) \<Rightarrow> (u32 \<Rightarrow> bool) \<Rightarrow> (u32 \<Rightarrow> ChunkJob \<Rightarrow> bool) \<Rightarrow> (ChunkJob list \<Rightarrow> bool) \<Rightarrow>
   LoadedCodeSection list \<Rightarrow> Emission option" where
  "emit_code_sections_split alloc_ok realloc_ok names_ok run_jobs sections =
    emit_sections alloc_ok realloc_ok names_ok run_jobs sections
      \<lparr>em_funcs = \<lparr>fl_ranges = [], fl_capacity = 0\<rparr>,
       em_smc = \<lparr>smc_possible = False, smc_allocation_failed = False, smc_range_capacity = 0, smc_ranges = []\<rparr>,
       em_file_count = 0\<rparr> sections"

section \<open>The generated dispatcher\<close>

text \<open>What \<open>dolrecomp_call\<close> does with an address: call the function of a range, return 0, or index
  its function table out of bounds.\<close>

datatype dispatched = Called u32 | NotFound | OutOfBounds

definition in_chunk :: "u32 \<Rightarrow> u32 \<Rightarrow> u32 \<Rightarrow> bool" where
  "in_chunk lo hi address \<longleftrightarrow> address \<ge> lo \<and> address < hi \<and> (address - lo) AND 3 = 0"

fun dispatch_linear :: "FunctionRange list \<Rightarrow> u32 \<Rightarrow> dispatched" where
  "dispatch_linear [] address = NotFound"
| "dispatch_linear (r # rs) address =
    (if in_chunk (fr_start r) (fr_end r) address then Called (fr_start r) else dispatch_linear rs address)"

definition dispatch_stride :: "FunctionRange list \<Rightarrow> u32" where
  "dispatch_stride rs = fr_start (rs ! 2) - fr_start (rs ! 1)"

definition dispatch_matches :: "FunctionRange list \<Rightarrow> bool" where
  "dispatch_matches rs \<longleftrightarrow> length rs \<ge> 3 \<and> dispatch_stride rs > 0 \<and>
     list_all (\<lambda>i. fr_start (rs ! i) = fr_start (rs ! 1) + (of_nat i - 1) * dispatch_stride rs) [1..<length rs] \<and>
     list_all (\<lambda>i. fr_end (rs ! i) = fr_start (rs ! (i + 1))) [1..<length rs - 1]"

definition dispatch_indexed :: "FunctionRange list \<Rightarrow> u32 \<Rightarrow> dispatched" where
  "dispatch_indexed rs address =
    (let first = rs ! 0; regular_start = fr_start (rs ! 1); regular_end = fr_end (rs ! (length rs - 1))
     in if in_chunk (fr_start first) (fr_end first) address then Called (fr_start first)
        else if in_chunk regular_start regular_end address
        then let index = unat ((address - regular_start) div dispatch_stride rs)
          in if index < length rs - 1 then Called (fr_start (rs ! (index + 1))) else OutOfBounds
        else NotFound)"

definition dispatch :: "FunctionRange list \<Rightarrow> u32 \<Rightarrow> dispatched" where
  "dispatch rs address = (if dispatch_matches rs then dispatch_indexed rs address else dispatch_linear rs address)"

end
