(* ===== verification/ChunkFacts.thy ===== *)
theory ChunkFacts
  imports Chunks
begin

text \<open>
  What chunking and dispatch promise: the chunks of a section are its instructions in order, the
  emitted functions cover every instruction, and the constant-time dispatcher agrees with the
  linear one, except when the last function is longer than the stride.
\<close>

section \<open>Dispatch\<close>

lemma in_chunk_nat:
  "in_chunk lo hi x \<longleftrightarrow> unat lo \<le> unat x \<and> unat x < unat hi \<and> 4 dvd unat x - unat lo"
proof (cases "lo \<le> x")
  case True
  then have "unat (x - lo) = unat x - unat lo" by (rule unat_sub)
  with True show ?thesis by (auto simp: in_chunk_def aligned_nat word_le_nat_alt word_less_nat_alt)
qed (auto simp: in_chunk_def word_le_nat_alt)

lemma dispatch_linear_first:
  "i < length rs \<Longrightarrow> in_chunk (fr_start (rs ! i)) (fr_end (rs ! i)) x \<Longrightarrow>
   \<forall>j < i. \<not> in_chunk (fr_start (rs ! j)) (fr_end (rs ! j)) x \<Longrightarrow> dispatch_linear rs x = Called (fr_start (rs ! i))"
proof (induction rs arbitrary: i)
  case (Cons r rs)
  show ?case
  proof (cases i)
    case (Suc k)
    with Cons.prems have "\<not> in_chunk (fr_start r) (fr_end r) x" by auto
    moreover have "\<forall>j < k. \<not> in_chunk (fr_start (rs ! j)) (fr_end (rs ! j)) x"
      using Cons.prems(3) Suc by (metis Suc_less_eq nth_Cons_Suc)
    ultimately show ?thesis using Cons Suc by simp
  qed (use Cons.prems in simp)
qed simp

lemma dispatch_linear_none:
  "(\<forall>r \<in> set rs. \<not> in_chunk (fr_start r) (fr_end r) x) \<Longrightarrow> dispatch_linear rs x = NotFound"
  by (induction rs) auto

text \<open>A function list as the chunk loop builds it: every range is a positive number of
  instructions.\<close>

definition ranges_ok :: "FunctionRange list \<Rightarrow> bool" where
  "ranges_ok rs \<longleftrightarrow> (\<forall>r \<in> set rs. fr_start r < fr_end r \<and> (fr_end r - fr_start r) AND 3 = 0)"


lemma fit_add:
  fixes a b :: u32
  assumes "a < a + b"
  shows "unat (a + b) = unat a + unat b"
proof (rule ccontr)
  assume "unat (a + b) \<noteq> unat a + unat b"
  then have "\<not> unat a + unat b < 2 ^ 32" using unat_add_lem [of a b] by simp
  then have "unat (a + b) = unat a + unat b - 2 ^ 32"
    using unsigned_less [of a, where ?'a = nat] unsigned_less [of b, where ?'a = nat]
    by (simp add: unat_word_ariths le_mod_geq)
  with assms show False using unsigned_less [of b, where ?'a = nat] by (simp add: word_less_nat_alt)
qed

lemma regular_step:
  assumes "dispatch_matches rs" and "Suc (Suc k) < length rs"
  shows "fr_start (rs ! Suc (Suc k)) = fr_start (rs ! Suc k) + dispatch_stride rs"
    and "fr_end (rs ! Suc k) = fr_start (rs ! Suc (Suc k))"
proof -
  have starts: "\<forall>i \<in> set [1..<length rs]. fr_start (rs ! i) = fr_start (rs ! 1) + (of_nat i - 1) * dispatch_stride rs"
    and ends: "\<forall>i \<in> set [1..<length rs - 1]. fr_end (rs ! i) = fr_start (rs ! (i + 1))"
    using assms(1) unfolding dispatch_matches_def list_all_iff by blast+
  have "Suc k \<in> set [1..<length rs]" "Suc (Suc k) \<in> set [1..<length rs]" using assms(2) by auto
  from starts [rule_format, OF this(1)] starts [rule_format, OF this(2)]
  show "fr_start (rs ! Suc (Suc k)) = fr_start (rs ! Suc k) + dispatch_stride rs"
    by (simp add: algebra_simps)
  have "Suc k \<in> set [1..<length rs - 1]" using assms(2) by auto
  from ends [rule_format, OF this] show "fr_end (rs ! Suc k) = fr_start (rs ! Suc (Suc k))" by simp
qed

lemma regular_starts:
  assumes "dispatch_matches rs" and "ranges_ok rs"
  shows "Suc k < length rs \<Longrightarrow> unat (fr_start (rs ! Suc k)) = unat (fr_start (rs ! 1)) + k * unat (dispatch_stride rs)"
proof (induction k)
  case (Suc k)
  note step = regular_step [OF assms(1) Suc.prems]
  have "rs ! Suc k \<in> set rs" using Suc.prems by simp
  then have "fr_start (rs ! Suc k) < fr_start (rs ! Suc k) + dispatch_stride rs"
    using assms(2) step by (auto simp: ranges_ok_def)
  from fit_add [OF this] Suc show ?case by (simp add: step)
qed simp

lemma regular_ends:
  assumes "dispatch_matches rs" and "ranges_ok rs" and "Suc (Suc k) < length rs"
  shows "unat (fr_end (rs ! Suc k)) = unat (fr_start (rs ! 1)) + Suc k * unat (dispatch_stride rs)"
  using regular_starts [OF assms(1,2), of "Suc k"] regular_step(2) [OF assms(1,3)] assms(3) by simp

lemma stride_aligned:
  assumes "dispatch_matches rs" and "ranges_ok rs"
  shows "4 dvd unat (dispatch_stride rs)" and "0 < unat (dispatch_stride rs)"
proof -
  have len: "3 \<le> length rs" using assms(1) by (simp add: dispatch_matches_def)
  then have "Suc (Suc 0) < length rs" by simp
  from regular_step [OF assms(1) this] have "dispatch_stride rs = fr_end (rs ! 1) - fr_start (rs ! 1)" by simp
  moreover have "rs ! 1 \<in> set rs" using len by simp
  ultimately show "4 dvd unat (dispatch_stride rs)" using assms(2) by (auto simp: ranges_ok_def aligned_nat)
  show "0 < unat (dispatch_stride rs)"
    using assms(1) by (simp add: dispatch_matches_def word_less_nat_alt)
qed

lemma slot_iff:
  fixes x a s k :: nat
  assumes "0 < s" "a \<le> x"
  shows "(x - a) div s = k \<longleftrightarrow> a + k * s \<le> x \<and> x < a + Suc k * s"
proof -
  obtain d where x: "x = a + d" using assms(2) le_Suc_ex by blast
  have "d div s = k \<longleftrightarrow> k * s \<le> d \<and> d < Suc k * s"
    using assms(1) div_nat_eqI [of s k d]
    by (metis div_times_less_eq_dividend dividend_less_times_div mult.commute mult_Suc)
  then show ?thesis by (simp add: x)
qed

lemma dvd_slot:
  fixes x a s k :: nat
  assumes "4 dvd s" "a + k * s \<le> x"
  shows "4 dvd x - (a + k * s) \<longleftrightarrow> 4 dvd x - a"
proof -
  obtain d where "x = a + k * s + d" using assms(2) le_Suc_ex by blast
  moreover have "4 dvd k * s + d \<longleftrightarrow> 4 dvd d" using assms(1) by (simp add: dvd_add_right_iff)
  ultimately show ?thesis by (simp add: add.assoc)
qed

lemma slot_chunk:
  fixes x a s k e e' :: nat
  assumes "0 < s" "4 dvd s" and e': "e' = e \<and> e \<le> a + Suc k * s \<or> e' = a + Suc k * s \<and> e' \<le> e"
  shows "a + k * s \<le> x \<and> x < e' \<and> 4 dvd x - (a + k * s) \<longleftrightarrow>
    (a \<le> x \<and> x < e \<and> 4 dvd x - a) \<and> (x - a) div s = k"
proof (cases "a + k * s \<le> x")
  case True
  then have "a \<le> x" by simp
  with slot_iff [OF assms(1) this, of k] dvd_slot [OF assms(2) True] True e' show ?thesis by auto
next
  case False
  with slot_iff [OF assms(1), of a x k] show ?thesis by auto
qed

lemma regular_last:
  assumes m: "dispatch_matches rs" and ok: "ranges_ok rs"
    and last: "fr_end (last rs) - fr_start (last rs) \<le> dispatch_stride rs" and n: "length rs = Suc (Suc n)"
  shows "unat (fr_start (rs ! 1)) + n * unat (dispatch_stride rs) < unat (fr_end (last rs))"
    and "unat (fr_end (last rs)) \<le> unat (fr_start (rs ! 1)) + Suc n * unat (dispatch_stride rs)"
    and "last rs = rs ! Suc n"
proof -
  let ?s = "unat (dispatch_stride rs)" and ?a = "unat (fr_start (rs ! 1))" and ?e = "unat (fr_end (last rs))"
  show last_nth: "last rs = rs ! Suc n" using n by (subst last_conv_nth) auto
  have in_last: "last rs \<in> set rs" using n by (simp add: last_nth)
  have start_n: "unat (fr_start (last rs)) = ?a + n * ?s"
    using regular_starts [OF m ok, of n] n by (simp add: last_nth)
  have "fr_start (last rs) < fr_end (last rs)" using ok in_last by (simp add: ranges_ok_def)
  then show lo: "?a + n * ?s < ?e" unfolding word_less_nat_alt start_n .
  have "unat (fr_end (last rs) - fr_start (last rs)) = ?e - (?a + n * ?s)"
    using lo unat_sub [of "fr_start (last rs)" "fr_end (last rs)"] unfolding word_le_nat_alt start_n by simp
  with last lo show "?e \<le> ?a + Suc n * ?s" by (simp add: word_le_nat_alt)
qed

lemma regular_slot:
  assumes m: "dispatch_matches rs" and ok: "ranges_ok rs"
    and last: "fr_end (last rs) - fr_start (last rs) \<le> dispatch_stride rs" and k: "Suc k < length rs"
  shows "in_chunk (fr_start (rs ! Suc k)) (fr_end (rs ! Suc k)) x \<longleftrightarrow>
    in_chunk (fr_start (rs ! 1)) (fr_end (last rs)) x \<and>
    (unat x - unat (fr_start (rs ! 1))) div unat (dispatch_stride rs) = k"
proof -
  let ?s = "unat (dispatch_stride rs)" and ?a = "unat (fr_start (rs ! 1))" and ?e = "unat (fr_end (last rs))"
  note s = stride_aligned [OF m ok]
  have len: "3 \<le> length rs" using m by (simp add: dispatch_matches_def)
  obtain n where n: "length rs = Suc (Suc n)" using len by (metis Suc_le_D numeral_3_eq_3 le_SucE)
  note last_bounds = regular_last [OF m ok last n]
  have start: "unat (fr_start (rs ! Suc k)) = ?a + k * ?s" by (rule regular_starts [OF m ok k])
  show ?thesis
  proof (cases "k = n")
    case True
    then have "unat (fr_end (rs ! Suc k)) = ?e" by (simp add: last_bounds(3))
    with last_bounds(2) True show ?thesis
      unfolding in_chunk_nat start by (intro slot_chunk s) simp
  next
    case False
    with k n have kn: "Suc k \<le> n" by simp
    have e: "unat (fr_end (rs ! Suc k)) = ?a + Suc k * ?s"
      by (rule regular_ends [OF m ok]) (use k n False in simp)
    have "?a + Suc k * ?s \<le> ?a + n * ?s" using kn by (intro add_left_mono mult_le_mono1)
    with last_bounds(1) have "?a + Suc k * ?s < ?e" by linarith
    then show ?thesis
      unfolding in_chunk_nat start by (intro slot_chunk s) (simp add: e)
  qed
qed

text \<open>C19: the constant-time dispatcher of the generated header calls the same function as the linear
  one at every address, when the last function is not longer than the stride the table is
  indexed by.\<close>

theorem dispatch_agrees:
  assumes ok: "ranges_ok rs" and last: "fr_end (last rs) - fr_start (last rs) \<le> dispatch_stride rs"
  shows "dispatch rs x = dispatch_linear rs x"
proof (cases "dispatch_matches rs")
  case m: True
  let ?in = "\<lambda>i. in_chunk (fr_start (rs ! i)) (fr_end (rs ! i)) x"
  let ?k = "(unat x - unat (fr_start (rs ! 1))) div unat (dispatch_stride rs)"
  note slot = regular_slot [OF m ok last, of _ x]
  have len: "3 \<le> length rs" using m by (simp add: dispatch_matches_def)
  then have last_nth: "rs ! (length rs - 1) = last rs" by (subst last_conv_nth) auto
  show ?thesis
  proof (cases "?in 0")
    case True
    moreover have "0 < length rs" using len by linarith
    ultimately have "dispatch_linear rs x = Called (fr_start (rs ! 0))" by (intro dispatch_linear_first) auto
    with True m show ?thesis by (simp add: dispatch_def dispatch_indexed_def)
  next
    case no_first: False
    show ?thesis
    proof (cases "in_chunk (fr_start (rs ! 1)) (fr_end (last rs)) x")
      case True
      then have "fr_start (rs ! 1) \<le> x" by (simp add: in_chunk_def)
      then have idx: "unat ((x - fr_start (rs ! 1)) div dispatch_stride rs) = ?k"
        by (simp add: unat_div unat_sub)
      obtain n where n: "length rs = Suc (Suc n)" using len by (metis Suc_le_D numeral_3_eq_3 le_SucE)
      have "unat x - unat (fr_start (rs ! 1)) < Suc n * unat (dispatch_stride rs)"
        using True regular_last(2) [OF m ok last n] by (auto simp: in_chunk_nat)
      then have bound: "Suc ?k < length rs" using less_mult_imp_div_less n by auto
      then have here: "?in (Suc ?k)" using slot [of ?k] True by simp
      moreover have "\<not> ?in j" if "j < Suc ?k" for j
        using that slot [of "j - 1"] no_first bound by (cases j) auto
      ultimately have "dispatch_linear rs x = Called (fr_start (rs ! Suc ?k))"
        using bound by (intro dispatch_linear_first) auto
      moreover have "?k < length rs - 1" using bound by simp
      ultimately show ?thesis
        using m no_first True by (simp add: dispatch_def dispatch_indexed_def last_nth Let_def idx Suc_eq_plus1 del: One_nat_def)
    next
      case False
      have "\<not> ?in i" if "i < length rs" for i
        using that slot [of "i - 1"] no_first False by (cases i) auto
      then have "\<forall>r \<in> set rs. \<not> in_chunk (fr_start r) (fr_end r) x" by (auto simp: in_set_conv_nth)
      from dispatch_linear_none [OF this] show ?thesis
        using m no_first False by (simp add: dispatch_def dispatch_indexed_def last_nth Let_def del: One_nat_def)
    qed
  qed
qed (simp add: dispatch_def)

section \<open>Chunks\<close>

definition job_range :: "ChunkJob \<Rightarrow> FunctionRange" where
  "job_range job = \<lparr>fr_start = chunk_func_addr job, fr_end = chunk_func_addr job + chunk_count job * 4\<rparr>"

lemma chunk_jobs_insts: "concat (map chunk_insts (chunk_jobs insts base start)) = drop start insts"
proof (induction insts base start rule: chunk_jobs.induct)
  case (1 insts base start)
  show ?case
  proof (cases "start < length insts")
    case True
    have "take 4096 (drop start insts) @ drop (start + 4096) insts = drop start insts"
      by (metis append_take_drop_id drop_drop add.commute)
    with 1 True show ?thesis
      by (subst chunk_jobs.simps) (auto simp: Let_def)
  qed (subst chunk_jobs.simps, simp)
qed

lemma chunk_jobs_nth:
  "k < length (chunk_jobs insts base start) \<Longrightarrow>
   chunk_jobs insts base start ! k =
     \<lparr>chunk_insts = take 4096 (drop (start + 4096 * k) insts),
      chunk_count = of_nat (min 4096 (length insts - (start + 4096 * k))),
      chunk_func_addr = base + of_nat (start + 4096 * k) * 4\<rparr> \<and> start + 4096 * k < length insts"
proof (induction insts base start arbitrary: k rule: chunk_jobs.induct)
  case (1 insts base start)
  have less: "start < length insts" using 1(2) by (subst (asm) chunk_jobs.simps) (auto split: if_splits)
  show ?case
  proof (cases k)
    case 0
    with less show ?thesis by (subst chunk_jobs.simps) (auto simp: Let_def min_def)
  next
    case (Suc j)
    have "j < length (chunk_jobs insts base (start + 4096))"
      using 1(2) less Suc by (subst (asm) chunk_jobs.simps) (simp add: Let_def)
    from 1(1) [OF less refl this] less Suc show ?thesis
      by (subst chunk_jobs.simps) (simp add: Let_def algebra_simps)
  qed
qed

lemma chunk_jobs_length: "length (chunk_jobs insts base start) = (length insts - start + 4095) div 4096"
proof (induction insts base start rule: chunk_jobs.induct)
  case (1 insts base start)
  show ?case
  proof (cases "start < length insts")
    case True
    then obtain d where d: "length insts = start + Suc d" using less_imp_Suc_add by (metis add_Suc_right)
    have "(Suc d + 4095) div 4096 = Suc ((Suc d - 4096 + 4095) div 4096)" by (cases "Suc d \<le> 4096") auto
    with 1 True d show ?thesis by (subst chunk_jobs.simps) (simp add: Let_def)
  qed (subst chunk_jobs.simps, simp)
qed

lemma function_list_add_ranges:
  "function_list_add realloc_ok fl lo hi = Some fl' \<Longrightarrow>
   fl_ranges fl' = fl_ranges fl @ [\<lparr>fr_start = lo, fr_end = hi\<rparr>]"
  by (auto simp: function_list_add_def Let_def split: if_splits)

lemma add_chunks_ranges:
  "add_chunks realloc_ok names_ok st jobs = Some st' \<Longrightarrow>
   fl_ranges (em_funcs st') = fl_ranges (em_funcs st) @ map job_range jobs"
  by (induction jobs arbitrary: st)
    (auto simp: job_range_def dest!: function_list_add_ranges split: if_splits option.splits)

definition section_ranges :: "LoadedCodeSection \<Rightarrow> FunctionRange list" where
  "section_ranges s = map job_range (chunk_jobs (decode_section s) (sec_address s) 0)"

lemma emit_section_ranges:
  assumes "emit_section alloc_ok realloc_ok names_ok run_jobs sections st s = Some st'"
  shows "fl_ranges (em_funcs st') = fl_ranges (em_funcs st) @ section_ranges s"
proof (cases "sec_size s = 0")
  case True
  then have "section_ranges s = []"
    by (simp add: section_ranges_def decode_section_def chunk_jobs.simps)
  with True assms show ?thesis by (simp add: emit_section_def)
next
  case False
  with assms show ?thesis
    by (auto simp: emit_section_def Let_def section_ranges_def dest!: add_chunks_ranges
        split: if_splits option.splits)
qed

lemma emit_sections_ranges:
  "emit_sections alloc_ok realloc_ok names_ok run_jobs sections st ss = Some st' \<Longrightarrow>
   fl_ranges (em_funcs st') = fl_ranges (em_funcs st) @ concat (map section_ranges ss)"
  by (induction ss arbitrary: st) (auto dest!: emit_section_ranges split: option.splits)

lemma emitted_ranges:
  "emit_code_sections_split alloc_ok realloc_ok names_ok run_jobs sections = Some st \<Longrightarrow>
   fl_ranges (em_funcs st) = concat (map section_ranges sections)"
  by (auto simp: emit_code_sections_split_def dest!: emit_sections_ranges)

section \<open>Coverage\<close>

definition section_fits :: "LoadedCodeSection \<Rightarrow> bool" where
  "section_fits s \<longleftrightarrow> 4 dvd unat (sec_size s) \<and> unat (sec_address s) + unat (sec_size s) < 2 ^ 32"

definition sections_apart :: "LoadedCodeSection list \<Rightarrow> bool" where
  "sections_apart ss \<longleftrightarrow> (\<forall>i < length ss. \<forall>j < length ss. i \<noteq> j \<longrightarrow>
     unat (sec_address (ss ! i)) + unat (sec_size (ss ! i)) \<le> unat (sec_address (ss ! j)) \<or>
     unat (sec_address (ss ! j)) + unat (sec_size (ss ! j)) \<le> unat (sec_address (ss ! i)))"

lemma decode_section_length: "length (decode_section s) = unat (sec_size s) div 4"
  by (simp add: decode_section_def unat_div)

lemma section_ranges_nth:
  assumes "section_fits s" and "k < length (section_ranges s)"
  shows "unat (fr_start (section_ranges s ! k)) = unat (sec_address s) + 16384 * k"
    and "unat (fr_end (section_ranges s ! k)) =
      unat (sec_address s) + min (16384 * k + 16384) (unat (sec_size s))"
    and "16384 * k < unat (sec_size s)"
    and "fr_start (section_ranges s ! k) = sec_address s + of_nat (4096 * k) * 4"
proof -
  let ?n = "unat (sec_size s) div 4"
  have sz: "unat (sec_size s) = 4 * ?n" using assms(1) by (auto simp: section_fits_def)
  have k: "k < length (chunk_jobs (decode_section s) (sec_address s) 0)"
    using assms(2) by (simp add: section_ranges_def)
  note job = chunk_jobs_nth [OF k, unfolded decode_section_length]
  from job have kn: "4096 * k < ?n" by simp
  then show "16384 * k < unat (sec_size s)" using sz by linarith
  from job k show start: "fr_start (section_ranges s ! k) = sec_address s + of_nat (4096 * k) * 4"
    by (simp add: section_ranges_def job_range_def)
  have bound: "unat (sec_address s) + 4 * ?n < 2 ^ 32" using assms(1) sz by (simp add: section_fits_def)
  have addr: "unat (sec_address s + of_nat m * 4) = unat (sec_address s) + 4 * m" if "m \<le> ?n" for m
  proof -
    have "m < 2 ^ 32" "4 * m < 2 ^ 32" using that bound by linarith+
    then have "unat (of_nat m * 4 :: u32) = 4 * m" by (simp add: unat_word_ariths unat_of_nat)
    moreover have "unat (sec_address s) + 4 * m < 2 ^ 32" using that bound by linarith
    ultimately show ?thesis by (simp add: unat_word_ariths)
  qed
  show "unat (fr_start (section_ranges s ! k)) = unat (sec_address s) + 16384 * k"
    using addr [of "4096 * k"] kn by (simp add: start)
  let ?c = "min 4096 (?n - 4096 * k)"
  have "fr_end (section_ranges s ! k) = sec_address s + of_nat (4096 * k + ?c) * 4"
    using job k by (simp add: section_ranges_def job_range_def algebra_simps)
  then have "unat (fr_end (section_ranges s ! k)) = unat (sec_address s) + 4 * (4096 * k + ?c)"
    using addr [of "4096 * k + ?c"] kn by simp
  also have "4 * (4096 * k + ?c) = min (16384 * k + 16384) (unat (sec_size s))"
    using kn sz by (simp add: min_def) linarith
  finally show "unat (fr_end (section_ranges s ! k)) =
      unat (sec_address s) + min (16384 * k + 16384) (unat (sec_size s))" .
qed

lemma section_ranges_length: "section_fits s \<Longrightarrow> length (section_ranges s) = (unat (sec_size s) div 4 + 4095) div 4096"
  by (simp add: section_ranges_def chunk_jobs_length decode_section_length)

lemma dispatch_linear_skip:
  "\<forall>r \<in> set xs. \<not> in_chunk (fr_start r) (fr_end r) x \<Longrightarrow> dispatch_linear (xs @ ys) x = dispatch_linear ys x"
  by (induction xs) auto

lemma dispatch_linear_stop: "dispatch_linear xs x = Called f \<Longrightarrow> dispatch_linear (xs @ ys) x = Called f"
  by (induction xs) auto

lemma section_ranges_inside:
  assumes "section_fits s" "r \<in> set (section_ranges s)" "in_chunk (fr_start r) (fr_end r) x"
  shows "unat (sec_address s) \<le> unat x \<and> unat x < unat (sec_address s) + unat (sec_size s)"
proof -
  from assms(2) obtain k where k: "k < length (section_ranges s)" "r = section_ranges s ! k"
    by (auto simp: in_set_conv_nth)
  from section_ranges_nth [OF assms(1) k(1)] assms(3) show ?thesis
    by (auto simp: k(2) in_chunk_nat)
qed

lemma section_dispatch:
  assumes fits: "section_fits s" and m: "m < unat (sec_size s) div 4"
  shows "dispatch_linear (section_ranges s) (sec_address s + of_nat m * 4) =
    Called (sec_address s + of_nat (4096 * (m div 4096)) * 4)"
    and "unat (sec_address s + of_nat m * 4) = unat (sec_address s) + 4 * m"
proof -
  let ?k = "m div 4096" and ?x = "sec_address s + of_nat m * 4"
  have bound: "unat (sec_address s) + unat (sec_size s) < 2 ^ 32" and "4 dvd unat (sec_size s)"
    using fits by (simp_all add: section_fits_def)
  then have mb: "4 * m < unat (sec_size s)" using m by linarith
  then have "m < 2 ^ 32" "4 * m < 2 ^ 32" using bound by linarith+
  then have "unat (of_nat m * 4 :: u32) = 4 * m" by (simp add: unat_word_ariths unat_of_nat)
  moreover have "unat (sec_address s) + 4 * m < 2 ^ 32" using mb bound by linarith
  ultimately show x: "unat ?x = unat (sec_address s) + 4 * m" by (simp add: unat_word_ariths)
  have split: "m = 4096 * ?k + m mod 4096" by simp
  have k: "?k < length (section_ranges s)"
    unfolding section_ranges_length [OF fits] using m split by linarith
  note r = section_ranges_nth [OF fits]
  have "m < 4096 * Suc ?k" using dividend_less_times_div [of 4096 m] by simp
  then have "4 * m < min (16384 * ?k + 16384) (unat (sec_size s))" using mb by simp
  moreover have "4 * m = 16384 * ?k + 4 * (m mod 4096)" using split by linarith
  ultimately have "in_chunk (fr_start (section_ranges s ! ?k)) (fr_end (section_ranges s ! ?k)) ?x"
    using r [OF k] x by (auto simp: in_chunk_nat)
  moreover have "\<not> in_chunk (fr_start (section_ranges s ! j)) (fr_end (section_ranges s ! j)) ?x" if "j < ?k" for j
  proof -
    have "16384 * j + 16384 \<le> 16384 * ?k" using that by simp
    then have "unat (fr_end (section_ranges s ! j)) \<le> unat ?x"
      using r(2) [of j] that k x split by simp
    then show ?thesis by (simp add: in_chunk_nat)
  qed
  ultimately have "dispatch_linear (section_ranges s) ?x = Called (fr_start (section_ranges s ! ?k))"
    using k by (intro dispatch_linear_first) auto
  then show "dispatch_linear (section_ranges s) ?x = Called (sec_address s + of_nat (4096 * ?k) * 4)"
    using r(4) [OF k] by simp
qed

lemma ranges_ok_sections:
  assumes "\<forall>s \<in> set ss. section_fits s"
  shows "ranges_ok (concat (map section_ranges ss))"
proof -
  have "fr_start r < fr_end r \<and> (fr_end r - fr_start r) AND 3 = 0"
    if "s \<in> set ss" "r \<in> set (section_ranges s)" for s r
  proof -
    have fits: "section_fits s" using assms that(1) by blast
    from that(2) obtain k where k: "k < length (section_ranges s)" "r = section_ranges s ! k"
      by (auto simp: in_set_conv_nth)
    note n = section_ranges_nth [OF fits k(1), folded k(2)]
    from n(1,2,3) have lt: "unat (fr_start r) < unat (fr_end r)" by auto
    then have "unat (fr_end r - fr_start r) = unat (fr_end r) - unat (fr_start r)"
      by (intro unat_sub) (simp add: word_le_nat_alt)
    moreover have "4 dvd unat (sec_size s)" using fits by (simp add: section_fits_def)
    then have "4 dvd min (16384 * k + 16384) (unat (sec_size s)) - 16384 * k"
      by (auto simp: min_def intro: dvd_diff_nat)
    ultimately show ?thesis using n(1,2) lt by (simp add: aligned_nat word_less_nat_alt)
  qed
  then show ?thesis by (auto simp: ranges_ok_def)
qed

text \<open>C18: every instruction has its function.  When the sections do not overlap or wrap, the
  functions emitted for them are well formed, and the dispatcher's ranges map the address of
  instruction \<open>m\<close> of a section to the function of its chunk, the one that starts at the last
  multiple of 4096 instructions; that chunk holds the instruction, decoded from its word.\<close>

theorem dispatch_covers:
  assumes "emit_code_sections_split alloc_ok realloc_ok names_ok run_jobs sections = Some st"
    and "\<forall>s \<in> set sections. section_fits s" and "sections_apart sections"
    and "i < length sections" and "m < unat (sec_size (sections ! i)) div 4"
  shows "let s = sections ! i; job = chunk_jobs (decode_section s) (sec_address s) 0 ! (m div 4096)
    in ranges_ok (fl_ranges (em_funcs st)) \<and>
      dispatch_linear (fl_ranges (em_funcs st)) (sec_address s + of_nat m * 4) = Called (chunk_func_addr job) \<and>
      chunk_func_addr job = sec_address s + of_nat (4096 * (m div 4096)) * 4 \<and>
      chunk_insts job ! (m mod 4096) =
        decode_word (sec_mode s) (read_be32 (sec_data s) (of_nat m * 4)) (sec_address s + of_nat m * 4)"
proof -
  let ?s = "sections ! i" and ?x = "sec_address (sections ! i) + of_nat m * 4" and ?k = "m div 4096"
  have fits: "section_fits ?s" using assms(2,4) by simp
  note x = section_dispatch [OF fits assms(5)]
  have ranges: "fl_ranges (em_funcs st) = concat (map section_ranges (take i sections)) @
      section_ranges ?s @ concat (map section_ranges (drop (Suc i) sections))"
    using emitted_ranges [OF assms(1)] id_take_nth_drop [OF assms(4)]
    by (metis concat.simps(2) concat_append list.simps(9) map_append)
  have "4 * m < unat (sec_size ?s)" using assms(5) by linarith
  then have inside: "unat (sec_address ?s) \<le> unat ?x" "unat ?x < unat (sec_address ?s) + unat (sec_size ?s)"
    using x(2) by simp_all
  have "\<not> in_chunk (fr_start r) (fr_end r) ?x" if "r \<in> set (concat (map section_ranges (take i sections)))" for r
  proof
    assume hit: "in_chunk (fr_start r) (fr_end r) ?x"
    from that obtain t where t: "t \<in> set (take i sections)" "r \<in> set (section_ranges t)" by auto
    from t(1) obtain j where "j < i" "t = sections ! j" by (auto simp: in_set_conv_nth)
    with t(2) have j: "j < i" "r \<in> set (section_ranges (sections ! j))" by simp_all
    then have "section_fits (sections ! j)" using assms(2,4) by simp
    from section_ranges_inside [OF this j(2) hit] inside
    have "\<not> unat (sec_address (sections ! j)) + unat (sec_size (sections ! j)) \<le> unat (sec_address ?s)"
      "\<not> unat (sec_address ?s) + unat (sec_size ?s) \<le> unat (sec_address (sections ! j))" by linarith+
    moreover have "j < length sections" "i \<noteq> j" using assms(4) j(1) by simp_all
    ultimately show False using assms(3,4) unfolding sections_apart_def by blast
  qed
  then have called: "dispatch_linear (fl_ranges (em_funcs st)) ?x = Called (sec_address ?s + of_nat (4096 * ?k) * 4)"
    unfolding ranges using x(1) by (subst dispatch_linear_skip) (auto intro: dispatch_linear_stop)
  let ?jobs = "chunk_jobs (decode_section ?s) (sec_address ?s) 0"
  have k: "?k < length ?jobs"
    unfolding chunk_jobs_length decode_section_length using assms(5) div_mult_mod_eq [of m 4096] by linarith
  note job = chunk_jobs_nth [OF k]
  have "chunk_insts (?jobs ! ?k) ! (m mod 4096) = decode_section ?s ! m"
    using job assms(5) by (simp add: decode_section_length)
  also have "\<dots> = decode_word (sec_mode ?s) (read_be32 (sec_data ?s) (of_nat m * 4)) ?x"
    using assms(5) by (simp add: decode_section_def unat_div)
  finally show ?thesis
    using called job ranges_ok_sections [OF assms(2)] emitted_ranges [OF assms(1)] by (simp add: Let_def)
qed

text \<open>Three code sections of one chunk each; the last two are adjacent and the last is the longest.\<close>

definition demo_code :: "u32 \<Rightarrow> u32 \<Rightarrow> u32 \<Rightarrow> LoadedCodeSection" where
  "demo_code i address sz = \<lparr>sec_label = ''rpx'', sec_name = None, sec_data = zero_bytes, sec_index = i,
     sec_file_offset = 0, sec_address = address, sec_size = sz, sec_mode = EMBEDDED_DATA_RPX\<rparr>"

definition demo_sections :: "LoadedCodeSection list" where
  "demo_sections = [demo_code 0 0x02000000 0x10, demo_code 1 0x02001000 0x10, demo_code 2 0x02001010 0x40]"

abbreviation demo_emission :: "Emission option" where
  "demo_emission \<equiv> emit_code_sections_split (\<lambda>_. True) (\<lambda>_. True) (\<lambda>_ _. True) (\<lambda>_. True) demo_sections"

lemma demo_code_fields [simp]:
  "sec_address (demo_code i a n) = a" "sec_size (demo_code i a n) = n" "sec_mode (demo_code i a n) = EMBEDDED_DATA_RPX"
  by (simp_all add: demo_code_def)

lemma demo_ranges: "concat (map section_ranges demo_sections) =
    [\<lparr>fr_start = 0x02000000, fr_end = 0x02000010\<rparr>, \<lparr>fr_start = 0x02001000, fr_end = 0x02001010\<rparr>,
     \<lparr>fr_start = 0x02001010, fr_end = 0x02001050\<rparr>]"
  by (simp add: demo_sections_def section_ranges_def chunk_jobs.simps decode_section_length job_range_def)

lemma add_chunks_all: "\<exists>st'. add_chunks (\<lambda>_. True) (\<lambda>_ _. True) st jobs = Some st'"
  by (induction jobs arbitrary: st) (auto simp: function_list_add_def Let_def)

lemma demo_emits: "\<exists>st. demo_emission = Some st"
proof -
  have "\<exists>st'. emit_section (\<lambda>_. True) (\<lambda>_. True) (\<lambda>_ _. True) (\<lambda>_. True) sections st s = Some st'"
    if "sec_mode s = EMBEDDED_DATA_RPX" for s st sections
    using that add_chunks_all [of st "chunk_jobs (decode_section s) (sec_address s) 0"]
    by (auto simp: emit_section_def Let_def)
  then have "\<exists>st'. emit_sections (\<lambda>_. True) (\<lambda>_. True) (\<lambda>_ _. True) (\<lambda>_. True) sections st ss = Some st'"
    if "\<forall>s \<in> set ss. sec_mode s = EMBEDDED_DATA_RPX" for ss st sections
    using that by (induction ss arbitrary: st) (fastforce split: option.split)+
  moreover have "\<forall>s \<in> set demo_sections. sec_mode s = EMBEDDED_DATA_RPX" by (simp add: demo_sections_def)
  ultimately show ?thesis unfolding emit_code_sections_split_def by blast
qed

lemma dispatch_agrees_witness:
  "dispatch [\<lparr>fr_start = 0x100, fr_end = 0x110\<rparr>, \<lparr>fr_start = 0x200, fr_end = 0x240\<rparr>, \<lparr>fr_start = 0x240, fr_end = 0x250\<rparr>] 0x244
     = Called 0x240"
proof -
  let ?rs = "[\<lparr>fr_start = 0x100, fr_end = 0x110\<rparr>, \<lparr>fr_start = 0x200, fr_end = 0x240\<rparr>, \<lparr>fr_start = 0x240, fr_end = 0x250\<rparr>]"
  have "ranges_ok ?rs" "fr_end (last ?rs) - fr_start (last ?rs) \<le> dispatch_stride ?rs"
    by (simp_all add: ranges_ok_def dispatch_stride_def)
  from dispatch_agrees [OF this, of "0x244"] show ?thesis by (simp add: in_chunk_def)
qed

lemma demo_apart: "\<forall>s \<in> set demo_sections. section_fits s" "sections_apart demo_sections"
  by (auto simp: demo_sections_def section_fits_def sections_apart_def nth_Cons split: nat.splits)

lemma dispatch_covers_witness:
  "\<exists>st. demo_emission = Some st \<and> dispatch_linear (fl_ranges (em_funcs st)) 0x02001030 = Called 0x02001010"
proof -
  obtain st where st: "demo_emission = Some st" using demo_emits by blast
  from dispatch_covers [OF st demo_apart, of 2 8] st show ?thesis
    by (auto simp: Let_def demo_sections_def)
qed

text \<open>The constant-time dispatcher can index its table out of bounds.  It is chosen whenever the
  functions after the first start one stride apart, but the last function's length is not compared
  with the stride: for these sections the linear dispatcher would call the function at 0x02001010
  for one of its own instructions, and the emitted one reads past its table.\<close>

theorem dispatch_out_of_bounds:
  "\<exists>st. demo_emission = Some st \<and> ranges_ok (fl_ranges (em_funcs st)) \<and>
     dispatch_linear (fl_ranges (em_funcs st)) 0x02001020 = Called 0x02001010 \<and>
     dispatch (fl_ranges (em_funcs st)) 0x02001020 = OutOfBounds"
proof -
  obtain st where st: "demo_emission = Some st" using demo_emits by blast
  then have "fl_ranges (em_funcs st) = concat (map section_ranges demo_sections)" by (rule emitted_ranges)
  with st ranges_ok_sections [OF demo_apart(1)] show ?thesis
    by (simp add: demo_ranges in_chunk_def dispatch_def dispatch_matches_def dispatch_indexed_def
        dispatch_stride_def upt_rec Let_def)
qed

end
