(* ===== verification/EmitC.thy ===== *)
theory EmitC
  imports CpuOps "HOL-Library.Monad_Syntax"
begin

text \<open>
  The fragment of C that the recompiler writes (src/DolRecomp/src/backend/): values, expressions
  and statements as they appear in the format strings of the emitter, and what they do to the
  CPU state the generated code runs on.

  The value of an expression carries its C type, and operators apply C's integer promotions and
  usual arithmetic conversions.  Whatever C leaves undefined has no value (\<open>None\<close>): signed
  overflow, a shift by the width or more, a division by zero, an index outside a register array,
  an undeclared local.  Narrowing to a signed type keeps the low bits and a signed right shift is
  arithmetic, as on every compiler the project is built with.  A comparison gives a \<open>bool\<close>
  where C gives the \<open>int\<close> of the same value.  Operands are evaluated left to right; no emitted
  expression makes more than one call.

  A block's locals stay in the environment after its end; no emitted block reads a local that it
  or a block around it has not declared.  Running statements is a partial function: besides
  undefined behaviour, \<open>None\<close> is a loop that does not end.
\<close>

section \<open>Values\<close>

datatype ctype = U8 | U16 | U32 | U64 | S8 | S16 | S32 | S64 | Bool | F64

text \<open>A signed value holds its bits, read with \<open>sint\<close>; a \<open>double\<close> holds its bits.\<close>

datatype cval =
    VU8 u8 | VU16 u16 | VU32 u32 | VU64 u64
  | VS8 u8 | VS16 u16 | VS32 u32 | VS64 u64
  | VBool bool | VF64 u64

text \<open>An integer value extended to 64 bits, by its own signedness.\<close>

fun extended :: "cval \<Rightarrow> u64" where
  "extended (VU8 x) = ucast x"
| "extended (VU16 x) = ucast x"
| "extended (VU32 x) = ucast x"
| "extended (VU64 x) = x"
| "extended (VS8 x) = scast x"
| "extended (VS16 x) = scast x"
| "extended (VS32 x) = scast x"
| "extended (VS64 x) = x"
| "extended (VBool b) = (if b then 1 else 0)"
| "extended (VF64 x) = x"

definition cast :: "ctype \<Rightarrow> cval \<Rightarrow> cval" where
  "cast t v = (case t of
     U8 \<Rightarrow> VU8 (ucast (extended v)) | U16 \<Rightarrow> VU16 (ucast (extended v))
   | U32 \<Rightarrow> VU32 (ucast (extended v)) | U64 \<Rightarrow> VU64 (extended v)
   | S8 \<Rightarrow> VS8 (ucast (extended v)) | S16 \<Rightarrow> VS16 (ucast (extended v))
   | S32 \<Rightarrow> VS32 (ucast (extended v)) | S64 \<Rightarrow> VS64 (extended v)
   | Bool \<Rightarrow> VBool (extended v \<noteq> 0) | F64 \<Rightarrow> VF64 (extended v))"

definition truth :: "cval \<Rightarrow> bool" where
  "truth v \<longleftrightarrow> extended v \<noteq> 0"

fun promote :: "cval \<Rightarrow> cval" where
  "promote (VU32 x) = VU32 x"
| "promote (VU64 x) = VU64 x"
| "promote (VS32 x) = VS32 x"
| "promote (VS64 x) = VS64 x"
| "promote v = cast S32 v"

text \<open>The usual arithmetic conversions of two promoted operands.\<close>

fun common_type :: "cval \<Rightarrow> cval \<Rightarrow> ctype" where
  "common_type (VU64 x) w = U64"
| "common_type v (VU64 y) = U64"
| "common_type (VS64 x) w = S64"
| "common_type v (VS64 y) = S64"
| "common_type (VU32 x) w = U32"
| "common_type v (VU32 y) = U32"
| "common_type v w = S32"

definition converted :: "cval \<Rightarrow> cval \<Rightarrow> cval \<times> cval" where
  "converted v w = (let t = common_type (promote v) (promote w) in (cast t v, cast t w))"

section \<open>Operators\<close>

datatype cop = Add | Sub | Mul | Div | BitAnd | BitOr | BitXor | Shl | Shr | Lt | Gt | Eq | Ne

text \<open>The quotient truncates towards zero.\<close>

definition quotient :: "int \<Rightarrow> int \<Rightarrow> int" where
  "quotient x y = sgn x * sgn y * (\<bar>x\<bar> div \<bar>y\<bar>)"

definition defined_if :: "bool \<Rightarrow> 'a \<Rightarrow> 'a option" where
  "defined_if b x = (if b then Some x else None)"

definition arith_u32 :: "cop \<Rightarrow> u32 \<Rightarrow> u32 \<Rightarrow> cval option" where
  "arith_u32 f x y = (case f of
     Add \<Rightarrow> Some (VU32 (x + y)) | Sub \<Rightarrow> Some (VU32 (x - y)) | Mul \<Rightarrow> Some (VU32 (x * y))
   | Div \<Rightarrow> defined_if (y \<noteq> 0) (VU32 (x div y))
   | BitAnd \<Rightarrow> Some (VU32 (x AND y)) | BitOr \<Rightarrow> Some (VU32 (x OR y)) | BitXor \<Rightarrow> Some (VU32 (x XOR y))
   | Lt \<Rightarrow> Some (VBool (x < y)) | Gt \<Rightarrow> Some (VBool (x > y))
   | Eq \<Rightarrow> Some (VBool (x = y)) | Ne \<Rightarrow> Some (VBool (x \<noteq> y)) | _ \<Rightarrow> None)"

definition arith_u64 :: "cop \<Rightarrow> u64 \<Rightarrow> u64 \<Rightarrow> cval option" where
  "arith_u64 f x y = (case f of
     Add \<Rightarrow> Some (VU64 (x + y)) | Sub \<Rightarrow> Some (VU64 (x - y)) | Mul \<Rightarrow> Some (VU64 (x * y))
   | Div \<Rightarrow> defined_if (y \<noteq> 0) (VU64 (x div y))
   | BitAnd \<Rightarrow> Some (VU64 (x AND y)) | BitOr \<Rightarrow> Some (VU64 (x OR y)) | BitXor \<Rightarrow> Some (VU64 (x XOR y))
   | Lt \<Rightarrow> Some (VBool (x < y)) | Gt \<Rightarrow> Some (VBool (x > y))
   | Eq \<Rightarrow> Some (VBool (x = y)) | Ne \<Rightarrow> Some (VBool (x \<noteq> y)) | _ \<Rightarrow> None)"

definition arith_s32 :: "cop \<Rightarrow> u32 \<Rightarrow> u32 \<Rightarrow> cval option" where
  "arith_s32 f x y = (case f of
     Add \<Rightarrow> defined_if (sint (x + y) = sint x + sint y) (VS32 (x + y))
   | Sub \<Rightarrow> defined_if (sint (x - y) = sint x - sint y) (VS32 (x - y))
   | Mul \<Rightarrow> defined_if (sint (x * y) = sint x * sint y) (VS32 (x * y))
   | Div \<Rightarrow> defined_if (y \<noteq> 0 \<and> \<not> (x = 0x80000000 \<and> y = 0xFFFFFFFF))
       (VS32 (word_of_int (quotient (sint x) (sint y))))
   | BitAnd \<Rightarrow> Some (VS32 (x AND y)) | BitOr \<Rightarrow> Some (VS32 (x OR y)) | BitXor \<Rightarrow> Some (VS32 (x XOR y))
   | Lt \<Rightarrow> Some (VBool (sint x < sint y)) | Gt \<Rightarrow> Some (VBool (sint x > sint y))
   | Eq \<Rightarrow> Some (VBool (x = y)) | Ne \<Rightarrow> Some (VBool (x \<noteq> y)) | _ \<Rightarrow> None)"

definition arith_s64 :: "cop \<Rightarrow> u64 \<Rightarrow> u64 \<Rightarrow> cval option" where
  "arith_s64 f x y = (case f of
     Add \<Rightarrow> defined_if (sint (x + y) = sint x + sint y) (VS64 (x + y))
   | Sub \<Rightarrow> defined_if (sint (x - y) = sint x - sint y) (VS64 (x - y))
   | Mul \<Rightarrow> defined_if (sint (x * y) = sint x * sint y) (VS64 (x * y))
   | Div \<Rightarrow> defined_if (y \<noteq> 0 \<and> \<not> (x = 0x8000000000000000 \<and> y = 0xFFFFFFFFFFFFFFFF))
       (VS64 (word_of_int (quotient (sint x) (sint y))))
   | BitAnd \<Rightarrow> Some (VS64 (x AND y)) | BitOr \<Rightarrow> Some (VS64 (x OR y)) | BitXor \<Rightarrow> Some (VS64 (x XOR y))
   | Lt \<Rightarrow> Some (VBool (sint x < sint y)) | Gt \<Rightarrow> Some (VBool (sint x > sint y))
   | Eq \<Rightarrow> Some (VBool (x = y)) | Ne \<Rightarrow> Some (VBool (x \<noteq> y)) | _ \<Rightarrow> None)"

definition arith :: "cop \<Rightarrow> cval \<times> cval \<Rightarrow> cval option" where
  "arith f p = (case p of
     (VU32 x, VU32 y) \<Rightarrow> arith_u32 f x y
   | (VU64 x, VU64 y) \<Rightarrow> arith_u64 f x y
   | (VS32 x, VS32 y) \<Rightarrow> arith_s32 f x y
   | (VS64 x, VS64 y) \<Rightarrow> arith_s64 f x y
   | _ \<Rightarrow> None)"

text \<open>The type of a shift is that of its promoted left operand.\<close>

fun shift_left :: "cval \<Rightarrow> u64 \<Rightarrow> cval option" where
  "shift_left (VU32 x) n = defined_if (n < 32) (VU32 (push_bit (unat n) x))"
| "shift_left (VU64 x) n = defined_if (n < 64) (VU64 (push_bit (unat n) x))"
| "shift_left _ n = None"

fun shift_right :: "cval \<Rightarrow> u64 \<Rightarrow> cval option" where
  "shift_right (VU32 x) n = defined_if (n < 32) (VU32 (drop_bit (unat n) x))"
| "shift_right (VU64 x) n = defined_if (n < 64) (VU64 (drop_bit (unat n) x))"
| "shift_right (VS32 x) n = defined_if (n < 32) (VS32 (signed_drop_bit (unat n) x))"
| "shift_right (VS64 x) n = defined_if (n < 64) (VS64 (signed_drop_bit (unat n) x))"
| "shift_right _ n = None"

definition binary :: "cop \<Rightarrow> cval \<Rightarrow> cval \<Rightarrow> cval option" where
  "binary f v w = (if f = Shl then shift_left (promote v) (extended w)
     else if f = Shr then shift_right (promote v) (extended w)
     else arith f (converted v w))"

fun complement_of :: "cval \<Rightarrow> cval" where
  "complement_of (VU32 x) = VU32 (NOT x)"
| "complement_of (VU64 x) = VU64 (NOT x)"
| "complement_of (VS64 x) = VS64 (NOT x)"
| "complement_of v = VS32 (NOT (ucast (extended v)))"

section \<open>The emitted helpers\<close>

text \<open>\<open>dolrecomp_rotl32\<close> and \<open>f64_ge_minus_zero\<close> (the test \<open>x >= -0.0\<close> on the bits of a
  double: not a NaN, and positive or a zero) are inline code of the emitted file.\<close>

definition dolrecomp_rotl32 :: "u32 \<Rightarrow> u32 \<Rightarrow> u32" where
  "dolrecomp_rotl32 v sh =
     (let sh = sh AND 31 in if sh \<noteq> 0 then push_bit (unat sh) v OR drop_bit (unat (32 - sh)) v else v)"

definition f64_ge_minus_zero :: "u64 \<Rightarrow> bool" where
  "f64_ge_minus_zero x \<longleftrightarrow>
     \<not> (x AND 0x7FF0000000000000 = 0x7FF0000000000000 \<and> x AND 0x000FFFFFFFFFFFFF \<noteq> 0) \<and>
     (\<not> bit x 63 \<or> x = 0x8000000000000000)"

section \<open>Calls\<close>

text \<open>
  The functions emitted code calls.  The runtime's integer, memory and exception functions are the
  definitions of the CPU theories; \<open>c_helper\<close> stands for a runtime function that computes in host
  floating point, a parameter of the machine.
\<close>

datatype callee =
    c_mem_read8 | c_mem_read16 | c_mem_read32 | c_mem_write8 | c_mem_write16 | c_mem_write32
  | c_bswap16 | c_bswap32 | c_rotl32 | c_ge_minus_zero
  | c_f64_to_bits | c_f64_from_bits
  | c_set_xer_ov | c_add_overflowed | c_trap_condition
  | c_program_exception | c_system_call_exception | c_rfi | c_fallback_instruction | c_fp_available
  | c_mftb | c_tlbie | c_dcbz_l | c_eciwx | c_ecowx | c_stsw | c_lwarx_op | c_stwcx_op
  | c_lfs_op | c_lfd_op | c_stfs_op | c_stfd_op | c_mtfsb0_op | c_mtfsb1_op | c_fpscr_control_updated
  | c_memory_fence
  | c_helper string

record 'e machine =
  host_of :: "'e PPCHost"
  lazy_fp_of :: bool
  helper_of :: "string \<Rightarrow> cval list \<Rightarrow> 'e CPUState \<Rightarrow> cval \<times> 'e CPUState"

abbreviation to_u32 :: "cval \<Rightarrow> u32" where "to_u32 v \<equiv> ucast (extended v)"
abbreviation to_nat :: "cval \<Rightarrow> nat" where "to_nat v \<equiv> unat (extended v)"

text \<open>A \<open>void\<close> call has the value 0, which nothing reads.\<close>

abbreviation no_value :: cval where "no_value \<equiv> VS32 0"

definition invoke0 :: "'e machine \<Rightarrow> callee \<Rightarrow> 'e CPUState \<Rightarrow> (cval \<times> 'e CPUState) option" where
  "invoke0 m f cpu = (case f of
     c_fpscr_control_updated \<Rightarrow> Some (no_value, ppc_fpscr_updated cpu)
   | c_memory_fence \<Rightarrow> Some (no_value, cpu)
   | _ \<Rightarrow> None)"

definition invoke1 :: "'e machine \<Rightarrow> callee \<Rightarrow> cval \<Rightarrow> 'e CPUState \<Rightarrow> (cval \<times> 'e CPUState) option" where
  "invoke1 m f x cpu = (case f of
     c_mem_read8 \<Rightarrow> Some (apfst VU8 (mem_read8 (host_of m) cpu (to_u32 x)))
   | c_mem_read16 \<Rightarrow> Some (apfst VU16 (mem_read16 (host_of m) cpu (to_u32 x)))
   | c_mem_read32 \<Rightarrow> Some (apfst VU32 (mem_read32 (host_of m) cpu (to_u32 x)))
   | c_bswap16 \<Rightarrow> Some (VU16 (bswap16 (ucast (extended x))), cpu)
   | c_bswap32 \<Rightarrow> Some (VU32 (bswap32 (to_u32 x)), cpu)
   | c_ge_minus_zero \<Rightarrow> Some (VBool (f64_ge_minus_zero (extended x)), cpu)
   | c_f64_to_bits \<Rightarrow> Some (VU64 (extended x), cpu)
   | c_f64_from_bits \<Rightarrow> Some (VF64 (extended x), cpu)
   | c_set_xer_ov \<Rightarrow> Some (no_value, ppc_set_xer_ov cpu (truth x))
   | c_system_call_exception \<Rightarrow> Some (no_value, ppc_system_call_exception cpu (to_u32 x))
   | c_rfi \<Rightarrow> Some (no_value, ppc_rfi cpu (to_u32 x))
   | c_fp_available \<Rightarrow> Some (apfst VBool (ppc_fp_available (lazy_fp_of m) cpu (to_u32 x)))
   | c_mtfsb0_op \<Rightarrow> Some (no_value, ppc_mtfsb0_op cpu (to_nat x))
   | c_mtfsb1_op \<Rightarrow> Some (no_value, ppc_mtfsb1_op cpu (to_nat x))
   | _ \<Rightarrow> None)"

definition invoke2 :: "'e machine \<Rightarrow> callee \<Rightarrow> cval \<Rightarrow> cval \<Rightarrow> 'e CPUState \<Rightarrow> (cval \<times> 'e CPUState) option" where
  "invoke2 m f x y cpu = (case f of
     c_mem_write8 \<Rightarrow> Some (no_value, mem_write8 (host_of m) cpu (to_u32 x) (ucast (extended y)))
   | c_mem_write16 \<Rightarrow> Some (no_value, mem_write16 (host_of m) cpu (to_u32 x) (ucast (extended y)))
   | c_mem_write32 \<Rightarrow> Some (no_value, mem_write32 (host_of m) cpu (to_u32 x) (to_u32 y))
   | c_rotl32 \<Rightarrow> Some (VU32 (dolrecomp_rotl32 (to_u32 x) (to_u32 y)), cpu)
   | c_program_exception \<Rightarrow> Some (no_value, ppc_program_exception cpu (to_u32 x) (to_u32 y))
   | c_fallback_instruction \<Rightarrow> Some (no_value, ppc_fallback_instruction (host_of m) cpu (to_u32 x) (to_u32 y))
   | c_mftb \<Rightarrow> Some (apfst VU32 (ppc_mftb cpu (ucast (extended x)) (to_u32 y)))
   | c_tlbie \<Rightarrow> Some (no_value, ppc_tlbie cpu (to_u32 x) (to_u32 y))
   | c_dcbz_l \<Rightarrow> Some (no_value, ppc_dcbz_l (host_of m) cpu (to_u32 x) (to_u32 y))
   | c_eciwx \<Rightarrow> Some (apfst VU32 (ppc_eciwx (host_of m) cpu (to_u32 x) (to_u32 y)))
   | _ \<Rightarrow> None)"

definition invoke3 :: "'e machine \<Rightarrow> callee \<Rightarrow> cval \<Rightarrow> cval \<Rightarrow> cval \<Rightarrow> 'e CPUState \<Rightarrow> (cval \<times> 'e CPUState) option" where
  "invoke3 m f x y z cpu = (case f of
     c_add_overflowed \<Rightarrow> Some (VBool (ppc_add_overflowed (to_u32 x) (to_u32 y) (to_u32 z)), cpu)
   | c_trap_condition \<Rightarrow> Some (VBool (ppc_trap_condition (ucast (extended x)) (to_u32 y) (to_u32 z)), cpu)
   | c_ecowx \<Rightarrow> Some (no_value, ppc_ecowx (host_of m) cpu (to_u32 x) (to_u32 y) (to_u32 z))
   | c_lwarx_op \<Rightarrow> Some (apfst VBool (ppc_lwarx_op (host_of m) cpu (to_nat x) (to_u32 y) (to_u32 z)))
   | c_stwcx_op \<Rightarrow> Some (no_value, ppc_stwcx_op (host_of m) cpu (to_nat x) (to_u32 y) (to_u32 z))
   | c_lfs_op \<Rightarrow> map_option (apfst VBool) (ppc_lfs_op (host_of m) cpu (to_nat x) (to_u32 y) (to_u32 z))
   | c_lfd_op \<Rightarrow> Some (apfst VBool (ppc_lfd_op (host_of m) cpu (to_nat x) (to_u32 y) (to_u32 z)))
   | c_stfs_op \<Rightarrow> Some (apfst VBool (ppc_stfs_op (host_of m) cpu (to_nat x) (to_u32 y) (to_u32 z)))
   | c_stfd_op \<Rightarrow> Some (apfst VBool (ppc_stfd_op (host_of m) cpu (to_nat x) (to_u32 y) (to_u32 z)))
   | _ \<Rightarrow> None)"

definition invoke4 :: "'e machine \<Rightarrow> callee \<Rightarrow> cval \<Rightarrow> cval \<Rightarrow> cval \<Rightarrow> cval \<Rightarrow> 'e CPUState \<Rightarrow> (cval \<times> 'e CPUState) option" where
  "invoke4 m f x y z w cpu = (case f of
     c_stsw \<Rightarrow> Some (no_value, ppc_stsw (host_of m) cpu (to_u32 x) (to_u32 y) (to_nat z) (to_u32 w))
   | _ \<Rightarrow> None)"

definition invoke :: "'e machine \<Rightarrow> callee \<Rightarrow> cval list \<Rightarrow> 'e CPUState \<Rightarrow> (cval \<times> 'e CPUState) option" where
  "invoke m f args cpu = (case f of
     c_helper name \<Rightarrow> Some (helper_of m name args cpu)
   | _ \<Rightarrow> (case args of
        [] \<Rightarrow> invoke0 m f cpu
      | [x] \<Rightarrow> invoke1 m f x cpu
      | [x, y] \<Rightarrow> invoke2 m f x y cpu
      | [x, y, z] \<Rightarrow> invoke3 m f x y z cpu
      | [x, y, z, w] \<Rightarrow> invoke4 m f x y z w cpu
      | _ \<Rightarrow> None))"

section \<open>Expressions\<close>

datatype cfield =
    F_pc | F_lr | F_ctr | F_cr | F_xer | F_fpscr | F_msr | F_srr0 | F_srr1 | F_ear | F_hid2 | F_exception

datatype carray = A_gpr | A_sr | A_gqr | A_fpr | A_ps1

definition get_field :: "cfield \<Rightarrow> 'e CPUState \<Rightarrow> u32" where
  "get_field f cpu = (case f of
     F_pc \<Rightarrow> cpu_pc cpu | F_lr \<Rightarrow> cpu_lr cpu | F_ctr \<Rightarrow> cpu_ctr cpu | F_cr \<Rightarrow> cpu_cr cpu
   | F_xer \<Rightarrow> cpu_xer cpu | F_fpscr \<Rightarrow> cpu_fpscr cpu | F_msr \<Rightarrow> cpu_msr cpu | F_srr0 \<Rightarrow> cpu_srr0 cpu
   | F_srr1 \<Rightarrow> cpu_srr1 cpu | F_ear \<Rightarrow> cpu_ear cpu | F_hid2 \<Rightarrow> cpu_hid2 cpu
   | F_exception \<Rightarrow> cpu_exception cpu)"

definition set_field :: "cfield \<Rightarrow> u32 \<Rightarrow> 'e CPUState \<Rightarrow> 'e CPUState" where
  "set_field f v cpu = (case f of
     F_pc \<Rightarrow> cpu\<lparr>cpu_pc := v\<rparr> | F_lr \<Rightarrow> cpu\<lparr>cpu_lr := v\<rparr> | F_ctr \<Rightarrow> cpu\<lparr>cpu_ctr := v\<rparr>
   | F_cr \<Rightarrow> cpu\<lparr>cpu_cr := v\<rparr> | F_xer \<Rightarrow> cpu\<lparr>cpu_xer := v\<rparr> | F_fpscr \<Rightarrow> cpu\<lparr>cpu_fpscr := v\<rparr>
   | F_msr \<Rightarrow> cpu\<lparr>cpu_msr := v\<rparr> | F_srr0 \<Rightarrow> cpu\<lparr>cpu_srr0 := v\<rparr> | F_srr1 \<Rightarrow> cpu\<lparr>cpu_srr1 := v\<rparr>
   | F_ear \<Rightarrow> cpu\<lparr>cpu_ear := v\<rparr> | F_hid2 \<Rightarrow> cpu\<lparr>cpu_hid2 := v\<rparr>
   | F_exception \<Rightarrow> cpu\<lparr>cpu_exception := v\<rparr>)"

definition get_elem :: "carray \<Rightarrow> nat \<Rightarrow> 'e CPUState \<Rightarrow> cval option" where
  "get_elem a i cpu = (case a of
     A_gpr \<Rightarrow> defined_if (i < 32) (VU32 (gpr cpu ! i))
   | A_sr \<Rightarrow> defined_if (i < 16) (VU32 (cpu_sr cpu ! i))
   | A_gqr \<Rightarrow> defined_if (i < 8) (VU32 (cpu_gqr cpu ! i))
   | A_fpr \<Rightarrow> defined_if (i < 32) (VF64 (fpr cpu ! i))
   | A_ps1 \<Rightarrow> defined_if (i < 32) (VF64 (ps1 cpu ! i)))"

definition set_elem :: "carray \<Rightarrow> nat \<Rightarrow> cval \<Rightarrow> 'e CPUState \<Rightarrow> 'e CPUState option" where
  "set_elem a i v cpu = (case a of
     A_gpr \<Rightarrow> defined_if (i < 32) (cpu\<lparr>gpr := (gpr cpu)[i := to_u32 v]\<rparr>)
   | A_sr \<Rightarrow> defined_if (i < 16) (cpu\<lparr>cpu_sr := (cpu_sr cpu)[i := to_u32 v]\<rparr>)
   | A_gqr \<Rightarrow> defined_if (i < 8) (cpu\<lparr>cpu_gqr := (cpu_gqr cpu)[i := to_u32 v]\<rparr>)
   | A_fpr \<Rightarrow> defined_if (i < 32) (cpu\<lparr>fpr := (fpr cpu)[i := extended v]\<rparr>)
   | A_ps1 \<Rightarrow> defined_if (i < 32) (cpu\<lparr>ps1 := (ps1 cpu)[i := extended v]\<rparr>))"

datatype cexpr =
    Lit cval
  | Local string
  | Field cfield
  | Elem carray cexpr
  | Cast ctype cexpr
  | Com cexpr
  | Lnot cexpr
  | Bin cop cexpr cexpr
  | Conj cexpr cexpr
  | Disj cexpr cexpr
  | Cond cexpr cexpr cexpr
  | Call callee "cexpr list"

type_synonym locals = "string \<Rightarrow> cval option"

fun eval :: "'e machine \<Rightarrow> locals \<Rightarrow> cexpr \<Rightarrow> 'e CPUState \<Rightarrow> (cval \<times> 'e CPUState) option"
and eval_all :: "'e machine \<Rightarrow> locals \<Rightarrow> cexpr list \<Rightarrow> 'e CPUState \<Rightarrow> (cval list \<times> 'e CPUState) option" where
  "eval m env (Lit v) cpu = Some (v, cpu)"
| "eval m env (Local x) cpu = map_option (\<lambda>v. (v, cpu)) (env x)"
| "eval m env (Field f) cpu = Some (VU32 (get_field f cpu), cpu)"
| "eval m env (Elem a e) cpu = do {
     (i, cpu) \<leftarrow> eval m env e cpu;
     v \<leftarrow> get_elem a (to_nat i) cpu;
     Some (v, cpu) }"
| "eval m env (Cast t e) cpu = do { (v, cpu) \<leftarrow> eval m env e cpu; Some (cast t v, cpu) }"
| "eval m env (Com e) cpu = do { (v, cpu) \<leftarrow> eval m env e cpu; Some (complement_of v, cpu) }"
| "eval m env (Lnot e) cpu = do { (v, cpu) \<leftarrow> eval m env e cpu; Some (VBool (\<not> truth v), cpu) }"
| "eval m env (Bin f e1 e2) cpu = do {
     (v, cpu) \<leftarrow> eval m env e1 cpu;
     (w, cpu) \<leftarrow> eval m env e2 cpu;
     r \<leftarrow> binary f v w;
     Some (r, cpu) }"
| "eval m env (Conj e1 e2) cpu = do {
     (v, cpu) \<leftarrow> eval m env e1 cpu;
     if truth v then do { (w, cpu) \<leftarrow> eval m env e2 cpu; Some (VBool (truth w), cpu) }
     else Some (VBool False, cpu) }"
| "eval m env (Disj e1 e2) cpu = do {
     (v, cpu) \<leftarrow> eval m env e1 cpu;
     if truth v then Some (VBool True, cpu)
     else do { (w, cpu) \<leftarrow> eval m env e2 cpu; Some (VBool (truth w), cpu) } }"
| "eval m env (Cond c e1 e2) cpu = do {
     (v, cpu) \<leftarrow> eval m env c cpu;
     if truth v then eval m env e1 cpu else eval m env e2 cpu }"
| "eval m env (Call f es) cpu = do {
     (vs, cpu) \<leftarrow> eval_all m env es cpu;
     invoke m f vs cpu }"
| "eval_all m env [] cpu = Some ([], cpu)"
| "eval_all m env (e # es) cpu = do {
     (v, cpu) \<leftarrow> eval m env e cpu;
     (vs, cpu) \<leftarrow> eval_all m env es cpu;
     Some (v # vs, cpu) }"

section \<open>Statements\<close>

text \<open>
  A plain call is \<open>Do\<close>; \<open>for (init; cond; step) body\<close> is the declaration followed by a
  \<open>While\<close> whose body ends with the step (no emitted loop has a \<open>continue\<close>).  \<open>Goto\<close> names
  the address in its label.
\<close>

datatype cstmt =
    Decl ctype string cexpr
  | SetLocal string cexpr
  | SetField cfield cexpr
  | SetElem carray cexpr cexpr
  | Do cexpr
  | If cexpr "cstmt list" "cstmt list"
  | While cexpr "cstmt list"
  | Return
  | Goto u32

fun type_of :: "cval \<Rightarrow> ctype" where
  "type_of (VU8 x) = U8"
| "type_of (VU16 x) = U16"
| "type_of (VU32 x) = U32"
| "type_of (VU64 x) = U64"
| "type_of (VS8 x) = S8"
| "type_of (VS16 x) = S16"
| "type_of (VS32 x) = S32"
| "type_of (VS64 x) = S64"
| "type_of (VBool b) = Bool"
| "type_of (VF64 x) = F64"

datatype 'e exit = Falls "'e CPUState" | Returns "'e CPUState" | Jumps u32 "'e CPUState"

partial_function (option) exec :: "'e machine \<Rightarrow> cstmt list \<Rightarrow> locals \<Rightarrow> 'e CPUState \<Rightarrow> 'e exit option" where
  "exec m code env cpu = (case code of
     [] \<Rightarrow> Some (Falls cpu)
   | stmt # rest \<Rightarrow> (case stmt of
       Decl t x e \<Rightarrow> do { (v, cpu) \<leftarrow> eval m env e cpu; exec m rest (env(x \<mapsto> cast t v)) cpu }
     | SetLocal x e \<Rightarrow> do {
         (v, cpu) \<leftarrow> eval m env e cpu;
         old \<leftarrow> env x;
         exec m rest (env(x \<mapsto> cast (type_of old) v)) cpu }
     | SetField f e \<Rightarrow> do { (v, cpu) \<leftarrow> eval m env e cpu; exec m rest env (set_field f (to_u32 v) cpu) }
     | SetElem a ie e \<Rightarrow> do {
         (v, cpu) \<leftarrow> eval m env e cpu;
         (i, cpu) \<leftarrow> eval m env ie cpu;
         cpu \<leftarrow> set_elem a (to_nat i) v cpu;
         exec m rest env cpu }
     | Do e \<Rightarrow> do { (v, cpu) \<leftarrow> eval m env e cpu; exec m rest env cpu }
     | If e yes no \<Rightarrow> do {
         (v, cpu) \<leftarrow> eval m env e cpu;
         exec m ((if truth v then yes else no) @ rest) env cpu }
     | While e body \<Rightarrow> do {
         (v, cpu) \<leftarrow> eval m env e cpu;
         if truth v then exec m (body @ While e body # rest) env cpu else exec m rest env cpu }
     | Return \<Rightarrow> Some (Returns cpu)
     | Goto target \<Rightarrow> Some (Jumps target cpu)))"

declare exec.simps [code]

text \<open>One equation per statement; \<open>exec\<close> runs a fixed fragment by \<open>simp\<close>.\<close>

named_theorems run \<open>evaluation of the C fragment\<close>

lemma exec_Nil [run]:
  "exec m [] env cpu = Some (Falls cpu)"
  by (subst exec.simps) simp

lemma exec_Decl [run]:
  "exec m (Decl t x e # rest) env cpu =
    do { (v, cpu) \<leftarrow> eval m env e cpu; exec m rest (env(x \<mapsto> cast t v)) cpu }"
  by (subst exec.simps) simp

lemma exec_SetLocal [run]:
  "exec m (SetLocal x e # rest) env cpu = do {
     (v, cpu) \<leftarrow> eval m env e cpu;
     old \<leftarrow> env x;
     exec m rest (env(x \<mapsto> cast (type_of old) v)) cpu }"
  by (subst exec.simps) simp

lemma exec_SetField [run]:
  "exec m (SetField f e # rest) env cpu =
    do { (v, cpu) \<leftarrow> eval m env e cpu; exec m rest env (set_field f (to_u32 v) cpu) }"
  by (subst exec.simps) simp

lemma exec_SetElem [run]:
  "exec m (SetElem a ie e # rest) env cpu = do {
     (v, cpu) \<leftarrow> eval m env e cpu;
     (i, cpu) \<leftarrow> eval m env ie cpu;
     cpu \<leftarrow> set_elem a (to_nat i) v cpu;
     exec m rest env cpu }"
  by (subst exec.simps) simp

lemma exec_Do [run]:
  "exec m (Do e # rest) env cpu = do { (v, cpu) \<leftarrow> eval m env e cpu; exec m rest env cpu }"
  by (subst exec.simps) simp

lemma exec_Return [run]:
  "exec m (Return # rest) env cpu = Some (Returns cpu)"
  by (subst exec.simps) simp

lemma exec_Goto [run]:
  "exec m (Goto target # rest) env cpu = Some (Jumps target cpu)"
  by (subst exec.simps) simp

lemma exec_If [run]:
  "exec m (If e yes no # rest) env cpu = do {
     (v, cpu) \<leftarrow> eval m env e cpu;
     if truth v then exec m (yes @ rest) env cpu else exec m (no @ rest) env cpu }"
  by (subst exec.simps) (auto intro!: Option.bind_cong)

text \<open>A loop is unfolded on demand only.\<close>

lemma exec_While:
  "exec m (While e body # rest) env cpu = do {
     (v, cpu) \<leftarrow> eval m env e cpu;
     if truth v then exec m (body @ While e body # rest) env cpu else exec m rest env cpu }"
  by (subst exec.simps) simp



end
