(* ===== verification/Emitter.thy ===== *)
theory Emitter
  imports EmitC Decoder
begin

text \<open>
  What the recompiler writes for an instruction: src/DolRecomp/src/backend/emitter.c,
  emitter_integer.c, emitter_branch.c and emitter_system.c, as functions from a decoded
  instruction to statements of the C fragment.  Each definition writes the statements of its
  format strings in their order; comments are left out.  A number printed with \<open>%u\<close> or \<open>%d\<close> is a
  C literal of type int, one printed with \<open>%uu\<close> or \<open>0x%08Xu\<close> of type unsigned.
\<close>

section \<open>Literals and names\<close>

abbreviation num :: "u32 \<Rightarrow> cexpr" where "num n \<equiv> Lit (VS32 n)"
abbreviation unum :: "u32 \<Rightarrow> cexpr" where "unum n \<equiv> Lit (VU32 n)"
abbreviation gpr_at :: "u8 \<Rightarrow> cexpr" where "gpr_at r \<equiv> Elem A_gpr (num (ucast r))"
abbreviation fpr_at :: "u8 \<Rightarrow> cexpr" where "fpr_at r \<equiv> Elem A_fpr (num (ucast r))"
abbreviation ps1_at :: "u8 \<Rightarrow> cexpr" where "ps1_at r \<equiv> Elem A_ps1 (num (ucast r))"
abbreviation set_gpr :: "u8 \<Rightarrow> cexpr \<Rightarrow> cstmt" where "set_gpr r e \<equiv> SetElem A_gpr (num (ucast r)) e"
abbreviation set_fpr :: "u8 \<Rightarrow> cexpr \<Rightarrow> cstmt" where "set_fpr r e \<equiv> SetElem A_fpr (num (ucast r)) e"
abbreviation set_ps1 :: "u8 \<Rightarrow> cexpr \<Rightarrow> cstmt" where "set_ps1 r e \<equiv> SetElem A_ps1 (num (ucast r)) e"
abbreviation simm_at :: "PPCInst \<Rightarrow> cexpr" where "simm_at inst \<equiv> num (scast (simm_f inst))"
abbreviation simm_u32 :: "u16 \<Rightarrow> cexpr" where "simm_u32 s \<equiv> Cast U32 (Cast S32 (num (scast s)))"
abbreviation uimm_at :: "PPCInst \<Rightarrow> cexpr" where "uimm_at inst \<equiv> unum (ucast (uimm_f inst))"
abbreviation cia_at :: "PPCInst \<Rightarrow> cexpr" where "cia_at inst \<equiv> unum (address_of inst)"
abbreviation or_local :: "string \<Rightarrow> cexpr \<Rightarrow> cstmt" where "or_local x e \<equiv> SetLocal x (Bin BitOr (Local x) e)"
abbreviation only_if :: "cexpr \<Rightarrow> cstmt list \<Rightarrow> cstmt" where "only_if c body \<equiv> If c body []"
abbreviation for_loop :: "string \<Rightarrow> cexpr \<Rightarrow> cexpr \<Rightarrow> cstmt list \<Rightarrow> cstmt list \<Rightarrow> cstmt list" where
  "for_loop x init cond step body \<equiv> [Decl U32 x init, While cond (body @ step)]"

abbreviation PPC_PROGRAM_TRAP :: u32 where "PPC_PROGRAM_TRAP \<equiv> 0x00020000"

section \<open>Condition register\<close>

definition cr_field_shift :: "u8 \<Rightarrow> u32" where
  "cr_field_shift crf = 4 * (7 - ucast crf)"

text \<open>\<open>None\<close>: a shift by 32 or more, which C leaves undefined, or a loop that does not end.\<close>

partial_function (option) ppc_mask32_loop :: "u8 \<Rightarrow> u8 \<Rightarrow> u32 \<Rightarrow> u32 option" where
  "ppc_mask32_loop b me m =
     (if b \<ge> 32 then None
      else let m = m OR drop_bit (unat b) 0x80000000
           in if b = me then Some m else ppc_mask32_loop ((b + 1) AND 31) me m)"

declare ppc_mask32_loop.simps [code]

definition ppc_mask32 :: "u8 \<Rightarrow> u8 \<Rightarrow> u32 option" where
  "ppc_mask32 mb me = ppc_mask32_loop mb me 0"

definition emit_set_cr0_from_gpr :: "u8 \<Rightarrow> cstmt list" where
  "emit_set_cr0_from_gpr reg =
     [Decl U32 ''cr_bits'' (num 0),
      Decl S32 ''cr_value'' (Cast S32 (gpr_at reg)),
      only_if (Bin Lt (Local ''cr_value'') (num 0)) [or_local ''cr_bits'' (unum 8)],
      only_if (Bin Gt (Local ''cr_value'') (num 0)) [or_local ''cr_bits'' (unum 4)],
      only_if (Bin Eq (Local ''cr_value'') (num 0)) [or_local ''cr_bits'' (unum 2)],
      or_local ''cr_bits'' (Bin BitAnd (Bin Shr (Field F_xer) (num 31)) (unum 1)),
      SetField F_cr (Bin BitOr (Bin BitAnd (Field F_cr) (unum 0x0FFFFFFF)) (Bin Shl (Local ''cr_bits'') (num 28)))]"

definition emit_set_cr1_from_fpscr :: "cstmt list" where
  "emit_set_cr1_from_fpscr =
     [SetField F_cr (Bin BitOr (Bin BitAnd (Field F_cr) (unum 0xF0FFFFFF))
        (Bin BitAnd (Bin Shr (Field F_fpscr) (num 4)) (unum 0x0F000000)))]"

definition set_cr_bits :: "u32 \<Rightarrow> cexpr \<Rightarrow> cstmt" where
  "set_cr_bits shift bits = SetField F_cr (Bin BitOr
     (Bin BitAnd (Field F_cr) (Com (Bin Shl (unum 0xF) (num shift)))) (Bin Shl bits (num shift)))"

definition emit_compare_s32 :: "u8 \<Rightarrow> cexpr \<Rightarrow> cexpr \<Rightarrow> cstmt list" where
  "emit_compare_s32 crf lhs rhs =
     [Decl S32 ''val_a'' (Cast S32 lhs),
      Decl S32 ''val_b'' (Cast S32 rhs),
      Decl U32 ''cr_bits'' (num 0),
      only_if (Bin Lt (Local ''val_a'') (Local ''val_b'')) [or_local ''cr_bits'' (unum 8)],
      only_if (Bin Gt (Local ''val_a'') (Local ''val_b'')) [or_local ''cr_bits'' (unum 4)],
      only_if (Bin Eq (Local ''val_a'') (Local ''val_b'')) [or_local ''cr_bits'' (unum 2)],
      or_local ''cr_bits'' (Bin BitAnd (Bin Shr (Field F_xer) (num 31)) (unum 1)),
      set_cr_bits (cr_field_shift crf) (Local ''cr_bits'')]"

definition emit_compare_u32 :: "u8 \<Rightarrow> cexpr \<Rightarrow> cexpr \<Rightarrow> cstmt list" where
  "emit_compare_u32 crf lhs rhs =
     [Decl U32 ''val_a'' (Cast U32 lhs),
      Decl U32 ''val_b'' (Cast U32 rhs),
      Decl U32 ''cr_bits'' (num 0),
      only_if (Bin Lt (Local ''val_a'') (Local ''val_b'')) [or_local ''cr_bits'' (unum 8)],
      only_if (Bin Gt (Local ''val_a'') (Local ''val_b'')) [or_local ''cr_bits'' (unum 4)],
      only_if (Bin Eq (Local ''val_a'') (Local ''val_b'')) [or_local ''cr_bits'' (unum 2)],
      or_local ''cr_bits'' (Bin BitAnd (Bin Shr (Field F_xer) (num 31)) (unum 1)),
      set_cr_bits (cr_field_shift crf) (Local ''cr_bits'')]"

section \<open>Effective addresses, loads and stores\<close>

definition emit_dform_ea :: "u8 \<Rightarrow> u16 \<Rightarrow> bool \<Rightarrow> cexpr" where
  "emit_dform_ea ra simm update =
     (if ra = 0 \<and> \<not> update then simm_u32 simm else Bin Add (gpr_at ra) (simm_u32 simm))"

definition emit_xform_ea :: "u8 \<Rightarrow> u8 \<Rightarrow> bool \<Rightarrow> cexpr" where
  "emit_xform_ea ra rb update =
     (if ra = 0 \<and> \<not> update then gpr_at rb else Bin Add (gpr_at ra) (gpr_at rb))"

abbreviation ea_local :: cexpr where "ea_local \<equiv> Local ''ea''"

definition emit_load :: "PPCInst \<Rightarrow> cexpr \<Rightarrow> bool \<Rightarrow> cstmt list" where
  "emit_load inst read_expr update =
     [Decl U32 ''ea'' (emit_dform_ea (rA_f inst) (simm_f inst) update),
      set_gpr (rD_f inst) read_expr] @
     (if update then [set_gpr (rA_f inst) ea_local] else [])"

definition emit_loadx :: "PPCInst \<Rightarrow> cexpr \<Rightarrow> bool \<Rightarrow> cstmt list" where
  "emit_loadx inst read_expr update =
     [Decl U32 ''ea'' (emit_xform_ea (rA_f inst) (rB_f inst) update),
      set_gpr (rD_f inst) read_expr] @
     (if update then [set_gpr (rA_f inst) ea_local] else [])"

definition emit_store :: "PPCInst \<Rightarrow> callee \<Rightarrow> ctype \<Rightarrow> bool \<Rightarrow> cstmt list" where
  "emit_store inst write_func cast_type update =
     [Decl U32 ''ea'' (emit_dform_ea (rA_f inst) (simm_f inst) update),
      Do (Call write_func [ea_local, Cast cast_type (gpr_at (rS_f inst))])] @
     (if update then [set_gpr (rA_f inst) ea_local] else [])"

definition emit_storex :: "PPCInst \<Rightarrow> callee \<Rightarrow> ctype \<Rightarrow> bool \<Rightarrow> cstmt list" where
  "emit_storex inst write_func cast_type update =
     [Decl U32 ''ea'' (emit_xform_ea (rA_f inst) (rB_f inst) update),
      Do (Call write_func [ea_local, Cast cast_type (gpr_at (rS_f inst))])] @
     (if update then [set_gpr (rA_f inst) ea_local] else [])"

definition emit_fload :: "PPCInst \<Rightarrow> bool \<Rightarrow> bool \<Rightarrow> cstmt list" where
  "emit_fload inst single update =
     [Decl U32 ''ea'' (emit_dform_ea (rA_f inst) (simm_f inst) update),
      only_if (Lnot (Call (if single then c_lfs_op else c_lfd_op) [unum (ucast (rD_f inst)), ea_local, cia_at inst]))
        [Return]] @
     (if update then [set_gpr (rA_f inst) ea_local] else [])"

definition emit_floadx :: "PPCInst \<Rightarrow> bool \<Rightarrow> bool \<Rightarrow> cstmt list" where
  "emit_floadx inst single update =
     [Decl U32 ''ea'' (emit_xform_ea (rA_f inst) (rB_f inst) update),
      only_if (Lnot (Call (if single then c_lfs_op else c_lfd_op) [unum (ucast (rD_f inst)), ea_local, cia_at inst]))
        [Return]] @
     (if update then [set_gpr (rA_f inst) ea_local] else [])"

definition emit_fstore :: "PPCInst \<Rightarrow> bool \<Rightarrow> bool \<Rightarrow> cstmt list" where
  "emit_fstore inst single update =
     [Decl U32 ''ea'' (emit_dform_ea (rA_f inst) (simm_f inst) update),
      only_if (Lnot (Call (if single then c_stfs_op else c_stfd_op) [unum (ucast (rS_f inst)), ea_local, cia_at inst]))
        [Return]] @
     (if update then [set_gpr (rA_f inst) ea_local] else [])"

definition emit_fstorex :: "PPCInst \<Rightarrow> bool \<Rightarrow> bool \<Rightarrow> cstmt list" where
  "emit_fstorex inst single update =
     [Decl U32 ''ea'' (emit_xform_ea (rA_f inst) (rB_f inst) update),
      only_if (Lnot (Call (if single then c_stfs_op else c_stfd_op) [unum (ucast (rS_f inst)), ea_local, cia_at inst]))
        [Return]] @
     (if update then [set_gpr (rA_f inst) ea_local] else [])"

abbreviation bool_lit :: "bool \<Rightarrow> cexpr" where "bool_lit b \<equiv> Lit (VBool b)"

definition emit_psq_load :: "PPCInst \<Rightarrow> bool \<Rightarrow> bool \<Rightarrow> cstmt list" where
  "emit_psq_load inst indexed update =
     [Decl U32 ''ea'' (if indexed then emit_xform_ea (rA_f inst) (rB_f inst) update
        else emit_dform_ea (rA_f inst) (simm_f inst) update),
      only_if (Lnot (Call (c_helper ''ppc_psq_load'') [unum (ucast (rD_f inst)), ea_local, bool_lit (w_f inst \<noteq> 0),
          unum (ucast (i_f inst)), bool_lit indexed, cia_at inst])) [Return]] @
     (if update then [set_gpr (rA_f inst) ea_local] else [])"

definition emit_psq_store :: "PPCInst \<Rightarrow> bool \<Rightarrow> bool \<Rightarrow> cstmt list" where
  "emit_psq_store inst indexed update =
     [Decl U32 ''ea'' (if indexed then emit_xform_ea (rA_f inst) (rB_f inst) update
        else emit_dform_ea (rA_f inst) (simm_f inst) update),
      only_if (Lnot (Call (c_helper ''ppc_psq_store'') [unum (ucast (rS_f inst)), ea_local, bool_lit (w_f inst \<noteq> 0),
          unum (ucast (i_f inst)), bool_lit indexed, cia_at inst])) [Return]] @
     (if update then [set_gpr (rA_f inst) ea_local] else [])"

definition emit_dcbz :: "PPCInst \<Rightarrow> cstmt list" where
  "emit_dcbz inst =
     [Decl U32 ''ea'' (emit_xform_ea (rA_f inst) (rB_f inst) False),
      SetLocal ''ea'' (Bin BitAnd ea_local (Com (unum 31)))] @
     for_loop ''i'' (num 0) (Bin Lt (Local ''i'') (num 32)) [SetLocal ''i'' (Bin Add (Local ''i'') (num 4))]
       [Do (Call c_mem_write32 [Bin Add ea_local (Local ''i''), num 0])]"

section \<open>Branches\<close>

definition emit_branch_condition :: "u8 \<Rightarrow> u8 \<Rightarrow> cstmt list" where
  "emit_branch_condition bo bi =
     (let ctr_ignored = bo AND 0x04 \<noteq> 0; cond_ignored = bo AND 0x10 \<noteq> 0
      in (if \<not> ctr_ignored
          then [SetField F_ctr (Bin Sub (Field F_ctr) (num 1)),
                Decl Bool ''ctr_ok'' (Bin Ne (Bin BitXor
                  (Cond (Bin Ne (Field F_ctr) (num 0)) (unum 1) (unum 0))
                  (unum (ucast (drop_bit 1 bo AND 1)))) (num 0))]
          else [Decl Bool ''ctr_ok'' (bool_lit True)]) @
         (if \<not> cond_ignored
          then [Decl Bool ''cr_ok'' (Bin Eq
                  (Bin Ne (Bin BitAnd (Field F_cr) (unum (drop_bit (unat bi) 0x80000000))) (num 0))
                  (bool_lit (drop_bit 3 bo AND 1 \<noteq> 0)))]
          else [Decl Bool ''cr_ok'' (bool_lit True)]))"

definition branch_target_is_local :: "u32 \<Rightarrow> u32 \<Rightarrow> u32 \<Rightarrow> bool" where
  "branch_target_is_local func_start func_end target \<longleftrightarrow>
     target \<ge> func_start \<and> target < func_end \<and> (target - func_start) AND 3 = 0"

definition emit_direct_branch :: "PPCInst \<Rightarrow> bool \<Rightarrow> cstmt list" where
  "emit_direct_branch inst local_target =
     (let local_backward = local_target \<and> branch_target inst \<le> address_of inst
      in if lk_f inst
         then [SetField F_lr (unum (address_of inst + 4)), SetField F_pc (unum (branch_target inst)), Return]
         else if local_backward then [SetField F_pc (unum (branch_target inst)), Return]
         else if local_target then [Goto (branch_target inst)]
         else [SetField F_pc (unum (branch_target inst)), Return])"

definition emit_dynamic_branch :: "PPCInst \<Rightarrow> cexpr \<Rightarrow> cstmt list" where
  "emit_dynamic_branch inst target_expr =
     (if lk_f inst then [SetField F_lr (unum (address_of inst + 4))] else []) @
     [SetField F_pc target_expr, Return]"

definition emit_branch_instruction :: "PPCInst \<Rightarrow> u32 \<Rightarrow> u32 \<Rightarrow> cstmt list option" where
  "emit_branch_instruction inst func_start func_end =
     (let op = op_f inst;
          direct = emit_direct_branch inst (branch_target_is_local func_start func_end (branch_target inst));
          taken = Conj (Local ''ctr_ok'') (Local ''cr_ok'')
      in if op = PPC_OP_B then Some direct
         else if op = PPC_OP_BC then
           Some (emit_branch_condition (bo_f inst) (bi_f inst) @ [only_if taken direct])
         else if op = PPC_OP_BCLR then
           Some (emit_branch_condition (bo_f inst) (bi_f inst) @
             [only_if taken (emit_dynamic_branch inst (Bin BitAnd (Field F_lr) (Com (unum 3))))])
         else if op = PPC_OP_BCCTR then
           Some (emit_branch_condition (bo_f inst) (bi_f inst) @
             [only_if taken (emit_dynamic_branch inst (Bin BitAnd (Field F_ctr) (Com (unum 3))))])
         else if op = PPC_OP_SC then Some [Do (Call c_system_call_exception [cia_at inst]), Return]
         else if op = PPC_OP_RFI then Some [Do (Call c_rfi [cia_at inst]), Return]
         else None)"

section \<open>Integer instructions\<close>

text \<open>The switch of \<open>emit_integer_instruction\<close>, one definition per group of cases.\<close>

definition emit_record_if_needed :: "PPCInst \<Rightarrow> u8 \<Rightarrow> cstmt list" where
  "emit_record_if_needed inst reg = (if rc_f inst then emit_set_cr0_from_gpr reg else [])"

abbreviation set_carry :: "cexpr \<Rightarrow> cstmt" where
  "set_carry wide \<equiv> SetField F_xer (Bin BitOr (Bin BitAnd (Field F_xer) (Com (unum 0x20000000)))
     (Bin Shl (Bin BitAnd (Cast U32 (Bin Shr wide (num 32))) (unum 1)) (num 29)))"

abbreviation set_carry_if :: "cexpr \<Rightarrow> cstmt" where
  "set_carry_if c \<equiv> SetField F_xer (Bin BitOr (Bin BitAnd (Field F_xer) (Com (unum 0x20000000)))
     (Cond c (unum 0x20000000) (unum 0)))"

abbreviation carry_in :: cexpr where
  "carry_in \<equiv> Bin BitAnd (Bin Shr (Field F_xer) (num 29)) (unum 1)"

definition set_overflow :: "PPCInst \<Rightarrow> cexpr \<Rightarrow> cstmt list" where
  "set_overflow inst e = (if oe_f inst then [Do (Call c_set_xer_ov [e])] else [])"

abbreviation add_overflow :: "cexpr \<Rightarrow> cexpr \<Rightarrow> cexpr \<Rightarrow> cexpr" where
  "add_overflow a b r \<equiv> Call c_add_overflowed [a, b, r]"

definition emit_add_immediate :: "PPCInst \<Rightarrow> cstmt list option" where
  "emit_add_immediate inst =
     (let op = op_f inst
      in if op = PPC_OP_MULLI then
           Some [set_gpr (rD_f inst) (Cast U32 (Bin Mul (Cast S64 (Cast S32 (gpr_at (rA_f inst))))
             (Cast S64 (Cast S32 (simm_at inst)))))]
         else if op = PPC_OP_SUBFIC then
           Some [Decl U64 ''res'' (Bin Add (Bin Add (Cast U64 (simm_u32 (simm_f inst)))
                   (Cast U64 (Com (gpr_at (rA_f inst))))) (unum 1)),
                 set_gpr (rD_f inst) (Cast U32 (Local ''res'')),
                 set_carry (Local ''res'')]
         else if op = PPC_OP_ADDI then
           Some [set_gpr (rD_f inst) (if rA_f inst = 0 then simm_u32 (simm_f inst)
             else Bin Add (gpr_at (rA_f inst)) (simm_u32 (simm_f inst)))]
         else if op = PPC_OP_ADDIC \<or> op = PPC_OP_ADDIC_DOT then
           Some ([Decl U64 ''a'' (gpr_at (rA_f inst)),
                  Decl U64 ''b'' (simm_u32 (simm_f inst)),
                  Decl U64 ''res'' (Bin Add (Local ''a'') (Local ''b'')),
                  set_gpr (rD_f inst) (Cast U32 (Local ''res'')),
                  set_carry (Local ''res'')] @
                 (if op = PPC_OP_ADDIC_DOT then emit_set_cr0_from_gpr (rD_f inst) else []))
         else if op = PPC_OP_ADDIS then
           Some [set_gpr (rD_f inst) (if rA_f inst = 0 then Bin Shl (simm_u32 (simm_f inst)) (num 16)
             else Bin Add (gpr_at (rA_f inst)) (Bin Shl (simm_u32 (simm_f inst)) (num 16)))]
         else None)"

definition emit_compare :: "PPCInst \<Rightarrow> cstmt list option" where
  "emit_compare inst =
     (let op = op_f inst
      in if op = PPC_OP_CMPI then Some (emit_compare_s32 (crfD_f inst) (gpr_at (rA_f inst)) (simm_at inst))
         else if op = PPC_OP_CMPLI then Some (emit_compare_u32 (crfD_f inst) (gpr_at (rA_f inst)) (uimm_at inst))
         else if op = PPC_OP_CMP then
           Some (emit_compare_s32 (crfD_f inst) (gpr_at (rA_f inst)) (gpr_at (rB_f inst)))
         else if op = PPC_OP_CMPL then
           Some (emit_compare_u32 (crfD_f inst) (gpr_at (rA_f inst)) (gpr_at (rB_f inst)))
         else None)"

definition emit_logical_immediate :: "PPCInst \<Rightarrow> cstmt list option" where
  "emit_logical_immediate inst =
     (let op = op_f inst; s = gpr_at (rS_f inst); high = Bin Shl (uimm_at inst) (num 16)
      in if op = PPC_OP_ORI then
           (if rS_f inst = 0 \<and> rA_f inst = 0 \<and> uimm_f inst = 0 then Some []
            else Some [set_gpr (rA_f inst) (Bin BitOr s (uimm_at inst))])
         else if op = PPC_OP_ORIS then Some [set_gpr (rA_f inst) (Bin BitOr s high)]
         else if op = PPC_OP_XORI then Some [set_gpr (rA_f inst) (Bin BitXor s (uimm_at inst))]
         else if op = PPC_OP_XORIS then Some [set_gpr (rA_f inst) (Bin BitXor s high)]
         else if op = PPC_OP_ANDI then
           Some (set_gpr (rA_f inst) (Bin BitAnd s (uimm_at inst)) # emit_set_cr0_from_gpr (rA_f inst))
         else if op = PPC_OP_ANDIS then
           Some (set_gpr (rA_f inst) (Bin BitAnd s high) # emit_set_cr0_from_gpr (rA_f inst))
         else None)"

definition emit_add :: "PPCInst \<Rightarrow> cstmt list option" where
  "emit_add inst =
     (let op = op_f inst; d = rD_f inst; ra = gpr_at (rA_f inst); rb = gpr_at (rB_f inst);
          a = Local ''a''; b = Local ''b''; res = Local ''res''; wide = Local ''wide'';
          input = Local ''input''; carry = Local ''carry'';
          finish = (\<lambda>ov. set_overflow inst ov @ emit_record_if_needed inst d)
      in if op = PPC_OP_ADD \<or> op = PPC_OP_ADDO then
           Some ([Decl U32 ''a'' ra, Decl U32 ''b'' rb, Decl U32 ''res'' (Bin Add a b), set_gpr d res] @
                 finish (add_overflow a b res))
         else if op = PPC_OP_ADDC \<or> op = PPC_OP_ADDCO then
           Some ([Decl U32 ''a'' ra, Decl U32 ''b'' rb,
                  Decl U64 ''wide'' (Bin Add (Cast U64 a) (Cast U64 b)),
                  Decl U32 ''res'' (Cast U32 wide), set_gpr d res, set_carry wide] @
                 finish (add_overflow a b res))
         else if op = PPC_OP_ADDE \<or> op = PPC_OP_ADDEO then
           Some ([Decl U32 ''carry'' carry_in, Decl U32 ''a'' ra, Decl U32 ''b'' rb,
                  Decl U64 ''wide'' (Bin Add (Bin Add (Cast U64 a) (Cast U64 b)) carry),
                  Decl U32 ''res'' (Cast U32 wide), set_gpr d res, set_carry wide] @
                 finish (add_overflow a b res))
         else if op = PPC_OP_ADDME \<or> op = PPC_OP_ADDMEO then
           Some ([Decl U32 ''input'' ra, Decl U32 ''carry'' carry_in,
                  Decl U64 ''res'' (Bin Add (Bin Add (Cast U64 input) (Lit (VU64 0xFFFFFFFF))) carry),
                  set_gpr d (Cast U32 res), set_carry_if (Bin Shr res (num 32))] @
                 finish (add_overflow input (unum 0xFFFFFFFF) (Cast U32 res)))
         else if op = PPC_OP_ADDZE \<or> op = PPC_OP_ADDZEO then
           Some ([Decl U32 ''a'' ra, Decl U64 ''wide'' (Bin Add (Cast U64 a) carry_in),
                  Decl U32 ''res'' (Cast U32 wide), set_gpr d res, set_carry wide] @
                 finish (add_overflow a (unum 0) res))
         else None)"

definition emit_subtract :: "PPCInst \<Rightarrow> cstmt list option" where
  "emit_subtract inst =
     (let op = op_f inst; d = rD_f inst; na = Com (gpr_at (rA_f inst)); rb = gpr_at (rB_f inst);
          a = Local ''a''; b = Local ''b''; res = Local ''res''; wide = Local ''wide'';
          input = Local ''input''; carry = Local ''carry'';
          finish = (\<lambda>ov. set_overflow inst ov @ emit_record_if_needed inst d)
      in if op = PPC_OP_SUBF \<or> op = PPC_OP_SUBFO then
           Some ([Decl U32 ''a'' na, Decl U32 ''b'' rb,
                  Decl U32 ''res'' (Bin Add (Bin Add a b) (unum 1)), set_gpr d res] @
                 finish (add_overflow a b res))
         else if op = PPC_OP_SUBFC \<or> op = PPC_OP_SUBFCO then
           Some ([Decl U32 ''a'' na, Decl U32 ''b'' rb,
                  Decl U64 ''wide'' (Bin Add (Bin Add (Cast U64 b) (Cast U64 a)) (unum 1)),
                  Decl U32 ''res'' (Cast U32 wide), set_gpr d res, set_carry wide] @
                 finish (add_overflow a b res))
         else if op = PPC_OP_SUBFE \<or> op = PPC_OP_SUBFEO then
           Some ([Decl U32 ''a'' na, Decl U32 ''b'' rb, Decl U32 ''carry'' carry_in,
                  Decl U64 ''wide'' (Bin Add (Bin Add (Cast U64 a) (Cast U64 b)) carry),
                  Decl U32 ''res'' (Cast U32 wide), set_gpr d res, set_carry wide] @
                 finish (add_overflow a b res))
         else if op = PPC_OP_SUBFME \<or> op = PPC_OP_SUBFMEO then
           Some ([Decl U32 ''input'' na, Decl U32 ''carry'' carry_in,
                  Decl U64 ''res'' (Bin Add (Bin Add (Cast U64 input) (Lit (VU64 0xFFFFFFFF))) carry),
                  set_gpr d (Cast U32 res), set_carry_if (Bin Shr res (num 32))] @
                 finish (add_overflow input (unum 0xFFFFFFFF) (Cast U32 res)))
         else if op = PPC_OP_SUBFZE \<or> op = PPC_OP_SUBFZEO then
           Some ([Decl U32 ''a'' na, Decl U64 ''wide'' (Bin Add (Cast U64 a) carry_in),
                  Decl U32 ''res'' (Cast U32 wide), set_gpr d res, set_carry wide] @
                 finish (add_overflow a (unum 0) res))
         else if op = PPC_OP_NEG \<or> op = PPC_OP_NEGO then
           Some ([Decl U32 ''a'' (gpr_at (rA_f inst)), set_gpr d (Bin Add (Com a) (unum 1))] @
                 finish (Bin Eq a (unum 0x80000000)))
         else None)"

definition emit_multiply_divide :: "PPCInst \<Rightarrow> cstmt list option" where
  "emit_multiply_divide inst =
     (let op = op_f inst; d = rD_f inst; ra = gpr_at (rA_f inst); rb = gpr_at (rB_f inst);
          product = Local ''product''; dividend = Local ''dividend''; divisor = Local ''divisor'';
          ov = Local ''ov'';
          signed = Decl S64 ''product'' (Bin Mul (Cast S64 (Cast S32 ra)) (Cast S64 (Cast S32 rb)));
          record = emit_record_if_needed inst d
      in if op = PPC_OP_MULLW \<or> op = PPC_OP_MULLWO then
           Some ([signed, set_gpr d (Cast U32 product)] @
                 set_overflow inst (Disj (Bin Lt product (Lit (VS64 (- 0x80000000))))
                   (Bin Gt product (Lit (VS64 0x7FFFFFFF)))) @ record)
         else if op = PPC_OP_MULHW then
           Some ([signed, set_gpr d (Cast U32 (Bin Shr product (num 32)))] @ record)
         else if op = PPC_OP_MULHWU then
           Some ([Decl U64 ''product'' (Bin Mul (Cast U64 ra) (Cast U64 rb)),
                  set_gpr d (Cast U32 (Bin Shr product (num 32)))] @ record)
         else if op = PPC_OP_DIVW \<or> op = PPC_OP_DIVWO then
           Some ([Decl S32 ''dividend'' (Cast S32 ra), Decl S32 ''divisor'' (Cast S32 rb),
                  Decl Bool ''ov'' (Disj (Bin Eq divisor (num 0))
                    (Conj (Bin Eq (Cast U32 dividend) (unum 0x80000000)) (Bin Eq divisor (num (- 1))))),
                  set_gpr d (Cond ov (Cond (Bin Lt dividend (num 0)) (unum 0xFFFFFFFF) (unum 0))
                    (Cast U32 (Bin Div dividend divisor)))] @
                 set_overflow inst ov @ record)
         else if op = PPC_OP_DIVWU \<or> op = PPC_OP_DIVWUO then
           Some ([Decl U32 ''divisor'' rb,
                  set_gpr d (Cond (Bin Eq divisor (num 0)) (unum 0) (Bin Div ra divisor))] @
                 set_overflow inst (Bin Eq divisor (num 0)) @ record)
         else None)"

definition emit_logical :: "PPCInst \<Rightarrow> cstmt list option" where
  "emit_logical inst =
     (let op = op_f inst; s = gpr_at (rS_f inst); b = gpr_at (rB_f inst);
          assign = (\<lambda>e. Some (set_gpr (rA_f inst) e # emit_record_if_needed inst (rA_f inst)))
      in if op = PPC_OP_AND then assign (Bin BitAnd s b)
         else if op = PPC_OP_ANDC then assign (Bin BitAnd s (Com b))
         else if op = PPC_OP_OR then assign (Bin BitOr s b)
         else if op = PPC_OP_ORC then assign (Bin BitOr s (Com b))
         else if op = PPC_OP_XOR then assign (Bin BitXor s b)
         else if op = PPC_OP_NAND then assign (Com (Bin BitAnd s b))
         else if op = PPC_OP_NOR then assign (Com (Bin BitOr s b))
         else if op = PPC_OP_EQV then assign (Com (Bin BitXor s b))
         else None)"

definition emit_count_extend :: "PPCInst \<Rightarrow> cstmt list option" where
  "emit_count_extend inst =
     (let op = op_f inst; a = rA_f inst; s = gpr_at (rS_f inst);
          n = Local ''n''; record = emit_record_if_needed inst a
      in if op = PPC_OP_CNTLZW then
           Some ([Decl U32 ''v'' s, Decl U32 ''n'' (num 0),
                  While (Conj (Bin Lt n (num 32))
                      (Bin Eq (Bin BitAnd (Local ''v'') (Bin Shr (unum 0x80000000) n)) (num 0)))
                    [SetLocal ''n'' (Bin Add n (num 1))],
                  set_gpr a n] @ record)
         else if op = PPC_OP_EXTSB then Some (set_gpr a (Cast U32 (Cast S32 (Cast S8 s))) # record)
         else if op = PPC_OP_EXTSH then Some (set_gpr a (Cast U32 (Cast S32 (Cast S16 s))) # record)
         else None)"

definition emit_shift :: "PPCInst \<Rightarrow> cstmt list option" where
  "emit_shift inst =
     (let op = op_f inst; a = rA_f inst; s = gpr_at (rS_f inst); sh = Local ''sh''; value = Local ''value'';
          amount = Bin BitAnd (gpr_at (rB_f inst)) (unum 0x3F);
          negative = Bin BitAnd value (unum 0x80000000);
          record = emit_record_if_needed inst a
      in if op = PPC_OP_SLW then
           Some ([Decl U32 ''sh'' amount,
                  set_gpr a (Cond (Bin Gt sh (num 31)) (unum 0) (Bin Shl s sh))] @ record)
         else if op = PPC_OP_SRW then
           Some ([Decl U32 ''sh'' amount,
                  set_gpr a (Cond (Bin Gt sh (num 31)) (unum 0) (Bin Shr s sh))] @ record)
         else if op = PPC_OP_SRAW \<or> op = PPC_OP_SRAWI then
           Some ([Decl U32 ''sh'' (if op = PPC_OP_SRAWI then unum (ucast (sh_f inst)) else amount),
                  Decl U32 ''value'' s,
                  Decl Bool ''ca'' (bool_lit False),
                  If (Bin Eq sh (num 0))
                    [set_gpr a value]
                    [If (Bin Gt sh (num 31))
                       [set_gpr a (Cond negative (unum 0xFFFFFFFF) (unum 0)),
                        SetLocal ''ca'' (Bin Ne negative (num 0))]
                       [set_gpr a (Cast U32 (Bin Shr (Cast S32 value) sh)),
                        SetLocal ''ca'' (Conj negative (Bin Ne (Bin Shl value (Bin Sub (unum 32) sh)) (num 0)))]],
                  set_carry_if (Local ''ca'')] @ record)
         else None)"

text \<open>For the fields of a decoded instruction \<open>ppc_mask32\<close> returns (\<open>ppc_mask32_bits\<close>).\<close>

definition emit_rotate :: "PPCInst \<Rightarrow> cstmt list option" where
  "emit_rotate inst =
     (let op = op_f inst; a = rA_f inst; s = gpr_at (rS_f inst);
          m = unum (the (ppc_mask32 (mb_f inst) (me_f inst)));
          record = emit_record_if_needed inst a
      in if op = PPC_OP_RLWINM then
           Some (set_gpr a (Bin BitAnd (Call c_rotl32 [s, unum (ucast (sh_f inst))]) m) # record)
         else if op = PPC_OP_RLWNM then
           Some (set_gpr a (Bin BitAnd (Call c_rotl32 [s, gpr_at (rB_f inst)]) m) # record)
         else if op = PPC_OP_RLWIMI then
           Some ([Decl U32 ''rot'' (Call c_rotl32 [s, unum (ucast (sh_f inst))]),
                  set_gpr a (Bin BitOr (Bin BitAnd (gpr_at a) (Com m)) (Bin BitAnd (Local ''rot'') m))] @ record)
         else None)"

definition emit_memory :: "PPCInst \<Rightarrow> cstmt list option" where
  "emit_memory inst =
     (let op = op_f inst;
          word = Call c_mem_read32 [ea_local]; half = Call c_mem_read16 [ea_local];
          byte = Call c_mem_read8 [ea_local]; algebraic = Cast U32 (Cast S32 (Cast S16 half))
      in if op = PPC_OP_LWZ then Some (emit_load inst word False)
         else if op = PPC_OP_LWZU then Some (emit_load inst word True)
         else if op = PPC_OP_LBZ then Some (emit_load inst byte False)
         else if op = PPC_OP_LBZU then Some (emit_load inst byte True)
         else if op = PPC_OP_LHZ then Some (emit_load inst half False)
         else if op = PPC_OP_LHZU then Some (emit_load inst half True)
         else if op = PPC_OP_LHA then Some (emit_load inst algebraic False)
         else if op = PPC_OP_LHAU then Some (emit_load inst algebraic True)
         else if op = PPC_OP_LWZX then Some (emit_loadx inst word False)
         else if op = PPC_OP_LWZUX then Some (emit_loadx inst word True)
         else if op = PPC_OP_LBZX then Some (emit_loadx inst byte False)
         else if op = PPC_OP_LBZUX then Some (emit_loadx inst byte True)
         else if op = PPC_OP_LHZX then Some (emit_loadx inst half False)
         else if op = PPC_OP_LHZUX then Some (emit_loadx inst half True)
         else if op = PPC_OP_LHAX then Some (emit_loadx inst algebraic False)
         else if op = PPC_OP_LHAUX then Some (emit_loadx inst algebraic True)
         else if op = PPC_OP_LWBRX then Some (emit_loadx inst (Call c_bswap32 [word]) False)
         else if op = PPC_OP_LHBRX then Some (emit_loadx inst (Call c_bswap16 [half]) False)
         else if op = PPC_OP_STW then Some (emit_store inst c_mem_write32 U32 False)
         else if op = PPC_OP_STWU then Some (emit_store inst c_mem_write32 U32 True)
         else if op = PPC_OP_STB then Some (emit_store inst c_mem_write8 U8 False)
         else if op = PPC_OP_STBU then Some (emit_store inst c_mem_write8 U8 True)
         else if op = PPC_OP_STH then Some (emit_store inst c_mem_write16 U16 False)
         else if op = PPC_OP_STHU then Some (emit_store inst c_mem_write16 U16 True)
         else if op = PPC_OP_STWX then Some (emit_storex inst c_mem_write32 U32 False)
         else if op = PPC_OP_STWUX then Some (emit_storex inst c_mem_write32 U32 True)
         else if op = PPC_OP_STBX then Some (emit_storex inst c_mem_write8 U8 False)
         else if op = PPC_OP_STBUX then Some (emit_storex inst c_mem_write8 U8 True)
         else if op = PPC_OP_STHX then Some (emit_storex inst c_mem_write16 U16 False)
         else if op = PPC_OP_STHUX then Some (emit_storex inst c_mem_write16 U16 True)
         else if op = PPC_OP_STWBRX then
           Some [Decl U32 ''ea'' (emit_xform_ea (rA_f inst) (rB_f inst) False),
                 Do (Call c_mem_write32 [ea_local, Call c_bswap32 [gpr_at (rS_f inst)]])]
         else if op = PPC_OP_STHBRX then
           Some [Decl U32 ''ea'' (emit_xform_ea (rA_f inst) (rB_f inst) False),
                 Do (Call c_mem_write16 [ea_local, Call c_bswap16 [Cast U16 (gpr_at (rS_f inst))]])]
         else None)"

abbreviation return_if_exception :: cstmt where
  "return_if_exception \<equiv> only_if (Field F_exception) [Return]"

definition emit_string :: "PPCInst \<Rightarrow> cstmt list option" where
  "emit_string inst =
     (let op = op_f inst; ra = gpr_at (rA_f inst); rb = gpr_at (rB_f inst);
          nb = (if nb_f inst \<noteq> 0 then ucast (nb_f inst) else 32);
          immediate_ea = [Decl U32 ''ea'' (if rA_f inst \<noteq> 0 then ra else unum 0),
                          Decl U32 ''count'' (unum nb)];
          n = Local ''n''; r = Local ''r''; reg = Local ''reg''; count = Local ''count'';
          indexed_count = Decl U32 ''count'' (Bin BitAnd (Field F_xer) (unum 0x7F));
          check = for_loop ''r'' (num 0) (Bin Lt r (Local ''reg_count'')) [SetLocal ''r'' (Bin Add r (num 1))]
            [Decl U32 ''reg'' (Bin BitAnd (Bin Add (unum (ucast (rD_f inst))) r) (unum 31)),
             only_if (Disj (Bin Eq reg (unum (ucast (rA_f inst)))) (Bin Eq reg (unum (ucast (rB_f inst)))))
               [Do (Call c_program_exception [unum PPC_PROGRAM_ILLEGAL, cia_at inst]), Return]];
          load = for_loop ''n'' (num 0) (Bin Lt n count) [SetLocal ''n'' (Bin Add n (num 1))]
            [Decl U32 ''reg'' (Bin BitAnd (Bin Add (unum (ucast (rD_f inst))) (Bin Div n (unum 4))) (unum 31)),
             only_if (Bin Eq (Bin BitAnd n (unum 3)) (num 0)) [SetElem A_gpr reg (num 0)],
             SetElem A_gpr reg (Bin BitOr (Elem A_gpr reg)
               (Bin Shl (Cast U32 (Call c_mem_read8 [Bin Add ea_local n]))
                 (Bin Sub (unum 24) (Bin Mul (unum 8) (Bin BitAnd n (unum 3))))))]
      in if op = PPC_OP_LSWI then Some (immediate_ea @ load)
         else if op = PPC_OP_LSWX then
           Some ([Decl U32 ''ea'' rb] @
                 (if rA_f inst \<noteq> 0 then [SetLocal ''ea'' (Bin Add ea_local ra)] else []) @
                 [indexed_count,
                  Decl U32 ''reg_count'' (Bin Div (Bin Add count (unum 3)) (unum 4))] @ check @ load)
         else if op = PPC_OP_STSWI \<or> op = PPC_OP_STSWX then
           Some ((if op = PPC_OP_STSWX
                  then [Decl U32 ''ea'' (if rA_f inst \<noteq> 0 then Bin Add rb ra else rb), indexed_count]
                  else immediate_ea) @
                 [Do (Call c_stsw [ea_local, count, unum (ucast (rS_f inst)), cia_at inst]), return_if_exception])
         else None)"

definition emit_reserve_multiple :: "PPCInst \<Rightarrow> cstmt list option" where
  "emit_reserve_multiple inst =
     (let op = op_f inst; r = Local ''r'';
          xform = Decl U32 ''ea'' (emit_xform_ea (rA_f inst) (rB_f inst) False);
          dform = Decl U32 ''ea'' (emit_dform_ea (rA_f inst) (simm_f inst) False);
          step = [SetLocal ''r'' (Bin Add r (num 1)), SetLocal ''ea'' (Bin Add ea_local (num 4))]
      in if op = PPC_OP_LWARX then
           Some [xform, only_if (Lnot (Call c_lwarx_op [unum (ucast (rD_f inst)), ea_local, cia_at inst])) [Return]]
         else if op = PPC_OP_STWCX then
           Some [xform, Do (Call c_stwcx_op [unum (ucast (rS_f inst)), ea_local, cia_at inst]), return_if_exception]
         else if op = PPC_OP_LMW then
           Some (dform # for_loop ''r'' (num (ucast (rD_f inst))) (Bin Lt r (num 32)) step
             [SetElem A_gpr r (Call c_mem_read32 [ea_local])])
         else if op = PPC_OP_STMW then
           Some (dform # for_loop ''r'' (num (ucast (rS_f inst))) (Bin Lt r (num 32)) step
             [Do (Call c_mem_write32 [ea_local, Elem A_gpr r])])
         else None)"

definition first_case :: "'a option list \<Rightarrow> 'a option" where
  "first_case xs = fold (\<lambda>x acc. case acc of None \<Rightarrow> x | Some y \<Rightarrow> Some y) xs None"

definition emit_integer_instruction :: "PPCInst \<Rightarrow> cstmt list option" where
  "emit_integer_instruction inst = first_case
     [emit_add_immediate inst, emit_compare inst, emit_logical_immediate inst, emit_add inst,
      emit_subtract inst, emit_multiply_divide inst, emit_logical inst, emit_count_extend inst,
      emit_shift inst, emit_rotate inst, emit_memory inst, emit_string inst, emit_reserve_multiple inst]"

section \<open>System instructions\<close>

definition emit_cr_logical :: "PPCInst \<Rightarrow> cexpr \<Rightarrow> cstmt list" where
  "emit_cr_logical inst e =
     [Decl U32 ''a'' (Bin BitAnd (Bin Shr (Field F_cr) (Bin Sub (unum 31) (unum (ucast (rA_f inst))))) (unum 1)),
      Decl U32 ''b'' (Bin BitAnd (Bin Shr (Field F_cr) (Bin Sub (unum 31) (unum (ucast (rB_f inst))))) (unum 1)),
      Decl U32 ''mask'' (Bin Shr (unum 0x80000000) (num (ucast (rD_f inst)))),
      Decl U32 ''value'' (Bin BitAnd e (unum 1)),
      SetField F_cr (Bin BitOr (Bin BitAnd (Field F_cr) (Com (Local ''mask'')))
        (Cond (Local ''value'') (Local ''mask'') (unum 0)))]"

definition emit_trap :: "PPCInst \<Rightarrow> cexpr \<Rightarrow> cstmt list" where
  "emit_trap inst b =
     [only_if (Call c_trap_condition [unum (ucast (to_f inst)), gpr_at (rA_f inst), b])
        [Do (Call c_program_exception [unum PPC_PROGRAM_TRAP, cia_at inst]), Return]]"

definition emit_fallback :: "PPCInst \<Rightarrow> cstmt list" where
  "emit_fallback inst = [Do (Call c_fallback_instruction [unum (raw_word inst), cia_at inst]), Return]"

definition emit_cache :: "PPCInst \<Rightarrow> cstmt list option" where
  "emit_cache inst =
     (let op = op_f inst
      in if op = PPC_OP_TWI then Some (emit_trap inst (Cast U32 (Cast S32 (simm_at inst))))
         else if op = PPC_OP_TW then Some (emit_trap inst (gpr_at (rB_f inst)))
         else if op = PPC_OP_DCBZ then Some (emit_dcbz inst)
         else if op = PPC_OP_DCBZ_L then
           Some [Decl U32 ''ea'' (emit_xform_ea (rA_f inst) (rB_f inst) False),
                 Do (Call c_dcbz_l [ea_local, cia_at inst]), return_if_exception]
         else if op = PPC_OP_DCBTST \<or> op = PPC_OP_DCBT then Some []
         else if op = PPC_OP_DCBST \<or> op = PPC_OP_DCBF \<or> op = PPC_OP_DCBI \<or> op = PPC_OP_ICBI then
           Some (emit_fallback inst)
         else None)"

text \<open>The mask of \<open>mtcrf\<close>: the loop over the eight fields.\<close>

definition mtcrf_mask :: "u8 \<Rightarrow> u32" where
  "mtcrf_mask crm = fold (\<lambda>crf m. if crm AND drop_bit crf 0x80 \<noteq> 0
     then m OR push_bit (unat (cr_field_shift (of_nat crf))) 0xF else m) [0..<8] 0"

definition emit_condition_register :: "PPCInst \<Rightarrow> cstmt list option" where
  "emit_condition_register inst =
     (let op = op_f inst; a = Local ''a''; b = Local ''b'';
          logical = (\<lambda>e. Some (emit_cr_logical inst e));
          dst_shift = cr_field_shift (crfD_f inst)
      in if op = PPC_OP_CRAND then logical (Bin BitAnd a b)
         else if op = PPC_OP_CRANDC then logical (Bin BitAnd a (Com b))
         else if op = PPC_OP_CREQV then logical (Com (Bin BitXor a b))
         else if op = PPC_OP_CRNAND then logical (Com (Bin BitAnd a b))
         else if op = PPC_OP_CRNOR then logical (Com (Bin BitOr a b))
         else if op = PPC_OP_CROR then logical (Bin BitOr a b)
         else if op = PPC_OP_CRORC then logical (Bin BitOr a (Com b))
         else if op = PPC_OP_CRXOR then logical (Bin BitXor a b)
         else if op = PPC_OP_MCRF then
           Some [Decl U32 ''bits'' (Bin BitAnd (Bin Shr (Field F_cr) (num (cr_field_shift (crfS_f inst)))) (unum 0xF)),
                 set_cr_bits dst_shift (Local ''bits'')]
         else if op = PPC_OP_MCRXR then
           Some [Decl U32 ''bits'' (Bin BitAnd (Bin Shr (Field F_xer) (num 28)) (unum 0xF)),
                 set_cr_bits dst_shift (Local ''bits''),
                 SetField F_xer (Bin BitAnd (Field F_xer) (Com (unum 0xE0000000)))]
         else if op = PPC_OP_MFCR then Some [set_gpr (rD_f inst) (Field F_cr)]
         else if op = PPC_OP_MTCRF then
           (let m = mtcrf_mask (crm_f inst)
            in if m \<noteq> 0
               then Some [SetField F_cr (Bin BitOr (Bin BitAnd (Field F_cr) (Com (unum m)))
                      (Bin BitAnd (gpr_at (rS_f inst)) (unum m)))]
               else Some [])
         else None)"

text \<open>The segment register that the top bits of \<open>rB\<close> select.\<close>

abbreviation segment_index :: "PPCInst \<Rightarrow> cexpr" where
  "segment_index inst \<equiv> Bin BitAnd (Bin Shr (gpr_at (rB_f inst)) (num 28)) (unum 0xF)"

definition emit_move_register :: "PPCInst \<Rightarrow> cstmt list option" where
  "emit_move_register inst =
     (let op = op_f inst; d = rD_f inst; s = gpr_at (rS_f inst); sr = num (ucast (sr_f inst))
      in if op = PPC_OP_MFMSR then Some [set_gpr d (Field F_msr)]
         else if op = PPC_OP_MTMSR then Some [SetField F_msr s]
         else if op = PPC_OP_MFSR then Some [set_gpr d (Elem A_sr sr)]
         else if op = PPC_OP_MFSRIN then Some [set_gpr d (Elem A_sr (segment_index inst))]
         else if op = PPC_OP_MTSR then Some [SetElem A_sr sr s]
         else if op = PPC_OP_MTSRIN then Some [SetElem A_sr (segment_index inst) s]
         else if op = PPC_OP_MFTB then
           Some [set_gpr d (Call c_mftb [unum (ucast (spr_f inst)), cia_at inst]), return_if_exception]
         else None)"

definition emit_mfspr :: "PPCInst \<Rightarrow> cstmt list" where
  "emit_mfspr inst =
     (let spr = spr_f inst; read = (\<lambda>e. [set_gpr (rD_f inst) e])
      in if spr = 1 then read (Field F_xer)
         else if spr = 8 then read (Field F_lr)
         else if spr = 9 then read (Field F_ctr)
         else if spr = 26 then read (Field F_srr0)
         else if spr = 27 then read (Field F_srr1)
         else if spr = 268 \<or> spr = 269 then
           read (Call c_mftb [unum (ucast spr), cia_at inst]) @ [return_if_exception]
         else if spr = 912 then read (Elem A_gqr (num 0))
         else if spr = 913 then read (Elem A_gqr (num 1))
         else if spr = 914 then read (Elem A_gqr (num 2))
         else if spr = 915 then read (Elem A_gqr (num 3))
         else if spr = 916 then read (Elem A_gqr (num 4))
         else if spr = 917 then read (Elem A_gqr (num 5))
         else if spr = 918 then read (Elem A_gqr (num 6))
         else if spr = 919 then read (Elem A_gqr (num 7))
         else if spr = 282 then read (Field F_ear)
         else if spr = 920 then read (Field F_hid2)
         else emit_fallback inst)"

definition emit_mtspr :: "PPCInst \<Rightarrow> cstmt list" where
  "emit_mtspr inst =
     (let spr = spr_f inst; s = gpr_at (rS_f inst)
      in if spr = 1 then [SetField F_xer s]
         else if spr = 8 then [SetField F_lr s]
         else if spr = 9 then [SetField F_ctr s]
         else if spr = 26 then [SetField F_srr0 s]
         else if spr = 27 then [SetField F_srr1 s]
         else if spr = 282 then [SetField F_ear s]
         else if spr = 912 then [SetElem A_gqr (num 0) s]
         else if spr = 913 then [SetElem A_gqr (num 1) s]
         else if spr = 914 then [SetElem A_gqr (num 2) s]
         else if spr = 915 then [SetElem A_gqr (num 3) s]
         else if spr = 916 then [SetElem A_gqr (num 4) s]
         else if spr = 917 then [SetElem A_gqr (num 5) s]
         else if spr = 918 then [SetElem A_gqr (num 6) s]
         else if spr = 919 then [SetElem A_gqr (num 7) s]
         else if spr = 920 then [SetField F_hid2 s]
         else emit_fallback inst)"

definition emit_barrier_external :: "PPCInst \<Rightarrow> cstmt list option" where
  "emit_barrier_external inst =
     (let op = op_f inst; xform = Decl U32 ''ea'' (emit_xform_ea (rA_f inst) (rB_f inst) False)
      in if op = PPC_OP_TLBIE then Some [Do (Call c_tlbie [gpr_at (rB_f inst), cia_at inst]), return_if_exception]
         else if op = PPC_OP_SYNC \<or> op = PPC_OP_EIEIO \<or> op = PPC_OP_ISYNC \<or> op = PPC_OP_TLBSYNC then
           Some [Do (Call c_memory_fence [])]
         else if op = PPC_OP_ECIWX then
           Some [xform, Decl U32 ''value'' (Call c_eciwx [ea_local, cia_at inst]), return_if_exception,
                 set_gpr (rD_f inst) (Local ''value'')]
         else if op = PPC_OP_ECOWX then
           Some [xform, Do (Call c_ecowx [ea_local, gpr_at (rS_f inst), cia_at inst]), return_if_exception]
         else None)"

definition emit_system_instruction :: "PPCInst \<Rightarrow> cstmt list option" where
  "emit_system_instruction inst = first_case
     [emit_cache inst, emit_condition_register inst, emit_move_register inst,
      if op_f inst = PPC_OP_MFSPR then Some (emit_mfspr inst)
      else if op_f inst = PPC_OP_MTSPR then Some (emit_mtspr inst) else None,
      emit_barrier_external inst]"

section \<open>Floating-point instructions\<close>

text \<open>
  The switch of emitter_float.c.  Loads, stores, moves, sign changes, merges, selects and FPSCR
  moves are statements of the fragment; arithmetic is a call of a runtime function with register
  numbers.
\<close>

definition emit_fcompare :: "PPCInst \<Rightarrow> cstmt list" where
  "emit_fcompare inst = [Do (Call (c_helper ''ppc_fcmp'') [unum (ucast (crfD_f inst)), fpr_at (rA_f inst),
     fpr_at (rB_f inst), bool_lit (op_f inst = PPC_OP_FCMPO)])]"

definition emit_float_memory :: "PPCInst \<Rightarrow> cstmt list option" where
  "emit_float_memory inst =
     (let op = op_f inst
      in if op = PPC_OP_LFS then Some (emit_fload inst True False)
         else if op = PPC_OP_LFSU then Some (emit_fload inst True True)
         else if op = PPC_OP_LFD then Some (emit_fload inst False False)
         else if op = PPC_OP_LFDU then Some (emit_fload inst False True)
         else if op = PPC_OP_LFSX then Some (emit_floadx inst True False)
         else if op = PPC_OP_LFSUX then Some (emit_floadx inst True True)
         else if op = PPC_OP_LFDX then Some (emit_floadx inst False False)
         else if op = PPC_OP_LFDUX then Some (emit_floadx inst False True)
         else if op = PPC_OP_PSQ_L then Some (emit_psq_load inst False False)
         else if op = PPC_OP_PSQ_LU then Some (emit_psq_load inst False True)
         else if op = PPC_OP_PSQ_LX then Some (emit_psq_load inst True False)
         else if op = PPC_OP_PSQ_LUX then Some (emit_psq_load inst True True)
         else if op = PPC_OP_STFS then Some (emit_fstore inst True False)
         else if op = PPC_OP_STFSU then Some (emit_fstore inst True True)
         else if op = PPC_OP_STFD then Some (emit_fstore inst False False)
         else if op = PPC_OP_STFDU then Some (emit_fstore inst False True)
         else if op = PPC_OP_STFSX then Some (emit_fstorex inst True False)
         else if op = PPC_OP_STFSUX then Some (emit_fstorex inst True True)
         else if op = PPC_OP_STFDX then Some (emit_fstorex inst False False)
         else if op = PPC_OP_STFDUX then Some (emit_fstorex inst False True)
         else if op = PPC_OP_PSQ_ST then Some (emit_psq_store inst False False)
         else if op = PPC_OP_PSQ_STU then Some (emit_psq_store inst False True)
         else if op = PPC_OP_PSQ_STX then Some (emit_psq_store inst True False)
         else if op = PPC_OP_PSQ_STUX then Some (emit_psq_store inst True True)
         else if op = PPC_OP_STFIWX then
           Some [Decl U32 ''ea'' (emit_xform_ea (rA_f inst) (rB_f inst) False),
                 Do (Call c_mem_write32 [ea_local, Cast U32 (Call c_f64_to_bits [fpr_at (rS_f inst)])])]
         else None)"

abbreviation reg_args :: "u8 list \<Rightarrow> cexpr list" where "reg_args rs \<equiv> map (\<lambda>r. unum (ucast r)) rs"

definition record_cr1 :: "PPCInst \<Rightarrow> cstmt list" where
  "record_cr1 inst = (if rc_f inst then emit_set_cr1_from_fpscr else [])"

definition fp_call :: "PPCInst \<Rightarrow> string \<Rightarrow> cexpr list \<Rightarrow> cstmt list" where
  "fp_call inst name args = Do (Call (c_helper name) args) # record_cr1 inst"

definition emit_float_arith :: "PPCInst \<Rightarrow> cstmt list option" where
  "emit_float_arith inst =
     (let op = op_f inst; d = rD_f inst; a = rA_f inst; b = rB_f inst; c = rC_f inst;
          madd = (\<lambda>single sub neg. Some (fp_call inst ''ppc_fmadd_op''
            (reg_args [d, a, c, b] @ [bool_lit single, bool_lit sub, bool_lit neg])))
      in if op = PPC_OP_FADDS then Some (fp_call inst ''ppc_fadds'' (reg_args [d, a, b]))
         else if op = PPC_OP_FSUBS then Some (fp_call inst ''ppc_fsubs'' (reg_args [d, a, b]))
         else if op = PPC_OP_FMULS then Some (fp_call inst ''ppc_fmuls'' (reg_args [d, a, c]))
         else if op = PPC_OP_FDIVS then Some (fp_call inst ''ppc_fdivs'' (reg_args [d, a, b]))
         else if op = PPC_OP_FRES then Some (fp_call inst ''ppc_fres_op'' (reg_args [d, b]))
         else if op = PPC_OP_FMADDS then madd True False False
         else if op = PPC_OP_FMSUBS then madd True True False
         else if op = PPC_OP_FNMADDS then madd True False True
         else if op = PPC_OP_FNMSUBS then madd True True True
         else if op = PPC_OP_FADD then Some (fp_call inst ''ppc_fadd'' (reg_args [d, a, b]))
         else if op = PPC_OP_FSUB then Some (fp_call inst ''ppc_fsub'' (reg_args [d, a, b]))
         else if op = PPC_OP_FMUL then Some (fp_call inst ''ppc_fmul'' (reg_args [d, a, c]))
         else if op = PPC_OP_FDIV then Some (fp_call inst ''ppc_fdiv'' (reg_args [d, a, b]))
         else if op = PPC_OP_FRSQRTE then Some (fp_call inst ''ppc_frsqrte_op'' (reg_args [d, b]))
         else if op = PPC_OP_FMADD then madd False False False
         else if op = PPC_OP_FMSUB then madd False True False
         else if op = PPC_OP_FNMADD then madd False False True
         else if op = PPC_OP_FNMSUB then madd False True True
         else if op = PPC_OP_FCTIW then Some (fp_call inst ''ppc_fctiw_op'' (reg_args [d, b] @ [bool_lit False]))
         else if op = PPC_OP_FCTIWZ then Some (fp_call inst ''ppc_fctiw_op'' (reg_args [d, b] @ [bool_lit True]))
         else None)"

abbreviation sign_bit :: cexpr where "sign_bit \<equiv> Lit (VU64 0x8000000000000000)"
abbreviation magnitude_bits :: cexpr where "magnitude_bits \<equiv> Lit (VU64 0x7FFFFFFFFFFFFFFF)"

definition with_bits :: "cop \<Rightarrow> cexpr \<Rightarrow> cexpr \<Rightarrow> cexpr" where
  "with_bits f x m = Call c_f64_from_bits [Bin f (Call c_f64_to_bits [x]) m]"

definition emit_float_move :: "PPCInst \<Rightarrow> cstmt list option" where
  "emit_float_move inst =
     (let op = op_f inst; d = rD_f inst; fb = fpr_at (rB_f inst);
          set = (\<lambda>e. Some (set_fpr d e # record_cr1 inst))
      in if op = PPC_OP_FMR then set fb
         else if op = PPC_OP_FNEG then set (with_bits BitXor fb sign_bit)
         else if op = PPC_OP_FABS then set (with_bits BitAnd fb magnitude_bits)
         else if op = PPC_OP_FNABS then set (with_bits BitOr fb sign_bit)
         else if op = PPC_OP_FRSP then Some (fp_call inst ''ppc_frsp'' (reg_args [d, rB_f inst]))
         else if op = PPC_OP_FSEL then
           set (Cond (Call c_ge_minus_zero [fpr_at (rA_f inst)]) (fpr_at (rC_f inst)) fb)
         else None)"

definition emit_fpscr_move :: "PPCInst \<Rightarrow> cstmt list option" where
  "emit_fpscr_move inst =
     (let op = op_f inst; i = Local ''i''; m = Local ''mask'';
          src = cr_field_shift (crfS_f inst); dst = cr_field_shift (crfD_f inst);
          updated = Do (Call c_fpscr_control_updated [])
      in if op = PPC_OP_MTFSB0 then Some (Do (Call c_mtfsb0_op [unum (ucast (rD_f inst))]) # record_cr1 inst)
         else if op = PPC_OP_MTFSB1 then Some (Do (Call c_mtfsb1_op [unum (ucast (rD_f inst))]) # record_cr1 inst)
         else if op = PPC_OP_MFFS then
           Some (set_fpr (rD_f inst) (Call c_f64_from_bits
             [Bin BitOr (Lit (VU64 0xFFF8000000000000)) (Field F_fpscr)]) # record_cr1 inst)
         else if op = PPC_OP_MCRFS then
           Some [Decl U32 ''field'' (Bin BitAnd (Bin Shr (Field F_fpscr) (num src)) (unum 0xF)),
                 SetField F_fpscr (Bin BitAnd (Field F_fpscr)
                   (Com (Bin BitAnd (Bin Shl (unum 0xF) (num src)) (unum 0x9FF80700)))),
                 updated, set_cr_bits dst (Local ''field'')]
         else if op = PPC_OP_MTFSFI then
           Some ([SetField F_fpscr (Bin BitOr
                    (Bin BitAnd (Field F_fpscr) (Com (Bin Shl (unum 0xF) (num dst))))
                    (Bin Shl (unum (ucast (imm_f inst))) (num dst))), updated] @ record_cr1 inst)
         else if op = PPC_OP_MTFSF then
           Some ([Decl U32 ''mask'' (num 0)] @
                 for_loop ''i'' (num 0) (Bin Lt i (num 8)) [SetLocal ''i'' (Bin Add i (num 1))]
                   [only_if (Bin BitAnd (unum (ucast (fm_f inst))) (Bin Shl (unum 1) i))
                      [or_local ''mask'' (Bin Shl (unum 0xF) (Bin Mul i (num 4)))]] @
                 [Decl U32 ''source'' (Cast U32 (Call c_f64_to_bits [fpr_at (rB_f inst)])),
                  SetField F_fpscr (Bin BitOr (Bin BitAnd (Field F_fpscr) (Com m))
                    (Bin BitAnd (Local ''source'') m)), updated] @ record_cr1 inst)
         else None)"

definition emit_paired_arith :: "PPCInst \<Rightarrow> cstmt list option" where
  "emit_paired_arith inst =
     (let op = op_f inst; d = rD_f inst; a = rA_f inst; b = rB_f inst; c = rC_f inst;
          madd = (\<lambda>sub neg. Some (fp_call inst ''ppc_ps_madd_op''
            (reg_args [d, a, c, b] @ [bool_lit sub, bool_lit neg])))
      in if op = PPC_OP_PS_ADD then Some (fp_call inst ''ppc_ps_add_op'' (reg_args [d, a, b]))
         else if op = PPC_OP_PS_SUB then Some (fp_call inst ''ppc_ps_sub_op'' (reg_args [d, a, b]))
         else if op = PPC_OP_PS_MUL then Some (fp_call inst ''ppc_ps_mul_op'' (reg_args [d, a, c]))
         else if op = PPC_OP_PS_DIV then Some (fp_call inst ''ppc_ps_div_op'' (reg_args [d, a, b]))
         else if op = PPC_OP_PS_RES then Some (fp_call inst ''ppc_ps_res_op'' (reg_args [d, b]))
         else if op = PPC_OP_PS_RSQRTE then Some (fp_call inst ''ppc_ps_rsqrte_op'' (reg_args [d, b]))
         else if op = PPC_OP_PS_MADD then madd False False
         else if op = PPC_OP_PS_MSUB then madd True False
         else if op = PPC_OP_PS_NMADD then madd False True
         else if op = PPC_OP_PS_NMSUB then madd True True
         else None)"

definition emit_paired_sign :: "PPCInst \<Rightarrow> cstmt list option" where
  "emit_paired_sign inst =
     (let op = op_f inst; d = rD_f inst; fb = fpr_at (rB_f inst); pb = ps1_at (rB_f inst);
          both = (\<lambda>x y. Some ([set_fpr d x, set_ps1 d y] @ record_cr1 inst))
      in if op = PPC_OP_PS_NEG then both (with_bits BitXor fb sign_bit) (with_bits BitXor pb sign_bit)
         else if op = PPC_OP_PS_ABS then both (with_bits BitAnd fb magnitude_bits) (with_bits BitAnd pb magnitude_bits)
         else if op = PPC_OP_PS_NABS then both (with_bits BitOr fb sign_bit) (with_bits BitOr pb sign_bit)
         else if op = PPC_OP_PS_MR then both fb pb
         else None)"

definition emit_paired_cross :: "PPCInst \<Rightarrow> cstmt list option" where
  "emit_paired_cross inst =
     (let op = op_f inst; d = rD_f inst; a = rA_f inst; b = rB_f inst; c = rC_f inst
      in if op = PPC_OP_PS_SUM0 then Some (fp_call inst ''ppc_ps_sum0'' (reg_args [d, a, c, b]))
         else if op = PPC_OP_PS_SUM1 then Some (fp_call inst ''ppc_ps_sum1'' (reg_args [d, a, c, b]))
         else if op = PPC_OP_PS_MULS0 then Some (fp_call inst ''ppc_ps_muls0'' (reg_args [d, a, c]))
         else if op = PPC_OP_PS_MULS1 then Some (fp_call inst ''ppc_ps_muls1'' (reg_args [d, a, c]))
         else if op = PPC_OP_PS_MADDS0 then Some (fp_call inst ''ppc_ps_madds0'' (reg_args [d, a, c, b]))
         else if op = PPC_OP_PS_MADDS1 then Some (fp_call inst ''ppc_ps_madds1'' (reg_args [d, a, c, b]))
         else None)"

definition emit_paired_merge :: "PPCInst \<Rightarrow> cstmt list option" where
  "emit_paired_merge inst =
     (let op = op_f inst; d = rD_f inst; fa = fpr_at (rA_f inst); fb = fpr_at (rB_f inst); fc = fpr_at (rC_f inst);
          pa = ps1_at (rA_f inst); pb = ps1_at (rB_f inst); pc = ps1_at (rC_f inst);
          pair = (\<lambda>x y. Some ([Decl F64 ''t0'' x, Decl F64 ''t1'' y, set_fpr d (Local ''t0''),
            set_ps1 d (Local ''t1'')] @ record_cr1 inst));
          compare = (\<lambda>x y ordered. Some [Do (Call (c_helper ''ppc_fcmp'')
            [unum (ucast (crfD_f inst)), x, y, bool_lit ordered])])
      in if op = PPC_OP_PS_MERGE00 then pair fa fb
         else if op = PPC_OP_PS_MERGE01 then pair fa pb
         else if op = PPC_OP_PS_MERGE10 then pair pa fb
         else if op = PPC_OP_PS_MERGE11 then pair pa pb
         else if op = PPC_OP_PS_CMPU0 then compare fa fb False
         else if op = PPC_OP_PS_CMPO0 then compare fa fb True
         else if op = PPC_OP_PS_CMPU1 then compare pa pb False
         else if op = PPC_OP_PS_CMPO1 then compare pa pb True
         else if op = PPC_OP_PS_SEL then
           pair (Cond (Call c_ge_minus_zero [fa]) fc fb) (Cond (Call c_ge_minus_zero [pa]) pc pb)
         else None)"

definition emit_float_instruction :: "PPCInst \<Rightarrow> cstmt list option" where
  "emit_float_instruction inst =
     (if \<not> ppc_op_uses_fpu (op_f inst) then None
      else first_case [emit_float_memory inst, emit_float_arith inst, emit_float_move inst,
        emit_fpscr_move inst, emit_paired_arith inst, emit_paired_sign inst, emit_paired_cross inst,
        emit_paired_merge inst,
        if op_f inst = PPC_OP_FCMPU \<or> op_f inst = PPC_OP_FCMPO then Some (emit_fcompare inst) else None])"

section \<open>One instruction\<close>

definition emit_instruction_with_range :: "PPCInst \<Rightarrow> u32 \<Rightarrow> u32 \<Rightarrow> cstmt list" where
  "emit_instruction_with_range inst func_start func_end =
     (if embedded_data inst then []
      else (if ppc_op_uses_fpu (op_f inst) then [only_if (Lnot (Call c_fp_available [cia_at inst])) [Return]] else []) @
        (case first_case [emit_integer_instruction inst, emit_float_instruction inst,
                          emit_branch_instruction inst func_start func_end, emit_system_instruction inst] of
           Some code \<Rightarrow> code
         | None \<Rightarrow> emit_fallback inst))"

definition emit_instruction :: "PPCInst \<Rightarrow> cstmt list" where
  "emit_instruction inst = emit_instruction_with_range inst 0 (- 1)"

end
