(* ===== verification/EmitRun.thy ===== *)
theory EmitRun
  imports Emitter
begin

text \<open>
  Evaluation of emitted code: the collection \<open>run\<close>, with which \<open>simp\<close> runs a fragment on a
  symbolic CPU state down to word expressions.
\<close>

section \<open>Conversions\<close>

lemma narrow_wide [simp]:
  "ucast (ucast (x :: u32) :: u64) = (ucast x :: u8)" "ucast (ucast (x :: u32) :: u64) = (ucast x :: u16)"
  "ucast (ucast (y :: u8) :: u64) = (ucast y :: u32)" "ucast (ucast (z :: u16) :: u64) = (ucast z :: u32)"
  by (rule bit_word_eqI; auto simp: bit_simps)+

lemma narrow_signed [simp]:
  "ucast (scast (x :: u32) :: u64) = x"
  "ucast (scast (y :: u8) :: u64) = (scast y :: u32)" "ucast (scast (z :: u16) :: u64) = (scast z :: u32)"
proof -
  show "ucast (scast (x :: u32) :: u64) = x" by (transfer; simp add: take_bit_signed_take_bit)
  show "ucast (scast (y :: u8) :: u64) = (scast y :: u32)" by (rule bit_word_eqI) (auto simp: bit_simps)
  show "ucast (scast (z :: u16) :: u64) = (scast z :: u32)" by (rule bit_word_eqI) (auto simp: bit_simps)
qed

lemma bit_u8: "bit r n \<Longrightarrow> n < 8" for r :: u8 using bit_imp_le_length[of r n] by simp
lemma bit_u32: "bit w n \<Longrightarrow> n < 32" for w :: u32 using bit_imp_le_length[of w n] by simp

lemma widen_index [simp]:
  "unat (ucast (x :: u32) :: u64) = unat x" "unat (ucast (r :: u8) :: u64) = unat r"
  "unat (ucast (r :: u8) :: u32) = unat r"
  by (transfer; simp add: take_bit_int_def)+

lemma signed_index [simp]: "scast (ucast (r :: u8) :: u32) = (ucast r :: u64)"
  by (rule bit_word_eqI) (auto simp: bit_simps min_def dest: bit_u8)

lemma wide_zero [simp]: "ucast (x :: u32) = (0 :: u64) \<longleftrightarrow> x = 0"
  by transfer simp

lemma cast_run [run]:
  "cast U8 (VU32 x) = VU8 (ucast x)" "cast U16 (VU32 x) = VU16 (ucast x)"
  "cast U32 (VU32 x) = VU32 x" "cast U32 (VS32 x) = VU32 x" "cast U32 (VU64 y) = VU32 (ucast y)"
  "cast U32 (VS64 y) = VU32 (ucast y)" "cast U32 (VU8 b) = VU32 (ucast b)" "cast U32 (VU16 h) = VU32 (ucast h)"
  "cast S32 (VU32 x) = VS32 x" "cast S32 (VS32 x) = VS32 x" "cast S32 (VS8 b) = VS32 (scast b)"
  "cast S32 (VS16 h) = VS32 (scast h)" "cast S8 (VU32 x) = VS8 (ucast x)" "cast S16 (VU32 x) = VS16 (ucast x)"
  "cast S16 (VU16 h) = VS16 h"
  "cast U64 (VU32 x) = VU64 (ucast x)" "cast U64 (VU64 y) = VU64 y" "cast S64 (VS32 x) = VS64 (scast x)"
  "cast S64 (VS64 y) = VS64 y"
  "cast Bool (VBool p) = VBool p" "cast F64 (VF64 y) = VF64 y"
  by (simp_all add: cast_def)

lemma truth_run [run]:
  "truth (VBool p) = p" "truth (VU32 x) = (x \<noteq> 0)" "truth (VU64 y) = (y \<noteq> 0)"
  by (simp_all add: truth_def)

lemma converted_run [run]:
  "converted (VU32 x) (VU32 y) = (VU32 x, VU32 y)"
  "converted (VU32 x) (VS32 y) = (VU32 x, VU32 y)"
  "converted (VS32 x) (VS32 y) = (VS32 x, VS32 y)"
  "converted (VU64 v) (VU64 w) = (VU64 v, VU64 w)"
  "converted (VU64 v) (VU32 y) = (VU64 v, VU64 (ucast y))"
  "converted (VU64 v) (VS32 y) = (VU64 v, VU64 (scast y))"
  "converted (VS64 v) (VS64 w) = (VS64 v, VS64 w)"
  by (simp_all add: converted_def cast_def)

section \<open>Operators and calls\<close>

text \<open>\<open>==\<close> of two truth values compares them as integers 0 and 1.\<close>

lemma bool_compare_run [run]:
  "binary Eq (VBool p) (VBool q) = Some (VBool (p = q))"
  by (simp add: binary_def converted_def cast_def arith_def arith_s32_def)

lemmas operators_run [run] = binary_def arith_def arith_u32_def arith_u64_def arith_s32_def arith_s64_def
  defined_if_def get_elem_def set_elem_def get_field_def set_field_def

lemmas calls_run [run] = invoke_def invoke0_def invoke1_def invoke2_def invoke3_def invoke4_def

lemma field_cases: "crf < 8 \<Longrightarrow> crf \<in> {0, 1, 2, 3, 4, 5, 6, 7}" for crf :: u8
proof -
  assume "crf < 8"
  then have "unat crf \<in> {0, 1, 2, 3, 4, 5, 6, 7}" by (auto simp: word_less_nat_alt)
  then show ?thesis by (auto simp: word_unat_eq_iff)
qed

lemma field_shift: "cr_field_shift crf < 32 \<and> unat (cr_field_shift crf) = 28 - 4 * unat crf" if "crf < 8"
  using field_cases[OF that] by (auto simp: cr_field_shift_def)

text \<open>Registers of the code that have a number below 32.\<close>

lemma register_index: "r < 32 \<Longrightarrow> unat r < 32" for r :: u8
  by (simp add: word_less_nat_alt)

text \<open>\<open>if (c) x |= k;\<close> without a case split.\<close>

lemma exec_or_if:
  "exec m (only_if c [or_local x (Lit (VU32 k))] # rest) env cpu = do {
     (v, cpu) \<leftarrow> eval m env c cpu;
     case env x of
       Some (VU32 w) \<Rightarrow> exec m rest (env(x \<mapsto> VU32 (w OR (if truth v then k else 0)))) cpu
     | _ \<Rightarrow> if truth v then exec m (or_local x (Lit (VU32 k)) # rest) env cpu else exec m rest env cpu }"
  by (subst exec_If) (auto simp: run fun_upd_idem split: option.splits cval.splits intro!: Option.bind_cong)

end
