(* ===== verification/PpcIsa.thy ===== *)
theory PpcIsa
  imports CpuOps Decoder
begin

text \<open>
  A reference for the integer, condition-register and branch instructions of the PowerPC
  architecture, on the CPU state of the runtime: arithmetic on mathematical integers, condition
  and carry bits by their numbers, rotation and masks as the manual words them.  Nothing here is
  translated from the program: it is what the generated code is compared with.  Where the manual
  leaves a result undefined (a quotient that does not exist) the runtime's choice is taken, and
  a branch sets the link register only when it is taken, as src/Source/Core/Core/PowerPC/
  Interpreter/Interpreter_Branch.cpp has it.
\<close>

section \<open>Registers and flags\<close>

definition reg :: "'e CPUState \<Rightarrow> u8 \<Rightarrow> u32" where
  "reg cpu r = gpr cpu ! unat r"

definition put_reg :: "u8 \<Rightarrow> u32 \<Rightarrow> 'e CPUState \<Rightarrow> 'e CPUState" where
  "put_reg r v cpu = cpu\<lparr>gpr := (gpr cpu)[unat r := v]\<rparr>"

definition put_bit :: "nat \<Rightarrow> bool \<Rightarrow> u32 \<Rightarrow> u32" where
  "put_bit n b w = (if b then set_bit n w else unset_bit n w)"

lemma bit_put_bit: "bit (put_bit n b w) k \<longleftrightarrow> (if k = n \<and> n < 32 then b else bit w k)"
  by (auto simp: put_bit_def bit_simps dest: bit_imp_le_length)

definition carry_of :: "'e CPUState \<Rightarrow> bool" where "carry_of cpu \<longleftrightarrow> bit (cpu_xer cpu) 29"
definition summary_overflow :: "'e CPUState \<Rightarrow> bool" where "summary_overflow cpu \<longleftrightarrow> bit (cpu_xer cpu) 31"

definition put_carry :: "bool \<Rightarrow> 'e CPUState \<Rightarrow> 'e CPUState" where
  "put_carry c cpu = cpu\<lparr>cpu_xer := put_bit 29 c (cpu_xer cpu)\<rparr>"

definition put_overflow :: "bool \<Rightarrow> 'e CPUState \<Rightarrow> 'e CPUState" where
  "put_overflow ov cpu =
     cpu\<lparr>cpu_xer := put_bit 31 (ov \<or> summary_overflow cpu) (put_bit 30 ov (cpu_xer cpu))\<rparr>"

text \<open>Field \<open>f\<close> of the condition register, its bits from the left: less, greater, equal, summary
  overflow.\<close>

definition put_cr_field :: "nat \<Rightarrow> bool \<Rightarrow> bool \<Rightarrow> bool \<Rightarrow> bool \<Rightarrow> u32 \<Rightarrow> u32" where
  "put_cr_field f lt gt eq so cr =
     put_bit (31 - 4 * f) lt (put_bit (30 - 4 * f) gt (put_bit (29 - 4 * f) eq (put_bit (28 - 4 * f) so cr)))"

definition compare_field :: "nat \<Rightarrow> int \<Rightarrow> int \<Rightarrow> 'e CPUState \<Rightarrow> 'e CPUState" where
  "compare_field f x y cpu =
     cpu\<lparr>cpu_cr := put_cr_field f (x < y) (x > y) (x = y) (summary_overflow cpu) (cpu_cr cpu)\<rparr>"

definition record_cr0 :: "u32 \<Rightarrow> 'e CPUState \<Rightarrow> 'e CPUState" where
  "record_cr0 v = compare_field 0 (sint v) 0"

definition record_if :: "bool \<Rightarrow> u32 \<Rightarrow> 'e CPUState \<Rightarrow> 'e CPUState" where
  "record_if rec v cpu = (if rec then record_cr0 v cpu else cpu)"

section \<open>Arithmetic\<close>

definition fits_s32 :: "int \<Rightarrow> bool" where "fits_s32 s \<longleftrightarrow> - (2 ^ 31) \<le> s \<and> s < 2 ^ 31"

definition sum_carry :: "u32 \<Rightarrow> u32 \<Rightarrow> bool \<Rightarrow> bool" where
  "sum_carry x y c \<longleftrightarrow> uint x + uint y + of_bool c \<ge> 2 ^ 32"

definition sum_overflow :: "u32 \<Rightarrow> u32 \<Rightarrow> bool \<Rightarrow> bool" where
  "sum_overflow x y c \<longleftrightarrow> \<not> fits_s32 (sint x + sint y + of_bool c)"

definition sum_of :: "u32 \<Rightarrow> u32 \<Rightarrow> bool \<Rightarrow> u32" where
  "sum_of x y c = word_of_int (uint x + uint y + of_bool c)"

text \<open>Operands of the add and subtract instructions: \<open>x + y + carry in\<close>, and whether XER[CA] is
  set.\<close>

definition sum_operands :: "PPCInst \<Rightarrow> 'e CPUState \<Rightarrow> (u32 \<times> u32 \<times> bool \<times> bool) option" where
  "sum_operands i cpu =
     (let op = op_f i; a = reg cpu (rA_f i); b = reg cpu (rB_f i); c = carry_of cpu
      in if op = PPC_OP_ADD \<or> op = PPC_OP_ADDO then Some (a, b, False, False)
         else if op = PPC_OP_ADDC \<or> op = PPC_OP_ADDCO then Some (a, b, False, True)
         else if op = PPC_OP_ADDE \<or> op = PPC_OP_ADDEO then Some (a, b, c, True)
         else if op = PPC_OP_ADDME \<or> op = PPC_OP_ADDMEO then Some (a, - 1, c, True)
         else if op = PPC_OP_ADDZE \<or> op = PPC_OP_ADDZEO then Some (a, 0, c, True)
         else if op = PPC_OP_SUBF \<or> op = PPC_OP_SUBFO then Some (NOT a, b, True, False)
         else if op = PPC_OP_SUBFC \<or> op = PPC_OP_SUBFCO then Some (NOT a, b, True, True)
         else if op = PPC_OP_SUBFE \<or> op = PPC_OP_SUBFEO then Some (NOT a, b, c, True)
         else if op = PPC_OP_SUBFME \<or> op = PPC_OP_SUBFMEO then Some (NOT a, - 1, c, True)
         else if op = PPC_OP_SUBFZE \<or> op = PPC_OP_SUBFZEO then Some (NOT a, 0, c, True)
         else if op = PPC_OP_NEG \<or> op = PPC_OP_NEGO then Some (NOT a, 0, True, False)
         else None)"

definition finish_op :: "PPCInst \<Rightarrow> u8 \<Rightarrow> u32 \<Rightarrow> bool \<Rightarrow> 'e CPUState \<Rightarrow> 'e CPUState" where
  "finish_op i d v ov cpu =
     (let cpu = (if oe_f i then put_overflow ov cpu else cpu)
      in record_if (rc_f i) v cpu)"

definition isa_sum :: "PPCInst \<Rightarrow> 'e CPUState \<Rightarrow> 'e CPUState option" where
  "isa_sum i cpu = (case sum_operands i cpu of
     None \<Rightarrow> None
   | Some (x, y, c, sets_carry) \<Rightarrow>
       (let v = sum_of x y c; cpu = put_reg (rD_f i) v cpu;
            cpu = (if sets_carry then put_carry (sum_carry x y c) cpu else cpu)
        in Some (finish_op i (rD_f i) v (sum_overflow x y c) cpu)))"

definition base_or_zero :: "PPCInst \<Rightarrow> 'e CPUState \<Rightarrow> u32" where
  "base_or_zero i cpu = (if rA_f i = 0 then 0 else reg cpu (rA_f i))"

definition simm_of :: "PPCInst \<Rightarrow> u32" where "simm_of i = word_of_int (sint (simm_f i))"

definition isa_add_immediate :: "PPCInst \<Rightarrow> 'e CPUState \<Rightarrow> 'e CPUState option" where
  "isa_add_immediate i cpu =
     (let op = op_f i; d = rD_f i; a = reg cpu (rA_f i); s = simm_of i
      in if op = PPC_OP_ADDI then Some (put_reg d (base_or_zero i cpu + s) cpu)
         else if op = PPC_OP_ADDIS then Some (put_reg d (base_or_zero i cpu + s * 2 ^ 16) cpu)
         else if op = PPC_OP_ADDIC then Some (put_carry (sum_carry a s False) (put_reg d (a + s) cpu))
         else if op = PPC_OP_ADDIC_DOT then
           Some (record_cr0 (a + s) (put_carry (sum_carry a s False) (put_reg d (a + s) cpu)))
         else if op = PPC_OP_SUBFIC then
           Some (put_carry (sum_carry (NOT a) s True) (put_reg d (s - a) cpu))
         else if op = PPC_OP_MULLI then
           Some (put_reg d (word_of_int (sint a * sint (simm_f i))) cpu)
         else None)"

definition division_overflow :: "u32 \<Rightarrow> u32 \<Rightarrow> bool" where
  "division_overflow a b \<longleftrightarrow> b = 0 \<or> sint a = - (2 ^ 31) \<and> sint b = - 1"

definition truncated_quotient :: "int \<Rightarrow> int \<Rightarrow> int" where
  "truncated_quotient x y = (if (x < 0) = (y < 0) then \<bar>x\<bar> div \<bar>y\<bar> else - (\<bar>x\<bar> div \<bar>y\<bar>))"

definition isa_multiply_divide :: "PPCInst \<Rightarrow> 'e CPUState \<Rightarrow> 'e CPUState option" where
  "isa_multiply_divide i cpu =
     (let op = op_f i; d = rD_f i; a = reg cpu (rA_f i); b = reg cpu (rB_f i);
          set = (\<lambda>v ov. Some (finish_op i d v ov (put_reg d v cpu)));
          set_only = (\<lambda>v. Some (record_if (rc_f i) v (put_reg d v cpu)))
      in if op = PPC_OP_MULLW \<or> op = PPC_OP_MULLWO then
           set (word_of_int (sint a * sint b)) (\<not> fits_s32 (sint a * sint b))
         else if op = PPC_OP_MULHW then set_only (word_of_int (sint a * sint b div 2 ^ 32))
         else if op = PPC_OP_MULHWU then set_only (word_of_int (uint a * uint b div 2 ^ 32))
         else if op = PPC_OP_DIVW \<or> op = PPC_OP_DIVWO then
           set (if division_overflow a b then (if sint a < 0 then - 1 else 0)
                else word_of_int (truncated_quotient (sint a) (sint b))) (division_overflow a b)
         else if op = PPC_OP_DIVWU \<or> op = PPC_OP_DIVWUO then
           set (if b = 0 then 0 else word_of_int (uint a div uint b)) (b = 0)
         else None)"

section \<open>Comparison and logic\<close>

definition isa_compare :: "PPCInst \<Rightarrow> 'e CPUState \<Rightarrow> 'e CPUState option" where
  "isa_compare i cpu =
     (let op = op_f i; f = unat (crfD_f i); a = reg cpu (rA_f i); b = reg cpu (rB_f i)
      in if op = PPC_OP_CMPI then Some (compare_field f (sint a) (sint (simm_f i)) cpu)
         else if op = PPC_OP_CMPLI then Some (compare_field f (uint a) (uint (uimm_f i)) cpu)
         else if op = PPC_OP_CMP then Some (compare_field f (sint a) (sint b) cpu)
         else if op = PPC_OP_CMPL then Some (compare_field f (uint a) (uint b) cpu)
         else None)"

definition isa_logical_value :: "PPCInst \<Rightarrow> 'e CPUState \<Rightarrow> (u32 \<times> bool) option" where
  "isa_logical_value i cpu =
     (let op = op_f i; s = reg cpu (rS_f i); b = reg cpu (rB_f i);
          low = ucast (uimm_f i); high = low * 2 ^ 16
      in if op = PPC_OP_ORI then Some (s OR low, False)
         else if op = PPC_OP_ORIS then Some (s OR high, False)
         else if op = PPC_OP_XORI then Some (s XOR low, False)
         else if op = PPC_OP_XORIS then Some (s XOR high, False)
         else if op = PPC_OP_ANDI then Some (s AND low, True)
         else if op = PPC_OP_ANDIS then Some (s AND high, True)
         else if op = PPC_OP_AND then Some (s AND b, rc_f i)
         else if op = PPC_OP_ANDC then Some (s AND NOT b, rc_f i)
         else if op = PPC_OP_OR then Some (s OR b, rc_f i)
         else if op = PPC_OP_ORC then Some (s OR NOT b, rc_f i)
         else if op = PPC_OP_XOR then Some (s XOR b, rc_f i)
         else if op = PPC_OP_NAND then Some (NOT (s AND b), rc_f i)
         else if op = PPC_OP_NOR then Some (NOT (s OR b), rc_f i)
         else if op = PPC_OP_EQV then Some (NOT (s XOR b), rc_f i)
         else None)"

definition leading_zeros :: "u32 \<Rightarrow> nat" where
  "leading_zeros w = length (takeWhile (\<lambda>k. \<not> bit w (31 - k)) [0..<32])"

text \<open>The mask from bit \<open>mb\<close> to bit \<open>me\<close>, counted from the left and wrapping around.\<close>

definition in_mask :: "nat \<Rightarrow> nat \<Rightarrow> nat \<Rightarrow> bool" where
  "in_mask mb me k \<longleftrightarrow> (if mb \<le> me then mb \<le> k \<and> k \<le> me else k \<ge> mb \<or> k \<le> me)"

definition mask_word :: "nat \<Rightarrow> nat \<Rightarrow> u32" where
  "mask_word mb me = fold (\<lambda>n w. put_bit n (in_mask mb me (31 - n)) w) [0..<32] 0"

definition isa_shift_value :: "PPCInst \<Rightarrow> 'e CPUState \<Rightarrow> u32 option" where
  "isa_shift_value i cpu =
     (let op = op_f i; s = reg cpu (rS_f i); n = unat (reg cpu (rB_f i) AND 0x3F);
          m = mask_word (unat (mb_f i)) (unat (me_f i))
      in if op = PPC_OP_CNTLZW then Some (of_nat (leading_zeros s))
         else if op = PPC_OP_EXTSB then Some (word_of_int (sint (ucast s :: u8)))
         else if op = PPC_OP_EXTSH then Some (word_of_int (sint (ucast s :: u16)))
         else if op = PPC_OP_SLW then Some (word_of_int (uint s * 2 ^ n))
         else if op = PPC_OP_SRW then Some (word_of_int (uint s div 2 ^ n))
         else if op = PPC_OP_RLWINM then Some (word_rotl (unat (sh_f i)) s AND m)
         else if op = PPC_OP_RLWNM then Some (word_rotl (unat (reg cpu (rB_f i) AND 31)) s AND m)
         else if op = PPC_OP_RLWIMI then
           Some ((word_rotl (unat (sh_f i)) s AND m) OR (reg cpu (rA_f i) AND NOT m))
         else None)"

definition isa_logical :: "PPCInst \<Rightarrow> 'e CPUState \<Rightarrow> 'e CPUState option" where
  "isa_logical i cpu = (case isa_logical_value i cpu of
     Some (v, rec) \<Rightarrow> Some (record_if rec v (put_reg (rA_f i) v cpu))
   | None \<Rightarrow> (case isa_shift_value i cpu of
       Some v \<Rightarrow> Some (record_if (rc_f i) v (put_reg (rA_f i) v cpu))
     | None \<Rightarrow>
       (if op_f i = PPC_OP_SRAW \<or> op_f i = PPC_OP_SRAWI
        then let s = sint (reg cpu (rS_f i));
                 n = (if op_f i = PPC_OP_SRAWI then unat (sh_f i) else unat (reg cpu (rB_f i) AND 0x3F));
                 v = word_of_int (s div 2 ^ n)
             in Some (record_if (rc_f i) v
                  (put_carry (s < 0 \<and> s mod 2 ^ n \<noteq> 0) (put_reg (rA_f i) v cpu)))
        else None)))"

section \<open>Storage\<close>

text \<open>Width in bytes, algebraic, byte-reversed, indexed, update.\<close>

definition load_form :: "PPCOpcode \<Rightarrow> (nat \<times> bool \<times> bool \<times> bool \<times> bool) option" where
  "load_form op = map_of
     [(PPC_OP_LWZ, (4, False, False, False, False)), (PPC_OP_LWZU, (4, False, False, False, True)),
      (PPC_OP_LBZ, (1, False, False, False, False)), (PPC_OP_LBZU, (1, False, False, False, True)),
      (PPC_OP_LHZ, (2, False, False, False, False)), (PPC_OP_LHZU, (2, False, False, False, True)),
      (PPC_OP_LHA, (2, True, False, False, False)), (PPC_OP_LHAU, (2, True, False, False, True)),
      (PPC_OP_LWZX, (4, False, False, True, False)), (PPC_OP_LWZUX, (4, False, False, True, True)),
      (PPC_OP_LBZX, (1, False, False, True, False)), (PPC_OP_LBZUX, (1, False, False, True, True)),
      (PPC_OP_LHZX, (2, False, False, True, False)), (PPC_OP_LHZUX, (2, False, False, True, True)),
      (PPC_OP_LHAX, (2, True, False, True, False)), (PPC_OP_LHAUX, (2, True, False, True, True)),
      (PPC_OP_LWBRX, (4, False, True, True, False)), (PPC_OP_LHBRX, (2, False, True, True, False))] op"

definition store_form :: "PPCOpcode \<Rightarrow> (nat \<times> bool \<times> bool \<times> bool) option" where
  "store_form op = map_of
     [(PPC_OP_STW, (4, False, False, False)), (PPC_OP_STWU, (4, False, False, True)),
      (PPC_OP_STB, (1, False, False, False)), (PPC_OP_STBU, (1, False, False, True)),
      (PPC_OP_STH, (2, False, False, False)), (PPC_OP_STHU, (2, False, False, True)),
      (PPC_OP_STWX, (4, False, True, False)), (PPC_OP_STWUX, (4, False, True, True)),
      (PPC_OP_STBX, (1, False, True, False)), (PPC_OP_STBUX, (1, False, True, True)),
      (PPC_OP_STHX, (2, False, True, False)), (PPC_OP_STHUX, (2, False, True, True)),
      (PPC_OP_STWBRX, (4, True, True, False)), (PPC_OP_STHBRX, (2, True, True, False))] op"

definition effective_address :: "PPCInst \<Rightarrow> bool \<Rightarrow> bool \<Rightarrow> 'e CPUState \<Rightarrow> u32" where
  "effective_address i indexed update cpu =
     (if update then reg cpu (rA_f i) else base_or_zero i cpu) +
     (if indexed then reg cpu (rB_f i) else simm_of i)"

definition read_memory :: "'e PPCHost \<Rightarrow> nat \<Rightarrow> bool \<Rightarrow> bool \<Rightarrow> u32 \<Rightarrow> 'e CPUState \<Rightarrow> u32 \<times> 'e CPUState" where
  "read_memory h width algebraic reversed ea cpu =
     (if width = 4 then apfst (if reversed then bswap32 else id) (mem_read32 h cpu ea)
      else if width = 2 then apfst (\<lambda>v. if algebraic then word_of_int (sint v)
        else ucast (if reversed then bswap16 v else v)) (mem_read16 h cpu ea)
      else apfst ucast (mem_read8 h cpu ea))"

definition write_memory :: "'e PPCHost \<Rightarrow> nat \<Rightarrow> bool \<Rightarrow> u32 \<Rightarrow> u32 \<Rightarrow> 'e CPUState \<Rightarrow> 'e CPUState" where
  "write_memory h width reversed ea v cpu =
     (if width = 4 then mem_write32 h cpu ea (if reversed then bswap32 v else v)
      else if width = 2 then mem_write16 h cpu ea (if reversed then bswap16 (ucast v) else ucast v)
      else mem_write8 h cpu ea (ucast v))"

definition isa_memory :: "'e PPCHost \<Rightarrow> PPCInst \<Rightarrow> 'e CPUState \<Rightarrow> 'e CPUState option" where
  "isa_memory h i cpu = (case load_form (op_f i) of
     Some (width, algebraic, reversed, indexed, update) \<Rightarrow>
       (let ea = effective_address i indexed update cpu
        in case read_memory h width algebraic reversed ea cpu of
             (v, cpu) \<Rightarrow> Some ((if update then put_reg (rA_f i) ea else id) (put_reg (rD_f i) v cpu)))
   | None \<Rightarrow> (case store_form (op_f i) of
       Some (width, reversed, indexed, update) \<Rightarrow>
         (let ea = effective_address i indexed update cpu;
              cpu = write_memory h width reversed ea (reg cpu (rS_f i)) cpu
          in Some ((if update then put_reg (rA_f i) ea else id) cpu))
     | None \<Rightarrow> None))"

text \<open>The multiple, string and zeroing instructions, register by register and byte by byte.\<close>

definition load_multiple :: "'e PPCHost \<Rightarrow> nat \<Rightarrow> u32 \<Rightarrow> 'e CPUState \<Rightarrow> 'e CPUState" where
  "load_multiple h first ea cpu = fold (\<lambda>r cpu.
     case mem_read32 h cpu (ea + of_nat (4 * (r - first))) of
       (v, cpu) \<Rightarrow> cpu\<lparr>gpr := (gpr cpu)[r := v]\<rparr>) [first..<32] cpu"

definition store_multiple :: "'e PPCHost \<Rightarrow> nat \<Rightarrow> u32 \<Rightarrow> 'e CPUState \<Rightarrow> 'e CPUState" where
  "store_multiple h first ea cpu = fold (\<lambda>r cpu.
     mem_write32 h cpu (ea + of_nat (4 * (r - first))) (gpr cpu ! r)) [first..<32] cpu"

definition load_string :: "'e PPCHost \<Rightarrow> nat \<Rightarrow> u32 \<Rightarrow> nat \<Rightarrow> 'e CPUState \<Rightarrow> 'e CPUState" where
  "load_string h first ea n cpu = fold (\<lambda>k cpu.
     let r = (first + k div 4) mod 32;
         cpu = (if k mod 4 = 0 then cpu\<lparr>gpr := (gpr cpu)[r := 0]\<rparr> else cpu);
         old = gpr cpu ! r
     in case mem_read8 h cpu (ea + of_nat k) of
          (b, cpu) \<Rightarrow> cpu\<lparr>gpr := (gpr cpu)[r := old OR push_bit (24 - 8 * (k mod 4)) (ucast b)]\<rparr>)
     [0..<n] cpu"

definition isa_block :: "'e PPCHost \<Rightarrow> PPCInst \<Rightarrow> 'e CPUState \<Rightarrow> 'e CPUState option" where
  "isa_block h i cpu =
     (let op = op_f i
      in if op = PPC_OP_LMW then
           Some (load_multiple h (unat (rD_f i)) (effective_address i False False cpu) cpu)
         else if op = PPC_OP_STMW then
           Some (store_multiple h (unat (rS_f i)) (effective_address i False False cpu) cpu)
         else if op = PPC_OP_LSWI then
           Some (load_string h (unat (rD_f i)) (base_or_zero i cpu)
             (if nb_f i = 0 then 32 else unat (nb_f i)) cpu)
         else if op = PPC_OP_DCBZ then
           Some (zero_block h (effective_address i True False cpu AND NOT 31) cpu)
         else None)"

section \<open>Condition register\<close>

text \<open>Bit \<open>n\<close> of the condition register, counted from the left.\<close>

definition cr_bit :: "'e CPUState \<Rightarrow> u8 \<Rightarrow> bool" where
  "cr_bit cpu n \<longleftrightarrow> bit (cpu_cr cpu) (31 - unat n)"

definition cr_operation :: "PPCOpcode \<Rightarrow> (bool \<Rightarrow> bool \<Rightarrow> bool) option" where
  "cr_operation op = map_of
     [(PPC_OP_CRAND, \<lambda>a b. a \<and> b), (PPC_OP_CRANDC, \<lambda>a b. a \<and> \<not> b), (PPC_OP_CREQV, \<lambda>a b. a = b),
      (PPC_OP_CRNAND, \<lambda>a b. \<not> (a \<and> b)), (PPC_OP_CRNOR, \<lambda>a b. \<not> (a \<or> b)), (PPC_OP_CROR, \<lambda>a b. a \<or> b),
      (PPC_OP_CRORC, \<lambda>a b. a \<or> \<not> b), (PPC_OP_CRXOR, \<lambda>a b. a \<noteq> b)] op"

text \<open>The fields of the condition register that \<open>mtcrf\<close> replaces: field \<open>f\<close> from the left has the mask bit
  \<open>7 - f\<close>.\<close>

definition replace_fields :: "u8 \<Rightarrow> u32 \<Rightarrow> u32 \<Rightarrow> u32" where
  "replace_fields crm v cr = fold (\<lambda>n. put_bit n (if bit crm (n div 4) then bit v n else bit cr n)) [0..<32] cr"

definition isa_condition_register :: "PPCInst \<Rightarrow> 'e CPUState \<Rightarrow> 'e CPUState option" where
  "isa_condition_register i cpu = (case cr_operation (op_f i) of
     Some f \<Rightarrow> Some (cpu\<lparr>cpu_cr := put_bit (31 - unat (rD_f i)) (f (cr_bit cpu (rA_f i)) (cr_bit cpu (rB_f i)))
       (cpu_cr cpu)\<rparr>)
   | None \<Rightarrow>
       (if op_f i = PPC_OP_MCRF then
          (let src = 4 * crfS_f i; b = (\<lambda>k. cr_bit cpu (src + k))
           in Some (cpu\<lparr>cpu_cr := put_cr_field (unat (crfD_f i)) (b 0) (b 1) (b 2) (b 3) (cpu_cr cpu)\<rparr>))
        else if op_f i = PPC_OP_MFCR then Some (put_reg (rD_f i) (cpu_cr cpu) cpu)
        else if op_f i = PPC_OP_MTCRF then
          Some (cpu\<lparr>cpu_cr := replace_fields (crm_f i) (reg cpu (rS_f i)) (cpu_cr cpu)\<rparr>)
        else None))"

section \<open>Branches\<close>

text \<open>
  Where control goes after a branch: the program counter of the state returned.  \<open>BO\<close> is numbered
  from the left as a five-bit field.
\<close>

definition bo_bit :: "PPCInst \<Rightarrow> nat \<Rightarrow> bool" where
  "bo_bit i n \<longleftrightarrow> bit (bo_f i) (4 - n)"

definition counted :: "PPCInst \<Rightarrow> 'e CPUState \<Rightarrow> 'e CPUState" where
  "counted i cpu = (if bo_bit i 2 then cpu else cpu\<lparr>cpu_ctr := cpu_ctr cpu - 1\<rparr>)"

definition branch_taken :: "PPCInst \<Rightarrow> 'e CPUState \<Rightarrow> bool" where
  "branch_taken i cpu \<longleftrightarrow>
     (bo_bit i 2 \<or> (cpu_ctr (counted i cpu) \<noteq> 0) \<noteq> bo_bit i 3) \<and>
     (bo_bit i 0 \<or> cr_bit cpu (bi_f i) = bo_bit i 1)"

definition go_to :: "PPCInst \<Rightarrow> u32 \<Rightarrow> 'e CPUState \<Rightarrow> 'e CPUState" where
  "go_to i target cpu =
     (if lk_f i then cpu\<lparr>cpu_lr := address_of i + 4, cpu_pc := target\<rparr> else cpu\<lparr>cpu_pc := target\<rparr>)"

definition isa_branch :: "PPCInst \<Rightarrow> 'e CPUState \<Rightarrow> 'e CPUState option" where
  "isa_branch i cpu =
     (let op = op_f i; cpu' = counted i cpu;
          conditional = (\<lambda>target. Some (if branch_taken i cpu then go_to i target cpu'
            else cpu'\<lparr>cpu_pc := address_of i + 4\<rparr>))
      in if op = PPC_OP_B then Some (go_to i (branch_target i) cpu)
         else if op = PPC_OP_BC then conditional (branch_target i)
         else if op = PPC_OP_BCLR then conditional (cpu_lr cpu AND NOT 3)
         else if op = PPC_OP_BCCTR then conditional (cpu_ctr cpu AND NOT 3)
         else None)"

end
