(* ===== verification/EmitFacts.thy ===== *)
theory EmitFacts
  imports EmitRun PpcIsa
begin

text \<open>
  The code emitted for the integer instructions computes what the architecture says.
\<close>

section \<open>Condition-register fields\<close>

lemma nibble: "bit (0xF :: u32) k \<longleftrightarrow> k < 4"
proof -
  have m: "(0xF :: u32) = mask 4" by (simp add: mask_eq_exp_minus_1)
  show ?thesis unfolding m bit_mask_iff by auto
qed

lemma put_nibble:
  assumes "s \<le> 28" and v: "\<And>k. bit v k \<Longrightarrow> k < 4" and F: "\<And>k. bit F k \<longleftrightarrow> k < 4"
  shows "(cr AND NOT (push_bit s F)) OR push_bit s v =
    put_bit (s + 3) (bit v 3) (put_bit (s + 2) (bit v 2) (put_bit (s + 1) (bit v 1) (put_bit s (bit v 0) cr)))"
proof (rule bit_word_eqI)
  fix n assume "n < LENGTH(32)"
  have "n - s < 4 \<longleftrightarrow> n < s \<or> n = s \<or> n = s + 1 \<or> n = s + 2 \<or> n = s + 3" by auto
  with assms(1) \<open>n < LENGTH(32)\<close> v[of "n - s"]
  show "bit (cr AND NOT (push_bit s F) OR push_bit s v) n =
    bit (put_bit (s + 3) (bit v 3) (put_bit (s + 2) (bit v 2) (put_bit (s + 1) (bit v 1) (put_bit s (bit v 0) cr)))) n"
    by (auto simp: bit_put_bit bit_simps F)
qed

definition with_field :: "nat \<Rightarrow> u32 \<Rightarrow> u32 \<Rightarrow> u32" where
  "with_field s v cr = (cr AND NOT (push_bit s 0xF)) OR push_bit s v"

lemma with_field:
  assumes "f < 8" and "\<And>k. bit v k \<Longrightarrow> k < 4"
  shows "with_field (28 - 4 * f) v cr = put_cr_field f (bit v 3) (bit v 2) (bit v 1) (bit v 0) cr"
proof -
  have "31 - 4 * f = 28 - 4 * f + 3" "30 - 4 * f = 28 - 4 * f + 2" "29 - 4 * f = 28 - 4 * f + 1"
    using assms(1) by simp_all
  then show ?thesis
    unfolding put_cr_field_def with_field_def using put_nibble[of "28 - 4 * f" v "0xF" cr] assms(2) nibble by simp
qed

lemma flag_bits:
  "bit (8 :: u32) k \<longleftrightarrow> k = 3" "bit (4 :: u32) k \<longleftrightarrow> k = 2" "bit (2 :: u32) k \<longleftrightarrow> k = 1"
proof -
  have m: "(8 :: u32) = push_bit 3 1" "(4 :: u32) = push_bit 2 1" "(2 :: u32) = push_bit 1 1" by simp_all
  show "bit (8 :: u32) k \<longleftrightarrow> k = 3" "bit (4 :: u32) k \<longleftrightarrow> k = 2" "bit (2 :: u32) k \<longleftrightarrow> k = 1"
    unfolding m bit_push_bit_iff bit_1_iff possible_bit_def by auto
qed

definition flags_of :: "bool \<Rightarrow> bool \<Rightarrow> bool \<Rightarrow> u32 \<Rightarrow> u32" where
  "flags_of lt gt eq w =
     (((if lt then 8 else 0) OR (if gt then 4 else 0)) OR (if eq then 2 else 0)) OR (drop_bit 31 w AND 1)"

lemma bit_flags_of:
  "bit (flags_of lt gt eq w) k \<longleftrightarrow> (lt \<and> k = 3 \<or> gt \<and> k = 2 \<or> eq \<and> k = 1 \<or> bit w 31 \<and> k = 0)"
  unfolding flags_of_def bit_or_iff bit_and_iff bit_drop_bit_eq o_def bit_1_iff
  by (cases lt; cases gt; cases eq) (auto simp only: flag_bits if_True if_False bit_0_eq simp_thms add_0_right)

lemma flag_field:
  "f < 8 \<Longrightarrow> with_field (28 - 4 * f) (flags_of lt gt eq w) cr = put_cr_field f lt gt eq (bit w 31) cr"
  by (subst with_field) (auto simp: bit_flags_of)

section \<open>Comparisons\<close>

lemma exec_set_cr0:
  assumes "env x = Some (VU32 v)"
  shows "exec m [SetField F_cr (Bin BitOr (Bin BitAnd (Field F_cr) (unum 0x0FFFFFFF)) (Bin Shl (Local x) (num 28)))] env cpu =
    Some (Falls (cpu\<lparr>cpu_cr := with_field 28 v (cpu_cr cpu)\<rparr>))"
proof -
  have k: "(- 4026531841 :: u32) = 0x0FFFFFFF" by simp
  show ?thesis using assms by (simp add: run with_field_def) (simp only: k)
qed

lemma exec_flag_tail:
  assumes "env x = Some (VU32 v)"
  shows "exec m (or_local x (Bin BitAnd (Bin Shr (Field F_xer) (num 31)) (unum 1)) # rest) env cpu =
    exec m rest (env(x \<mapsto> VU32 (v OR (drop_bit 31 (cpu_xer cpu) AND 1)))) cpu"
  using assms by (simp add: run)

lemma exec_record [run]:
  assumes "r < 32"
  shows "exec m (emit_set_cr0_from_gpr r) env cpu = Some (Falls (record_cr0 (reg cpu r) cpu))"
proof -
  let ?v = "reg cpu r"
  have "exec m (emit_set_cr0_from_gpr r) env cpu =
    Some (Falls (cpu\<lparr>cpu_cr := with_field 28 (flags_of (sint ?v < 0) (0 < sint ?v) (?v = 0) (cpu_xer cpu)) (cpu_cr cpu)\<rparr>))"
    using register_index[OF assms]
    by (simp add: emit_set_cr0_from_gpr_def reg_def run exec_or_if exec_set_cr0 exec_flag_tail flags_of_def
        del: exec_If exec_SetField exec_SetLocal split del: if_split)
  then show ?thesis using flag_field[of 0 "sint ?v < 0" "0 < sint ?v" "?v = 0" "cpu_xer cpu" "cpu_cr cpu"]
    by (simp add: record_cr0_def compare_field_def summary_overflow_def signed_eq_0_iff)
qed

lemma exec_set_cr_bits:
  assumes "env x = Some (VU32 v)" and "crf < 8"
  shows "exec m (set_cr_bits (cr_field_shift crf) (Local x) # rest) env cpu =
    exec m rest env (cpu\<lparr>cpu_cr := with_field (28 - 4 * unat crf) v (cpu_cr cpu)\<rparr>)"
proof -
  have "scast (cr_field_shift crf) = (ucast (cr_field_shift crf) :: u64)" "ucast (cr_field_shift crf) < (32 :: u64)"
    using field_cases[OF assms(2)] by (auto simp: cr_field_shift_def)
  moreover have "unat (cr_field_shift crf) = 28 - 4 * unat crf" using field_shift[OF assms(2)] by simp
  ultimately show ?thesis using assms(1) by (simp add: set_cr_bits_def run with_field_def)
qed

lemma exec_compare_s32:
  assumes "crf < 8" and "eval m env lhs cpu = Some (VU32 x, cpu)"
    and "\<And>env. eval m env rhs cpu = Some (v, cpu)" and "cast S32 v = VS32 y"
  shows "exec m (emit_compare_s32 crf lhs rhs) env cpu = Some (Falls (compare_field (unat crf) (sint x) (sint y) cpu))"
proof -
  have f: "unat crf < 8" using assms(1) by (simp add: word_less_nat_alt)
  have "exec m (emit_compare_s32 crf lhs rhs) env cpu =
    Some (Falls (cpu\<lparr>cpu_cr := with_field (28 - 4 * unat crf)
      (flags_of (sint x < sint y) (sint y < sint x) (x = y) (cpu_xer cpu)) (cpu_cr cpu)\<rparr>))"
    using assms
    by (simp add: emit_compare_s32_def run exec_or_if exec_set_cr_bits exec_flag_tail flags_of_def
        del: exec_If exec_SetField exec_SetLocal split del: if_split)
  then show ?thesis by (simp add: flag_field[OF f] compare_field_def summary_overflow_def word_eq_iff_signed[of x y, symmetric])
qed

lemma exec_compare_u32:
  assumes "crf < 8" and "eval m env lhs cpu = Some (VU32 x, cpu)"
    and "\<And>env. eval m env rhs cpu = Some (VU32 y, cpu)"
  shows "exec m (emit_compare_u32 crf lhs rhs) env cpu = Some (Falls (compare_field (unat crf) (uint x) (uint y) cpu))"
proof -
  have f: "unat crf < 8" using assms(1) by (simp add: word_less_nat_alt)
  have "exec m (emit_compare_u32 crf lhs rhs) env cpu =
    Some (Falls (cpu\<lparr>cpu_cr := with_field (28 - 4 * unat crf)
      (flags_of (x < y) (y < x) (x = y) (cpu_xer cpu)) (cpu_cr cpu)\<rparr>))"
    using assms
    by (simp add: emit_compare_u32_def run exec_or_if exec_set_cr_bits exec_flag_tail flags_of_def
        del: exec_If exec_SetField exec_SetLocal split del: if_split)
  then show ?thesis by (simp add: flag_field[OF f] compare_field_def summary_overflow_def word_less_def word_uint_eq_iff)
qed

section \<open>Carry and overflow\<close>

lemma bit_flag:
  assumes "w = push_bit n 1" and "n < 32"
  shows "bit (w :: u32) k \<longleftrightarrow> k = n"
  unfolding assms(1) bit_push_bit_iff bit_1_iff possible_bit_def using assms(2) by auto

lemma put_flag:
  assumes "w = push_bit n 1" "n < 32"
  shows "(x AND NOT w) OR (if c then w else 0) = put_bit n c x"
    "(x AND NOT w) OR push_bit n (v AND 1) = put_bit n (bit v 0) x" "x OR w = put_bit n True x"
proof -
  have [simp]: "bit w k \<longleftrightarrow> k = n" for k by (rule bit_flag[OF assms])
  note [simp] = bit_put_bit bit_and_iff bit_or_iff bit_not_iff
  show "(x AND NOT w) OR (if c then w else 0) = put_bit n c x" by (rule bit_word_eqI) auto
  show "(x AND NOT w) OR push_bit n (v AND 1) = put_bit n (bit v 0) x"
    by (rule bit_word_eqI, unfold bit_or_iff bit_push_bit_iff bit_and_iff bit_1_iff) (use assms(2) in auto)
  show "x OR w = put_bit n True x" using assms(2) by (intro bit_word_eqI) auto
qed

lemma set_xer_ov: "ppc_set_xer_ov cpu ov = put_overflow ov cpu"
proof -
  have "(x AND NOT 0x40000000) OR (if ov then 0x40000000 else 0) = put_bit 30 ov x"
    "x OR 0x80000000 = put_bit 31 True x" for x
    by (rule put_flag; simp)+
  moreover have "put_bit 31 (bit x 31) (put_bit 30 b x) = put_bit 30 b x" for x b
    by (rule bit_word_eqI) (auto simp: bit_put_bit)
  ultimately show ?thesis by (simp only: ppc_set_xer_ov_def put_overflow_def summary_overflow_def Let_def) auto
qed



lemma exec_set_carry:
  assumes "env x = Some (VU64 w)"
  shows "exec m (set_carry (Local x) # rest) env cpu = exec m rest env (put_carry (bit w 32) cpu)"
  using assms put_flag(2)[of "0x20000000" 29 "cpu_xer cpu" "ucast (drop_bit 32 w)"]
  by (simp add: run put_carry_def bit_simps)

lemma exec_set_carry_if:
  assumes "eval m env e cpu = Some (v, cpu)"
  shows "exec m (set_carry_if e # rest) env cpu = exec m rest env (put_carry (truth v) cpu)"
  using assms put_flag(1)[of "0x20000000" 29 "cpu_xer cpu" "truth v"]
  by (cases "truth v") (simp_all add: run put_carry_def)

lemma exec_record_if [run]:
  "d < 32 \<Longrightarrow> exec m (emit_record_if_needed i d) env cpu =
    Some (Falls (record_if (rc_f i) (reg cpu d) cpu))"
  by (simp add: emit_record_if_needed_def record_if_def run)

lemma exec_finish:
  assumes "d < 32" and "eval m env e cpu = Some (VBool ov, cpu)" and "reg cpu d = v"
  shows "exec m (set_overflow i e @ emit_record_if_needed i d) env cpu = Some (Falls (finish_op i d v ov cpu))"
proof -
  have "reg (put_overflow ov cpu) d = v" using assms(3) by (simp add: reg_def put_overflow_def)
  with assms show ?thesis
    by (simp add: set_overflow_def emit_record_if_needed_def finish_op_def record_if_def set_xer_ov run del: exec_record_if)
qed

lemma eval_carry_in:
  "eval m env carry_in cpu = Some (VU32 (of_bool (carry_of cpu)), cpu)"
proof -
  have "drop_bit 29 x AND 1 = (of_bool (bit x 29) :: u32)" for x
    by (rule bit_word_eqI) (auto simp: bit_simps)
  then show ?thesis by (simp add: run carry_of_def)
qed

definition wide_sum :: "u32 \<Rightarrow> u32 \<Rightarrow> bool \<Rightarrow> u64" where
  "wide_sum x y c = ucast x + ucast y + of_bool c"

lemma uint_wide: "uint (ucast x :: u64) = uint (x :: u32)"
  by transfer (simp add: take_bit_int_def)

lemma uint_range_u32: "0 \<le> uint x" "uint x < 2 ^ 32" for x :: u32
  using uint_lt2p[of x] by simp_all

lemma uint_wide_sum: "uint (wide_sum x y c) = uint x + uint y + of_bool c"
proof -
  have "uint (wide_sum x y c) = (uint x + uint y + of_bool c) mod 2 ^ 64"
    unfolding wide_sum_def by (cases c) (simp_all add: uint_word_ariths uint_wide mod_simps)
  also have "\<dots> = uint x + uint y + of_bool c"
    using uint_range_u32[of x] uint_range_u32[of y] by (intro mod_pos_pos_trivial) (auto simp: of_bool_def)
  finally show ?thesis .
qed

lemma wide_sum:
  "ucast (wide_sum x y c) = sum_of x y c" "bit (wide_sum x y c) 32 = sum_carry x y c"
  "drop_bit 32 (wide_sum x y c) \<noteq> 0 \<longleftrightarrow> sum_carry x y c"
proof -
  let ?s = "uint x + uint y + of_bool c"
  have r: "0 \<le> ?s" "?s < 2 ^ 33"
    using uint_range_u32[of x] uint_range_u32[of y] by (auto simp: of_bool_def)
  show "ucast (wide_sum x y c) = sum_of x y c"
    unfolding sum_of_def uint_wide_sum[symmetric] by simp
  have d: "uint (drop_bit 32 (wide_sum x y c)) = ?s div 2 ^ 32"
    by (simp add: drop_bit_eq_div uint_div uint_wide_sum[symmetric])
  have q: "?s div 2 ^ 32 = of_bool (sum_carry x y c)" using r by (auto simp: sum_carry_def of_bool_def)
  have "drop_bit 32 (wide_sum x y c) = 0 \<longleftrightarrow> uint (drop_bit 32 (wide_sum x y c)) = 0" by (rule unsigned_eq_0_iff[symmetric])
  then show "drop_bit 32 (wide_sum x y c) \<noteq> 0 \<longleftrightarrow> sum_carry x y c" unfolding d q by simp
  have "bit (wide_sum x y c) 32 \<longleftrightarrow> bit (uint (wide_sum x y c)) 32" by (simp add: bit_uint_iff)
  also have "\<dots> \<longleftrightarrow> odd (?s div 2 ^ 32)" unfolding uint_wide_sum bit_iff_odd by (rule refl)
  also have "\<dots> \<longleftrightarrow> sum_carry x y c" unfolding q by simp
  finally show "bit (wide_sum x y c) 32 = sum_carry x y c" .
qed

lemma sum_of_add: "sum_of x y False = x + y" "sum_of x y True = x + y + 1"
  by (simp_all add: sum_of_def)

lemma sum_overflow_exact: "ppc_add_overflowed x y (sum_of x y c) = sum_overflow x y c"
proof -
  have "word_of_int (uint x + uint y + of_bool c) = (word_of_int (sint x + sint y + of_bool c) :: u32)"
    by simp
  then show ?thesis
    using add_overflowed_carry[OF refl _ _ refl, of "of_bool c" x y]
    by (simp add: sum_overflow_def fits_s32_def sum_of_def)
qed

lemma minus_one_u32: "0xFFFFFFFF = (- 1 :: u32)" by simp

lemma sum_overflow_minus: "ppc_add_overflowed x 0xFFFFFFFF (sum_of x (- 1) c) = sum_overflow x (- 1) c"
  unfolding minus_one_u32 by (rule sum_overflow_exact)

text \<open>The 64-bit sums of the emitted code in the shape of \<open>wide_sum\<close>.\<close>

lemma wide_shapes:
  "ucast x + ucast y = wide_sum x y False" "ucast y + ucast x + 1 = wide_sum x y True"
  "ucast x + ucast y + ucast (of_bool c :: u32) = wide_sum x y c"
  "ucast x + 0xFFFFFFFF + ucast (of_bool c :: u32) = wide_sum x (- 1) c"
  "ucast x + ucast (of_bool c :: u32) = wide_sum x 0 c"
proof -
  have c: "ucast (of_bool c :: u32) = (of_bool c :: u64)" by (cases c) simp_all
  have "ucast (0xFFFFFFFF :: u32) = (0xFFFFFFFF :: u64)" by simp
  then have m: "ucast (- 1 :: u32) = (0xFFFFFFFF :: u64)" unfolding minus_one_u32[symmetric] .
  show "ucast x + ucast y = wide_sum x y False" "ucast y + ucast x + 1 = wide_sum x y True"
    by (simp_all add: wide_sum_def add.commute)
  show "ucast x + ucast y + ucast (of_bool c :: u32) = wide_sum x y c"
    "ucast x + 0xFFFFFFFF + ucast (of_bool c :: u32) = wide_sum x (- 1) c"
    "ucast x + ucast (of_bool c :: u32) = wide_sum x 0 c"
    unfolding wide_sum_def c m by simp_all
qed

lemma put_frame [simp]:
  "gpr (put_carry c cpu) = gpr cpu" "gpr (put_overflow c cpu) = gpr cpu" "gpr (record_cr0 v cpu) = gpr cpu"
  by (simp_all add: put_carry_def put_overflow_def record_cr0_def compare_field_def)

lemma carry_bit: "drop_bit 29 (cpu_xer cpu) AND 1 = of_bool (carry_of cpu)"
  unfolding carry_of_def by (rule bit_word_eqI) (auto simp: bit_simps)

lemmas sum_simps = Let_def isa_sum_def sum_operands_def reg_def put_reg_def sum_overflow_exact sum_overflow_minus carry_bit wide_sum
lemmas sum_run = run exec_set_carry exec_set_carry_if exec_finish
definition registers_ok :: "PPCInst \<Rightarrow> bool" where
  "registers_ok i \<longleftrightarrow> rD_f i < 32 \<and> rA_f i < 32 \<and> rS_f i < 32 \<and> rB_f i < 32 \<and> rC_f i < 32"

lemma registers_ok:
  "registers_ok i \<Longrightarrow> rD_f i < 32 \<and> rA_f i < 32 \<and> rS_f i < 32 \<and> rB_f i < 32 \<and>
     unat (rD_f i) < 32 \<and> unat (rA_f i) < 32 \<and> unat (rS_f i) < 32 \<and> unat (rB_f i) < 32"
  by (simp add: registers_ok_def register_index)

lemma exec_ADD:
  assumes "registers_ok i" "length (gpr cpu) = 32" "op_f i = PPC_OP_ADD \<or> op_f i = PPC_OP_ADDO"
  shows "exec m (the (emit_add i)) env cpu = map_option Falls (isa_sum i cpu)"
  using assms registers_ok[OF assms(1)]
  by (auto simp: emit_add_def sum_simps sum_run sum_of_add(1)[symmetric] simp del: exec_SetField split del: if_split)

lemma exec_ADDC:
  assumes "registers_ok i" "length (gpr cpu) = 32" "op_f i = PPC_OP_ADDC \<or> op_f i = PPC_OP_ADDCO"
  shows "exec m (the (emit_add i)) env cpu = map_option Falls (isa_sum i cpu)"
  using assms registers_ok[OF assms(1)]
  by (auto simp: emit_add_def sum_simps sum_run wide_shapes(1) simp del: exec_SetField split del: if_split)

lemma exec_ADDE:
  assumes "registers_ok i" "length (gpr cpu) = 32" "op_f i = PPC_OP_ADDE \<or> op_f i = PPC_OP_ADDEO"
  shows "exec m (the (emit_add i)) env cpu = map_option Falls (isa_sum i cpu)"
  using assms registers_ok[OF assms(1)]
  by (auto simp: emit_add_def sum_simps sum_run wide_shapes(3) simp del: exec_SetField split del: if_split)

lemma exec_ADDME:
  assumes "registers_ok i" "length (gpr cpu) = 32" "op_f i = PPC_OP_ADDME \<or> op_f i = PPC_OP_ADDMEO"
  shows "exec m (the (emit_add i)) env cpu = map_option Falls (isa_sum i cpu)"
  using assms registers_ok[OF assms(1)]
  by (auto simp: emit_add_def sum_simps sum_run wide_shapes(4) simp del: exec_SetField split del: if_split)

lemma exec_ADDZE:
  assumes "registers_ok i" "length (gpr cpu) = 32" "op_f i = PPC_OP_ADDZE \<or> op_f i = PPC_OP_ADDZEO"
  shows "exec m (the (emit_add i)) env cpu = map_option Falls (isa_sum i cpu)"
  using assms registers_ok[OF assms(1)]
  by (auto simp: emit_add_def sum_simps sum_run wide_shapes(5) simp del: exec_SetField split del: if_split)

lemma exec_SUBF:
  assumes "registers_ok i" "length (gpr cpu) = 32" "op_f i = PPC_OP_SUBF \<or> op_f i = PPC_OP_SUBFO"
  shows "exec m (the (emit_subtract i)) env cpu = map_option Falls (isa_sum i cpu)"
  using assms registers_ok[OF assms(1)]
  by (auto simp: emit_subtract_def sum_simps sum_run sum_of_add(2)[symmetric] simp del: exec_SetField split del: if_split)

lemma exec_SUBFC:
  assumes "registers_ok i" "length (gpr cpu) = 32" "op_f i = PPC_OP_SUBFC \<or> op_f i = PPC_OP_SUBFCO"
  shows "exec m (the (emit_subtract i)) env cpu = map_option Falls (isa_sum i cpu)"
  using assms registers_ok[OF assms(1)]
  by (auto simp: emit_subtract_def sum_simps sum_run wide_shapes(2) simp del: exec_SetField split del: if_split)

lemma exec_SUBFE:
  assumes "registers_ok i" "length (gpr cpu) = 32" "op_f i = PPC_OP_SUBFE \<or> op_f i = PPC_OP_SUBFEO"
  shows "exec m (the (emit_subtract i)) env cpu = map_option Falls (isa_sum i cpu)"
  using assms registers_ok[OF assms(1)]
  by (auto simp: emit_subtract_def sum_simps sum_run wide_shapes(3) simp del: exec_SetField split del: if_split)

lemma exec_SUBFME:
  assumes "registers_ok i" "length (gpr cpu) = 32" "op_f i = PPC_OP_SUBFME \<or> op_f i = PPC_OP_SUBFMEO"
  shows "exec m (the (emit_subtract i)) env cpu = map_option Falls (isa_sum i cpu)"
  using assms registers_ok[OF assms(1)]
  by (auto simp: emit_subtract_def sum_simps sum_run wide_shapes(4) simp del: exec_SetField split del: if_split)

lemma exec_SUBFZE:
  assumes "registers_ok i" "length (gpr cpu) = 32" "op_f i = PPC_OP_SUBFZE \<or> op_f i = PPC_OP_SUBFZEO"
  shows "exec m (the (emit_subtract i)) env cpu = map_option Falls (isa_sum i cpu)"
  using assms registers_ok[OF assms(1)]
  by (auto simp: emit_subtract_def sum_simps sum_run wide_shapes(5) simp del: exec_SetField split del: if_split)


lemma neg_overflow: "(x = 0x80000000) = sum_overflow (NOT x) 0 True"
proof -
  have k: "sint (0x80000000 :: u32) = - (2 ^ 31)" by simp
  have "x = 0x80000000 \<longleftrightarrow> sint x = - (2 ^ 31)" by (metis k signed_word_eqI)
  moreover have "sint (NOT x) = - sint x - 1" 
    using sint_range_u32[of x] by (simp add: signed_not_eq not_int_def signed_take_bit_int_eq_self)
  ultimately show ?thesis
    using sint_range_u32[of x] by (auto simp: sum_overflow_def fits_s32_def)
qed

lemma exec_NEG:
  assumes "registers_ok i" "length (gpr cpu) = 32" "op_f i = PPC_OP_NEG \<or> op_f i = PPC_OP_NEGO"
  shows "exec m (the (emit_subtract i)) env cpu = map_option Falls (isa_sum i cpu)"
  using assms registers_ok[OF assms(1)]
  by (auto simp: emit_subtract_def sum_simps sum_run sum_of_add(2) neg_overflow simp del: exec_SetField split del: if_split)

section \<open>Immediate arithmetic\<close>

lemma simm_word: "(scast (simm_f i) :: u32) = simm_of i"
  by (simp add: simm_of_def)

lemma sint_wide: "sint (scast x :: u64) = sint (x :: u32)"
  by transfer simp

lemma product_bounds:
  fixes x y :: int
  assumes "- (2 ^ 31) \<le> x" "x < 2 ^ 31" "- (2 ^ 31) \<le> y" "y < 2 ^ 31"
  shows "- (2 ^ 62) \<le> x * y" "x * y \<le> 2 ^ 62"
proof -
  have "\<bar>x * y\<bar> \<le> 2 ^ 31 * 2 ^ 31" unfolding abs_mult using assms by (intro mult_mono) auto
  then show "- (2 ^ 62) \<le> x * y" "x * y \<le> 2 ^ 62" by (simp_all add: abs_le_iff)
qed

lemma s64_product: "sint (scast x * scast y :: u64) = sint (x :: u32) * sint (y :: u32)"
proof -
  have "sint (scast x * scast y :: u64) = signed_take_bit 63 (sint x * sint y)"
    by (simp add: sint_word_mult sint_wide)
  also have "\<dots> = sint x * sint y"
    using product_bounds[OF sint_range_u32[of x] sint_range_u32[of y]] by (simp add: signed_take_bit_int_eq_self)
  finally show ?thesis .
qed

lemma narrow_int: "ucast (word_of_int k :: u64) = (word_of_int k :: u32)"
  by transfer simp

lemma product_low: "ucast (scast x * scast y :: u64) = x * y" for x y :: u32
  using narrow_int[of "sint x * sint y"] by simp

lemma sum_of_not: "sum_of (NOT x) y True = y - x"
  by (simp add: sum_of_add not_eq_complement)

lemma base_or_zero_add: "base_or_zero i cpu + x = (if rA_f i = 0 then x else reg cpu (rA_f i) + x)"
  by (simp add: base_or_zero_def)

lemma exec_add_immediate:
  assumes "registers_ok i" "length (gpr cpu) = 32" "isa_add_immediate i cpu = Some cpu'"
  shows "exec m (the (emit_add_immediate i)) env cpu = Some (Falls cpu')"
proof -
  note r = registers_ok[OF assms(1)] assms(2)
  note [simp] = emit_add_immediate_def sum_simps sum_run isa_add_immediate_def simm_word
  note [simp del] = exec_SetField
  consider "op_f i = PPC_OP_MULLI" | "op_f i = PPC_OP_SUBFIC" | "op_f i = PPC_OP_ADDI \<or> op_f i = PPC_OP_ADDIS"
    | "op_f i = PPC_OP_ADDIC \<or> op_f i = PPC_OP_ADDIC_DOT"
    using assms(3) by (simp split: if_splits)
  then show ?thesis
  proof cases
    case 1
    then show ?thesis using r assms(3) by (auto simp: s64_product sint_wide product_low)
  next
    case 2
    then show ?thesis using r assms(3) by (auto simp: wide_shapes(2) sum_of_not)
  next
    case 3
    then show ?thesis using r assms(3) by (auto simp: base_or_zero_add push_bit_eq_mult)
  next
    case 4
    then show ?thesis using r assms(3) by (auto simp: wide_shapes(1) sum_of_add)
  qed
qed

section \<open>Multiplication and division\<close>

lemma minimum_word: "a = 0x80000000 \<longleftrightarrow> sint a = - (2 ^ 31)" for a :: u32
proof -
  have k: "sint (0x80000000 :: u32) = - (2 ^ 31)" by simp
  show ?thesis by (metis k signed_word_eqI)
qed

lemma minus_word: "b = 0xFFFFFFFF \<longleftrightarrow> sint b = - 1" for b :: u32
proof -
  have k: "sint (0xFFFFFFFF :: u32) = - 1" by simp
  show ?thesis by (metis k signed_word_eqI)
qed

lemma quotient_truncated: "y \<noteq> 0 \<Longrightarrow> quotient x y = truncated_quotient x y"
  by (auto simp: quotient_def truncated_quotient_def sgn_if)

lemma product_high_signed:
  "ucast (signed_drop_bit 32 (scast x * scast y :: u64)) = (word_of_int (sint x * sint y div 2 ^ 32) :: u32)"
  for x y :: u32
proof -
  let ?p = "sint x * sint y"
  have b: "- (2 ^ 62) \<le> ?p" "?p \<le> 2 ^ 62"
    using product_bounds[OF sint_range_u32[of x] sint_range_u32[of y]] by simp_all
  have "sint (signed_drop_bit 32 (scast x * scast y :: u64)) = ?p div 2 ^ 32"
    by (simp add: sint_signed_drop_bit_eq s64_product sint_wide drop_bit_eq_div)
  moreover have "sint (word_of_int (?p div 2 ^ 32) :: u64) = ?p div 2 ^ 32"
    using b by (simp add: signed_of_int signed_take_bit_int_eq_self)
  ultimately have "signed_drop_bit 32 (scast x * scast y :: u64) = word_of_int (?p div 2 ^ 32)"
    by (metis signed_word_eqI)
  then show ?thesis using narrow_int[of "?p div 2 ^ 32"] by simp
qed

lemma product_high_unsigned:
  "ucast (drop_bit 32 (ucast x * ucast y :: u64)) = (word_of_int (uint x * uint y div 2 ^ 32) :: u32)"
  for x y :: u32
proof -
  have "uint x * uint y \<le> 2 ^ 32 * 2 ^ 32 - 1"
    using mult_mono[of "uint x" "2 ^ 32 - 1" "uint y" "2 ^ 32 - 1"] uint_range_u32[of x] uint_range_u32[of y] by simp
  then have "uint (ucast x * ucast y :: u64) = uint x * uint y"
    using uint_range_u32[of x] uint_range_u32[of y]
    by (simp add: uint_word_ariths uint_wide mod_pos_pos_trivial)
  then have "uint (drop_bit 32 (ucast x * ucast y :: u64)) = uint x * uint y div 2 ^ 32"
    by (simp add: drop_bit_eq_div uint_div)
  then have "drop_bit 32 (ucast x * ucast y :: u64) = word_of_int (uint x * uint y div 2 ^ 32)"
    by (metis word_of_int_uint)
  then show ?thesis using narrow_int[of "uint x * uint y div 2 ^ 32"] by simp
qed

lemma unsigned_quotient: "(x div y :: u32) = word_of_int (uint x div uint y)"
  by (simp add: word_div_def)


lemma eval_product_overflow:
  fixes a b :: u32
  assumes "env x = Some (VS64 (scast a * scast b))"
  shows "eval m env (Disj (Bin Lt (Local x) (Lit (VS64 (- 0x80000000)))) (Bin Gt (Local x) (Lit (VS64 0x7FFFFFFF)))) cpu =
    Some (VBool (\<not> fits_s32 (sint a * sint b)), cpu)"
  using assms by (auto simp: run s64_product sint_wide fits_s32_def)

lemma eval_division_overflow:
  fixes a b :: u32
  assumes "env x = Some (VS32 a)" "env y = Some (VS32 b)"
  shows "eval m env (Disj (Bin Eq (Local y) (num 0))
      (Conj (Bin Eq (Cast U32 (Local x)) (unum 0x80000000)) (Bin Eq (Local y) (num (- 1))))) cpu =
    Some (VBool (division_overflow a b), cpu)"
proof -
  have "b = - 1 \<longleftrightarrow> sint b = - 1" using minus_word[of b] by (simp only: minus_one_u32)
  then show ?thesis using assms by (auto simp: run division_overflow_def minimum_word)
qed

lemma eval_signed_quotient:
  fixes a b :: u32
  assumes "env x = Some (VS32 a)" "env y = Some (VS32 b)" "env z = Some (VBool (division_overflow a b))"
  shows "eval m env (Cond (Local z) (Cond (Bin Lt (Local x) (num 0)) (unum 0xFFFFFFFF) (unum 0))
      (Cast U32 (Bin Div (Local x) (Local y)))) cpu =
    Some (VU32 (if division_overflow a b then (if sint a < 0 then - 1 else 0)
      else word_of_int (truncated_quotient (sint a) (sint b))), cpu)"
proof (cases "division_overflow a b")
  case True
  with assms show ?thesis by (simp add: run)
next
  case False
  then have "b \<noteq> 0" "\<not> (a = 0x80000000 \<and> b = 0xFFFFFFFF)" "sint b \<noteq> 0"
    by (auto simp: division_overflow_def minimum_word minus_word signed_eq_0_iff)
  with assms False show ?thesis by (simp add: run quotient_truncated)
qed

lemma eval_unsigned_quotient:
  assumes "env x = Some (VU32 b)" "eval m env e cpu = Some (VU32 a, cpu)"
  shows "eval m env (Cond (Bin Eq (Local x) (num 0)) (unum 0) (Bin Div e (Local x))) cpu =
    Some (VU32 (if b = 0 then 0 else word_of_int (uint a div uint b)), cpu)"
  using assms by (simp add: run unsigned_quotient)

lemma exec_multiply_divide:
  assumes "registers_ok i" "length (gpr cpu) = 32" "isa_multiply_divide i cpu \<noteq> None"
  shows "exec m (the (emit_multiply_divide i)) env cpu = map_option Falls (isa_multiply_divide i cpu)"
proof -
  note r = registers_ok[OF assms(1)] assms(2)
  note [simp] = emit_multiply_divide_def sum_simps sum_run isa_multiply_divide_def
  note [simp del] = exec_SetField
  note [split del] = if_split
  consider "op_f i = PPC_OP_MULLW \<or> op_f i = PPC_OP_MULLWO" | "op_f i = PPC_OP_MULHW" | "op_f i = PPC_OP_MULHWU"
    | "op_f i = PPC_OP_DIVW \<or> op_f i = PPC_OP_DIVWO" | "op_f i = PPC_OP_DIVWU \<or> op_f i = PPC_OP_DIVWUO"
    using assms(3) by (simp split: if_splits)
  then show ?thesis
  proof cases
    case 1
    with r show ?thesis by (auto simp: eval_product_overflow s64_product sint_wide product_low simp del: eval.simps(10))
  next
    case 2
    with r show ?thesis by (simp add: s64_product sint_wide product_high_signed)
  next
    case 3
    with r show ?thesis by (simp add: product_high_unsigned)
  next
    case 4
    with r show ?thesis by (auto simp: eval_division_overflow eval_signed_quotient simp del: eval.simps(10,11))
  next
    case 5
    with r show ?thesis by (auto simp: eval_unsigned_quotient simp del: eval.simps(11))
  qed
qed

end
