(* ===== verification/EmitLogic.thy ===== *)
theory EmitLogic
  imports EmitFacts
begin

text \<open>
  The code emitted for comparisons, logic, shifts and rotations: the loop of \<open>cntlzw\<close>, the mask
  loop of the emitter and the shift amounts that C leaves undefined.
\<close>

section \<open>Comparisons and logic\<close>

lemma sint_wide_half: "sint (scast h :: u32) = sint (h :: u16)"
  by transfer simp

lemma uint_wide_half: "uint (ucast h :: u32) = uint (h :: u16)"
  by transfer (simp add: take_bit_int_def)

lemma exec_compare:
  assumes "registers_ok i" "crfD_f i < 8" "isa_compare i cpu \<noteq> None"
  shows "exec m (the (emit_compare i)) env cpu = map_option Falls (isa_compare i cpu)"
proof -
  note r = registers_ok[OF assms(1)] assms(2)
  note [simp] = emit_compare_def isa_compare_def Let_def reg_def run exec_compare_s32 exec_compare_u32
    sint_wide_half uint_wide_half
  consider "op_f i = PPC_OP_CMPI" | "op_f i = PPC_OP_CMPLI" | "op_f i = PPC_OP_CMP" | "op_f i = PPC_OP_CMPL"
    using assms(3) by (simp split: if_splits)
  then show ?thesis by cases (use r in simp_all)
qed

lemma exec_logical_immediate:
  assumes "registers_ok i" "length (gpr cpu) = 32"
    and "op_f i \<in> {PPC_OP_ORI, PPC_OP_ORIS, PPC_OP_XORI, PPC_OP_XORIS, PPC_OP_ANDI, PPC_OP_ANDIS}"
  shows "exec m (the (emit_logical_immediate i)) env cpu = map_option Falls (isa_logical i cpu)"
proof -
  note r = registers_ok[OF assms(1)] assms(2)
  note [simp] = emit_logical_immediate_def isa_logical_def isa_logical_value_def record_if_def Let_def reg_def
    put_reg_def run push_bit_eq_mult
  consider "op_f i = PPC_OP_ORI" | "op_f i = PPC_OP_ORIS" | "op_f i = PPC_OP_XORI" | "op_f i = PPC_OP_XORIS"
    | "op_f i = PPC_OP_ANDI" | "op_f i = PPC_OP_ANDIS" using assms(3) by auto
  then show ?thesis by cases (use r in simp_all)
qed

lemma exec_logical:
  assumes "registers_ok i" "length (gpr cpu) = 32"
    and "op_f i \<in> {PPC_OP_AND, PPC_OP_ANDC, PPC_OP_OR, PPC_OP_ORC, PPC_OP_XOR, PPC_OP_NAND, PPC_OP_NOR, PPC_OP_EQV}"
  shows "exec m (the (emit_logical i)) env cpu = map_option Falls (isa_logical i cpu)"
proof -
  note r = registers_ok[OF assms(1)] assms(2)
  note [simp] = emit_logical_def isa_logical_def isa_logical_value_def Let_def reg_def put_reg_def run
  consider "op_f i = PPC_OP_AND" | "op_f i = PPC_OP_ANDC" | "op_f i = PPC_OP_OR" | "op_f i = PPC_OP_ORC"
    | "op_f i = PPC_OP_XOR" | "op_f i = PPC_OP_NAND" | "op_f i = PPC_OP_NOR" | "op_f i = PPC_OP_EQV"
    using assms(3) by auto
  then show ?thesis by cases (use r in simp_all)
qed

section \<open>Leading zeros\<close>

lemma leading_zeros:
  "leading_zeros w \<le> 32" "k < leading_zeros w \<Longrightarrow> \<not> bit w (31 - k)"
  "leading_zeros w < 32 \<Longrightarrow> bit w (31 - leading_zeros w)"
proof -
  let ?P = "\<lambda>k. \<not> bit w (31 - k)" and ?n = "leading_zeros w"
  show "?n \<le> 32" using length_takeWhile_le[of ?P "[0..<32]"] by (simp add: leading_zeros_def)
  then show "\<not> bit w (31 - k)" if "k < ?n"
    using nth_mem[of k "takeWhile ?P [0..<32]"] set_takeWhileD[of k ?P "[0..<32]"] that
      takeWhile_nth[of k ?P "[0..<32]"] set_takeWhileD[of "takeWhile ?P [0..<32] ! k" ?P "[0..<32]"]
    by (simp add: leading_zeros_def)
  show "bit w (31 - ?n)" if "?n < 32"
    using nth_length_takeWhile[of ?P "[0..<32]"] that by (simp add: leading_zeros_def)
qed

lemma and_top_bit: "k < 32 \<Longrightarrow> w AND drop_bit k 0x80000000 = 0 \<longleftrightarrow> \<not> bit w (31 - k)" for w :: u32
proof -
  assume k: "k < 32"
  have b: "bit (drop_bit k (0x80000000 :: u32)) n \<longleftrightarrow> n = 31 - k" for n
    using bit_flag[of "0x80000000" 31 "k + n"] k by (auto simp: bit_drop_bit_eq add.commute)
  show ?thesis by (metis b flag_set_bit)
qed

lemma exec_count_loop:
  assumes "env ''v'' = Some (VU32 v)" and "env ''n'' = Some (VU32 (of_nat k))" and "k \<le> leading_zeros v"
  shows "exec m (While (Conj (Bin Lt (Local ''n'') (num 32))
      (Bin Eq (Bin BitAnd (Local ''v'') (Bin Shr (unum 0x80000000) (Local ''n''))) (num 0)))
      [SetLocal ''n'' (Bin Add (Local ''n'') (num 1))] # rest) env cpu =
    exec m rest (env(''n'' \<mapsto> VU32 (of_nat (leading_zeros v)))) cpu"
  using assms
proof (induction "leading_zeros v - k" arbitrary: k env)
  case 0
  then have k: "k = leading_zeros v" by simp
  have "of_nat k < (32 :: u32) \<longleftrightarrow> k < 32" "unat (of_nat k :: u32) = k"
    using leading_zeros(1)[of v] k by (simp_all add: word_less_nat_alt unat_of_nat)
  moreover have "(ucast (of_nat k :: u32) :: u64) < 32 \<longleftrightarrow> k < 32"
    using leading_zeros(1)[of v] k by (simp add: word_less_nat_alt unat_of_nat)
  moreover have "env(''n'' \<mapsto> VU32 (of_nat k)) = env" using 0 by (simp add: fun_upd_idem)
  ultimately show ?case using 0 k leading_zeros(3)[of v] and_top_bit[of k v]
    by (subst exec_While) (auto simp: run)
next
  case (Suc d)
  then have k: "k < leading_zeros v" "k < 32" using leading_zeros(1)[of v] by simp_all
  have "of_nat k < (32 :: u32)" "unat (of_nat k :: u32) = k" "(ucast (of_nat k :: u32) :: u64) < 32"
    using k by (simp_all add: word_less_nat_alt unat_of_nat)
  with Suc k leading_zeros(2)[of k v] and_top_bit[of k v] show ?case
    by (subst exec_While) (simp add: run Suc.hyps(1)[of "Suc k"])
qed

section \<open>Shifts\<close>

lemma exec_count_extend:
  assumes "registers_ok i" "length (gpr cpu) = 32"
    and "op_f i \<in> {PPC_OP_CNTLZW, PPC_OP_EXTSB, PPC_OP_EXTSH}"
  shows "exec m (the (emit_count_extend i)) env cpu = map_option Falls (isa_logical i cpu)"
proof -
  note r = registers_ok[OF assms(1)] assms(2)
  note [simp] = emit_count_extend_def isa_logical_def isa_logical_value_def isa_shift_value_def Let_def reg_def
    put_reg_def run
  consider "op_f i = PPC_OP_CNTLZW" | "op_f i = PPC_OP_EXTSB" | "op_f i = PPC_OP_EXTSH" using assms(3) by auto
  then show ?thesis
  proof cases
    case 1
    with r show ?thesis by (simp add: exec_count_loop[where k = 0, simplified])
  qed (use r in simp_all)
qed

lemma left_shift: "push_bit n x = (word_of_int (uint x * 2 ^ n) :: u32)"
  by (simp add: push_bit_eq_mult)

lemma right_shift: "drop_bit n x = (word_of_int (uint x div 2 ^ n) :: u32)"
proof -
  have "uint (drop_bit n x) = drop_bit n (uint x)"
    by (rule bit_eqI) (auto simp: bit_uint_iff bit_drop_bit_eq dest: bit_u32)
  then have "uint (drop_bit n x) = uint x div 2 ^ n" by (simp only: drop_bit_eq_div)
  then show ?thesis by (metis word_of_int_uint)
qed

lemma small_shift: "ucast (sh :: u32) < (32 :: u64) \<longleftrightarrow> unat sh < 32" "31 < (sh :: u32) \<longleftrightarrow> \<not> unat sh < 32"
  by (auto simp: word_less_nat_alt)

lemma shifted_out: "\<not> unat sh < 32 \<Longrightarrow> push_bit (unat sh) (x :: u32) = 0" "\<not> unat sh < 32 \<Longrightarrow> drop_bit (unat sh) (x :: u32) = 0"
  by (rule bit_word_eqI; auto simp: bit_simps dest: bit_u32)+

lemma eval_shift:
  assumes "env x = Some (VU32 sh)" "eval m env e cpu = Some (VU32 a, cpu)"
  shows "eval m env (Cond (Bin Gt (Local x) (num 31)) (unum 0) (Bin Shl e (Local x))) cpu =
      Some (VU32 (word_of_int (uint a * 2 ^ unat sh)), cpu)"
    and "eval m env (Cond (Bin Gt (Local x) (num 31)) (unum 0) (Bin Shr e (Local x))) cpu =
      Some (VU32 (word_of_int (uint a div 2 ^ unat sh)), cpu)"
  unfolding left_shift[symmetric] right_shift[symmetric]
  using assms by (auto simp: run small_shift shifted_out)

lemma exec_shift:
  assumes "registers_ok i" "length (gpr cpu) = 32" and "op_f i \<in> {PPC_OP_SLW, PPC_OP_SRW}"
  shows "exec m (the (emit_shift i)) env cpu = map_option Falls (isa_logical i cpu)"
proof -
  note r = registers_ok[OF assms(1)] assms(2)
  note [simp] = emit_shift_def isa_logical_def isa_logical_value_def isa_shift_value_def Let_def reg_def
    put_reg_def run eval_shift
  note [simp del] = eval.simps(11)
  consider "op_f i = PPC_OP_SLW" | "op_f i = PPC_OP_SRW" using assms(3) by auto
  then show ?thesis by cases (use r in simp_all)
qed

text \<open>The arithmetic shift, in the three branches of the emitted code.\<close>

lemma sign_test: "x AND 0x80000000 = 0 \<longleftrightarrow> 0 \<le> sint x" for x :: u32
proof -
  have b: "bit (0x80000000 :: u32) k \<longleftrightarrow> k = 31" for k by (rule bit_flag) simp_all
  have "x AND 0x80000000 \<noteq> 0 \<longleftrightarrow> bit x 31" by (metis b flag_set_bit)
  then show ?thesis using bit_last_iff[of x] by auto
qed

lemma signed_shift: "signed_drop_bit n v = (word_of_int (sint v div 2 ^ n) :: u32)"
proof -
  have "sint (signed_drop_bit n v) = sint v div 2 ^ n" by (simp add: sint_signed_drop_bit_eq drop_bit_eq_div)
  moreover have "word_of_int (sint (signed_drop_bit n v)) = signed_drop_bit n v" by simp
  ultimately show ?thesis by metis
qed

lemma shifted_bits:
  fixes v :: u32
  assumes "n < 32"
  shows "push_bit (32 - n) v = 0 \<longleftrightarrow> sint v mod 2 ^ n = 0"
proof -
  have "push_bit (32 - n) v = 0 \<longleftrightarrow> (\<forall>k < n. \<not> bit v k)"
  proof
    assume z: "push_bit (32 - n) v = 0"
    show "\<forall>k < n. \<not> bit v k"
    proof (intro allI impI)
      fix k assume "k < n"
      then have "bit (push_bit (32 - n) v) (32 - n + k) = bit v k"
        using assms \<open>k < n\<close> by (auto simp: bit_push_bit_iff)
      with z show "\<not> bit v k" by simp
    qed
  next
    assume "\<forall>k < n. \<not> bit v k"
    then show "push_bit (32 - n) v = 0"
      using assms by (intro bit_word_eqI) (auto simp: bit_push_bit_iff)
  qed
  also have "\<dots> \<longleftrightarrow> take_bit n (sint v) = 0"
    using assms by (auto simp: bit_eq_iff bit_take_bit_iff bit_sint_iff)
  finally show ?thesis by (simp add: take_bit_eq_mod)
qed

text \<open>The arithmetic shift, in the three branches of the emitted code.\<close>

lemma far_shift:
  fixes v :: u32
  assumes "32 \<le> n"
  shows "sint v div 2 ^ n = (if sint v < 0 then - 1 else 0)" "sint v < 0 \<Longrightarrow> sint v mod 2 ^ n \<noteq> 0"
proof -
  have "(2 :: int) ^ 32 \<le> 2 ^ n" using assms by (intro power_increasing) simp_all
  with sint_range_u32[of v] have b: "- (2 ^ n) < sint v" "sint v < 2 ^ n" by simp_all
  have neg: "sint v div 2 ^ n = - 1" if "sint v < 0"
  proof -
    have "(sint v + 2 ^ n) div 2 ^ n = 0" using b that by (intro div_pos_pos_trivial) simp_all
    moreover have "(sint v + 2 ^ n) div 2 ^ n = sint v div 2 ^ n + 1" by (rule div_add_self2) simp
    ultimately show ?thesis by linarith
  qed
  then show "sint v div 2 ^ n = (if sint v < 0 then - 1 else 0)" using b by (simp add: div_pos_pos_trivial)
  show "sint v mod 2 ^ n \<noteq> 0" if "sint v < 0"
  proof -
    have "(sint v + 2 ^ n) mod 2 ^ n = sint v + 2 ^ n" using b that by (intro mod_pos_pos_trivial) simp_all
    then show ?thesis using b by simp
  qed
qed

lemma exec_arithmetic_shift:
  fixes v :: u32
  assumes "a < 32" "length (gpr cpu) = 32"
    and "env ''sh'' = Some (VU32 sh)" "env ''value'' = Some (VU32 v)" "env ''ca'' = Some (VBool False)"
    and "unat sh = n"
  shows "exec m (If (Bin Eq (Local ''sh'') (num 0))
      [set_gpr a (Local ''value'')]
      [If (Bin Gt (Local ''sh'') (num 31))
         [set_gpr a (Cond (Bin BitAnd (Local ''value'') (unum 0x80000000)) (unum 0xFFFFFFFF) (unum 0)),
          SetLocal ''ca'' (Bin Ne (Bin BitAnd (Local ''value'') (unum 0x80000000)) (num 0))]
         [set_gpr a (Cast U32 (Bin Shr (Cast S32 (Local ''value'')) (Local ''sh''))),
          SetLocal ''ca'' (Conj (Bin BitAnd (Local ''value'') (unum 0x80000000))
            (Bin Ne (Bin Shl (Local ''value'') (Bin Sub (unum 32) (Local ''sh''))) (num 0)))]]
      # set_carry_if (Local ''ca'') # emit_record_if_needed i a) env cpu =
    Some (Falls (record_if (rc_f i) (word_of_int (sint v div 2 ^ n))
      (put_carry (sint v < 0 \<and> sint v mod 2 ^ n \<noteq> 0) (put_reg a (word_of_int (sint v div 2 ^ n)) cpu))))"
proof -
  note r = assms register_index[OF assms(1)]
  note [simp] = run exec_set_carry_if put_reg_def reg_def
  note [simp del] = exec_SetField
  consider "n = 0" | "32 \<le> n" | "0 < n" "n < 32" by linarith
  then show ?thesis
  proof cases
    case 1
    then have "sh = 0" using assms(6) by (simp add: unat_eq_0)
    with r 1 show ?thesis by simp
  next
    case 2
    then have "sh \<noteq> 0" "31 < sh" using assms(6) by (auto simp: word_less_nat_alt)
    with r 2 show ?thesis by (auto simp: far_shift sign_test minus_one_u32)
  next
    case 3
    then have "sh \<noteq> 0" "\<not> 31 < sh" "(ucast sh :: u64) < 32" "(ucast (32 - sh) :: u64) < 32" "unat (32 - sh) = 32 - n"
      using assms(6) by (auto simp: word_less_nat_alt unat_sub word_le_nat_alt)
    with r 3 show ?thesis by (auto simp: signed_shift shifted_bits sign_test)
  qed
qed
lemma exec_shift_arithmetic:
  assumes "registers_ok i" "length (gpr cpu) = 32" and "op_f i \<in> {PPC_OP_SRAW, PPC_OP_SRAWI}"
  shows "exec m (the (emit_shift i)) env cpu = map_option Falls (isa_logical i cpu)"
proof -
  note r = registers_ok[OF assms(1)] assms(2)
  note [simp] = emit_shift_def isa_logical_def isa_logical_value_def isa_shift_value_def Let_def
    exec_Decl run
  note [simp del] = exec_If exec_SetField
  consider "op_f i = PPC_OP_SRAW" | "op_f i = PPC_OP_SRAWI" using assms(3) by auto
  then show ?thesis by cases (use r in \<open>simp_all add: exec_arithmetic_shift reg_def\<close>)
qed

section \<open>Masks and rotations\<close>

lemma in_mask_step:
  assumes "b < 32" "me < 32" "b \<noteq> me" "k < 32"
  shows "in_mask b me k \<longleftrightarrow> k = b \<or> in_mask ((b + 1) mod 32) me k"
  using assms by (cases "b = 31") (auto simp: in_mask_def)

lemma in_mask_same: "in_mask me me k \<longleftrightarrow> k = me"
  by (auto simp: in_mask_def)

lemma bit_mask_word: "bit (mask_word mb me) n \<longleftrightarrow> n < 32 \<and> in_mask mb me (31 - n)"
proof -
  have "bit (fold (\<lambda>n w. put_bit n (P n) w) [0..<j] 0) n \<longleftrightarrow> n < j \<and> P n" if "j \<le> 32" for j P
    using that by (induction j) (auto simp: bit_put_bit less_Suc_eq)
  from this[of 32 "\<lambda>n. in_mask mb me (31 - n)"] show ?thesis by (simp add: mask_word_def)
qed

lemma bit_top_shifted: "b < 32 \<Longrightarrow> bit (drop_bit b (0x80000000 :: u32)) n \<longleftrightarrow> n = 31 - b"
  using bit_flag[of "0x80000000" 31 "b + n"] by (auto simp: bit_drop_bit_eq add.commute)

lemma mask_word_same: "b < 32 \<Longrightarrow> mask_word b b = drop_bit b 0x80000000"
  by (rule bit_word_eqI) (auto simp: bit_mask_word bit_top_shifted in_mask_same)

lemma mask_word_step:
  assumes "b < 32" "me < 32" "b \<noteq> me"
  shows "mask_word b me = drop_bit b 0x80000000 OR mask_word ((b + 1) mod 32) me"
proof (rule bit_word_eqI)
  fix n assume "n < LENGTH(32)"
  then have "31 - n = b \<longleftrightarrow> n = 31 - b" using assms(1) by auto
  with \<open>n < LENGTH(32)\<close> show "bit (mask_word b me) n = bit (drop_bit b 0x80000000 OR mask_word ((b + 1) mod 32) me) n"
    using in_mask_step[OF assms, of "31 - n"] assms(1) by (simp add: bit_mask_word bit_or_iff bit_top_shifted)
qed

lemma cyclic_distance:
  "x < 32 \<Longrightarrow> y < 32 \<Longrightarrow> (x + 32 - y) mod 32 = (if y \<le> x then x - y else x + 32 - y)" for x y :: nat
  by (auto simp: mod_if)

lemma ppc_mask32_loop:
  assumes "unat b < 32" "unat me < 32" "(unat me + 32 - unat b) mod 32 = d"
  shows "ppc_mask32_loop b me m = Some (m OR mask_word (unat b) (unat me))"
  using assms
proof (induction d arbitrary: b m)
  case 0
  then have "unat b = unat me" by (simp add: cyclic_distance split: if_splits)
  then have e: "b = me" by (metis word_unat_eq_iff)
  have "\<not> 32 \<le> me" "mask_word (unat me) (unat me) = drop_bit (unat me) 0x80000000"
    using 0(2) by (simp_all add: word_le_nat_alt mask_word_same)
  then show ?case unfolding e by (subst ppc_mask32_loop.simps) simp
next
  case (Suc d)
  have "b \<noteq> me" using Suc.prems by auto
  then have u: "unat b \<noteq> unat me" by (metis word_unat_eq_iff)
  have n: "unat ((b + 1) AND 31) = (unat b + 1) mod 32"
  proof -
    have "(b + 1) AND 31 = take_bit 5 (b + 1)" by (simp add: take_bit_eq_mask mask_eq_exp_minus_1)
    then have "unat ((b + 1) AND 31) = unat (b + 1) mod 32" by (simp add: take_bit_eq_mod unat_mod)
    also have "unat (b + 1) = unat b + 1" using Suc.prems(1) by (simp add: unat_word_ariths)
    finally show ?thesis .
  qed
  have "(unat me + 32 - (unat b + 1) mod 32) mod 32 = d" using Suc.prems by (auto simp: cyclic_distance mod_Suc split: if_splits)
  with Suc.IH[of "(b + 1) AND 31" "m OR drop_bit (unat b) 0x80000000"] n Suc.prems u \<open>b \<noteq> me\<close>
  show ?case
    by (subst ppc_mask32_loop.simps)
       (simp add: word_le_nat_alt mask_word_step[of "unat b" "unat me"] or.assoc)
qed

lemma ppc_mask32_bits:
  assumes "mb < 32" "me < 32"
  shows "ppc_mask32 mb me = Some (mask_word (unat mb) (unat me))"
  using ppc_mask32_loop[of mb me _ 0] register_index[OF assms(1)] register_index[OF assms(2)]
  by (simp add: ppc_mask32_def)

lemma dolrecomp_rotl32: "dolrecomp_rotl32 v sh = word_rotl (unat (sh AND 31)) v"
proof -
  have "sh AND 31 = take_bit 5 sh" by (simp add: take_bit_eq_mask mask_eq_exp_minus_1)
  then have n: "unat (sh AND 31) < 32" by (simp add: take_bit_eq_mod unat_mod)
  then have m: "unat (32 - (sh AND 31)) = 32 - unat (sh AND 31)" by (simp add: unat_sub word_le_nat_alt)
  show ?thesis
  proof (cases "sh AND 31 = 0")
    case True
    have "word_rotl 0 v = v" by (rule bit_word_eqI) (simp add: bit_word_rotl_iff)
    with True show ?thesis by (simp add: dolrecomp_rotl32_def Let_def)
  next
    case False
    then have z: "0 < unat (sh AND 31)" by (simp add: unat_gt_0)
    have "push_bit k v OR drop_bit (32 - k) v = word_rotl k v" if "0 < k" "k < 32" for k
    proof (rule bit_word_eqI)
      fix n assume "n < LENGTH(32)"
      then have n32: "n < 32" by simp
      have p: "(n + (32 - k)) mod 32 = (if n < k then n + (32 - k) else n - k)"
        using that n32 by (auto simp: mod_if)
      have r: "bit (word_rotl k v) n \<longleftrightarrow> bit v (if n < k then n + (32 - k) else n - k)"
        unfolding p[symmetric] using that n32 by (simp add: bit_word_rotl_iff)
      have l: "bit (push_bit k v OR drop_bit (32 - k) v) n \<longleftrightarrow> k \<le> n \<and> bit v (n - k) \<or> bit v (32 - k + n)"
        using n32 by (simp add: bit_or_iff bit_push_bit_iff bit_drop_bit_eq)
      have "\<not> bit v (32 - k + n)" if "\<not> n < k" using that \<open>k < 32\<close> bit_u32[of v "32 - k + n"] by auto
      then show "bit (push_bit k v OR drop_bit (32 - k) v) n = bit (word_rotl k v) n"
        unfolding l r by (cases "n < k") (simp_all add: add.commute)
    qed
    from this[OF z n] False m show ?thesis by (simp add: dolrecomp_rotl32_def Let_def)
  qed
qed

lemma exec_rotate:
  assumes "registers_ok i" "length (gpr cpu) = 32" "mb_f i < 32" "me_f i < 32" "sh_f i < 32"
    and "op_f i \<in> {PPC_OP_RLWINM, PPC_OP_RLWNM, PPC_OP_RLWIMI}"
  shows "exec m (the (emit_rotate i)) env cpu = map_option Falls (isa_logical i cpu)"
proof -
  have "(ucast (sh_f i) :: u32) AND 31 = ucast (sh_f i)"
  proof -
    have "(ucast (sh_f i) :: u32) AND 31 = take_bit 5 (ucast (sh_f i))" by (simp add: take_bit_eq_mask mask_eq_exp_minus_1)
    moreover have "unat (take_bit 5 (ucast (sh_f i) :: u32)) = unat (sh_f i)"
      using register_index[OF assms(5)] by (simp add: take_bit_eq_mod unat_mod)
    ultimately show ?thesis by (metis widen_index(3) word_unat_eq_iff)
  qed
  note r = registers_ok[OF assms(1)] assms(2-5) this
  note [simp] = emit_rotate_def isa_logical_def isa_logical_value_def isa_shift_value_def Let_def reg_def
    put_reg_def run ppc_mask32_bits dolrecomp_rotl32
  consider "op_f i = PPC_OP_RLWINM" | "op_f i = PPC_OP_RLWNM" | "op_f i = PPC_OP_RLWIMI" using assms(6) by auto
  then show ?thesis by cases (use r in \<open>simp_all add: or.commute\<close>)
qed

end
