(* ===== verification/EmitMemory.thy ===== *)
theory EmitMemory
  imports EmitLogic
begin

text \<open>
  The code emitted for loads and stores, the multiple and string instructions and \<open>dcbz\<close>: one
  lemma for the emitted loads and stores by operand form, and an induction for each emitted loop.
\<close>

section \<open>Effective addresses\<close>

lemma eval_dform_ea:
  assumes "rA_f i < 32"
  shows "eval m env (emit_dform_ea (rA_f i) (simm_f i) u) cpu = Some (VU32 (effective_address i False u cpu), cpu)"
  using register_index[OF assms]
  by (simp add: emit_dform_ea_def effective_address_def base_or_zero_def reg_def run simm_word)

lemma eval_xform_ea:
  assumes "rA_f i < 32" "rB_f i < 32"
  shows "eval m env (emit_xform_ea (rA_f i) (rB_f i) u) cpu = Some (VU32 (effective_address i True u cpu), cpu)"
  using register_index[OF assms(1)] register_index[OF assms(2)]
  by (simp add: emit_xform_ea_def effective_address_def base_or_zero_def reg_def run)

section \<open>Loads and stores\<close>

definition reads :: "'e machine \<Rightarrow> cexpr \<Rightarrow> nat \<Rightarrow> bool \<Rightarrow> bool \<Rightarrow> bool" where
  "reads m e w a r \<longleftrightarrow> (\<forall>env ea cpu. env ''ea'' = Some (VU32 ea) \<longrightarrow>
     map_option (apfst to_u32) (eval m env e cpu) = Some (read_memory (host_of m) w a r ea cpu))"

lemma read_expressions:
  "reads m (Call c_mem_read32 [ea_local]) 4 False False"
  "reads m (Call c_mem_read16 [ea_local]) 2 False False"
  "reads m (Call c_mem_read8 [ea_local]) 1 False False"
  "reads m (Cast U32 (Cast S32 (Cast S16 (Call c_mem_read16 [ea_local])))) 2 True False"
  "reads m (Call c_bswap32 [Call c_mem_read32 [ea_local]]) 4 False True"
  "reads m (Call c_bswap16 [Call c_mem_read16 [ea_local]]) 2 False True"
  by (auto simp: reads_def read_memory_def run apfst_def map_prod_def split: prod.splits)

lemma exec_assign_read:
  assumes "reads m e w a r" and "env ''ea'' = Some (VU32 ea)" and "d < 32"
  shows "exec m (set_gpr d e # rest) env cpu = (case read_memory (host_of m) w a r ea cpu of
    (v, cpu) \<Rightarrow> exec m rest env (put_reg d v cpu))"
proof -
  have "map_option (apfst to_u32) (eval m env e cpu) = Some (read_memory (host_of m) w a r ea cpu)"
    using assms(1,2) by (simp add: reads_def)
  then obtain v c where "eval m env e cpu = Some (v, c)" "read_memory (host_of m) w a r ea cpu = (to_u32 v, c)"
    by auto
  with register_index[OF assms(3)] show ?thesis by (simp add: run put_reg_def)
qed

lemma exec_put_ea:
  "env ''ea'' = Some (VU32 ea) \<Longrightarrow> a < 32 \<Longrightarrow>
   exec m (set_gpr a ea_local # rest) env cpu = exec m rest env (put_reg a ea cpu)"
  using register_index[of a] by (simp add: run put_reg_def)

lemma exec_load:
  assumes "registers_ok i" and "reads m e w a r"
  shows "exec m (emit_load i e u) env cpu = Some (Falls (let ea = effective_address i False u cpu
      in case read_memory (host_of m) w a r ea cpu of
         (v, cpu) \<Rightarrow> (if u then put_reg (rA_f i) ea else id) (put_reg (rD_f i) v cpu)))"
    and "exec m (emit_loadx i e u) env cpu = Some (Falls (let ea = effective_address i True u cpu
      in case read_memory (host_of m) w a r ea cpu of
         (v, cpu) \<Rightarrow> (if u then put_reg (rA_f i) ea else id) (put_reg (rD_f i) v cpu)))"
  using registers_ok[OF assms(1)]
  by (auto simp: emit_load_def emit_loadx_def eval_dform_ea eval_xform_ea exec_assign_read[OF assms(2)] exec_put_ea
      run Let_def split: prod.splits simp del: eval.simps(12) exec_SetElem)

definition writes :: "'e machine \<Rightarrow> callee \<Rightarrow> ctype \<Rightarrow> nat \<Rightarrow> bool" where
  "writes m f t w \<longleftrightarrow> (\<forall>ea v cpu. invoke m f [VU32 ea, cast t (VU32 v)] cpu =
     Some (no_value, write_memory (host_of m) w False ea v cpu))"

lemma write_functions:
  "writes m c_mem_write32 U32 4" "writes m c_mem_write16 U16 2" "writes m c_mem_write8 U8 1"
  by (simp_all add: writes_def write_memory_def run)

lemma exec_store:
  assumes "registers_ok i" and "writes m f t w"
  shows "exec m (emit_store i f t u) env cpu = Some (Falls (let ea = effective_address i False u cpu;
        cpu = write_memory (host_of m) w False ea (reg cpu (rS_f i)) cpu
      in (if u then put_reg (rA_f i) ea else id) cpu))"
    and "exec m (emit_storex i f t u) env cpu = Some (Falls (let ea = effective_address i True u cpu;
        cpu = write_memory (host_of m) w False ea (reg cpu (rS_f i)) cpu
      in (if u then put_reg (rA_f i) ea else id) cpu))"
  using registers_ok[OF assms(1)] assms(2)
  by (auto simp: emit_store_def emit_storex_def eval_dform_ea eval_xform_ea writes_def run put_reg_def reg_def Let_def
      simp del: calls_run)

lemma exec_memory:
  assumes "registers_ok i" "isa_memory (host_of m) i cpu \<noteq> None"
  shows "exec m (the (emit_memory i)) env cpu = map_option Falls (isa_memory (host_of m) i cpu)"
proof -
  note r = registers_ok[OF assms(1)]
  note [simp] = emit_memory_def isa_memory_def load_form_def store_form_def Let_def
    exec_load[OF assms(1) read_expressions(1)] exec_load[OF assms(1) read_expressions(2)]
    exec_load[OF assms(1) read_expressions(3)] exec_load[OF assms(1) read_expressions(4)]
    exec_load[OF assms(1) read_expressions(5)] exec_load[OF assms(1) read_expressions(6)]
    exec_store[OF assms(1) write_functions(1)] exec_store[OF assms(1) write_functions(2)]
    exec_store[OF assms(1) write_functions(3)]
  have "op_f i \<in> {PPC_OP_LWZ, PPC_OP_LWZU, PPC_OP_LBZ, PPC_OP_LBZU, PPC_OP_LHZ, PPC_OP_LHZU, PPC_OP_LHA, PPC_OP_LHAU,
     PPC_OP_STW, PPC_OP_STWU, PPC_OP_STB, PPC_OP_STBU, PPC_OP_STH, PPC_OP_STHU} \<union> {PPC_OP_LWZX, PPC_OP_LWZUX, PPC_OP_LBZX, PPC_OP_LBZUX, PPC_OP_LHZX, PPC_OP_LHZUX,
     PPC_OP_LHAX, PPC_OP_LHAUX, PPC_OP_LWBRX, PPC_OP_LHBRX, PPC_OP_STWX, PPC_OP_STWUX, PPC_OP_STBX, PPC_OP_STBUX,
     PPC_OP_STHX, PPC_OP_STHUX, PPC_OP_STWBRX, PPC_OP_STHBRX}"
    using assms(2) by (auto split: if_splits)
  then show ?thesis
    using r by (auto simp: eval_xform_ea write_memory_def reg_def run split: prod.splits)
qed

section \<open>Loops\<close>

text \<open>
  A counted loop: \<open>E k\<close> describes the locals before round \<open>k\<close>, \<open>g k\<close> is what the round does to
  them and \<open>f k\<close> what it does to the CPU.
\<close>

lemma exec_counted:
  assumes "lo \<le> hi" and "E lo env"
    and condition: "\<And>k env cpu. k \<le> hi \<Longrightarrow> E k env \<Longrightarrow> \<exists>v. eval m env c cpu = Some (v, cpu) \<and> (truth v \<longleftrightarrow> k < hi)"
    and kept: "\<And>k env. k < hi \<Longrightarrow> E k env \<Longrightarrow> E (Suc k) (g k env)"
    and round: "\<And>k env cpu R. k < hi \<Longrightarrow> E k env \<Longrightarrow> exec m (body @ R) env cpu = exec m R (g k env) (f k cpu)"
  shows "\<exists>env'. E hi env' \<and> exec m (While c body # rest) env cpu = exec m rest env' (fold f [lo..<hi] cpu)"
  using assms(1,2)
proof (induction "hi - lo" arbitrary: lo env cpu)
  case 0
  with condition[of lo env cpu] show ?case by (auto simp: exec_While)
next
  case (Suc d)
  from Suc.hyps(2) have lo: "lo < hi" by simp
  obtain v where v: "eval m env c cpu = Some (v, cpu)" "truth v"
    using condition[OF Suc.prems] lo by blast
  have "\<exists>env''. E hi env'' \<and> exec m (While c body # rest) (g lo env) (f lo cpu)
      = exec m rest env'' (fold f [Suc lo..<hi] (f lo cpu))"
    using Suc.hyps lo kept[OF lo Suc.prems(2)] by (intro Suc.hyps(1)) auto
  with v round[OF lo Suc.prems(2)] lo show ?case by (subst exec_While) (auto simp: upt_conv_Cons)
qed

lemma in_index: "k < 32 \<Longrightarrow> unat (of_nat k :: u32) = k" for k
  by (simp add: unat_of_nat)

lemma in_range: "k \<le> 32 \<Longrightarrow> (of_nat k :: u32) < 32 \<longleftrightarrow> k < 32" for k
  by (simp add: word_less_nat_alt unat_of_nat)

text \<open>The state of the locals in the loop of \<open>lmw\<close> and \<open>stmw\<close>.\<close>

definition walks :: "nat \<Rightarrow> u32 \<Rightarrow> nat \<Rightarrow> locals \<Rightarrow> bool" where
  "walks d ea k env \<longleftrightarrow> d \<le> k \<and> k \<le> 32 \<and> env ''r'' = Some (VU32 (of_nat k)) \<and>
     env ''ea'' = Some (VU32 (ea + of_nat (4 * (k - d))))"

lemma exec_multiple:
  fixes r :: u8
  assumes "rA_f i < 32" "r < 32"
    and "\<And>k env cpu R. walks (unat r) (effective_address i False False cpu0) k env \<Longrightarrow> k < 32 \<Longrightarrow>
      exec m (s # R) env cpu = exec m R env (f (effective_address i False False cpu0 + of_nat (4 * (k - unat r))) k cpu)"
  shows "exec m (Decl U32 ''ea'' (emit_dform_ea (rA_f i) (simm_f i) False) #
      [Decl U32 ''r'' (num (ucast r)), While (Bin Lt (Local ''r'') (num 32))
        [s, SetLocal ''r'' (Bin Add (Local ''r'') (num 1)), SetLocal ''ea'' (Bin Add ea_local (num 4))]]) env cpu0
    = Some (Falls (fold (\<lambda>k. f (effective_address i False False cpu0 + of_nat (4 * (k - unat r))) k) [unat r..<32] cpu0))"
proof -
  let ?ea = "effective_address i False False cpu0" and ?d = "unat r"
  let ?g = "\<lambda>k env. env(''r'' \<mapsto> VU32 (of_nat (Suc k)), ''ea'' \<mapsto> VU32 (?ea + of_nat (4 * (Suc k - ?d))))"
  have d: "?d \<le> 32" using register_index[OF assms(2)] by simp
  have "\<exists>env'. walks ?d ?ea 32 env' \<and> exec m (While (Bin Lt (Local ''r'') (num 32))
      ([s] @ [SetLocal ''r'' (Bin Add (Local ''r'') (num 1)), SetLocal ''ea'' (Bin Add ea_local (num 4))]) # [])
      (env(''ea'' \<mapsto> VU32 ?ea, ''r'' \<mapsto> VU32 (ucast r))) cpu0
    = exec m [] env' (fold (\<lambda>k. f (?ea + of_nat (4 * (k - unat r))) k) [?d..<32] cpu0)"
  proof (rule exec_counted[where E = "walks ?d ?ea" and g = ?g])
    show "walks ?d ?ea ?d (env(''ea'' \<mapsto> VU32 ?ea, ''r'' \<mapsto> VU32 (ucast r)))"
      using d by (simp add: walks_def)
    show "exec m (([s] @ [SetLocal ''r'' (Bin Add (Local ''r'') (num 1)), SetLocal ''ea'' (Bin Add ea_local (num 4))]) @ R)
        env cpu = exec m R (?g k env) (f (?ea + of_nat (4 * (k - unat r))) k cpu)"
      if "k < 32" "walks ?d ?ea k env" for k env cpu R
      using that by (simp add: assms(3)[OF that(2,1)] del: of_nat_mult of_nat_Suc)
        (simp add: run walks_def Suc_diff_le ac_simps)
  qed (auto simp: run in_range walks_def d)
  then show ?thesis using assms by (auto simp: eval_dform_ea run)
qed

lemma exec_load_multiple:
  assumes "rA_f i < 32" "rD_f i < 32" "op_f i = PPC_OP_LMW"
  shows "exec m (the (emit_reserve_multiple i)) env cpu = map_option Falls (isa_block (host_of m) i cpu)"
proof -
  note walk = exec_multiple[OF assms(1,2), where f = "\<lambda>ea k cpu. case mem_read32 (host_of m) cpu ea of
     (v, cpu) \<Rightarrow> cpu\<lparr>gpr := (gpr cpu)[k := v]\<rparr>" and s = "SetElem A_gpr (Local ''r'') (Call c_mem_read32 [ea_local])"]
  from assms(3) show ?thesis
    unfolding emit_reserve_multiple_def isa_block_def Let_def
    by (simp add: load_multiple_def del: exec_Decl of_nat_mult)
      (rule walk, auto simp: run walks_def in_index split: prod.splits)
qed

lemma exec_store_multiple:
  assumes "rA_f i < 32" "rS_f i < 32" "op_f i = PPC_OP_STMW"
  shows "exec m (the (emit_reserve_multiple i)) env cpu = map_option Falls (isa_block (host_of m) i cpu)"
proof -
  note walk = exec_multiple[OF assms(1,2), where f = "\<lambda>ea k cpu. mem_write32 (host_of m) cpu ea (gpr cpu ! k)"
      and s = "Do (Call c_mem_write32 [ea_local, Elem A_gpr (Local ''r'')])"]
  from assms(3) show ?thesis
    unfolding emit_reserve_multiple_def isa_block_def Let_def
    by (simp add: store_multiple_def del: exec_Decl of_nat_mult)
      (rule walk, auto simp: run walks_def in_index)
qed


lemma exec_zero_block:
  assumes "rA_f i < 32" "rB_f i < 32" "op_f i = PPC_OP_DCBZ"
  shows "exec m (emit_dcbz i) env cpu = map_option Falls (isa_block (host_of m) i cpu)"
proof -
  define ea where "ea = effective_address i True False cpu AND NOT 31"
  define E where "E k env \<longleftrightarrow> env ''i'' = Some (VU32 (of_nat (4 * k))) \<and> env ''ea'' = Some (VU32 ea)"
    for k and env :: locals
  have "\<exists>env'. E 8 env' \<and> exec m (While (Bin Lt (Local ''i'') (num 32))
      ([Do (Call c_mem_write32 [Bin Add ea_local (Local ''i''), num 0])] @
       [SetLocal ''i'' (Bin Add (Local ''i'') (num 4))]) # [])
      (env(''ea'' \<mapsto> VU32 ea, ''i'' \<mapsto> VU32 0)) cpu
    = exec m [] env' (fold (\<lambda>i cpu. mem_write32 (host_of m) cpu (ea + of_nat (4 * i)) 0) [0..<8] cpu)"
  proof (rule exec_counted[where E = E and g = "\<lambda>k env. env(''i'' \<mapsto> VU32 (of_nat (4 * Suc k)))"])
    show "\<exists>v. eval m env (Bin Lt (Local ''i'') (num 32)) cpu = Some (v, cpu) \<and> (truth v \<longleftrightarrow> k < 8)"
      if "k \<le> 8" "E k env" for k env and cpu :: "'a CPUState"
      using that by (auto simp: E_def run word_less_nat_alt unat_of_nat unat_word_ariths)
  qed (simp_all add: E_def run ac_simps)
  moreover have "exec m (emit_dcbz i) env cpu = exec m (While (Bin Lt (Local ''i'') (num 32))
      ([Do (Call c_mem_write32 [Bin Add ea_local (Local ''i''), num 0])] @
       [SetLocal ''i'' (Bin Add (Local ''i'') (num 4))]) # [])
      (env(''ea'' \<mapsto> VU32 ea, ''i'' \<mapsto> VU32 0)) cpu"
    using assms by (simp add: emit_dcbz_def eval_xform_ea run ea_def)
  ultimately show ?thesis
    using assms(3) by (auto simp: isa_block_def zero_block_def ea_def run)
qed

text \<open>Register and byte lane of byte \<open>k\<close> of a string.\<close>

lemma low_bits: "unat (w AND 31 :: u32) = unat w mod 32" "unat (w AND 3 :: u32) = unat w mod 4"
proof -
  have "(31 :: u32) = mask 5" "(3 :: u32) = mask 2" by (simp_all add: mask_eq_decr_exp)
  then have "w AND 31 = take_bit 5 w" "w AND 3 = take_bit 2 w" by (simp_all only: take_bit_eq_mask)
  then show "unat (w AND 31) = unat w mod 32" "unat (w AND 3) = unat w mod 4"
    by (simp_all only: unsigned_take_bit_eq) (simp_all add: take_bit_eq_mod)
qed

lemma string_register: "unat ((ucast d + of_nat k div 4) AND 31 :: u32) = (unat d + k div 4) mod 32"
  if "d < 32" "k < 256" for d :: u8
  using that by (simp add: low_bits unat_word_ariths unat_of_nat unat_div word_less_nat_alt)

lemma string_lane:
  assumes "k < 256"
  shows "of_nat k AND 3 = (0 :: u32) \<longleftrightarrow> k mod 4 = 0"
    and "ucast (24 - 8 * (of_nat k AND 3) :: u32) < (32 :: u64)"
    and "unat (24 - 8 * (of_nat k AND 3) :: u32) = 24 - 8 * (k mod 4)"
proof -
  have k: "unat (of_nat k AND 3 :: u32) = k mod 4" using assms by (simp add: low_bits unat_of_nat)
  then show "of_nat k AND 3 = (0 :: u32) \<longleftrightarrow> k mod 4 = 0" by (simp add: unat_eq_0[symmetric])
  have "of_nat k AND 3 = (of_nat (k mod 4) :: u32)" using k by (metis of_nat_unat ucast_id)
  moreover have "k mod 4 \<in> {0, 1, 2, 3}" by auto
  ultimately show "ucast (24 - 8 * (of_nat k AND 3) :: u32) < (32 :: u64)"
      "unat (24 - 8 * (of_nat k AND 3) :: u32) = 24 - 8 * (k mod 4)"
    by (auto simp: word_less_nat_alt)
qed

text \<open>The byte loop of \<open>lswi\<close> and \<open>lswx\<close>.\<close>

abbreviation string_body :: "u8 \<Rightarrow> cstmt list" where
  "string_body d \<equiv>
     [Decl U32 ''reg'' (Bin BitAnd (Bin Add (unum (ucast d)) (Bin Div (Local ''n'') (unum 4))) (unum 31)),
      only_if (Bin Eq (Bin BitAnd (Local ''n'') (unum 3)) (num 0)) [SetElem A_gpr (Local ''reg'') (num 0)],
      SetElem A_gpr (Local ''reg'') (Bin BitOr (Elem A_gpr (Local ''reg''))
        (Bin Shl (Cast U32 (Call c_mem_read8 [Bin Add ea_local (Local ''n'')]))
          (Bin Sub (unum 24) (Bin Mul (unum 8) (Bin BitAnd (Local ''n'') (unum 3))))))]"

definition string_step :: "'e PPCHost \<Rightarrow> nat \<Rightarrow> u32 \<Rightarrow> nat \<Rightarrow> 'e CPUState \<Rightarrow> 'e CPUState" where
  "string_step h d ea k cpu =
     (let r = (d + k div 4) mod 32;
          cpu = (if k mod 4 = 0 then cpu\<lparr>gpr := (gpr cpu)[r := 0]\<rparr> else cpu);
          old = gpr cpu ! r
      in case mem_read8 h cpu (ea + of_nat k) of
           (b, cpu) \<Rightarrow> cpu\<lparr>gpr := (gpr cpu)[r := old OR push_bit (24 - 8 * (k mod 4)) (ucast b)]\<rparr>)"

lemma load_string_step: "load_string h d ea n = fold (string_step h d ea) [0..<n]"
  by (rule ext) (simp add: load_string_def string_step_def[abs_def])

lemma exec_string_loop:
  assumes "d < 32" and "unat n < 256" and "env ''ea'' = Some (VU32 ea)" "env ''count'' = Some (VU32 n)"
  shows "exec m (Decl U32 ''n'' (num 0) # While (Bin Lt (Local ''n'') (Local ''count''))
      (string_body d @ [SetLocal ''n'' (Bin Add (Local ''n'') (num 1))]) # []) env cpu
    = Some (Falls (load_string (host_of m) (unat d) ea (unat n) cpu))"
proof -
  define E where "E k env \<longleftrightarrow> env ''n'' = Some (VU32 (of_nat k)) \<and> env ''ea'' = Some (VU32 ea) \<and>
     env ''count'' = Some (VU32 n)" for k and env :: locals
  let ?loop = "While (Bin Lt (Local ''n'') (Local ''count''))
    (string_body d @ [SetLocal ''n'' (Bin Add (Local ''n'') (num 1))])"
  let ?f = "string_step (host_of m) (unat d) ea"
  have "\<exists>env'. E (unat n) env' \<and> exec m (?loop # []) (env(''n'' \<mapsto> VU32 0)) cpu = exec m [] env' (fold ?f [0..<unat n] cpu)"
  proof (rule exec_counted[where E = E and g = "\<lambda>k env. env(''reg'' \<mapsto> VU32 (of_nat ((unat d + k div 4) mod 32)),
      ''n'' \<mapsto> VU32 (of_nat (Suc k)))"])
    show "\<exists>v. eval m env (Bin Lt (Local ''n'') (Local ''count'')) cpu = Some (v, cpu) \<and> (truth v \<longleftrightarrow> k < unat n)"
      if "k \<le> unat n" "E k env" for k env and cpu :: "'a CPUState"
      using that assms(2) by (auto simp: E_def run word_less_nat_alt unat_of_nat)
    show "exec m ((string_body d @ [SetLocal ''n'' (Bin Add (Local ''n'') (num 1))]) @ R) env cpu =
        exec m R (env(''reg'' \<mapsto> VU32 (of_nat ((unat d + k div 4) mod 32)), ''n'' \<mapsto> VU32 (of_nat (Suc k)))) (?f k cpu)"
      if "k < unat n" "E k env" for k env R and cpu :: "'a CPUState"
    proof -
      from that(1) assms(2) have k: "k < 256" by simp
      have r: "(ucast d + of_nat k div 4) AND 31 = (of_nat ((unat d + k div 4) mod 32) :: u32)"
        using string_register[OF assms(1) k] by (metis of_nat_unat ucast_id)
      have r': "unat (of_nat ((unat d + k div 4) mod 32) :: u32) = (unat d + k div 4) mod 32" by (simp add: unat_of_nat)
      show ?thesis
        using that(2)
        by (simp add: E_def run r r' string_lane[OF k] string_step_def Let_def add.commute[of _ 1] split: prod.splits)
    qed
  qed (simp_all add: E_def assms)
  then show ?thesis by (auto simp: load_string_step exec_Decl exec_Nil cast_run)
qed

lemma exec_load_string:
  assumes "rA_f i < 32" "rD_f i < 32" "op_f i = PPC_OP_LSWI"
  shows "exec m (the (emit_string i)) env cpu = map_option Falls (isa_block (host_of m) i cpu)"
proof -
  define n :: u32 where "n = (if nb_f i \<noteq> 0 then ucast (nb_f i) else 32)"
  have n: "unat n < 256" using unsigned_less[of "nb_f i"] by (auto simp: n_def)
  have ea: "eval m env (if rA_f i \<noteq> 0 then gpr_at (rA_f i) else unum 0) cpu = Some (VU32 (base_or_zero i cpu), cpu)"
    using register_index[OF assms(1)] by (simp add: base_or_zero_def reg_def run)
  have two: "exec m (Decl U32 ''ea'' (if rA_f i \<noteq> 0 then gpr_at (rA_f i) else unum 0) #
      Decl U32 ''count'' (unum n) # rest) env cpu =
    exec m rest (env(''ea'' \<mapsto> VU32 (base_or_zero i cpu), ''count'' \<mapsto> VU32 n)) cpu" for rest
    unfolding exec_Decl ea by (simp add: cast_run)
  have code: "the (emit_string i) = Decl U32 ''ea'' (if rA_f i \<noteq> 0 then gpr_at (rA_f i) else unum 0) #
      Decl U32 ''count'' (unum n) # Decl U32 ''n'' (num 0) # While (Bin Lt (Local ''n'') (Local ''count''))
        (string_body (rD_f i) @ [SetLocal ''n'' (Bin Add (Local ''n'') (num 1))]) # []"
    using assms(3) by (simp add: emit_string_def n_def Let_def)
  have "unat n = (if nb_f i = 0 then 32 else unat (nb_f i))" by (simp add: n_def)
  then show ?thesis unfolding code two using assms(3)
    by (subst exec_string_loop[OF assms(2) n]) (simp_all add: isa_block_def)
qed

end
