(* ===== verification/EmitFlow.thy ===== *)
theory EmitFlow
  imports EmitMemory
begin

text \<open>
  The code emitted for branches and for the condition register.  A branch leaves the emitted
  function, jumps to a label of it or falls through; \<open>arrive\<close> reads off where the guest continues.
\<close>

section \<open>Branches\<close>

text \<open>Every label of an emitted function stores its address in the program counter first.\<close>

definition arrive :: "u32 \<Rightarrow> 'e exit \<Rightarrow> 'e CPUState" where
  "arrive nxt e = (case e of
     Falls cpu \<Rightarrow> cpu\<lparr>cpu_pc := nxt\<rparr>
   | Jumps target cpu \<Rightarrow> cpu\<lparr>cpu_pc := target\<rparr>
   | Returns cpu \<Rightarrow> cpu)"

lemma single_bit:
  assumes "\<And>k. bit w k \<longleftrightarrow> k = n"
  shows "x AND w \<noteq> 0 \<longleftrightarrow> bit x n"
  by (metis assms bit_0_eq bit_and_iff bit_eqI bot_apply bot_bool_def)

lemma bo_masks:
  "bo AND 4 \<noteq> 0 \<longleftrightarrow> bit bo 2" "bo AND 0x10 \<noteq> 0 \<longleftrightarrow> bit bo 4"
  "ucast (drop_bit (Suc 0) bo AND 1) = (if bit bo 1 then 1 else 0 :: u32)"
  "drop_bit 3 bo AND 1 \<noteq> 0 \<longleftrightarrow> bit bo 3" for bo :: u8
proof -
  have m: "(4 :: u8) = push_bit 2 1" "(0x10 :: u8) = push_bit 4 1" by simp_all
  show "bo AND 4 \<noteq> 0 \<longleftrightarrow> bit bo 2" "bo AND 0x10 \<noteq> 0 \<longleftrightarrow> bit bo 4"
    unfolding m by (rule single_bit; auto simp only: bit_push_bit_iff bit_1_iff possible_bit_def; simp)+
  show "ucast (drop_bit (Suc 0) bo AND 1) = (if bit bo 1 then 1 else 0 :: u32)"
    by (simp add: and_one_eq bit_iff_odd_drop_bit odd_iff_mod_2_eq_one)
  show "drop_bit 3 bo AND 1 \<noteq> 0 \<longleftrightarrow> bit bo 3"
    by (simp add: and_one_eq bit_iff_odd_drop_bit odd_iff_mod_2_eq_one)
qed

lemma bit_from_left: "bit (drop_bit n 0x80000000 :: u32) k \<longleftrightarrow> k = 31 - n" if "n < 32"
proof -
  have m: "(0x80000000 :: u32) = push_bit 31 1" by simp
  show ?thesis unfolding m using that by (auto simp only: bit_drop_bit_eq bit_push_bit_iff bit_1_iff o_def possible_bit_def; simp)
qed

lemma cr_mask: "cr AND drop_bit n 0x80000000 \<noteq> 0 \<longleftrightarrow> bit cr (31 - n)" if "n < 32" for cr :: u32
  by (rule single_bit) (rule bit_from_left[OF that])

lemma converted_bool [run]:
  "converted (VBool p) (VBool q) = (VS32 (if p then 1 else 0), VS32 (if q then 1 else 0))"
  by (simp add: converted_def cast_def)

lemma exec_branch_condition:
  assumes "bi_f i < 32"
  obtains env' where
    "\<And>rest. exec m (emit_branch_condition (bo_f i) (bi_f i) @ rest) env cpu = exec m rest env' (counted i cpu)"
    "env' ''ctr_ok'' = Some (VBool (bo_bit i 2 \<or> (cpu_ctr (counted i cpu) \<noteq> 0) \<noteq> bo_bit i 3))"
    "env' ''cr_ok'' = Some (VBool (bo_bit i 0 \<or> cr_bit cpu (bi_f i) = bo_bit i 1))"
proof -
  let ?env = "env(''ctr_ok'' \<mapsto> VBool (bo_bit i 2 \<or> (cpu_ctr (counted i cpu) \<noteq> 0) \<noteq> bo_bit i 3),
    ''cr_ok'' \<mapsto> VBool (bo_bit i 0 \<or> cr_bit cpu (bi_f i) = bo_bit i 1))"
  have "exec m (emit_branch_condition (bo_f i) (bi_f i) @ rest) env cpu = exec m rest ?env (counted i cpu)" for rest
    using cr_mask[OF register_index[OF assms], of "cpu_cr cpu"]
    by (auto simp: emit_branch_condition_def run bo_masks bo_bit_def counted_def cr_bit_def Let_def)
  then show thesis by (intro that[of ?env]) simp_all
qed

text \<open>A branch to a label of the function that is not behind it is a jump, any other a return to the caller.\<close>

lemma exec_direct:
  "map_option (arrive nxt) (exec m (emit_direct_branch i local_target) env cpu) = Some (go_to i (branch_target i) cpu)"
  by (auto simp: emit_direct_branch_def go_to_def arrive_def run)

lemma exec_dynamic:
  assumes "eval m env e (if lk_f i then cpu\<lparr>cpu_lr := address_of i + 4\<rparr> else cpu)
    = Some (VU32 target, if lk_f i then cpu\<lparr>cpu_lr := address_of i + 4\<rparr> else cpu)"
  shows "map_option (arrive nxt) (exec m (emit_dynamic_branch i e) env cpu) = Some (go_to i target cpu)"
  using assms by (auto simp: emit_dynamic_branch_def go_to_def arrive_def run)

lemma exec_taken:
  assumes "bi_f i < 32"
    and "\<And>env'. map_option (arrive nxt) (exec m code env' (counted i cpu)) = Some (go_to i target (counted i cpu))"
  shows "map_option (arrive nxt) (exec m (emit_branch_condition (bo_f i) (bi_f i) @
      [only_if (Conj (Local ''ctr_ok'') (Local ''cr_ok'')) code]) env cpu)
    = Some (if branch_taken i cpu then go_to i target (counted i cpu) else (counted i cpu)\<lparr>cpu_pc := nxt\<rparr>)"
proof -
  obtain env' where env':
    "\<And>rest. exec m (emit_branch_condition (bo_f i) (bi_f i) @ rest) env cpu = exec m rest env' (counted i cpu)"
    "env' ''ctr_ok'' = Some (VBool (bo_bit i 2 \<or> (cpu_ctr (counted i cpu) \<noteq> 0) \<noteq> bo_bit i 3))"
    "env' ''cr_ok'' = Some (VBool (bo_bit i 0 \<or> cr_bit cpu (bi_f i) = bo_bit i 1))"
    using exec_branch_condition[OF assms(1)] by metis
  show ?thesis
    unfolding env'(1) branch_taken_def using assms(2)[of env']
    by (simp add: exec_If env'(2,3) truth_run exec_Nil arrive_def)
qed

lemma counted_fields [simp]:
  "cpu_lr (counted i cpu) = cpu_lr cpu" "bo_bit i 2 \<Longrightarrow> cpu_ctr (counted i cpu) = cpu_ctr cpu"
  by (simp_all add: counted_def)

text \<open>
  The code emitted for a branch goes where the architecture says, whatever range of addresses the
  function has.  Excluded are the invalid form of \<open>bcctr\<close> that counts and \<open>bclr\<close> that sets the
  link register.
\<close>

lemma exec_branch:
  assumes "op_f i \<in> {PPC_OP_B, PPC_OP_BC, PPC_OP_BCLR, PPC_OP_BCCTR}" and "bi_f i < 32"
    and "op_f i = PPC_OP_BCCTR \<Longrightarrow> bo_bit i 2" and "op_f i = PPC_OP_BCLR \<Longrightarrow> \<not> lk_f i"
  shows "map_option (arrive (address_of i + 4)) (exec m (the (emit_branch_instruction i s e)) env cpu)
    = isa_branch i cpu"
proof -
  note [simp] = emit_branch_instruction_def isa_branch_def
  from assms(1) consider "op_f i = PPC_OP_B" | "op_f i = PPC_OP_BC" | "op_f i = PPC_OP_BCLR" | "op_f i = PPC_OP_BCCTR"
    by auto
  then show ?thesis
  proof cases
    case 1 then show ?thesis by (simp add: exec_direct)
  next
    case 2 then show ?thesis by (simp add: exec_taken[OF assms(2) exec_direct] Let_def)
  next
    case 3
    then have go: "map_option (arrive nxt) (exec m (emit_dynamic_branch i (Bin BitAnd (Field F_lr) (Com (unum 3)))) env'
        (counted i cpu)) = Some (go_to i (cpu_lr cpu AND NOT 3) (counted i cpu))" for nxt env'
      using assms(4) by (intro exec_dynamic) (simp add: run)
    from 3 show ?thesis by (simp add: exec_taken[OF assms(2) go] Let_def)
  next
    case 4
    then have go: "map_option (arrive nxt) (exec m (emit_dynamic_branch i (Bin BitAnd (Field F_ctr) (Com (unum 3)))) env'
        (counted i cpu)) = Some (go_to i (cpu_ctr cpu AND NOT 3) (counted i cpu))" for nxt env'
      using assms(3) by (intro exec_dynamic) (simp add: run)
    from 4 show ?thesis by (simp add: exec_taken[OF assms(2) go] Let_def)
  qed
qed

text \<open>\<open>bclrl\<close>: the link register is written before the target is read from it.\<close>

lemma exec_blrl:
  assumes "op_f i = PPC_OP_BCLR" and "lk_f i" and "bi_f i < 32" and "branch_taken i cpu"
  shows "map_option (arrive (address_of i + 4)) (exec m (the (emit_branch_instruction i s e)) env cpu)
    = Some (go_to i ((address_of i + 4) AND NOT 3) (counted i cpu))"
proof -
  have go: "map_option (arrive nxt) (exec m (emit_dynamic_branch i (Bin BitAnd (Field F_lr) (Com (unum 3)))) env'
      (counted i cpu)) = Some (go_to i ((address_of i + 4) AND NOT 3) (counted i cpu))" for nxt env'
    using assms(2) by (intro exec_dynamic) (simp add: run)
  from assms show ?thesis by (simp add: emit_branch_instruction_def exec_taken[OF assms(3) go])
qed

section \<open>Condition register\<close>

lemma put_single:
  assumes "\<And>k. bit w k \<longleftrightarrow> k = n" "n < 32"
  shows "(cr AND NOT w) OR (if b then w else 0) = put_bit n b (cr :: u32)"
  by (rule bit_word_eqI) (auto simp: bit_put_bit bit_simps assms)

lemma exec_cr_logical:
  assumes "rA_f i < 32" "rB_f i < 32" "rD_f i < 32"
    and "\<And>env cpu a b. env ''a'' = Some (VU32 (if a then 1 else 0)) \<Longrightarrow> env ''b'' = Some (VU32 (if b then 1 else 0)) \<Longrightarrow>
      \<exists>v. eval m env e cpu = Some (VU32 v, cpu) \<and> (bit v 0 \<longleftrightarrow> f a b)"
  shows "exec m (emit_cr_logical i e) env cpu = Some (Falls (cpu\<lparr>cpu_cr :=
    put_bit (31 - unat (rD_f i)) (f (cr_bit cpu (rA_f i)) (cr_bit cpu (rB_f i))) (cpu_cr cpu)\<rparr>))"
proof -
  note r = register_index[OF assms(1)] register_index[OF assms(2)] register_index[OF assms(3)]
  have shift: "unat (31 - ucast r :: u32) = 31 - unat r" "ucast (31 - ucast r :: u32) < (32 :: u64)" if "r < 32" for r :: u8
  proof -
    have "unat r < 32" using that by (simp add: word_less_nat_alt)
    then show "unat (31 - ucast r :: u32) = 31 - unat r" by (simp add: unat_sub_if_size word_le_nat_alt)
    then show "ucast (31 - ucast r :: u32) < (32 :: u64)" by (simp add: word_less_nat_alt)
  qed
  have one: "drop_bit k cr AND 1 = (if bit cr k then 1 else 0)" for k and cr :: u32
    by (simp add: and_one_eq bit_iff_odd_drop_bit odd_iff_mod_2_eq_one)
  define cr where "cr = cpu_cr cpu"
  define wa where "wa = drop_bit (31 - unat (rA_f i)) cr AND 1"
  define wb where "wb = drop_bit (31 - unat (rB_f i)) cr AND 1"
  let ?env = "env(''a'' \<mapsto> VU32 wa, ''b'' \<mapsto> VU32 wb, ''mask'' \<mapsto> VU32 (drop_bit (unat (rD_f i)) 0x80000000))"
  obtain v where v: "eval m ?env e cpu = Some (VU32 v, cpu)"
      "bit v 0 \<longleftrightarrow> f (cr_bit cpu (rA_f i)) (cr_bit cpu (rB_f i))"
    using assms(4)[of ?env "cr_bit cpu (rA_f i)" "cr_bit cpu (rB_f i)" cpu]
    by (auto simp: wa_def wb_def one cr_bit_def cr_def)
  have index: "ucast (rD_f i) < (32 :: u64)" using r(3) by (simp add: word_less_nat_alt)
  have low: "v AND 1 = 0 \<longleftrightarrow> \<not> bit v 0" using one[of 0 v] by simp
  have "exec m (emit_cr_logical i e) env cpu = Some (Falls (cpu\<lparr>cpu_cr :=
      (cr AND NOT (drop_bit (unat (rD_f i)) 0x80000000)) OR (if bit v 0 then drop_bit (unat (rD_f i)) 0x80000000 else 0)\<rparr>))"
    using r index v(1) by (auto simp: emit_cr_logical_def run shift assms(1-3) low wa_def[symmetric] wb_def[symmetric] cr_def[symmetric])
  then show ?thesis using put_single[OF bit_from_left[OF r(3)], of cr "bit v 0"] v(2) by (simp add: cr_def)
qed

definition mtcrf_step :: "u8 \<Rightarrow> nat \<Rightarrow> u32 \<Rightarrow> u32" where
  "mtcrf_step crm crf m = (if crm AND drop_bit crf 0x80 \<noteq> 0
     then m OR push_bit (unat (cr_field_shift (of_nat crf))) 0xF else m)"

lemma bit_mtcrf_step:
  assumes "crf < 8"
  shows "bit (mtcrf_step crm crf m) n \<longleftrightarrow> bit m n \<or> n < 32 \<and> bit crm (n div 4) \<and> 7 - n div 4 = crf"
proof -
  have m: "(0x80 :: u8) = push_bit 7 1" by simp
  have A: "crm AND drop_bit crf 0x80 \<noteq> 0 \<longleftrightarrow> bit crm (7 - crf)"
    unfolding m using assms
    by (intro single_bit) (auto simp only: bit_drop_bit_eq bit_push_bit_iff bit_1_iff o_def possible_bit_def; simp)
  have B: "unat (cr_field_shift (of_nat crf)) = 28 - 4 * crf"
    using field_shift[of "of_nat crf"] assms by (simp add: word_less_nat_alt unat_of_nat)
  have C: "bit (push_bit (28 - 4 * crf) 0xF :: u32) n \<longleftrightarrow> n < 32 \<and> n div 4 = 7 - crf"
  proof (cases "n < 32")
    case True
    then have "28 - 4 * crf \<le> n \<and> n - (28 - 4 * crf) < 4 \<longleftrightarrow> n div 4 = 7 - crf" using assms by linarith
    then show ?thesis using True unfolding bit_push_bit_iff nibble by (simp add: possible_bit_def)
  qed (auto dest: bit_u32)
  have D: "n div 4 = 7 - crf \<longleftrightarrow> 7 - n div 4 = crf" if "n < 32" using assms that by linarith
  show ?thesis
  proof (cases "n < 32 \<and> n div 4 = 7 - crf")
    case True
    with D show ?thesis unfolding mtcrf_step_def A B by (simp only: bit_or_iff C if_distrib[of "\<lambda>w. bit w n"]) simp
  next
    case False
    with D show ?thesis unfolding mtcrf_step_def A B by (simp only: bit_or_iff C if_distrib[of "\<lambda>w. bit w n"]) auto
  qed
qed

lemma bit_mtcrf_mask: "bit (mtcrf_mask crm) n \<longleftrightarrow> n < 32 \<and> bit crm (n div 4)"
proof -
  have "bit (fold (mtcrf_step crm) [0..<j] 0) n \<longleftrightarrow> n < 32 \<and> bit crm (n div 4) \<and> 7 - n div 4 < j" if "j \<le> 8" for j
    using that
  proof (induction j)
    case 0
    show ?case by simp
  next
    case (Suc j)
    then have "bit (fold (mtcrf_step crm) [0..<Suc j] 0) n \<longleftrightarrow>
        (n < 32 \<and> bit crm (n div 4) \<and> 7 - n div 4 < j) \<or> n < 32 \<and> bit crm (n div 4) \<and> 7 - n div 4 = j"
      using bit_mtcrf_step[of j crm "fold (mtcrf_step crm) [0..<j] 0" n] by simp
    then show ?case unfolding less_Suc_eq by blast
  qed
  from this[of 8] show ?thesis unfolding mtcrf_mask_def mtcrf_step_def[abs_def] by auto
qed

lemma bit_replace_fields:
  "bit (replace_fields crm v cr) n \<longleftrightarrow> (if n < 32 \<and> bit crm (n div 4) then bit v n else bit cr n)"
proof -
  have "bit (fold (\<lambda>n. put_bit n (if bit crm (n div 4) then bit v n else bit cr n)) [0..<j] cr) n
    \<longleftrightarrow> (if n < j \<and> bit crm (n div 4) then bit v n else bit cr n)" if "j \<le> 32" for j
    using that by (induction j) (auto simp: bit_put_bit less_Suc_eq)
  from this[of 32] show ?thesis unfolding replace_fields_def by simp
qed

lemma replace_fields_mask: "(cr AND NOT (mtcrf_mask crm)) OR (v AND mtcrf_mask crm) = replace_fields crm v cr"
  by (rule bit_word_eqI) (auto simp: bit_simps bit_mtcrf_mask bit_replace_fields)

lemma cr_nibble:
  assumes "f < 8" "k < 4"
  shows "bit (drop_bit (28 - 4 * unat f) (cpu_cr cpu) AND 0xF) k \<longleftrightarrow> cr_bit cpu (4 * f + (3 - of_nat k))"
proof -
  have "k = 0 \<or> k = 1 \<or> k = 2 \<or> k = 3" using assms(2) by linarith
  then have "unat (4 * f + (3 - of_nat k)) = 4 * unat f + (3 - k)"
    using field_cases[OF assms(1)] by (elim disjE) auto
  moreover have "28 - 4 * unat f + k = 31 - (4 * unat f + (3 - k))"
    using assms by (simp add: word_less_nat_alt)
  ultimately show ?thesis using assms(2) unfolding cr_bit_def bit_and_iff bit_drop_bit_eq nibble o_def by metis
qed

lemma low_bit: "bit (x AND y) 0 \<longleftrightarrow> bit x 0 \<and> bit y 0" "bit (if a then 1 else 0 :: u32) 0 \<longleftrightarrow> a"
  "bit (NOT x) 0 \<longleftrightarrow> \<not> bit x 0" "bit (x OR y) 0 \<longleftrightarrow> bit x 0 \<or> bit y 0" "bit (x XOR y) 0 \<longleftrightarrow> bit x 0 \<noteq> bit y 0"
  for x y :: u32
  by (auto simp: bit_simps)

lemma exec_cr_operation:
  assumes "rA_f i < 32" "rB_f i < 32" "rD_f i < 32" and "cr_operation (op_f i) = Some f"
  shows "exec m (the (emit_condition_register i)) env cpu = Some (Falls (cpu\<lparr>cpu_cr :=
    put_bit (31 - unat (rD_f i)) (f (cr_bit cpu (rA_f i)) (cr_bit cpu (rB_f i))) (cpu_cr cpu)\<rparr>))"
proof -
  note logical = exec_cr_logical[OF assms(1-3)]
  have L0: "exec m (emit_cr_logical i (Bin BitAnd (Local ''a'') (Local ''b''))) env cpu = Some (Falls (cpu\<lparr>cpu_cr :=
      put_bit (31 - unat (rD_f i)) ((\<lambda>a b. a \<and> b) (cr_bit cpu (rA_f i)) (cr_bit cpu (rB_f i))) (cpu_cr cpu)\<rparr>))"
    by (rule logical) (simp add: run low_bit split del: if_split)
  have L1: "exec m (emit_cr_logical i (Bin BitAnd (Local ''a'') (Com (Local ''b'')))) env cpu = Some (Falls (cpu\<lparr>cpu_cr :=
      put_bit (31 - unat (rD_f i)) ((\<lambda>a b. a \<and> \<not> b) (cr_bit cpu (rA_f i)) (cr_bit cpu (rB_f i))) (cpu_cr cpu)\<rparr>))"
    by (rule logical) (simp add: run low_bit split del: if_split)
  have L2: "exec m (emit_cr_logical i (Com (Bin BitXor (Local ''a'') (Local ''b'')))) env cpu = Some (Falls (cpu\<lparr>cpu_cr :=
      put_bit (31 - unat (rD_f i)) ((\<lambda>a b. a = b) (cr_bit cpu (rA_f i)) (cr_bit cpu (rB_f i))) (cpu_cr cpu)\<rparr>))"
    by (rule logical) (simp add: run low_bit split del: if_split)
  have L3: "exec m (emit_cr_logical i (Com (Bin BitAnd (Local ''a'') (Local ''b'')))) env cpu = Some (Falls (cpu\<lparr>cpu_cr :=
      put_bit (31 - unat (rD_f i)) ((\<lambda>a b. \<not> (a \<and> b)) (cr_bit cpu (rA_f i)) (cr_bit cpu (rB_f i))) (cpu_cr cpu)\<rparr>))"
    by (rule logical) (simp add: run low_bit split del: if_split)
  have L4: "exec m (emit_cr_logical i (Com (Bin BitOr (Local ''a'') (Local ''b'')))) env cpu = Some (Falls (cpu\<lparr>cpu_cr :=
      put_bit (31 - unat (rD_f i)) ((\<lambda>a b. \<not> (a \<or> b)) (cr_bit cpu (rA_f i)) (cr_bit cpu (rB_f i))) (cpu_cr cpu)\<rparr>))"
    by (rule logical) (simp add: run low_bit split del: if_split)
  have L5: "exec m (emit_cr_logical i (Bin BitOr (Local ''a'') (Local ''b''))) env cpu = Some (Falls (cpu\<lparr>cpu_cr :=
      put_bit (31 - unat (rD_f i)) ((\<lambda>a b. a \<or> b) (cr_bit cpu (rA_f i)) (cr_bit cpu (rB_f i))) (cpu_cr cpu)\<rparr>))"
    by (rule logical) (simp add: run low_bit split del: if_split)
  have L6: "exec m (emit_cr_logical i (Bin BitOr (Local ''a'') (Com (Local ''b'')))) env cpu = Some (Falls (cpu\<lparr>cpu_cr :=
      put_bit (31 - unat (rD_f i)) ((\<lambda>a b. a \<or> \<not> b) (cr_bit cpu (rA_f i)) (cr_bit cpu (rB_f i))) (cpu_cr cpu)\<rparr>))"
    by (rule logical) (simp add: run low_bit split del: if_split)
  have L7: "exec m (emit_cr_logical i (Bin BitXor (Local ''a'') (Local ''b''))) env cpu = Some (Falls (cpu\<lparr>cpu_cr :=
      put_bit (31 - unat (rD_f i)) ((\<lambda>a b. a \<noteq> b) (cr_bit cpu (rA_f i)) (cr_bit cpu (rB_f i))) (cpu_cr cpu)\<rparr>))"
    by (rule logical) (simp add: run low_bit split del: if_split)
  from assms(4) have "(op_f i, f) \<in> set
     [(PPC_OP_CRAND, \<lambda>a b. a \<and> b), (PPC_OP_CRANDC, \<lambda>a b. a \<and> \<not> b), (PPC_OP_CREQV, \<lambda>a b. a = b),
      (PPC_OP_CRNAND, \<lambda>a b. \<not> (a \<and> b)), (PPC_OP_CRNOR, \<lambda>a b. \<not> (a \<or> b)), (PPC_OP_CROR, \<lambda>a b. a \<or> b),
      (PPC_OP_CRORC, \<lambda>a b. a \<or> \<not> b), (PPC_OP_CRXOR, \<lambda>a b. a \<noteq> b)]"
    unfolding cr_operation_def by (rule map_of_SomeD)
  then show ?thesis
    unfolding list.set insert_iff empty_iff prod.inject emit_condition_register_def Let_def
    by (elim disjE conjE FalseE; simp only: L0 L1 L2 L3 L4 L5 L6 L7 option.sel; simp add: L0 L1 L2 L3 L4 L5 L6 L7)
qed

lemma exec_move_field:
  assumes "crfD_f i < 8" "crfS_f i < 8" "op_f i = PPC_OP_MCRF"
  shows "exec m (the (emit_condition_register i)) env cpu = map_option Falls (isa_condition_register i cpu)"
proof -
  let ?v = "drop_bit (28 - 4 * unat (crfS_f i)) (cpu_cr cpu) AND 0xF"
  have v: "bit ?v k \<Longrightarrow> k < 4" for k unfolding bit_and_iff nibble by simp
  have n: "unat (crfD_f i) < 8" using assms(1) by (simp add: word_less_nat_alt)
  have w: "scast (cr_field_shift (crfS_f i)) < (32 :: u64)"
    "unat (scast (cr_field_shift (crfS_f i)) :: u64) = 28 - 4 * unat (crfS_f i)"
    using field_cases[OF assms(2)] by (auto simp: cr_field_shift_def)
  have "exec m (the (emit_condition_register i)) env cpu =
      Some (Falls (cpu\<lparr>cpu_cr := with_field (28 - 4 * unat (crfD_f i)) ?v (cpu_cr cpu)\<rparr>))"
    using assms(3) w unfolding emit_condition_register_def Let_def
    by (simp add: exec_set_cr_bits[OF _ assms(1)] run del: exec_SetField)
  then show ?thesis
    using assms(3) cr_nibble[OF assms(2), of 0 cpu] cr_nibble[OF assms(2), of 1 cpu] cr_nibble[OF assms(2), of 2 cpu]
      cr_nibble[OF assms(2), of 3 cpu]
    by (simp add: with_field[OF n v] isa_condition_register_def cr_operation_def Let_def)
qed

lemma exec_condition_register:
  assumes "registers_ok i" and "crfD_f i < 8" "crfS_f i < 8" and "isa_condition_register i cpu \<noteq> None"
  shows "exec m (the (emit_condition_register i)) env cpu = map_option Falls (isa_condition_register i cpu)"
proof (cases "cr_operation (op_f i)")
  case (Some f)
  then show ?thesis using registers_ok[OF assms(1)] exec_cr_operation[OF _ _ _ Some, of m env cpu]
    by (simp add: isa_condition_register_def)
next
  case None
  note r = registers_ok[OF assms(1)]
  from None assms(4) consider "op_f i = PPC_OP_MCRF" | "op_f i = PPC_OP_MFCR" | "op_f i = PPC_OP_MTCRF"
    by (auto simp: isa_condition_register_def split: if_splits)
  then show ?thesis
  proof cases
    case 1 then show ?thesis by (rule exec_move_field[OF assms(2,3)])
  next
    case 2 then show ?thesis using None r
      by (simp add: emit_condition_register_def isa_condition_register_def run put_reg_def)
  next
    case 3
    have "replace_fields (crm_f i) v cr = cr" if "mtcrf_mask (crm_f i) = 0" for v cr
      using replace_fields_mask[of cr "crm_f i" v] that by simp
    with 3 show ?thesis using None r
      by (simp add: emit_condition_register_def isa_condition_register_def run reg_def Let_def replace_fields_mask)
  qed
qed

end
