(* ===== verification/EmitFunction.thy ===== *)
theory EmitFunction
  imports Emitter
begin

text \<open>
  One emitted function (src/DolRecomp/src/backend/emitter.c): which instructions start a block, what
  a block charges to the cycle counter, and the function \<open>emit_function\<close> writes: a switch on the
  program counter over one label per instruction, the instructions one after the other, and the
  address behind the last at the end.
\<close>

section \<open>Tables\<close>

definition mfspr_is_modeled :: "u16 \<Rightarrow> bool" where
  "mfspr_is_modeled spr \<longleftrightarrow> spr \<in> set [1, 8, 9, 26, 27, 268, 269, 282, 912, 913, 914, 915, 916, 917, 918, 919, 920]"

definition mtspr_is_modeled :: "u16 \<Rightarrow> bool" where
  "mtspr_is_modeled spr \<longleftrightarrow> spr \<in> set [1, 8, 9, 26, 27, 282, 912, 913, 914, 915, 916, 917, 918, 919, 920]"

definition inst_routes_to_fallback :: "PPCInst \<Rightarrow> bool" where
  "inst_routes_to_fallback inst \<longleftrightarrow>
     (let op = op_f inst
      in if op \<in> set [PPC_OP_DCBST, PPC_OP_DCBF, PPC_OP_DCBI, PPC_OP_ICBI, PPC_OP_UNKNOWN] then True
         else if op = PPC_OP_MFSPR then \<not> mfspr_is_modeled (spr_f inst)
         else if op = PPC_OP_MTSPR then \<not> mtspr_is_modeled (spr_f inst)
         else False)"

definition inst_ends_block :: "PPCInst \<Rightarrow> bool" where
  "inst_ends_block inst \<longleftrightarrow>
     (if op_f inst \<in> set [PPC_OP_B, PPC_OP_BC, PPC_OP_BCLR, PPC_OP_BCCTR, PPC_OP_SC, PPC_OP_RFI] then True
      else inst_routes_to_fallback inst)"

definition inst_cycle_cost :: "PPCInst \<Rightarrow> u32" where
  "inst_cycle_cost inst =
     (let op = op_f inst
      in if embedded_data inst \<or> inst_routes_to_fallback inst then 0
         else if op = PPC_OP_MULLI then 3
         else if op = PPC_OP_SC then 2
         else if op = PPC_OP_RFI then 2
         else if op = PPC_OP_TW then 2
         else if op \<in> set [PPC_OP_LMW, PPC_OP_STMW] then 11
         else if op \<in> set [PPC_OP_MULLW, PPC_OP_MULLWO, PPC_OP_MULHW, PPC_OP_MULHWU] then 5
         else if op \<in> set [PPC_OP_DIVW, PPC_OP_DIVWO, PPC_OP_DIVWU, PPC_OP_DIVWUO] then 40
         else if op = PPC_OP_DCBZ then 5
         else if op \<in> set [PPC_OP_DCBTST, PPC_OP_DCBT] then 2
         else if op \<in> set [PPC_OP_MFSR, PPC_OP_MFSRIN] then 3
         else if op = PPC_OP_MTSPR then 2
         else if op = PPC_OP_SYNC then 3
         else if op \<in> set [PPC_OP_MTFSB0, PPC_OP_MTFSB1, PPC_OP_MTFSF, PPC_OP_MTFSFI] then 3
         else if op = PPC_OP_FDIVS then 17
         else if op = PPC_OP_FDIV then 31
         else if op = PPC_OP_PS_DIV then 17
         else if op = PPC_OP_PS_RSQRTE then 2
         else 1)"

section \<open>Blocks\<close>

text \<open>The flags of \<open>emit_function\<close>: instruction \<open>i\<close> starts a block.\<close>

definition mark_leader :: "u32 \<Rightarrow> u32 \<Rightarrow> nat \<Rightarrow> PPCInst \<Rightarrow> nat \<Rightarrow> bool list \<Rightarrow> bool list" where
  "mark_leader func_addr func_end count inst i leader =
     (if embedded_data inst then leader
      else let leader = (if inst_ends_block inst \<and> i + 1 < count then leader[i + 1 := True] else leader)
           in if (op_f inst = PPC_OP_B \<or> op_f inst = PPC_OP_BC) \<and>
                 branch_target_is_local func_addr func_end (branch_target inst)
              then leader[unat ((branch_target inst - func_addr) div 4) := True]
              else leader)"

definition func_end_of :: "PPCInst list \<Rightarrow> u32 \<Rightarrow> u32" where
  "func_end_of insts func_addr = func_addr + of_nat (length insts) * 4"

definition leaders :: "PPCInst list \<Rightarrow> u32 \<Rightarrow> bool list" where
  "leaders insts func_addr =
     (let count = length insts
      in fold (\<lambda>i. mark_leader func_addr (func_end_of insts func_addr) count (insts ! i) i) [0..<count]
           ((replicate count False)[0 := True]))"

text \<open>The cost of the block that starts a list of instructions with their flags.\<close>

fun block_cost :: "(PPCInst \<times> bool) list \<Rightarrow> u32" where
  "block_cost [] = 0"
| "block_cost ((inst, _) # rest) = inst_cycle_cost inst +
     (if inst_ends_block inst then 0
      else case rest of [] \<Rightarrow> 0 | (_, starts) # _ \<Rightarrow> if starts then 0 else block_cost rest)"

definition charge_of :: "(PPCInst \<times> bool) list \<Rightarrow> u32" where
  "charge_of xs = (case xs of [] \<Rightarrow> 0 | (_, starts) # _ \<Rightarrow> if starts then block_cost xs else 0)"

section \<open>The function\<close>

text \<open>
  One label with its statements: it sets the program counter to its address, subtracts its charge
  from the cycle counter when that is not 0, and runs the instruction.
\<close>

record emitted_label =
  label_addr :: u32
  label_charge :: u32
  label_code :: "cstmt list"

record emitted_function =
  labels_of :: "emitted_label list"
  end_pc :: u32

definition emit_function :: "PPCInst list \<Rightarrow> u32 \<Rightarrow> emitted_function" where
  "emit_function insts func_addr =
     (let func_end = func_end_of insts func_addr; flagged = zip insts (leaders insts func_addr)
      in \<lparr> labels_of = map (\<lambda>i. \<lparr> label_addr = address_of (insts ! i), label_charge = charge_of (drop i flagged),
             label_code = emit_instruction_with_range (insts ! i) func_addr func_end \<rparr>) [0..<length insts],
           end_pc = func_end \<rparr>)"

section \<open>Running it\<close>

text \<open>
  The labels from the one a jump goes to; the switch has no case for another address, and a
  \<open>goto\<close> to a label that does not exist does not compile (\<open>None\<close>).
\<close>

definition labels_from :: "u32 \<Rightarrow> emitted_label list \<Rightarrow> emitted_label list" where
  "labels_from target = dropWhile (\<lambda>l. label_addr l \<noteq> target)"

definition enter :: "emitted_label \<Rightarrow> 'e CPUState \<Rightarrow> 'e CPUState" where
  "enter l cpu = cpu\<lparr>cpu_pc := label_addr l, cpu_downcount := cpu_downcount cpu - ucast (label_charge l)\<rparr>"

partial_function (option) run_labels ::
    "'e machine \<Rightarrow> emitted_function \<Rightarrow> emitted_label list \<Rightarrow> 'e CPUState \<Rightarrow> 'e CPUState option" where
  "run_labels m f ls cpu = (case ls of
     [] \<Rightarrow> Some (cpu\<lparr>cpu_pc := end_pc f\<rparr>)
   | l # rest \<Rightarrow> do {
       e \<leftarrow> exec m (label_code l) Map.empty (enter l cpu);
       case e of
         Falls cpu \<Rightarrow> run_labels m f rest cpu
       | Returns cpu \<Rightarrow> Some cpu
       | Jumps target cpu \<Rightarrow> (case labels_from target (labels_of f) of
             [] \<Rightarrow> None
           | ls \<Rightarrow> run_labels m f ls cpu) })"

declare run_labels.simps [code]

definition run_function :: "'e machine \<Rightarrow> emitted_function \<Rightarrow> 'e CPUState \<Rightarrow> 'e CPUState option" where
  "run_function m f cpu = (case labels_from (cpu_pc cpu) (labels_of f) of
     [] \<Rightarrow> Some cpu
   | ls \<Rightarrow> run_labels m f ls cpu)"
end
