(* ===== verification/EmitDispatch.thy ===== *)
theory EmitDispatch
  imports EmitFlow EmitFunction
begin

text \<open>
  Which emitter takes which instruction.  The cases of the emitter's switches are disjoint and
  together cover every opcode of the decoder but \<open>PPC_OP_UNKNOWN\<close>, so the order in which
  \<open>emit_instruction\<close> tries them does not matter.
\<close>

section \<open>The cases of each switch\<close>

abbreviation add_immediate_ops :: "PPCOpcode list" where
  "add_immediate_ops \<equiv> [PPC_OP_MULLI, PPC_OP_SUBFIC, PPC_OP_ADDI, PPC_OP_ADDIC, PPC_OP_ADDIC_DOT, PPC_OP_ADDIS]"

abbreviation compare_ops :: "PPCOpcode list" where
  "compare_ops \<equiv> [PPC_OP_CMPI, PPC_OP_CMPLI, PPC_OP_CMP, PPC_OP_CMPL]"

abbreviation logical_immediate_ops :: "PPCOpcode list" where
  "logical_immediate_ops \<equiv> [PPC_OP_ORI, PPC_OP_ORIS, PPC_OP_XORI, PPC_OP_XORIS, PPC_OP_ANDI, PPC_OP_ANDIS]"

abbreviation add_ops :: "PPCOpcode list" where
  "add_ops \<equiv> [PPC_OP_ADD, PPC_OP_ADDO, PPC_OP_ADDC, PPC_OP_ADDCO, PPC_OP_ADDE, PPC_OP_ADDEO, PPC_OP_ADDME, PPC_OP_ADDMEO,
     PPC_OP_ADDZE, PPC_OP_ADDZEO]"

abbreviation subtract_ops :: "PPCOpcode list" where
  "subtract_ops \<equiv> [PPC_OP_SUBF, PPC_OP_SUBFO, PPC_OP_SUBFC, PPC_OP_SUBFCO, PPC_OP_SUBFE, PPC_OP_SUBFEO, PPC_OP_SUBFME,
     PPC_OP_SUBFMEO, PPC_OP_SUBFZE, PPC_OP_SUBFZEO, PPC_OP_NEG, PPC_OP_NEGO]"

abbreviation multiply_divide_ops :: "PPCOpcode list" where
  "multiply_divide_ops \<equiv> [PPC_OP_MULLW, PPC_OP_MULLWO, PPC_OP_MULHW, PPC_OP_MULHWU, PPC_OP_DIVW, PPC_OP_DIVWO, PPC_OP_DIVWU,
     PPC_OP_DIVWUO]"

abbreviation logical_ops :: "PPCOpcode list" where
  "logical_ops \<equiv> [PPC_OP_AND, PPC_OP_ANDC, PPC_OP_OR, PPC_OP_ORC, PPC_OP_XOR, PPC_OP_NAND, PPC_OP_NOR, PPC_OP_EQV]"

abbreviation count_extend_ops :: "PPCOpcode list" where
  "count_extend_ops \<equiv> [PPC_OP_CNTLZW, PPC_OP_EXTSB, PPC_OP_EXTSH]"

abbreviation shift_ops :: "PPCOpcode list" where
  "shift_ops \<equiv> [PPC_OP_SLW, PPC_OP_SRW, PPC_OP_SRAW, PPC_OP_SRAWI]"

abbreviation rotate_ops :: "PPCOpcode list" where
  "rotate_ops \<equiv> [PPC_OP_RLWINM, PPC_OP_RLWNM, PPC_OP_RLWIMI]"

abbreviation memory_ops :: "PPCOpcode list" where
  "memory_ops \<equiv> [PPC_OP_LWZ, PPC_OP_LWZU, PPC_OP_LBZ, PPC_OP_LBZU, PPC_OP_LHZ, PPC_OP_LHZU, PPC_OP_LHA, PPC_OP_LHAU,
     PPC_OP_LWZX, PPC_OP_LWZUX, PPC_OP_LBZX, PPC_OP_LBZUX, PPC_OP_LHZX, PPC_OP_LHZUX, PPC_OP_LHAX, PPC_OP_LHAUX,
     PPC_OP_LWBRX, PPC_OP_LHBRX, PPC_OP_STW, PPC_OP_STWU, PPC_OP_STB, PPC_OP_STBU, PPC_OP_STH, PPC_OP_STHU,
     PPC_OP_STWX, PPC_OP_STWUX, PPC_OP_STBX, PPC_OP_STBUX, PPC_OP_STHX, PPC_OP_STHUX, PPC_OP_STWBRX,
     PPC_OP_STHBRX]"

abbreviation string_ops :: "PPCOpcode list" where
  "string_ops \<equiv> [PPC_OP_LSWI, PPC_OP_LSWX, PPC_OP_STSWI, PPC_OP_STSWX]"

abbreviation reserve_multiple_ops :: "PPCOpcode list" where
  "reserve_multiple_ops \<equiv> [PPC_OP_LWARX, PPC_OP_STWCX, PPC_OP_LMW, PPC_OP_STMW]"

abbreviation float_memory_ops :: "PPCOpcode list" where
  "float_memory_ops \<equiv> [PPC_OP_LFS, PPC_OP_LFSU, PPC_OP_LFD, PPC_OP_LFDU, PPC_OP_LFSX, PPC_OP_LFSUX, PPC_OP_LFDX, PPC_OP_LFDUX,
     PPC_OP_PSQ_L, PPC_OP_PSQ_LU, PPC_OP_PSQ_LX, PPC_OP_PSQ_LUX, PPC_OP_STFS, PPC_OP_STFSU, PPC_OP_STFD,
     PPC_OP_STFDU, PPC_OP_STFSX, PPC_OP_STFSUX, PPC_OP_STFDX, PPC_OP_STFDUX, PPC_OP_PSQ_ST, PPC_OP_PSQ_STU,
     PPC_OP_PSQ_STX, PPC_OP_PSQ_STUX, PPC_OP_STFIWX]"

abbreviation float_arith_ops :: "PPCOpcode list" where
  "float_arith_ops \<equiv> [PPC_OP_FADDS, PPC_OP_FSUBS, PPC_OP_FMULS, PPC_OP_FDIVS, PPC_OP_FRES, PPC_OP_FMADDS, PPC_OP_FMSUBS,
     PPC_OP_FNMADDS, PPC_OP_FNMSUBS, PPC_OP_FADD, PPC_OP_FSUB, PPC_OP_FMUL, PPC_OP_FDIV, PPC_OP_FRSQRTE,
     PPC_OP_FMADD, PPC_OP_FMSUB, PPC_OP_FNMADD, PPC_OP_FNMSUB, PPC_OP_FCTIW, PPC_OP_FCTIWZ]"

abbreviation float_move_ops :: "PPCOpcode list" where
  "float_move_ops \<equiv> [PPC_OP_FMR, PPC_OP_FNEG, PPC_OP_FABS, PPC_OP_FNABS, PPC_OP_FRSP, PPC_OP_FSEL]"

abbreviation fpscr_move_ops :: "PPCOpcode list" where
  "fpscr_move_ops \<equiv> [PPC_OP_MTFSB0, PPC_OP_MTFSB1, PPC_OP_MFFS, PPC_OP_MCRFS, PPC_OP_MTFSFI, PPC_OP_MTFSF]"

abbreviation paired_arith_ops :: "PPCOpcode list" where
  "paired_arith_ops \<equiv> [PPC_OP_PS_ADD, PPC_OP_PS_SUB, PPC_OP_PS_MUL, PPC_OP_PS_DIV, PPC_OP_PS_RES, PPC_OP_PS_RSQRTE,
     PPC_OP_PS_MADD, PPC_OP_PS_MSUB, PPC_OP_PS_NMADD, PPC_OP_PS_NMSUB]"

abbreviation paired_sign_ops :: "PPCOpcode list" where
  "paired_sign_ops \<equiv> [PPC_OP_PS_NEG, PPC_OP_PS_ABS, PPC_OP_PS_NABS, PPC_OP_PS_MR]"

abbreviation paired_cross_ops :: "PPCOpcode list" where
  "paired_cross_ops \<equiv> [PPC_OP_PS_SUM0, PPC_OP_PS_SUM1, PPC_OP_PS_MULS0, PPC_OP_PS_MULS1, PPC_OP_PS_MADDS0, PPC_OP_PS_MADDS1]"

abbreviation paired_merge_ops :: "PPCOpcode list" where
  "paired_merge_ops \<equiv> [PPC_OP_PS_MERGE00, PPC_OP_PS_MERGE01, PPC_OP_PS_MERGE10, PPC_OP_PS_MERGE11, PPC_OP_PS_CMPU0,
     PPC_OP_PS_CMPO0, PPC_OP_PS_CMPU1, PPC_OP_PS_CMPO1, PPC_OP_PS_SEL]"

abbreviation cache_ops :: "PPCOpcode list" where
  "cache_ops \<equiv> [PPC_OP_TWI, PPC_OP_TW, PPC_OP_DCBZ, PPC_OP_DCBZ_L, PPC_OP_DCBTST, PPC_OP_DCBT, PPC_OP_DCBST, PPC_OP_DCBF,
     PPC_OP_DCBI, PPC_OP_ICBI]"

abbreviation condition_register_ops :: "PPCOpcode list" where
  "condition_register_ops \<equiv> [PPC_OP_CRAND, PPC_OP_CRANDC, PPC_OP_CREQV, PPC_OP_CRNAND, PPC_OP_CRNOR, PPC_OP_CROR, PPC_OP_CRORC,
     PPC_OP_CRXOR, PPC_OP_MCRF, PPC_OP_MCRXR, PPC_OP_MFCR, PPC_OP_MTCRF]"

abbreviation move_register_ops :: "PPCOpcode list" where
  "move_register_ops \<equiv> [PPC_OP_MFMSR, PPC_OP_MTMSR, PPC_OP_MFSR, PPC_OP_MFSRIN, PPC_OP_MTSR, PPC_OP_MTSRIN, PPC_OP_MFTB]"

abbreviation barrier_external_ops :: "PPCOpcode list" where
  "barrier_external_ops \<equiv> [PPC_OP_TLBIE, PPC_OP_SYNC, PPC_OP_EIEIO, PPC_OP_ISYNC, PPC_OP_TLBSYNC, PPC_OP_ECIWX, PPC_OP_ECOWX]"

abbreviation branch_ops :: "PPCOpcode list" where
  "branch_ops \<equiv> [PPC_OP_B, PPC_OP_BC, PPC_OP_BCLR, PPC_OP_BCCTR, PPC_OP_SC, PPC_OP_RFI]"

text \<open>The arms of \<open>emit_instruction\<close>, the switches of the integer and system files by their groups.\<close>

definition arms :: "PPCInst \<Rightarrow> u32 \<Rightarrow> u32 \<Rightarrow> (PPCOpcode list \<times> cstmt list option) list" where
  "arms i s e =
     [(add_immediate_ops, emit_add_immediate i),
      (compare_ops, emit_compare i),
      (logical_immediate_ops, emit_logical_immediate i),
      (add_ops, emit_add i),
      (subtract_ops, emit_subtract i),
      (multiply_divide_ops, emit_multiply_divide i),
      (logical_ops, emit_logical i),
      (count_extend_ops, emit_count_extend i),
      (shift_ops, emit_shift i),
      (rotate_ops, emit_rotate i),
      (memory_ops, emit_memory i),
      (string_ops, emit_string i),
      (reserve_multiple_ops, emit_reserve_multiple i),
      (float_memory_ops, emit_float_memory i),
      (float_arith_ops, emit_float_arith i),
      (float_move_ops, emit_float_move i),
      (fpscr_move_ops, emit_fpscr_move i),
      (paired_arith_ops, emit_paired_arith i),
      (paired_sign_ops, emit_paired_sign i),
      (paired_cross_ops, emit_paired_cross i),
      (paired_merge_ops, emit_paired_merge i),
      ([PPC_OP_FCMPU, PPC_OP_FCMPO],
        if op_f i = PPC_OP_FCMPU \<or> op_f i = PPC_OP_FCMPO then Some (emit_fcompare i) else None),
      (branch_ops, emit_branch_instruction i s e),
      (cache_ops, emit_cache i),
      (condition_register_ops, emit_condition_register i),
      (move_register_ops, emit_move_register i),
      ([PPC_OP_MFSPR, PPC_OP_MTSPR],
        if op_f i = PPC_OP_MFSPR then Some (emit_mfspr i)
        else if op_f i = PPC_OP_MTSPR then Some (emit_mtspr i) else None),
      (barrier_external_ops, emit_barrier_external i)]"

lemma emit_add_immediate_arm: "emit_add_immediate i = None \<longleftrightarrow> op_f i \<notin> set add_immediate_ops"
  by (simp add: emit_add_immediate_def Let_def)

lemma emit_compare_arm: "emit_compare i = None \<longleftrightarrow> op_f i \<notin> set compare_ops"
  by (simp add: emit_compare_def Let_def)

lemma emit_logical_immediate_arm: "emit_logical_immediate i = None \<longleftrightarrow> op_f i \<notin> set logical_immediate_ops"
  by (simp add: emit_logical_immediate_def Let_def)

lemma emit_add_arm: "emit_add i = None \<longleftrightarrow> op_f i \<notin> set add_ops"
  by (simp add: emit_add_def Let_def)

lemma emit_subtract_arm: "emit_subtract i = None \<longleftrightarrow> op_f i \<notin> set subtract_ops"
  by (simp add: emit_subtract_def Let_def)

lemma emit_multiply_divide_arm: "emit_multiply_divide i = None \<longleftrightarrow> op_f i \<notin> set multiply_divide_ops"
  by (simp add: emit_multiply_divide_def Let_def)

lemma emit_logical_arm: "emit_logical i = None \<longleftrightarrow> op_f i \<notin> set logical_ops"
  by (simp add: emit_logical_def Let_def)

lemma emit_count_extend_arm: "emit_count_extend i = None \<longleftrightarrow> op_f i \<notin> set count_extend_ops"
  by (simp add: emit_count_extend_def Let_def)

lemma emit_shift_arm: "emit_shift i = None \<longleftrightarrow> op_f i \<notin> set shift_ops"
  by (simp add: emit_shift_def Let_def)

lemma emit_rotate_arm: "emit_rotate i = None \<longleftrightarrow> op_f i \<notin> set rotate_ops"
  by (simp add: emit_rotate_def Let_def)

lemma emit_memory_arm: "emit_memory i = None \<longleftrightarrow> op_f i \<notin> set memory_ops"
  by (simp add: emit_memory_def Let_def)

lemma emit_string_arm: "emit_string i = None \<longleftrightarrow> op_f i \<notin> set string_ops"
  by (simp add: emit_string_def Let_def)

lemma emit_reserve_multiple_arm: "emit_reserve_multiple i = None \<longleftrightarrow> op_f i \<notin> set reserve_multiple_ops"
  by (simp add: emit_reserve_multiple_def Let_def)

lemma emit_float_memory_arm: "emit_float_memory i = None \<longleftrightarrow> op_f i \<notin> set float_memory_ops"
  by (simp add: emit_float_memory_def Let_def)

lemma emit_float_arith_arm: "emit_float_arith i = None \<longleftrightarrow> op_f i \<notin> set float_arith_ops"
  by (simp add: emit_float_arith_def Let_def)

lemma emit_float_move_arm: "emit_float_move i = None \<longleftrightarrow> op_f i \<notin> set float_move_ops"
  by (simp add: emit_float_move_def Let_def)

lemma emit_fpscr_move_arm: "emit_fpscr_move i = None \<longleftrightarrow> op_f i \<notin> set fpscr_move_ops"
  by (simp add: emit_fpscr_move_def Let_def)

lemma emit_paired_arith_arm: "emit_paired_arith i = None \<longleftrightarrow> op_f i \<notin> set paired_arith_ops"
  by (simp add: emit_paired_arith_def Let_def)

lemma emit_paired_sign_arm: "emit_paired_sign i = None \<longleftrightarrow> op_f i \<notin> set paired_sign_ops"
  by (simp add: emit_paired_sign_def Let_def)

lemma emit_paired_cross_arm: "emit_paired_cross i = None \<longleftrightarrow> op_f i \<notin> set paired_cross_ops"
  by (simp add: emit_paired_cross_def Let_def)

lemma emit_paired_merge_arm: "emit_paired_merge i = None \<longleftrightarrow> op_f i \<notin> set paired_merge_ops"
  by (simp add: emit_paired_merge_def Let_def)

lemma emit_cache_arm: "emit_cache i = None \<longleftrightarrow> op_f i \<notin> set cache_ops"
  by (simp add: emit_cache_def Let_def)

lemma emit_condition_register_arm: "emit_condition_register i = None \<longleftrightarrow> op_f i \<notin> set condition_register_ops"
  by (simp add: emit_condition_register_def Let_def)

lemma emit_move_register_arm: "emit_move_register i = None \<longleftrightarrow> op_f i \<notin> set move_register_ops"
  by (simp add: emit_move_register_def Let_def)

lemma emit_barrier_external_arm: "emit_barrier_external i = None \<longleftrightarrow> op_f i \<notin> set barrier_external_ops"
  by (simp add: emit_barrier_external_def Let_def)

lemma emit_branch_arm: "emit_branch_instruction i s e = None \<longleftrightarrow> op_f i \<notin> set branch_ops"
  by (simp add: emit_branch_instruction_def Let_def)

section \<open>One arm per opcode\<close>

lemma first_case_Nil: "first_case [] = None" by (simp add: first_case_def)

lemma first_case_Cons: "first_case (x # xs) = (case x of None \<Rightarrow> first_case xs | Some y \<Rightarrow> Some y)"
proof -
  have "fold (\<lambda>x acc. case acc of None \<Rightarrow> x | Some y \<Rightarrow> Some y) xs (Some y) = Some y" for y
    by (induction xs) simp_all
  then show ?thesis by (cases x) (simp_all add: first_case_def)
qed

lemma first_case_append: "first_case (xs @ ys) = (case first_case xs of None \<Rightarrow> first_case ys | Some y \<Rightarrow> Some y)"
  by (induction xs) (simp_all add: first_case_Nil first_case_Cons split: option.split)

lemma first_case_nested: "first_case (first_case xs # ys) = first_case (xs @ ys)"
  by (simp add: first_case_Cons first_case_append)

lemma first_case_arm:
  assumes "\<forall>(ops, r) \<in> set xs. r = None \<longleftrightarrow> op \<notin> set ops" and "distinct (concat (map fst xs))"
    and "(ops, r) \<in> set xs" and "op \<in> set ops"
  shows "first_case (map snd xs) = r"
  using assms
proof (induction xs)
  case (Cons x xs)
  obtain ops' r' where x: "x = (ops', r')" by (cases x)
  show ?case
  proof (cases "op \<in> set ops'")
    case True
    have "(ops, r) \<notin> set xs"
    proof
      assume "(ops, r) \<in> set xs"
      then have "op \<in> (\<Union>a\<in>set xs. set (fst a))" using Cons.prems(4) by force
      with True Cons.prems(2) x show False by auto
    qed
    with Cons.prems(3) x have "r = r'" by simp
    moreover from True Cons.prems(1) x obtain y where "r' = Some y" by auto
    ultimately show ?thesis by (simp add: x first_case_Cons)
  next
    case False
    with Cons.prems x have "r' = None" "(ops, r) \<in> set xs" by auto
    with Cons.IH Cons.prems x show ?thesis by (auto simp: first_case_Cons)
  qed
qed simp

lemma first_case_none:
  assumes "\<forall>(ops, r) \<in> set xs. r = None \<longleftrightarrow> op \<notin> set ops" and "op \<notin> set (concat (map fst xs))"
  shows "first_case (map snd xs) = None"
  using assms by (induction xs) (auto simp: first_case_Nil first_case_Cons split: option.split)

lemma arms_exact: "\<forall>(ops, r) \<in> set (arms i s e). r = None \<longleftrightarrow> op_f i \<notin> set ops"
  unfolding arms_def
  by (simp only: list.set ball_simps prod.case simp_thms
      emit_add_immediate_arm emit_compare_arm emit_logical_immediate_arm emit_add_arm emit_subtract_arm emit_multiply_divide_arm emit_logical_arm emit_count_extend_arm emit_shift_arm emit_rotate_arm emit_memory_arm emit_string_arm emit_reserve_multiple_arm emit_float_memory_arm emit_float_arith_arm emit_float_move_arm emit_fpscr_move_arm emit_paired_arith_arm emit_paired_sign_arm emit_paired_cross_arm emit_paired_merge_arm emit_cache_arm emit_condition_register_arm emit_move_register_arm emit_barrier_external_arm emit_branch_arm) simp

definition handled_ops :: "PPCOpcode list" where
  "handled_ops = concat (map fst (arms (ppc_decode 0 0) 0 0))"

lemma concat_arms: "concat (map fst (arms i s e)) = handled_ops"
  by (simp add: arms_def handled_ops_def)

lemma handled_literal: "handled_ops = concat (map fst (arms i s e))"
  by (simp only: concat_arms)

lemma distinct_handled: "distinct handled_ops"
  unfolding handled_ops_def arms_def list.map fst_conv concat.simps append.simps append_Nil2
  by simp

lemma set_handled: "set handled_ops = {1..<PPC_OP_COUNT}"
proof (rule card_subset_eq)
  show "set handled_ops \<subseteq> {1..<PPC_OP_COUNT}"
    unfolding handled_ops_def arms_def list.map fst_conv concat.simps append.simps append_Nil2 by simp
  have "length handled_ops = 236"
    unfolding handled_ops_def arms_def list.map fst_conv concat.simps append.simps append_Nil2 by simp
  then show "card (set handled_ops) = card {1..<PPC_OP_COUNT}"
    using distinct_card[OF distinct_handled] by simp
qed simp

lemma first_case_four:
  "first_case [first_case a, first_case b, c, first_case d] = first_case (a @ b @ [c] @ d)"
  by (simp add: first_case_append first_case_Cons first_case_Nil split: option.split)

lemma float_arms:
  "emit_float_instruction i = first_case [emit_float_memory i, emit_float_arith i, emit_float_move i,
     emit_fpscr_move i, emit_paired_arith i, emit_paired_sign i, emit_paired_cross i, emit_paired_merge i,
     if op_f i = PPC_OP_FCMPU \<or> op_f i = PPC_OP_FCMPO then Some (emit_fcompare i) else None]"
proof (cases "ppc_op_uses_fpu (op_f i)")
  case False
  have "op \<in> set (float_memory_ops @ float_arith_ops @ float_move_ops @ fpscr_move_ops @ paired_arith_ops @
      paired_sign_ops @ paired_cross_ops @ paired_merge_ops @ [PPC_OP_FCMPU, PPC_OP_FCMPO]) \<Longrightarrow> ppc_op_uses_fpu op" for op
    by (auto simp: ppc_op_uses_fpu_def)
  from this[of "op_f i"] False have none: "op_f i \<notin> set float_memory_ops" "op_f i \<notin> set float_arith_ops"
      "op_f i \<notin> set float_move_ops" "op_f i \<notin> set fpscr_move_ops" "op_f i \<notin> set paired_arith_ops"
      "op_f i \<notin> set paired_sign_ops" "op_f i \<notin> set paired_cross_ops" "op_f i \<notin> set paired_merge_ops"
      and other: "op_f i \<notin> set [PPC_OP_FCMPU, PPC_OP_FCMPO]"
    unfolding set_append Un_iff by blast+
  with False show ?thesis
    unfolding emit_float_instruction_def
    by (simp only: none[folded emit_float_memory_arm emit_float_arith_arm emit_float_move_arm emit_fpscr_move_arm
      emit_paired_arith_arm emit_paired_sign_arm emit_paired_cross_arm emit_paired_merge_arm])
      (use other in \<open>simp add: first_case_Cons first_case_Nil\<close>)
qed (simp add: emit_float_instruction_def)

lemma switches_arms:
  "first_case [emit_integer_instruction i, emit_float_instruction i, emit_branch_instruction i s e,
     emit_system_instruction i] = first_case (map snd (arms i s e))"
  unfolding emit_integer_instruction_def float_arms emit_system_instruction_def first_case_four
  by (simp only: arms_def list.map snd_conv append.simps append_Nil2)

definition fp_guard :: "PPCInst \<Rightarrow> cstmt list" where
  "fp_guard i = (if ppc_op_uses_fpu (op_f i) then [only_if (Lnot (Call c_fp_available [cia_at i])) [Return]] else [])"

lemma emit_by_arm:
  assumes "\<not> embedded_data i" and "(ops, r) \<in> set (arms i s e)" and "op_f i \<in> set ops"
  shows "emit_instruction_with_range i s e = fp_guard i @ the r"
proof -
  have r: "first_case (map snd (arms i s e)) = r"
    using assms(2,3) distinct_handled concat_arms[of i s e] by (intro first_case_arm[OF arms_exact]) simp_all
  obtain y where "r = Some y" using arms_exact[of i s e] assms(2,3) by (cases r) auto
  with r assms(1) show ?thesis
    unfolding emit_instruction_with_range_def fp_guard_def switches_arms by simp
qed

lemma emit_unknown:
  assumes "\<not> embedded_data i" and "op_f i < PPC_OP_COUNT"
  shows "first_case (map snd (arms i s e)) = None \<longleftrightarrow> op_f i = PPC_OP_UNKNOWN"
proof
  assume none: "first_case (map snd (arms i s e)) = None"
  show "op_f i = PPC_OP_UNKNOWN"
  proof (rule ccontr)
    assume "op_f i \<noteq> PPC_OP_UNKNOWN"
    with assms(2) have "op_f i \<in> set (concat (map fst (arms i s e)))" by (simp add: concat_arms set_handled)
    then obtain ops r where arm: "(ops, r) \<in> set (arms i s e)" "op_f i \<in> set ops" by auto
    then have "first_case (map snd (arms i s e)) = r"
      using distinct_handled concat_arms[of i s e] by (intro first_case_arm[OF arms_exact]) simp_all
    with none arm arms_exact[of i s e] show False by auto
  qed
next
  assume "op_f i = PPC_OP_UNKNOWN"
  then show "first_case (map snd (arms i s e)) = None"
    by (intro first_case_none[OF arms_exact]) (simp add: concat_arms set_handled)
qed

end
