(* ===== verification/EmitSteps.thy ===== *)
theory EmitSteps
  imports EmitDispatch
begin

text \<open>
  The reference machine, one instruction at a time, and the emitted code of an instruction as one
  step of it: integer arithmetic, comparison, logic, shifts, loads and stores with their multiple
  and string forms, the condition register and branches.
\<close>

section \<open>The reference step\<close>

abbreviation block_ops :: "PPCOpcode list" where "block_ops \<equiv> [PPC_OP_LMW, PPC_OP_STMW, PPC_OP_LSWI, PPC_OP_DCBZ]"

abbreviation cr_ops :: "PPCOpcode list" where
  "cr_ops \<equiv> [PPC_OP_CRAND, PPC_OP_CRANDC, PPC_OP_CREQV, PPC_OP_CRNAND, PPC_OP_CRNOR, PPC_OP_CROR, PPC_OP_CRORC,
     PPC_OP_CRXOR, PPC_OP_MCRF, PPC_OP_MFCR, PPC_OP_MTCRF]"

abbreviation jump_ops :: "PPCOpcode list" where "jump_ops \<equiv> [PPC_OP_B, PPC_OP_BC, PPC_OP_BCLR, PPC_OP_BCCTR]"

abbreviation logic_ops :: "PPCOpcode list" where
  "logic_ops \<equiv> logical_immediate_ops @ logical_ops @ count_extend_ops @ shift_ops @ rotate_ops"

abbreviation sum_ops :: "PPCOpcode list" where "sum_ops \<equiv> add_ops @ subtract_ops"

definition isa_arms :: "'e PPCHost \<Rightarrow> PPCInst \<Rightarrow> 'e CPUState \<Rightarrow> (PPCOpcode list \<times> 'e CPUState option) list" where
  "isa_arms h i cpu =
     [(sum_ops, isa_sum i cpu), (add_immediate_ops, isa_add_immediate i cpu),
      (compare_ops, isa_compare i cpu), (multiply_divide_ops, isa_multiply_divide i cpu),
      (logic_ops, isa_logical i cpu),
      (memory_ops, isa_memory h i cpu), (block_ops, isa_block h i cpu), (cr_ops, isa_condition_register i cpu)]"

definition isa_plain :: "'e PPCHost \<Rightarrow> PPCInst \<Rightarrow> 'e CPUState \<Rightarrow> 'e CPUState option" where
  "isa_plain h i cpu = first_case (map snd (isa_arms h i cpu))"

text \<open>A step: the instruction, then the program counter of the next one.\<close>

definition ref_step :: "'e PPCHost \<Rightarrow> PPCInst \<Rightarrow> 'e CPUState \<Rightarrow> 'e CPUState option" where
  "ref_step h i cpu = (if op_f i \<in> set jump_ops then isa_branch i cpu
     else map_option (\<lambda>cpu. cpu\<lparr>cpu_pc := address_of i + 4\<rparr>) (isa_plain h i cpu))"

definition plain_ops :: "PPCOpcode list" where
  "plain_ops = sum_ops @ add_immediate_ops @ compare_ops @ multiply_divide_ops @ logic_ops @ memory_ops @ block_ops @ cr_ops"

text \<open>
  The instructions the reference has, but for the invalid \<open>bcctr\<close> that counts and for \<open>bclrl\<close>,
  whose emitted code differs (\<open>exec_blrl\<close>).
\<close>

definition in_reference :: "PPCInst \<Rightarrow> bool" where
  "in_reference i \<longleftrightarrow> op_f i \<in> set (plain_ops @ jump_ops) \<and> (op_f i = PPC_OP_BCCTR \<longrightarrow> bo_bit i 2) \<and>
     (op_f i = PPC_OP_BCLR \<longrightarrow> \<not> lk_f i)"

section \<open>Which part of the reference takes which instruction\<close>

lemma isa_sum_arm: "isa_sum i cpu = None \<longleftrightarrow> op_f i \<notin> set sum_ops"
  by (simp add: isa_sum_def sum_operands_def Let_def split: option.splits)

lemma isa_add_immediate_arm: "isa_add_immediate i cpu = None \<longleftrightarrow> op_f i \<notin> set add_immediate_ops"
  by (simp add: isa_add_immediate_def Let_def)

lemma isa_compare_arm: "isa_compare i cpu = None \<longleftrightarrow> op_f i \<notin> set compare_ops"
  by (simp add: isa_compare_def Let_def)

lemma isa_multiply_divide_arm: "isa_multiply_divide i cpu = None \<longleftrightarrow> op_f i \<notin> set multiply_divide_ops"
  by (simp add: isa_multiply_divide_def Let_def)

lemma isa_logical_arm:
  "isa_logical i cpu = None \<longleftrightarrow> op_f i \<notin> set logic_ops"
proof -
  have "isa_logical_value i cpu = None \<longleftrightarrow> op_f i \<notin> set (logical_immediate_ops @ logical_ops)"
    by (simp add: isa_logical_value_def Let_def)
  moreover have "isa_shift_value i cpu = None \<longleftrightarrow> op_f i \<notin> set (count_extend_ops @ [PPC_OP_SLW, PPC_OP_SRW] @ rotate_ops)"
    by (simp add: isa_shift_value_def Let_def)
  ultimately show ?thesis by (auto simp: isa_logical_def Let_def split: option.splits)
qed

lemma isa_memory_arm: "isa_memory h i cpu = None \<longleftrightarrow> op_f i \<notin> set memory_ops"
proof -
  have "load_form (op_f i) = None \<longleftrightarrow> op_f i \<notin> set [PPC_OP_LWZ, PPC_OP_LWZU, PPC_OP_LBZ, PPC_OP_LBZU, PPC_OP_LHZ,
      PPC_OP_LHZU, PPC_OP_LHA, PPC_OP_LHAU, PPC_OP_LWZX, PPC_OP_LWZUX, PPC_OP_LBZX, PPC_OP_LBZUX, PPC_OP_LHZX,
      PPC_OP_LHZUX, PPC_OP_LHAX, PPC_OP_LHAUX, PPC_OP_LWBRX, PPC_OP_LHBRX]"
    by (simp add: load_form_def map_of_eq_None_iff)
  moreover have "store_form (op_f i) = None \<longleftrightarrow> op_f i \<notin> set [PPC_OP_STW, PPC_OP_STWU, PPC_OP_STB, PPC_OP_STBU,
      PPC_OP_STH, PPC_OP_STHU, PPC_OP_STWX, PPC_OP_STWUX, PPC_OP_STBX, PPC_OP_STBUX, PPC_OP_STHX, PPC_OP_STHUX,
      PPC_OP_STWBRX, PPC_OP_STHBRX]"
    by (simp add: store_form_def map_of_eq_None_iff)
  ultimately show ?thesis by (auto simp: isa_memory_def Let_def split: option.splits prod.splits)
qed

lemma isa_block_arm: "isa_block h i cpu = None \<longleftrightarrow> op_f i \<notin> set block_ops"
  by (simp add: isa_block_def Let_def)

lemma isa_condition_register_arm: "isa_condition_register i cpu = None \<longleftrightarrow> op_f i \<notin> set cr_ops"
proof -
  have "cr_operation (op_f i) = None \<longleftrightarrow> op_f i \<notin> set [PPC_OP_CRAND, PPC_OP_CRANDC, PPC_OP_CREQV, PPC_OP_CRNAND,
      PPC_OP_CRNOR, PPC_OP_CROR, PPC_OP_CRORC, PPC_OP_CRXOR]"
    by (simp add: cr_operation_def map_of_eq_None_iff)
  then show ?thesis by (auto simp: isa_condition_register_def Let_def split: option.splits)
qed

lemma isa_arms_exact: "\<forall>(ops, r) \<in> set (isa_arms h i cpu). r = None \<longleftrightarrow> op_f i \<notin> set ops"
  unfolding isa_arms_def
  by (simp only: list.set ball_simps prod.case simp_thms isa_sum_arm isa_add_immediate_arm isa_compare_arm
      isa_multiply_divide_arm isa_logical_arm isa_memory_arm isa_block_arm isa_condition_register_arm)

lemma isa_arms_distinct: "distinct (concat (map fst (isa_arms h i cpu)))"
  unfolding isa_arms_def list.map fst_conv concat.simps append.simps append_Nil2
  by simp

lemma isa_by_arm:
  assumes "(ops, r) \<in> set (isa_arms h i cpu)" and "op_f i \<in> set ops"
  shows "isa_plain h i cpu = r"
  unfolding isa_plain_def by (rule first_case_arm[OF isa_arms_exact isa_arms_distinct assms])

section \<open>One instruction\<close>

lemma no_guard: "op_f i \<in> set (plain_ops @ jump_ops) \<Longrightarrow> fp_guard i = []"
  unfolding fp_guard_def plain_ops_def by (auto simp: ppc_op_uses_fpu_def)

text \<open>The emitted code of an instruction is that of its switch, its meaning that of its part of the reference.\<close>

definition steps_plainly :: "'e machine \<Rightarrow> PPCInst \<Rightarrow> u32 \<Rightarrow> u32 \<Rightarrow> locals \<Rightarrow> 'e CPUState \<Rightarrow> bool" where
  "steps_plainly m i s e env cpu \<longleftrightarrow> isa_plain (host_of m) i cpu \<noteq> None \<and>
     exec m (emit_instruction_with_range i s e) env cpu = map_option Falls (isa_plain (host_of m) i cpu)"

lemma by_arms:
  assumes "\<not> embedded_data i" and "op_f i \<in> set (plain_ops @ jump_ops)"
    and "op_f i \<in> set ops" "op_f i \<in> set ops'"
    and "exec m (the c) env cpu = map_option Falls x"
    and "(ops, c) \<in> set (arms i s e)" and "(ops', x) \<in> set (isa_arms (host_of m) i cpu)"
  shows "steps_plainly m i s e env cpu"
proof -
  have "x \<noteq> None" using assms(4,7) isa_arms_exact[of "host_of m" i cpu] by fast
  then show ?thesis
    using emit_by_arm[OF assms(1,6,3)] isa_by_arm[OF assms(7,4)] no_guard[OF assms(2)] assms(5)
    by (simp add: steps_plainly_def)
qed

lemmas member = arms_def isa_arms_def list.set insert_iff simp_thms

lemma in_sum_ops: "op \<in> set add_ops \<Longrightarrow> op \<in> set sum_ops" "op \<in> set subtract_ops \<Longrightarrow> op \<in> set sum_ops"
  unfolding set_append by blast+

lemma in_logic_ops: "op \<in> set logical_immediate_ops \<Longrightarrow> op \<in> set logic_ops" "op \<in> set logical_ops \<Longrightarrow> op \<in> set logic_ops"
  "op \<in> set count_extend_ops \<Longrightarrow> op \<in> set logic_ops" "op \<in> set shift_ops \<Longrightarrow> op \<in> set logic_ops"
  "op \<in> set rotate_ops \<Longrightarrow> op \<in> set logic_ops"
  unfolding set_append by blast+

lemma exec_add_ops:
  assumes "registers_ok i" and "length (gpr cpu) = 32"
  shows "op_f i \<in> set add_ops \<Longrightarrow> exec m (the (emit_add i)) env cpu = map_option Falls (isa_sum i cpu)"
    and "op_f i \<in> set subtract_ops \<Longrightarrow> exec m (the (emit_subtract i)) env cpu = map_option Falls (isa_sum i cpu)"
    and "op_f i \<in> set add_immediate_ops \<Longrightarrow>
      exec m (the (emit_add_immediate i)) env cpu = map_option Falls (isa_add_immediate i cpu)"
    and "op_f i \<in> set multiply_divide_ops \<Longrightarrow>
      exec m (the (emit_multiply_divide i)) env cpu = map_option Falls (isa_multiply_divide i cpu)"
proof -
  show "exec m (the (emit_add_immediate i)) env cpu = map_option Falls (isa_add_immediate i cpu)"
    if "op_f i \<in> set add_immediate_ops"
  proof -
    from that obtain cpu' where "isa_add_immediate i cpu = Some cpu'" using isa_add_immediate_arm[of i cpu] by auto
    with exec_add_immediate[OF assms] show ?thesis by simp
  qed
qed (use exec_ADD[OF assms] exec_ADDC[OF assms] exec_ADDE[OF assms] exec_ADDME[OF assms] exec_ADDZE[OF assms]
    exec_SUBF[OF assms] exec_SUBFC[OF assms] exec_SUBFE[OF assms] exec_SUBFME[OF assms] exec_SUBFZE[OF assms]
    exec_NEG[OF assms] exec_multiply_divide[OF assms] isa_multiply_divide_arm[of i cpu]
  in auto)

lemma exec_arithmetic:
  assumes "registers_ok i" "crfD_f i < 8" "\<not> embedded_data i" "length (gpr cpu) = 32"
    and "op_f i \<in> set (sum_ops @ add_immediate_ops @ compare_ops @ multiply_divide_ops)"
  shows "steps_plainly m i s e env cpu"
proof -
  from assms(5) have op: "op_f i \<in> set (plain_ops @ jump_ops)" unfolding plain_ops_def set_append by blast
  note arm = by_arms[OF assms(3) op]
  note add = exec_add_ops[OF assms(1,4)]
  from assms(5) consider "op_f i \<in> set add_ops" | "op_f i \<in> set subtract_ops" | "op_f i \<in> set add_immediate_ops"
    | "op_f i \<in> set compare_ops" | "op_f i \<in> set multiply_divide_ops"
    unfolding set_append by blast
  then show ?thesis
  proof cases
    case 1 show ?thesis by (rule arm[OF 1 in_sum_ops(1)[OF 1] add(1)[OF 1]]) (simp_all only: member)
  next
    case 2 show ?thesis by (rule arm[OF 2 in_sum_ops(2)[OF 2] add(2)[OF 2]]) (simp_all only: member)
  next
    case 3 show ?thesis by (rule arm[OF 3 3 add(3)[OF 3]]) (simp_all only: member)
  next
    case 4
    then have "isa_compare i cpu \<noteq> None" unfolding isa_compare_arm by blast
    then show ?thesis
      by (rule arm[OF 4 4 exec_compare[OF assms(1,2)]]) (simp_all only: member)
  next
    case 5 show ?thesis by (rule arm[OF 5 5 add(4)[OF 5]]) (simp_all only: member)
  qed
qed

lemma exec_logic:
  assumes "inst_ok raw a i" and "length (gpr cpu) = 32" and "op_f i \<in> set logic_ops"
  shows "steps_plainly m i s e env cpu"
proof -
  have ok: "registers_ok i" "mb_f i < 32" "me_f i < 32" "sh_f i < 32" "\<not> embedded_data i"
    using assms(1) by (simp_all add: inst_ok_def registers_ok_def)
  from assms(3) have op: "op_f i \<in> set (plain_ops @ jump_ops)" unfolding plain_ops_def set_append by blast
  note arm = by_arms[OF ok(5) op]
  from assms(3) consider "op_f i \<in> set logical_immediate_ops" | "op_f i \<in> set logical_ops"
    | "op_f i \<in> set count_extend_ops" | "op_f i \<in> set shift_ops" | "op_f i \<in> set rotate_ops"
    unfolding set_append by blast
  then show ?thesis
  proof cases
    case 1 show ?thesis
      by (rule arm[OF 1 in_logic_ops(1)[OF 1] exec_logical_immediate[OF ok(1) assms(2)]]) (use 1 in \<open>simp_all only: member\<close>)
  next
    case 2 show ?thesis
      by (rule arm[OF 2 in_logic_ops(2)[OF 2] exec_logical[OF ok(1) assms(2)]]) (use 2 in \<open>simp_all only: member\<close>)
  next
    case 3 show ?thesis
      by (rule arm[OF 3 in_logic_ops(3)[OF 3] exec_count_extend[OF ok(1) assms(2)]]) (use 3 in \<open>simp_all only: member\<close>)
  next
    case 4
    have "exec m (the (emit_shift i)) env cpu = map_option Falls (isa_logical i cpu)"
      using 4 exec_shift[OF ok(1) assms(2)] exec_shift_arithmetic[OF ok(1) assms(2)] by auto
    then show ?thesis by (rule arm[OF 4 in_logic_ops(4)[OF 4]]) (simp_all only: member)
  next
    case 5 show ?thesis
      by (rule arm[OF 5 in_logic_ops(5)[OF 5] exec_rotate[OF ok(1) assms(2) ok(2-4)]]) (use 5 in \<open>simp_all only: member\<close>)
  qed
qed

lemma in_block_ops: "op \<in> {PPC_OP_LMW, PPC_OP_STMW} \<Longrightarrow> op \<in> set reserve_multiple_ops"
  "op = PPC_OP_LSWI \<Longrightarrow> op \<in> set string_ops" "op = PPC_OP_DCBZ \<Longrightarrow> op \<in> set cache_ops"
  "op \<in> set cr_ops \<Longrightarrow> op \<in> set condition_register_ops"
  unfolding list.set by blast+

lemma exec_storage:
  assumes "inst_ok raw a i" and "op_f i \<in> set (memory_ops @ block_ops @ cr_ops)"
  shows "steps_plainly m i s e env cpu"
proof -
  have ok: "registers_ok i" "crfD_f i < 8" "crfS_f i < 8" "\<not> embedded_data i"
    using assms(1) by (simp_all add: inst_ok_def registers_ok_def)
  have r: "rA_f i < 32" "rB_f i < 32" "rD_f i < 32" "rS_f i < 32" using registers_ok[OF ok(1)] by simp_all
  from assms(2) have op: "op_f i \<in> set (plain_ops @ jump_ops)" unfolding plain_ops_def set_append by blast
  note arm = by_arms[OF ok(4) op]
  from assms(2) consider "op_f i \<in> set memory_ops" | "op_f i \<in> {PPC_OP_LMW, PPC_OP_STMW}"
    | "op_f i = PPC_OP_LSWI" | "op_f i = PPC_OP_DCBZ" | "op_f i \<in> set cr_ops"
    unfolding set_append list.set by blast
  then show ?thesis
  proof cases
    case 1
    then have "isa_memory (host_of m) i cpu \<noteq> None" unfolding isa_memory_arm by blast
    then show ?thesis by (rule arm[OF 1 1 exec_memory[OF ok(1)]]) (simp_all only: member)
  next
    case 2
    then have "op_f i \<in> set block_ops" unfolding list.set by blast
    moreover have "exec m (the (emit_reserve_multiple i)) env cpu = map_option Falls (isa_block (host_of m) i cpu)"
      using 2 exec_load_multiple[OF r(1,3)] exec_store_multiple[OF r(1,4)] by blast
    ultimately show ?thesis by (rule arm[OF in_block_ops(1)[OF 2]]) (simp_all only: member)
  next
    case 3
    then have "op_f i \<in> set block_ops" unfolding list.set by blast
    then show ?thesis by (rule arm[OF in_block_ops(2)[OF 3] _ exec_load_string[OF r(1,3) 3]]) (simp_all only: member)
  next
    case 4
    then have "op_f i \<in> set block_ops" unfolding list.set by blast
    moreover have "exec m (the (emit_cache i)) env cpu = map_option Falls (isa_block (host_of m) i cpu)"
      using 4 exec_zero_block[OF r(1,2) 4] by (simp add: emit_cache_def)
    ultimately show ?thesis by (rule arm[OF in_block_ops(3)[OF 4]]) (simp_all only: member)
  next
    case 5
    then have "isa_condition_register i cpu \<noteq> None" unfolding isa_condition_register_arm by blast
    then show ?thesis
      by (rule arm[OF in_block_ops(4)[OF 5] 5 exec_condition_register[OF ok(1-3)]]) (simp_all only: member)
  qed
qed

lemma exec_plain:
  assumes "inst_ok raw a i" and "length (gpr cpu) = 32" and "op_f i \<in> set plain_ops"
  shows "steps_plainly m i s e env cpu"
proof -
  have "registers_ok i" "crfD_f i < 8" "\<not> embedded_data i"
    using assms(1) by (simp_all add: inst_ok_def registers_ok_def)
  then show ?thesis
    using assms(3) exec_arithmetic[OF _ _ _ assms(2), of i m s e env] exec_logic[OF assms(1,2), of m s e env]
      exec_storage[OF assms(1), of m s e env cpu]
    unfolding plain_ops_def set_append Un_iff by blast
qed

text \<open>The emitted code of an instruction of the reference is one step of it.\<close>

lemma in_jump_ops: "op \<in> set jump_ops \<Longrightarrow> op \<in> set branch_ops" "op \<in> set jump_ops \<Longrightarrow> op \<notin> set plain_ops"
  by (auto simp: plain_ops_def)

lemma exec_ref_step:
  assumes "inst_ok raw a i" and "length (gpr cpu) = 32" and "in_reference i"
  shows "ref_step (host_of m) i cpu \<noteq> None"
    and "map_option (arrive (address_of i + 4)) (exec m (emit_instruction_with_range i s e) env cpu)
      = ref_step (host_of m) i cpu"
proof -
  have "ref_step (host_of m) i cpu \<noteq> None \<and>
    map_option (arrive (address_of i + 4)) (exec m (emit_instruction_with_range i s e) env cpu) = ref_step (host_of m) i cpu"
  proof (cases "op_f i \<in> set jump_ops")
    case True
    have i: "\<not> embedded_data i" "bi_f i < 32" using assms(1) by (simp_all add: inst_ok_def)
    from True have op: "op_f i \<in> {PPC_OP_B, PPC_OP_BC, PPC_OP_BCLR, PPC_OP_BCCTR}" by simp
    have "op_f i \<in> set (plain_ops @ jump_ops)" using True unfolding set_append by blast
    then have "emit_instruction_with_range i s e = the (emit_branch_instruction i s e)"
      using emit_by_arm[OF i(1) _ in_jump_ops(1)[OF True], of "emit_branch_instruction i s e" s e] no_guard[of i]
      by (simp add: arms_def)
    moreover have "isa_branch i cpu \<noteq> None" using op by (auto simp: isa_branch_def Let_def)
    ultimately show ?thesis
      using exec_branch[OF op i(2)] assms(3) True by (simp add: ref_step_def in_reference_def)
  next
    case False
    with assms(3) have "op_f i \<in> set plain_ops" unfolding in_reference_def by simp
    from exec_plain[OF assms(1,2) this, of m s e env] False show ?thesis
      by (cases "isa_plain (host_of m) i cpu") (simp_all add: steps_plainly_def ref_step_def arrive_def)
  qed
  then show "ref_step (host_of m) i cpu \<noteq> None"
    and "map_option (arrive (address_of i + 4)) (exec m (emit_instruction_with_range i s e) env cpu)
      = ref_step (host_of m) i cpu" by blast+
qed
end
