(* ===== verification/EmitProgram.thy ===== *)
theory EmitProgram
  imports EmitSteps
begin

text \<open>
  A whole emitted function.  Every jump inside it goes forward, so it returns after at most as many
  instructions as it holds; and if the reference has all its instructions, it runs the reference
  machine from the program counter it is entered with to the one it returns with.
\<close>

section \<open>Jumps of emitted code\<close>

fun gotos :: "cstmt list \<Rightarrow> u32 set" where
  "gotos [] = {}"
| "gotos (If e yes no # rest) = gotos yes \<union> gotos no \<union> gotos rest"
| "gotos (While e body # rest) = gotos body \<union> gotos rest"
| "gotos (Goto target # rest) = {target} \<union> gotos rest"
| "gotos (stmt # rest) = gotos rest"

lemma gotos_append [simp]: "gotos (xs @ ys) = gotos xs \<union> gotos ys"
  by (induction xs rule: gotos.induct) auto

lemma exec_gotos:
  assumes "exec m code env cpu = Some e"
  shows "\<forall>target cpu'. e = Jumps target cpu' \<longrightarrow> target \<in> gotos code"
proof (rule exec.raw_induct[OF _ assms])
  fix run and m :: "'a machine" and code env cpu and e :: "'a exit"
  assume IH: "\<And>m code env cpu e. run m code env cpu = Some e \<Longrightarrow>
      \<forall>target cpu'. e = Jumps target cpu' \<longrightarrow> target \<in> gotos code"
    and step: "(case code of
     [] \<Rightarrow> Some (Falls cpu)
   | stmt # rest \<Rightarrow> (case stmt of
       Decl t x e \<Rightarrow> do { (v, cpu) \<leftarrow> eval m env e cpu; run m rest (env(x \<mapsto> cast t v)) cpu }
     | SetLocal x e \<Rightarrow> do {
         (v, cpu) \<leftarrow> eval m env e cpu;
         old \<leftarrow> env x;
         run m rest (env(x \<mapsto> cast (type_of old) v)) cpu }
     | SetField f e \<Rightarrow> do { (v, cpu) \<leftarrow> eval m env e cpu; run m rest env (set_field f (to_u32 v) cpu) }
     | SetElem a ie e \<Rightarrow> do {
         (v, cpu) \<leftarrow> eval m env e cpu;
         (i, cpu) \<leftarrow> eval m env ie cpu;
         cpu \<leftarrow> set_elem a (to_nat i) v cpu;
         run m rest env cpu }
     | Do e \<Rightarrow> do { (v, cpu) \<leftarrow> eval m env e cpu; run m rest env cpu }
     | If e yes no \<Rightarrow> do {
         (v, cpu) \<leftarrow> eval m env e cpu;
         run m ((if truth v then yes else no) @ rest) env cpu }
     | While e body \<Rightarrow> do {
         (v, cpu) \<leftarrow> eval m env e cpu;
         if truth v then run m (body @ While e body # rest) env cpu else run m rest env cpu }
     | Return \<Rightarrow> Some (Returns cpu)
     | Goto target \<Rightarrow> Some (Jumps target cpu))) = Some e"
  show "\<forall>target cpu'. e = Jumps target cpu' \<longrightarrow> target \<in> gotos code"
  proof (cases code)
    case (Cons stmt rest)
    with step show ?thesis
      by (cases stmt) (auto simp: bind_eq_Some_conv split: if_splits prod.splits dest!: IH)
  qed (use step in auto)
qed

section \<open>Only a branch jumps\<close>

lemmas fragment_defs = emit_set_cr0_from_gpr_def emit_set_cr1_from_fpscr_def set_cr_bits_def emit_compare_s32_def
  emit_compare_u32_def emit_load_def emit_loadx_def emit_store_def emit_storex_def emit_fload_def emit_floadx_def
  emit_fstore_def emit_fstorex_def emit_psq_load_def emit_psq_store_def emit_dcbz_def emit_record_if_needed_def
  set_overflow_def emit_cr_logical_def emit_trap_def emit_fallback_def emit_fcompare_def record_cr1_def fp_call_def
  emit_mfspr_def emit_mtspr_def

lemma gotos_add_immediate: "emit_add_immediate i = Some code \<Longrightarrow> gotos code = {}"
  by (auto simp: emit_add_immediate_def fragment_defs Let_def split: if_splits option.splits)

lemma gotos_compare: "emit_compare i = Some code \<Longrightarrow> gotos code = {}"
  by (auto simp: emit_compare_def fragment_defs Let_def split: if_splits option.splits)

lemma gotos_logical_immediate: "emit_logical_immediate i = Some code \<Longrightarrow> gotos code = {}"
  by (auto simp: emit_logical_immediate_def fragment_defs Let_def split: if_splits option.splits)

lemma gotos_add: "emit_add i = Some code \<Longrightarrow> gotos code = {}"
  by (auto simp: emit_add_def fragment_defs Let_def split: if_splits option.splits)

lemma gotos_subtract: "emit_subtract i = Some code \<Longrightarrow> gotos code = {}"
  by (auto simp: emit_subtract_def fragment_defs Let_def split: if_splits option.splits)

lemma gotos_multiply_divide: "emit_multiply_divide i = Some code \<Longrightarrow> gotos code = {}"
  by (auto simp: emit_multiply_divide_def fragment_defs Let_def split: if_splits option.splits)

lemma gotos_logical: "emit_logical i = Some code \<Longrightarrow> gotos code = {}"
  by (auto simp: emit_logical_def fragment_defs Let_def split: if_splits option.splits)

lemma gotos_count_extend: "emit_count_extend i = Some code \<Longrightarrow> gotos code = {}"
  by (auto simp: emit_count_extend_def fragment_defs Let_def split: if_splits option.splits)

lemma gotos_shift: "emit_shift i = Some code \<Longrightarrow> gotos code = {}"
  by (auto simp: emit_shift_def fragment_defs Let_def split: if_splits option.splits)

lemma gotos_rotate: "emit_rotate i = Some code \<Longrightarrow> gotos code = {}"
  by (auto simp: emit_rotate_def fragment_defs Let_def split: if_splits option.splits)

lemma gotos_memory: "emit_memory i = Some code \<Longrightarrow> gotos code = {}"
  by (auto simp: emit_memory_def fragment_defs Let_def split: if_splits option.splits)

lemma gotos_string: "emit_string i = Some code \<Longrightarrow> gotos code = {}"
  by (auto simp: emit_string_def fragment_defs Let_def split: if_splits option.splits)

lemma gotos_reserve_multiple: "emit_reserve_multiple i = Some code \<Longrightarrow> gotos code = {}"
  by (auto simp: emit_reserve_multiple_def fragment_defs Let_def split: if_splits option.splits)

lemma gotos_float_memory: "emit_float_memory i = Some code \<Longrightarrow> gotos code = {}"
  by (auto simp: emit_float_memory_def fragment_defs Let_def split: if_splits option.splits)

lemma gotos_float_arith: "emit_float_arith i = Some code \<Longrightarrow> gotos code = {}"
  by (auto simp: emit_float_arith_def fragment_defs Let_def split: if_splits option.splits)

lemma gotos_float_move: "emit_float_move i = Some code \<Longrightarrow> gotos code = {}"
  by (auto simp: emit_float_move_def fragment_defs Let_def split: if_splits option.splits)

lemma gotos_fpscr_move: "emit_fpscr_move i = Some code \<Longrightarrow> gotos code = {}"
  by (auto simp: emit_fpscr_move_def fragment_defs Let_def split: if_splits option.splits)

lemma gotos_paired_arith: "emit_paired_arith i = Some code \<Longrightarrow> gotos code = {}"
  by (auto simp: emit_paired_arith_def fragment_defs Let_def split: if_splits option.splits)

lemma gotos_paired_sign: "emit_paired_sign i = Some code \<Longrightarrow> gotos code = {}"
  by (auto simp: emit_paired_sign_def fragment_defs Let_def split: if_splits option.splits)

lemma gotos_paired_cross: "emit_paired_cross i = Some code \<Longrightarrow> gotos code = {}"
  by (auto simp: emit_paired_cross_def fragment_defs Let_def split: if_splits option.splits)

lemma gotos_paired_merge: "emit_paired_merge i = Some code \<Longrightarrow> gotos code = {}"
  by (auto simp: emit_paired_merge_def fragment_defs Let_def split: if_splits option.splits)

lemma gotos_cache: "emit_cache i = Some code \<Longrightarrow> gotos code = {}"
  by (auto simp: emit_cache_def fragment_defs Let_def split: if_splits option.splits)

lemma gotos_condition_register: "emit_condition_register i = Some code \<Longrightarrow> gotos code = {}"
  by (auto simp: emit_condition_register_def fragment_defs Let_def split: if_splits option.splits)

lemma gotos_move_register: "emit_move_register i = Some code \<Longrightarrow> gotos code = {}"
  by (auto simp: emit_move_register_def fragment_defs Let_def split: if_splits option.splits)

lemma gotos_barrier_external: "emit_barrier_external i = Some code \<Longrightarrow> gotos code = {}"
  by (auto simp: emit_barrier_external_def fragment_defs Let_def split: if_splits option.splits)

lemma gotos_special: "gotos (emit_mfspr i) = {}" "gotos (emit_mtspr i) = {}" "gotos (emit_fcompare i) = {}"
  by (auto simp: fragment_defs Let_def)

lemma first_case_in: "first_case xs = Some y \<Longrightarrow> Some y \<in> set xs"
  by (induction xs) (auto simp: first_case_Nil first_case_Cons split: option.splits)

definition forward_target :: "PPCInst \<Rightarrow> u32 \<Rightarrow> u32 \<Rightarrow> u32 \<Rightarrow> bool" where
  "forward_target i s e t \<longleftrightarrow> branch_target_is_local s e t \<and> address_of i < t"

lemma gotos_branch: "emit_branch_instruction i s e = Some code \<Longrightarrow> t \<in> gotos code \<Longrightarrow> forward_target i s e t"
  by (auto simp: emit_branch_instruction_def emit_direct_branch_def emit_dynamic_branch_def emit_branch_condition_def
      forward_target_def Let_def split: if_splits)

lemma gotos_instruction:
  assumes "t \<in> gotos (emit_instruction_with_range i s e)"
  shows "forward_target i s e t"
proof -
  have other: "Some code \<in> set (map snd (arms i s e)) \<Longrightarrow> t \<in> gotos code \<Longrightarrow> forward_target i s e t" for code
    using gotos_branch[of i s e code t]
    by (auto simp: arms_def gotos_special dest!: gotos_add_immediate gotos_compare gotos_logical_immediate gotos_add
      gotos_subtract gotos_multiply_divide gotos_logical gotos_count_extend gotos_shift gotos_rotate gotos_memory
      gotos_string gotos_reserve_multiple gotos_float_memory gotos_float_arith gotos_float_move gotos_fpscr_move
      gotos_paired_arith gotos_paired_sign gotos_paired_cross gotos_paired_merge gotos_cache gotos_condition_register
      gotos_move_register gotos_barrier_external dest: sym split: if_splits)
  have guard: "gotos (if p then [only_if c [Return]] else []) = {}" for p c by simp
  from assms show ?thesis
    unfolding emit_instruction_with_range_def switches_arms
    by (auto simp: guard emit_fallback_def split: if_splits option.splits dest!: first_case_in dest: other)
qed

lemma exec_jump_forward:
  assumes "exec m (emit_instruction_with_range i s e) env cpu = Some (Jumps t cpu')"
  shows "forward_target i s e t"
  using exec_gotos[OF assms] gotos_instruction by blast

section \<open>The labels of a function\<close>

text \<open>A section's instructions one word apart, as the driver decodes them, below the end of the address space.\<close>

definition laid_out :: "PPCInst list \<Rightarrow> u32 \<Rightarrow> bool" where
  "laid_out insts func_addr \<longleftrightarrow> unat func_addr + 4 * length insts < 2 ^ 32 \<and>
     (\<forall>k < length insts. address_of (insts ! k) = func_addr + 4 * of_nat k)"

lemma laid_out_address:
  assumes "laid_out insts a" and "k \<le> length insts"
  shows "unat (a + 4 * of_nat k) = unat a + 4 * k"
proof -
  have "unat a + 4 * k < 2 ^ 32" using assms by (simp add: laid_out_def)
  then show ?thesis by (simp add: unat_word_ariths unat_of_nat)
qed

lemma dropWhile_to:
  assumes "k < length xs" and "\<And>j. j < k \<Longrightarrow> P (xs ! j)" and "\<not> P (xs ! k)"
  shows "dropWhile P xs = drop k xs"
  using assms
proof (induction xs arbitrary: k)
  case (Cons x xs)
  show ?case
  proof (cases k)
    case (Suc l)
    with Cons.prems have "P x" by fastforce
    moreover have "dropWhile P xs = drop l xs"
    proof (rule Cons.IH)
      show "P (xs ! j)" if "j < l" for j using Cons.prems(2)[of "Suc j"] that Suc by simp
    qed (use Cons.prems Suc in simp_all)
    ultimately show ?thesis using Suc by simp
  qed (use Cons.prems in simp)
qed simp

lemma labels_at:
  assumes "laid_out insts a" and "k < length insts"
  shows "labels_from (a + 4 * of_nat k) (labels_of (emit_function insts a)) = drop k (labels_of (emit_function insts a))"
proof -
  let ?ls = "labels_of (emit_function insts a)"
  have n: "length ?ls = length insts" and addr: "\<And>j. j < length insts \<Longrightarrow> label_addr (?ls ! j) = a + 4 * of_nat j"
    using assms(1) by (simp_all add: emit_function_def laid_out_def Let_def)
  have "label_addr (?ls ! j) \<noteq> a + 4 * of_nat k" if "j < k" for j
  proof -
    have "unat (a + 4 * of_nat j) < unat (a + 4 * of_nat k)"
      using that assms laid_out_address[OF assms(1), of j] laid_out_address[OF assms(1), of k] by simp
    then show ?thesis using addr[of j] that assms(2) by auto
  qed
  with n addr[OF assms(2)] assms(2) show ?thesis
    unfolding labels_from_def by (intro dropWhile_to) simp_all
qed

lemma func_end:
  assumes "laid_out insts a"
  shows "func_end_of insts a = a + 4 * of_nat (length insts)" "unat (func_end_of insts a) = unat a + 4 * length insts"
  using laid_out_address[OF assms, of "length insts"] by (simp_all add: func_end_of_def mult.commute)

lemma forward_index:
  assumes "laid_out insts a" and "k < length insts"
    and "forward_target (insts ! k) a (func_end_of insts a) t"
  shows "\<exists>j. k < j \<and> j < length insts \<and> t = a + 4 * of_nat j"
proof -
  have t: "a \<le> t" "t < func_end_of insts a" "(t - a) AND 3 = 0" "a + 4 * of_nat k < t"
    using assms by (auto simp: forward_target_def branch_target_is_local_def laid_out_def)
  define d where "d = unat (t - a)"
  have d: "d = unat t - unat a" "unat a \<le> unat t" using t(1) by (simp_all add: d_def unat_sub word_le_nat_alt)
  have "d mod 4 = 0" using t(3) low_bits(2)[of "t - a"] by (simp add: d_def)
  then obtain j where j: "d = 4 * j" by auto
  have "unat t < unat a + 4 * length insts" using t(2) func_end[OF assms(1)] by (simp add: word_less_nat_alt)
  with d j have "j < length insts" by linarith
  moreover have "unat a + 4 * k < unat t"
    using t(4) laid_out_address[OF assms(1), of k] assms(2) by (simp add: word_less_nat_alt)
  with d j have "k < j" by linarith
  moreover have "t = a + 4 * of_nat j"
  proof -
    have "t - a = of_nat d" by (simp add: d_def)
    then show ?thesis using j by (simp add: algebra_simps)
  qed
  ultimately show ?thesis by blast
qed

section \<open>Labels of a function\<close>

abbreviation emitted_code :: "PPCInst list \<Rightarrow> u32 \<Rightarrow> nat \<Rightarrow> cstmt list" where
  "emitted_code insts a k \<equiv> emit_instruction_with_range (insts ! k) a (func_end_of insts a)"

abbreviation charge_at :: "PPCInst list \<Rightarrow> u32 \<Rightarrow> nat \<Rightarrow> u32" where
  "charge_at insts a k \<equiv> charge_of (drop k (zip insts (leaders insts a)))"

text \<open>The CPU once a label has stored its address and charged its block.\<close>

abbreviation entered :: "PPCInst list \<Rightarrow> u32 \<Rightarrow> nat \<Rightarrow> 'e CPUState \<Rightarrow> 'e CPUState" where
  "entered insts a k cpu \<equiv> cpu\<lparr>cpu_pc := a + 4 * of_nat k,
     cpu_downcount := cpu_downcount cpu - ucast (charge_at insts a k)\<rparr>"

lemma run_label:
  assumes "laid_out insts a" and "k < length insts"
  shows "run_labels m (emit_function insts a) (drop k (labels_of (emit_function insts a))) cpu = do {
     e \<leftarrow> exec m (emitted_code insts a k) Map.empty (entered insts a k cpu);
     case e of
       Falls cpu \<Rightarrow> run_labels m (emit_function insts a) (drop (Suc k) (labels_of (emit_function insts a))) cpu
     | Returns cpu \<Rightarrow> Some cpu
     | Jumps t cpu \<Rightarrow> (case labels_from t (labels_of (emit_function insts a)) of
         [] \<Rightarrow> None | ls \<Rightarrow> run_labels m (emit_function insts a) ls cpu) }"
proof -
  let ?ls = "labels_of (emit_function insts a)"
  have "drop k ?ls = ?ls ! k # drop (Suc k) ?ls"
    using assms(2) by (intro Cons_nth_drop_Suc[symmetric]) (simp add: emit_function_def Let_def)
  moreover have "?ls ! k = \<lparr>label_addr = a + 4 * of_nat k, label_charge = charge_at insts a k,
      label_code = emitted_code insts a k\<rparr>"
    using assms by (simp add: emit_function_def laid_out_def Let_def)
  ultimately show ?thesis by (subst run_labels.simps) (simp add: enter_def)
qed

lemma run_end:
  assumes "laid_out insts a"
  shows "run_labels m (emit_function insts a) (drop (length insts) (labels_of (emit_function insts a))) cpu
    = Some (cpu\<lparr>cpu_pc := a + 4 * of_nat (length insts)\<rparr>)"
  using func_end(1)[OF assms] by (subst run_labels.simps) (simp add: emit_function_def Let_def)

lemma run_jump:
  assumes "laid_out insts a" and "k < length insts"
  shows "(case labels_from (a + 4 * of_nat k) (labels_of (emit_function insts a)) of
      [] \<Rightarrow> None | ls \<Rightarrow> run_labels m (emit_function insts a) ls cpu)
    = run_labels m (emit_function insts a) (drop k (labels_of (emit_function insts a))) cpu"
proof -
  have "drop k (labels_of (emit_function insts a)) \<noteq> []"
    using assms(2) by (simp add: emit_function_def Let_def)
  then show ?thesis unfolding labels_at[OF assms] by (simp split: list.split)
qed

lemma function_entry:
  assumes "laid_out insts a"
  shows "(\<exists>k < length insts. cpu_pc cpu = a + 4 * of_nat k \<and> run_function m (emit_function insts a) cpu =
      run_labels m (emit_function insts a) (drop k (labels_of (emit_function insts a))) cpu) \<or>
    (\<forall>k < length insts. cpu_pc cpu \<noteq> a + 4 * of_nat k) \<and> run_function m (emit_function insts a) cpu = Some cpu"
proof (cases "\<exists>k < length insts. cpu_pc cpu = a + 4 * of_nat k")
  case True
  then obtain k where k: "k < length insts" "cpu_pc cpu = a + 4 * of_nat k" by blast
  have "drop k (labels_of (emit_function insts a)) \<noteq> []"
    using k(1) by (simp add: emit_function_def Let_def)
  with k have "run_function m (emit_function insts a) cpu =
      run_labels m (emit_function insts a) (drop k (labels_of (emit_function insts a))) cpu"
    unfolding run_function_def k(2) labels_at[OF assms k(1)] by (simp split: list.split)
  with k show ?thesis by blast
next
  case False
  moreover from False have "labels_from (cpu_pc cpu) (labels_of (emit_function insts a)) = []"
    using assms by (auto simp: labels_from_def emit_function_def Let_def dropWhile_eq_Nil_conv laid_out_def)
  ultimately show ?thesis by (auto simp: run_function_def)
qed

section \<open>A function runs the reference machine\<close>

text \<open>
  In C the register file is an array of 32 words inside the CPU state, which no callback can
  resize; for the lists of the model that is a law of the host.
\<close>

definition host_regular :: "'e PPCHost \<Rightarrow> bool" where
  "host_regular h \<longleftrightarrow>
     (\<forall>cpu addr n. length (gpr (snd (ext_read h cpu addr n))) = length (gpr cpu)) \<and>
     (\<forall>cpu addr v n. length (gpr (ext_write h cpu addr v n)) = length (gpr cpu))"

lemma gpr_ptr_update [simp]: "gpr (ptr_update cpu p b) = gpr cpu"
  by (cases p) simp_all

lemma host_read:
  assumes "host_regular h"
  shows "length (gpr (snd (mem_read32 h cpu a))) = length (gpr cpu)"
    and "length (gpr (snd (mem_read16 h cpu a))) = length (gpr cpu)"
    and "length (gpr (snd (mem_read8 h cpu a))) = length (gpr cpu)"
    and "length (gpr (mem_write32 h cpu a v)) = length (gpr cpu)"
    and "length (gpr (mem_write16 h cpu a w)) = length (gpr cpu)"
    and "length (gpr (mem_write8 h cpu a x)) = length (gpr cpu)"
  using assms by (simp_all add: host_regular_def mem_read32_def mem_read16_def mem_read8_def mem_write32_def
    mem_write16_def mem_write8_def split: option.split)

lemma fold_gpr:
  assumes "\<And>k cpu. length (gpr (f k cpu)) = length (gpr cpu)"
  shows "length (gpr (fold f ks cpu)) = length (gpr cpu)"
  using assms by (induction ks arbitrary: cpu) simp_all

lemma block_gpr:
  assumes "host_regular h"
  shows "length (gpr (load_multiple h d ea cpu)) = length (gpr cpu)"
    and "length (gpr (store_multiple h d ea cpu)) = length (gpr cpu)"
    and "length (gpr (load_string h d ea n cpu)) = length (gpr cpu)"
    and "length (gpr (zero_block h ea cpu)) = length (gpr cpu)"
proof -
  have r32: "mem_read32 h cpu a = (v, cpu') \<Longrightarrow> length (gpr cpu') = length (gpr cpu)" for cpu a v cpu'
    using host_read(1)[OF assms, of cpu a] by simp
  have r8: "mem_read8 h cpu a = (v, cpu') \<Longrightarrow> length (gpr cpu') = length (gpr cpu)" for cpu a v cpu'
    using host_read(3)[OF assms, of cpu a] by simp
  show "length (gpr (load_multiple h d ea cpu)) = length (gpr cpu)"
    "length (gpr (store_multiple h d ea cpu)) = length (gpr cpu)"
    "length (gpr (load_string h d ea n cpu)) = length (gpr cpu)"
    "length (gpr (zero_block h ea cpu)) = length (gpr cpu)"
    unfolding load_multiple_def store_multiple_def load_string_def zero_block_def
    by (rule fold_gpr; auto simp: host_read(4)[OF assms] Let_def dest!: r32 r8 split: prod.splits)+
qed

lemma put_gpr [simp]:
  "length (gpr (put_reg d v cpu)) = length (gpr cpu)" "length (gpr (put_carry c cpu)) = length (gpr cpu)"
  "length (gpr (put_overflow c cpu)) = length (gpr cpu)" "length (gpr (record_if p v cpu)) = length (gpr cpu)"
  "length (gpr (record_cr0 v cpu)) = length (gpr cpu)" "length (gpr (finish_op i d v p cpu)) = length (gpr cpu)"
  "length (gpr (compare_field f x y cpu)) = length (gpr cpu)" "length (gpr (counted i cpu)) = length (gpr cpu)"
  "length (gpr (go_to i t cpu)) = length (gpr cpu)"
  by (simp_all add: put_reg_def put_carry_def put_overflow_def record_if_def record_cr0_def finish_op_def
      compare_field_def counted_def go_to_def Let_def)

lemma memory_gpr:
  assumes "host_regular h" and "isa_memory h i cpu = Some cpu'"
  shows "length (gpr cpu') = length (gpr cpu)"
proof -
  have "length (gpr (snd (read_memory h w al re ea cpu))) = length (gpr cpu)" for w al re ea
    by (auto simp: read_memory_def host_read[OF assms(1)])
  then have "read_memory h w al re ea cpu = (v, cpu1) \<Longrightarrow> length (gpr cpu1) = length (gpr cpu)" for w al re ea v cpu1
    by (metis snd_conv)
  moreover have "length (gpr (write_memory h w re ea v cpu)) = length (gpr cpu)" for w re ea v
    by (auto simp: write_memory_def host_read[OF assms(1)])
  ultimately show ?thesis using assms(2)
    by (auto simp: isa_memory_def Let_def split: option.splits prod.splits if_splits)
qed

lemma ref_step_gpr:
  assumes "host_regular h" and "ref_step h i cpu = Some cpu'"
  shows "length (gpr cpu') = length (gpr cpu)"
proof -
  have plain: "length (gpr cpu1) = length (gpr cpu)" if "isa_plain h i cpu = Some cpu1" for cpu1
  proof -
    have "Some cpu1 \<in> set (map snd (isa_arms h i cpu))" using that unfolding isa_plain_def by (rule first_case_in)
    then consider "isa_sum i cpu = Some cpu1" | "isa_add_immediate i cpu = Some cpu1" | "isa_compare i cpu = Some cpu1"
      | "isa_multiply_divide i cpu = Some cpu1" | "isa_logical i cpu = Some cpu1" | "isa_memory h i cpu = Some cpu1"
      | "isa_block h i cpu = Some cpu1" | "isa_condition_register i cpu = Some cpu1"
      unfolding isa_arms_def by auto
    then show ?thesis
    proof cases
      case 6 then show ?thesis by (rule memory_gpr[OF assms(1)])
    next
      case 7 then show ?thesis by (auto simp: isa_block_def Let_def block_gpr[OF assms(1)] split: if_splits)
    qed (auto simp: isa_sum_def isa_add_immediate_def isa_compare_def isa_multiply_divide_def isa_logical_def
        isa_condition_register_def Let_def split: if_splits option.splits)
  qed
  show ?thesis
  proof (cases "op_f i \<in> set jump_ops")
    case True
    with assms(2) have "isa_branch i cpu = Some cpu'" by (simp add: ref_step_def)
    then show ?thesis by (auto simp: isa_branch_def Let_def split: if_splits)
  next
    case False
    with assms(2) have "map_option (\<lambda>cpu. cpu\<lparr>cpu_pc := address_of i + 4\<rparr>) (isa_plain h i cpu) = Some cpu'"
      unfolding ref_step_def by simp
    with plain show ?thesis by auto
  qed
qed

text \<open>
  The reference machine on a function's instructions: fetch by the program counter, charge the
  block when the instruction starts one, and step.  It stops (\<open>None\<close>) outside the function.
\<close>

definition machine_step :: "'e PPCHost \<Rightarrow> PPCInst list \<Rightarrow> u32 \<Rightarrow> 'e CPUState \<Rightarrow> 'e CPUState option" where
  "machine_step h insts a cpu =
     (let k = unat (cpu_pc cpu - a) div 4
      in if k < length insts \<and> cpu_pc cpu = a + 4 * of_nat k
         then ref_step h (insts ! k) (cpu\<lparr>cpu_downcount := cpu_downcount cpu - ucast (charge_at insts a k)\<rparr>)
         else None)"

primrec machine_run :: "'e PPCHost \<Rightarrow> PPCInst list \<Rightarrow> u32 \<Rightarrow> nat \<Rightarrow> 'e CPUState \<Rightarrow> 'e CPUState option" where
  "machine_run h insts a 0 cpu = Some cpu"
| "machine_run h insts a (Suc n) cpu = Option.bind (machine_step h insts a cpu) (machine_run h insts a n)"

definition all_in_reference :: "PPCInst list \<Rightarrow> bool" where
  "all_in_reference insts \<longleftrightarrow> (\<forall>i \<in> set insts. inst_ok (raw_word i) (address_of i) i \<and> in_reference i)"

lemma machine_step_at:
  assumes "laid_out insts a" and "k < length insts" and "cpu_pc cpu = a + 4 * of_nat k"
  shows "machine_step h insts a cpu = ref_step h (insts ! k) (entered insts a k cpu)"
proof -
  have k: "4 * k < 2 ^ 32" using assms(1,2) by (simp add: laid_out_def)
  have "unat (4 * of_nat k :: u32) = 4 * k" using k by (simp add: unat_word_ariths unat_of_nat)
  moreover have "entered insts a k cpu = cpu\<lparr>cpu_downcount := cpu_downcount cpu - ucast (charge_at insts a k)\<rparr>"
    using assms(3) by (cases cpu) simp
  ultimately show ?thesis using assms(2,3) by (simp only: machine_step_def) simp
qed

lemma run_pc:
  fixes m :: "'e machine" and cpu :: "'e CPUState"
  assumes "laid_out insts a" and "k \<le> length insts"
  shows "run_labels m (emit_function insts a) (drop k (labels_of (emit_function insts a))) (cpu\<lparr>cpu_pc := v\<rparr>)
    = run_labels m (emit_function insts a) (drop k (labels_of (emit_function insts a))) cpu"
proof (cases "k = length insts")
  case True then show ?thesis by (simp add: run_end[OF assms(1)])
next
  case False with assms(2) have "k < length insts" by simp
  then show ?thesis by (simp add: run_label[OF assms(1)])
qed

definition simulates :: "'e machine \<Rightarrow> PPCInst list \<Rightarrow> u32 \<Rightarrow> nat \<Rightarrow> 'e CPUState \<Rightarrow> bool" where
  "simulates m insts a k cpu \<longleftrightarrow> (\<exists>n cpu'. n \<le> length insts - k \<and> (k < length insts \<longrightarrow> 0 < n) \<and>
     run_labels m (emit_function insts a) (drop k (labels_of (emit_function insts a))) cpu = Some cpu' \<and>
     machine_run (host_of m) insts a n cpu = Some cpu')"

lemma simulates_step:
  assumes "laid_out insts a" and "k < length insts" and "cpu_pc cpu = a + 4 * of_nat k"
    and "machine_step (host_of m) insts a cpu = Some cpu1"
    and "run_labels m (emit_function insts a) (drop k (labels_of (emit_function insts a))) cpu =
      run_labels m (emit_function insts a) (drop j (labels_of (emit_function insts a))) cpu1"
    and "k < j" and "j \<le> length insts" and "simulates m insts a j cpu1"
  shows "simulates m insts a k cpu"
proof -
  from assms(8) obtain n cpu' where n: "n \<le> length insts - j"
      "run_labels m (emit_function insts a) (drop j (labels_of (emit_function insts a))) cpu1 = Some cpu'"
      "machine_run (host_of m) insts a n cpu1 = Some cpu'"
    unfolding simulates_def by blast
  have "Suc n \<le> length insts - k" using n(1) assms(2,6,7) by simp
  with n assms(4,5) show ?thesis
    unfolding simulates_def by (intro exI[of _ "Suc n"] exI[of _ cpu']) simp
qed

lemma run_simulates:
  assumes "laid_out insts a" and "all_in_reference insts" and "host_regular (host_of m)"
    and "k \<le> length insts" and "cpu_pc cpu = a + 4 * of_nat k" and "length (gpr cpu) = 32"
  shows "simulates m insts a k cpu"
  using assms(4-6)
proof (induction "length insts - k" arbitrary: k cpu rule: less_induct)
  case less
  show ?case
  proof (cases "k = length insts")
    case True
    then show ?thesis using less.prems(2) by (auto simp: simulates_def run_end[OF assms(1)] intro!: exI[of _ 0])
  next
    case False
    with less.prems(1) have k: "k < length insts" by simp
    let ?i = "insts ! k" and ?cpu = "entered insts a k cpu"
    have i: "inst_ok (raw_word ?i) (address_of ?i) ?i" "in_reference ?i" "address_of ?i = a + 4 * of_nat k"
      using assms(2) nth_mem[OF k] assms(1) k unfolding all_in_reference_def laid_out_def by blast+
    have gprs: "length (gpr ?cpu) = 32" using less.prems(3) by simp
    note ref = exec_ref_step[OF i(1) gprs i(2), of m]
    from ref(1) obtain cpu1 where cpu1: "ref_step (host_of m) ?i ?cpu = Some cpu1" by blast
    have step: "machine_step (host_of m) insts a cpu = Some cpu1"
      using machine_step_at[OF assms(1) k less.prems(2)] cpu1 by simp
    have gpr1: "length (gpr cpu1) = 32" using ref_step_gpr[OF assms(3) cpu1] gprs by simp
    from ref(2)[of a "func_end_of insts a" Map.empty] cpu1 obtain e where
      e: "exec m (emitted_code insts a k) Map.empty ?cpu = Some e" "arrive (address_of ?i + 4) e = cpu1" by auto
    have nxt: "address_of ?i + 4 = a + 4 * of_nat (Suc k)" using i(3) by simp
    show ?thesis
    proof (cases e)
      case (Falls cpu2)
      with e(2) have pc: "cpu1 = cpu2\<lparr>cpu_pc := a + 4 * of_nat (Suc k)\<rparr>" unfolding nxt by (simp add: arrive_def)
      have "simulates m insts a (Suc k) cpu1" using k gpr1 pc by (intro less.hyps) simp_all
      moreover have "run_labels m (emit_function insts a) (drop k (labels_of (emit_function insts a))) cpu =
          run_labels m (emit_function insts a) (drop (Suc k) (labels_of (emit_function insts a))) cpu1"
        using e(1) Falls k pc run_pc[OF assms(1), of "Suc k" m "a + 4 * of_nat (Suc k)" cpu2] by (simp add: run_label[OF assms(1) k])
      ultimately show ?thesis using simulates_step[OF assms(1) k less.prems(2) step] k by simp
    next
      case (Returns cpu2)
      then show ?thesis using e step k
        by (auto simp: simulates_def run_label[OF assms(1) k] arrive_def intro!: exI[of _ 1])
    next
      case (Jumps t cpu2)
      with e(1) have "forward_target ?i a (func_end_of insts a) t" by (simp add: exec_jump_forward)
      then obtain j where j: "k < j" "j < length insts" "t = a + 4 * of_nat j"
        using forward_index[OF assms(1) k] by blast
      have pc: "cpu1 = cpu2\<lparr>cpu_pc := a + 4 * of_nat j\<rparr>" using e(2) Jumps j(3) by (simp add: arrive_def)
      have "simulates m insts a j cpu1" using j gpr1 pc by (intro less.hyps) simp_all
      moreover have "run_labels m (emit_function insts a) (drop k (labels_of (emit_function insts a))) cpu =
          run_labels m (emit_function insts a) (drop j (labels_of (emit_function insts a))) cpu1"
        using e(1) Jumps j pc run_pc[OF assms(1), of j m "a + 4 * of_nat j" cpu2] run_jump[OF assms(1) j(2), of m cpu2]
        by (simp add: run_label[OF assms(1) k])
      ultimately show ?thesis using simulates_step[OF assms(1) k less.prems(2) step _ j(1)] j(2) by simp
    qed
  qed
qed

end
