(* ===== verification/EmitCycles.thy ===== *)
theory EmitCycles
  imports EmitFunction
begin

text \<open>
  Cycle accounting of an emitted function: every block charges the sum of its instructions, and
  without data words every instruction is in exactly one block.
\<close>

section \<open>The block of a list of instructions\<close>

fun block_length :: "(PPCInst \<times> bool) list \<Rightarrow> nat" where
  "block_length [] = 0"
| "block_length ((inst, _) # rest) = Suc
     (if inst_ends_block inst then 0
      else case rest of [] \<Rightarrow> 0 | (_, starts) # _ \<Rightarrow> if starts then 0 else block_length rest)"

lemma block_cost_sum: "block_cost xs = sum_list (map (inst_cycle_cost \<circ> fst) (take (block_length xs) xs))"
proof (induction xs rule: block_length.induct)
  case (2 inst s rest)
  show ?case
  proof (cases rest)
    case (Cons x rest')
    obtain inst' s' where x: "x = (inst', s')" by (cases x)
    from 2[of "(inst', s')" rest' inst' s'] Cons x show ?thesis
      by (cases "inst_ends_block inst \<or> s'") auto
  qed simp
qed simp

lemma block_length_bound: "block_length xs \<le> length xs"
proof (induction xs rule: block_length.induct)
  case (2 inst s rest)
  show ?case
  proof (cases rest)
    case (Cons x rest')
    obtain inst' s' where x: "x = (inst', s')" by (cases x)
    from 2[of "(inst', s')" rest' inst' s'] Cons x show ?thesis
      by (cases "inst_ends_block inst \<or> s'") auto
  qed simp
qed simp

lemma block_positive: "xs \<noteq> [] \<Longrightarrow> 0 < block_length xs"
  by (cases xs) auto

lemma in_block:
  assumes "j < length xs" and "\<And>i. i < j \<Longrightarrow> \<not> inst_ends_block (fst (xs ! i))"
    and "\<And>i. 0 < i \<Longrightarrow> i \<le> j \<Longrightarrow> \<not> snd (xs ! i)"
  shows "j < block_length xs"
  using assms
proof (induction xs arbitrary: j rule: block_length.induct)
  case (2 inst s rest)
  show ?case
  proof (cases j)
    case (Suc l)
    then have inst: "\<not> inst_ends_block inst" using 2(3)[of 0] by simp
    obtain inst' s' rest' where rest: "rest = (inst', s') # rest'" using 2(2) Suc by (cases rest) auto
    have "\<not> s'" using 2(4)[of 1] Suc rest by simp
    moreover have "l < block_length rest"
    proof (rule "2.IH"[OF inst rest refl])
      show "\<not> s'" by fact
      show "l < length rest" using 2(2) Suc by simp
      show "\<not> inst_ends_block (fst (rest ! i))" if "i < l" for i using 2(3)[of "Suc i"] that Suc by simp
      show "\<not> snd (rest ! i)" if "0 < i" "i \<le> l" for i using 2(4)[of "Suc i"] that Suc by simp
    qed
    ultimately show ?thesis using Suc inst rest by simp
  qed simp
qed simp

lemma block_stops:
  assumes "0 < i" and "i < length xs" and "snd (xs ! i)"
  shows "block_length xs \<le> i"
  using assms
proof (induction xs arbitrary: i rule: block_length.induct)
  case (2 inst s rest)
  then obtain l where i: "i = Suc l" by (cases i) auto
  obtain inst' s' rest' where rest: "rest = (inst', s') # rest'" using 2(3) i by (cases rest) auto
  show ?case
  proof (cases "inst_ends_block inst \<or> s'")
    case True then show ?thesis using i rest by auto
  next
    case False
    with 2(4) i rest have "0 < l" by (cases l) auto
    with False 2(1)[of "(inst', s')" rest' inst' s' l] 2(3,4) i rest show ?thesis by auto
  qed
qed simp

section \<open>The flags\<close>

lemma length_mark [simp]: "length (mark_leader a e n inst i l) = length l"
  by (simp add: mark_leader_def Let_def)

lemma set_true: "l ! k \<Longrightarrow> k < length l \<Longrightarrow> l[j := True] ! k"
  by (cases "j = k") simp_all

lemma mark_keeps: "l ! k \<Longrightarrow> k < length l \<Longrightarrow> mark_leader a e n inst i l ! k"
  unfolding mark_leader_def Let_def by (auto intro!: set_true)

lemma mark_next:
  assumes "\<not> embedded_data inst" "inst_ends_block inst" "i + 1 < n" "n \<le> length l"
  shows "mark_leader a e n inst i l ! (i + 1)"
proof -
  have "l[i + 1 := True] ! (i + 1)" "i + 1 < length (l[i + 1 := True])" using assms by simp_all
  with assms show ?thesis unfolding mark_leader_def Let_def by (simp only: if_True simp_thms set_true split: if_split)
qed

lemma leaders_fold:
  assumes "n \<le> length l"
  shows "length (fold (\<lambda>i. mark_leader a e n (insts ! i) i) is l) = length l"
    and "l ! k \<Longrightarrow> k < length l \<Longrightarrow> fold (\<lambda>i. mark_leader a e n (insts ! i) i) is l ! k"
    and "i \<in> set is \<Longrightarrow> \<not> embedded_data (insts ! i) \<Longrightarrow> inst_ends_block (insts ! i) \<Longrightarrow> i + 1 < n \<Longrightarrow>
      fold (\<lambda>i. mark_leader a e n (insts ! i) i) is l ! (i + 1)"
proof -
  show len: "length (fold (\<lambda>i. mark_leader a e n (insts ! i) i) is l) = length l" for "is" l
    by (induction "is" arbitrary: l) simp_all
  show keeps: "fold (\<lambda>i. mark_leader a e n (insts ! i) i) is l ! k" if "l ! k" "k < length l" for "is" l k
    using that by (induction "is" arbitrary: l) (simp_all add: mark_keeps)
  show "fold (\<lambda>i. mark_leader a e n (insts ! i) i) is l ! (i + 1)"
    if "i \<in> set is" "\<not> embedded_data (insts ! i)" "inst_ends_block (insts ! i)" "i + 1 < n"
    using assms that
  proof (induction "is" arbitrary: l)
    case (Cons j js)
    show ?case
    proof (cases "i = j")
      case True
      with Cons.prems show ?thesis by (simp add: keeps mark_next del: One_nat_def)
    qed (use Cons in simp)
  qed simp
qed

lemma length_leaders [simp]: "length (leaders insts a) = length insts"
  by (simp add: leaders_def Let_def leaders_fold(1))

lemma first_leader: "insts \<noteq> [] \<Longrightarrow> leaders insts a ! 0"
  by (simp add: leaders_def Let_def leaders_fold(2))

lemma next_leader:
  assumes "\<not> embedded_data (insts ! i)" "inst_ends_block (insts ! i)" "i + 1 < length insts"
  shows "leaders insts a ! (i + 1)"
  using assms by (auto simp: leaders_def Let_def intro!: leaders_fold(3) simp del: One_nat_def)

text \<open>The index a branch marks is inside the array, whatever the length of the function.\<close>

lemma marked_index:
  assumes "branch_target_is_local a (func_end_of insts a) t"
  shows "unat ((t - a) div 4) < length insts"
proof -
  have t: "a \<le> t" "t < func_end_of insts a" using assms by (simp_all add: branch_target_is_local_def)
  have "t - a < func_end_of insts a - a"
    using t by (simp add: word_less_nat_alt word_le_nat_alt unat_sub)
  then have "unat (t - a) < unat (func_end_of insts a - a)" by (simp add: word_less_nat_alt)
  moreover have "unat (func_end_of insts a - a) \<le> 4 * length insts"
    by (simp add: func_end_of_def unat_word_ariths unat_of_nat mod_mult_left_eq)
  ultimately have "unat (t - a) < 4 * length insts" by simp
  then show ?thesis by (simp add: unat_div)
qed

section \<open>Blocks of a function\<close>

abbreviation flags :: "PPCInst list \<Rightarrow> u32 \<Rightarrow> (PPCInst \<times> bool) list" where
  "flags insts a \<equiv> zip insts (leaders insts a)"

text \<open>Instruction \<open>i\<close> is in the block that starts at \<open>k\<close>.\<close>

definition block_has :: "PPCInst list \<Rightarrow> u32 \<Rightarrow> nat \<Rightarrow> nat \<Rightarrow> bool" where
  "block_has insts a k i \<longleftrightarrow> k \<le> i \<and> leaders insts a ! k \<and> i < k + block_length (drop k (flags insts a))"

lemma charge_sum:
  assumes "k < length insts"
  shows "charge_of (drop k (flags insts a)) = (if leaders insts a ! k
    then \<Sum>i\<leftarrow>[k..<k + block_length (drop k (flags insts a))]. inst_cycle_cost (insts ! i) else 0)"
proof -
  let ?d = "drop k (flags insts a)" and ?n = "block_length (drop k (flags insts a))"
  have head: "?d = (insts ! k, leaders insts a ! k) # drop (Suc k) (flags insts a)"
    using assms by (simp add: Cons_nth_drop_Suc[symmetric])
  have "k + ?n \<le> length insts" using block_length_bound[of ?d] assms by simp
  then have "map (inst_cycle_cost \<circ> fst) (take ?n ?d) = map (\<lambda>i. inst_cycle_cost (insts ! i)) [k..<k + ?n]"
    by (intro nth_equalityI) simp_all
  with block_cost_sum[of ?d] have "block_cost ?d = (\<Sum>i\<leftarrow>[k..<k + ?n]. inst_cycle_cost (insts ! i))" by simp
  then show ?thesis using head by (simp add: charge_of_def)
qed

lemma block_exists:
  assumes "\<And>j. j < i \<Longrightarrow> \<not> embedded_data (insts ! j)" and "i < length insts"
  shows "\<exists>k. block_has insts a k i"
proof -
  define k where "k = Max {k. k \<le> i \<and> leaders insts a ! k}"
  have set: "finite {k. k \<le> i \<and> leaders insts a ! k}" "0 \<in> {k. k \<le> i \<and> leaders insts a ! k}"
    using assms(2) first_leader[of insts a] by (fastforce, simp, metis length_greater_0_conv less_nat_zero_code neq0_conv)
  then have k: "k \<le> i" "leaders insts a ! k" using Max_in[OF set(1)] set(2) unfolding k_def by blast+
  have later: "\<not> leaders insts a ! j" if "k < j" "j \<le> i" for j
  proof
    assume "leaders insts a ! j"
    with that(2) have "j \<le> k" unfolding k_def by (intro Max_ge[OF set(1)]) simp
    with that(1) show False by simp
  qed
  have "i - k < block_length (drop k (flags insts a))"
  proof (rule in_block)
    show "i - k < length (drop k (flags insts a))" using assms(2) k(1) by simp
    show "\<not> inst_ends_block (fst (drop k (flags insts a) ! j))" if "j < i - k" for j
    proof
      assume "inst_ends_block (fst (drop k (flags insts a) ! j))"
      then have "inst_ends_block (insts ! (k + j))" using that assms(2) by simp
      with next_leader[of insts "k + j" a] assms that have "leaders insts a ! (k + j + 1)" by simp
      with later[of "k + j + 1"] that show False by simp
    qed
    show "\<not> snd (drop k (flags insts a) ! j)" if "0 < j" "j \<le> i - k" for j
      using later[of "k + j"] that assms(2) by simp
  qed
  with k show ?thesis unfolding block_has_def by (intro exI[of _ k]) simp
qed

lemma block_unique:
  assumes "block_has insts a k i" and "block_has insts a l i" and "i < length insts"
  shows "k = l"
proof (rule ccontr)
  have disjoint: False if "block_has insts a k i" "block_has insts a l i" "k < l" for k l
  proof -
    have "l < length insts" using that(2) assms(3) by (simp add: block_has_def)
    then have "block_length (drop k (flags insts a)) \<le> l - k"
      using that by (intro block_stops) (simp_all add: block_has_def)
    moreover have "i < k + block_length (drop k (flags insts a))" "l \<le> i" using that by (simp_all add: block_has_def)
    ultimately show False using that(3) by linarith
  qed
  assume "k \<noteq> l"
  then show False using disjoint[OF assms(1,2)] disjoint[OF assms(2,1)] by linarith
qed

section \<open>What a label charges\<close>

lemma filter_interval: "k + n \<le> m \<Longrightarrow> filter (\<lambda>j. k \<le> j \<and> j < k + n) [0..<m] = [k..<k + n]"
proof -
  assume m: "k + n \<le> m"
  have "[0..<m] = [0..<k] @ [k..<k + n] @ [k + n..<m]"
    using m upt_add_eq_append[of 0 k "m - k"] upt_add_eq_append[of k "k + n" "m - (k + n)"] by simp
  then show ?thesis by (simp add: filter_empty_conv)
qed

lemma label_charge_at:
  "k < length insts \<Longrightarrow> label_charge (labels_of (emit_function insts a) ! k) = charge_of (drop k (flags insts a))"
  by (simp add: emit_function_def Let_def)

lemma charge_of_block:
  assumes "block_has insts a k i" and "i < length insts"
  shows "label_charge (labels_of (emit_function insts a) ! k) =
    (\<Sum>j\<leftarrow>filter (block_has insts a k) [0..<length insts]. inst_cycle_cost (insts ! j))"
proof -
  let ?n = "block_length (drop k (flags insts a))"
  have k: "k < length insts" "leaders insts a ! k" using assms by (simp_all add: block_has_def)
  have "k + ?n \<le> length insts" using block_length_bound[of "drop k (flags insts a)"] k(1) by simp
  moreover have "block_has insts a k = (\<lambda>j. k \<le> j \<and> j < k + ?n)" using k(2) by (auto simp: block_has_def)
  ultimately show ?thesis using k by (simp add: label_charge_at charge_sum filter_interval)
qed

end
