(* ===== verification/EmitTables.thy ===== *)
theory EmitTables
  imports EmitProgram EmitCycles
begin

text \<open>
  The tables of emitter.c that decide where a block ends and what it costs know exactly the
  instructions whose emitted code is the fallback call and a return.
\<close>

section \<open>Code that is not a fallback\<close>

definition falls_back :: "cstmt list \<Rightarrow> bool" where
  "falls_back code \<longleftrightarrow> (case code of Do (Call c_fallback_instruction args) # rest \<Rightarrow> True | _ \<Rightarrow> False)"

lemma falls_back_fallback: "falls_back (emit_fallback i)"
  by (simp add: falls_back_def emit_fallback_def)

lemma no_fallback_add_immediate: "emit_add_immediate i = Some code \<Longrightarrow> \<not> falls_back code"
  by (auto simp: emit_add_immediate_def fragment_defs falls_back_def Let_def split: if_splits)

lemma no_fallback_compare: "emit_compare i = Some code \<Longrightarrow> \<not> falls_back code"
  by (auto simp: emit_compare_def fragment_defs falls_back_def Let_def split: if_splits)

lemma no_fallback_logical_immediate: "emit_logical_immediate i = Some code \<Longrightarrow> \<not> falls_back code"
  by (auto simp: emit_logical_immediate_def fragment_defs falls_back_def Let_def split: if_splits)

lemma no_fallback_add: "emit_add i = Some code \<Longrightarrow> \<not> falls_back code"
  by (auto simp: emit_add_def fragment_defs falls_back_def Let_def split: if_splits)

lemma no_fallback_subtract: "emit_subtract i = Some code \<Longrightarrow> \<not> falls_back code"
  by (auto simp: emit_subtract_def fragment_defs falls_back_def Let_def split: if_splits)

lemma no_fallback_multiply_divide: "emit_multiply_divide i = Some code \<Longrightarrow> \<not> falls_back code"
  by (auto simp: emit_multiply_divide_def fragment_defs falls_back_def Let_def split: if_splits)

lemma no_fallback_logical: "emit_logical i = Some code \<Longrightarrow> \<not> falls_back code"
  by (auto simp: emit_logical_def fragment_defs falls_back_def Let_def split: if_splits)

lemma no_fallback_count_extend: "emit_count_extend i = Some code \<Longrightarrow> \<not> falls_back code"
  by (auto simp: emit_count_extend_def fragment_defs falls_back_def Let_def split: if_splits)

lemma no_fallback_shift: "emit_shift i = Some code \<Longrightarrow> \<not> falls_back code"
  by (auto simp: emit_shift_def fragment_defs falls_back_def Let_def split: if_splits)

lemma no_fallback_rotate: "emit_rotate i = Some code \<Longrightarrow> \<not> falls_back code"
  by (auto simp: emit_rotate_def fragment_defs falls_back_def Let_def split: if_splits)

lemma no_fallback_memory: "emit_memory i = Some code \<Longrightarrow> \<not> falls_back code"
  by (auto simp: emit_memory_def fragment_defs falls_back_def Let_def split: if_splits)

lemma no_fallback_string: "emit_string i = Some code \<Longrightarrow> \<not> falls_back code"
  by (auto simp: emit_string_def fragment_defs falls_back_def Let_def split: if_splits)

lemma no_fallback_reserve_multiple: "emit_reserve_multiple i = Some code \<Longrightarrow> \<not> falls_back code"
  by (auto simp: emit_reserve_multiple_def fragment_defs falls_back_def Let_def split: if_splits)

lemma no_fallback_float_memory: "emit_float_memory i = Some code \<Longrightarrow> \<not> falls_back code"
  by (auto simp: emit_float_memory_def fragment_defs falls_back_def Let_def split: if_splits)

lemma no_fallback_float_arith: "emit_float_arith i = Some code \<Longrightarrow> \<not> falls_back code"
  by (auto simp: emit_float_arith_def fragment_defs falls_back_def Let_def split: if_splits)

lemma no_fallback_float_move: "emit_float_move i = Some code \<Longrightarrow> \<not> falls_back code"
  by (auto simp: emit_float_move_def fragment_defs falls_back_def Let_def split: if_splits)

lemma no_fallback_fpscr_move: "emit_fpscr_move i = Some code \<Longrightarrow> \<not> falls_back code"
  by (auto simp: emit_fpscr_move_def fragment_defs falls_back_def Let_def split: if_splits)

lemma no_fallback_paired_arith: "emit_paired_arith i = Some code \<Longrightarrow> \<not> falls_back code"
  by (auto simp: emit_paired_arith_def fragment_defs falls_back_def Let_def split: if_splits)

lemma no_fallback_paired_sign: "emit_paired_sign i = Some code \<Longrightarrow> \<not> falls_back code"
  by (auto simp: emit_paired_sign_def fragment_defs falls_back_def Let_def split: if_splits)

lemma no_fallback_paired_cross: "emit_paired_cross i = Some code \<Longrightarrow> \<not> falls_back code"
  by (auto simp: emit_paired_cross_def fragment_defs falls_back_def Let_def split: if_splits)

lemma no_fallback_paired_merge: "emit_paired_merge i = Some code \<Longrightarrow> \<not> falls_back code"
  by (auto simp: emit_paired_merge_def fragment_defs falls_back_def Let_def split: if_splits)

lemma no_fallback_condition_register: "emit_condition_register i = Some code \<Longrightarrow> \<not> falls_back code"
  by (auto simp: emit_condition_register_def fragment_defs falls_back_def Let_def split: if_splits)

lemma no_fallback_move_register: "emit_move_register i = Some code \<Longrightarrow> \<not> falls_back code"
  by (auto simp: emit_move_register_def fragment_defs falls_back_def Let_def split: if_splits)

lemma no_fallback_barrier_external: "emit_barrier_external i = Some code \<Longrightarrow> \<not> falls_back code"
  by (auto simp: emit_barrier_external_def fragment_defs falls_back_def Let_def split: if_splits)

lemma no_fallback_branch: "emit_branch_instruction i s e = Some code \<Longrightarrow> \<not> falls_back code"
  by (auto simp: emit_branch_instruction_def emit_direct_branch_def emit_dynamic_branch_def emit_branch_condition_def
      falls_back_def Let_def split: if_splits)

lemma fallback_cache:
  "emit_cache i = Some code \<Longrightarrow>
   falls_back code \<longleftrightarrow> op_f i \<in> {PPC_OP_DCBST, PPC_OP_DCBF, PPC_OP_DCBI, PPC_OP_ICBI}"
  by (auto simp: emit_cache_def fragment_defs falls_back_def Let_def split: if_splits)

lemma fallback_special:
  "falls_back (emit_mfspr i) \<longleftrightarrow> \<not> mfspr_is_modeled (spr_f i)"
  "falls_back (emit_mtspr i) \<longleftrightarrow> \<not> mtspr_is_modeled (spr_f i)"
  "\<not> falls_back (emit_fcompare i)"
  by (auto simp: emit_mfspr_def emit_mtspr_def emit_fcompare_def emit_fallback_def mfspr_is_modeled_def
      mtspr_is_modeled_def falls_back_def Let_def)

section \<open>The tables\<close>

abbreviation fallback_ops :: "PPCOpcode list" where
  "fallback_ops \<equiv> [PPC_OP_DCBST, PPC_OP_DCBF, PPC_OP_DCBI, PPC_OP_ICBI, PPC_OP_UNKNOWN, PPC_OP_MFSPR, PPC_OP_MTSPR]"

lemma routes_ops: "inst_routes_to_fallback i \<Longrightarrow> op_f i \<in> set fallback_ops"
  by (auto simp: inst_routes_to_fallback_def Let_def split: if_splits)

lemma routes_code:
  assumes "\<not> embedded_data i" and "inst_routes_to_fallback i"
  shows "emit_instruction_with_range i s e = emit_fallback i"
proof -
  have guard: "fp_guard i = []"
    using routes_ops[OF assms(2)] by (auto simp: fp_guard_def ppc_op_uses_fpu_def)
  have special: "emit_mfspr i = emit_fallback i" if "\<not> mfspr_is_modeled (spr_f i)"
    using that by (simp add: emit_mfspr_def mfspr_is_modeled_def Let_def)
  have special': "emit_mtspr i = emit_fallback i" if "\<not> mtspr_is_modeled (spr_f i)"
    using that by (simp add: emit_mtspr_def mtspr_is_modeled_def Let_def)
  from routes_ops[OF assms(2)] consider "op_f i \<in> {PPC_OP_DCBST, PPC_OP_DCBF, PPC_OP_DCBI, PPC_OP_ICBI}"
    | "op_f i = PPC_OP_UNKNOWN" | "op_f i = PPC_OP_MFSPR" | "op_f i = PPC_OP_MTSPR" by auto
  then show ?thesis
  proof cases
    case 1
    then have op: "op_f i \<in> set cache_ops" and "emit_cache i = Some (emit_fallback i)" by (auto simp: emit_cache_def)
    then show ?thesis
      using emit_by_arm[OF assms(1) _ op, of "emit_cache i" s e] guard by (simp add: arms_def)
  next
    case 2
    then have "first_case (map snd (arms i s e)) = None" using emit_unknown[OF assms(1)] by simp
    then show ?thesis
      using assms(1) 2 by (simp add: emit_instruction_with_range_def switches_arms ppc_op_uses_fpu_def)
  next
    case 3
    then have op: "op_f i \<in> set [PPC_OP_MFSPR, PPC_OP_MTSPR]" by simp
    from 3 assms(2) have "\<not> mfspr_is_modeled (spr_f i)" by (simp add: inst_routes_to_fallback_def)
    then show ?thesis
      using emit_by_arm[OF assms(1) _ op, of "Some (emit_mfspr i)" s e] guard 3 special by (simp add: arms_def)
  next
    case 4
    then have op: "op_f i \<in> set [PPC_OP_MFSPR, PPC_OP_MTSPR]" by simp
    from 4 assms(2) have "\<not> mtspr_is_modeled (spr_f i)" by (simp add: inst_routes_to_fallback_def)
    then show ?thesis
      using emit_by_arm[OF assms(1) _ op, of "Some (emit_mtspr i)" s e] guard 4 special' by (simp add: arms_def)
  qed
qed

lemma arm_routes:
  assumes "Some code \<in> set (map snd (arms i s e))" and "falls_back code"
  shows "inst_routes_to_fallback i"
proof -
  have "emit_cache i = Some code \<or> op_f i = PPC_OP_MFSPR \<and> code = emit_mfspr i \<or>
      op_f i = PPC_OP_MTSPR \<and> code = emit_mtspr i"
    using assms fallback_special(3)
    by (auto simp: arms_def dest!: no_fallback_add_immediate no_fallback_compare no_fallback_logical_immediate
      no_fallback_add no_fallback_subtract no_fallback_multiply_divide no_fallback_logical no_fallback_count_extend
      no_fallback_shift no_fallback_rotate no_fallback_memory no_fallback_string no_fallback_reserve_multiple
      no_fallback_float_memory no_fallback_float_arith no_fallback_float_move no_fallback_fpscr_move
      no_fallback_paired_arith no_fallback_paired_sign no_fallback_paired_cross no_fallback_paired_merge
      no_fallback_condition_register no_fallback_move_register no_fallback_barrier_external no_fallback_branch
      dest: sym split: if_splits)
  then show ?thesis
    using assms(2) fallback_cache[of i code] fallback_special(1,2)[of i]
    by (auto simp: inst_routes_to_fallback_def Let_def)
qed

lemma fallback_exact:
  assumes "\<not> embedded_data i" and "op_f i < PPC_OP_COUNT"
  shows "emit_instruction_with_range i s e = emit_fallback i \<longleftrightarrow> inst_routes_to_fallback i"
proof
  assume emit: "emit_instruction_with_range i s e = emit_fallback i"
  have plain: "\<not> ppc_op_uses_fpu (op_f i)"
    using emit assms(1) by (auto simp: emit_instruction_with_range_def emit_fallback_def)
  show "inst_routes_to_fallback i"
  proof (cases "first_case (map snd (arms i s e))")
    case None
    then show ?thesis using emit_unknown[OF assms] by (simp add: inst_routes_to_fallback_def)
  next
    case (Some code)
    with emit assms(1) plain have "falls_back code"
      using falls_back_fallback[of i] by (simp add: emit_instruction_with_range_def switches_arms)
    with arm_routes[OF first_case_in[OF Some]] show ?thesis by blast
  qed
qed (rule routes_code[OF assms(1)])

end
