(* ===== verification/EmitDefined.thy ===== *)
theory EmitDefined
  imports EmitTables
begin

text \<open>
  Emitted code never runs into undefined behaviour and never loops: for every decoded instruction,
  in every CPU state, the emitted statements run to an exit.
\<close>

section \<open>System instructions\<close>

definition returns :: "'e machine \<Rightarrow> cstmt list \<Rightarrow> locals \<Rightarrow> 'e CPUState \<Rightarrow> bool" where
  "returns m code env cpu \<longleftrightarrow> exec m code env cpu \<noteq> None"

lemma segment_bound: "unat (w AND 15 :: u32) < 16"
proof -
  have "(15 :: u32) = mask 4" by (simp add: mask_eq_decr_exp)
  then have "w AND 15 = take_bit 4 w" by (simp only: take_bit_eq_mask)
  then show ?thesis by (simp only: unsigned_take_bit_eq) (simp add: take_bit_eq_mod)
qed

lemma returns_move:
  assumes "registers_ok i" "sr_f i < 16" "emit_move_register i = Some code"
  shows "returns m code env cpu"
proof -
  have sr: "unat (sr_f i) < 16" using assms(2) by (simp add: word_less_nat_alt)
  show ?thesis
    using assms(3) registers_ok[OF assms(1)] sr segment_bound
    by (auto simp: returns_def emit_move_register_def run Let_def split: if_splits prod.splits)
qed

lemma returns_spr:
  assumes "registers_ok i"
  shows "returns m (emit_mfspr i) env cpu" "returns m (emit_mtspr i) env cpu"
  using registers_ok[OF assms]
  by (auto simp: returns_def emit_mfspr_def emit_mtspr_def emit_fallback_def run Let_def split: if_splits prod.splits)

lemma returns_barrier:
  assumes "registers_ok i" "emit_barrier_external i = Some code"
  shows "returns m code env cpu"
  using assms(2) registers_ok[OF assms(1)]
  by (auto simp: emit_barrier_external_def eval_xform_ea apfst_def map_prod_def returns_def run Let_def split: if_splits prod.splits)

lemma returns_cache:
  assumes "registers_ok i" "emit_cache i = Some code"
  shows "returns m code env cpu"
proof (cases "op_f i = PPC_OP_DCBZ")
  case True
  then show ?thesis using assms(2) registers_ok[OF assms(1)] exec_zero_block[OF _ _ True, of m env cpu]
    by (simp add: emit_cache_def returns_def isa_block_def)
next
  case False
  then show ?thesis using assms(2) registers_ok[OF assms(1)]
    by (auto simp: emit_cache_def emit_trap_def emit_fallback_def eval_xform_ea apfst_def map_prod_def returns_def run Let_def
        split: if_splits prod.splits)
qed

section \<open>Floating point\<close>

lemma returns_float_calls:
  assumes "emit_float_arith i = Some code \<or> emit_paired_arith i = Some code \<or> emit_paired_cross i = Some code"
  shows "returns m code env cpu"
  using assms
  by (auto simp: returns_def emit_float_arith_def emit_paired_arith_def emit_paired_cross_def fp_call_def record_cr1_def
      emit_set_cr1_from_fpscr_def run Let_def split: if_splits prod.splits)

text \<open>A storage instruction that a runtime function does, with a test of whether it faulted.\<close>

lemma returns_guarded:
  assumes "a < 32" and "eval m env e cpu = Some (VU32 ea, cpu)"
    and "\<And>env. env ''ea'' = Some (VU32 ea) \<Longrightarrow> \<exists>r. eval m env call cpu = Some r"
  shows "returns m ([Decl U32 ''ea'' e, only_if (Lnot call) [Return]] @ (if u then [set_gpr a ea_local] else [])) env cpu"
proof -
  obtain v cpu' where "eval m (env(''ea'' \<mapsto> VU32 ea)) call cpu = Some (v, cpu')"
    using assms(3)[of "env(''ea'' \<mapsto> VU32 ea)"] by auto
  with assms(1,2) register_index[OF assms(1)] show ?thesis by (simp add: returns_def run)
qed

lemma lfs_returns: "\<exists>r. ppc_lfs_op h cpu d ea cia = Some r"
proof -
  obtain w cpu' where "mem_read32 h cpu ea = (w, cpu')" by force
  moreover obtain y where "convert_to_double w = Some y" using single_double_identity[of w] by blast
  ultimately show ?thesis by (simp add: ppc_lfs_op_def del: split_paired_Ex)
qed

lemma storage_calls:
  assumes "env ''ea'' = Some (VU32 ea)"
  shows "\<exists>r. eval m env (Call (if single then c_lfs_op else c_lfd_op) [unum d, ea_local, unum cia]) cpu = Some r"
    and "\<exists>r. eval m env (Call (if single then c_stfs_op else c_stfd_op) [unum d, ea_local, unum cia]) cpu = Some r"
    and "\<exists>r. eval m env (Call (c_helper f) [unum d, ea_local, bool_lit w, unum k, bool_lit x, unum cia]) cpu = Some r"
  using assms lfs_returns[of "host_of m" cpu "unat d" ea cia] by (auto simp: run)

lemma returns_float_memory:
  assumes "registers_ok i" "emit_float_memory i = Some code"
  shows "returns m code env cpu"
proof -
  note r = registers_ok[OF assms(1)]
  have a: "rA_f i < 32" "rB_f i < 32" using r by simp_all
  note d = returns_guarded[OF a(1) eval_dform_ea[OF a(1)]] and x = returns_guarded[OF a(1) eval_xform_ea[OF a]]
  have F0: "returns m (emit_fload i s u) env cpu" for s u
    unfolding emit_fload_def by (rule d, rule storage_calls(1))
  have F1: "returns m (emit_floadx i s u) env cpu" for s u
    unfolding emit_floadx_def by (rule x, rule storage_calls(1))
  have F2: "returns m (emit_fstore i s u) env cpu" for s u
    unfolding emit_fstore_def by (rule d, rule storage_calls(2))
  have F3: "returns m (emit_fstorex i s u) env cpu" for s u
    unfolding emit_fstorex_def by (rule x, rule storage_calls(2))
  have F4: "returns m (emit_psq_load i y u) env cpu" for u y
    unfolding emit_psq_load_def by (cases y; simp only: if_True if_False; rule d x, rule storage_calls(3))
  have F5: "returns m (emit_psq_store i y u) env cpu" for u y
    unfolding emit_psq_store_def by (cases y; simp only: if_True if_False; rule d x, rule storage_calls(3))
  have "returns m [Decl U32 ''ea'' (emit_xform_ea (rA_f i) (rB_f i) False),
      Do (Call c_mem_write32 [ea_local, Cast U32 (Call c_f64_to_bits [fpr_at (rS_f i)])])] env cpu"
    using r by (simp add: returns_def run eval_xform_ea)
  with assms(2) F0 F1 F2 F3 F4 F5 show ?thesis by (auto simp: emit_float_memory_def Let_def split: if_splits)
qed

lemma returns_float_move:
  assumes "registers_ok i" "rC_f i < 32" "emit_float_move i = Some code \<or> emit_paired_sign i = Some code \<or> emit_paired_merge i = Some code"
  shows "returns m code env cpu"
  using assms(3) registers_ok[OF assms(1)] register_index[OF assms(2)]
  by (auto simp: returns_def emit_float_move_def emit_paired_sign_def emit_paired_merge_def with_bits_def fp_call_def
      record_cr1_def emit_set_cr1_from_fpscr_def run Let_def split: if_splits prod.splits)

section \<open>Loops\<close>

text \<open>A counted loop whose rounds either leave the code or go on.\<close>

lemma returns_counted:
  fixes cpu :: "'e CPUState"
  assumes "lo \<le> hi" and "E lo env"
    and condition: "\<And>k env (cpu :: 'e CPUState). k \<le> hi \<Longrightarrow> E k env \<Longrightarrow> \<exists>v. eval m env c cpu = Some (v, cpu) \<and> (truth v \<longleftrightarrow> k < hi)"
    and kept: "\<And>k env. k < hi \<Longrightarrow> E k env \<Longrightarrow> E (Suc k) (g k env)"
    and round: "\<And>k env cpu R. k < hi \<Longrightarrow> E k env \<Longrightarrow>
      returns m (body @ R) env cpu \<or> (\<exists>cpu' :: 'e CPUState. exec m (body @ R) env cpu = exec m R (g k env) cpu')"
    and rest: "\<And>env (cpu :: 'e CPUState). E hi env \<Longrightarrow> returns m rest env cpu"
  shows "returns m (While c body # rest) env cpu"
  using assms(1,2)
proof (induction "hi - lo" arbitrary: lo env cpu)
  case (0 lo env cpu)
  then have lo: "lo = hi" "E hi env" by simp_all
  then obtain v where "eval m env c cpu = Some (v, cpu)" "\<not> truth v" using condition[of lo env cpu] by auto
  with rest[OF lo(2), of cpu] show ?case unfolding returns_def by (subst exec_While) simp
next
  case (Suc d lo env cpu)
  from Suc.hyps(2) have lo: "lo < hi" by simp
  obtain v where v: "eval m env c cpu = Some (v, cpu)" "truth v" using condition[OF Suc.prems] lo by blast
  from round[OF lo Suc.prems(2), of "While c body # rest" cpu]
  have "returns m (body @ While c body # rest) env cpu"
  proof
    assume "\<exists>cpu'. exec m (body @ While c body # rest) env cpu = exec m (While c body # rest) (g lo env) cpu'"
    then obtain cpu' where "exec m (body @ While c body # rest) env cpu = exec m (While c body # rest) (g lo env) cpu'"
      by blast
    moreover have "returns m (While c body # rest) (g lo env) cpu'"
      using Suc.hyps lo kept[OF lo Suc.prems(2)] by (intro Suc.hyps(1)) auto
    ultimately show ?thesis by (simp add: returns_def)
  qed
  with v show ?case unfolding returns_def by (subst exec_While) simp
qed

lemma small_count: "unat (w AND 0x7F :: u32) < 128"
proof -
  have "(0x7F :: u32) = mask 7" by (simp add: mask_eq_decr_exp)
  then have "w AND 0x7F = take_bit 7 w" by (simp only: take_bit_eq_mask)
  then show ?thesis by (simp only: unsigned_take_bit_eq) (simp add: take_bit_eq_mod)
qed

lemma returns_string:
  assumes "registers_ok i" "emit_string i = Some code"
  shows "returns m code env cpu"
proof -
  note r = registers_ok[OF assms(1)]
  consider "op_f i = PPC_OP_LSWI" | "op_f i = PPC_OP_LSWX" | "op_f i = PPC_OP_STSWI \<or> op_f i = PPC_OP_STSWX"
    using assms(2) emit_string_arm[of i] by auto
  then show ?thesis
  proof cases
    case 1
    then show ?thesis using exec_load_string[OF _ _ 1, of m env cpu] r assms(2) by (simp add: returns_def isa_block_def)
  next
    case 3
    then show ?thesis using assms(2) r
      by (auto simp: emit_string_def returns_def run Let_def)
  next
    case 2
    define n where "n = cpu_xer cpu AND 0x7F"
    have small: "unat n < 256" using small_count[of "cpu_xer cpu"] unfolding n_def by linarith
    define ea where "ea = (if rA_f i \<noteq> 0 then reg cpu (rB_f i) + reg cpu (rA_f i) else reg cpu (rB_f i))"
    define count where "count = unat ((n + 3) div 4)"
    let ?load = "Decl U32 ''n'' (num 0) # While (Bin Lt (Local ''n'') (Local ''count''))
      (string_body (rD_f i) @ [SetLocal ''n'' (Bin Add (Local ''n'') (num 1))]) # []"
    let ?check = "[Decl U32 ''reg'' (Bin BitAnd (Bin Add (unum (ucast (rD_f i))) (Local ''r'')) (unum 31)),
      only_if (Disj (Bin Eq (Local ''reg'') (unum (ucast (rA_f i)))) (Bin Eq (Local ''reg'') (unum (ucast (rB_f i)))))
        [Do (Call c_program_exception [unum PPC_PROGRAM_ILLEGAL, cia_at i]), Return]]
      @ [SetLocal ''r'' (Bin Add (Local ''r'') (num 1))]"
    let ?env = "env(''ea'' \<mapsto> VU32 ea, ''count'' \<mapsto> VU32 n, ''reg_count'' \<mapsto> VU32 ((n + 3) div 4), ''r'' \<mapsto> VU32 0)"
    have "exec m code env cpu = exec m (While (Bin Lt (Local ''r'') (Local ''reg_count'')) ?check # ?load) ?env cpu"
      using assms(2) 2 r by (auto simp: emit_string_def ea_def n_def reg_def run Let_def fun_upd_twist simp del: exec_SetElem)
    moreover have "returns m (While (Bin Lt (Local ''r'') (Local ''reg_count'')) ?check # ?load) ?env cpu"
    proof (rule returns_counted[where hi = count and lo = 0 and g = "\<lambda>k env. env(''reg'' \<mapsto>
          VU32 ((ucast (rD_f i) + of_nat k) AND 31), ''r'' \<mapsto> VU32 (of_nat (Suc k)))"
        and E = "\<lambda>k env. env ''r'' = Some (VU32 (of_nat k)) \<and> env ''reg_count'' = Some (VU32 ((n + 3) div 4)) \<and>
          env ''ea'' = Some (VU32 ea) \<and> env ''count'' = Some (VU32 n)"])
      show "\<exists>v. eval m env (Bin Lt (Local ''r'') (Local ''reg_count'')) cpu = Some (v, cpu) \<and> (truth v \<longleftrightarrow> k < count)"
        if "k \<le> count" "env ''r'' = Some (VU32 (of_nat k)) \<and> env ''reg_count'' = Some (VU32 ((n + 3) div 4)) \<and>
          env ''ea'' = Some (VU32 ea) \<and> env ''count'' = Some (VU32 n)" for k env and cpu :: "'a CPUState"
      proof -
        have "count < 2 ^ 32" using unsigned_less[of "(n + 3) div 4"] by (simp add: count_def)
        then have "unat (of_nat k :: u32) = k" using that(1) by (simp add: unat_of_nat)
        then show ?thesis using that(2) by (simp add: run word_less_nat_alt count_def)
      qed
      show "returns m ?load env cpu" if "env ''r'' = Some (VU32 (of_nat count)) \<and>
          env ''reg_count'' = Some (VU32 ((n + 3) div 4)) \<and> env ''ea'' = Some (VU32 ea) \<and> env ''count'' = Some (VU32 n)"
        for env and cpu :: "'a CPUState"
      proof -
        show ?thesis unfolding returns_def using that r small by (subst exec_string_loop[where ea = ea and n = n]) auto
      qed
      show "returns m (?check @ R) env cpu \<or> (\<exists>cpu'. exec m (?check @ R) env cpu = exec m R (env(''reg'' \<mapsto>
          VU32 ((ucast (rD_f i) + of_nat k) AND 31), ''r'' \<mapsto> VU32 (of_nat (Suc k)))) cpu')"
        if "env ''r'' = Some (VU32 (of_nat k)) \<and> env ''reg_count'' = Some (VU32 ((n + 3) div 4)) \<and>
          env ''ea'' = Some (VU32 ea) \<and> env ''count'' = Some (VU32 n)" for k env R and cpu :: "'a CPUState"
        using that
        by (cases "(ucast (rD_f i) + of_nat k) AND 31 = (ucast (rA_f i) :: u32) \<or>
            (ucast (rD_f i) + of_nat k) AND 31 = (ucast (rB_f i) :: u32)")
          (auto simp: returns_def run add.commute[of _ 1])
    qed simp_all
    ultimately show ?thesis by (simp add: returns_def)
  qed
qed

lemma returns_reserve:
  assumes "registers_ok i" "emit_reserve_multiple i = Some code"
  shows "returns m code env cpu"
proof -
  note r = registers_ok[OF assms(1)]
  consider "op_f i = PPC_OP_LMW" | "op_f i = PPC_OP_STMW" | "op_f i = PPC_OP_LWARX" | "op_f i = PPC_OP_STWCX"
    using assms(2) emit_reserve_multiple_arm[of i] by auto
  then show ?thesis
  proof cases
    case 1
    then show ?thesis using exec_load_multiple[OF _ _ 1, of m env cpu] r assms(2) by (simp add: returns_def isa_block_def)
  next
    case 2
    then show ?thesis using exec_store_multiple[OF _ _ 2, of m env cpu] r assms(2) by (simp add: returns_def isa_block_def)
  qed (use assms(2) r in \<open>auto simp: emit_reserve_multiple_def eval_xform_ea apfst_def map_prod_def returns_def run Let_def
    split: prod.splits\<close>)
qed

lemma returns_fpscr:
  assumes "registers_ok i" "crfD_f i < 8" "crfS_f i < 8" "emit_fpscr_move i = Some code"
  shows "returns m code env cpu"
proof -
  note r = registers_ok[OF assms(1)]
  have w: "scast (cr_field_shift (crfS_f i)) < (32 :: u64)" "scast (cr_field_shift (crfD_f i)) < (32 :: u64)"
    using field_cases[OF assms(2)] field_cases[OF assms(3)] by (auto simp: cr_field_shift_def)
  show ?thesis
  proof (cases "op_f i = PPC_OP_MTFSF")
    case False
    then show ?thesis using assms(4) r w
      by (auto simp: emit_fpscr_move_def set_cr_bits_def record_cr1_def emit_set_cr1_from_fpscr_def returns_def run Let_def
        split: if_splits)
  next
    case True
    let ?body = "[only_if (Bin BitAnd (unum (ucast (fm_f i))) (Bin Shl (unum 1) (Local ''i'')))
      [or_local ''mask'' (Bin Shl (unum 0xF) (Bin Mul (Local ''i'') (num 4)))]] @ [SetLocal ''i'' (Bin Add (Local ''i'') (num 1))]"
    let ?rest = "[Decl U32 ''source'' (Cast U32 (Call c_f64_to_bits [fpr_at (rB_f i)])),
      SetField F_fpscr (Bin BitOr (Bin BitAnd (Field F_fpscr) (Com (Local ''mask'')))
        (Bin BitAnd (Local ''source'') (Local ''mask''))), Do (Call c_fpscr_control_updated [])] @ record_cr1 i"
    let ?step = "\<lambda>k env. env(''mask'' \<mapsto> VU32 (case env ''mask'' of Some (VU32 w) \<Rightarrow>
        if ucast (fm_f i) AND push_bit k 1 \<noteq> (0 :: u32) then w OR push_bit (4 * k) 0xF else w | _ \<Rightarrow> 0),
      ''i'' \<mapsto> VU32 (of_nat (Suc k)))"
    have "exec m code env cpu = exec m (While (Bin Lt (Local ''i'') (num 8)) ?body # ?rest)
        (env(''mask'' \<mapsto> VU32 0, ''i'' \<mapsto> VU32 0)) cpu"
      using assms(4) True by (auto simp: emit_fpscr_move_def exec_Decl run Let_def)
    moreover have "returns m (While (Bin Lt (Local ''i'') (num 8)) ?body # ?rest)
        (env(''mask'' \<mapsto> VU32 0, ''i'' \<mapsto> VU32 0)) cpu"
    proof (rule returns_counted[where hi = 8 and lo = 0 and g = ?step
        and E = "\<lambda>k env. env ''i'' = Some (VU32 (of_nat k)) \<and> (\<exists>w. env ''mask'' = Some (VU32 w))"])
      show "\<exists>v. eval m env (Bin Lt (Local ''i'') (num 8)) cpu = Some (v, cpu) \<and> (truth v \<longleftrightarrow> k < 8)"
        if "k \<le> 8" "env ''i'' = Some (VU32 (of_nat k)) \<and> (\<exists>w. env ''mask'' = Some (VU32 w))" for k env and cpu :: "'a CPUState"
        using that by (simp add: run word_less_nat_alt unat_of_nat)
      show "returns m (?body @ R) env cpu \<or> (\<exists>cpu'. exec m (?body @ R) env cpu = exec m R (?step k env) cpu')"
        if "k < 8" "env ''i'' = Some (VU32 (of_nat k)) \<and> (\<exists>w. env ''mask'' = Some (VU32 w))" for k env R and cpu :: "'a CPUState"
      proof -
        have k: "k \<in> {0, 1, 2, 3, 4, 5, 6, 7}" using that(1) by auto
        from that(2) obtain w where w: "env ''mask'' = Some (VU32 w)" by blast
        from k show ?thesis using that(2) w
          by (auto simp: run fun_upd_twist fun_upd_idem)
      qed
      show "returns m ?rest env cpu" if "env ''i'' = Some (VU32 (of_nat 8)) \<and> (\<exists>w. env ''mask'' = Some (VU32 w))"
        for env and cpu :: "'a CPUState"
        using that r by (auto simp: record_cr1_def emit_set_cr1_from_fpscr_def returns_def run)
    qed auto
    ultimately show ?thesis by (simp add: returns_def)
  qed
qed

lemma returns_branch:
  assumes "bi_f i < 32" "emit_branch_instruction i s e = Some code"
  shows "returns m code env cpu"
proof -
  have bi: "unat (bi_f i) < 32" using register_index[OF assms(1)] .
  show ?thesis using assms(2) bi
    by (auto simp: emit_branch_instruction_def emit_branch_condition_def emit_direct_branch_def emit_dynamic_branch_def
      returns_def run Let_def split: if_splits)
qed

lemma returns_condition_register:
  assumes "registers_ok i" "crfD_f i < 8" "crfS_f i < 8" "emit_condition_register i = Some code"
  shows "returns m code env cpu"
proof (cases "op_f i = PPC_OP_MCRXR")
  case True
  have w: "scast (cr_field_shift (crfD_f i)) < (32 :: u64)"
    using field_cases[OF assms(2)] by (auto simp: cr_field_shift_def)
  show ?thesis using assms(4) True w by (auto simp: emit_condition_register_def set_cr_bits_def returns_def run Let_def)
next
  case False
  then have "op_f i \<in> set cr_ops" using assms(4) emit_condition_register_arm[of i] by auto
  then have "isa_condition_register i cpu \<noteq> None" unfolding isa_condition_register_arm by blast
  with exec_condition_register[OF assms(1-3) this, of m env] assms(4) show ?thesis by (auto simp: returns_def)
qed

lemma returns_integer:
  assumes "inst_ok raw a i" and "length (gpr cpu) = 32"
    and "(ops, Some code) \<in> set (take 11 (arms i s e))" and "op_f i \<in> set ops"
  shows "returns m code env cpu"
proof -
  have op: "op_f i \<in> set plain_ops"
    using assms(3,4) unfolding arms_def plain_ops_def by (auto simp del: in_set_conv_nth)
  have i: "\<not> embedded_data i" using assms(1) by (simp add: inst_ok_def)
  have "(ops, Some code) \<in> set (arms i s e)" using assms(3) by (rule in_set_takeD)
  from emit_by_arm[OF i this assms(4)] no_guard[of i] op
  have "emit_instruction_with_range i s e = code" by simp
  with exec_plain[OF assms(1,2) op, of m s e env] show ?thesis by (auto simp: steps_plainly_def returns_def)
qed

section \<open>Every instruction\<close>

lemma returns_arm:
  assumes "inst_ok raw a i" and "(ops, Some code) \<in> set (arms i s e)" and "op_f i \<in> set ops"
    and "ppc_op_uses_fpu (op_f i) \<or> length (gpr cpu) = 32"
  shows "returns m code env cpu"
proof -
  have ok: "registers_ok i" "crfD_f i < 8" "crfS_f i < 8" "rC_f i < 32" "sr_f i < 16" "bi_f i < 32"
    using assms(1) by (simp_all add: inst_ok_def registers_ok_def)
  have "length (gpr cpu) = 32" if "(ops, Some code) \<in> set (take 11 (arms i s e))"
  proof -
    have "op_f i \<in> set (plain_ops @ jump_ops)" using assms(3) that unfolding arms_def plain_ops_def by auto
    from no_guard[OF this] assms(4) show ?thesis by (simp add: fp_guard_def split: if_splits)
  qed
  then have integer: "returns m code env cpu" if "(ops, Some code) \<in> set (take 11 (arms i s e))"
    using that returns_integer[OF assms(1) _ that assms(3)] by blast
  have arms: "map snd (drop 11 (arms i s e)) = [emit_string i, emit_reserve_multiple i, emit_float_memory i,
      emit_float_arith i, emit_float_move i, emit_fpscr_move i, emit_paired_arith i, emit_paired_sign i,
      emit_paired_cross i, emit_paired_merge i,
      if op_f i = PPC_OP_FCMPU \<or> op_f i = PPC_OP_FCMPO then Some (emit_fcompare i) else None,
      emit_branch_instruction i s e, emit_cache i, emit_condition_register i, emit_move_register i,
      if op_f i = PPC_OP_MFSPR then Some (emit_mfspr i)
      else if op_f i = PPC_OP_MTSPR then Some (emit_mtspr i) else None, emit_barrier_external i]"
    by (simp add: arms_def)
  have compare: "returns m (emit_fcompare i) env cpu"
    using registers_ok[OF ok(1)] by (simp add: emit_fcompare_def returns_def run split: prod.split)
  have "\<forall>r \<in> set (map snd (drop 11 (arms i s e))). \<forall>code. r = Some code \<longrightarrow> returns m code env cpu"
    unfolding arms list.set ball_simps
    by (intro conjI allI impI TrueI) (erule returns_string[OF ok(1)] returns_reserve[OF ok(1)] returns_float_memory[OF ok(1)]
        returns_float_calls[OF disjI1] returns_float_calls[OF disjI2, OF disjI1] returns_float_calls[OF disjI2, OF disjI2]
        returns_float_move[OF ok(1,4) disjI1] returns_float_move[OF ok(1,4) disjI2, OF disjI1]
        returns_float_move[OF ok(1,4) disjI2, OF disjI2] returns_fpscr[OF ok(1-3)] returns_branch[OF ok(6)]
        returns_cache[OF ok(1)] returns_condition_register[OF ok(1-3)] returns_move[OF ok(1,5)] returns_barrier[OF ok(1)] |
      (use compare returns_spr[OF ok(1), of m env cpu] in \<open>fastforce split: if_splits\<close>))+
  moreover have "set (arms i s e) = set (take 11 (arms i s e)) \<union> set (drop 11 (arms i s e))"
    by (metis append_take_drop_id set_append)
  ultimately show ?thesis using assms(2) integer by force
qed

lemma exec_defined:
  assumes "inst_ok raw a i" and "length (gpr cpu) = 32"
  shows "exec m (emit_instruction_with_range i s e) env cpu \<noteq> None"
proof -
  have i: "\<not> embedded_data i" "op_f i < PPC_OP_COUNT" using assms(1) by (simp_all add: inst_ok_def)
  show ?thesis
  proof (cases "op_f i = PPC_OP_UNKNOWN")
    case True
    then have "emit_instruction_with_range i s e = emit_fallback i"
      using fallback_exact[OF i, of s e] by (simp add: inst_routes_to_fallback_def)
    then show ?thesis by (simp add: emit_fallback_def run)
  next
    case False
    with i(2) have "op_f i \<in> set (concat (map fst (arms i s e)))" by (simp add: concat_arms set_handled)
    then obtain ops r where arm: "(ops, r) \<in> set (arms i s e)" "op_f i \<in> set ops" by auto
    with arms_exact[of i s e] obtain code where code: "r = Some code" by (cases r) auto
    have emit: "emit_instruction_with_range i s e = fp_guard i @ code" using emit_by_arm[OF i(1) arm] code by simp
    show ?thesis
    proof (cases "ppc_op_uses_fpu (op_f i)")
      case True
      then have "returns m code env cpu'" for cpu' using returns_arm[OF assms(1) arm(1)[unfolded code] arm(2)] by blast
      with True show ?thesis unfolding emit fp_guard_def by (simp add: returns_def run split: prod.split)
    next
      case False
      then show ?thesis unfolding emit fp_guard_def
        using returns_arm[OF assms(1) arm(1)[unfolded code] arm(2), of cpu m env] assms(2) by (simp add: returns_def)
    qed
  qed
qed

end
