(* ===== verification/EmitReturns.thy ===== *)
theory EmitReturns
  imports EmitDefined
begin

text \<open>
  An emitted function always returns: no emitted statement changes the number of registers, so the
  condition under which an instruction is defined survives from one instruction to the next.
\<close>

section \<open>The register file keeps its length\<close>

text \<open>
  In C the register file is an array inside the CPU state, which nothing can resize; for the lists
  of the model that is a law of the callbacks and of the helpers that are parameters.
\<close>

definition machine_regular :: "'e machine \<Rightarrow> bool" where
  "machine_regular m \<longleftrightarrow> host_regular (host_of m) \<and>
     (\<forall>f cpu x n. external_read32 (host_of m) = Some f \<longrightarrow> length (gpr (snd (f cpu x n))) = length (gpr cpu)) \<and>
     (\<forall>f cpu x y n. external_write32 (host_of m) = Some f \<longrightarrow> length (gpr (f cpu x y n)) = length (gpr cpu)) \<and>
     (\<forall>f cpu x y. instruction_fallback (host_of m) = Some f \<longrightarrow> length (gpr (f cpu x y)) = length (gpr cpu)) \<and>
     (\<forall>name args cpu. length (gpr (snd (helper_of m name args cpu))) = length (gpr cpu))"

abbreviation registers :: "'e CPUState \<Rightarrow> nat" where
  "registers cpu \<equiv> length (gpr cpu)"

lemma registers_exception [simp]:
  "registers (ppc_take_exception cpu e v s x) = registers cpu"
  "registers (ppc_program_exception cpu c a) = registers cpu"
  "registers (ppc_system_call_exception cpu a) = registers cpu"
  "registers (ppc_dsi_exception cpu ea a d) = registers cpu"
  "registers (ppc_alignment_exception cpu ea a) = registers cpu"
  "registers (snd (ppc_fp_available lazy cpu a)) = registers cpu"
  "registers (ppc_rfi cpu a) = registers cpu"
  "registers (ppc_tlbie cpu ea a) = registers cpu"
  "registers (snd (ppc_mftb cpu t a)) = registers cpu"
  "registers (ppc_set_xer_ov cpu b) = registers cpu"
  by (simp_all add: ppc_take_exception_def ppc_program_exception_def ppc_system_call_exception_def
    ppc_dsi_exception_def ppc_alignment_exception_def ppc_fp_available_def ppc_rfi_def ppc_tlbie_def ppc_mftb_def
    ppc_set_xer_ov_def Let_def)

lemma registers_fpscr [simp]:
  "registers (ppc_fpscr_updated cpu) = registers cpu"
  "registers (set_fp_exception cpu x) = registers cpu"
  "registers (ppc_mtfsb0_op cpu n) = registers cpu" "registers (ppc_mtfsb1_op cpu n) = registers cpu"
  by (simp_all add: ppc_fpscr_updated_def set_fp_exception_def ppc_mtfsb0_op_def ppc_mtfsb1_op_def Let_def)

lemma registers_wide:
  assumes "host_regular h"
  shows "registers (snd (mem_read64 h cpu a)) = registers cpu" "registers (mem_write64 h cpu a w) = registers cpu"
  using assms by (simp_all add: host_regular_def mem_read64_def mem_write64_def split: option.split)

lemma registers_stsw_loop:
  "host_regular h \<Longrightarrow> registers (fst (stsw_loop h mb cpu cur addr n r)) = registers cpu"
proof (induction h mb cpu cur addr n r rule: stsw_loop.induct)
  case (1 h mb cpu cur addr n r)
  show ?case
    by (subst stsw_loop.simps) (use 1 in \<open>simp add: Let_def host_read(4)\<close>)
qed

lemma registers_stsw:
  assumes "host_regular h"
  shows "registers (ppc_stsw h cpu ea n r cia) = registers cpu"
proof -
  have r32: "mem_read32 h cpu a = (v, cpu') \<Longrightarrow> registers cpu' = registers cpu" for cpu a v cpu'
    using host_read(1)[OF assms, of cpu a] by simp
  have loop: "stsw_loop h mb cpu cur addr n r = (cpu', z) \<Longrightarrow> registers cpu' = registers cpu" for mb cpu cur addr n r cpu' z
    using registers_stsw_loop[OF assms, of mb cpu cur addr n r] by simp
  show ?thesis
    by (auto simp: ppc_stsw_def Let_def host_read(4)[OF assms] dest!: r32 loop split: prod.splits if_splits)
qed

lemma registers_memory:
  assumes "machine_regular m"
  shows "registers (ppc_dcbz_l (host_of m) cpu ea a) = registers cpu"
    and "registers (snd (ppc_eciwx (host_of m) cpu ea a)) = registers cpu"
    and "registers (ppc_ecowx (host_of m) cpu ea v a) = registers cpu"
    and "registers (snd (ppc_lwarx_op (host_of m) cpu n ea a)) = registers cpu"
    and "registers (ppc_stwcx_op (host_of m) cpu n ea a) = registers cpu"
    and "registers (ppc_fallback_instruction (host_of m) cpu ea a) = registers cpu"
    and "map_option (registers \<circ> snd) (ppc_lfs_op (host_of m) cpu n ea a) \<in> {None, Some (registers cpu)}"
    and "registers (snd (ppc_lfd_op (host_of m) cpu n ea a)) = registers cpu"
    and "registers (snd (ppc_stfs_op (host_of m) cpu n ea a)) = registers cpu"
    and "registers (snd (ppc_stfd_op (host_of m) cpu n ea a)) = registers cpu"
proof -
  have h: "host_regular (host_of m)" using assms by (simp add: machine_regular_def)
  have r32: "mem_read32 (host_of m) cpu a = (v, cpu') \<Longrightarrow> registers cpu' = registers cpu" for cpu a v cpu'
    using host_read(1)[OF h, of cpu a] by simp
  have r64: "mem_read64 (host_of m) cpu a = (v, cpu') \<Longrightarrow> registers cpu' = registers cpu" for cpu a v cpu'
    using registers_wide(1)[OF h, of cpu a] by simp
  show "registers (ppc_dcbz_l (host_of m) cpu ea a) = registers cpu"
    by (simp add: ppc_dcbz_l_def Let_def block_gpr(4)[OF h])
  show "registers (snd (ppc_eciwx (host_of m) cpu ea a)) = registers cpu"
    "registers (ppc_ecowx (host_of m) cpu ea v a) = registers cpu"
    "registers (ppc_fallback_instruction (host_of m) cpu ea a) = registers cpu"
    using assms by (simp_all add: machine_regular_def ppc_eciwx_def ppc_ecowx_def ppc_fallback_instruction_def
      Let_def split: option.split)
  show "registers (snd (ppc_lwarx_op (host_of m) cpu n ea a)) = registers cpu"
    "registers (ppc_stwcx_op (host_of m) cpu n ea a) = registers cpu"
    "map_option (registers \<circ> snd) (ppc_lfs_op (host_of m) cpu n ea a) \<in> {None, Some (registers cpu)}"
    "registers (snd (ppc_lfd_op (host_of m) cpu n ea a)) = registers cpu"
    "registers (snd (ppc_stfs_op (host_of m) cpu n ea a)) = registers cpu"
    "registers (snd (ppc_stfd_op (host_of m) cpu n ea a)) = registers cpu"
    by (auto simp: ppc_lwarx_op_def ppc_stwcx_op_def ppc_lfs_op_def ppc_lfd_op_def ppc_stfs_op_def ppc_stfd_op_def
      Let_def host_read(4)[OF h] registers_wide(2)[OF h] dest!: r32 r64 split: prod.splits option.splits)
qed

section \<open>Calls, expressions and statements\<close>

lemma registers_invoke:
  assumes "machine_regular m" and "invoke m f args cpu = Some (v, cpu')"
  shows "registers cpu' = registers cpu"
proof -
  have h: "host_regular (host_of m)" using assms by (simp add: machine_regular_def)
  have helper: "registers (snd (helper_of m name args cpu)) = registers cpu" for name
    using assms(1) by (simp add: machine_regular_def)
  have apfst: "apfst w p = (x, c) \<Longrightarrow> c = snd p" for w :: "'b \<Rightarrow> cval" and p :: "'b \<times> 'a CPUState" and x c
    by (cases p) simp
  note kept = host_read[OF h] registers_memory(1-6,8-10)[OF assms(1)] registers_stsw[OF h]
  have zero: ?thesis if "invoke0 m f cpu = Some (v, cpu')"
    using that by (auto simp: invoke0_def split: callee.splits)
  have one: ?thesis if "invoke1 m f x cpu = Some (v, cpu')" for x
    using that by (auto simp: invoke1_def kept dest!: apfst split: callee.splits)
  have two: ?thesis if "invoke2 m f x y cpu = Some (v, cpu')" for x y
    using that by (auto simp: invoke2_def kept dest!: apfst split: callee.splits)
  have three: ?thesis if "invoke3 m f x y z cpu = Some (v, cpu')" for x y z
    using that registers_memory(7)[OF assms(1), of cpu "to_nat x" "to_u32 y" "to_u32 z"]
    by (auto simp: invoke3_def kept dest!: apfst split: callee.splits)
  have four: ?thesis if "invoke4 m f x y z w cpu = Some (v, cpu')" for x y z w
    using that by (auto simp: invoke4_def kept split: callee.splits)
  show ?thesis
  proof (cases "\<exists>name. f = c_helper name")
    case True
    then show ?thesis using assms(2) helper by (auto simp: invoke_def) (metis snd_conv)
  next
    case False
    then have "(case args of [] \<Rightarrow> invoke0 m f cpu | [x] \<Rightarrow> invoke1 m f x cpu | [x, y] \<Rightarrow> invoke2 m f x y cpu
      | [x, y, z] \<Rightarrow> invoke3 m f x y z cpu | [x, y, z, w] \<Rightarrow> invoke4 m f x y z w cpu | _ \<Rightarrow> None) = Some (v, cpu')"
      using assms(2) unfolding invoke_def by (cases f) simp_all
    then show ?thesis using zero one two three four by (simp split: list.splits)
  qed
qed

lemma registers_eval:
  assumes "machine_regular m"
  shows "eval m env e cpu = Some (v, cpu') \<Longrightarrow> registers cpu' = registers cpu"
    and "eval_all m env es cpu = Some (vs, cpu') \<Longrightarrow> registers cpu' = registers cpu"
  using assms
proof (induction m env e cpu and m env es cpu arbitrary: v cpu' and vs cpu' rule: eval_eval_all.induct)
  case (11 m env c e1 e2 cpu)
  from "11.prems" obtain w cpu1 where w: "eval m env c cpu = Some (w, cpu1)"
    and r: "(if truth w then eval m env e1 cpu1 else eval m env e2 cpu1) = Some (v, cpu')"
    by (auto simp: bind_eq_Some_conv)
  have "registers cpu1 = registers cpu" using "11.IH"(1)[OF w] "11.prems"(2) by blast
  moreover have "registers cpu' = registers cpu1"
    using r "11.IH"(2)[OF w refl, of v cpu'] "11.IH"(3)[OF w refl, of v cpu'] "11.prems"(2) by (auto split: if_splits)
  ultimately show ?case by simp
qed (auto simp: bind_eq_Some_conv split: prod.splits if_splits dest: registers_invoke)

text \<open>The state an exit carries.\<close>

primrec exit_state :: "'e exit \<Rightarrow> 'e CPUState" where
  "exit_state (Falls cpu) = cpu"
| "exit_state (Returns cpu) = cpu"
| "exit_state (Jumps t cpu) = cpu"

lemma registers_set_elem: "set_elem a i v cpu = Some cpu' \<Longrightarrow> registers cpu' = registers cpu"
  by (auto simp: set_elem_def defined_if_def split: carray.splits if_splits)

lemma registers_set_field [simp]: "registers (set_field f v cpu) = registers cpu"
  by (cases f) (simp_all add: set_field_def)

lemma registers_exec:
  assumes "exec m code env cpu = Some e" and "machine_regular m"
  shows "registers (exit_state e) = registers cpu"
proof -
  have "machine_regular m \<longrightarrow> registers (exit_state e) = registers cpu"
  proof (rule exec.raw_induct[OF _ assms(1)], goal_cases)
    case (1 run m code env cpu e)
    show ?case
    proof
      assume reg: "machine_regular m"
      note IH = 1(1)[THEN mp, OF _ reg] and eval = registers_eval(1)[OF reg]
      show "registers (exit_state e) = registers cpu"
      proof (cases code)
        case Nil then show ?thesis using 1(2) by auto
      next
        case (Cons stmt rest)
        then show ?thesis using 1(2)
          by (cases stmt)
            (auto simp: bind_eq_Some_conv split: if_splits prod.splits dest!: IH eval registers_set_elem)
      qed
    qed
  qed
  then show ?thesis using assms(2) by blast
qed

section \<open>A function always returns\<close>

definition code_defined :: "'e machine \<Rightarrow> PPCInst list \<Rightarrow> u32 \<Rightarrow> bool" where
  "code_defined m insts a \<longleftrightarrow>
     (\<forall>k < length insts. \<forall>cpu. registers cpu = 32 \<longrightarrow> exec m (emitted_code insts a k) Map.empty cpu \<noteq> None)"

text \<open>Every jump goes forward, so the number of labels still ahead is a measure.\<close>

lemma run_from_label:
  assumes "laid_out insts a" and "code_defined m insts a" and "machine_regular m"
    and "k \<le> length insts" and "registers cpu = 32"
  shows "run_labels m (emit_function insts a) (drop k (labels_of (emit_function insts a))) cpu \<noteq> None"
  using assms(4,5)
proof (induction "length insts - k" arbitrary: k cpu rule: less_induct)
  case less
  show ?case
  proof (cases "k = length insts")
    case True then show ?thesis by (simp add: run_end[OF assms(1)])
  next
    case False
    with less.prems have k: "k < length insts" by simp
    have regs: "registers (entered insts a k cpu) = 32" using less.prems(2) by simp
    with assms(2) k obtain e where e: "exec m (emitted_code insts a k) Map.empty (entered insts a k cpu) = Some e"
      unfolding code_defined_def by blast
    have exit: "registers (exit_state e) = 32" using registers_exec[OF e assms(3)] regs by simp
    show ?thesis
    proof (cases e)
      case (Falls cpu')
      then show ?thesis using e exit k less.hyps[of "Suc k" cpu'] by (simp add: run_label[OF assms(1) k])
    next
      case (Returns cpu') then show ?thesis using e by (simp add: run_label[OF assms(1) k])
    next
      case (Jumps t cpu')
      with e have "forward_target (insts ! k) a (func_end_of insts a) t" by (simp add: exec_jump_forward)
      then obtain j where j: "k < j" "j < length insts" "t = a + 4 * of_nat j"
        using forward_index[OF assms(1) k] by blast
      then show ?thesis using e exit Jumps less.hyps[of j cpu'] run_jump[OF assms(1) j(2), of m cpu']
        by (simp add: run_label[OF assms(1) k])
    qed
  qed
qed

lemma run_function_returns:
  assumes "laid_out insts a" and "\<forall>i \<in> set insts. inst_ok (raw_word i) (address_of i) i"
    and "machine_regular m" and "registers cpu = 32"
  shows "run_function m (emit_function insts a) cpu \<noteq> None"
proof -
  have "code_defined m insts a"
    using assms(2) exec_defined nth_mem unfolding code_defined_def by blast
  then show ?thesis
    using function_entry[OF assms(1), of cpu m] run_from_label[OF assms(1) _ assms(3) _ assms(4)]
    by (metis less_imp_le_nat option.distinct(1))
qed

end
