(* ===== verification/EmitCorrect.thy ===== *)
theory EmitCorrect
  imports EmitReturns
begin

text \<open>
  What the recompiler's output does: each emitted instruction is a step of the architecture, each
  emitted function a run of it that ends, and the tables beside the emitter agree with it.  The
  statements are about decoded words, as the driver feeds the emitter.
\<close>

section \<open>Decoded functions\<close>

definition decoded :: "u32 list \<Rightarrow> u32 \<Rightarrow> PPCInst list" where
  "decoded ws a = map (\<lambda>k. ppc_decode (ws ! k) (a + 4 * of_nat k)) [0..<length ws]"

lemma length_decoded [simp]: "length (decoded ws a) = length ws"
  by (simp add: decoded_def)

lemma decoded_ok: "i \<in> set (decoded ws a) \<Longrightarrow> inst_ok (raw_word i) (address_of i) i \<and> \<not> embedded_data i \<and> op_f i < PPC_OP_COUNT"
proof -
  assume "i \<in> set (decoded ws a)"
  then obtain k where i: "i = ppc_decode (ws ! k) (a + 4 * of_nat k)" by (auto simp: decoded_def)
  from inst_ok_decode[of "ws ! k" "a + 4 * of_nat k"] show ?thesis unfolding i by (simp add: inst_ok_def)
qed

lemma decoded_laid_out: "unat a + 4 * length ws < 2 ^ 32 \<Longrightarrow> laid_out (decoded ws a) a"
  using inst_ok_decode by (simp add: laid_out_def decoded_def inst_ok_def)

section \<open>Examples\<close>

text \<open>\<open>li r3,3; addic. r3,r3,-1; bne -4; blr\<close>.\<close>

definition demo_words :: "u32 list" where
  "demo_words = [0x38600003, 0x3463FFFF, 0x4082FFFC, 0x4E800020]"

definition demo_machine :: "unit machine" where
  "demo_machine = \<lparr>host_of = no_host, lazy_fp_of = False, helper_of = \<lambda>f args cpu. (no_value, cpu)\<rparr>"

lemma demo_regular: "host_regular (host_of demo_machine)"
  by (simp add: host_regular_def demo_machine_def ext_read_def ext_write_def no_host_def)

lemma demo_in_reference: "\<forall>i \<in> set (decoded demo_words 0x80003000). in_reference i"
proof -
  have "list_all in_reference (decoded demo_words 0x80003000)" by code_simp
  then show ?thesis by (simp add: list_all_iff)
qed

section \<open>One instruction\<close>

text \<open>C2: the code the recompiler emits for any decoded word the reference has (integer
  arithmetic with its carry, overflow and record forms, compares, logic, shifts, rotates, loads and
  stores with their update, byte-reversed, multiple and string forms, \<open>dcbz\<close>, the condition
  register, branches) has no undefined behaviour, ends, and does what the architecture says, to
  every register, flag and byte of memory, at the address it continues.\<close>

theorem emitted_instruction_correct:
  assumes "in_reference (ppc_decode raw addr)" and "length (gpr cpu) = 32"
  shows "ref_step (host_of m) (ppc_decode raw addr) cpu \<noteq> None \<and>
    map_option (arrive (addr + 4)) (exec m (emit_instruction_with_range (ppc_decode raw addr) s e) env cpu) =
      ref_step (host_of m) (ppc_decode raw addr) cpu"
proof -
  have "address_of (ppc_decode raw addr) = addr" using inst_ok_decode[of raw addr] by (simp add: inst_ok_def)
  then show ?thesis using exec_ref_step[OF inst_ok_decode assms(2,1)] by metis
qed

lemma emitted_instruction_correct_witness:
  "map_option (arrive 0x80003004)
     (exec demo_machine (emit_instruction_with_range (ppc_decode 0x3463FFFF 0x80003000) 0 0) Map.empty (cpu_init ()))
   = ref_step (host_of demo_machine) (ppc_decode 0x3463FFFF 0x80003000) (cpu_init ())"
proof -
  have "in_reference (ppc_decode 0x3463FFFF 0x80003000)" by code_simp
  from emitted_instruction_correct[OF this, of "cpu_init ()" demo_machine 0 0 Map.empty] show ?thesis
    by (simp add: cpu_init_def cpu_zero_def)
qed

section \<open>One function\<close>

text \<open>C1: an emitted function whose instructions the reference has runs the reference machine,
  cycle counter included, from the program counter it is entered with: it returns after at most as
  many steps as it has instructions, in the state the reference machine is in then; entered inside
  the function it takes at least one step.\<close>

theorem emitted_function_simulates:
  assumes "unat a + 4 * length ws < 2 ^ 32" and "\<forall>i \<in> set (decoded ws a). in_reference i"
    and "host_regular (host_of m)" and "length (gpr cpu) = 32"
  shows "\<exists>n cpu'. run_function m (emit_function (decoded ws a) a) cpu = Some cpu' \<and>
    machine_run (host_of m) (decoded ws a) a n cpu = Some cpu' \<and> n \<le> length ws \<and>
    ((\<exists>k < length ws. cpu_pc cpu = a + 4 * of_nat k) \<longrightarrow> 0 < n)"
proof -
  note laid = decoded_laid_out[OF assms(1)]
  have ref: "all_in_reference (decoded ws a)" using assms(2) decoded_ok by (auto simp: all_in_reference_def)
  from function_entry[OF laid, of cpu m] show ?thesis
  proof (elim disjE exE conjE)
    fix k assume k: "k < length (decoded ws a)" "cpu_pc cpu = a + 4 * of_nat k"
      and run: "run_function m (emit_function (decoded ws a) a) cpu =
        run_labels m (emit_function (decoded ws a) a) (drop k (labels_of (emit_function (decoded ws a) a))) cpu"
    from run_simulates[OF laid ref assms(3) _ k(2) assms(4)] k(1) obtain n cpu' where
      "n \<le> length ws - k" "0 < n" "run_function m (emit_function (decoded ws a) a) cpu = Some cpu'"
      "machine_run (host_of m) (decoded ws a) a n cpu = Some cpu'"
      unfolding simulates_def run by auto
    then show ?thesis by (intro exI[of _ n] exI[of _ cpu']) simp
  next
    assume "\<forall>k < length (decoded ws a). cpu_pc cpu \<noteq> a + 4 * of_nat k"
      and "run_function m (emit_function (decoded ws a) a) cpu = Some cpu"
    then show ?thesis by (intro exI[of _ 0] exI[of _ cpu]) auto
  qed
qed

lemma emitted_function_simulates_witness:
  "\<exists>n cpu'. run_function demo_machine (emit_function (decoded demo_words 0x80003000) 0x80003000)
       ((cpu_init ())\<lparr>cpu_pc := 0x80003000\<rparr>) = Some cpu' \<and>
     machine_run (host_of demo_machine) (decoded demo_words 0x80003000) 0x80003000 n
       ((cpu_init ())\<lparr>cpu_pc := 0x80003000\<rparr>) = Some cpu' \<and> 0 < n"
proof -
  have "unat (0x80003000 :: u32) + 4 * length demo_words < 2 ^ 32"
    "length (gpr ((cpu_init ())\<lparr>cpu_pc := 0x80003000\<rparr>)) = 32"
    "\<exists>k < length demo_words. cpu_pc ((cpu_init ())\<lparr>cpu_pc := 0x80003000\<rparr>) = 0x80003000 + 4 * of_nat k"
    by (simp_all add: demo_words_def cpu_init_def cpu_zero_def exI[of _ 0])
  with emitted_function_simulates[OF this(1) demo_in_reference demo_regular this(2)] show ?thesis by blast
qed

section \<open>No undefined behaviour\<close>

text \<open>C4: the code emitted for any word whatever, floating point and system instructions
  included, runs without anything C leaves undefined (signed overflow, a shift by the width, a
  division by zero, an index outside a register array, an undeclared local) and comes to its end.\<close>

theorem emitted_code_defined:
  assumes "length (gpr cpu) = 32"
  shows "exec m (emit_instruction_with_range (ppc_decode raw addr) s e) env cpu \<noteq> None"
  by (rule exec_defined[OF inst_ok_decode assms])

lemma emitted_code_defined_witness:
  "exec demo_machine (emit_instruction_with_range (ppc_decode 0x7C8323D6 0x80003000) 0 0) Map.empty (cpu_init ()) \<noteq> None"
  by (rule emitted_code_defined) (simp add: cpu_init_def cpu_zero_def)

section \<open>Every function returns\<close>

text \<open>C3: the function emitted for any words whatever returns from every state of the machine, as
  long as the callbacks leave the register file its length: all its \<open>goto\<close>s lead forward to
  existing labels, and a backward branch returns to the dispatcher.\<close>

theorem emitted_function_returns:
  assumes "unat a + 4 * length ws < 2 ^ 32" and "machine_regular m" and "length (gpr cpu) = 32"
  shows "run_function m (emit_function (decoded ws a) a) cpu \<noteq> None"
  using run_function_returns[OF decoded_laid_out[OF assms(1)] _ assms(2,3)] decoded_ok by blast

lemma demo_machine_regular: "machine_regular demo_machine"
  using demo_regular by (simp add: machine_regular_def demo_machine_def no_host_def)

lemma emitted_function_returns_witness:
  "run_function demo_machine (emit_function (decoded demo_words 0x80003000) 0x80003000)
     ((cpu_init ())\<lparr>cpu_pc := 0x80003000\<rparr>) \<noteq> None"
  by (rule emitted_function_returns[OF _ demo_machine_regular])
    (simp_all add: demo_words_def cpu_init_def cpu_zero_def)

section \<open>The fallback\<close>

text \<open>The emitter hands an instruction to the interpreter exactly if the table the block and
  cycle accounting uses says so.\<close>

theorem emitted_fallback_exact:
  "emit_instruction_with_range (ppc_decode raw addr) s e = emit_fallback (ppc_decode raw addr) \<longleftrightarrow>
     inst_routes_to_fallback (ppc_decode raw addr)"
  using inst_ok_decode[of raw addr] by (intro fallback_exact) (simp_all add: inst_ok_def)

section \<open>Link register branches\<close>

text \<open>\<open>blrl\<close> goes wrong: the emitted code stores the return address in the link
  register before it reads its target from it, so it goes on at the next instruction, where the
  architecture goes to the old link register.\<close>

theorem emitted_blrl_differs:
  "map_option (arrive (addr + 4)) (exec m (the (emit_branch_instruction (ppc_decode 0x4E800021 addr) s e)) env cpu)
     = Some (cpu\<lparr>cpu_lr := addr + 4, cpu_pc := (addr + 4) AND NOT 3\<rparr>) \<and>
   isa_branch (ppc_decode 0x4E800021 addr) cpu
     = Some (cpu\<lparr>cpu_lr := addr + 4, cpu_pc := cpu_lr cpu AND NOT 3\<rparr>)"
proof -
  let ?i = "ppc_decode 0x4E800021 addr"
  have a: "address_of ?i = addr" using inst_ok_decode[of "0x4E800021" addr] by (simp add: inst_ok_def)
  have i: "op_f ?i = PPC_OP_BCLR \<and> lk_f ?i \<and> bi_f ?i = 0 \<and> bo_f ?i = 20"
    by (simp add: ppc_decode_def decode_primary_def decode_primary_19_def blank_inst_def PPC_PRIMARY_def PPC_XO_def
      PPC_BO_def PPC_BI_def or_unknown_def)
  show ?thesis using exec_blrl[of ?i cpu m s e env] i a
    by (simp add: isa_branch_def branch_taken_def go_to_def counted_def bo_bit_def)
qed

section \<open>Cycles\<close>

text \<open>C6: in a function of decoded words every instruction is in exactly one block, and the label
  that starts the block charges the cycles of all its instructions, no more.\<close>

theorem cycles_charged_once:
  assumes "i < length ws"
  shows "\<exists>!k. block_has (decoded ws a) a k i \<and>
    label_charge (labels_of (emit_function (decoded ws a) a) ! k) =
      (\<Sum>j\<leftarrow>filter (block_has (decoded ws a) a k) [0..<length ws]. inst_cycle_cost (decoded ws a ! j))"
proof -
  have i: "i < length (decoded ws a)" using assms by simp
  have "\<not> embedded_data (decoded ws a ! j)" if "j < i" for j using decoded_ok[OF nth_mem[of j "decoded ws a"]] i that by simp
  from block_exists[OF this i] obtain k where "block_has (decoded ws a) a k i" by blast
  with charge_of_block[OF this i] block_unique[OF _ _ i] show ?thesis by (intro ex1I[of _ k]) auto
qed

lemma cycles_charged_once_witness:
  "\<exists>!k. block_has (decoded demo_words 0x80003000) 0x80003000 k 2 \<and>
    label_charge (labels_of (emit_function (decoded demo_words 0x80003000) 0x80003000) ! k) =
      (\<Sum>j\<leftarrow>filter (block_has (decoded demo_words 0x80003000) 0x80003000 k) [0..<length demo_words].
        inst_cycle_cost (decoded demo_words 0x80003000 ! j))"
  by (rule cycles_charged_once) (simp add: demo_words_def)

text \<open>Behind data a block can go uncharged: after a return and one embedded zero word, the
  function that follows in the same chunk starts no block, and its first instruction, which costs a
  cycle, is charged nowhere.\<close>

theorem padding_hides_block:
  "let insts = [ppc_decode 0x4E800020 0x80003000, (ppc_decode 0 0x80003004)\<lparr>embedded_data := True\<rparr>,
       ppc_decode 0x38600003 0x80003008]
   in map label_charge (labels_of (emit_function insts 0x80003000)) = [1, 0, 0] \<and>
     inst_cycle_cost (insts ! 2) = 1"
  by code_simp

section \<open>Rotate masks\<close>

text \<open>The loop that builds a rotate mask ends for every pair of bit numbers and sets the bits
  from the first to the last, around the end of the word if the last comes first.\<close>

theorem rotate_mask_exact:
  assumes "mb < 32" and "me < 32"
  shows "\<exists>w. ppc_mask32 mb me = Some w \<and>
    (\<forall>k < 32. bit w (31 - k) \<longleftrightarrow> (if mb \<le> me then unat mb \<le> k \<and> k \<le> unat me else unat mb \<le> k \<or> k \<le> unat me))"
  using ppc_mask32_bits[OF assms] by (auto simp: bit_mask_word in_mask_def word_le_nat_alt)

lemma rotate_mask_exact_witness:
  "\<exists>w. ppc_mask32 30 1 = Some w \<and>
    (\<forall>k < 32. bit w (31 - k) \<longleftrightarrow> (if (30 :: u8) \<le> 1 then unat (30 :: u8) \<le> k \<and> k \<le> unat (1 :: u8)
      else unat (30 :: u8) \<le> k \<or> k \<le> unat (1 :: u8)))"
  by (rule rotate_mask_exact) simp_all

end
