(* ===== verification/MemoryCard.thy ===== *)
theory MemoryCard
  imports GuestTypes
begin

unbundle bit_operations_syntax

text \<open>
  The memory card (src/GXRuntime/src/memory_card.c, include/gxruntime/memory_card.h): a file store
  of 127 slots kept in memory and, if the card has a path, written to a container file on the host
  after every change.

  A C array or buffer is a list of bytes and a C string the list of its bytes before the NUL; a
  pointer that may be NULL is an option.  The definitions take the card itself: with a NULL handle
  every operation returns \<open>DOL_CARD_RESULT_NO_CARD\<close> and does nothing.  What an operation stores
  through its output pointers is part of its result.

  The file at the card's path is the state \<open>disk\<close> (\<open>None\<close>: there is none).  The clock and the success
  of every call of the C library are a parameter, \<open>CardHost\<close>, that may differ from one operation
  to the next; one operation asks for one outcome of each kind.
\<close>

section \<open>Data\<close>

abbreviation DOL_CARD_SECTOR_SIZE :: u32 where "DOL_CARD_SECTOR_SIZE \<equiv> 8192"
abbreviation DOL_CARD_SYSTEM_BLOCKS :: u32 where "DOL_CARD_SYSTEM_BLOCKS \<equiv> 5"
abbreviation DOL_CARD_MAX_FILES :: nat where "DOL_CARD_MAX_FILES \<equiv> 127"
abbreviation DOL_CARD_FILENAME_MAX :: nat where "DOL_CARD_FILENAME_MAX \<equiv> 32"
abbreviation DOL_CARD_CONTAINER_VERSION :: u32 where "DOL_CARD_CONTAINER_VERSION \<equiv> 1"
abbreviation DOL_CARD_HEADER_SIZE :: nat where "DOL_CARD_HEADER_SIZE \<equiv> 40"
abbreviation DOL_CARD_RECORD_SIZE :: nat where "DOL_CARD_RECORD_SIZE \<equiv> 68"

datatype DolCardResult =
    DOL_CARD_RESULT_UNLOCKED | DOL_CARD_RESULT_READY | DOL_CARD_RESULT_BUSY
  | DOL_CARD_RESULT_WRONG_DEVICE | DOL_CARD_RESULT_NO_CARD | DOL_CARD_RESULT_NO_FILE
  | DOL_CARD_RESULT_IO_ERROR | DOL_CARD_RESULT_BROKEN | DOL_CARD_RESULT_EXISTS
  | DOL_CARD_RESULT_NO_ENTRY | DOL_CARD_RESULT_INSUFFICIENT_SPACE | DOL_CARD_RESULT_NO_PERMISSION
  | DOL_CARD_RESULT_LIMIT | DOL_CARD_RESULT_NAME_TOO_LONG | DOL_CARD_RESULT_ENCODING
  | DOL_CARD_RESULT_CANCELED | DOL_CARD_RESULT_FATAL

record DolMemoryCardConfig =
  cfg_path :: "u8 list option"
  cfg_size_mbits :: u16
  cfg_encoding :: u16
  cfg_game_code :: "u8 list"
  cfg_company :: "u8 list"
  cfg_serial :: u64

record DolMemoryCardStat =
  file_name :: "u8 list"
  stat_length :: u32
  stat_time :: u32
  stat_game_code :: "u8 list"
  stat_company :: "u8 list"
  banner_format :: u8
  permission :: u8
  icon_address :: u32
  icon_format :: u16
  icon_speed :: u16
  comment_address :: u32

record DolMemoryCardFile =
  file_used :: bool
  file_stat :: DolMemoryCardStat
  file_data :: "u8 list"

record DolMemoryCard =
  card_path :: "u8 list option"
  size_mbits :: u16
  card_encoding :: u16
  card_serial :: u64
  card_game_code :: "u8 list"
  card_company :: "u8 list"
  mounted :: bool
  last_result :: DolCardResult
  transferred_bytes :: u32
  card_files :: "DolMemoryCardFile list"

record CardHost =
  host_time :: int
  card_calloc_ok :: bool
  malloc_ok :: "nat \<Rightarrow> bool"
  readable :: bool
  read_ok :: bool
  temp_ok :: bool
  rename_ok :: bool
  remove_ok :: bool
  rename_again_ok :: bool

text \<open>A slot after \<open>memset(file, 0, sizeof *file)\<close>.\<close>

definition empty_file :: DolMemoryCardFile where
  "empty_file = \<lparr>file_used = False, file_stat = \<lparr>file_name = replicate (DOL_CARD_FILENAME_MAX + 1) 0,
     stat_length = 0, stat_time = 0, stat_game_code = replicate 4 0, stat_company = replicate 2 0,
     banner_format = 0, permission = 0, icon_address = 0, icon_format = 0, icon_speed = 0,
     comment_address = 0\<rparr>, file_data = []\<rparr>"

section \<open>Geometry, hashes and helpers\<close>

definition k_card_magic :: "u8 list" where
  "k_card_magic = [0x44, 0x4F, 0x4C, 0x43, 0x41, 0x52, 0x44, 0x31]"

definition valid_size_mbits :: "u16 \<Rightarrow> bool" where
  "valid_size_mbits n \<longleftrightarrow> n \<in> set [4, 8, 16, 32, 64, 128]"

definition card_total_blocks :: "DolMemoryCard \<Rightarrow> u32" where
  "card_total_blocks mc = ucast (size_mbits mc) * 16"

definition card_user_blocks :: "DolMemoryCard \<Rightarrow> u32" where
  "card_user_blocks mc = card_total_blocks mc - DOL_CARD_SYSTEM_BLOCKS"

definition file_blocks :: "u32 \<Rightarrow> u32" where
  "file_blocks len = (len + DOL_CARD_SECTOR_SIZE - 1) div DOL_CARD_SECTOR_SIZE"

definition hash_bytes :: "u8 list \<Rightarrow> u32" where
  "hash_bytes data = fold (\<lambda>b hash. (hash XOR ucast b) * 16777619) data 2166136261"

definition generated_serial :: "u8 list option \<Rightarrow> int \<Rightarrow> u64" where
  "generated_serial path now =
     (let hash = (case path of None \<Rightarrow> 1469598103934665603
        | Some p \<Rightarrow> fold (\<lambda>b hash. (hash XOR ucast b) * 1099511628211) p 1469598103934665603);
          hash = hash XOR of_int now * 0x9E3779B97F4A7C15
      in if hash \<noteq> 0 then hash else 0x444F4C4341524431)"

definition duplicate_string :: "CardHost \<Rightarrow> u8 list option \<Rightarrow> u8 list option" where
  "duplicate_string h source = (case source of None \<Rightarrow> None
     | Some s \<Rightarrow> if s = [] then None else if malloc_ok h (length s + 1) then Some s else None)"

definition clear_files :: "DolMemoryCard \<Rightarrow> DolMemoryCard" where
  "clear_files mc = mc\<lparr>card_files := replicate DOL_CARD_MAX_FILES empty_file\<rparr>"

definition set_result :: "DolMemoryCard \<Rightarrow> DolCardResult \<Rightarrow> u32 \<Rightarrow> DolCardResult \<times> DolMemoryCard" where
  "set_result mc result transferred =
     (result, mc\<lparr>last_result := result, transferred_bytes := transferred\<rparr>)"

definition c_string :: "u8 list \<Rightarrow> u8 list" where
  "c_string = takeWhile (\<lambda>b. b \<noteq> 0)"

definition file_matches_game :: "DolMemoryCard \<Rightarrow> DolMemoryCardFile \<Rightarrow> bool" where
  "file_matches_game mc f \<longleftrightarrow> stat_game_code (file_stat f) = card_game_code mc \<and>
     stat_company (file_stat f) = card_company mc"

definition find_file :: "DolMemoryCard \<Rightarrow> u8 list option \<Rightarrow> nat option" where
  "find_file mc name = (case name of None \<Rightarrow> None
     | Some name \<Rightarrow> find (\<lambda>i. file_used (card_files mc ! i) \<and> file_matches_game mc (card_files mc ! i) \<and>
         c_string (file_name (file_stat (card_files mc ! i))) = name) [0..<DOL_CARD_MAX_FILES])"

definition card_time :: "CardHost \<Rightarrow> u32" where
  "card_time h = (let gamecube_epoch = 946684800
     in if host_time h > gamecube_epoch then of_int (host_time h - gamecube_epoch) else 0)"

section \<open>The container file\<close>

text \<open>The number of files and the size of their records.\<close>

definition payload_size :: "DolMemoryCard \<Rightarrow> u32 \<times> u32" where
  "payload_size mc = fold (\<lambda>f (count, size). if \<not> file_used f then (count, size)
     else (count + 1, size + (of_nat DOL_CARD_RECORD_SIZE + stat_length (file_stat f))))
     (card_files mc) (0, 0)"

text \<open>The bytes \<open>write_be16\<close>, \<open>write_be32\<close> and \<open>write_be64\<close> store, and what \<open>read_be16\<close> and the
  others read at an offset of a buffer.\<close>

definition be16 :: "u16 \<Rightarrow> u8 list" where
  "be16 v = map (\<lambda>i. write_be16 zero_bytes 0 v (of_nat i)) [0..<2]"

definition be32 :: "u32 \<Rightarrow> u8 list" where
  "be32 v = map (\<lambda>i. write_be32 zero_bytes 0 v (of_nat i)) [0..<4]"

definition be64 :: "u64 \<Rightarrow> u8 list" where
  "be64 v = map (\<lambda>i. write_be64 zero_bytes 0 v (of_nat i)) [0..<8]"

definition be16_at :: "u8 list \<Rightarrow> nat \<Rightarrow> u16" where
  "be16_at xs off = read_be16 (\<lambda>a. xs ! (off + unat a)) 0"

definition be32_at :: "u8 list \<Rightarrow> nat \<Rightarrow> u32" where
  "be32_at xs off = read_be32 (\<lambda>a. xs ! (off + unat a)) 0"

definition be64_at :: "u8 list \<Rightarrow> nat \<Rightarrow> u64" where
  "be64_at xs off = read_be64 (\<lambda>a. xs ! (off + unat a)) 0"

definition file_record :: "nat \<Rightarrow> DolMemoryCardFile \<Rightarrow> u8 list" where
  "file_record i f =
     (let s = file_stat f
      in be16 (of_nat i) @ [0, 0] @ be32 (stat_length s) @ be32 (stat_time s) @
         take DOL_CARD_FILENAME_MAX (file_name s) @ stat_game_code s @ stat_company s @
         [banner_format s, permission s] @ be32 (icon_address s) @ be16 (icon_format s) @
         be16 (icon_speed s) @ be32 (comment_address s) @
         be32 (hash_bytes (take (unat (stat_length s)) (file_data f))) @ take (unat (stat_length s)) (file_data f))"

definition container_body :: "DolMemoryCard \<Rightarrow> u8 list" where
  "container_body mc = concat (map (\<lambda>(i, f). if file_used f then file_record i f else [])
     (enumerate 0 (card_files mc)))"

definition container :: "DolMemoryCard \<Rightarrow> u8 list" where
  "container mc =
     (let (file_count, body_size) = payload_size mc; body = container_body mc
      in k_card_magic @ be32 DOL_CARD_CONTAINER_VERSION @ be16 (size_mbits mc) @ be16 (card_encoding mc) @
         be32 DOL_CARD_SECTOR_SIZE @ be64 (card_serial mc) @ be32 file_count @ be32 body_size @
         be32 (hash_bytes body) @ body)"

text \<open>
  The new container is written to a temporary file that then replaces the old one; where renaming
  does not replace, the old one is removed first.
\<close>

definition write_container :: "CardHost \<Rightarrow> DolMemoryCard \<Rightarrow> u8 list option \<Rightarrow> bool \<times> u8 list option" where
  "write_container h mc disk = (case card_path mc of
     None \<Rightarrow> (True, disk)
   | Some path \<Rightarrow>
       (let total_size = DOL_CARD_HEADER_SIZE + unat (snd (payload_size mc))
        in if \<not> malloc_ok h total_size then (False, disk)
           else if \<not> malloc_ok h (length path + 5) then (False, disk)
           else if \<not> temp_ok h then (False, disk)
           else if rename_ok h then (True, Some (container mc))
           else if \<not> remove_ok h then (False, disk)
           else if \<not> rename_again_ok h then (False, None)
           else (True, Some (container mc))))"

definition read_whole_file :: "CardHost \<Rightarrow> u8 list option \<Rightarrow> u8 list option" where
  "read_whole_file h disk = (case disk of None \<Rightarrow> None
     | Some bytes \<Rightarrow> if readable h \<and> malloc_ok h (length bytes) \<and> read_ok h then Some bytes else None)"

definition header_valid :: "u8 list \<Rightarrow> bool" where
  "header_valid bytes \<longleftrightarrow> length bytes \<ge> DOL_CARD_HEADER_SIZE \<and> take 8 bytes = k_card_magic \<and>
     be32_at bytes 8 = DOL_CARD_CONTAINER_VERSION \<and> valid_size_mbits (be16_at bytes 12) \<and>
     be32_at bytes 16 = DOL_CARD_SECTOR_SIZE \<and>
     unat (be32_at bytes 28) \<le> DOL_CARD_MAX_FILES \<and>
     unat (be32_at bytes 32) = length bytes - DOL_CARD_HEADER_SIZE \<and>
     be32_at bytes 36 = hash_bytes (drop DOL_CARD_HEADER_SIZE bytes)"

text \<open>One record of the container: the slot, the file, and where the next record starts.\<close>

definition load_record :: "CardHost \<Rightarrow> u8 list \<Rightarrow> nat \<Rightarrow> DolMemoryCardFile list \<Rightarrow> (nat \<times> DolMemoryCardFile \<times> nat) option" where
  "load_record h bytes r fs =
     (if length bytes - r < DOL_CARD_RECORD_SIZE then None
      else let file_no = unat (be16_at bytes r); len = be32_at bytes (r + 4)
      in if file_no \<ge> DOL_CARD_MAX_FILES \<or> file_used (fs ! file_no) \<or>
            unat len > length bytes - r - DOL_CARD_RECORD_SIZE then None
         else if \<not> malloc_ok h (unat len) then None
         else let data = take (unat len) (drop (r + DOL_CARD_RECORD_SIZE) bytes)
         in if be32_at bytes (r + 64) \<noteq> hash_bytes data then None
            else Some (file_no, \<lparr>file_used = True, file_stat =
                \<lparr>file_name = take DOL_CARD_FILENAME_MAX (drop (r + 12) bytes) @ [0], stat_length = len,
                 stat_time = be32_at bytes (r + 8), stat_game_code = take 4 (drop (r + 44) bytes),
                 stat_company = take 2 (drop (r + 48) bytes), banner_format = bytes ! (r + 50),
                 permission = bytes ! (r + 51), icon_address = be32_at bytes (r + 52),
                 icon_format = be16_at bytes (r + 56), icon_speed = be16_at bytes (r + 58),
                 comment_address = be32_at bytes (r + 60)\<rparr>, file_data = data\<rparr>,
              r + DOL_CARD_RECORD_SIZE + unat len))"

primrec load_records ::
  "CardHost \<Rightarrow> u8 list \<Rightarrow> nat \<Rightarrow> nat \<Rightarrow> DolMemoryCardFile list \<Rightarrow> u32 \<Rightarrow> (DolMemoryCardFile list \<times> nat \<times> u32) option"
where
  "load_records h bytes 0 r fs used_blocks = Some (fs, r, used_blocks)"
| "load_records h bytes (Suc n) r fs used_blocks = (case load_record h bytes r fs of
     None \<Rightarrow> None
   | Some (i, f, r) \<Rightarrow>
       load_records h bytes n r (fs[i := f]) (used_blocks + file_blocks (stat_length (file_stat f))))"

definition load_container :: "CardHost \<Rightarrow> DolMemoryCard \<Rightarrow> u8 list option \<Rightarrow> bool \<times> DolMemoryCard" where
  "load_container h mc disk = (case read_whole_file h disk of
     None \<Rightarrow> (False, mc)
   | Some bytes \<Rightarrow>
       if \<not> header_valid bytes then (False, mc)
       else let mc = mc\<lparr>size_mbits := be16_at bytes 12, card_encoding := be16_at bytes 14,
                  card_serial := be64_at bytes 20\<rparr>
            in case load_records h bytes (unat (be32_at bytes 28)) DOL_CARD_HEADER_SIZE (card_files mc) 0 of
                 None \<Rightarrow> (False, clear_files mc)
               | Some (fs, r, used_blocks) \<Rightarrow>
                   if r = length bytes \<and> used_blocks \<le> ucast (size_mbits mc) * 16 - DOL_CARD_SYSTEM_BLOCKS
                   then (True, mc\<lparr>card_files := fs\<rparr>) else (False, clear_files mc))"

section \<open>Opening a card\<close>

definition path_exists :: "CardHost \<Rightarrow> u8 list option \<Rightarrow> bool" where
  "path_exists h disk \<longleftrightarrow> disk \<noteq> None \<and> readable h"

definition new_card :: "CardHost \<Rightarrow> DolMemoryCardConfig \<Rightarrow> DolMemoryCard" where
  "new_card h config =
     \<lparr>card_path = duplicate_string h (cfg_path config),
      size_mbits = (if cfg_size_mbits config \<noteq> 0 then cfg_size_mbits config else 4),
      card_encoding = cfg_encoding config, card_serial = cfg_serial config,
      card_game_code = cfg_game_code config, card_company = cfg_company config, mounted = False,
      last_result = DOL_CARD_RESULT_NO_CARD, transferred_bytes = 0,
      card_files = replicate DOL_CARD_MAX_FILES empty_file\<rparr>"

definition dol_card_open ::
  "CardHost \<Rightarrow> DolMemoryCardConfig \<Rightarrow> u8 list option \<Rightarrow> DolMemoryCard option \<times> u8 list option"
where
  "dol_card_open h config disk =
     (if \<not> card_calloc_ok h then (None, disk)
      else let mc = new_card h config
      in if cfg_path config \<notin> {None, Some []} \<and> card_path mc = None then (None, disk)
         else if \<not> valid_size_mbits (size_mbits mc) then (None, disk)
         else if card_path mc \<noteq> None \<and> path_exists h disk
         then (case load_container h mc disk of
                 (True, mc) \<Rightarrow> (Some mc, disk)
               | (False, mc) \<Rightarrow> (None, disk))
         else let mc = (if card_serial mc = 0
                  then mc\<lparr>card_serial := generated_serial (card_path mc) (host_time h)\<rparr> else mc)
              in case write_container h mc disk of
                   (True, disk) \<Rightarrow> (Some mc, disk)
                 | (False, disk) \<Rightarrow> (None, disk))"

section \<open>Operations without a file\<close>

definition dol_card_probe :: "DolMemoryCard \<Rightarrow> (DolCardResult \<times> DolMemoryCard) \<times> u16 \<times> u32" where
  "dol_card_probe mc = (set_result mc DOL_CARD_RESULT_READY 0, size_mbits mc, DOL_CARD_SECTOR_SIZE)"

definition dol_card_mount :: "DolMemoryCard \<Rightarrow> DolCardResult \<times> DolMemoryCard" where
  "dol_card_mount mc = set_result (mc\<lparr>mounted := True\<rparr>) DOL_CARD_RESULT_READY
     (DOL_CARD_SYSTEM_BLOCKS * DOL_CARD_SECTOR_SIZE)"

definition dol_card_unmount :: "DolMemoryCard \<Rightarrow> DolCardResult \<times> DolMemoryCard" where
  "dol_card_unmount mc = set_result (mc\<lparr>mounted := False\<rparr>) DOL_CARD_RESULT_READY 0"

definition dol_card_check :: "DolMemoryCard \<Rightarrow> DolCardResult \<times> DolMemoryCard" where
  "dol_card_check mc = (if \<not> mounted mc then set_result mc DOL_CARD_RESULT_NO_CARD 0
     else set_result mc DOL_CARD_RESULT_READY 0)"

definition dol_card_format ::
  "CardHost \<Rightarrow> DolMemoryCard \<Rightarrow> u8 list option \<Rightarrow> (DolCardResult \<times> DolMemoryCard) \<times> u8 list option" where
  "dol_card_format h mc disk =
     (if \<not> mounted mc then (set_result mc DOL_CARD_RESULT_NO_CARD 0, disk)
      else let previous = card_files mc; mc = clear_files mc
      in case write_container h mc disk of
           (False, disk) \<Rightarrow> (set_result (mc\<lparr>card_files := previous\<rparr>) DOL_CARD_RESULT_IO_ERROR 0, disk)
         | (True, disk) \<Rightarrow> (set_result mc DOL_CARD_RESULT_READY
             (DOL_CARD_SYSTEM_BLOCKS * DOL_CARD_SECTOR_SIZE), disk))"

definition blocks_and_files :: "DolMemoryCard \<Rightarrow> u32 \<times> u32" where
  "blocks_and_files mc = fold (\<lambda>f (blocks, files). if \<not> file_used f then (blocks, files)
     else (blocks + file_blocks (stat_length (file_stat f)), files + 1)) (card_files mc) (0, 0)"

definition dol_card_free_space :: "DolMemoryCard \<Rightarrow> (DolCardResult \<times> DolMemoryCard) \<times> (u32 \<times> u32) option" where
  "dol_card_free_space mc =
     (if \<not> mounted mc then (set_result mc DOL_CARD_RESULT_NO_CARD 0, None)
      else let (blocks_used, files_used) = blocks_and_files mc
      in (set_result mc DOL_CARD_RESULT_READY 0,
          Some ((card_user_blocks mc - blocks_used) * DOL_CARD_SECTOR_SIZE, of_nat DOL_CARD_MAX_FILES - files_used)))"

section \<open>Files by name\<close>

definition dol_card_open_file ::
  "DolMemoryCard \<Rightarrow> u8 list option \<Rightarrow> (DolCardResult \<times> DolMemoryCard) \<times> (nat \<times> u32) option" where
  "dol_card_open_file mc name =
     (if \<not> mounted mc then (set_result mc DOL_CARD_RESULT_NO_CARD 0, None)
      else case find_file mc name of
        None \<Rightarrow> (set_result mc DOL_CARD_RESULT_NO_FILE 0, None)
      | Some i \<Rightarrow> (set_result mc DOL_CARD_RESULT_READY 0, Some (i, stat_length (file_stat (card_files mc ! i)))))"

text \<open>The slot of a new file: its fields over what the slot held.\<close>

definition created_file :: "CardHost \<Rightarrow> DolMemoryCard \<Rightarrow> u8 list \<Rightarrow> u32 \<Rightarrow> DolMemoryCardFile \<Rightarrow> DolMemoryCardFile" where
  "created_file h mc name len f =
     \<lparr>file_used = True, file_stat = (file_stat f)\<lparr>stat_game_code := card_game_code mc,
        stat_company := card_company mc,
        file_name := name @ [0] @ drop (length name + 1) (file_name (file_stat f)),
        stat_length := len, stat_time := card_time h, permission := 4, icon_address := 0xFFFFFFFF,
        icon_speed := 1, comment_address := 0xFFFFFFFF\<rparr>,
      file_data = replicate (unat len) 0xFF\<rparr>"

definition dol_card_create_file ::
  "CardHost \<Rightarrow> DolMemoryCard \<Rightarrow> u8 list option \<Rightarrow> u8 list option \<Rightarrow> u32 \<Rightarrow>
     (DolCardResult \<times> DolMemoryCard) \<times> u8 list option \<times> nat option"
where
  "dol_card_create_file h mc disk name len =
     (let fail = (\<lambda>mc r. (set_result mc r 0, disk, None))
      in if \<not> mounted mc then fail mc DOL_CARD_RESULT_NO_CARD
         else case name of None \<Rightarrow> fail mc DOL_CARD_RESULT_FATAL
         | Some n \<Rightarrow>
             if length n > DOL_CARD_FILENAME_MAX then fail mc DOL_CARD_RESULT_NAME_TOO_LONG
             else if len = 0 \<or> len mod DOL_CARD_SECTOR_SIZE \<noteq> 0 then fail mc DOL_CARD_RESULT_FATAL
             else if find_file mc name \<noteq> None then fail mc DOL_CARD_RESULT_EXISTS
             else case dol_card_free_space mc of ((_, mc), space) \<Rightarrow>
               (let (bytes_free, files_free) = (case space of None \<Rightarrow> (0, 0) | Some p \<Rightarrow> p)
                in if files_free = 0 then fail mc DOL_CARD_RESULT_NO_ENTRY
                   else if len > bytes_free then fail mc DOL_CARD_RESULT_INSUFFICIENT_SPACE
                   else case find (\<lambda>i. \<not> file_used (card_files mc ! i)) [0..<DOL_CARD_MAX_FILES] of
                     None \<Rightarrow> fail mc DOL_CARD_RESULT_NO_ENTRY
                   | Some i \<Rightarrow>
                       if \<not> malloc_ok h (unat len) then fail mc DOL_CARD_RESULT_IO_ERROR
                       else let mc' = mc\<lparr>card_files :=
                              (card_files mc)[i := created_file h mc n len (card_files mc ! i)]\<rparr>
                       in case write_container h mc' disk of
                            (False, disk) \<Rightarrow> (set_result (mc\<lparr>card_files := (card_files mc)[i := empty_file]\<rparr>)
                               DOL_CARD_RESULT_IO_ERROR 0, disk, None)
                          | (True, disk) \<Rightarrow> (set_result mc' DOL_CARD_RESULT_READY
                               (2 * DOL_CARD_SECTOR_SIZE), disk, Some i)))"

definition dol_card_delete_file ::
  "CardHost \<Rightarrow> DolMemoryCard \<Rightarrow> u8 list option \<Rightarrow> u8 list option \<Rightarrow> (DolCardResult \<times> DolMemoryCard) \<times> u8 list option"
where
  "dol_card_delete_file h mc disk name =
     (if \<not> mounted mc then (set_result mc DOL_CARD_RESULT_NO_CARD 0, disk)
      else case find_file mc name of
        None \<Rightarrow> (set_result mc DOL_CARD_RESULT_NO_FILE 0, disk)
      | Some i \<Rightarrow>
          (let removed = card_files mc ! i; mc = mc\<lparr>card_files := (card_files mc)[i := empty_file]\<rparr>
           in case write_container h mc disk of
                (False, disk) \<Rightarrow> (set_result (mc\<lparr>card_files := (card_files mc)[i := removed]\<rparr>)
                   DOL_CARD_RESULT_IO_ERROR 0, disk)
              | (True, disk) \<Rightarrow> (set_result mc DOL_CARD_RESULT_READY (2 * DOL_CARD_SECTOR_SIZE), disk)))"

section \<open>Files by number\<close>

text \<open>A file number is a signed word.\<close>

definition file_ours :: "DolMemoryCard \<Rightarrow> u32 \<Rightarrow> bool" where
  "file_ours mc file_no \<longleftrightarrow> \<not> (sint file_no < 0 \<or> sint file_no \<ge> int DOL_CARD_MAX_FILES \<or>
     \<not> file_used (card_files mc ! nat (sint file_no)) \<or>
     \<not> file_matches_game mc (card_files mc ! nat (sint file_no)))"

definition dol_card_close_file :: "DolMemoryCard \<Rightarrow> u32 \<Rightarrow> DolCardResult \<times> DolMemoryCard" where
  "dol_card_close_file mc file_no =
     (if \<not> mounted mc then set_result mc DOL_CARD_RESULT_NO_CARD 0
      else if \<not> file_ours mc file_no then set_result mc DOL_CARD_RESULT_FATAL 0
      else set_result mc DOL_CARD_RESULT_READY 0)"

definition validate_file_range :: "DolMemoryCard \<Rightarrow> u32 \<Rightarrow> u32 \<Rightarrow> u32 \<Rightarrow> DolCardResult" where
  "validate_file_range mc file_no offset len =
     (if \<not> mounted mc then DOL_CARD_RESULT_NO_CARD
      else if \<not> file_ours mc file_no then DOL_CARD_RESULT_NO_FILE
      else let file_length = stat_length (file_stat (card_files mc ! nat (sint file_no)))
      in if offset > file_length \<or> len > file_length - offset then DOL_CARD_RESULT_LIMIT
         else DOL_CARD_RESULT_READY)"

text \<open>The second component is what \<open>memcpy\<close> stores in the caller's buffer; \<open>buffer\<close>: it is not NULL.\<close>

definition dol_card_read_file ::
  "DolMemoryCard \<Rightarrow> u32 \<Rightarrow> u32 \<Rightarrow> bool \<Rightarrow> u32 \<Rightarrow> (DolCardResult \<times> DolMemoryCard) \<times> u8 list"
where
  "dol_card_read_file mc file_no offset buffer len =
     (let result = validate_file_range mc file_no offset len
      in if result \<noteq> DOL_CARD_RESULT_READY then (set_result mc result 0, [])
         else if \<not> buffer \<and> len \<noteq> 0 then (set_result mc DOL_CARD_RESULT_FATAL 0, [])
         else (set_result mc DOL_CARD_RESULT_READY len,
           take (unat len) (drop (unat offset) (file_data (card_files mc ! nat (sint file_no))))))"

text \<open>The caller's data are at least \<open>len\<close> bytes.\<close>

definition written_file :: "CardHost \<Rightarrow> u32 \<Rightarrow> u8 list \<Rightarrow> u32 \<Rightarrow> DolMemoryCardFile \<Rightarrow> DolMemoryCardFile" where
  "written_file h offset data len f =
     f\<lparr>file_data := take (unat offset) (file_data f) @ take (unat len) data @
         drop (unat offset + unat len) (file_data f),
       file_stat := (file_stat f)\<lparr>stat_time := card_time h\<rparr>\<rparr>"

definition dol_card_write_file ::
  "CardHost \<Rightarrow> DolMemoryCard \<Rightarrow> u8 list option \<Rightarrow> u32 \<Rightarrow> u32 \<Rightarrow> u8 list option \<Rightarrow> u32 \<Rightarrow>
     (DolCardResult \<times> DolMemoryCard) \<times> u8 list option"
where
  "dol_card_write_file h mc disk file_no offset data len =
     (let result = validate_file_range mc file_no offset len; i = nat (sint file_no); old = card_files mc ! i
      in if result \<noteq> DOL_CARD_RESULT_READY then (set_result mc result 0, disk)
         else if data = None \<and> len \<noteq> 0 then (set_result mc DOL_CARD_RESULT_FATAL 0, disk)
         else if len \<noteq> 0 \<and> \<not> malloc_ok h (unat len) then (set_result mc DOL_CARD_RESULT_IO_ERROR 0, disk)
         else let new = written_file h offset (case data of None \<Rightarrow> [] | Some d \<Rightarrow> d) len old;
                  mc = mc\<lparr>card_files := (card_files mc)[i := new]\<rparr>
         in case write_container h mc disk of
              (False, disk) \<Rightarrow> (set_result (mc\<lparr>card_files := (card_files mc)[i := old]\<rparr>)
                 DOL_CARD_RESULT_IO_ERROR 0, disk)
            | (True, disk) \<Rightarrow> (set_result mc DOL_CARD_RESULT_READY len, disk))"

definition dol_card_get_status ::
  "DolMemoryCard \<Rightarrow> u32 \<Rightarrow> bool \<Rightarrow> (DolCardResult \<times> DolMemoryCard) \<times> DolMemoryCardStat option"
where
  "dol_card_get_status mc file_no buffer =
     (let result = validate_file_range mc file_no 0 0
      in if result \<noteq> DOL_CARD_RESULT_READY then (set_result mc result 0, None)
         else if \<not> buffer then (set_result mc DOL_CARD_RESULT_FATAL 0, None)
         else (set_result mc DOL_CARD_RESULT_READY 0, Some (file_stat (card_files mc ! nat (sint file_no)))))"

definition status_file :: "CardHost \<Rightarrow> DolMemoryCardStat \<Rightarrow> DolMemoryCardFile \<Rightarrow> DolMemoryCardFile" where
  "status_file h s f = f\<lparr>file_stat := (file_stat f)\<lparr>banner_format := banner_format s, icon_address := icon_address s,
     icon_format := icon_format s, icon_speed := icon_speed s, comment_address := comment_address s,
     stat_time := card_time h\<rparr>\<rparr>"

definition dol_card_set_status ::
  "CardHost \<Rightarrow> DolMemoryCard \<Rightarrow> u8 list option \<Rightarrow> u32 \<Rightarrow> DolMemoryCardStat option \<Rightarrow>
     (DolCardResult \<times> DolMemoryCard) \<times> u8 list option"
where
  "dol_card_set_status h mc disk file_no stat =
     (let result = validate_file_range mc file_no 0 0; i = nat (sint file_no); old = card_files mc ! i
      in if result \<noteq> DOL_CARD_RESULT_READY then (set_result mc result 0, disk)
         else case stat of None \<Rightarrow> (set_result mc DOL_CARD_RESULT_FATAL 0, disk)
         | Some s \<Rightarrow>
             (let mc = mc\<lparr>card_files := (card_files mc)[i := status_file h s old]\<rparr>
              in case write_container h mc disk of
                   (False, disk) \<Rightarrow> (set_result (mc\<lparr>card_files := (card_files mc)[i := old]\<rparr>)
                      DOL_CARD_RESULT_IO_ERROR 0, disk)
                 | (True, disk) \<Rightarrow> (set_result mc DOL_CARD_RESULT_READY DOL_CARD_SECTOR_SIZE, disk)))"

section \<open>Runs\<close>

text \<open>One call of an operation, and a run of calls, each with the host it meets.\<close>

datatype card_op =
    Op_probe | Op_mount | Op_unmount | Op_check | Op_format | Op_free_space
  | Op_open_file "u8 list option" | Op_create_file "u8 list option" u32 | Op_delete_file "u8 list option"
  | Op_close_file u32 | Op_read_file u32 u32 bool u32 | Op_write_file u32 u32 "u8 list option" u32
  | Op_get_status u32 bool | Op_set_status u32 "DolMemoryCardStat option"

fun card_step :: "CardHost \<Rightarrow> card_op \<Rightarrow> DolMemoryCard \<times> u8 list option \<Rightarrow>
    (DolCardResult \<times> DolMemoryCard) \<times> u8 list option" where
  "card_step h Op_probe (mc, disk) = (fst (dol_card_probe mc), disk)"
| "card_step h Op_mount (mc, disk) = (dol_card_mount mc, disk)"
| "card_step h Op_unmount (mc, disk) = (dol_card_unmount mc, disk)"
| "card_step h Op_check (mc, disk) = (dol_card_check mc, disk)"
| "card_step h Op_format (mc, disk) = dol_card_format h mc disk"
| "card_step h Op_free_space (mc, disk) = (fst (dol_card_free_space mc), disk)"
| "card_step h (Op_open_file name) (mc, disk) = (fst (dol_card_open_file mc name), disk)"
| "card_step h (Op_create_file name len) (mc, disk) =
     (case dol_card_create_file h mc disk name len of (r, disk, i) \<Rightarrow> (r, disk))"
| "card_step h (Op_delete_file name) (mc, disk) = dol_card_delete_file h mc disk name"
| "card_step h (Op_close_file no) (mc, disk) = (dol_card_close_file mc no, disk)"
| "card_step h (Op_read_file no off buffer len) (mc, disk) =
     (fst (dol_card_read_file mc no off buffer len), disk)"
| "card_step h (Op_write_file no off data len) (mc, disk) = dol_card_write_file h mc disk no off data len"
| "card_step h (Op_get_status no buffer) (mc, disk) = (fst (dol_card_get_status mc no buffer), disk)"
| "card_step h (Op_set_status no stat) (mc, disk) = dol_card_set_status h mc disk no stat"

primrec card_run :: "(CardHost \<times> card_op) list \<Rightarrow> DolMemoryCard \<times> u8 list option \<Rightarrow> DolMemoryCard \<times> u8 list option" where
  "card_run [] s = s"
| "card_run (x # xs) s =
     (case card_step (fst x) (snd x) s of ((_, mc), disk) \<Rightarrow> card_run xs (mc, disk))"

end
