(* ===== verification/MemoryCardFacts.thy ===== *)
theory MemoryCardFacts
  imports MemoryCard
begin

text \<open>
  The memory card keeps its file table within the card's capacity, restores it when the host fails
  it, and finds it again when the container is opened the next time.
\<close>

section \<open>Big-endian fields of a buffer\<close>

lemma length_be [simp]: "length (be16 v) = 2" "length (be32 w) = 4" "length (be64 x) = 8"
  by (simp_all add: be16_def be32_def be64_def)

lemma unat_cells: "n \<le> 8 \<Longrightarrow> a \<in> cells 0 n \<Longrightarrow> unat a < n \<and> of_nat (unat a) = a"
  by (auto simp: cells_def unat_of_nat)

lemma be16_at_skip [simp]: "length xs \<le> n \<Longrightarrow> be16_at (xs @ ys) n = be16_at ys (n - length xs)"
  by (simp add: be16_at_def nth_append)

lemma be32_at_skip [simp]: "length xs \<le> n \<Longrightarrow> be32_at (xs @ ys) n = be32_at ys (n - length xs)"
  by (simp add: be32_at_def nth_append)

lemma be64_at_skip [simp]: "length xs \<le> n \<Longrightarrow> be64_at (xs @ ys) n = be64_at ys (n - length xs)"
  by (simp add: be64_at_def nth_append)

lemma be_at_Cons [simp]:
  "0 < n \<Longrightarrow> be16_at (x # ys) n = be16_at ys (n - 1)" "0 < n \<Longrightarrow> be32_at (x # ys) n = be32_at ys (n - 1)"
  using be16_at_skip[of "[x]" n ys] be32_at_skip[of "[x]" n ys] by simp_all

lemma narrow_be:
  "ucast (take_bit 16 (ucast v :: u64)) = (v :: u16)" "ucast (take_bit 32 (ucast w :: u64)) = (w :: u32)"
  "take_bit 64 x = (x :: u64)"
  by (rule bit_word_eqI; simp add: bit_simps)+

lemma be16_at_here [simp]: "be16_at (be16 v @ ys) 0 = v"
proof -
  have "be_load (\<lambda>a. (be16 v @ ys) ! (0 + unat a)) 0 2 = be_load (write_be16 zero_bytes 0 v) 0 2"
    using unat_cells[of 2] by (intro be_load_cong) (auto simp: be16_def nth_append)
  then show ?thesis by (simp add: be16_at_def read_be16_loop write_be16_loop be_load_store_same narrow_be)
qed

lemma be32_at_here [simp]: "be32_at (be32 v @ ys) 0 = v"
proof -
  have "be_load (\<lambda>a. (be32 v @ ys) ! (0 + unat a)) 0 4 = be_load (write_be32 zero_bytes 0 v) 0 4"
    using unat_cells[of 4] by (intro be_load_cong) (auto simp: be32_def nth_append)
  then show ?thesis by (simp add: be32_at_def read_be32_loop write_be32_loop be_load_store_same narrow_be)
qed

lemma be64_at_here [simp]: "be64_at (be64 v @ ys) 0 = v"
proof -
  have "be_load (\<lambda>a. (be64 v @ ys) ! (0 + unat a)) 0 8 = be_load (write_be64 zero_bytes 0 v) 0 8"
    using unat_cells[of 8] by (intro be_load_cong) (auto simp: be64_def nth_append)
  then show ?thesis by (simp add: be64_at_def read_be64_loop write_be64_loop be_load_store_same narrow_be)
qed

section \<open>Totals\<close>

lemma unat_small: "n < 2 ^ 32 \<Longrightarrow> unat (of_nat n :: u32) = n"
  by (simp add: unat_of_nat take_bit_nat_eq_self)

text \<open>The blocks of a slot and the size of its record, as numbers.\<close>

definition blocks_of :: "DolMemoryCardFile \<Rightarrow> nat" where
  "blocks_of f = (if file_used f then (unat (stat_length (file_stat f)) + 8191) div 8192 else 0)"

definition record_size :: "DolMemoryCardFile \<Rightarrow> nat" where
  "record_size f = (if file_used f then DOL_CARD_RECORD_SIZE + unat (stat_length (file_stat f)) else 0)"

definition used_count :: "DolMemoryCardFile list \<Rightarrow> nat" where
  "used_count fs = length (filter file_used fs)"

definition user_blocks :: "DolMemoryCard \<Rightarrow> nat" where
  "user_blocks mc = unat (size_mbits mc) * 16 - 5"

lemma payload_totals: "payload_size mc = (of_nat (used_count (card_files mc)), of_nat (sum_list (map record_size (card_files mc))))"
proof -
  have "fold (\<lambda>f (count, size). if \<not> file_used f then (count, size)
      else (count + 1, size + (of_nat DOL_CARD_RECORD_SIZE + stat_length (file_stat f)))) fs (c, s)
    = (c + of_nat (used_count fs), s + of_nat (sum_list (map record_size fs)))" for fs and c s :: u32
    by (induction fs arbitrary: c s) (simp_all add: used_count_def record_size_def algebra_simps)
  then show ?thesis by (simp add: payload_size_def)
qed

lemma file_blocks_nat:
  assumes "unat n + 8191 < 2 ^ 32"
  shows "file_blocks n = of_nat ((unat n + 8191) div 8192)" "unat (file_blocks n) = (unat n + 8191) div 8192"
proof -
  have "unat (8191 + n) = unat n + 8191" using assms by (simp add: unat_word_ariths)
  then have "unat (file_blocks n) = (unat n + 8191) div 8192" by (simp add: file_blocks_def unat_div)
  moreover have "file_blocks n = of_nat (unat (file_blocks n))" by simp
  ultimately show "unat (file_blocks n) = (unat n + 8191) div 8192" "file_blocks n = of_nat ((unat n + 8191) div 8192)"
    by simp_all
qed

lemma block_totals:
  assumes "\<And>f. f \<in> set (card_files mc) \<Longrightarrow> file_used f \<Longrightarrow> unat (stat_length (file_stat f)) + 8191 < 2 ^ 32"
  shows "blocks_and_files mc = (of_nat (sum_list (map blocks_of (card_files mc))), of_nat (used_count (card_files mc)))"
proof -
  have "fold (\<lambda>f (blocks, files). if \<not> file_used f then (blocks, files)
      else (blocks + file_blocks (stat_length (file_stat f)), files + 1)) fs (b, n)
    = (b + of_nat (sum_list (map blocks_of fs)), n + of_nat (used_count fs))"
    if "\<And>f. f \<in> set fs \<Longrightarrow> file_used f \<Longrightarrow> unat (stat_length (file_stat f)) + 8191 < 2 ^ 32" for fs and b n :: u32
    using that
    by (induction fs arbitrary: b n) (simp_all add: used_count_def blocks_of_def file_blocks_nat(1) algebra_simps)
  from this[OF assms, of "card_files mc" 0 0] show ?thesis by (simp add: blocks_and_files_def)
qed

section \<open>The invariant\<close>

definition file_ok :: "DolMemoryCardFile \<Rightarrow> bool" where
  "file_ok f \<longleftrightarrow> (if file_used f
     then length (file_name (file_stat f)) = 33 \<and> file_name (file_stat f) ! 32 = 0 \<and>
       length (stat_game_code (file_stat f)) = 4 \<and> length (stat_company (file_stat f)) = 2 \<and>
       length (file_data f) = unat (stat_length (file_stat f))
     else f = empty_file)"

definition card_wf :: "DolMemoryCard \<Rightarrow> bool" where
  "card_wf mc \<longleftrightarrow> valid_size_mbits (size_mbits mc) \<and> length (card_game_code mc) = 4 \<and> length (card_company mc) = 2 \<and>
     length (card_files mc) = DOL_CARD_MAX_FILES \<and> (\<forall>f \<in> set (card_files mc). file_ok f) \<and>
     sum_list (map blocks_of (card_files mc)) \<le> user_blocks mc"

lemma size_cases:
  assumes "valid_size_mbits n"
  shows "unat n \<in> {4, 8, 16, 32, 64, 128}"
  using assms by (auto simp: valid_size_mbits_def)

lemma user_blocks_bound: "valid_size_mbits (size_mbits mc) \<Longrightarrow> user_blocks mc \<le> 2043"
  using size_cases[of "size_mbits mc"] by (auto simp: user_blocks_def)

lemma user_blocks_word:
  assumes "valid_size_mbits (size_mbits mc)"
  shows "unat (card_user_blocks mc) = user_blocks mc"
  using assms by (auto simp: valid_size_mbits_def card_user_blocks_def card_total_blocks_def user_blocks_def)

lemma used_length_bound:
  assumes "card_wf mc" and "f \<in> set (card_files mc)"
  shows "blocks_of f \<le> 2043" "file_used f \<Longrightarrow> unat (stat_length (file_stat f)) \<le> 2043 * 8192"
proof -
  have "blocks_of f \<le> sum_list (map blocks_of (card_files mc))" using assms(2) by (intro member_le_sum_list) auto
  also have "\<dots> \<le> 2043" using assms(1) user_blocks_bound[of mc] by (simp add: card_wf_def)
  finally show "blocks_of f \<le> 2043" .
  then show "unat (stat_length (file_stat f)) \<le> 2043 * 8192" if "file_used f"
    using that by (simp add: blocks_of_def)
qed

lemma record_total:
  assumes "card_wf mc"
  shows "sum_list (map record_size (card_files mc)) < 2 ^ 32"
proof -
  have round: "n \<le> 8192 * ((n + 8191) div 8192)" for n :: nat
    using div_mult_mod_eq[of "n + 8191" 8192] mod_less_divisor[of 8192 "n + 8191"] by linarith
  have "record_size f \<le> 68 + 8192 * blocks_of f" for f
    using round[of "unat (stat_length (file_stat f))"] by (simp add: record_size_def blocks_of_def)
  then have "sum_list (map record_size (card_files mc)) \<le> sum_list (map (\<lambda>f. 68 + 8192 * blocks_of f) (card_files mc))"
    by (intro sum_list_mono) simp
  also have "\<dots> = 68 * length (card_files mc) + 8192 * sum_list (map blocks_of (card_files mc))"
    by (simp add: sum_list_addf sum_list_const_mult sum_list_triv)
  also have "\<dots> \<le> 68 * 127 + 8192 * 2043"
    using assms user_blocks_bound[of mc] by (auto simp: card_wf_def)
  finally show ?thesis by simp
qed

lemma unat_sectors: "unat x * 8192 < 2 ^ 32 \<Longrightarrow> unat (x * DOL_CARD_SECTOR_SIZE) = unat x * 8192" for x :: u32
  by (simp add: unat_word_ariths)

lemma free_space_exact:
  assumes "card_wf mc"
  shows "unat ((card_user_blocks mc - fst (blocks_and_files mc)) * DOL_CARD_SECTOR_SIZE) =
      (user_blocks mc - sum_list (map blocks_of (card_files mc))) * 8192"
    and "unat (of_nat DOL_CARD_MAX_FILES - snd (blocks_and_files mc) :: u32) = 127 - used_count (card_files mc)"
proof -
  have wf: "valid_size_mbits (size_mbits mc)" "sum_list (map blocks_of (card_files mc)) \<le> user_blocks mc"
    "length (card_files mc) = 127" using assms by (simp_all add: card_wf_def)
  have totals: "blocks_and_files mc = (of_nat (sum_list (map blocks_of (card_files mc))), of_nat (used_count (card_files mc)))"
    using used_length_bound(2)[OF assms] by (intro block_totals) fastforce
  note bound = user_blocks_bound[OF wf(1)]
  have u: "unat (of_nat (sum_list (map blocks_of (card_files mc))) :: u32) = sum_list (map blocks_of (card_files mc))"
    using wf(2) bound by (simp add: unat_small)
  then have d: "unat (card_user_blocks mc - of_nat (sum_list (map blocks_of (card_files mc)))) =
      user_blocks mc - sum_list (map blocks_of (card_files mc))"
    using wf(2) user_blocks_word[OF wf(1)] by (simp add: unat_sub word_le_nat_alt)
  show "unat ((card_user_blocks mc - fst (blocks_and_files mc)) * DOL_CARD_SECTOR_SIZE) =
      (user_blocks mc - sum_list (map blocks_of (card_files mc))) * 8192"
    using bound unat_sectors[of "card_user_blocks mc - of_nat (sum_list (map blocks_of (card_files mc)))"]
    unfolding totals d fst_conv by simp
  have "used_count (card_files mc) \<le> 127" using wf(3) length_filter_le[of file_used "card_files mc"] by (simp add: used_count_def)
  then show "unat (of_nat DOL_CARD_MAX_FILES - snd (blocks_and_files mc) :: u32) = 127 - used_count (card_files mc)"
    by (simp add: totals unat_sub word_le_nat_alt unat_small)
qed

section \<open>Reading a container back\<close>

definition host_works :: "CardHost \<Rightarrow> bool" where
  "host_works h \<longleftrightarrow> card_calloc_ok h \<and> (\<forall>n. malloc_ok h n) \<and> readable h \<and> read_ok h"

definition records :: "nat \<Rightarrow> DolMemoryCardFile list \<Rightarrow> u8 list" where
  "records i fs = concat (map (\<lambda>(i, f). if file_used f then file_record i f else []) (enumerate i fs))"

lemma records_simps [simp]:
  "records i [] = []"
  "records i (f # fs) = (if file_used f then file_record i f else []) @ records (Suc i) fs"
  by (simp_all add: records_def)

lemma container_body_records: "container_body mc = records 0 (card_files mc)"
  by (simp add: container_body_def records_def)

lemma length_record:
  assumes "file_ok f" and "file_used f"
  shows "length (file_record i f) = record_size f"
  using assms by (simp add: file_record_def file_ok_def record_size_def Let_def)

lemma length_records: "\<forall>f \<in> set fs. file_ok f \<Longrightarrow> length (records i fs) = sum_list (map record_size fs)"
  by (induction fs arbitrary: i) (auto simp: length_record record_size_def)

lemma load_record_back:
  assumes "file_ok f" and "file_used f" and "i < DOL_CARD_MAX_FILES" and "\<not> file_used (fs ! i)" and "host_works h"
  shows "load_record h (pre @ file_record i f @ post) (length pre) fs = Some (i, f, length pre + record_size f)"
proof -
  let ?s = "file_stat f"
  have f: "length (file_name ?s) = 33" "file_name ?s ! 32 = 0" "length (stat_game_code ?s) = 4"
    "length (stat_company ?s) = 2" "length (file_data f) = unat (stat_length ?s)"
    using assms(1,2) by (simp_all add: file_ok_def)
  have name: "take 32 (file_name ?s) @ [0] = file_name ?s"
    using f(1,2) take_Suc_conv_app_nth[of 32 "file_name ?s"] by simp
  have i: "unat (of_nat i :: u16) = i" using assms(3) by (simp add: unat_of_nat take_bit_nat_eq_self)
  show ?thesis
    using f assms i name unfolding load_record_def file_record_def
    by (simp add: record_size_def host_works_def Let_def nth_append_right nth_Cons')
qed

lemma load_records_back:
  assumes "\<forall>f \<in> set fs. file_ok f" and "length done + length fs \<le> DOL_CARD_MAX_FILES" and "host_works h"
    and "\<forall>f \<in> set fs. file_used f \<longrightarrow> unat (stat_length (file_stat f)) + 8191 < 2 ^ 32"
  shows "load_records h (pre @ records (length done) fs @ post) (used_count fs) (length pre)
      (done @ replicate (length fs) empty_file) blocks =
    Some (done @ fs, length pre + sum_list (map record_size fs), blocks + of_nat (sum_list (map blocks_of fs)))"
  using assms
proof (induction fs arbitrary: pre "done" blocks)
  case Nil then show ?case by (simp add: used_count_def)
next
  case (Cons f fs)
  show ?case
  proof (cases "file_used f")
    case False
    then have "f = empty_file" using Cons.prems(1) by (simp add: file_ok_def)
    with Cons.IH[of "done @ [f]" pre blocks] Cons.prems False show ?thesis
      by (simp add: used_count_def record_size_def blocks_of_def)
  next
    case True
    have slot: "\<not> file_used ((done @ replicate (length (f # fs)) empty_file) ! length done)"
      by (simp add: nth_append empty_file_def)
    have ok: "file_ok f" "length done < DOL_CARD_MAX_FILES" using Cons.prems by simp_all
    note here = load_record_back[OF ok(1) True ok(2) slot Cons.prems(3), of pre "records (Suc (length done)) fs @ post"]
    have len: "length (pre @ file_record (length done) f) = length pre + record_size f"
      using length_record[OF ok(1) True] by simp
    have upd: "(done @ replicate (length (f # fs)) empty_file)[length done := f] = (done @ [f]) @ replicate (length fs) empty_file"
      by simp
    have rest: "load_records h ((pre @ file_record (length done) f) @ records (length (done @ [f])) fs @ post) (used_count fs)
        (length (pre @ file_record (length done) f)) ((done @ [f]) @ replicate (length fs) empty_file)
        (blocks + file_blocks (stat_length (file_stat f))) =
      Some ((done @ [f]) @ fs, length (pre @ file_record (length done) f) + sum_list (map record_size fs),
        blocks + file_blocks (stat_length (file_stat f)) + of_nat (sum_list (map blocks_of fs)))"
      using Cons.prems by (intro Cons.IH) simp_all
    have count: "used_count (f # fs) = Suc (used_count fs)" using True by (simp add: used_count_def)
    have blocks: "file_blocks (stat_length (file_stat f)) = of_nat (blocks_of f)"
      using True Cons.prems(4) by (simp add: file_blocks_nat(1) blocks_of_def)
    have "load_records h (pre @ records (length done) (f # fs) @ post) (used_count (f # fs)) (length pre)
        (done @ replicate (length (f # fs)) empty_file) blocks =
      load_records h ((pre @ file_record (length done) f) @ records (length (done @ [f])) fs @ post) (used_count fs)
        (length (pre @ file_record (length done) f)) ((done @ [f]) @ replicate (length fs) empty_file)
        (blocks + file_blocks (stat_length (file_stat f)))"
      unfolding count load_records.simps using here True len upd by (simp del: list_update_append replicate.simps)
    also note rest
    finally show ?thesis unfolding len blocks by simp
  qed
qed

text \<open>What opening a container puts into a new card.\<close>

definition restored :: "DolMemoryCard \<Rightarrow> DolMemoryCard \<Rightarrow> DolMemoryCard" where
  "restored mc mc0 = mc0\<lparr>size_mbits := size_mbits mc, card_encoding := card_encoding mc,
     card_serial := card_serial mc, card_files := card_files mc\<rparr>"

lemma container_header:
  assumes "card_wf mc"
  shows "header_valid (container mc)" "be16_at (container mc) 12 = size_mbits mc"
    "be16_at (container mc) 14 = card_encoding mc" "be64_at (container mc) 20 = card_serial mc"
    "be32_at (container mc) 28 = of_nat (used_count (card_files mc))"
    "length (container mc) = 40 + sum_list (map record_size (card_files mc))"
    "drop 40 (container mc) = records 0 (card_files mc)"
proof -
  have magic: "length k_card_magic = 8" by (simp add: k_card_magic_def)
  have files: "\<forall>f \<in> set (card_files mc). file_ok f" "length (card_files mc) = 127" "valid_size_mbits (size_mbits mc)"
    using assms by (simp_all add: card_wf_def)
  have count: "used_count (card_files mc) \<le> 127" using files(2) length_filter_le[of file_used "card_files mc"] by (simp add: used_count_def)
  note len = length_records[OF files(1), of 0] and total = record_total[OF assms]
  show fields: "be16_at (container mc) 12 = size_mbits mc"
    "be16_at (container mc) 14 = card_encoding mc" "be64_at (container mc) 20 = card_serial mc"
    "be32_at (container mc) 28 = of_nat (used_count (card_files mc))"
    "length (container mc) = 40 + sum_list (map record_size (card_files mc))"
    "drop 40 (container mc) = records 0 (card_files mc)"
    by (simp_all add: container_def payload_totals Let_def magic container_body_records len)
  show "header_valid (container mc)"
    unfolding header_valid_def fields
    using files(3) count total unat_small[of "used_count (card_files mc)"] unat_small[OF total]
    by (simp add: container_def payload_totals Let_def magic container_body_records)
qed

lemma load_container_back:
  assumes "card_wf mc" and "host_works h" and "card_files mc0 = replicate DOL_CARD_MAX_FILES empty_file"
  shows "load_container h mc0 (Some (container mc)) = (True, restored mc mc0)"
proof -
  note header = container_header[OF assms(1)]
  have files: "\<forall>f \<in> set (card_files mc). file_ok f" "length (card_files mc) = 127" "valid_size_mbits (size_mbits mc)"
    "sum_list (map blocks_of (card_files mc)) \<le> user_blocks mc"
    using assms(1) by (simp_all add: card_wf_def)
  have read: "read_whole_file h (Some (container mc)) = Some (container mc)"
    using assms(2) by (simp add: read_whole_file_def host_works_def)
  have count: "unat (of_nat (used_count (card_files mc)) :: u32) = used_count (card_files mc)"
    using files(2) length_filter_le[of file_used "card_files mc"] by (intro unat_small) (simp add: used_count_def)
  have split: "container mc = take 40 (container mc) @ records (length ([] :: DolMemoryCardFile list)) (card_files mc) @ []"
    using header(7) append_take_drop_id[of 40 "container mc"] by simp
  have pre: "length (take 40 (container mc)) = 40" using header(6) by simp
  have small: "\<forall>f \<in> set (card_files mc). file_used f \<longrightarrow> unat (stat_length (file_stat f)) + 8191 < 2 ^ 32"
    using used_length_bound(2)[OF assms(1)] by fastforce
  have loaded: "load_records h (container mc) (used_count (card_files mc)) 40 (replicate 127 empty_file) 0 =
      Some (card_files mc, length (container mc), of_nat (sum_list (map blocks_of (card_files mc))))"
    using load_records_back[OF files(1) _ assms(2) small, of "[]" "take 40 (container mc)" "[]" 0] split pre files(2) header(6)
    by simp
  have "of_nat (sum_list (map blocks_of (card_files mc))) \<le> card_user_blocks mc"
    using files(4) user_blocks_word[OF files(3)] user_blocks_bound[OF files(3)]
    by (simp add: word_le_nat_alt unat_small)
  then have fits: "of_nat (sum_list (map blocks_of (card_files mc))) \<le> ucast (size_mbits mc) * 16 - DOL_CARD_SYSTEM_BLOCKS"
    by (simp add: card_user_blocks_def card_total_blocks_def)
  show ?thesis unfolding load_container_def read
    using header(1-5) loaded fits assms(3) count by (simp add: restored_def Let_def)
qed

section \<open>What an operation does to the files\<close>

definition same_identity :: "DolMemoryCard \<Rightarrow> DolMemoryCard \<Rightarrow> bool" where
  "same_identity mc mc' \<longleftrightarrow> card_path mc' = card_path mc \<and> size_mbits mc' = size_mbits mc \<and>
     card_encoding mc' = card_encoding mc \<and> card_serial mc' = card_serial mc \<and>
     card_game_code mc' = card_game_code mc \<and> card_company mc' = card_company mc"

text \<open>The file tables an operation can try to write; only formatting (\<open>wipe\<close>) replaces them all.\<close>

inductive edits :: "bool \<Rightarrow> CardHost \<Rightarrow> DolMemoryCard \<Rightarrow> DolMemoryCardFile list \<Rightarrow> bool" for wipe h mc where
  formatted: "wipe \<Longrightarrow> edits wipe h mc (replicate DOL_CARD_MAX_FILES empty_file)"
| created: "i < DOL_CARD_MAX_FILES \<Longrightarrow> \<not> file_used (card_files mc ! i) \<Longrightarrow> length n \<le> DOL_CARD_FILENAME_MAX \<Longrightarrow>
    len \<noteq> 0 \<Longrightarrow> len mod DOL_CARD_SECTOR_SIZE = 0 \<Longrightarrow>
    len \<le> (card_user_blocks mc - fst (blocks_and_files mc)) * DOL_CARD_SECTOR_SIZE \<Longrightarrow>
    edits wipe h mc ((card_files mc)[i := created_file h mc n len (card_files mc ! i)])"
| deleted: "i < DOL_CARD_MAX_FILES \<Longrightarrow> file_used (card_files mc ! i) \<Longrightarrow> file_matches_game mc (card_files mc ! i) \<Longrightarrow>
    edits wipe h mc ((card_files mc)[i := empty_file])"
| written: "i < DOL_CARD_MAX_FILES \<Longrightarrow> file_used (card_files mc ! i) \<Longrightarrow> file_matches_game mc (card_files mc ! i) \<Longrightarrow>
    unat offset + unat len \<le> unat (stat_length (file_stat (card_files mc ! i))) \<Longrightarrow> unat len \<le> length data \<Longrightarrow>
    edits wipe h mc ((card_files mc)[i := written_file h offset data len (card_files mc ! i)])"
| described: "i < DOL_CARD_MAX_FILES \<Longrightarrow> file_used (card_files mc ! i) \<Longrightarrow> file_matches_game mc (card_files mc ! i) \<Longrightarrow>
    edits wipe h mc ((card_files mc)[i := status_file h s (card_files mc ! i)])"

text \<open>An operation leaves files and container as they are, or writes an edited table and keeps it,
  or fails to write it and puts the old one back.\<close>

definition outcome :: "bool \<Rightarrow> CardHost \<Rightarrow> DolMemoryCard \<Rightarrow> u8 list option \<Rightarrow> DolCardResult \<Rightarrow> DolMemoryCard \<Rightarrow> u8 list option \<Rightarrow> bool" where
  "outcome wipe h mc disk r mc' disk' \<longleftrightarrow> same_identity mc mc' \<and>
     (card_files mc' = card_files mc \<and> disk' = disk \<or>
      (\<exists>fs. edits wipe h mc fs \<and>
         (write_container h (mc\<lparr>card_files := fs\<rparr>) disk = (True, disk') \<and> r = DOL_CARD_RESULT_READY \<and> card_files mc' = fs \<or>
          write_container h (mc\<lparr>card_files := fs\<rparr>) disk = (False, disk') \<and> r = DOL_CARD_RESULT_IO_ERROR \<and>
            card_files mc' = card_files mc)))"

text \<open>The caller's buffer holds what a write asks for.\<close>

fun op_ok :: "card_op \<Rightarrow> bool" where
  "op_ok (Op_write_file no off (Some data) len) \<longleftrightarrow> unat len \<le> length data"
| "op_ok _ \<longleftrightarrow> True"

lemma set_result_simps [simp]:
  "card_files (snd (set_result mc r n)) = card_files mc" "fst (set_result mc r n) = r"
  "same_identity mc (snd (set_result mc' r n)) = same_identity mc mc'"
  "set_result mc r n = (r', mc') \<longleftrightarrow> r' = r \<and> mc' = mc\<lparr>last_result := r, transferred_bytes := n\<rparr>"
  "(r', mc') = set_result mc r n \<longleftrightarrow> r' = r \<and> mc' = mc\<lparr>last_result := r, transferred_bytes := n\<rparr>"
  by (auto simp: set_result_def same_identity_def)

lemma write_container_files:
  "card_path mc' = card_path mc \<Longrightarrow> size_mbits mc' = size_mbits mc \<Longrightarrow> card_encoding mc' = card_encoding mc \<Longrightarrow>
     card_serial mc' = card_serial mc \<Longrightarrow> card_files mc' = card_files mc \<Longrightarrow> write_container h mc' disk = write_container h mc disk"
proof -
  assume same: "card_path mc' = card_path mc" "size_mbits mc' = size_mbits mc" "card_encoding mc' = card_encoding mc"
    "card_serial mc' = card_serial mc" "card_files mc' = card_files mc"
  then have "payload_size mc' = payload_size mc" "container mc' = container mc"
    by (simp_all add: container_def container_body_def payload_size_def)
  with same(1) show ?thesis by (simp only: write_container_def)
qed

lemma file_ours_index:
  assumes "file_ours mc no"
  shows "nat (sint no) < DOL_CARD_MAX_FILES" "file_used (card_files mc ! nat (sint no))"
    "file_matches_game mc (card_files mc ! nat (sint no))"
  using assms by (auto simp: file_ours_def)

lemma range_ready:
  assumes "validate_file_range mc no off len = DOL_CARD_RESULT_READY"
  shows "mounted mc" "file_ours mc no"
    "unat off + unat len \<le> unat (stat_length (file_stat (card_files mc ! nat (sint no))))"
proof -
  show "mounted mc" "file_ours mc no" using assms by (auto simp: validate_file_range_def split: if_splits)
  with assms have "\<not> (off > stat_length (file_stat (card_files mc ! nat (sint no))) \<or>
      len > stat_length (file_stat (card_files mc ! nat (sint no))) - off)"
    by (auto simp: validate_file_range_def Let_def split: if_splits)
  then show "unat off + unat len \<le> unat (stat_length (file_stat (card_files mc ! nat (sint no))))"
    using fits_nat[of off "stat_length (file_stat (card_files mc ! nat (sint no)))" len] by (simp add: not_less)
qed

lemma find_file_slot:
  assumes "find_file mc name = Some i"
  shows "i < DOL_CARD_MAX_FILES" "file_used (card_files mc ! i)" "file_matches_game mc (card_files mc ! i)"
  using assms by (auto simp: find_file_def find_Some_iff split: option.splits)

lemma free_space_step:
  assumes "mounted mc"
  shows "dol_card_free_space mc = ((DOL_CARD_RESULT_READY, mc\<lparr>last_result := DOL_CARD_RESULT_READY, transferred_bytes := 0\<rparr>),
     Some ((card_user_blocks mc - fst (blocks_and_files mc)) * DOL_CARD_SECTOR_SIZE,
           of_nat DOL_CARD_MAX_FILES - snd (blocks_and_files mc)))"
  using assms by (simp add: dol_card_free_space_def set_result_def split: prod.split)

lemma outcome_format: "dol_card_format h mc disk = ((r, mc'), disk') \<Longrightarrow> outcome True h mc disk r mc' disk'"
  using formatted[of True h mc]
  by (auto simp: dol_card_format_def outcome_def same_identity_def clear_files_def Let_def
    split: if_splits prod.splits bool.splits)

lemma outcome_delete:
  assumes "dol_card_delete_file h mc disk name = ((r, mc'), disk')"
  shows "outcome wipe h mc disk r mc' disk'"
proof (cases "find_file mc name")
  case None
  with assms show ?thesis
    by (auto simp: dol_card_delete_file_def outcome_def same_identity_def split: if_splits)
next
  case (Some i)
  from deleted[OF find_file_slot[OF Some], of wipe h] assms Some show ?thesis
    by (auto simp: dol_card_delete_file_def outcome_def same_identity_def Let_def
      split: if_splits prod.splits bool.splits intro!: exI)
qed

lemma create_accepted:
  assumes "mounted mc" "name = Some n" "length n \<le> DOL_CARD_FILENAME_MAX" "len \<noteq> 0"
    "len mod DOL_CARD_SECTOR_SIZE = 0" "find_file mc name = None" "of_nat DOL_CARD_MAX_FILES - snd (blocks_and_files mc) \<noteq> 0"
    "len \<le> (card_user_blocks mc - fst (blocks_and_files mc)) * DOL_CARD_SECTOR_SIZE"
    "find (\<lambda>i. \<not> file_used (card_files mc ! i)) [0..<DOL_CARD_MAX_FILES] = Some i" "malloc_ok h (unat len)"
    and "write_container h (mc\<lparr>card_files := (card_files mc)[i := created_file h mc n len (card_files mc ! i)]\<rparr>) disk = (ok, d)"
  shows "dol_card_create_file h mc disk name len =
    (let mc0 = mc\<lparr>last_result := DOL_CARD_RESULT_READY, transferred_bytes := 0\<rparr>
     in if ok then (set_result (mc0\<lparr>card_files := (card_files mc)[i := created_file h mc n len (card_files mc ! i)]\<rparr>)
          DOL_CARD_RESULT_READY (2 * DOL_CARD_SECTOR_SIZE), d, Some i)
        else (set_result (mc0\<lparr>card_files := (card_files mc)[i := empty_file]\<rparr>) DOL_CARD_RESULT_IO_ERROR 0, d, None))"
proof -
  let ?mc = "mc\<lparr>last_result := DOL_CARD_RESULT_READY, transferred_bytes := 0\<rparr>"
  have created: "created_file h ?mc n len f = created_file h mc n len f" for f by (simp add: created_file_def)
  let ?fs = "(card_files mc)[i := created_file h mc n len (card_files mc ! i)]"
  have w: "write_container h (?mc\<lparr>card_files := ?fs\<rparr>) disk = write_container h (mc\<lparr>card_files := ?fs\<rparr>) disk"
    by (rule write_container_files) simp_all
  show ?thesis
    using assms(1-7,9,10) assms(8)[unfolded not_less[symmetric]] unfolding dol_card_create_file_def
    by (cases ok; simp add: free_space_step Let_def created w assms(11) del: left_diff_distrib_numeral)
qed

text \<open>Creating a file: either a refusal, or the first free slot is filled and written.\<close>

lemma create_cases:
  assumes "dol_card_create_file h mc disk name len = ((r, mc'), disk', no)"
  obtains "no = None" "disk' = disk" "r \<noteq> DOL_CARD_RESULT_READY" "same_identity mc mc'" "card_files mc' = card_files mc"
  | n i ok where "mounted mc" "name = Some n" "length n \<le> DOL_CARD_FILENAME_MAX" "len \<noteq> 0" "len mod DOL_CARD_SECTOR_SIZE = 0"
    "find_file mc name = None" "len \<le> (card_user_blocks mc - fst (blocks_and_files mc)) * DOL_CARD_SECTOR_SIZE"
    "i < DOL_CARD_MAX_FILES" "\<not> file_used (card_files mc ! i)" "same_identity mc mc'"
    "write_container h (mc\<lparr>card_files := (card_files mc)[i := created_file h mc n len (card_files mc ! i)]\<rparr>) disk = (ok, disk')"
    "if ok then no = Some i \<and> r = DOL_CARD_RESULT_READY \<and> mounted mc' \<and>
         card_files mc' = (card_files mc)[i := created_file h mc n len (card_files mc ! i)]
     else no = None \<and> r = DOL_CARD_RESULT_IO_ERROR \<and> card_files mc' = (card_files mc)[i := empty_file]"
proof -
  let ?free = "(card_user_blocks mc - fst (blocks_and_files mc)) * DOL_CARD_SECTOR_SIZE"
  show thesis
  proof (cases "mounted mc \<and> (\<exists>n. name = Some n \<and> length n \<le> DOL_CARD_FILENAME_MAX) \<and> len \<noteq> 0 \<and>
      len mod DOL_CARD_SECTOR_SIZE = 0 \<and> find_file mc name = None \<and>
      of_nat DOL_CARD_MAX_FILES - snd (blocks_and_files mc) \<noteq> 0 \<and> len \<le> ?free \<and>
      find (\<lambda>i. \<not> file_used (card_files mc ! i)) [0..<DOL_CARD_MAX_FILES] \<noteq> None \<and> malloc_ok h (unat len)")
    case True
    then obtain n i where n: "mounted mc" "name = Some n" "length n \<le> DOL_CARD_FILENAME_MAX" "len \<noteq> 0"
      "len mod DOL_CARD_SECTOR_SIZE = 0" "find_file mc name = None" "of_nat DOL_CARD_MAX_FILES - snd (blocks_and_files mc) \<noteq> 0"
      "len \<le> ?free" "find (\<lambda>i. \<not> file_used (card_files mc ! i)) [0..<DOL_CARD_MAX_FILES] = Some i" "malloc_ok h (unat len)"
      by auto
    have i: "i < DOL_CARD_MAX_FILES" "\<not> file_used (card_files mc ! i)" using n(9) by (auto simp: find_Some_iff)
    let ?fs = "(card_files mc)[i := created_file h mc n len (card_files mc ! i)]"
    obtain ok d where ok: "write_container h (mc\<lparr>card_files := ?fs\<rparr>) disk = (ok, d)" by fastforce
    note create_accepted[OF n ok]
    with assms ok n i show thesis
      by (intro that(2)[of n i ok]) (auto simp: same_identity_def Let_def split: if_splits)
  next
    case False
    with assms show thesis
      unfolding dol_card_create_file_def
      by (intro that(1)) (auto simp: free_space_step same_identity_def Let_def not_le not_less
        simp del: left_diff_distrib_numeral split: if_splits option.splits)
  qed
qed

lemma free_slot:
  assumes "card_wf mc" and "i < DOL_CARD_MAX_FILES" and "\<not> file_used (card_files mc ! i)"
  shows "card_files mc ! i = empty_file" "(card_files mc)[i := empty_file] = card_files mc"
proof -
  have "card_files mc ! i \<in> set (card_files mc)" using assms(1,2) by (simp add: card_wf_def)
  then show "card_files mc ! i = empty_file" using assms(1,3) by (auto simp: card_wf_def file_ok_def)
  then show "(card_files mc)[i := empty_file] = card_files mc" by (metis list_update_id)
qed

lemma outcome_create:
  assumes "card_wf mc" and "dol_card_create_file h mc disk name len = ((r, mc'), disk', no)"
  shows "outcome wipe h mc disk r mc' disk'"
  using assms(2)
proof (cases rule: create_cases)
  case (2 n i ok)
  from created[OF 2(8,9,3-5,7), of wipe h] have "edits wipe h mc ((card_files mc)[i := created_file h mc n len (card_files mc ! i)])" .
  with 2(10-) free_slot[OF assms(1) 2(8,9)] show ?thesis by (cases ok) (auto simp: outcome_def)
qed (simp add: outcome_def)

lemma outcome_write:
  assumes "op_ok (Op_write_file no off data len)" and "dol_card_write_file h mc disk no off data len = ((r, mc'), disk')"
  shows "outcome wipe h mc disk r mc' disk'"
proof (cases "validate_file_range mc no off len = DOL_CARD_RESULT_READY \<and> \<not> (data = None \<and> len \<noteq> 0)")
  case True
  let ?i = "nat (sint no)" and ?d = "case data of None \<Rightarrow> [] | Some d \<Rightarrow> d"
  have d: "unat len \<le> length ?d" using assms(1) True by (cases data) auto
  from True have ready: "file_ours mc no"
    "unat off + unat len \<le> unat (stat_length (file_stat (card_files mc ! ?i)))" using range_ready by blast+
  let ?fs = "(card_files mc)[?i := written_file h off ?d len (card_files mc ! ?i)]"
  have edit: "edits wipe h mc ?fs" using written[OF file_ours_index[OF ready(1)] ready(2) d, of wipe h] .
  show ?thesis
  proof (cases "len \<noteq> 0 \<and> \<not> malloc_ok h (unat len)")
    case False
    obtain ok d where w: "write_container h (mc\<lparr>card_files := ?fs\<rparr>) disk = (ok, d)" by fastforce
    from assms(2) True False have "if ok then r = DOL_CARD_RESULT_READY \<and> card_files mc' = ?fs \<and> disk' = d \<and> same_identity mc mc'
        else r = DOL_CARD_RESULT_IO_ERROR \<and> card_files mc' = card_files mc \<and> disk' = d \<and> same_identity mc mc'"
      unfolding dol_card_write_file_def Let_def by (cases ok) (auto simp: w same_identity_def)
    with edit w show ?thesis by (cases ok) (auto simp: outcome_def)
  qed (use assms(2) True in \<open>auto simp: dol_card_write_file_def outcome_def same_identity_def Let_def\<close>)
next
  case False
  with assms(2) show ?thesis
    by (auto simp: dol_card_write_file_def outcome_def same_identity_def Let_def split: if_splits)
qed

lemma outcome_status:
  assumes "dol_card_set_status h mc disk no s = ((r, mc'), disk')"
  shows "outcome wipe h mc disk r mc' disk'"
proof (cases "validate_file_range mc no 0 0 = DOL_CARD_RESULT_READY")
  case True
  from described[OF file_ours_index[OF range_ready(2)[OF True]], of wipe h] assms True show ?thesis
    by (auto simp: dol_card_set_status_def outcome_def same_identity_def Let_def
      split: if_splits prod.splits bool.splits option.splits intro!: exI)
next
  case False
  with assms show ?thesis by (auto simp: dol_card_set_status_def outcome_def same_identity_def Let_def)
qed

lemma step_outcome:
  assumes "card_wf mc" and "op_ok op" and "card_step h op (mc, disk) = ((r, mc'), disk')"
  shows "outcome (op = Op_format) h mc disk r mc' disk'"
proof (cases op)
  case (Op_create_file name len)
  then show ?thesis using assms(3) outcome_create[OF assms(1)] by (auto split: prod.splits)
next
  case (Op_write_file no off data len)
  then show ?thesis using assms(2,3) outcome_write by simp
qed (use assms(3) outcome_format outcome_delete outcome_status in \<open>auto simp: outcome_def same_identity_def
  dol_card_probe_def dol_card_mount_def dol_card_unmount_def dol_card_check_def dol_card_free_space_def dol_card_open_file_def
  dol_card_close_file_def dol_card_read_file_def dol_card_get_status_def Let_def
  split: if_splits option.splits prod.splits\<close>)

section \<open>The invariant is kept\<close>

lemma empty_ok [simp]: "file_ok empty_file" "blocks_of empty_file = 0" "\<not> file_used empty_file"
  by (simp_all add: file_ok_def blocks_of_def empty_file_def)

lemma wf_slot:
  assumes "card_wf mc" and "i < DOL_CARD_MAX_FILES" and "file_ok f"
    and "blocks_of f \<le> blocks_of (card_files mc ! i) + (user_blocks mc - sum_list (map blocks_of (card_files mc)))"
  shows "card_wf (mc\<lparr>card_files := (card_files mc)[i := f]\<rparr>)"
proof -
  have wf: "length (card_files mc) = 127" "\<forall>f \<in> set (card_files mc). file_ok f"
    "sum_list (map blocks_of (card_files mc)) \<le> user_blocks mc"
    using assms(1) by (simp_all add: card_wf_def)
  have "\<forall>g \<in> set ((card_files mc)[i := f]). file_ok g"
    using wf(2) assms(3) set_update_subset_insert[of "card_files mc" i f] by blast
  moreover have "sum_list (map blocks_of ((card_files mc)[i := f])) =
      sum_list (map blocks_of (card_files mc)) + blocks_of f - blocks_of (card_files mc ! i)"
    using assms(2) wf(1) by (simp add: map_update sum_list_update)
  moreover have "blocks_of (card_files mc ! i) \<le> sum_list (map blocks_of (card_files mc))"
    using assms(2) wf(1) by (intro member_le_sum_list) auto
  moreover have "user_blocks (mc\<lparr>card_files := (card_files mc)[i := f]\<rparr>) = user_blocks mc" by (simp add: user_blocks_def)
  ultimately show ?thesis using assms(1,4) wf(3) by (simp add: card_wf_def)
qed

lemma edits_wf:
  assumes "card_wf mc" and "edits wipe h mc fs"
  shows "card_wf (mc\<lparr>card_files := fs\<rparr>)"
  using assms(2)
proof (cases rule: edits.cases)
  case formatted
  then show ?thesis using assms(1) by (simp add: card_wf_def user_blocks_def sum_list_replicate)
next
  case (created i n len)
  let ?f = "created_file h mc n len (card_files mc ! i)"
  have e: "card_files mc ! i = empty_file" using free_slot[OF assms(1)] created by blast
  have codes: "length (card_game_code mc) = 4" "length (card_company mc) = 2" using assms(1) by (simp_all add: card_wf_def)
  have ok: "file_ok ?f"
    using created codes unfolding e by (simp add: file_ok_def created_file_def empty_file_def nth_append nth_Cons')
  have len: "unat len mod 8192 = 0" using created(6) unat_mod[of len DOL_CARD_SECTOR_SIZE] by simp
  have "unat len \<le> (user_blocks mc - sum_list (map blocks_of (card_files mc))) * 8192"
    using created(7) free_space_exact(1)[OF assms(1)] by (simp only: word_le_nat_alt)
  moreover obtain k where k: "unat len = 8192 * k" using len by auto
  moreover have "blocks_of ?f = k" using k by (simp add: blocks_of_def created_file_def)
  ultimately have "blocks_of ?f \<le> blocks_of (card_files mc ! i) + (user_blocks mc - sum_list (map blocks_of (card_files mc)))"
    by linarith
  from wf_slot[OF assms(1) created(2) ok this] show ?thesis using created(1) by simp
next
  case (deleted i)
  from wf_slot[OF assms(1) deleted(2), of empty_file] show ?thesis using deleted(1) by simp
next
  case (written i offset len data)
  let ?f = "written_file h offset data len (card_files mc ! i)"
  have old: "file_ok (card_files mc ! i)" using assms(1) written(2) by (simp add: card_wf_def)
  with written(3,5,6) have "file_ok ?f" "blocks_of ?f = blocks_of (card_files mc ! i)"
    by (auto simp: file_ok_def written_file_def blocks_of_def)
  with wf_slot[OF assms(1) written(2), of ?f] show ?thesis using written(1) by simp
next
  case (described i s)
  let ?f = "status_file h s (card_files mc ! i)"
  have old: "file_ok (card_files mc ! i)" using assms(1) described(2) by (simp add: card_wf_def)
  with described(3) have "file_ok ?f" "blocks_of ?f = blocks_of (card_files mc ! i)"
    by (auto simp: file_ok_def status_file_def blocks_of_def)
  with wf_slot[OF assms(1) described(2), of ?f] show ?thesis using described(1) by simp
qed

lemma wf_identity:
  "same_identity mc mc' \<Longrightarrow> card_files mc' = fs \<Longrightarrow> card_wf (mc\<lparr>card_files := fs\<rparr>) \<Longrightarrow> card_wf mc'"
  by (simp add: card_wf_def same_identity_def user_blocks_def)

lemma outcome_wf: "card_wf mc \<Longrightarrow> outcome wipe h mc disk r mc' disk' \<Longrightarrow> card_wf mc'"
  unfolding outcome_def using edits_wf[of mc wipe h] wf_identity[of mc mc'] by (elim conjE disjE exE) auto

lemma step_wf:
  assumes "card_wf mc" and "op_ok op" and "card_step h op (mc, disk) = ((r, mc'), disk')"
  shows "card_wf mc'"
  using outcome_wf[OF assms(1) step_outcome[OF assms]] .

end
