(* ===== verification/MemoryCardCorrect.thy ===== *)
theory MemoryCardCorrect
  imports MemoryCardFacts
begin

text \<open>
  The contract of the memory card over whole runs: capacity and buffers, what survives a failing
  host, what the next opening of the container finds, and the laws of its files.
\<close>

section \<open>Opening\<close>

definition config_ok :: "DolMemoryCardConfig \<Rightarrow> bool" where
  "config_ok c \<longleftrightarrow> length (cfg_game_code c) = 4 \<and> length (cfg_company c) = 2"

text \<open>The container on the host is well below the 4 GiB at which 32-bit sizes wrap.\<close>

definition disk_small :: "u8 list option \<Rightarrow> bool" where
  "disk_small disk \<longleftrightarrow> (case disk of None \<Rightarrow> True | Some bytes \<Rightarrow> length bytes + 8192 < 2 ^ 32)"

lemma load_record_ok:
  assumes "load_record h bytes r fs = Some (i, f, r')" and "r \<le> length bytes" and "length bytes + 8192 < 2 ^ 32"
  shows "i < DOL_CARD_MAX_FILES" "\<not> file_used (fs ! i)" "file_ok f" "r' \<le> length bytes"
    "blocks_of f \<le> r' - r" "r \<le> r'" "file_blocks (stat_length (file_stat f)) = of_nat (blocks_of f)"
proof -
  let ?len = "be32_at bytes (r + 4)"
  have fits: "r + DOL_CARD_RECORD_SIZE + unat ?len \<le> length bytes" "i < DOL_CARD_MAX_FILES" "\<not> file_used (fs ! i)"
    "r' = r + DOL_CARD_RECORD_SIZE + unat ?len" "file_used f" "stat_length (file_stat f) = ?len"
    "length (file_data f) = unat ?len"
    using assms(1,2) unfolding load_record_def Let_def by (auto split: if_splits)
  have strings: "length (file_name (file_stat f)) = 33" "file_name (file_stat f) ! 32 = 0"
    "length (stat_game_code (file_stat f)) = 4" "length (stat_company (file_stat f)) = 2"
    using assms(1) fits(1) unfolding load_record_def Let_def by (auto simp: nth_append split: if_splits)
  show "i < DOL_CARD_MAX_FILES" "\<not> file_used (fs ! i)" "r' \<le> length bytes" "r \<le> r'" using fits by simp_all
  show "file_ok f" using fits(5-7) strings by (simp add: file_ok_def)
  have "(unat ?len + 8191) div 8192 \<le> unat ?len + 1" by (rule less_Suc_eq_le[THEN iffD1]) simp
  then show "blocks_of f \<le> r' - r" using fits(4-6) by (simp add: blocks_of_def)
  have "unat ?len + 8191 < 2 ^ 32" using fits(1) assms(3) by simp
  then show "file_blocks (stat_length (file_stat f)) = of_nat (blocks_of f)"
    using fits(5,6) by (simp add: file_blocks_nat(1) blocks_of_def)
qed

lemma load_records_ok:
  assumes "load_records h bytes n r fs ub = Some (fs', r', ub')" and "r \<le> length bytes" and "length bytes + 8192 < 2 ^ 32"
    and "length fs = DOL_CARD_MAX_FILES" and "\<forall>f \<in> set fs. file_ok f"
  shows "length fs' = DOL_CARD_MAX_FILES \<and> (\<forall>f \<in> set fs'. file_ok f) \<and> r \<le> r' \<and> r' \<le> length bytes \<and>
    (\<exists>d. sum_list (map blocks_of fs') = sum_list (map blocks_of fs) + d \<and> d \<le> r' - r \<and> ub' = ub + of_nat d)"
  using assms(1,2,4,5)
proof (induction n arbitrary: r fs ub)
  case (Suc n)
  from Suc.prems(1) obtain i f q where rec: "load_record h bytes r fs = Some (i, f, q)"
    and rest: "load_records h bytes n q (fs[i := f]) (ub + file_blocks (stat_length (file_stat f))) = Some (fs', r', ub')"
    by (auto split: option.splits)
  note f = load_record_ok[OF rec Suc.prems(2) assms(3)]
  have "fs ! i = empty_file" using f(1,2) Suc.prems(3,4) nth_mem[of i fs] by (auto simp: file_ok_def)
  then have sum: "sum_list (map blocks_of (fs[i := f])) = sum_list (map blocks_of fs) + blocks_of f"
    using f(1) Suc.prems(3) by (simp add: map_update sum_list_update)
  have ok: "\<forall>g \<in> set (fs[i := f]). file_ok g" "length (fs[i := f]) = DOL_CARD_MAX_FILES"
    using Suc.prems(3,4) f(3) set_update_subset_insert[of fs i f] by (blast, simp)
  from Suc.IH[OF rest f(4) ok(2,1)] obtain d where
    d: "length fs' = DOL_CARD_MAX_FILES" "\<forall>f \<in> set fs'. file_ok f" "q \<le> r'" "r' \<le> length bytes"
      "sum_list (map blocks_of fs') = sum_list (map blocks_of (fs[i := f])) + d" "d \<le> r' - q"
      "ub' = ub + file_blocks (stat_length (file_stat f)) + of_nat d" by blast
  have "sum_list (map blocks_of fs') = sum_list (map blocks_of fs) + (blocks_of f + d)" using d(5) sum by simp
  moreover have "blocks_of f + d \<le> r' - r" "r \<le> r'" using d(3,6) f(5,6) by linarith+
  moreover have "ub' = ub + of_nat (blocks_of f + d)" using d(7) f(7) by (simp add: add.assoc)
  ultimately show ?case using d(1,2,4) by blast
qed simp

lemma load_container_wf:
  assumes "load_container h mc0 disk = (True, mc)" and "disk_small disk"
    and "card_files mc0 = replicate DOL_CARD_MAX_FILES empty_file" and "length (card_game_code mc0) = 4" "length (card_company mc0) = 2"
  shows "card_wf mc"
proof -
  from assms(1) obtain bytes fs ub where bytes: "disk = Some bytes" "header_valid bytes"
    and recs: "load_records h bytes (unat (be32_at bytes 28)) DOL_CARD_HEADER_SIZE (card_files mc0) 0 =
      Some (fs, length bytes, ub)" "ub \<le> ucast (be16_at bytes 12) * 16 - DOL_CARD_SYSTEM_BLOCKS"
    and mc: "mc = mc0\<lparr>size_mbits := be16_at bytes 12, card_encoding := be16_at bytes 14, card_serial := be64_at bytes 20,
      card_files := fs\<rparr>"
    by (auto simp: load_container_def read_whole_file_def Let_def split: option.splits if_splits)
  have header: "40 \<le> length bytes" "valid_size_mbits (size_mbits mc)"
    using bytes(2) mc by (simp_all add: header_valid_def)
  have small: "length bytes + 8192 < 2 ^ 32" using assms(2) bytes(1) by (simp add: disk_small_def)
  from load_records_ok[OF recs(1) header(1) small] assms(3) obtain d where
    d: "length fs = DOL_CARD_MAX_FILES" "\<forall>f \<in> set fs. file_ok f" "sum_list (map blocks_of fs) = d"
      "d \<le> length bytes" "ub = of_nat d" by (auto simp: sum_list_replicate)
  have "unat ub = d" using d(4,5) small by (simp add: unat_small)
  moreover have "unat ub \<le> user_blocks mc"
    using recs(2) user_blocks_word[OF header(2)] mc by (simp add: word_le_nat_alt card_user_blocks_def card_total_blocks_def)
  ultimately show ?thesis using d header(2) assms(4,5) mc by (simp add: card_wf_def)
qed

lemma fresh_wf:
  assumes "config_ok c" and "valid_size_mbits (size_mbits (new_card h c))"
  shows "card_wf (new_card h c)"
  using assms by (simp add: card_wf_def config_ok_def new_card_def sum_list_replicate)

lemma open_cases:
  assumes "dol_card_open h c disk = (Some mc, disk')"
  obtains "disk' = disk" "load_container h (new_card h c) disk = (True, mc)" "card_path mc = card_path (new_card h c)"
  | n where "valid_size_mbits (size_mbits (new_card h c))" "mc = (new_card h c)\<lparr>card_serial := n\<rparr>"
      "write_container h mc disk = (True, disk')"
proof (cases "card_path (new_card h c) \<noteq> None \<and> path_exists h disk")
  case True
  with assms have l: "load_container h (new_card h c) disk = (True, mc)" "disk' = disk"
    unfolding dol_card_open_def Let_def by (auto split: if_splits prod.splits bool.splits)
  moreover have "card_path mc = card_path (new_card h c)"
    using l(1) by (auto simp: load_container_def Let_def split: option.splits if_splits)
  ultimately show thesis using that(1) by blast
next
  case False
  with assms have v: "valid_size_mbits (size_mbits (new_card h c))"
    unfolding dol_card_open_def Let_def by (auto split: if_splits)
  show thesis
  proof (cases "card_serial (new_card h c) = 0")
    case True
    with False assms v show thesis
      unfolding dol_card_open_def Let_def by (intro that(2)) (auto split: if_splits prod.splits bool.splits)
  next
    case nonzero: False
    have "new_card h c = (new_card h c)\<lparr>card_serial := card_serial (new_card h c)\<rparr>" by simp
    moreover have "mc = new_card h c" "write_container h mc disk = (True, disk')"
      using False nonzero assms unfolding dol_card_open_def Let_def by (auto split: if_splits prod.splits bool.splits)
    ultimately show thesis using v that(2) by metis
  qed
qed

lemma open_wf:
  assumes "dol_card_open h c disk = (Some mc, disk')" and "config_ok c" and "disk_small disk"
  shows "card_wf mc"
  using assms(1)
proof (cases rule: open_cases)
  case 1
  with assms(2,3) show ?thesis by (intro load_container_wf[OF 1(2)]) (simp_all add: config_ok_def new_card_def)
next
  case (2 n)
  with fresh_wf[OF assms(2)] show ?thesis by (simp add: card_wf_def user_blocks_def)
qed

lemma run_wf:
  assumes "card_wf mc" and "\<forall>(h, op) \<in> set ops. op_ok op"
  shows "card_wf (fst (card_run ops (mc, disk)))"
  using assms
proof (induction ops arbitrary: mc disk)
  case (Cons x ops)
  obtain r mc' disk' where step: "card_step (fst x) (snd x) (mc, disk) = ((r, mc'), disk')" by (metis prod.exhaust)
  have "card_wf mc'" using step_wf[OF Cons.prems(1) _ step] Cons.prems(2) by (auto split: prod.splits)
  with Cons step show ?case by simp
qed simp

section \<open>What the container holds\<close>

text \<open>Whoever opens the container next, on a host that works, finds the card's contents.\<close>

definition persisted :: "DolMemoryCard \<Rightarrow> u8 list option \<Rightarrow> bool" where
  "persisted mc disk \<longleftrightarrow> (\<forall>h mc0. host_works h \<longrightarrow> card_files mc0 = replicate DOL_CARD_MAX_FILES empty_file \<longrightarrow>
     load_container h mc0 disk = (True, restored mc mc0))"

lemma persisted_written: "card_wf mc \<Longrightarrow> persisted mc (Some (container mc))"
  by (simp add: persisted_def load_container_back)

lemma persisted_cong:
  "size_mbits mc' = size_mbits mc \<Longrightarrow> card_encoding mc' = card_encoding mc \<Longrightarrow> card_serial mc' = card_serial mc \<Longrightarrow>
     card_files mc' = card_files mc \<Longrightarrow> persisted mc' disk = persisted mc disk"
  by (simp add: persisted_def restored_def)

lemma load_record_works:
  "load_record h bytes r fs = Some x \<Longrightarrow> host_works h' \<Longrightarrow> load_record h' bytes r fs = Some x"
  by (auto simp: load_record_def host_works_def Let_def split: if_splits)

lemma load_records_works:
  "load_records h bytes n r fs ub = Some x \<Longrightarrow> host_works h' \<Longrightarrow> load_records h' bytes n r fs ub = Some x"
  by (induction n arbitrary: r fs ub) (auto split: option.splits dest: load_record_works)

lemma persisted_loaded:
  assumes "load_container h mc0 disk = (True, mc)" and "card_files mc0 = replicate DOL_CARD_MAX_FILES empty_file"
  shows "persisted mc disk"
  unfolding persisted_def
proof (intro allI impI)
  fix h' and mc1 :: DolMemoryCard assume h': "host_works h'" and mc1: "card_files mc1 = replicate DOL_CARD_MAX_FILES empty_file"
  from assms(1) obtain bytes fs ub where bytes: "disk = Some bytes" "header_valid bytes"
    and recs: "load_records h bytes (unat (be32_at bytes 28)) DOL_CARD_HEADER_SIZE (card_files mc0) 0 =
      Some (fs, length bytes, ub)" "ub \<le> ucast (be16_at bytes 12) * 16 - DOL_CARD_SYSTEM_BLOCKS"
    and mc: "mc = mc0\<lparr>size_mbits := be16_at bytes 12, card_encoding := be16_at bytes 14, card_serial := be64_at bytes 20,
      card_files := fs\<rparr>"
    by (auto simp: load_container_def read_whole_file_def Let_def split: option.splits if_splits)
  have "read_whole_file h' disk = Some bytes" using h' bytes(1) by (simp add: read_whole_file_def host_works_def)
  with load_records_works[OF recs(1) h'] bytes(2) recs(2) mc assms(2) mc1
  show "load_container h' mc1 disk = (True, restored mc mc1)"
    by (simp add: load_container_def restored_def Let_def)
qed

text \<open>The host never removes the container without putting the new one in its place.\<close>

definition replaces :: "CardHost \<Rightarrow> bool" where
  "replaces h \<longleftrightarrow> rename_ok h \<or> \<not> remove_ok h \<or> rename_again_ok h"

lemma write_cases:
  assumes "write_container h mc disk = (ok, disk')"
  shows "ok \<Longrightarrow> card_path mc \<noteq> None \<Longrightarrow> disk' = Some (container mc)" "\<not> ok \<Longrightarrow> replaces h \<Longrightarrow> disk' = disk"
    "disk' \<in> {disk, None, Some (container mc)}" "\<not> ok \<Longrightarrow> disk' \<in> {disk, None}"
  using assms by (auto simp: write_container_def replaces_def Let_def split: option.splits if_splits)

lemma outcome_persisted:
  assumes "card_wf mc" and "outcome wipe h mc disk r mc' disk'" and "replaces h" and "card_path mc \<noteq> None" and "persisted mc disk"
  shows "persisted mc' disk'"
  using assms(2) unfolding outcome_def
proof (elim conjE disjE exE)
  assume "same_identity mc mc'" "card_files mc' = card_files mc" "disk' = disk"
  then show ?thesis using assms(5) persisted_cong[of mc' mc disk] by (simp add: same_identity_def)
next
  fix fs
  assume same: "same_identity mc mc'" and fs: "edits wipe h mc fs" "card_files mc' = fs"
    and w: "write_container h (mc\<lparr>card_files := fs\<rparr>) disk = (True, disk')"
  have "disk' = Some (container (mc\<lparr>card_files := fs\<rparr>))" using write_cases(1)[OF w] assms(4) by simp
  then have "persisted (mc\<lparr>card_files := fs\<rparr>) disk'" using persisted_written[OF edits_wf[OF assms(1) fs(1)]] by simp
  then show ?thesis using same fs(2) persisted_cong[of mc' "mc\<lparr>card_files := fs\<rparr>" disk'] by (simp add: same_identity_def)
next
  fix fs
  assume same: "same_identity mc mc'" and fs: "card_files mc' = card_files mc"
    and w: "write_container h (mc\<lparr>card_files := fs\<rparr>) disk = (False, disk')"
  have "disk' = disk" using write_cases(2)[OF w] assms(3) by simp
  then show ?thesis using same fs assms(5) persisted_cong[of mc' mc disk] by (simp add: same_identity_def)
qed

lemma outcome_path: "outcome wipe h mc disk r mc' disk' \<Longrightarrow> card_path mc' = card_path mc"
  by (simp add: outcome_def same_identity_def)

lemma run_persisted:
  assumes "card_wf mc" and "persisted mc disk" and "card_path mc \<noteq> None"
    and "\<forall>(h, op) \<in> set ops. op_ok op \<and> replaces h"
  shows "persisted (fst (card_run ops (mc, disk))) (snd (card_run ops (mc, disk)))"
  using assms
proof (induction ops arbitrary: mc disk)
  case (Cons x ops)
  obtain r mc' disk' where step: "card_step (fst x) (snd x) (mc, disk) = ((r, mc'), disk')" by (metis prod.exhaust)
  have x: "op_ok (snd x)" "replaces (fst x)" using Cons.prems(4) by (auto split: prod.splits)
  note o = step_outcome[OF Cons.prems(1) x(1) step]
  have "card_wf mc'" "persisted mc' disk'" "card_path mc' \<noteq> None"
    using outcome_wf[OF Cons.prems(1) o] outcome_persisted[OF Cons.prems(1) o x(2) Cons.prems(3,2)] outcome_path[OF o]
      Cons.prems(3) by simp_all
  with Cons step show ?case by simp
qed simp

lemma open_persisted:
  assumes "dol_card_open h c disk = (Some mc, disk')" and "config_ok c" and "card_path mc \<noteq> None"
  shows "persisted mc disk'"
  using assms(1)
proof (cases rule: open_cases)
  case 1
  then show ?thesis using persisted_loaded[OF 1(2)] by (simp add: new_card_def)
next
  case (2 n)
  have "card_wf mc" using fresh_wf[OF assms(2) 2(1)] 2(2) by (simp add: card_wf_def user_blocks_def)
  then show ?thesis using write_cases(1)[OF 2(3)] assms(3) persisted_written[of mc] by simp
qed

section \<open>Files of other games\<close>

lemma edits_other_games:
  assumes "edits False h mc fs" and "length (card_files mc) = DOL_CARD_MAX_FILES" and "i < DOL_CARD_MAX_FILES" and "file_used (card_files mc ! i)"
    and "\<not> file_matches_game mc (card_files mc ! i)"
  shows "fs ! i = card_files mc ! i"
  using assms(1)
proof (cases rule: edits.cases)
  case (created j n len) then show ?thesis using assms by (cases "i = j") simp_all
next
  case (deleted j) then show ?thesis using assms by (cases "i = j") simp_all
next
  case (written j off len data) then show ?thesis using assms by (cases "i = j") simp_all
next
  case (described j s) then show ?thesis using assms by (cases "i = j") simp_all
qed simp

lemma run_other_games:
  assumes "card_wf mc" and "\<forall>(h, op) \<in> set ops. op_ok op \<and> op \<noteq> Op_format" and "i < DOL_CARD_MAX_FILES"
    and "file_used (card_files mc ! i)" and "\<not> file_matches_game mc (card_files mc ! i)"
  shows "card_files (fst (card_run ops (mc, disk))) ! i = card_files mc ! i"
  using assms
proof (induction ops arbitrary: mc disk)
  case (Cons x ops)
  obtain r mc' disk' where step: "card_step (fst x) (snd x) (mc, disk) = ((r, mc'), disk')" by (metis prod.exhaust)
  have x: "op_ok (snd x)" "snd x \<noteq> Op_format" using Cons.prems(2) by (auto split: prod.splits)
  note o = step_outcome[OF Cons.prems(1) x(1) step]
  have len: "length (card_files mc) = DOL_CARD_MAX_FILES" using Cons.prems(1) by (simp add: card_wf_def)
  have same: "card_files mc' ! i = card_files mc ! i" "same_identity mc mc'"
    using o edits_other_games[OF _ len Cons.prems(3-5)] x(2) unfolding outcome_def by auto
  then have "card_files (fst (card_run ops (mc', disk'))) ! i = card_files mc' ! i"
    using Cons.prems outcome_wf[OF Cons.prems(1) o] by (intro Cons.IH) (auto simp: file_matches_game_def same_identity_def)
  with same(1) step show ?case by simp
qed simp

section \<open>An example\<close>

definition good_host :: CardHost where
  "good_host = \<lparr>host_time = 1000000000, card_calloc_ok = True, malloc_ok = (\<lambda>n. True), readable = True, read_ok = True,
     temp_ok = True, rename_ok = True, remove_ok = True, rename_again_ok = True\<rparr>"

definition demo_config :: DolMemoryCardConfig where
  "demo_config = \<lparr>cfg_path = Some [0x61], cfg_size_mbits = 0, cfg_encoding = 0, cfg_game_code = [0x47, 0x34, 0x51, 0x45],
     cfg_company = [0x30, 0x31], cfg_serial = 7\<rparr>"

definition demo_card :: DolMemoryCard where
  "demo_card = new_card good_host demo_config"

lemma demo_opens: "dol_card_open good_host demo_config None = (Some demo_card, Some (container demo_card))"
  by (simp add: dol_card_open_def demo_card_def new_card_def good_host_def demo_config_def duplicate_string_def
    valid_size_mbits_def path_exists_def write_container_def Let_def)

lemma demo_ok: "config_ok demo_config" "disk_small None" "host_works good_host" "replaces good_host"
  "replaces (good_host\<lparr>temp_ok := False\<rparr>)" "card_path demo_card \<noteq> None"
  by (simp_all add: config_ok_def demo_config_def disk_small_def host_works_def good_host_def replaces_def demo_card_def
    new_card_def duplicate_string_def)

lemma demo_wf: "card_wf demo_card"
  using open_wf[OF demo_opens demo_ok(1,2)] .

definition demo_ops :: "(CardHost \<times> card_op) list" where
  "demo_ops = [(good_host, Op_mount), (good_host, Op_create_file (Some [0x73]) 8192),
     (good_host\<lparr>temp_ok := False\<rparr>, Op_write_file 0 0 (Some [1, 2]) 2), (good_host, Op_write_file 0 16 (Some [3]) 1)]"

lemma demo_ops_ok: "\<forall>(h, op) \<in> set demo_ops. op_ok op" "\<forall>(h, op) \<in> set demo_ops. op_ok op \<and> replaces h"
  "\<forall>(h, op) \<in> set demo_ops. op_ok op \<and> op \<noteq> Op_format"
  using demo_ok by (auto simp: demo_ops_def)

section \<open>Capacity\<close>

text \<open>C8: whatever is done to a card that was opened, on whatever host, its file table stays well
  formed and within the user blocks of its size, and the records of the container are exactly as
  long as the buffer that is allocated for them.\<close>

theorem memory_card_capacity:
  assumes "dol_card_open h c disk = (Some mc, disk0)" and "config_ok c" and "disk_small disk"
    and "\<forall>(h, op) \<in> set ops. op_ok op"
  shows "card_wf (fst (card_run ops (mc, disk0))) \<and>
    length (container (fst (card_run ops (mc, disk0)))) =
      DOL_CARD_HEADER_SIZE + unat (snd (payload_size (fst (card_run ops (mc, disk0)))))"
proof
  show wf: "card_wf (fst (card_run ops (mc, disk0)))" by (rule run_wf[OF open_wf[OF assms(1-3)] assms(4)])
  show "length (container (fst (card_run ops (mc, disk0)))) =
      DOL_CARD_HEADER_SIZE + unat (snd (payload_size (fst (card_run ops (mc, disk0)))))"
    using container_header(6)[OF wf] unat_small[OF record_total[OF wf]] by (simp add: payload_totals)
qed

lemma memory_card_capacity_witness:
  "card_wf (fst (card_run demo_ops (demo_card, Some (container demo_card))))"
  using memory_card_capacity[OF demo_opens demo_ok(1,2) demo_ops_ok(1)] by blast

section \<open>Durability\<close>



section \<open>Failures\<close>

text \<open>C9: an operation that does not report success has not changed any file; and the container on
  the host is the old one, or gone if the host removed it and could not rename the new one.\<close>

theorem memory_card_failure_atomic:
  assumes "card_wf mc" and "op_ok op" and "card_step h op (mc, disk) = ((r, mc'), disk')"
    and "r \<noteq> DOL_CARD_RESULT_READY"
  shows "card_files mc' = card_files mc \<and> disk' \<in> {disk, None} \<and> (replaces h \<longrightarrow> disk' = disk)"
  using step_outcome[OF assms(1-3)] assms(4) unfolding outcome_def
  by (auto dest: write_cases(2,4))

lemma memory_card_failure_atomic_witness:
  "card_files (snd (fst (card_step good_host (Op_open_file None) (demo_card, None)))) = card_files demo_card"
proof -
  have step: "card_step good_host (Op_open_file None) (demo_card, None) =
      ((DOL_CARD_RESULT_NO_CARD, demo_card\<lparr>last_result := DOL_CARD_RESULT_NO_CARD, transferred_bytes := 0\<rparr>), None)"
    by (simp add: dol_card_open_file_def demo_card_def new_card_def set_result_def)
  from memory_card_failure_atomic[OF demo_wf _ step] show ?thesis unfolding step by simp
qed

section \<open>Other games\<close>

text \<open>C40: as long as the card is not formatted, no operation changes a file that belongs to another
  game.\<close>

theorem memory_card_other_games:
  assumes "card_wf mc" and "\<forall>(h, op) \<in> set ops. op_ok op \<and> op \<noteq> Op_format" and "i < DOL_CARD_MAX_FILES"
    and "file_used (card_files mc ! i)" and "\<not> file_matches_game mc (card_files mc ! i)"
  shows "card_files (fst (card_run ops (mc, disk))) ! i = card_files mc ! i"
  by (rule run_other_games[OF assms])

text \<open>A card shared with another game: its slot 0 was written under another game code.\<close>

definition shared_card :: DolMemoryCard where
  "shared_card = demo_card\<lparr>card_files := (card_files demo_card)[0 :=
     created_file good_host (demo_card\<lparr>card_game_code := [0, 0, 0, 0]\<rparr>) [0x73] 8192 (card_files demo_card ! 0)]\<rparr>"

lemma shared_wf: "card_wf shared_card"
proof -
  let ?other = "demo_card\<lparr>card_game_code := [0, 0, 0, 0]\<rparr>"
  have other: "card_wf ?other" using demo_wf by (simp add: card_wf_def user_blocks_def)
  have empty: "\<not> file_used (card_files ?other ! 0)" "sum_list (map blocks_of (card_files ?other)) = 0" "user_blocks ?other = 59"
    by (simp_all add: demo_card_def new_card_def sum_list_replicate user_blocks_def demo_config_def)
  have "unat ((card_user_blocks ?other - fst (blocks_and_files ?other)) * DOL_CARD_SECTOR_SIZE) = 59 * 8192"
    using free_space_exact(1)[OF other, unfolded empty(2,3)] by simp
  then have "8192 \<le> (card_user_blocks ?other - fst (blocks_and_files ?other)) * DOL_CARD_SECTOR_SIZE"
    unfolding word_le_nat_alt by (simp only: unat_numeral) simp
  from edits_wf[OF other created[OF _ empty(1) _ _ _ this, of "[0x73]" False good_host]]
  have "card_wf (?other\<lparr>card_files := (card_files demo_card)[0 := created_file good_host ?other [0x73] 8192 (card_files demo_card ! 0)]\<rparr>)"
    by simp
  then show ?thesis using demo_wf by (simp add: card_wf_def shared_card_def user_blocks_def)
qed

lemma memory_card_other_games_witness:
  "card_files (fst (card_run demo_ops (shared_card, None))) ! 0 = card_files shared_card ! 0 \<and> file_used (card_files shared_card ! 0)"
proof -
  have "file_used (card_files shared_card ! 0)" "\<not> file_matches_game shared_card (card_files shared_card ! 0)"
    by (simp_all add: shared_card_def demo_card_def new_card_def created_file_def file_matches_game_def demo_config_def)
  with memory_card_other_games[OF shared_wf demo_ops_ok(3), of 0] show ?thesis by simp
qed

section \<open>Reading back\<close>

lemma write_ready:
  assumes "dol_card_write_file h mc disk no off (Some data) len = ((DOL_CARD_RESULT_READY, mc'), disk')"
  shows "validate_file_range mc no off len = DOL_CARD_RESULT_READY" "mounted mc'" "same_identity mc mc'"
    "card_files mc' = (card_files mc)[nat (sint no) := written_file h off data len (card_files mc ! nat (sint no))]"
proof -
  show v: "validate_file_range mc no off len = DOL_CARD_RESULT_READY"
    using assms by (auto simp: dol_card_write_file_def Let_def split: if_splits)
  from range_ready(1)[OF v] assms v show "mounted mc'" "same_identity mc mc'"
    "card_files mc' = (card_files mc)[nat (sint no) := written_file h off data len (card_files mc ! nat (sint no))]"
    by (auto simp: dol_card_write_file_def Let_def same_identity_def split: if_splits prod.splits bool.splits)
qed

lemma written_fields [simp]:
  "file_used (written_file h off data len f) = file_used f"
  "stat_length (file_stat (written_file h off data len f)) = stat_length (file_stat f)"
  "file_matches_game mc (written_file h off data len f) = file_matches_game mc f"
  by (simp_all add: written_file_def file_matches_game_def)

lemma range_same:
  assumes "mounted mc" "mounted mc'" "same_identity mc mc'" and "length (card_files mc) = DOL_CARD_MAX_FILES"
    and "card_files mc' = (card_files mc)[i := written_file h off data len (card_files mc ! i)]"
  shows "validate_file_range mc' no off' len' = validate_file_range mc no off' len'"
proof -
  have game: "file_matches_game mc' = file_matches_game mc"
    using assms(3) by (auto simp: fun_eq_iff file_matches_game_def same_identity_def)
  have "file_used (card_files mc' ! j) = file_used (card_files mc ! j) \<and>
      file_matches_game mc (card_files mc' ! j) = file_matches_game mc (card_files mc ! j) \<and>
      stat_length (file_stat (card_files mc' ! j)) = stat_length (file_stat (card_files mc ! j))" if "j < DOL_CARD_MAX_FILES" for j
    using that assms(4) unfolding assms(5) by (cases "i = j") simp_all
  then show ?thesis
    using assms(1,2) by (auto simp: validate_file_range_def file_ours_def game Let_def not_le)
qed

lemma overwritten:
  fixes xs ys :: "'a list"
  assumes "off + n \<le> length xs" and "length ys = n"
  shows "take n (drop off (take off xs @ ys @ drop (off + n) xs)) = ys"
    and "off' + k \<le> off \<or> off + n \<le> off' \<Longrightarrow> off' + k \<le> length xs \<Longrightarrow>
      take k (drop off' (take off xs @ ys @ drop (off + n) xs)) = take k (drop off' xs)"
proof -
  show "take n (drop off (take off xs @ ys @ drop (off + n) xs)) = ys" using assms by simp
  assume far: "off' + k \<le> off \<or> off + n \<le> off'" "off' + k \<le> length xs"
  show "take k (drop off' (take off xs @ ys @ drop (off + n) xs)) = take k (drop off' xs)"
    using assms far by (intro nth_equalityI) (auto simp: nth_append)
qed

text \<open>C38: a write that succeeds is read back by the next read of the same bytes, and no other byte of
  any file reads differently.\<close>

theorem memory_card_read_back:
  assumes "card_wf mc" and "unat len \<le> length data"
    and "dol_card_write_file h mc disk no off (Some data) len = ((DOL_CARD_RESULT_READY, mc'), disk')"
  shows "snd (dol_card_read_file mc' no off True len) = take (unat len) data \<and>
    (\<forall>no' off' len'. no' \<noteq> no \<or> unat off' + unat len' \<le> unat off \<or> unat off + unat len \<le> unat off' \<longrightarrow>
       snd (dol_card_read_file mc' no' off' True len') = snd (dol_card_read_file mc no' off' True len'))"
proof -
  let ?i = "nat (sint no)" and ?f = "card_files mc ! nat (sint no)"
  note w = write_ready[OF assms(3)] and v = range_ready[OF write_ready(1)[OF assms(3)]]
  note i = file_ours_index[OF v(2)]
  have len: "length (card_files mc) = DOL_CARD_MAX_FILES" using assms(1) by (simp add: card_wf_def)
  have slot: "card_files mc' ! ?i = written_file h off data len ?f" using w(4) i(1) len by simp
  have "file_ok ?f" using assms(1) i(1) by (simp add: card_wf_def)
  then have data: "length (file_data ?f) = unat (stat_length (file_stat ?f))" using i(2) by (simp add: file_ok_def)
  note same = range_same[OF v(1) w(2,3) len w(4)]
  have new: "file_data (written_file h off data len ?f) = take (unat off) (file_data ?f) @ take (unat len) data @
      drop (unat off + unat len) (file_data ?f)" by (simp add: written_file_def)
  have over: "length (take (unat len) data) = unat len" "unat off + unat len \<le> length (file_data ?f)"
    using assms(2) v(3) data by simp_all
  show ?thesis
  proof (intro conjI allI impI)
    show "snd (dol_card_read_file mc' no off True len) = take (unat len) data"
      using overwritten(1)[OF over(2,1)] same w(1) slot by (simp add: dol_card_read_file_def Let_def new)
  next
    fix no' off' len' :: u32
    assume far: "no' \<noteq> no \<or> unat off' + unat len' \<le> unat off \<or> unat off + unat len \<le> unat off'"
    show "snd (dol_card_read_file mc' no' off' True len') = snd (dol_card_read_file mc no' off' True len')"
    proof (cases "validate_file_range mc no' off' len' = DOL_CARD_RESULT_READY")
      case True
      note v' = range_ready[OF True] and i' = file_ours_index[OF range_ready(2)[OF True]]
      show ?thesis
      proof (cases "no' = no")
        case False
        have "nat (sint no') \<noteq> ?i"
          using False v(2) v'(2) signed_word_eqI[of no' no] by (auto simp: file_ours_def not_less nat_eq_iff)
        then show ?thesis using same True w(4) by (simp add: dol_card_read_file_def Let_def)
      next
        case same_no: True
        have "unat off' + unat len' \<le> length (file_data ?f)" using v'(3) data same_no by simp
        with overwritten(2)[OF over(2,1)] far same_no same True slot show ?thesis
          by (simp add: dol_card_read_file_def Let_def new)
      qed
    next
      case False
      then show ?thesis using same by (simp add: dol_card_read_file_def Let_def)
    qed
  qed
qed

section \<open>New files\<close>

lemma used_count_slot:
  assumes "i < length fs" and "\<not> file_used (fs ! i)" and "file_used f"
  shows "used_count (fs[i := f]) = used_count fs + 1" "used_count (fs[i := f]) \<le> length fs"
proof -
  have sum: "used_count fs = sum_list (map (\<lambda>f. if file_used f then 1 else 0) fs)" for fs
    by (induction fs) (simp_all add: used_count_def)
  show "used_count (fs[i := f]) = used_count fs + 1" using assms by (simp add: sum map_update sum_list_update)
  show "used_count (fs[i := f]) \<le> length fs"
    using length_filter_le[of file_used "fs[i := f]"] by (simp add: used_count_def)
qed

lemma free_space_create:
  assumes "card_wf mc" "mounted mc" "mounted mc'" "same_identity mc mc'" "i < DOL_CARD_MAX_FILES" "\<not> file_used (card_files mc ! i)"
    and "card_files mc' = (card_files mc)[i := created_file h mc name len (card_files mc ! i)]"
    and "len mod DOL_CARD_SECTOR_SIZE = 0" and "card_wf mc'"
  shows "\<exists>b f b' f'. snd (dol_card_free_space mc) = Some (b, f) \<and> snd (dol_card_free_space mc') = Some (b', f') \<and>
    unat b = unat b' + unat len \<and> unat f = unat f' + 1"
proof -
  let ?f = "created_file h mc name len (card_files mc ! i)"
  have wf: "length (card_files mc) = DOL_CARD_MAX_FILES" using assms(1) by (simp add: card_wf_def)
  have "unat len mod 8192 = 0" using assms(8) unat_mod[of len DOL_CARD_SECTOR_SIZE] by simp
  then obtain k where k: "unat len = 8192 * k" by auto
  then have "blocks_of ?f = k" by (simp add: blocks_of_def created_file_def)
  moreover have "blocks_of (card_files mc ! i) = 0" using assms(6) by (simp add: blocks_of_def)
  ultimately have sum: "sum_list (map blocks_of (card_files mc')) = sum_list (map blocks_of (card_files mc)) + k"
    using assms(5) wf by (simp add: assms(7) map_update sum_list_update)
  have user: "user_blocks mc' = user_blocks mc" using assms(4) by (simp add: user_blocks_def same_identity_def)
  have cap: "sum_list (map blocks_of (card_files mc')) \<le> user_blocks mc'" using assms(9) by (simp add: card_wf_def)
  have count: "used_count (card_files mc') = used_count (card_files mc) + 1" "used_count (card_files mc') \<le> 127"
    using used_count_slot[of i "card_files mc" ?f] assms(5,6) wf by (simp_all add: assms(7) created_file_def)
  have "unat ((card_user_blocks mc - fst (blocks_and_files mc)) * DOL_CARD_SECTOR_SIZE) =
      unat ((card_user_blocks mc' - fst (blocks_and_files mc')) * DOL_CARD_SECTOR_SIZE) + unat len"
    unfolding free_space_exact(1)[OF assms(1)] free_space_exact(1)[OF assms(9)] k
    using sum user cap by (simp add: diff_mult_distrib)
  moreover have "unat (of_nat DOL_CARD_MAX_FILES - snd (blocks_and_files mc) :: u32) =
      unat (of_nat DOL_CARD_MAX_FILES - snd (blocks_and_files mc') :: u32) + 1"
    unfolding free_space_exact(2)[OF assms(1)] free_space_exact(2)[OF assms(9)] using count by simp
  ultimately show ?thesis using free_space_step[OF assms(2)] free_space_step[OF assms(3)] by simp
qed


text \<open>C39: a file that was created is found under its name with its length, reads as erased flash
  everywhere, took the place of no other file and exactly its length of the free space.\<close>

theorem memory_card_create:
  assumes "card_wf mc" and "dol_card_create_file h mc disk (Some name) len = ((DOL_CARD_RESULT_READY, mc'), disk', no)"
    and "0 \<notin> set name"
  shows "\<exists>i < DOL_CARD_MAX_FILES. no = Some i \<and> \<not> file_used (card_files mc ! i) \<and>
    snd (dol_card_open_file mc (Some name)) = None \<and> snd (dol_card_open_file mc' (Some name)) = Some (i, len) \<and>
    snd (dol_card_read_file mc' (of_nat i) 0 True len) = replicate (unat len) 0xFF \<and>
    (\<forall>j < DOL_CARD_MAX_FILES. j \<noteq> i \<longrightarrow> card_files mc' ! j = card_files mc ! j) \<and>
    (\<exists>b f b' f'. snd (dol_card_free_space mc) = Some (b, f) \<and> snd (dol_card_free_space mc') = Some (b', f') \<and>
       unat b = unat b' + unat len \<and> unat f = unat f' + 1)"
  using assms(2)
proof (cases rule: create_cases)
  case (2 n i ok)
  have ok: "no = Some i" "mounted mc'" "card_files mc' = (card_files mc)[i := created_file h mc name len (card_files mc ! i)]"
    using 2 by (auto split: if_splits)
  let ?f = "created_file h mc name len (card_files mc ! i)"
  have wf: "length (card_files mc) = DOL_CARD_MAX_FILES" using assms(1) by (simp add: card_wf_def)
  have wf': "card_wf mc'"
    using wf_identity[OF 2(10) ok(3)] edits_wf[OF assms(1) created[OF 2(8,9,3-5,7), of False h]] 2(2) by simp
  have slot: "card_files mc' ! i = ?f" using ok(3) 2(8) wf by simp
  have other: "\<forall>j < DOL_CARD_MAX_FILES. j \<noteq> i \<longrightarrow> card_files mc' ! j = card_files mc ! j" using ok(3) by simp
  have f: "file_used ?f" "file_matches_game mc' ?f" "c_string (file_name (file_stat ?f)) = name"
    "stat_length (file_stat ?f) = len" "file_data ?f = replicate (unat len) 0xFF"
    using assms(3) 2(2,10) by (auto simp: created_file_def file_matches_game_def same_identity_def c_string_def takeWhile_append)
  have game: "file_matches_game mc' = file_matches_game mc"
    using 2(10) by (auto simp: fun_eq_iff file_matches_game_def same_identity_def)
  have found: "find_file mc' (Some name) = Some i"
  proof -
    have "\<not> (file_used (card_files mc' ! j) \<and> file_matches_game mc' (card_files mc' ! j) \<and>
        c_string (file_name (file_stat (card_files mc' ! j))) = name)" if "j < DOL_CARD_MAX_FILES" "j \<noteq> i" for j
      using 2(2,6) other that by (auto simp: find_file_def find_None_iff game)
    then have "\<forall>j < i. \<not> (file_used (card_files mc' ! j) \<and> file_matches_game mc' (card_files mc' ! j) \<and>
        c_string (file_name (file_stat (card_files mc' ! j))) = name)" using 2(8) by simp
    moreover have "file_used (card_files mc' ! i) \<and> file_matches_game mc' (card_files mc' ! i) \<and>
        c_string (file_name (file_stat (card_files mc' ! i))) = name" using f(1-3) unfolding slot by simp
    ultimately show ?thesis using 2(8) unfolding find_file_def option.case find_upt_Some by blast
  qed
  have sint: "sint (of_nat i :: u32) = int i" 
  proof -
    show ?thesis using 2(8) by (simp add: signed_of_nat signed_take_bit_int_eq_self)
  qed
  have ours: "file_ours mc' (of_nat i)" using f(1,2) 2(8) slot by (simp add: file_ours_def sint)
  have "snd (dol_card_read_file mc' (of_nat i) 0 True len) = replicate (unat len) 0xFF"
    using ours ok(2) slot f(4,5) by (simp add: dol_card_read_file_def validate_file_range_def Let_def sint)
  moreover have "snd (dol_card_open_file mc (Some name)) = None" using 2(1,2,6) by (simp add: dol_card_open_file_def)
  moreover have "snd (dol_card_open_file mc' (Some name)) = Some (i, len)"
    using ok(2) found slot f(4) by (simp add: dol_card_open_file_def)
  moreover have "\<exists>b f b' f'. snd (dol_card_free_space mc) = Some (b, f) \<and> snd (dol_card_free_space mc') = Some (b', f') \<and>
      unat b = unat b' + unat len \<and> unat f = unat f' + 1"
    using free_space_create[OF assms(1) 2(1) ok(2) 2(10,8,9) ok(3) 2(5) wf'] by blast
  ultimately show ?thesis using 2(8,9) ok(1) other by blast
qed simp

lemma memory_card_create_witness:
  "\<exists>mc' disk'. dol_card_create_file good_host (demo_card\<lparr>mounted := True\<rparr>) None (Some [0x73]) 8192 =
       ((DOL_CARD_RESULT_READY, mc'), disk', Some 0) \<and>
     snd (dol_card_open_file mc' (Some [0x73])) = Some (0, 8192)"
proof -
  let ?mc = "demo_card\<lparr>mounted := True\<rparr>"
  have wf: "card_wf ?mc" using demo_wf by (simp add: card_wf_def user_blocks_def)
  have files: "card_files ?mc = replicate 127 empty_file" by (simp add: demo_card_def new_card_def)
  have zero: "used_count (card_files ?mc) = 0" "sum_list (map blocks_of (card_files ?mc)) = 0" "user_blocks ?mc = 59"
    unfolding files by (simp_all add: used_count_def sum_list_replicate user_blocks_def demo_card_def new_card_def demo_config_def)
  note free = free_space_exact[OF wf, unfolded zero]
  have none: "find_file ?mc (Some [0x73]) = None" unfolding find_file_def option.case find_upt_None files by simp
  have slot: "find (\<lambda>i. \<not> file_used (card_files ?mc ! i)) [0..<DOL_CARD_MAX_FILES] = Some 0"
    unfolding find_upt_Some files by simp
  have room: "of_nat DOL_CARD_MAX_FILES - snd (blocks_and_files ?mc) \<noteq> 0" using free(2) by fastforce
  have fits: "8192 \<le> (card_user_blocks ?mc - fst (blocks_and_files ?mc)) * DOL_CARD_SECTOR_SIZE"
    unfolding word_le_nat_alt free(1) by simp
  let ?fs = "(card_files ?mc)[0 := created_file good_host ?mc [0x73] 8192 (card_files ?mc ! 0)]"
  obtain disk' where w: "write_container good_host (?mc\<lparr>card_files := ?fs\<rparr>) None = (True, disk')"
    by (cases "card_path ?mc") (simp_all add: write_container_def good_host_def Let_def)
  have "dol_card_create_file good_host ?mc None (Some [0x73]) 8192 =
      (set_result (?mc\<lparr>last_result := DOL_CARD_RESULT_READY, transferred_bytes := 0, card_files := ?fs\<rparr>)
        DOL_CARD_RESULT_READY (2 * DOL_CARD_SECTOR_SIZE), disk', Some 0)"
    by (subst create_accepted[OF _ _ _ _ _ none room fits slot _ w]) (simp_all add: good_host_def Let_def)
  then obtain mc' where c: "dol_card_create_file good_host ?mc None (Some [0x73]) 8192 = ((DOL_CARD_RESULT_READY, mc'), disk', Some 0)"
    by (auto simp: set_result_def)
  with memory_card_create[OF wf c] show ?thesis by auto
qed

lemma memory_card_read_back_witness:
  "\<exists>mc' disk'. dol_card_write_file good_host (shared_card\<lparr>mounted := True, card_game_code := [0, 0, 0, 0]\<rparr>) None 0 16 (Some [1, 2]) 2 =
       ((DOL_CARD_RESULT_READY, mc'), disk') \<and>
     snd (dol_card_read_file mc' 0 16 True 2) = [1, 2]"
proof -
  let ?mc = "shared_card\<lparr>mounted := True, card_game_code := [0, 0, 0, 0]\<rparr>"
  have wf: "card_wf ?mc" using shared_wf by (simp add: card_wf_def user_blocks_def)
  have v: "validate_file_range ?mc 0 16 2 = DOL_CARD_RESULT_READY"
    by (simp add: validate_file_range_def file_ours_def shared_card_def demo_card_def new_card_def created_file_def
      file_matches_game_def demo_config_def Let_def)
  let ?fs = "(card_files ?mc)[0 := written_file good_host 16 [1, 2] 2 (card_files ?mc ! 0)]"
  obtain disk' where w: "write_container good_host (?mc\<lparr>card_files := ?fs\<rparr>) None = (True, disk')"
    by (cases "card_path ?mc") (simp_all add: write_container_def good_host_def Let_def)
  have malloc: "malloc_ok good_host n" for n by (simp add: good_host_def)
  have "dol_card_write_file good_host ?mc None 0 16 (Some [1, 2]) 2 =
      (set_result (?mc\<lparr>card_files := ?fs\<rparr>) DOL_CARD_RESULT_READY 2, disk')"
    unfolding dol_card_write_file_def Let_def using v w malloc by simp
  then obtain mc' where c: "dol_card_write_file good_host ?mc None 0 16 (Some [1, 2]) 2 = ((DOL_CARD_RESULT_READY, mc'), disk')"
    by (auto simp: set_result_def)
  with memory_card_read_back[OF wf _ c] show ?thesis by simp
qed

end
