(* ===== verification/Boot.thy ===== *)
theory Boot
  imports GuestMemory
begin

text \<open>
  Booting a guest: src/GXRuntime/src/loader.c places the sections of the executable in guest RAM,
  src/GXRuntime/src/boot.c writes the operating system's low-memory globals and the first
  registers.

  As for the recompiler's own loader, the file is the parameter \<open>file\<close>: its size and bytes,
  \<open>None\<close> when it cannot be opened, measured, held in memory or read.  The array of a layout's
  sections is the list of its entries.
\<close>

section \<open>The executable in guest RAM\<close>

abbreviation RAM_DOL_HEADER_SIZE :: nat where "RAM_DOL_HEADER_SIZE \<equiv> 0x100"
abbreviation LAYOUT_NUM_TEXT :: nat where "LAYOUT_NUM_TEXT \<equiv> 7"
abbreviation LAYOUT_NUM_DATA :: nat where "LAYOUT_NUM_DATA \<equiv> 11"

record DolLayout =
  ly_text_offset :: "u32 list"
  ly_text_address :: "u32 list"
  ly_text_size :: "u32 list"
  ly_data_offset :: "u32 list"
  ly_data_address :: "u32 list"
  ly_data_size :: "u32 list"
  ly_bss_address :: u32
  ly_bss_size :: u32
  ly_entry_point :: u32

definition zero_layout :: DolLayout where
  "zero_layout =
    \<lparr>ly_text_offset = replicate LAYOUT_NUM_TEXT 0, ly_text_address = replicate LAYOUT_NUM_TEXT 0,
     ly_text_size = replicate LAYOUT_NUM_TEXT 0, ly_data_offset = replicate LAYOUT_NUM_DATA 0,
     ly_data_address = replicate LAYOUT_NUM_DATA 0, ly_data_size = replicate LAYOUT_NUM_DATA 0,
     ly_bss_address = 0, ly_bss_size = 0, ly_entry_point = 0\<rparr>"

definition ram_offset :: "'e CPUState \<Rightarrow> u32 \<Rightarrow> u32 \<Rightarrow> u32" where
  "ram_offset cpu address sz =
    (if address < GC_RAM_BASE then -1
     else let off = address - GC_RAM_BASE
     in if off > cpu_ram_size cpu \<or> sz > cpu_ram_size cpu - off then -1
        else off)"

definition copy_section :: "'e CPUState \<Rightarrow> bytes \<Rightarrow> u32 \<Rightarrow> u32 \<Rightarrow> u32 \<Rightarrow> u32 \<Rightarrow> 'e CPUState option" where
  "copy_section cpu data file_size file_offset address sz =
    (if sz = 0 then Some cpu
     else if file_offset > file_size \<or> sz > file_size - file_offset then None
     else let off = ram_offset cpu address sz
     in if off = -1 then None
        else Some (cpu\<lparr>cpu_ram := memmove (cpu_ram cpu) off data file_offset sz\<rparr>))"

text \<open>The loops \<open>for (i = 0; ok && i < n; i++)\<close> over the text and the data sections: whether they
  end with \<open>ok\<close>, and the state, which keeps the sections copied before a failure.\<close>

fun copy_sections ::
  "'e CPUState \<Rightarrow> bytes \<Rightarrow> u32 \<Rightarrow> u32 list \<Rightarrow> u32 list \<Rightarrow> u32 list \<Rightarrow> nat list \<Rightarrow> bool \<times> 'e CPUState" where
  "copy_sections cpu data file_size offsets addresses sizes [] = (True, cpu)"
| "copy_sections cpu data file_size offsets addresses sizes (i # is) =
    (case copy_section cpu data file_size (offsets ! i) (addresses ! i) (sizes ! i) of
       None \<Rightarrow> (False, cpu)
     | Some cpu \<Rightarrow> copy_sections cpu data file_size offsets addresses sizes is)"

definition clear_bss :: "'e CPUState \<Rightarrow> u32 \<Rightarrow> u32 \<Rightarrow> bool \<times> 'e CPUState" where
  "clear_bss cpu address sz =
    (if sz \<noteq> 0 then
       let off = ram_offset cpu address sz
       in if off = -1 then (False, cpu)
          else (True, cpu\<lparr>cpu_ram := \<lambda>a. if a - off < sz then 0 else cpu_ram cpu a\<rparr>)
     else (True, cpu))"

definition layout_table :: "bytes \<Rightarrow> u32 \<Rightarrow> nat \<Rightarrow> u32 list" where
  "layout_table h p n = map (\<lambda>i. read_be32 h (p + of_nat i * 4)) [0..<n]"

definition parse_layout :: "bytes \<Rightarrow> DolLayout" where
  "parse_layout h =
    \<lparr>ly_text_offset = layout_table h 0x00 LAYOUT_NUM_TEXT, ly_text_address = layout_table h 0x48 LAYOUT_NUM_TEXT,
     ly_text_size = layout_table h 0x90 LAYOUT_NUM_TEXT, ly_data_offset = layout_table h 0x1C LAYOUT_NUM_DATA,
     ly_data_address = layout_table h 0x64 LAYOUT_NUM_DATA, ly_data_size = layout_table h 0xAC LAYOUT_NUM_DATA,
     ly_bss_address = read_be32 h 0xD8, ly_bss_size = read_be32 h 0xDC, ly_entry_point = read_be32 h 0xE0\<rparr>"

definition dol_load_into_ram ::
  "'e CPUState \<Rightarrow> (nat \<times> bytes) option \<Rightarrow> bool \<times> 'e CPUState \<times> DolLayout" where
  "dol_load_into_ram cpu file = (case file of
     None \<Rightarrow> (False, cpu, zero_layout)
   | Some (sz, data) \<Rightarrow>
       if sz < RAM_DOL_HEADER_SIZE then (False, cpu, zero_layout)
       else let layout = parse_layout data;
                (ok, cpu) = clear_bss cpu (ly_bss_address layout) (ly_bss_size layout);
                (ok, cpu) = (if ok then copy_sections cpu data (of_nat sz) (ly_text_offset layout)
                    (ly_text_address layout) (ly_text_size layout) [0..<LAYOUT_NUM_TEXT] else (ok, cpu));
                (ok, cpu) = (if ok then copy_sections cpu data (of_nat sz) (ly_data_offset layout)
                    (ly_data_address layout) (ly_data_size layout) [0..<LAYOUT_NUM_DATA] else (ok, cpu))
            in (ok, cpu, layout))"

section \<open>The operating system's globals\<close>

abbreviation LOMEM_BOOT_MAGIC :: u32 where "LOMEM_BOOT_MAGIC \<equiv> 0x80000020"
abbreviation LOMEM_BOOT_VERSION :: u32 where "LOMEM_BOOT_VERSION \<equiv> 0x80000024"
abbreviation LOMEM_PHYS_MEM :: u32 where "LOMEM_PHYS_MEM \<equiv> 0x80000028"
abbreviation LOMEM_CONSOLE_TYPE :: u32 where "LOMEM_CONSOLE_TYPE \<equiv> 0x8000002C"
abbreviation LOMEM_ARENA_LO :: u32 where "LOMEM_ARENA_LO \<equiv> 0x80000030"
abbreviation LOMEM_ARENA_HI :: u32 where "LOMEM_ARENA_HI \<equiv> 0x80000034"
abbreviation LOMEM_FST_START :: u32 where "LOMEM_FST_START \<equiv> 0x80000038"
abbreviation LOMEM_FST_MAXLEN :: u32 where "LOMEM_FST_MAXLEN \<equiv> 0x8000003C"
abbreviation LOMEM_VIDEO_MODE :: u32 where "LOMEM_VIDEO_MODE \<equiv> 0x800000CC"
abbreviation LOMEM_BUS_CLOCK :: u32 where "LOMEM_BUS_CLOCK \<equiv> 0x800000F8"
abbreviation LOMEM_CPU_CLOCK :: u32 where "LOMEM_CPU_CLOCK \<equiv> 0x800000FC"
abbreviation GC_PHYS_MEM_SIZE :: u32 where "GC_PHYS_MEM_SIZE \<equiv> 0x01800000"
abbreviation GC_CONSOLE_RETAIL :: u32 where "GC_CONSOLE_RETAIL \<equiv> 0x00000001"
abbreviation GC_BUS_CLOCK :: u32 where "GC_BUS_CLOCK \<equiv> 0x09A7EC80"
abbreviation GC_CPU_CLOCK :: u32 where "GC_CPU_CLOCK \<equiv> 0x1CF7C580"
abbreviation GC_ARENA_HI :: u32 where "GC_ARENA_HI \<equiv> 0x817FEC60"
abbreviation GC_INIT_STACK :: u32 where "GC_INIT_STACK \<equiv> 0x817FFF00"
abbreviation GC_STACK_RESERVE :: u32 where "GC_STACK_RESERVE \<equiv> 0x00020000"

definition poke32 :: "'e CPUState \<Rightarrow> u32 \<Rightarrow> u32 \<Rightarrow> 'e CPUState" where
  "poke32 cpu address value =
    (if address < GC_RAM_BASE then cpu
     else let off = address - GC_RAM_BASE
     in if off + 4 \<le> cpu_ram_size cpu then cpu\<lparr>cpu_ram := write_be32 (cpu_ram cpu) off value\<rparr>
        else cpu)"

definition align_up_boot :: "u32 \<Rightarrow> u32 \<Rightarrow> u32" where
  "align_up_boot value align = (value + (align - 1)) AND NOT (align - 1)"

definition boot_arena_lo :: "DolLayout \<Rightarrow> u32" where
  "boot_arena_lo layout =
    (let arena_lo = align_up_boot (ly_bss_address layout + ly_bss_size layout + GC_STACK_RESERVE) 32
     in if arena_lo < GC_RAM_BASE \<or> arena_lo > GC_ARENA_HI then GC_RAM_BASE else arena_lo)"

text \<open>The calls of \<open>poke32\<close> for the low-memory globals, in their order.\<close>

definition boot_globals :: "u32 \<Rightarrow> (u32 \<times> u32) list" where
  "boot_globals arena_lo =
    [(LOMEM_BOOT_MAGIC, 0x0D15EA5E), (LOMEM_BOOT_VERSION, 1), (LOMEM_PHYS_MEM, GC_PHYS_MEM_SIZE),
     (LOMEM_CONSOLE_TYPE, GC_CONSOLE_RETAIL), (LOMEM_ARENA_LO, arena_lo), (LOMEM_ARENA_HI, GC_ARENA_HI),
     (LOMEM_FST_START, 0), (LOMEM_FST_MAXLEN, 0), (LOMEM_VIDEO_MODE, 0),
     (LOMEM_BUS_CLOCK, GC_BUS_CLOCK), (LOMEM_CPU_CLOCK, GC_CPU_CLOCK)]"

definition boot_setup_os_globals :: "'e CPUState \<Rightarrow> DolLayout \<Rightarrow> 'e CPUState" where
  "boot_setup_os_globals cpu layout =
    (let cpu = fold (\<lambda>(address, value) cpu. poke32 cpu address value) (boot_globals (boot_arena_lo layout)) cpu;
         cpu = cpu\<lparr>gpr := (gpr cpu)[1 := GC_INIT_STACK]\<rparr>;
         cpu = poke32 cpu GC_INIT_STACK 0;
         cpu = poke32 cpu (GC_INIT_STACK + 4) 0
     in cpu\<lparr>cpu_msr := 0x00002000\<rparr>)"

end
