(* ===== verification/BootFacts.thy ===== *)
theory BootFacts
  imports Boot Chunks
begin

text \<open>
  What booting promises: guest RAM holds the image the header describes, an instruction the
  recompiler compiled for an address is the one guest RAM holds there, and the globals of the
  operating system read back as they were set, with a stack above the arena.
\<close>

section \<open>Sections\<close>

lemma read_be32_moved:
  assumes "\<And>x. x < 4 \<Longrightarrow> b (p + x) = c (q + x)"
  shows "read_be32 b p = read_be32 c q"
  using assms [of 0] assms [of 1] assms [of 2] assms [of 3] by (simp add: read_be32_bytes)

lemma u32_bound: "unat x < 2 ^ 32" for x :: u32
  using unsigned_less [of x] by simp

lemma ram_offset_some:
  assumes "ram_offset cpu address sz \<noteq> -1"
  shows "ram_offset cpu address sz = address - GC_RAM_BASE" and "GC_RAM_BASE \<le> address"
    and "unat (address - GC_RAM_BASE) + unat sz \<le> unat (cpu_ram_size cpu)"
  using assms
  by (auto simp: ram_offset_def Let_def fits_nat [symmetric] not_less split: if_splits)

text \<open>One section over another: the byte at offset \<open>a\<close> of RAM when it held \<open>b\<close>.\<close>

definition overlaid :: "bytes \<Rightarrow> u32 list \<Rightarrow> u32 list \<Rightarrow> u32 list \<Rightarrow> u32 \<Rightarrow> nat \<Rightarrow> u8 \<Rightarrow> u8" where
  "overlaid d offsets addresses sizes a i b =
    (let x = GC_RAM_BASE + a - addresses ! i in if x < sizes ! i then d (offsets ! i + x) else b)"

lemma copy_section_some:
  assumes "copy_section cpu d fsz off address sz = Some cpu'"
  shows "cpu' = cpu\<lparr>cpu_ram := cpu_ram cpu'\<rparr>"
    and "sz \<noteq> 0 \<Longrightarrow> GC_RAM_BASE \<le> address \<and>
      unat (address - GC_RAM_BASE) + unat sz \<le> unat (cpu_ram_size cpu) \<and> unat off + unat sz \<le> unat fsz"
    and "cpu_ram cpu' a = (let x = GC_RAM_BASE + a - address in if x < sz then d (off + x) else cpu_ram cpu a)"
proof -
  have x: "a - (address - GC_RAM_BASE) = GC_RAM_BASE + a - address" by (simp add: algebra_simps)
  note facts = ram_offset_some [of cpu address sz]
  show "cpu' = cpu\<lparr>cpu_ram := cpu_ram cpu'\<rparr>"
    using assms by (auto simp: copy_section_def Let_def split: if_splits)
  show "sz \<noteq> 0 \<Longrightarrow> GC_RAM_BASE \<le> address \<and>
      unat (address - GC_RAM_BASE) + unat sz \<le> unat (cpu_ram_size cpu) \<and> unat off + unat sz \<le> unat fsz"
    using assms facts by (auto simp: copy_section_def Let_def fits_nat [symmetric] not_less split: if_splits)
  show "cpu_ram cpu' a = (let x = GC_RAM_BASE + a - address in if x < sz then d (off + x) else cpu_ram cpu a)"
    using assms facts(1) by (auto simp: copy_section_def memmove_def Let_def x split: if_splits)
qed

lemma copy_sections_true:
  assumes "copy_sections cpu d fsz offsets addresses sizes is = (True, cpu')"
  shows "cpu' = cpu\<lparr>cpu_ram := cpu_ram cpu'\<rparr> \<and>
    (\<forall>i \<in> set is. sizes ! i \<noteq> 0 \<longrightarrow> GC_RAM_BASE \<le> addresses ! i \<and>
      unat (addresses ! i - GC_RAM_BASE) + unat (sizes ! i) \<le> unat (cpu_ram_size cpu) \<and>
      unat (offsets ! i) + unat (sizes ! i) \<le> unat fsz) \<and>
    cpu_ram cpu' a = fold (overlaid d offsets addresses sizes a) is (cpu_ram cpu a)"
  using assms
proof (induction "is" arbitrary: cpu)
  case (Cons i "is")
  then obtain c where c: "copy_section cpu d fsz (offsets ! i) (addresses ! i) (sizes ! i) = Some c"
    and rest: "copy_sections c d fsz offsets addresses sizes is = (True, cpu')"
    by (auto split: option.splits)
  note IH = Cons.IH [OF rest] and step = copy_section_some [OF c]
  have size: "cpu_ram_size c = cpu_ram_size cpu" and same: "c\<lparr>cpu_ram := r\<rparr> = cpu\<lparr>cpu_ram := r\<rparr>" for r
    by (subst step(1), simp)+
  show ?case using IH step(2,3) by (auto simp: size same overlaid_def Let_def)
qed simp

section \<open>The image in RAM\<close>

text \<open>The sections of a layout in the order they are loaded: address, size and file offset.\<close>

definition layout_sections :: "DolLayout \<Rightarrow> (u32 \<times> u32 \<times> u32) list" where
  "layout_sections ly =
    map (\<lambda>i. (ly_text_address ly ! i, ly_text_size ly ! i, ly_text_offset ly ! i)) [0..<LAYOUT_NUM_TEXT] @
    map (\<lambda>i. (ly_data_address ly ! i, ly_data_size ly ! i, ly_data_offset ly ! i)) [0..<LAYOUT_NUM_DATA]"

definition covers :: "u32 \<Rightarrow> u32 \<times> u32 \<times> u32 \<Rightarrow> bool" where
  "covers x s = (x - fst s < fst (snd s))"

definition section_byte :: "bytes \<Rightarrow> u32 \<Rightarrow> u32 \<times> u32 \<times> u32 \<Rightarrow> u8" where
  "section_byte d x s = d (snd (snd s) + (x - fst s))"

lemma fold_last_match:
  "fold (\<lambda>s b. if P s then f s else b) ss b = (case find P (rev ss) of None \<Rightarrow> b | Some s \<Rightarrow> f s)"
proof (induction ss arbitrary: b rule: rev_induct)
  case (snoc s ss)
  then show ?case by simp
qed simp

lemma fold_overlaid:
  "fold (overlaid d offsets addresses sizes a) is b =
   fold (\<lambda>s b. if covers (GC_RAM_BASE + a) s then section_byte d (GC_RAM_BASE + a) s else b)
     (map (\<lambda>i. (addresses ! i, sizes ! i, offsets ! i)) is) b"
  by (simp add: fold_map o_def overlaid_def [abs_def] covers_def section_byte_def Let_def)

lemma clear_bss_true:
  assumes "clear_bss cpu address sz = (True, cpu')"
  shows "cpu' = cpu\<lparr>cpu_ram := cpu_ram cpu'\<rparr>"
    and "sz \<noteq> 0 \<Longrightarrow> GC_RAM_BASE \<le> address \<and> unat (address - GC_RAM_BASE) + unat sz \<le> unat (cpu_ram_size cpu)"
    and "cpu_ram cpu' a = (if GC_RAM_BASE + a - address < sz then 0 else cpu_ram cpu a)"
proof -
  have x: "a - (address - GC_RAM_BASE) = GC_RAM_BASE + a - address" by (simp add: algebra_simps)
  note facts = ram_offset_some [of cpu address sz]
  show "cpu' = cpu\<lparr>cpu_ram := cpu_ram cpu'\<rparr>" "sz \<noteq> 0 \<Longrightarrow> GC_RAM_BASE \<le> address \<and>
      unat (address - GC_RAM_BASE) + unat sz \<le> unat (cpu_ram_size cpu)"
    using assms facts by (auto simp: clear_bss_def Let_def split: if_splits)
  show "cpu_ram cpu' a = (if GC_RAM_BASE + a - address < sz then 0 else cpu_ram cpu a)"
    using assms facts(1) by (auto simp: clear_bss_def Let_def x split: if_splits)
qed

lemma loaded_layout:
  "dol_load_into_ram cpu (Some (n, d)) = (True, cpu', ly) \<Longrightarrow> ly = parse_layout d \<and> RAM_DOL_HEADER_SIZE \<le> n"
  by (auto simp: dol_load_into_ram_def Let_def split: if_splits prod.splits)

lemma loaded_steps:
  assumes "dol_load_into_ram cpu (Some (n, d)) = (True, cpu', ly)"
  obtains c1 c2 where "clear_bss cpu (ly_bss_address ly) (ly_bss_size ly) = (True, c1)"
    and "copy_sections c1 d (of_nat n) (ly_text_offset ly) (ly_text_address ly) (ly_text_size ly) [0..<LAYOUT_NUM_TEXT] = (True, c2)"
    and "copy_sections c2 d (of_nat n) (ly_data_offset ly) (ly_data_address ly) (ly_data_size ly) [0..<LAYOUT_NUM_DATA] = (True, cpu')"
proof -
  have ly: "ly = parse_layout d" "\<not> n < RAM_DOL_HEADER_SIZE" using loaded_layout [OF assms] by simp_all
  show ?thesis
    using assms that unfolding dol_load_into_ram_def ly(1)
    by (simp add: ly(2) Let_def split: prod.splits if_splits)
qed

lemma image_in_ram:
  assumes "dol_load_into_ram cpu (Some (n, d)) = (True, cpu', ly)"
  shows "cpu' = cpu\<lparr>cpu_ram := cpu_ram cpu'\<rparr>"
    and "\<forall>(address, sz, off) \<in> set (layout_sections ly). sz \<noteq> 0 \<longrightarrow> GC_RAM_BASE \<le> address \<and>
      unat (address - GC_RAM_BASE) + unat sz \<le> unat (cpu_ram_size cpu) \<and> unat off + unat sz \<le> unat (of_nat n :: u32)"
    and "cpu_ram cpu' a = (case find (covers (GC_RAM_BASE + a)) (rev (layout_sections ly)) of
        Some s \<Rightarrow> section_byte d (GC_RAM_BASE + a) s
      | None \<Rightarrow> if GC_RAM_BASE + a - ly_bss_address ly < ly_bss_size ly then 0 else cpu_ram cpu a)"
proof -
  obtain c1 c2 where c1: "clear_bss cpu (ly_bss_address ly) (ly_bss_size ly) = (True, c1)"
    and c2: "copy_sections c1 d (of_nat n) (ly_text_offset ly) (ly_text_address ly) (ly_text_size ly) [0..<LAYOUT_NUM_TEXT] = (True, c2)"
    and c3: "copy_sections c2 d (of_nat n) (ly_data_offset ly) (ly_data_address ly) (ly_data_size ly) [0..<LAYOUT_NUM_DATA] = (True, cpu')"
    using loaded_steps [OF assms] .
  note bss = clear_bss_true [OF c1] and texts = copy_sections_true [OF c2] and datas = copy_sections_true [OF c3]
  have u1: "c1\<lparr>cpu_ram := r\<rparr> = cpu\<lparr>cpu_ram := r\<rparr>" "cpu_ram_size c1 = cpu_ram_size cpu" for r
    by (subst bss(1), simp)+
  have e2: "c2 = c1\<lparr>cpu_ram := cpu_ram c2\<rparr>" and e3: "cpu' = c2\<lparr>cpu_ram := cpu_ram cpu'\<rparr>" using texts datas by blast+
  have u2: "c2\<lparr>cpu_ram := r\<rparr> = cpu\<lparr>cpu_ram := r\<rparr>" "cpu_ram_size c2 = cpu_ram_size cpu" for r
    by (subst e2, simp add: u1)+
  show "cpu' = cpu\<lparr>cpu_ram := cpu_ram cpu'\<rparr>" using e3 unfolding u2(1) .
  show "\<forall>(address, sz, off) \<in> set (layout_sections ly). sz \<noteq> 0 \<longrightarrow> GC_RAM_BASE \<le> address \<and>
      unat (address - GC_RAM_BASE) + unat sz \<le> unat (cpu_ram_size cpu) \<and> unat off + unat sz \<le> unat (of_nat n :: u32)"
    using texts datas u1(2) u2(2) by (auto simp: layout_sections_def)
  have "cpu_ram cpu' a = fold (\<lambda>s b. if covers (GC_RAM_BASE + a) s then section_byte d (GC_RAM_BASE + a) s else b)
      (layout_sections ly) (cpu_ram c1 a)"
    using texts datas unfolding fold_overlaid layout_sections_def fold_append o_apply by simp
  then show "cpu_ram cpu' a = (case find (covers (GC_RAM_BASE + a)) (rev (layout_sections ly)) of
        Some s \<Rightarrow> section_byte d (GC_RAM_BASE + a) s
      | None \<Rightarrow> if GC_RAM_BASE + a - ly_bss_address ly < ly_bss_size ly then 0 else cpu_ram cpu a)"
    unfolding fold_last_match bss(3) .
qed

lemma mem1_read32:
  assumes "cpu_exram cpu = None" and "cpu_ram_size cpu \<le> 0x10000000" and "unat off + 4 \<le> unat (cpu_ram_size cpu)"
  shows "mem_read32 h cpu (GC_RAM_BASE + off) = (read_be32 (cpu_ram cpu) off, cpu)"
proof -
  have ram: "unat (cpu_ram_size cpu) \<le> 0x10000000" using assms(2) by (simp add: word_le_nat_alt)
  then have off: "off < 0x10000000" using assms(3) by (simp add: word_less_nat_alt)
  have "off \<le> cpu_ram_size cpu - 4"
    using assms(3) by (simp add: word_le_nat_alt unat_sub)
  then have "get_ram_ptr cpu (GC_RAM_BASE + off) 4 = Some (Mem1Ptr off)"
    unfolding get_ram_ptr_def guest_address_masked [OF off] Let_def by (simp add: assms(1))
  then show ?thesis by (simp add: mem_read32_def)
qed

lemma layout_table_is_read_table: "layout_table = read_table"
  by (intro ext) (simp add: layout_table_def read_table_def)

lemma code_section_of_layout:
  assumes "dol_load (Some (n, d)) = Some dol" and "dol_load_into_ram cpu (Some (n, d)) = (True, cpu', ly)"
    and "s \<in> set (dol_code_sections dol)"
  shows "(sec_address s, sec_size s, sec_file_offset s) \<in> set (layout_sections ly) \<and>
    sec_data s = bytes_at d (sec_file_offset s) \<and> sec_size s \<noteq> 0 \<and> 4 dvd unat (sec_size s) \<and> sec_mode s = EMBEDDED_DATA_DOL"
proof -
  from assms(1) have dol: "dol = \<lparr>dol_header = parse_dol_header d, dol_file_data = Some d, dol_file_size = of_nat n\<rparr>"
    and ok: "validate_dol_layout dol"
    by (auto simp: dol_load_def Let_def split: if_splits)
  have ly: "ly = parse_layout d" using loaded_layout [OF assms(2)] by simp
  obtain i where i: "i < DOL_NUM_TEXT" and s: "dol_section dol (of_nat i) = Some s"
    using assms(3) by (auto simp: dol_code_sections_def map_filter_def)
  have ui: "unat (of_nat i :: u32) = i" using i by (simp add: unat_of_nat)
  have "4 dvd unat (text_sizes (dol_header dol) ! i)"
    using ok i unfolding validate_dol_layout_iff aligned_nat by blast
  then show ?thesis
    using s i unfolding dol_section_def ui
    by (auto simp: dol ly parse_dol_header_def parse_layout_def layout_sections_def layout_table_is_read_table
        dol_get_text_section_def Let_def split: if_splits)
qed

lemma unique_byte:
  assumes "dol_load_into_ram cpu (Some (n, d)) = (True, cpu', ly)" and "s \<in> set (layout_sections ly)"
    and "covers (GC_RAM_BASE + a) s" and "\<And>t. t \<in> set (layout_sections ly) \<Longrightarrow> covers (GC_RAM_BASE + a) t \<Longrightarrow> t = s"
  shows "cpu_ram cpu' a = section_byte d (GC_RAM_BASE + a) s"
proof -
  have "find (covers (GC_RAM_BASE + a)) (rev (layout_sections ly)) \<noteq> None"
    using assms(2,3) unfolding find_None_iff by (metis set_rev)
  then obtain t where t: "find (covers (GC_RAM_BASE + a)) (rev (layout_sections ly)) = Some t" by blast
  then have "t \<in> set (layout_sections ly)" "covers (GC_RAM_BASE + a) t"
    unfolding find_Some_iff by (metis nth_mem set_rev)+
  then have "t = s" using assms(4) by blast
  then show ?thesis using image_in_ram(3) [OF assms(1)] t by simp
qed

section \<open>Properties\<close>

text \<open>C32: after the executable was loaded, guest RAM holds its image and nothing else has changed:
  every section lies in the file and in RAM, a byte is that of the last section loaded over its
  address, zero in the BSS outside the sections, and what it was elsewhere.\<close>

theorem boot_places_image:
  assumes "dol_load_into_ram cpu (Some (n, d)) = (True, cpu', ly)"
  shows "ly = parse_layout d \<and> cpu' = cpu\<lparr>cpu_ram := cpu_ram cpu'\<rparr> \<and>
    (\<forall>(address, sz, off) \<in> set (layout_sections ly). sz \<noteq> 0 \<longrightarrow> GC_RAM_BASE \<le> address \<and>
      unat (address - GC_RAM_BASE) + unat sz \<le> unat (cpu_ram_size cpu) \<and> unat off + unat sz \<le> n) \<and>
    cpu_ram cpu' a = (case find (covers (GC_RAM_BASE + a)) (rev (layout_sections ly)) of
        Some s \<Rightarrow> section_byte d (GC_RAM_BASE + a) s
      | None \<Rightarrow> if GC_RAM_BASE + a - ly_bss_address ly < ly_bss_size ly then 0 else cpu_ram cpu a)"
proof -
  have "unat (of_nat n :: u32) \<le> n" by (simp add: unat_of_nat)
  then show ?thesis
    using loaded_layout [OF assms] image_in_ram [OF assms] by fastforce
qed

text \<open>C5: the guest runs what was compiled.  When the recompiler and the runtime load the same
  file, the instruction the recompiler decodes for an address is the decoding of the word the guest
  reads at that address, unless another section is loaded over it.\<close>

theorem compiled_code_is_loaded:
  assumes "dol_load (Some (n, d)) = Some dol" and "dol_load_into_ram cpu (Some (n, d)) = (True, cpu', ly)"
    and "cpu_exram cpu = None" and "cpu_ram_size cpu \<le> 0x10000000"
    and "s \<in> set (dol_code_sections dol)" and "k < length (decode_section s)"
    and "\<forall>t \<in> set (layout_sections ly). \<forall>x < 4. covers (sec_address s + of_nat k * 4 + x) t \<longrightarrow>
      t = (sec_address s, sec_size s, sec_file_offset s)"
  shows "decode_section s ! k = (let a = sec_address s + of_nat k * 4 in
    decode_word EMBEDDED_DATA_DOL (fst (mem_read32 h cpu' a)) a)"
proof -
  let ?t = "(sec_address s, sec_size s, sec_file_offset s)" and ?a = "sec_address s + of_nat k * 4"
  let ?o = "?a - GC_RAM_BASE"
  note s = code_section_of_layout [OF assms(1,2,5)]
  have sizes: "GC_RAM_BASE \<le> sec_address s" "unat (sec_address s - GC_RAM_BASE) + unat (sec_size s) \<le> unat (cpu_ram_size cpu)"
    using image_in_ram(2) [OF assms(2)] s by fastforce+
  have k: "4 * k + 4 \<le> unat (sec_size s)"
    using assms(6) s by (auto simp: decode_section_def unat_div elim!: dvdE)
  then have k4: "unat (of_nat k * 4 :: u32) = 4 * k"
    using u32_bound [of "sec_size s"] by (subst unat_mult_lem [THEN iffD1]) (simp_all add: unat_of_nat)
  have o: "?o = (sec_address s - GC_RAM_BASE) + of_nat k * 4" by simp
  have uo: "unat ?o = unat (sec_address s - GC_RAM_BASE) + 4 * k"
    unfolding o using sizes(2) k k4 u32_bound [of "cpu_ram_size cpu"] by (subst unat_add_lem [THEN iffD1]) simp_all
  have byte: "cpu_ram cpu' (?o + x) = d (sec_file_offset s + (of_nat k * 4 + x))" if x: "x < 4" for x
  proof -
    have rel: "GC_RAM_BASE + (?o + x) = ?a + x" "?a + x - sec_address s = of_nat k * 4 + x" by simp_all
    have "unat (of_nat k * 4 + x) < unat (sec_size s)"
      using k k4 x u32_bound [of "sec_size s"] by (simp add: unat_word_ariths word_less_nat_alt)
    then have "covers (?a + x) ?t" by (simp add: covers_def word_less_nat_alt)
    then show ?thesis
      using unique_byte [OF assms(2), of ?t "?o + x"] s assms(7) x unfolding rel section_byte_def by (auto simp: rel)
  qed
  have same: "cpu_exram cpu' = None" "cpu_ram_size cpu' = cpu_ram_size cpu"
    using assms(3) by (subst image_in_ram(1) [OF assms(2)], simp)+
  have "mem_read32 h cpu' (GC_RAM_BASE + ?o) = (read_be32 (cpu_ram cpu') ?o, cpu')"
    using sizes(2) k uo assms(4) same by (intro mem1_read32) simp_all
  moreover have "GC_RAM_BASE + ?o = ?a" by simp
  moreover have "read_be32 (cpu_ram cpu') ?o = read_be32 (sec_data s) (of_nat k * 4)"
    by (rule read_be32_moved) (simp add: byte s bytes_at_def)
  ultimately have "fst (mem_read32 h cpu' ?a) = read_be32 (sec_data s) (of_nat k * 4)" by simp
  then show ?thesis
    using assms(6) s by (simp add: decode_section_def Let_def)
qed

section \<open>Globals\<close>

text \<open>What booting stores, as a table of words at offsets of RAM.\<close>

definition boot_table :: "u32 \<Rightarrow> (u32 \<times> nat \<times> u64) list" where
  "boot_table arena_lo = map (\<lambda>(address, value). (address - GC_RAM_BASE, 4, ucast value))
     (boot_globals arena_lo @ [(GC_INIT_STACK, 0), (GC_INIT_STACK + 4, 0)])"

lemma poke32_in_ram:
  assumes "cpu_ram_size cpu = GC_MAIN_RAM_SIZE" and "GC_RAM_BASE \<le> a" and "a - GC_RAM_BASE + 4 \<le> GC_MAIN_RAM_SIZE"
  shows "poke32 cpu a v = cpu\<lparr>cpu_ram := be_store (cpu_ram cpu) (a - GC_RAM_BASE) 4 (ucast v)\<rparr>"
  using assms by (simp add: poke32_def write_be32_loop Let_def not_less)

lemma poke_table:
  assumes "cpu_ram_size cpu = GC_MAIN_RAM_SIZE"
    and "list_all (\<lambda>(a, v). GC_RAM_BASE \<le> a \<and> a - GC_RAM_BASE + 4 \<le> GC_MAIN_RAM_SIZE) pokes"
  shows "fold (\<lambda>(a, v) cpu. poke32 cpu a v) pokes cpu =
    cpu\<lparr>cpu_ram := be_bytes.write_table (cpu_ram cpu) (map (\<lambda>(a, v). (a - GC_RAM_BASE, 4, ucast v)) pokes)\<rparr>"
  using assms
proof (induction pokes arbitrary: cpu)
  case (Cons p pokes)
  then show ?case by (cases p) (simp add: poke32_in_ram)
qed simp

lemma write_table_append: "be_bytes.write_table b (xs @ ys) = be_bytes.write_table (be_bytes.write_table b xs) ys"
  by (induction xs arbitrary: b) auto

lemma booted:
  assumes "cpu_ram_size cpu = GC_MAIN_RAM_SIZE"
  shows "boot_setup_os_globals cpu ly = cpu\<lparr>cpu_ram := be_bytes.write_table (cpu_ram cpu) (boot_table (boot_arena_lo ly)),
    gpr := (gpr cpu)[1 := GC_INIT_STACK], cpu_msr := PPC_MSR_FP\<rparr>"
proof -
  have "list_all (\<lambda>(a, v). GC_RAM_BASE \<le> a \<and> a - GC_RAM_BASE + 4 \<le> GC_MAIN_RAM_SIZE) (boot_globals (boot_arena_lo ly))"
    by (simp add: boot_globals_def)
  note pokes = poke_table [OF assms this]
  show ?thesis
    unfolding boot_setup_os_globals_def pokes Let_def
    by (simp add: assms poke32_in_ram boot_table_def write_table_append)
qed

lemma word_cells_apart:
  "unat p + 4 \<le> unat q \<or> unat q + 4 \<le> unat p \<Longrightarrow> unat p \<le> 2 ^ 32 - 4 \<Longrightarrow> unat q \<le> 2 ^ 32 - 4 \<Longrightarrow>
   cells p 4 \<inter> cells q 4 = {}" for p q :: u32
  by (rule cells_disjoint) auto

lemma boot_table_ok: "be_bytes.table_ok b (boot_table arena_lo)"
  by (simp add: boot_table_def boot_globals_def be_inside_def word_cells_apart)

lemma narrow_word: "ucast (take_bit 32 v :: u64) = (ucast v :: u32)"
  by (rule bit_word_eqI) (simp add: bit_simps)

lemma boot_table_reads:
  "(off, 4, v) \<in> set (boot_table arena_lo) \<Longrightarrow>
   read_be32 (be_bytes.write_table b (boot_table arena_lo)) off = ucast v"
  using be_bytes.write_table_reads_back [OF boot_table_ok, of off 4 v arena_lo b]
  by (simp add: read_be32_loop narrow_word)

lemma boot_table_frame:
  "\<forall>(off, n, v) \<in> set es. x \<notin> cells off n \<Longrightarrow> be_bytes.write_table b es x = b x"
  by (induction es arbitrary: b) (auto simp: be_store_frame)

lemma arena_lo_aligned: "align_up_boot x 32 AND 31 = 0"
  using and_not_self_mask [of "x + (32 - 1)" "32 - 1 :: u32"] by (simp add: align_up_boot_def)

lemma arena_lo_bounds: "GC_RAM_BASE \<le> boot_arena_lo ly \<and> boot_arena_lo ly \<le> GC_ARENA_HI \<and> boot_arena_lo ly AND 31 = 0"
  using arena_lo_aligned by (auto simp: boot_arena_lo_def Let_def not_less)

lemma align_up_boot_ge:
  assumes "unat x + 31 < 2 ^ 32"
  shows "x \<le> align_up_boot x 32"
proof -
  let ?y = "x + 31"
  have y: "unat ?y = unat x + 31" using assms by (simp add: unat_word_ariths)
  have "(?y AND NOT 31) + (?y AND 31) = (?y AND NOT 31) OR (?y AND 31)"
    by (rule disjunctive_add) (auto simp: bit_simps)
  also have "\<dots> = ?y" by (rule bit_word_eqI) (auto simp: bit_simps)
  finally have "unat ?y \<le> unat (?y AND NOT 31) + unat (?y AND 31)"
    by (metis unat_word_ariths(1) mod_less_eq_dividend)
  moreover have "?y AND 31 \<le> 31" by (rule word_and_le1)
  then have "unat (?y AND 31) \<le> 31" by (simp add: word_le_nat_alt)
  ultimately have "unat x \<le> unat (?y AND NOT 31)" using y by linarith
  moreover have "align_up_boot x 32 = ?y AND NOT 31" by (simp add: align_up_boot_def)
  ultimately show ?thesis by (simp add: word_le_nat_alt)
qed

text \<open>C33: the globals a booted guest reads are those that were set.  Magic, memory size, clocks and
  the ends of the arena read back, and a null back chain and link register at the stack pointer,
  which lies above the arena; the arena is aligned, inside RAM and, when it fits, at least 128 KB
  above the BSS; and no other byte of RAM is written.\<close>

theorem boot_globals_read_back:
  fixes cpu :: "'e CPUState" and ly :: DolLayout
  assumes "cpu_ram_size cpu = GC_MAIN_RAM_SIZE" and "cpu_exram cpu = None" and "length (gpr cpu) = 32"
  defines "cpu' \<equiv> boot_setup_os_globals cpu ly" and "lo \<equiv> boot_arena_lo ly"
  shows "(\<forall>(address, value) \<in> set (boot_globals lo @ [(GC_INIT_STACK, 0), (GC_INIT_STACK + 4, 0)]).
      mem_read32 h cpu' address = (value, cpu')) \<and>
    gpr cpu' ! 1 = GC_INIT_STACK \<and> GC_RAM_BASE \<le> lo \<and> lo \<le> GC_ARENA_HI \<and> GC_ARENA_HI < GC_INIT_STACK \<and> lo AND 31 = 0 \<and>
    (let bss_end = unat (ly_bss_address ly) + unat (ly_bss_size ly) in
      unat GC_RAM_BASE \<le> bss_end \<and> bss_end + 0x20020 \<le> unat GC_ARENA_HI \<longrightarrow> bss_end + 0x20000 \<le> unat lo) \<and>
    (\<forall>x. (\<forall>(off, n, v) \<in> set (boot_table lo). x \<notin> cells off n) \<longrightarrow> cpu_ram cpu' x = cpu_ram cpu x)"
proof -
  note cpu' = booted [OF assms(1), of ly, folded cpu'_def lo_def]
  have reads: "mem_read32 h cpu' a = (v, cpu')"
    if "(a, v) \<in> set (boot_globals lo @ [(GC_INIT_STACK, 0), (GC_INIT_STACK + 4, 0)])" for a v
  proof -
    have "(a - GC_RAM_BASE, 4, ucast v) \<in> set (boot_table lo)"
      using that unfolding boot_table_def set_map by (metis (mono_tags, lifting) case_prod_conv imageI)
    then have "read_be32 (cpu_ram cpu') (a - GC_RAM_BASE) = v"
      unfolding cpu' by (simp add: boot_table_reads)
    moreover have "unat (a - GC_RAM_BASE) + 4 \<le> unat GC_MAIN_RAM_SIZE"
      using that by (auto simp: boot_globals_def)
    then have "mem_read32 h cpu' (GC_RAM_BASE + (a - GC_RAM_BASE)) = (read_be32 (cpu_ram cpu') (a - GC_RAM_BASE), cpu')"
      by (intro mem1_read32) (simp_all add: cpu' assms)
    ultimately show ?thesis by simp
  qed
  have arena: "bss_end + 0x20000 \<le> unat lo"
    if e: "bss_end = unat (ly_bss_address ly) + unat (ly_bss_size ly)" "unat GC_RAM_BASE \<le> bss_end" "bss_end + 0x20020 \<le> unat GC_ARENA_HI"
    for bss_end
  proof -
    let ?x = "ly_bss_address ly + ly_bss_size ly + GC_STACK_RESERVE"
    have x: "unat ?x = bss_end + 0x20000" using e by (simp add: unat_word_ariths)
    then have "unat ?x \<le> unat (align_up_boot ?x 32)"
      using align_up_boot_ge [of ?x] e by (simp add: word_le_nat_alt)
    moreover have "unat (align_up_boot ?x 32) \<le> unat (?x + 31)"
      using word_and_le2 [of "?x + 31" "NOT 31"] by (simp add: align_up_boot_def word_le_nat_alt)
    moreover have "unat (?x + 31) = unat ?x + 31" using x e by (simp add: unat_word_ariths)
    ultimately show ?thesis
      using x e by (simp add: lo_def boot_arena_lo_def Let_def word_less_nat_alt)
  qed
  have "cpu_ram cpu' x = cpu_ram cpu x" if "\<forall>(off, n, v) \<in> set (boot_table lo). x \<notin> cells off n" for x
    unfolding cpu' using boot_table_frame [OF that] by simp
  moreover have "gpr cpu' ! 1 = GC_INIT_STACK" by (simp add: cpu' assms(3))
  moreover note arena_lo_bounds [of ly, folded lo_def]
  ultimately show ?thesis using reads arena by (auto simp: Let_def)
qed

lemma boot_globals_read_back_witness:
  "fst (mem_read32 no_host (boot_setup_os_globals (cpu_init ()) zero_layout) LOMEM_BOOT_MAGIC) = 0x0D15EA5E"
  using boot_globals_read_back [of "cpu_init ()" zero_layout no_host]
  by (simp add: cpu_init_def cpu_zero_def boot_globals_def)

text \<open>An executable without a BSS gets an arena that starts at the bottom of RAM, below the
  globals and every section that was loaded, so that clearing the arena wipes the program.\<close>

theorem boot_arena_without_bss:
  assumes "dol_load_into_ram cpu (Some (n, d)) = (True, cpu', ly)" and "ly_bss_size ly = 0" and "ly_bss_address ly = 0"
    and "(address, sz, off) \<in> set (layout_sections ly)" and "sz \<noteq> 0"
  shows "boot_arena_lo ly \<le> LOMEM_BOOT_MAGIC \<and> boot_arena_lo ly \<le> address"
proof -
  have "boot_arena_lo ly = GC_RAM_BASE"
    by (simp add: boot_arena_lo_def align_up_boot_def assms(2,3))
  then show ?thesis using image_in_ram(2) [OF assms(1)] assms(4,5) by auto
qed

text \<open>The file of Dol, with eight zero bytes of code at 0x80003100 and no BSS.\<close>

lemma demo_tables:
  "read_table demo_dol 0 7 = [0x100, 0, 0, 0, 0, 0, 0]"
  "read_table demo_dol 0x48 7 = [0x80003100, 0, 0, 0, 0, 0, 0]" "read_table demo_dol 0x90 7 = [8, 0, 0, 0, 0, 0, 0]"
  "read_table demo_dol 0x1C 11 = [0, 0, 0, 0, 0, 0, 0, 0, 0, 0, 0]"
  "read_table demo_dol 0x64 11 = [0, 0, 0, 0, 0, 0, 0, 0, 0, 0, 0]"
  "read_table demo_dol 0xAC 11 = [0, 0, 0, 0, 0, 0, 0, 0, 0, 0, 0]"
  "read_be32 demo_dol 0xD8 = 0" "read_be32 demo_dol 0xDC = 0" "read_be32 demo_dol 0xE0 = 0x80003104"
  by (simp_all add: read_table_def upt_rec read_be32_bytes demo_dol_def)

lemma demo_layout:
  "layout_sections (parse_layout demo_dol) =
    [(0x80003100, 8, 0x100), (0, 0, 0), (0, 0, 0), (0, 0, 0), (0, 0, 0), (0, 0, 0), (0, 0, 0), (0, 0, 0), (0, 0, 0), (0, 0, 0),
     (0, 0, 0), (0, 0, 0), (0, 0, 0), (0, 0, 0), (0, 0, 0), (0, 0, 0), (0, 0, 0), (0, 0, 0)]"
  "ly_bss_size (parse_layout demo_dol) = 0" "ly_bss_address (parse_layout demo_dol) = 0"
  by (simp_all add: layout_sections_def parse_layout_def layout_table_is_read_table demo_tables upt_rec)

lemma demo_loads:
  obtains cpu' where "dol_load_into_ram (cpu_init ()) (Some (0x108, demo_dol)) = (True, cpu', parse_layout demo_dol)"
  by (simp add: dol_load_into_ram_def parse_layout_def layout_table_is_read_table demo_tables clear_bss_def
      copy_section_def ram_offset_def cpu_init_def cpu_zero_def upt_rec)

lemma boot_places_image_witness:
  "\<exists>cpu'. dol_load_into_ram (cpu_init ()) (Some (0x108, demo_dol)) = (True, cpu', parse_layout demo_dol) \<and>
     cpu_ram cpu' 0x3104 = demo_dol 0x104 \<and> cpu_ram cpu' 0x3200 = 0"
proof -
  obtain cpu' where load: "dol_load_into_ram (cpu_init ()) (Some (0x108, demo_dol)) = (True, cpu', parse_layout demo_dol)"
    by (rule demo_loads)
  show ?thesis
    using load boot_places_image [OF load, where a = "0x3104"] boot_places_image [OF load, where a = "0x3200"]
    by (simp add: demo_layout covers_def section_byte_def cpu_init_def cpu_zero_def)
qed

lemma boot_arena_without_bss_witness:
  "boot_arena_lo (parse_layout demo_dol) \<le> 0x80003100"
proof -
  obtain cpu' where "dol_load_into_ram (cpu_init ()) (Some (0x108, demo_dol)) = (True, cpu', parse_layout demo_dol)"
    by (rule demo_loads)
  from boot_arena_without_bss [OF this, of "0x80003100" 8 "0x100"] show ?thesis by (simp add: demo_layout)
qed

lemma compiled_code_is_loaded_witness:
  "\<exists>dol cpu' s. dol_load (Some (0x108, demo_dol)) = Some dol \<and>
     dol_load_into_ram (cpu_init ()) (Some (0x108, demo_dol)) = (True, cpu', parse_layout demo_dol) \<and>
     dol_code_sections dol = [s] \<and>
     decode_section s ! 1 = decode_word EMBEDDED_DATA_DOL (fst (mem_read32 no_host cpu' 0x80003104)) 0x80003104"
proof -
  obtain cpu' where load: "dol_load_into_ram (cpu_init ()) (Some (0x108, demo_dol)) = (True, cpu', parse_layout demo_dol)"
    by (rule demo_loads)
  let ?dol = "\<lparr>dol_header = parse_dol_header demo_dol, dol_file_data = Some demo_dol, dol_file_size = 0x108\<rparr>"
  let ?s = "\<lparr>sec_label = ''text'', sec_name = None, sec_data = bytes_at demo_dol 0x100, sec_index = 0,
     sec_file_offset = 0x100, sec_address = 0x80003100, sec_size = 8, sec_mode = EMBEDDED_DATA_DOL\<rparr>"
  have dol: "dol_load (Some (0x108, demo_dol)) = Some ?dol"
    by (simp add: dol_load_def Let_def validate_dol_layout_def upt_rec parse_dol_header_def demo_tables
        validate_section_range_def dol_range_fits_def address_in_range_def)
  have s: "dol_code_sections ?dol = [?s]"
    by (simp add: dol_code_sections_def dol_section_def upt_rec map_filter_def parse_dol_header_def demo_tables
        dol_get_text_section_def dol_range_fits_def)
  have n: "length (decode_section ?s) = 2" by (simp add: decode_section_def unat_div)
  have "decode_section ?s ! 1 = decode_word EMBEDDED_DATA_DOL (fst (mem_read32 no_host cpu' 0x80003104)) 0x80003104"
    using compiled_code_is_loaded [OF dol load, of ?s 1 no_host] s n
    by (simp add: demo_layout covers_def cpu_init_def cpu_zero_def Let_def)
  with dol load s show ?thesis by blast
qed

end
