(* ===== verification/Dvd.thy ===== *)
theory Dvd
  imports GuestCpu
begin

text \<open>
  The disc image behind the DVD calls of a guest, src/GXRuntime/src/dvd.c: opening an image, looking
  a path up in its file-system table, and reading the disc into guest memory.

  A file is the list of its bytes, and so is the table, which the code keeps as it is on the disc
  and never checks beyond its number of entries.  Reading outside it, or writing outside guest RAM,
  is the result \<open>Wild\<close>; a loop that does not end has no result (\<open>None\<close>).  The file system of the
  host and the success of the allocation are parameters.  A C string is the list of its bytes
  before the NUL.
\<close>

section \<open>State\<close>

abbreviation DISC_MAGIC_OFFSET :: nat where "DISC_MAGIC_OFFSET \<equiv> 0x1C"
abbreviation DISC_MAGIC :: u32 where "DISC_MAGIC \<equiv> 0xC2339F3D"
abbreviation DISC_FST_OFFSET :: nat where "DISC_FST_OFFSET \<equiv> 0x424"
abbreviation DISC_FST_SIZE :: nat where "DISC_FST_SIZE \<equiv> 0x428"
abbreviation FST_ENTRY_SIZE :: nat where "FST_ENTRY_SIZE \<equiv> 12"

record Dvd =
  g_iso :: "u8 list option"
  g_fst :: "u8 list option"
  g_fst_size :: u32
  g_num_entries :: u32
  g_strings :: "nat option"
  g_ready :: bool

definition dvd_start :: Dvd where
  "dvd_start = \<lparr>g_iso = None, g_fst = None, g_fst_size = 0, g_num_entries = 0, g_strings = None, g_ready = False\<rparr>"

datatype 'a probe = Wild | Value 'a

definition or_wild :: "'a option \<Rightarrow> 'a probe" where
  "or_wild x = (case x of None \<Rightarrow> Wild | Some v \<Rightarrow> Value v)"

section \<open>Entries\<close>

text \<open>The word at \<open>p\<close>, if all four bytes are there.\<close>

definition blob_be32 :: "u8 list \<Rightarrow> nat \<Rightarrow> u32 option" where
  "blob_be32 b p = (if p + 4 \<le> length b then
     Some (push_bit 24 (ucast (b ! p)) OR push_bit 16 (ucast (b ! (p + 1))) OR
       push_bit 8 (ucast (b ! (p + 2))) OR ucast (b ! (p + 3)))
   else None)"

definition fst_entry :: "u32 \<Rightarrow> nat" where
  "fst_entry i = unat i * FST_ENTRY_SIZE"

definition entry_is_dir :: "u8 list \<Rightarrow> u32 \<Rightarrow> bool option" where
  "entry_is_dir b i = map_option (\<lambda>w. w AND 0xFF000000 \<noteq> 0) (blob_be32 b (fst_entry i))"

definition entry_stroff :: "u8 list \<Rightarrow> u32 \<Rightarrow> u32 option" where
  "entry_stroff b i = map_option (\<lambda>w. w AND 0x00FFFFFF) (blob_be32 b (fst_entry i))"

definition entry_parent :: "u8 list \<Rightarrow> u32 \<Rightarrow> u32 option" where
  "entry_parent b i = blob_be32 b (fst_entry i + 4)"

definition entry_next :: "u8 list \<Rightarrow> u32 \<Rightarrow> u32 option" where
  "entry_next b i = blob_be32 b (fst_entry i + 8)"

definition entry_filepos :: "u8 list \<Rightarrow> u32 \<Rightarrow> u32 option" where
  "entry_filepos b i = blob_be32 b (fst_entry i + 4)"

definition entry_filelen :: "u8 list \<Rightarrow> u32 \<Rightarrow> u32 option" where
  "entry_filelen b i = blob_be32 b (fst_entry i + 8)"

section \<open>Names\<close>

abbreviation slash :: u8 where "slash \<equiv> 0x2F"
abbreviation dot :: u8 where "dot \<equiv> 0x2E"

text \<open>\<open>tolower\<close> of the C locale.\<close>

definition to_lower :: "u8 \<Rightarrow> u8" where
  "to_lower c = (if 0x41 \<le> c \<and> c \<le> 0x5A then c + 0x20 else c)"

text \<open>The second list is the table from the name on; \<open>None\<close> when the comparison runs off its end.
  The NUL of the path differs from every character of the name that is not its own NUL.\<close>

fun name_matches :: "u8 list \<Rightarrow> u8 list \<Rightarrow> bool option" where
  "name_matches path [] = None"
| "name_matches path (c # cs) =
    (if c = 0 then Some (path = [] \<or> hd path = slash)
     else case path of
       [] \<Rightarrow> Some False
     | p # ps \<Rightarrow> if to_lower p \<noteq> to_lower c then Some False else name_matches ps cs)"

section \<open>The image\<close>

definition load_from :: "bool \<Rightarrow> u8 list option \<Rightarrow> Dvd option" where
  "load_from malloc_ok f = (case f of
     None \<Rightarrow> None
   | Some disc \<Rightarrow>
       let header = take 0x440 disc
       in if length header \<noteq> 0x440 then None
          else if blob_be32 header DISC_MAGIC_OFFSET \<noteq> Some DISC_MAGIC then None
          else let fst_off = unat (the (blob_be32 header DISC_FST_OFFSET));
                   fst_size = the (blob_be32 header DISC_FST_SIZE)
          in if unat fst_size < FST_ENTRY_SIZE \<or> fst_size > 0x4000000 then None
             else if \<not> malloc_ok then None
             else let table = take (unat fst_size) (drop fst_off disc)
             in if length table \<noteq> unat fst_size then None
                else let num_entries = the (blob_be32 table 8)
                in if (ucast num_entries :: u64) * 12 > ucast fst_size then None
                   else Some \<lparr>g_iso = Some disc, g_fst = Some table, g_fst_size = fst_size,
                     g_num_entries = num_entries, g_strings = Some (unat num_entries * FST_ENTRY_SIZE),
                     g_ready = True\<rparr>)"

definition dvd_open_image :: "(u8 list \<Rightarrow> u8 list option) \<Rightarrow> bool \<Rightarrow> Dvd \<Rightarrow> u8 list option \<Rightarrow> bool \<times> Dvd" where
  "dvd_open_image fopen malloc_ok dv path =
    (if g_ready dv then (True, dv)
     else case path of
       None \<Rightarrow> (False, dv)
     | Some p \<Rightarrow>
         if p = [] then (False, dv)
         else case load_from malloc_ok (fopen p) of
           None \<Rightarrow> (False, dv)
         | Some dv \<Rightarrow> (True, dv))"

definition dvd_close_image :: "Dvd \<Rightarrow> Dvd" where
  "dvd_close_image dv = dv\<lparr>g_iso := None, g_fst := None, g_strings := None, g_ready := False\<rparr>"

definition dvd_image_ready :: "Dvd \<Rightarrow> bool" where
  "dvd_image_ready dv = g_ready dv"

section \<open>Looking up a path\<close>

text \<open>The loop over the entries of \<open>dir\<close> from \<open>i\<close> on: the first that matches, if any.  The table's
  own \<open>next\<close> fields say where a directory ends, so the loop need not.\<close>

partial_function (option) find_entry ::
  "u8 list \<Rightarrow> u8 list \<Rightarrow> u32 \<Rightarrow> bool \<Rightarrow> u8 list \<Rightarrow> u32 \<Rightarrow> u32 option probe option" where
  "find_entry b strings dir want_dir path i =
    (case entry_next b dir of
       None \<Rightarrow> Some Wild
     | Some stop \<Rightarrow>
         if \<not> i < stop then Some (Value None)
         else case entry_is_dir b i of
           None \<Rightarrow> Some Wild
         | Some is_dir \<Rightarrow>
             (case (if \<not> is_dir \<and> want_dir then Some False
                    else name_matches path (drop (unat (the (entry_stroff b i))) strings)) of
               None \<Rightarrow> Some Wild
             | Some hit \<Rightarrow>
                 if hit then Some (Value (Some i))
                 else if is_dir then
                   (case entry_next b i of
                      None \<Rightarrow> Some Wild
                    | Some next_i \<Rightarrow> find_entry b strings dir want_dir path next_i)
                 else find_entry b strings dir want_dir path (i + 1)))"

text \<open>The loop over the path.\<close>

function walk_path :: "u8 list \<Rightarrow> u8 list \<Rightarrow> u32 \<Rightarrow> u8 list \<Rightarrow> u32 option probe option" where
  "walk_path b strings dir path =
    (if path = [] then Some (Value (Some dir))
     else if hd path = slash then walk_path b strings 0 (tl path)
     else if take 3 path = [dot, dot, slash] then
       (case entry_parent b dir of
          None \<Rightarrow> Some Wild
        | Some parent \<Rightarrow> walk_path b strings parent (drop 3 path))
     else if path = [dot, dot] then Some (map_probe Some (or_wild (entry_parent b dir)))
     else if take 2 path = [dot, slash] then walk_path b strings dir (drop 2 path)
     else if path = [dot] then Some (Value (Some dir))
     else let len = length (takeWhile (\<lambda>c. c \<noteq> slash) path); want_dir = len < length path
     in case find_entry b strings dir want_dir path (dir + 1) of
          None \<Rightarrow> None
        | Some Wild \<Rightarrow> Some Wild
        | Some (Value None) \<Rightarrow> Some (Value None)
        | Some (Value (Some i)) \<Rightarrow>
            if \<not> want_dir then Some (Value (Some i))
            else walk_path b strings i (drop (len + 1) path))"
  by pat_completeness auto
termination walk_path
  by (relation "measure (\<lambda>(b, strings, dir, path). length path)") auto

declare walk_path.simps [simp del]

definition dvd_path_to_entrynum :: "Dvd \<Rightarrow> u8 list option \<Rightarrow> int probe option" where
  "dvd_path_to_entrynum dv path =
    (if \<not> g_ready dv \<or> path = None then Some (Value (-1))
     else map_option (map_probe (\<lambda>r. case r of None \<Rightarrow> -1 | Some i \<Rightarrow> sint i))
       (walk_path (the (g_fst dv)) (drop (the (g_strings dv)) (the (g_fst dv))) 0 (the path)))"

text \<open>The start and length it stores, \<open>None\<close> when it returns false.\<close>

definition dvd_entry_info :: "Dvd \<Rightarrow> int \<Rightarrow> (u32 \<times> u32) option probe" where
  "dvd_entry_info dv entrynum =
    (if \<not> g_ready dv \<or> entrynum < 0 \<or> (of_int entrynum :: u32) \<ge> g_num_entries dv then Value None
     else let b = the (g_fst dv); i = of_int entrynum
     in case entry_is_dir b i of
          None \<Rightarrow> Wild
        | Some True \<Rightarrow> Value None
        | Some False \<Rightarrow>
            (case (entry_filepos b i, entry_filelen b i) of
               (Some pos, Some len) \<Rightarrow> Value (Some (pos, len))
             | _ \<Rightarrow> Wild))"

section \<open>Reading\<close>

text \<open>\<open>fread\<close> of \<open>n\<close> bytes at \<open>off\<close>: as many as there are.\<close>

definition disc_read :: "u8 list \<Rightarrow> u32 \<Rightarrow> nat \<Rightarrow> u8 list" where
  "disc_read disc off n = take n (drop (unat off) disc)"

text \<open>Where the fast path writes: the offset in RAM, if one of its two tests holds.\<close>

definition mem1_target :: "'e CPUState \<Rightarrow> u32 \<Rightarrow> u32 \<Rightarrow> u32 option" where
  "mem1_target cpu guest_addr len =
    (if guest_addr \<ge> GC_RAM_BASE \<and> guest_addr + len \<le> GC_RAM_BASE + cpu_ram_size cpu
     then Some (guest_addr - GC_RAM_BASE)
     else if guest_addr \<ge> GC_RAM_UNCACHED \<and> guest_addr + len \<le> GC_RAM_UNCACHED + cpu_ram_size cpu
     then Some (guest_addr - GC_RAM_UNCACHED)
     else None)"

definition dvd_read_to_guest :: "'e PPCHost \<Rightarrow> Dvd \<Rightarrow> 'e CPUState \<Rightarrow> u32 \<Rightarrow> u32 \<Rightarrow> u32 \<Rightarrow> 'e CPUState probe" where
  "dvd_read_to_guest h dv cpu guest_addr disc_off len =
    (if \<not> g_ready dv \<or> len = 0 then Value cpu
     else let disc = the (g_iso dv)
     in case mem1_target cpu guest_addr len of
          Some dst \<Rightarrow>
            if unat dst + unat len > unat (cpu_ram_size cpu) then Wild
            else let data = disc_read disc disc_off (unat len)
            in Value (cpu\<lparr>cpu_ram := \<lambda>a. if a - dst < len
                 then (if unat (a - dst) < length data then data ! unat (a - dst) else 0)
                 else cpu_ram cpu a\<rparr>)
        | None \<Rightarrow>
            Value (fold (\<lambda>k cpu. mem_write8 h cpu (guest_addr + of_nat k)
                (case disc_read disc (disc_off + of_nat k) 1 of [] \<Rightarrow> 0 | b # bs \<Rightarrow> b))
              [0..<unat len] cpu))"

end
