(* ===== verification/DvdFacts.thy ===== *)
theory DvdFacts
  imports Dvd
begin

text \<open>
  What a disc's file-system table means, a tree of directories and files, and that looking a path
  up in a well-formed table is looking it up in its tree.
\<close>

section \<open>Trees and the tables that store them\<close>

datatype fs_node =
  is_file: File_node (node_name: "u8 list") (file_pos: u32) (file_len: u32)
| Dir_node (node_name: "u8 list") (node_kids: "fs_node list")

text \<open>The entries of the table a node takes.\<close>

fun entries :: "fs_node \<Rightarrow> nat" where
  "entries (File_node nm pos len) = 1"
| "entries (Dir_node nm kids) = Suc (sum_list (map entries kids))"

definition named :: "u8 list \<Rightarrow> u8 list \<Rightarrow> u32 \<Rightarrow> u8 list \<Rightarrow> bool" where
  "named b strings i nm \<longleftrightarrow> (case entry_stroff b i of
     None \<Rightarrow> False
   | Some off \<Rightarrow> take (Suc (length nm)) (drop (unat off) strings) = nm @ [0] \<and> 0 \<notin> set nm \<and> slash \<notin> set nm)"

text \<open>Node \<open>n\<close> is stored from entry \<open>i\<close> on, in the directory \<open>p\<close>: directories in preorder, each
  with the index behind its last descendant.\<close>

fun stored :: "u8 list \<Rightarrow> u8 list \<Rightarrow> nat \<Rightarrow> nat \<Rightarrow> fs_node \<Rightarrow> bool"
  and stored_list :: "u8 list \<Rightarrow> u8 list \<Rightarrow> nat \<Rightarrow> nat \<Rightarrow> fs_node list \<Rightarrow> bool" where
  "stored b strings p i (File_node nm pos len) \<longleftrightarrow> entry_is_dir b (of_nat i) = Some False \<and>
     named b strings (of_nat i) nm \<and> entry_filepos b (of_nat i) = Some pos \<and> entry_filelen b (of_nat i) = Some len"
| "stored b strings p i (Dir_node nm kids) \<longleftrightarrow> entry_is_dir b (of_nat i) = Some True \<and>
     named b strings (of_nat i) nm \<and> entry_parent b (of_nat i) = Some (of_nat p) \<and>
     entry_next b (of_nat i) = Some (of_nat (i + entries (Dir_node nm kids))) \<and> stored_list b strings i (Suc i) kids"
| "stored_list b strings p i [] \<longleftrightarrow> True"
| "stored_list b strings p i (n # ns) \<longleftrightarrow> stored b strings p i n \<and> stored_list b strings p (i + entries n) ns"

definition dir_at :: "u8 list \<Rightarrow> u8 list \<Rightarrow> nat \<Rightarrow> nat \<Rightarrow> fs_node \<Rightarrow> bool" where
  "dir_at b strings p i n \<longleftrightarrow> (case n of
     File_node nm pos len \<Rightarrow> False
   | Dir_node nm kids \<Rightarrow> entry_is_dir b (of_nat i) = Some True \<and> entry_parent b (of_nat i) = Some (of_nat p) \<and>
       entry_next b (of_nat i) = Some (of_nat (i + entries n)) \<and> stored_list b strings i (Suc i) kids \<and>
       i + entries n < 2 ^ 31)"

text \<open>The image in the drive holds the tree whose root directory has these children.\<close>

definition mounted :: "Dvd \<Rightarrow> fs_node list \<Rightarrow> bool" where
  "mounted dv kids \<longleftrightarrow> (case (g_fst dv, g_strings dv) of
     (Some b, Some off) \<Rightarrow> g_ready dv \<and> dir_at b (drop off b) 0 0 (Dir_node [] kids) \<and>
       g_num_entries dv = of_nat (entries (Dir_node [] kids))
   | _ \<Rightarrow> False)"

section \<open>Paths in a tree\<close>

fun components :: "u8 list \<Rightarrow> u8 list list" where
  "components [] = [[]]"
| "components (c # cs) = (if c = slash then [] # components cs
     else (c # hd (components cs)) # tl (components cs))"

definition same_name :: "u8 list \<Rightarrow> u8 list \<Rightarrow> bool" where
  "same_name a b \<longleftrightarrow> map to_lower a = map to_lower b"

text \<open>The first child of that name, with its index; a component before a slash is never a file.\<close>

fun tree_child :: "nat \<Rightarrow> fs_node list \<Rightarrow> u8 list \<Rightarrow> bool \<Rightarrow> (nat \<times> fs_node) option" where
  "tree_child i [] c want_dir = None"
| "tree_child i (n # ns) c want_dir =
    (if (want_dir \<longrightarrow> \<not> is_file n) \<and> same_name c (node_name n) then Some (i, n)
     else tree_child (i + entries n) ns c want_dir)"

text \<open>A place is a directory with the ones above it.  An empty component goes back to the root,
  except at the end of the path, where it stays.\<close>

definition child :: "(nat \<times> fs_node) list \<Rightarrow> u8 list \<Rightarrow> bool \<Rightarrow> (nat \<times> fs_node) option" where
  "child place c want_dir = tree_child (Suc (fst (hd place))) (node_kids (snd (hd place))) c want_dir"

definition above :: "(nat \<times> fs_node) list \<Rightarrow> (nat \<times> fs_node) list" where
  "above place = (if tl place = [] then place else tl place)"

fun resolve :: "(nat \<times> fs_node) list \<Rightarrow> u8 list list \<Rightarrow> (nat \<times> fs_node) option" where
  "resolve place [] = Some (hd place)"
| "resolve place [c] =
    (if c = [] \<or> c = [dot] then Some (hd place)
     else if c = [dot, dot] then Some (hd (above place))
     else child place c False)"
| "resolve place (c # cs) =
    (if c = [] then resolve [last place] cs
     else if c = [dot] then resolve place cs
     else if c = [dot, dot] then resolve (above place) cs
     else case child place c True of None \<Rightarrow> None | Some d \<Rightarrow> resolve (d # place) cs)"

section \<open>Names\<close>

lemma components_unfold:
  "components path = takeWhile (\<lambda>c. c \<noteq> slash) path #
    (let len = length (takeWhile (\<lambda>c. c \<noteq> slash) path) in
     if len < length path then components (drop (Suc len) path) else [])"
  by (induction path) (auto simp: Let_def)

lemma components_nonempty [simp]: "components path \<noteq> []"
  by (subst components_unfold) simp

lemma to_lower_slash: "to_lower c = slash \<longleftrightarrow> c = slash"
proof
  assume l: "to_lower c = slash"
  show "c = slash"
  proof (cases "0x41 \<le> c \<and> c \<le> 0x5A")
    case True
    then have "unat (c + 0x20) = unat c + 32" by (simp add: word_le_nat_alt unat_word_ariths)
    then have "unat c + 32 = 47" using l True by (simp add: to_lower_def)
    then show ?thesis using True by (simp add: word_le_nat_alt)
  qed (use l in \<open>auto simp: to_lower_def split: if_splits\<close>)
qed (simp add: to_lower_def)

lemma to_lower_0: "to_lower 0 = 0" by (simp add: to_lower_def)

lemma name_matches_whole:
  assumes "0 \<notin> set nm" and "slash \<notin> set nm"
  shows "name_matches path (nm @ 0 # rest) = Some (same_name (takeWhile (\<lambda>c. c \<noteq> slash) path) nm)"
  using assms
proof (induction nm arbitrary: path)
  case Nil
  then show ?case by (cases path) (auto simp: same_name_def)
next
  case (Cons c nm)
  then have c: "c \<noteq> 0" "c \<noteq> slash" by auto
  show ?case
  proof (cases path)
    case Nil
    then show ?thesis using c by (simp add: same_name_def)
  next
    case (Cons p ps)
    have "p = slash \<Longrightarrow> to_lower p \<noteq> to_lower c"
      using c to_lower_slash [of c] to_lower_slash [of slash] by auto
    then show ?thesis using Cons Cons.IH [of ps] Cons.prems c by (auto simp: same_name_def)
  qed
qed

lemma named_matches:
  assumes "named b strings i nm"
  shows "name_matches path (drop (unat (the (entry_stroff b i))) strings) =
    Some (same_name (takeWhile (\<lambda>c. c \<noteq> slash) path) nm)"
proof -
  obtain off where off: "entry_stroff b i = Some off" "take (Suc (length nm)) (drop (unat off) strings) = nm @ [0]"
    and nm: "0 \<notin> set nm" "slash \<notin> set nm"
    using assms by (auto simp: named_def split: option.splits)
  have "drop (unat off) strings = (nm @ [0]) @ drop (Suc (length nm)) (drop (unat off) strings)"
    using off(2) append_take_drop_id [of "Suc (length nm)" "drop (unat off) strings"] by simp
  then obtain rest where "drop (unat off) strings = nm @ 0 # rest" by simp
  then show ?thesis using name_matches_whole [OF nm] off(1) by simp
qed

section \<open>Looking up in a table\<close>

lemma entries_pos: "0 < entries n" by (cases n) simp_all

lemma index_less: "i < e \<Longrightarrow> e < 2 ^ 31 \<Longrightarrow> (of_nat i :: u32) < of_nat e"
  by (simp add: word_less_nat_alt unat_of_nat)

lemma index_signed: "i < e \<Longrightarrow> e < 2 ^ 31 \<Longrightarrow> sint (of_nat i :: u32) = int i"
  by (simp add: signed_of_nat signed_take_bit_int_eq_self)

lemma find_entry_list:
  assumes "entry_next b dir = Some (of_nat e)" and "e < 2 ^ 31"
  shows "stored_list b strings p i kids \<Longrightarrow> e = i + sum_list (map entries kids) \<Longrightarrow>
    find_entry b strings dir want_dir path (of_nat i) =
    Some (Value (map_option (of_nat \<circ> fst) (tree_child i kids (takeWhile (\<lambda>c. c \<noteq> slash) path) want_dir)))"
proof (induction kids arbitrary: i)
  case Nil
  then show ?case by (subst find_entry.simps) (simp add: assms)
next
  case (Cons n ns)
  then have less: "(of_nat i :: u32) < of_nat e"
    using entries_pos [of n] assms(2) by (intro index_less) simp_all
  have IH: "find_entry b strings dir want_dir path (of_nat (i + entries n)) =
    Some (Value (map_option (of_nat \<circ> fst) (tree_child (i + entries n) ns (takeWhile (\<lambda>c. c \<noteq> slash) path) want_dir)))"
    using Cons.prems by (intro Cons.IH) simp_all
  show ?case
  proof (cases n)
    case (File_node nm pos len)
    then show ?thesis
      using Cons.prems less IH named_matches [of b strings "of_nat i" nm path]
      by (subst find_entry.simps) (auto simp: assms add.commute)
  next
    case (Dir_node nm ks)
    then show ?thesis
      using Cons.prems less IH named_matches [of b strings "of_nat i" nm path]
      by (subst find_entry.simps) (auto simp: assms)
  qed
qed


text \<open>A place that is stored: every directory in it is in the next, the last one is the root.\<close>

fun place_ok :: "u8 list \<Rightarrow> u8 list \<Rightarrow> fs_node \<Rightarrow> (nat \<times> fs_node) list \<Rightarrow> bool" where
  "place_ok b strings root [] = False"
| "place_ok b strings root [d] \<longleftrightarrow> d = (0, root) \<and> dir_at b strings 0 0 root"
| "place_ok b strings root (d # d' # ds) \<longleftrightarrow>
    dir_at b strings (fst d') (fst d) (snd d) \<and> fst d + entries (snd d) \<le> entries root \<and>
    place_ok b strings root (d' # ds)"

lemma place_hd: "place_ok b strings root place \<Longrightarrow>
    place \<noteq> [] \<and> dir_at b strings (fst (hd (above place))) (fst (hd place)) (snd (hd place)) \<and>
    fst (hd place) + entries (snd (hd place)) \<le> entries root"
  by (cases place rule: remdups_adj.cases) (auto simp: above_def)

lemma place_above: "place_ok b strings root place \<Longrightarrow> place_ok b strings root (above place)"
  by (cases place rule: remdups_adj.cases) (auto simp: above_def)

lemma place_root: "place_ok b strings root place \<Longrightarrow> place_ok b strings root [last place] \<and> fst (last place) = 0"
  by (induction place rule: induct_list012) auto

lemma stored_child:
  "tree_child i kids c want_dir = Some (j, n) \<Longrightarrow> stored_list b strings p i kids \<Longrightarrow>
    stored b strings p j n \<and> i \<le> j \<and> j + entries n \<le> i + sum_list (map entries kids) \<and> (want_dir \<longrightarrow> \<not> is_file n)"
proof (induction kids arbitrary: i)
  case (Cons m ms)
  show ?case
  proof (cases "(want_dir \<longrightarrow> \<not> is_file m) \<and> same_name c (node_name m)")
    case True
    then show ?thesis using Cons.prems by auto
  next
    case False
    then show ?thesis using Cons.IH [of "i + entries m"] Cons.prems by auto
  qed
qed simp

lemma dir_at_cases:
  assumes "dir_at b strings p i n"
  obtains nm kids where "n = Dir_node nm kids" and "entry_is_dir b (of_nat i) = Some True"
    and "entry_parent b (of_nat i) = Some (of_nat p)" and "entry_next b (of_nat i) = Some (of_nat (Suc i + sum_list (map entries kids)))"
    and "stored_list b strings i (Suc i) kids" and "Suc i + sum_list (map entries kids) < 2 ^ 31"
  using assms by (cases n) (auto simp: dir_at_def)

lemma place_child:
  assumes "place_ok b strings root place" and "child place c True = Some d"
  shows "place_ok b strings root (d # place)"
proof -
  obtain ds where place: "place = hd place # ds" using place_hd [OF assms(1)] by (cases place) auto
  from place_hd [OF assms(1)] obtain nm kids where
    kids: "snd (hd place) = Dir_node nm kids" "stored_list b strings (fst (hd place)) (Suc (fst (hd place))) kids"
      "Suc (fst (hd place)) + sum_list (map entries kids) < 2 ^ 31"
    by (auto elim: dir_at_cases)
  obtain j n where d: "d = (j, n)" by (cases d)
  note at = stored_child [OF assms(2) [unfolded child_def kids(1) d fs_node.sel] kids(2)]
  then have "dir_at b strings (fst (hd place)) j n"
    using kids(3) by (cases n) (auto simp: dir_at_def)
  moreover have "j + entries n \<le> entries root"
    using at place_hd [OF assms(1)] by (simp add: kids(1))
  moreover have "place_ok b strings root (hd place # ds)" using assms(1) place by metis
  ultimately have "place_ok b strings root (d # hd place # ds)" by (simp add: d)
  then show ?thesis using place by metis
qed

lemma find_entry_child:
  assumes "place_ok b strings root place"
  shows "find_entry b strings (of_nat (fst (hd place))) want_dir path (of_nat (fst (hd place)) + 1) =
    Some (Value (map_option (of_nat \<circ> fst) (child place (takeWhile (\<lambda>c. c \<noteq> slash) path) want_dir)))"
proof -
  from place_hd [OF assms] obtain nm kids where
    kids: "snd (hd place) = Dir_node nm kids" "stored_list b strings (fst (hd place)) (Suc (fst (hd place))) kids"
      "entry_next b (of_nat (fst (hd place))) = Some (of_nat (Suc (fst (hd place)) + sum_list (map entries kids)))"
      "Suc (fst (hd place)) + sum_list (map entries kids) < 2 ^ 31"
    by (auto elim: dir_at_cases)
  show ?thesis
    using find_entry_list [OF kids(3,4,2) refl] by (simp add: child_def kids(1) add.commute)
qed

lemma component_cases:
  fixes path :: "u8 list"
  assumes "path \<noteq> []" and "hd path \<noteq> slash"
  defines "c \<equiv> takeWhile (\<lambda>x. x \<noteq> slash) path"
  shows "c \<noteq> []" and "take 3 path = [dot, dot, slash] \<longleftrightarrow> c = [dot, dot] \<and> length c < length path"
    and "path = [dot, dot] \<longleftrightarrow> c = [dot, dot] \<and> length c = length path"
    and "take 2 path = [dot, slash] \<longleftrightarrow> c = [dot] \<and> length c < length path"
    and "path = [dot] \<longleftrightarrow> c = [dot] \<and> length c = length path"
proof -
  obtain x xs where p: "path = x # xs" "x \<noteq> slash" using assms(1,2) by (cases path) auto
  show "c \<noteq> []" by (simp add: c_def p)
  show "take 3 path = [dot, dot, slash] \<longleftrightarrow> c = [dot, dot] \<and> length c < length path"
    using p by (cases xs; cases "tl xs") (auto simp: c_def numeral_3_eq_3)
  show "path = [dot, dot] \<longleftrightarrow> c = [dot, dot] \<and> length c = length path"
    using p by (cases xs; cases "tl xs") (auto simp: c_def)
  show "take 2 path = [dot, slash] \<longleftrightarrow> c = [dot] \<and> length c < length path"
    using p by (cases xs) (auto simp: c_def numeral_2_eq_2)
  show "path = [dot] \<longleftrightarrow> c = [dot] \<and> length c = length path"
    using p by (cases xs) (auto simp: c_def)
qed


lemma resolve_more:
  "cs \<noteq> [] \<Longrightarrow> resolve place (c # cs) =
    (if c = [] then resolve [last place] cs
     else if c = [dot] then resolve place cs
     else if c = [dot, dot] then resolve (above place) cs
     else case child place c True of None \<Rightarrow> None | Some d \<Rightarrow> resolve (d # place) cs)"
  by (cases cs) auto

lemma walk_path_resolves:
  "place_ok b strings root place \<Longrightarrow>
    walk_path b strings (of_nat (fst (hd place))) path =
    Some (Value (map_option (of_nat \<circ> fst) (resolve place (components path))))"
proof (induction path arbitrary: place rule: length_induct)
  case (1 path)
  let ?c = "takeWhile (\<lambda>x. x \<noteq> slash) path" and ?i = "of_nat (fst (hd place)) :: u32"
  let ?rest = "components (drop (Suc (length ?c)) path)"
  note ok = "1.prems" and IH = "1.IH" [rule_format]
  note at = place_hd [OF ok]
  show ?case
  proof (cases "path = []")
    case True
    then show ?thesis by (simp add: walk_path.simps)
  next
    case nonempty: False
    show ?thesis
    proof (cases "hd path = slash")
      case True
      then obtain ps where path: "path = slash # ps" using nonempty by (cases path) auto
      have "resolve place ([] # components ps) = resolve [last place] (components ps)"
        by (simp add: resolve_more)
      then show ?thesis
        using IH [of ps "[last place]"] place_root [OF ok] path by (subst walk_path.simps) simp
    next
      case False
      note c = component_cases [OF nonempty False]
      have comps: "components path = ?c # (if length ?c < length path then ?rest else [])"
        by (subst components_unfold) (simp add: Let_def)
      have more: "resolve place (components path) =
          (if ?c = [dot] then resolve place ?rest
           else if ?c = [dot, dot] then resolve (above place) ?rest
           else case child place ?c True of None \<Rightarrow> None | Some d \<Rightarrow> resolve (d # place) ?rest)"
        if "length ?c < length path"
        using that c(1) unfolding comps by (simp add: resolve_more)
      have last: "resolve place (components path) =
          (if ?c = [dot] then Some (hd place) else if ?c = [dot, dot] then Some (hd (above place)) else child place ?c False)"
        if "\<not> length ?c < length path"
        using that c(1) unfolding comps by simp
      have parent: "entry_parent b ?i = Some (of_nat (fst (hd (above place))))"
        using at by (auto elim: dir_at_cases)
      have len: "length ?c \<le> length path" by (rule length_takeWhile_le)
      consider (up) "take 3 path = [dot, dot, slash]" | (up_end) "path = [dot, dot]" | (stay) "take 2 path = [dot, slash]"
        | (stay_end) "path = [dot]" | (name) "take 3 path \<noteq> [dot, dot, slash]" "path \<noteq> [dot, dot]" "take 2 path \<noteq> [dot, slash]" "path \<noteq> [dot]"
        by blast
      then show ?thesis
      proof cases
        case up
        then have 3: "?c = [dot, dot]" "length ?c < length path" using c(2) by auto
        then have "resolve place (components path) = resolve (above place) (components (drop 3 path))"
          using more by (simp add: numeral_3_eq_3)
        then show ?thesis
          using up nonempty False IH [of "drop 3 path" "above place"] place_above [OF ok] parent
          by (subst walk_path.simps) simp
      next
        case up_end
        then show ?thesis
          using parent by (subst walk_path.simps) (simp add: or_wild_def)
      next
        case stay
        then have 2: "?c = [dot]" "length ?c < length path" using c(4) by auto
        then have "resolve place (components path) = resolve place (components (drop 2 path))"
          using more by (simp add: numeral_2_eq_2)
        moreover have "take 3 path \<noteq> [dot, dot, slash]" "path \<noteq> [dot, dot]" using 2 c(2,3) by auto
        ultimately show ?thesis
          using stay nonempty False IH [of "drop 2 path" place] ok
          by (subst walk_path.simps) simp
      next
        case stay_end
        then show ?thesis by (subst walk_path.simps) simp
      next
        case name
        note found = find_entry_child [OF ok, of _ path]
        have step: "walk_path b strings ?i path = (case child place ?c (length ?c < length path) of
             None \<Rightarrow> Some (Value None)
           | Some d \<Rightarrow> if \<not> length ?c < length path then Some (Value (Some (of_nat (fst d))))
               else walk_path b strings (of_nat (fst d)) (drop (Suc (length ?c)) path))"
          using name nonempty False
          by (subst walk_path.simps) (simp add: Let_def found split: option.split)
        have c': "length ?c < length path \<Longrightarrow> ?c \<noteq> [dot] \<and> ?c \<noteq> [dot, dot]"
          "\<not> length ?c < length path \<Longrightarrow> ?c \<noteq> [dot] \<and> ?c \<noteq> [dot, dot]"
          using name c(2-5) len by auto
        show ?thesis
        proof (cases "length ?c < length path")
          case True
          show ?thesis
          proof (cases "child place ?c True")
            case None
            then show ?thesis using step more [OF True] c'(1) True by simp
          next
            case (Some d)
            have "walk_path b strings (of_nat (fst (hd (d # place)))) (drop (Suc (length ?c)) path) =
              Some (Value (map_option (of_nat \<circ> fst) (resolve (d # place) ?rest)))"
              using True by (intro IH place_child [OF ok Some]) simp
            then show ?thesis using step more [OF True] c'(1) True Some by (simp add: o_def)
          qed
        next
          case False
          then show ?thesis using step last [OF False] c'(2) by (auto split: option.split)
        qed
      qed
    qed
  qed
qed


section \<open>Properties\<close>

lemma entries_u31: "dir_at b strings p i n \<Longrightarrow> i + entries n < 2 ^ 31"
  by (auto elim: dir_at_cases)

definition in_table :: "u8 list \<Rightarrow> fs_node \<Rightarrow> nat \<times> fs_node \<Rightarrow> bool" where
  "in_table b root d \<longleftrightarrow> fst d + entries (snd d) \<le> entries root \<and> (case snd d of
     File_node nm pos len \<Rightarrow> entry_is_dir b (of_nat (fst d)) = Some False \<and>
       entry_filepos b (of_nat (fst d)) = Some pos \<and> entry_filelen b (of_nat (fst d)) = Some len
   | Dir_node nm kids \<Rightarrow> entry_is_dir b (of_nat (fst d)) = Some True)"

lemma place_in_table: "place_ok b strings root place \<Longrightarrow> in_table b root (hd place)"
  using place_hd [of b strings root place] by (auto simp: in_table_def elim: dir_at_cases)

lemma child_in_table:
  assumes "place_ok b strings root place" and "child place c want_dir = Some d"
  shows "in_table b root d"
proof -
  obtain j n where d: "d = (j, n)" by (cases d)
  from place_hd [OF assms(1)] obtain nm kids where
    kids: "snd (hd place) = Dir_node nm kids" "stored_list b strings (fst (hd place)) (Suc (fst (hd place))) kids"
    by (auto elim: dir_at_cases)
  note at = stored_child [OF assms(2) [unfolded child_def kids(1) d fs_node.sel] kids(2)]
  have "j + entries n \<le> entries root" using at place_hd [OF assms(1)] by (simp add: kids(1))
  then show ?thesis using at by (cases n) (auto simp: in_table_def d)
qed

lemma resolved_in_table:
  "place_ok b strings root place \<Longrightarrow> resolve place cs = Some d \<Longrightarrow> in_table b root d"
proof (induction place cs rule: resolve.induct)
  case (1 place)
  then have "d = hd place" by simp
  then show ?case using place_in_table [OF 1(1)] by simp
next
  case (2 place c)
  consider "d = hd place" | "d = hd (above place)" | "child place c False = Some d"
    using 2(2) unfolding resolve.simps(2) by (metis option.inject)
  then show ?case
  proof cases
    case 1
    then show ?thesis using place_in_table [OF 2(1)] by simp
  next
    case above: 2
    show ?thesis unfolding above by (rule place_in_table [OF place_above [OF 2(1)]])
  next
    case 3
    then show ?thesis by (rule child_in_table [OF 2(1)])
  qed
next
  case (3 place c c' cs)
  consider "c = []" | "c \<noteq> []" "c = [dot]" | "c \<noteq> []" "c \<noteq> [dot]" "c = [dot, dot]"
    | k where "c \<noteq> []" "c \<noteq> [dot]" "c \<noteq> [dot, dot]" "child place c True = Some k"
    using "3.prems"(2) by (auto simp: resolve_more split: if_splits option.splits)
  then show ?case
  proof cases
    case 1
    then show ?thesis using "3.IH"(1) "3.prems" place_root by (simp add: resolve_more)
  next
    case 2
    then show ?thesis using "3.IH"(2) "3.prems" by (simp add: resolve_more)
  next
    case 3
    then show ?thesis using "3.IH"(3) "3.prems" place_above by (simp add: resolve_more)
  next
    case 4
    then show ?thesis using "3.IH"(4) "3.prems" place_child by (simp add: resolve_more)
  qed
qed

text \<open>C30: on a disc whose table stores a tree, looking a path up always ends, reads nothing outside
  the table, and finds what the tree has at that path: components are compared without case, the
  first child wins, a file is found only as the last component, \<open>..\<close> goes up and an empty
  component to the root; and the start and length of the file it finds are those of the tree.\<close>

theorem dvd_lookup_refines_tree:
  assumes "mounted dv kids"
  shows "dvd_path_to_entrynum dv (Some path) =
      Some (Value (case resolve [(0, Dir_node [] kids)] (components path) of None \<Rightarrow> -1 | Some (i, n) \<Rightarrow> int i)) \<and>
    (case resolve [(0, Dir_node [] kids)] (components path) of
       Some (i, File_node nm pos len) \<Rightarrow> dvd_entry_info dv (int i) = Value (Some (pos, len))
     | Some (i, Dir_node nm ks) \<Rightarrow> dvd_entry_info dv (int i) = Value None
     | None \<Rightarrow> True)"
proof -
  let ?root = "Dir_node [] kids"
  obtain b off where b: "g_fst dv = Some b" "g_strings dv = Some off" "g_ready dv"
      "dir_at b (drop off b) 0 0 ?root" "g_num_entries dv = of_nat (entries ?root)"
    using assms by (auto simp: mounted_def split: option.splits)
  have place: "place_ok b (drop off b) ?root [(0, ?root)]" using b(4) by simp
  note walk = walk_path_resolves [OF place, of path] and at = resolved_in_table [OF place, of "components path"]
  have small: "entries ?root < 2 ^ 31" using entries_u31 [OF b(4)] by simp
  have index: "sint (of_nat i :: u32) = int i" "(of_int (int i) :: u32) = of_nat i"
      "(of_nat i :: u32) < of_nat (entries ?root)"
    if "resolve [(0, ?root)] (components path) = Some (i, n)" for i n
  proof -
    have "i < entries ?root"
      using at [OF that] entries_pos [of n] by (simp add: in_table_def)
    then show "(of_nat i :: u32) < of_nat (entries ?root)" using small by (rule index_less)
    show "sint (of_nat i :: u32) = int i"
      using \<open>i < entries ?root\<close> small by (rule index_signed)
    show "(of_int (int i) :: u32) = of_nat i" by simp
  qed
  show ?thesis
  proof (cases "resolve [(0, ?root)] (components path)")
    case None
    then show ?thesis using walk by (simp add: dvd_path_to_entrynum_def b)
  next
    case (Some d)
    obtain i n where d: "d = (i, n)" by (cases d)
    note facts = index [OF Some [unfolded d]] at [OF Some [unfolded d]]
    have "dvd_path_to_entrynum dv (Some path) = Some (Value (int i))"
      using walk facts(1) by (simp add: dvd_path_to_entrynum_def b Some d)
    then show ?thesis
      using facts by (cases n) (auto simp: Some d dvd_entry_info_def b in_table_def not_le)
  qed
qed


text \<open>A disc with a directory \<open>d\<close> that holds the file \<open>f\<close>, five bytes at 0x10, and a second directory
  \<open>e\<close> behind it.\<close>

definition disc_with :: "u8 list \<Rightarrow> u8 list" where
  "disc_with table = (replicate 28 0 @ [0xC2, 0x33, 0x9F, 0x3D]) @ (replicate 1028 0 @ [0, 0, 4, 0x40]) @
     ([0, 0, 0, of_nat (length table)] @ replicate 20 0) @ table"

definition demo_table :: "u8 list" where
  "demo_table = [1, 0, 0, 0,  0, 0, 0, 0,  0, 0, 0, 4,   1, 0, 0, 0,  0, 0, 0, 0,  0, 0, 0, 3,
     0, 0, 0, 2,  0, 0, 0, 0x10,  0, 0, 0, 5,   1, 0, 0, 4,  0, 0, 0, 0,  0, 0, 0, 4,
     0x64, 0, 0x66, 0, 0x65, 0]"

definition demo_tree :: "fs_node list" where
  "demo_tree = [Dir_node [0x64] [File_node [0x66] 0x10 5], Dir_node [0x65] []]"

definition demo_drive :: "u8 list \<Rightarrow> Dvd" where
  "demo_drive table = \<lparr>g_iso = Some (disc_with table), g_fst = Some table, g_fst_size = of_nat (length table),
     g_num_entries = the (blob_be32 table 8), g_strings = Some (unat (the (blob_be32 table 8)) * 12), g_ready = True\<rparr>"

lemma blob_be32_append:
  "length xs \<le> p \<Longrightarrow> blob_be32 (xs @ ys) p = blob_be32 ys (p - length xs)"
  by (auto simp: blob_be32_def nth_append dest!: le_Suc_ex)

lemma disc_with_header:
  assumes "length table < 256"
  shows "blob_be32 (disc_with table) 0x1C = Some 0xC2339F3D" and "blob_be32 (disc_with table) 0x424 = Some 0x440"
    and "blob_be32 (disc_with table) 0x428 = Some (of_nat (length table))"
    and "drop 0x440 (disc_with table) = table" and "length (disc_with table) = 0x440 + length table"
proof -
  have "ucast (of_nat (length table) :: u8) = (of_nat (length table) :: u32)"
    using assms by (simp add: word_unat_eq_iff unsigned_ucast_eq unat_of_nat take_bit_nat_eq_self)
  then show "blob_be32 (disc_with table) 0x428 = Some (of_nat (length table))"
    by (simp add: disc_with_def blob_be32_append) (simp add: blob_be32_def nth_append)
qed (simp_all add: disc_with_def blob_be32_append, simp_all add: blob_be32_def nth_append)

lemma demo_drive_loads:
  assumes "12 \<le> length table" and "length table < 256" and "blob_be32 table 8 = Some n" and "unat n * 12 \<le> length table"
  shows "load_from True (Some (disc_with table)) = Some (demo_drive table)"
proof -
  note header = disc_with_header [OF assms(2)]
  have words: "blob_be32 (take 0x440 (disc_with table)) p = blob_be32 (disc_with table) p" if "p + 4 \<le> 0x440" for p
    using that header(5) by (simp add: blob_be32_def)
  have len: "unat (of_nat (length table) :: u32) = length table" using assms(2) by (simp add: unat_of_nat)
  have n: "unat n < 256" using assms(2,4) by linarith
  then have "unat ((ucast n :: u64) * 12) = unat n * 12"
    by (simp add: unat_word_ariths unsigned_ucast_eq take_bit_nat_eq_self)
  moreover have "unat (ucast (of_nat (length table) :: u32) :: u64) = length table"
    using assms(2) len by (simp add: unsigned_ucast_eq take_bit_nat_eq_self)
  ultimately have "\<not> (ucast (of_nat (length table) :: u32) :: u64) < ucast n * 12"
    using assms(4) by (simp add: word_less_nat_alt)
  moreover have "\<not> (0x4000000 :: u32) < of_nat (length table)" using assms(2) len by (simp add: word_less_nat_alt)
  ultimately show ?thesis
    using assms(1) by (simp add: load_from_def Let_def words header len assms(3) demo_drive_def)
qed

lemma demo_mounted: "mounted (demo_drive demo_table) demo_tree"
  by (simp add: mounted_def demo_drive_def demo_table_def demo_tree_def dir_at_def blob_be32_def entry_is_dir_def
      entry_parent_def entry_next_def entry_filepos_def entry_filelen_def entry_stroff_def named_def fst_entry_def)

lemma dvd_lookup_refines_tree_witness:
  "dvd_path_to_entrynum (demo_drive demo_table) (Some [0x45, 0x2F, 0x2E, 0x2E, 0x2F, 0x44, 0x2F, 0x46]) = Some (Value 2) \<and>
   dvd_entry_info (demo_drive demo_table) 2 = Value (Some (0x10, 5)) \<and>
   dvd_path_to_entrynum (demo_drive demo_table) (Some [0x46]) = Some (Value (-1))"
  using dvd_lookup_refines_tree [OF demo_mounted, of "[0x45, 0x2F, 0x2E, 0x2E, 0x2F, 0x44, 0x2F, 0x46]"]
    dvd_lookup_refines_tree [OF demo_mounted, of "[0x46]"]
  by (simp add: demo_tree_def child_def above_def same_name_def to_lower_def)


lemma find_entry_stuck:
  assumes "entry_next b dir = Some stop" and "i < stop" and "entry_is_dir b i = Some True" and "entry_next b i = Some i"
    and "name_matches path (drop (unat (the (entry_stroff b i))) strings) = Some False"
  shows "find_entry b strings dir want_dir path i = None"
proof -
  let ?P = "\<lambda>b' s' d' w' p' j (r :: u32 option probe). (b', s', d', p', j) \<noteq> (b, strings, dir, path, i)"
  have "?P b strings dir want_dir path i r" if "find_entry b strings dir want_dir path i = Some r" for r
    by (rule find_entry.raw_induct [where P = ?P, OF _ that]) (use assms in \<open>auto; blast\<close>)
  then show ?thesis by (cases "find_entry b strings dir want_dir path i") auto
qed

text \<open>A table of two entries whose second, a directory \<open>a\<close>, ends where it starts.\<close>

definition stuck_table :: "u8 list" where
  "stuck_table = [1, 0, 0, 0,  0, 0, 0, 0,  0, 0, 0, 2,   1, 0, 0, 0,  0, 0, 0, 0,  0, 0, 0, 1,   0x61, 0]"

text \<open>An image is not checked beyond its header: this one opens, but looking up any name other
  than \<open>a\<close> in it never returns.\<close>

theorem dvd_lookup_can_hang:
  "dvd_open_image (\<lambda>p. Some (disc_with stuck_table)) True dvd_start (Some [0x78]) = (True, demo_drive stuck_table) \<and>
   dvd_path_to_entrynum (demo_drive stuck_table) (Some [0x62]) = None"
proof -
  have b: "blob_be32 stuck_table 8 = Some 2" "blob_be32 stuck_table 12 = Some 0x01000000" "blob_be32 stuck_table 20 = Some 1"
    by (simp_all add: stuck_table_def blob_be32_def)
  have "load_from True (Some (disc_with stuck_table)) = Some (demo_drive stuck_table)"
    by (rule demo_drive_loads [OF _ _ b(1)]) (simp_all add: stuck_table_def)
  moreover have "find_entry stuck_table [0x61, 0] 0 False [0x62] 1 = None"
    by (rule find_entry_stuck [where stop = 2])
      (simp_all add: entry_next_def entry_is_dir_def entry_stroff_def fst_entry_def b to_lower_def)
  moreover have "drop 24 stuck_table = [0x61, 0]" by (simp add: stuck_table_def)
  ultimately show ?thesis
    by (simp add: dvd_open_image_def dvd_start_def dvd_path_to_entrynum_def demo_drive_def b walk_path.simps)
qed

text \<open>C31: a read that fits in the guest's RAM puts exactly the disc's bytes there, zeros behind the end
  of the image, through the cached and the uncached addresses alike, and changes nothing else.\<close>

theorem dvd_read_exact:
  assumes "g_ready dv" and "g_iso dv = Some disc" and "guest_addr = GC_RAM_BASE + off \<or> guest_addr = GC_RAM_UNCACHED + off"
    and "unat off + unat len \<le> unat (cpu_ram_size cpu)" and "cpu_ram_size cpu \<le> 0x10000000"
  shows "\<exists>ram. dvd_read_to_guest h dv cpu guest_addr pos len = Value (cpu\<lparr>cpu_ram := ram\<rparr>) \<and>
    (\<forall>k < unat len. ram (off + of_nat k) = (if unat pos + k < length disc then disc ! (unat pos + k) else 0)) \<and>
    (\<forall>a. \<not> a - off < len \<longrightarrow> ram a = cpu_ram cpu a)"
proof (cases "len = 0")
  case True
  then show ?thesis by (auto simp: dvd_read_to_guest_def intro!: exI [of _ "cpu_ram cpu"])
next
  case False
  have size: "unat (cpu_ram_size cpu) \<le> 0x10000000" using assms(5) by (simp add: word_le_nat_alt)
  have n: "unat (GC_RAM_BASE + off) = unat GC_RAM_BASE + unat off" "unat (GC_RAM_UNCACHED + off) = unat GC_RAM_UNCACHED + unat off"
    "unat (GC_RAM_BASE + off + len) = unat GC_RAM_BASE + unat off + unat len"
    "unat (GC_RAM_UNCACHED + off + len) = unat GC_RAM_UNCACHED + unat off + unat len"
    "unat (GC_RAM_BASE + cpu_ram_size cpu) = unat GC_RAM_BASE + unat (cpu_ram_size cpu)"
    "unat (GC_RAM_UNCACHED + cpu_ram_size cpu) = unat GC_RAM_UNCACHED + unat (cpu_ram_size cpu)"
    using size assms(4) by (simp_all add: unat_word_ariths)
  have "len \<noteq> 0 \<Longrightarrow> 0 < unat len" by (simp add: unat_gt_0)
  then have target: "mem1_target cpu guest_addr len = Some off"
    using assms(3,4) size n False by (auto simp: mem1_target_def word_le_nat_alt)
  let ?data = "disc_read disc pos (unat len)"
  let ?ram = "\<lambda>a. if a - off < len then (if unat (a - off) < length ?data then ?data ! unat (a - off) else 0) else cpu_ram cpu a"
  have "dvd_read_to_guest h dv cpu guest_addr pos len = Value (cpu\<lparr>cpu_ram := ?ram\<rparr>)"
    using assms(1,2,4) False target by (simp add: dvd_read_to_guest_def Let_def)
  moreover have "?ram (off + of_nat k) = (if unat pos + k < length disc then disc ! (unat pos + k) else 0)"
    if k: "k < unat len" for k
  proof -
    have "k < 2 ^ 32" using k unsigned_less [of len, where ?'a = nat] by simp
    then have "unat (of_nat k :: u32) = k" by (simp add: unat_of_nat)
    then show ?thesis using k by (auto simp: word_less_nat_alt disc_read_def)
  qed
  ultimately show ?thesis by (intro exI [of _ ?ram]) simp
qed

lemma dvd_read_exact_witness:
  "\<exists>ram. dvd_read_to_guest no_host (demo_drive demo_table) (cpu_init ()) 0xC0001000 0x1C 4 = Value (cpu_init ()\<lparr>cpu_ram := ram\<rparr>) \<and>
     ram 0x1000 = 0xC2"
proof -
  have "disc_with demo_table ! 0x1C = 0xC2" "0x1C < length (disc_with demo_table)"
    by (simp_all add: disc_with_def nth_append)
  moreover obtain ram where ram: "dvd_read_to_guest no_host (demo_drive demo_table) (cpu_init ()) 0xC0001000 0x1C 4 =
      Value (cpu_init ()\<lparr>cpu_ram := ram\<rparr>)"
    "\<forall>k < unat (4 :: u32). ram (0x1000 + of_nat k) =
      (if unat (0x1C :: u32) + k < length (disc_with demo_table) then disc_with demo_table ! (unat (0x1C :: u32) + k) else 0)"
    using dvd_read_exact [of "demo_drive demo_table" "disc_with demo_table" "0xC0001000" "0x1000" 4 "cpu_init ()" no_host "0x1C"]
    by (auto simp: demo_drive_def cpu_init_def cpu_zero_def)
  ultimately show ?thesis using ram(2) [rule_format, of 0] by (intro exI [of _ ram]) simp
qed

text \<open>A length that wraps around the address space passes the range test, and the read writes
  behind the end of guest RAM.\<close>

theorem dvd_read_overruns_ram:
  assumes "g_ready dv" and "cpu_ram_size cpu = GC_MAIN_RAM_SIZE"
  shows "dvd_read_to_guest h dv cpu 0x80000010 pos 0x7FFFFFF0 = Wild"
  using assms by (simp add: dvd_read_to_guest_def mem1_target_def)

lemma dvd_read_overruns_ram_witness:
  "dvd_read_to_guest no_host (demo_drive demo_table) (cpu_init ()) 0x80000010 0 0x7FFFFFF0 = Wild"
  by (rule dvd_read_overruns_ram) (simp_all add: demo_drive_def cpu_init_def cpu_zero_def)

end
