(* ===== verification/Spec2Isabelle.thy ===== *)
theory Spec2Isabelle
  imports GuestTypes ViClock Interrupts Mmio Si Exi Di AudioDma Aram GuestCpu CpuOps DecoderFacts GuestMemory
    AnalysisFacts RelDecode RelImage ChunkFacts EmitCorrect MemoryCardCorrect BootFacts DvdFacts
begin

text \<open>
  A verification library of a static recompiler for PowerPC console executables and of the runtime
  its output runs on.

  \<^bold>\<open>The program.\<close>  src/DolRecomp is the recompiler: it loads an executable image (DOL, a directory
  of REL modules, or RPX), decodes every instruction of its code sections, cuts each section into
  chunks of 4096 instructions, and writes for each chunk a C function that does what the
  instructions do, together with a dispatcher from guest addresses to those functions.
  src/GXRuntime is the runtime the generated C is compiled against: the CPU state with its memory
  access and exceptions, and the devices the guest's memory-mapped accesses reach.  The
  development follows an instruction from the image to its effect: a loader gives the words, the
  decoder the instruction, the emitter the C, and that C is run on the CPU state of the runtime.

  \<^bold>\<open>Foundations.\<close>  Prelude: machine integers, blocks of bytes with the big-endian loops all
  devices repeat, the collections \<open>guard_defs\<close> and \<open>frame_simps\<close>, and the locale \<open>byte_window\<close>.
  GuestTypes: include/core/types.h, accessors and the conversion between single and double bit
  patterns.

  \<^bold>\<open>Devices\<close> (src/GXRuntime/src, one theory per file).  EventClock (event_clock.c) is a table of 32
  timed events; ViClock (vi_clock.c) is its one client, the display retrace.  Interrupts
  (interrupts.c), Si (si.c), Exi (exi.c), Di (di.c), AudioDma (audio_dma.c) are register files with
  side effects, Aram (aram.c) the audio memory; Mmio (mmio_bus.c) routes a guest access to the
  first region that contains it.  A device's state is a record with the fields of the C structure,
  and each function of the file is a definition of the same name that takes and returns it.
  GuestMemory (guest_memory.c) is address translation with host pointers as a block and an
  offset.  MemoryCard (memory_card.c) is the card file store and its container on the host's disk.

  \<^bold>\<open>CPU\<close> (src/GXRuntime/include/core/cpu.h, src/core/cpu.c, cpu_interpreter_*.c).  GuestCpu: the
  state \<open>CPUState\<close> and every width of guest memory access.  CpuOps: exceptions, \<open>rfi\<close>, privileged
  instructions, the floating-point status register, floating loads and stores at bit level, and the
  helper functions the emitted code calls.

  \<^bold>\<open>Recompiler front end\<close> (src/DolRecomp/src/frontend).  PpcOpcode, DecodeForms, Decoder and
  DecoderFacts: decoder*.c.  Dol, Rel with RelFacts, RelImage and RelDecode, and Rpx: dol.c, rel.c,
  rpx.c.  Above them, in src/DolRecomp/src, Loader (loader.c) makes the list of code sections,
  Analysis with AnalysisFacts is analysis.c, Jobs is the thread pool of jobs.c, and Chunks with
  ChunkFacts is the chunk cutting of main.c and the dispatcher it prints.

  \<^bold>\<open>Recompiler back end\<close> (src/DolRecomp/src/backend).  EmitC gives the C that is written a
  syntax and a meaning; Emitter (emitter_integer.c, emitter_branch.c, emitter_system.c,
  emitter_float.c) is the translation of each instruction, EmitFunction (emitter.c) that of a
  chunk: block leaders, cycle costs, the switch and the labels.  PpcIsa is not translated from
  the program: it is the instruction set as the architecture describes it, for the emitted code
  to be compared with.  EmitRun, EmitFacts, EmitLogic, EmitMemory, EmitFlow and EmitSteps compare
  the groups of instructions; EmitDispatch shows that the switches of the emitter partition the
  opcodes; EmitProgram, EmitReturns, EmitDefined, EmitCycles and EmitTables lift this to
  functions, and EmitCorrect states the result for decoded words.
\<close>

text \<open>
  \<^bold>\<open>What the theorems show.\<close>

  \<^item> Recompilation.  The decoder is total, well formed and inverts an assembler
    (DecoderFacts).  Emitted code is defined C for every word whatever, and each function returns
    (\<open>emitted_code_defined\<close>, \<open>emitted_function_returns\<close>).  For the integer, memory,
    condition-register and branch instructions it is equivalent to the architecture, a whole function
    to a run of it (\<open>emitted_instruction_correct\<close>, \<open>emitted_function_simulates\<close>), except for one encoding
    that is shown to differ (\<open>emitted_blrl_differs\<close>) and is not in \<open>in_reference\<close>.  Every cycle is charged
    once when there is no embedded data (\<open>cycles_charged_once\<close>, and \<open>padding_hides_block\<close> for what
    happens otherwise).  Chunks and dispatcher cover the program (ChunkFacts).  The pool of
    threads emits each chunk exactly once in every interleaving and is equivalent to the
    sequential loop (Jobs).
  \<^item> Loading.  What a loader accepts lies within the file and the address space (Dol, RelImage, Rpx),
    relocation patches the instruction it names so that the decoder finds the symbol (RelDecode),
    relocation lists end (RelFacts), and linked modules are apart (Loader).
  \<^item> Analysis.  The constants the analysis of self-modifying code believes in are those the
    architecture computes, on straight-line code without the opcodes it forgets (AnalysisFacts).
  \<^item> Devices.  Each has an invariant kept by all its operations and laws of its protocol over
    sequences of them: the event clock refines a map of deadlines, retraces are neither lost nor
    duplicated, interrupts are level triggered and exactly those of the unread inputs, commands
    and transfers end in exactly one way, DMA keeps its cadence.
  \<^item> Memory.  Guest accesses stay inside the block they land in and read back through every
    mirror (GuestCpu, GuestMemory); the bulk copy moves overlapping ranges correctly.
  \<^item> Memory card.  The file table fits the card, a failing operation changes nothing, and the next
    opening of the container finds what the last operation left (MemoryCardCorrect).

  \<^bold>\<open>Interfaces.\<close>  \<open>byte_window\<close> (Prelude) is byte-addressed storage with loads and stores of some
  widths: the bytes of a block, guest RAM, the auxiliary blocks and the ARAM are interpretations.
  \<open>mmio_device\<close> (Mmio) is what the bus relies on, an access outside the device's window does nothing:
  SI, EXI and DI are interpretations.  \<open>periodic_source\<close> (EventClock) counts the pops of a
  periodic event: the retrace clock is its interpretation.

  \<^bold>\<open>Conventions.\<close>  Integers keep their width as words, so sums wrap where the C wraps.  A pointer
  that may be NULL is an option.  What is not in src or is the outside world is a parameter: the
  callbacks a device is given, the result of allocations, of file input and output and of starting
  a thread, the clock, and zlib.  The code assumes a little-endian host, as does the model.  Arguments
  of an emitted call are evaluated from left to right.

  \<^bold>\<open>Loops.\<close>  Loops over a fixed table are folds or recursion over its indices.  Loops with another
  measure are \<open>function\<close>s with their termination proof (\<open>relocate_list\<close>, \<open>chunk_jobs\<close>, \<open>stsw_loop\<close>).
  Loops that C alone would not end are \<open>partial_function (option)\<close>, and where they are used they
  are shown to return: \<open>normalise_subnormal\<close> (the mantissa reaches its top bit), \<open>ppc_mask32_loop\<close> (it
  visits at most 32 bits), \<open>exec\<close> and \<open>run_labels\<close> (every jump of emitted code goes forward).  There
  is no fuel.  The thread pool is the step relation \<open>pool_step\<close>, whose runs are bounded.
\<close>

text \<open>
  \<^bold>\<open>Not modelled.\<close>

  \<^item> Arithmetic in the host's floating point (most of cpu_interpreter_float.c: quantised loads and
    stores, fused multiply-add, estimates).  The emitted calls are modelled; what they compute is
    a parameter of \<open>machine\<close>.  The debugging journal of guest stores is left out.
  \<^item> Text output: the disassembler, listings, reports, command line and setup wizard of the
    recompiler, and the exact characters of the C it writes; the model has the statements.
  \<^item> The high-level emulation of the console's operating system and the game-specific
    host (src/GXRuntime/src/hle, src/StrikersRecomp): they act on the layouts of one game's
    memory and on host windows, sound and input.
  \<^item> The graphics packet layer (gx_recomp.c) and its backends: floating-point vertex data.
  \<^item> Vendored and generated code, and the emulator under src/Source the project is built beside.
\<close>

end
